(* ===== verification/Prelude.thy ===== *)
theory Prelude
  imports Main "HOL-Library.Word"
begin

text \<open>
  What every component shares: the machine integer types, the error values, the
  transaction-step combinators the engine is written with, a small Hoare logic for them,
  the model of Go's \<open>sort.Search\<close> and \<open>strconv\<close>, and generic lemmas on words, maps and sums.

  Amounts are Go's \<open>int64\<close> and are kept as 64-bit words (\<open>+\<close>, \<open>-\<close> wrap as in Go, \<open>sint\<close>
  reads the signed value). Identifiers, versions, tenant and user numbers are compared,
  printed and incremented by one, never otherwise computed with; they are \<open>int\<close>. A
  \<open>time.Time\<close> is the number of nanoseconds since the zero time, so the zero time is \<open>0\<close>.
\<close>

subsection \<open>Types and collections\<close>

type_synonym money = "64 word"
type_synonym gotime = int

text \<open>
  The errors of errors.go. A \<open>FieldError\<close> keeps the name of the field and drops the prose of
  the reason; a \<open>ConflictError\<close> keeps kind, expected and actual value.
\<close>

datatype gerror =
    FieldError string
  | ErrNotFound
  | ErrDuplicate
  | ErrNoPayoutChannel
  | TransitionError string string string
  | ConflictError string int int
  | ErrCycle
  | ErrDepthExceeded
  | ErrParentAlreadySet
  | ErrInvalidConfig
  | ErrInsufficientBalance
  | ErrOverflow
  | ErrClosed
  | ErrBindingLocked
  | ErrOther string

type_synonym ('e, 's, 'a) estep = "'s \<Rightarrow> ('e + 'a) \<times> 's"

type_synonym ('s, 'a) step = "(gerror, 's, 'a) estep"

text \<open>\<open>errors.Is(err, ErrConflict)\<close>: a ConflictError unwraps to it.\<close>

definition isConflict :: "gerror \<Rightarrow> bool" where
  "isConflict e \<longleftrightarrow> (case e of ConflictError _ _ _ \<Rightarrow> True | _ \<Rightarrow> False)"

named_theorems money_arith "exact signed readings of 64-bit amounts"
named_theorems step_simps "evaluation rules of the transaction-step combinators"
named_theorems hoare_rules "rules of the Hoare logic for transaction steps"

subsection \<open>Transaction steps\<close>

text \<open>
  A step runs on a state and returns an error or a value together with the state it leaves;
  the state is kept on an error too, because Go code mutates in place and the store rolls
  back afterwards. \<open>attempt m f\<close> is \<open>x, err := m(); f\<close>; \<open>andThen\<close> is the same with the usual
  \<open>if err != nil { return err }\<close> after the call. The type of the errors is left open: the ledger's
  own steps (\<open>step\<close>) fail with a \<open>gerror\<close>, the SQL store also with errors of its driver.
\<close>

definition ret :: "'a \<Rightarrow> ('e, 's, 'a) estep" where
  "ret x s = (Inr x, s)"

definition throw :: "'e \<Rightarrow> ('e, 's, 'a) estep" where
  "throw e s = (Inl e, s)"

definition attempt :: "('e, 's, 'a) estep \<Rightarrow> ('e + 'a \<Rightarrow> ('f, 's, 'b) estep) \<Rightarrow> ('f, 's, 'b) estep" where
  "attempt m f s = (case m s of (r, t) \<Rightarrow> f r t)"

definition andThen :: "('e, 's, 'a) estep \<Rightarrow> ('a \<Rightarrow> ('e, 's, 'b) estep) \<Rightarrow> ('e, 's, 'b) estep" where
  "andThen m f = attempt m (\<lambda>r. case r of Inl e \<Rightarrow> throw e | Inr x \<Rightarrow> f x)"

definition liftE :: "'e + 'a \<Rightarrow> ('e, 's, 'a) estep" where
  "liftE r s = (r, s)"

fun loopM :: "('x \<Rightarrow> 'acc \<Rightarrow> ('e, 's, 'acc) estep) \<Rightarrow> 'x list \<Rightarrow> 'acc \<Rightarrow> ('e, 's, 'acc) estep" where
  "loopM f [] acc = ret acc"
| "loopM f (x # xs) acc = andThen (f x acc) (loopM f xs)"

lemma ret_run [step_simps]: "ret x s = (Inr x, s)"
  by (simp add: ret_def)

lemma throw_run [step_simps]: "throw e s = (Inl e, s)"
  by (simp add: throw_def)

lemma liftE_run [step_simps]: "liftE r s = (r, s)"
  by (simp add: liftE_def)

lemma attempt_run [step_simps]: "attempt m f s = f (fst (m s)) (snd (m s))"
  by (simp add: attempt_def split: prod.split)

lemma andThen_run [step_simps]:
  "andThen m f s = (case fst (m s) of Inl e \<Rightarrow> (Inl e, snd (m s)) | Inr x \<Rightarrow> f x (snd (m s)))"
  by (simp add: andThen_def step_simps split: sum.split)

lemma andThen_InrE:
  assumes "andThen m f s = (Inr y, t)"
  obtains x u where "m s = (Inr x, u)" "f x u = (Inr y, t)"
  using assms by (cases "m s") (auto simp: step_simps split: sum.splits)

lemma andThen_Inr_iff:
  "andThen m f s = (Inr y, t) \<longleftrightarrow> (\<exists>x u. m s = (Inr x, u) \<and> f x u = (Inr y, t))"
  by (cases "m s") (auto simp: step_simps split: sum.splits)

lemma ret_Inr_iff [simp]: "ret x s = (Inr y, t) \<longleftrightarrow> y = x \<and> t = s"
  by (auto simp: ret_def)

lemma throw_Inr_iff [simp]: "throw e s = (Inr y, t) \<longleftrightarrow> False"
  by (auto simp: throw_def)

lemma liftE_Inr_iff [simp]: "liftE r s = (Inr y, t) \<longleftrightarrow> r = Inr y \<and> t = s"
  by (auto simp: liftE_def)

subsection \<open>A Hoare logic for steps\<close>

text \<open>
  \<open>hoare P m Q E\<close>: from a state with \<open>P\<close>, a normal result satisfies \<open>Q\<close> and an error
  satisfies \<open>E\<close>. \<open>keeps P m\<close> is the common case that \<open>m\<close> preserves \<open>P\<close> on every exit.
\<close>

definition hoare ::
  "('s \<Rightarrow> bool) \<Rightarrow> ('e, 's, 'a) estep \<Rightarrow> ('a \<Rightarrow> 's \<Rightarrow> bool) \<Rightarrow> ('e \<Rightarrow> 's \<Rightarrow> bool) \<Rightarrow> bool" where
  "hoare P m Q E \<longleftrightarrow>
     (\<forall>s. P s \<longrightarrow> (case m s of (Inr x, t) \<Rightarrow> Q x t | (Inl e, t) \<Rightarrow> E e t))"

definition keeps :: "('s \<Rightarrow> bool) \<Rightarrow> ('e, 's, 'a) estep \<Rightarrow> bool" where
  "keeps P m \<longleftrightarrow> (\<forall>s. P s \<longrightarrow> P (snd (m s)))"

lemma hoareI:
  assumes "\<And>s x t. P s \<Longrightarrow> m s = (Inr x, t) \<Longrightarrow> Q x t"
    and "\<And>s e t. P s \<Longrightarrow> m s = (Inl e, t) \<Longrightarrow> E e t"
  shows "hoare P m Q E"
  using assms by (auto simp: hoare_def split: prod.split sum.split)

lemma hoare_InrD: "hoare P m Q E \<Longrightarrow> P s \<Longrightarrow> m s = (Inr x, t) \<Longrightarrow> Q x t"
  by (auto simp: hoare_def split: prod.splits sum.splits)

lemma hoare_ret [hoare_rules]: "hoare (Q x) (ret x) Q E"
  by (simp add: hoare_def step_simps)

lemma hoare_throw [hoare_rules]: "hoare (E e) (throw e) Q E"
  by (simp add: hoare_def step_simps)

lemma hoare_andThen [hoare_rules]:
  assumes "hoare P m R E" and "\<And>x. hoare (R x) (f x) Q E"
  shows "hoare P (andThen m f) Q E"
  using assms unfolding hoare_def andThen_run
  by (fastforce split: prod.splits sum.splits)

lemma hoare_attempt:
  assumes "hoare P m R F" and "\<And>x. hoare (R x) (f (Inr x)) Q E" and "\<And>e. hoare (F e) (f (Inl e)) Q E"
  shows "hoare P (attempt m f) Q E"
  using assms unfolding hoare_def attempt_run
  by (fastforce split: prod.splits sum.splits)

lemma hoare_weaken:
  assumes "hoare P m Q E" and "\<And>s. P' s \<Longrightarrow> P s" and "\<And>x s. Q x s \<Longrightarrow> Q' x s"
    and "\<And>e s. E e s \<Longrightarrow> E' e s"
  shows "hoare P' m Q' E'"
  using assms unfolding hoare_def by (fastforce split: prod.splits sum.splits)

lemma hoare_loopM:
  assumes "\<And>x acc. x \<in> set xs \<Longrightarrow> hoare (I acc) (f x acc) I E"
  shows "hoare (I acc) (loopM f xs acc) I E"
  using assms
proof (induction xs arbitrary: acc)
  case Nil
  show ?case by (simp add: hoare_ret)
next
  case (Cons x xs)
  have "hoare (I acc) (f x acc) I E" using Cons.prems by simp
  moreover have "hoare (I a) (loopM f xs a) I E" for a
    using Cons.prems by (intro Cons.IH) simp
  ultimately show ?case by (simp add: hoare_andThen)
qed

lemma hoare_if [hoare_rules]:
  "(b \<Longrightarrow> hoare P m Q E) \<Longrightarrow> (\<not> b \<Longrightarrow> hoare P n Q E) \<Longrightarrow> hoare P (if b then m else n) Q E"
  by simp

lemma hoare_case_option [hoare_rules]:
  "(x = None \<Longrightarrow> hoare P m Q E) \<Longrightarrow> (\<And>y. x = Some y \<Longrightarrow> hoare P (f y) Q E) \<Longrightarrow>
   hoare P (case x of None \<Rightarrow> m | Some y \<Rightarrow> f y) Q E"
  by (cases x) auto

lemma hoare_case_sum [hoare_rules]:
  "(\<And>e. x = Inl e \<Longrightarrow> hoare P (f e) Q E) \<Longrightarrow> (\<And>y. x = Inr y \<Longrightarrow> hoare P (g y) Q E) \<Longrightarrow>
   hoare P (case x of Inl e \<Rightarrow> f e | Inr y \<Rightarrow> g y) Q E"
  by (cases x) auto

lemma hoare_case_prod [hoare_rules]:
  "(\<And>a b. x = (a, b) \<Longrightarrow> hoare P (f a b) Q E) \<Longrightarrow> hoare P (case x of (a, b) \<Rightarrow> f a b) Q E"
  by (cases x) auto

text \<open>Only the normal result matters: a failing transaction is rolled back.\<close>

lemma hoare_retI: "(\<And>s. P s \<Longrightarrow> Q x s) \<Longrightarrow> hoare P (ret x) Q E"
  by (simp add: hoare_def step_simps)

lemma hoare_throw_any: "hoare P (throw e) Q (\<lambda>_ _. True)"
  by (simp add: hoare_def step_simps)

lemma hoare_pre: "hoare P m Q E \<Longrightarrow> (\<And>s. P' s \<Longrightarrow> P s) \<Longrightarrow> hoare P' m Q E"
  by (auto simp: hoare_def)

lemma keepsI: "(\<And>s. P s \<Longrightarrow> P (snd (m s))) \<Longrightarrow> keeps P m"
  by (simp add: keeps_def)

lemma keepsD: "keeps P m \<Longrightarrow> P s \<Longrightarrow> P (snd (m s))"
  by (simp add: keeps_def)

lemma hoare_keeps:
  assumes "hoare P m Q E" "keeps I m"
  shows "hoare (\<lambda>s. P s \<and> I s) m (\<lambda>x s. Q x s \<and> I s) (\<lambda>e s. E e s \<and> I s)"
  unfolding hoare_def
proof (intro allI impI)
  fix s
  assume "P s \<and> I s"
  then show "case m s of (Inl e, t) \<Rightarrow> E e t \<and> I t | (Inr x, t) \<Rightarrow> Q x t \<and> I t"
    using assms keepsD [OF assms(2), of s] by (auto simp: hoare_def split: prod.splits sum.splits)
qed

lemma keeps_resultD: "keeps P m \<Longrightarrow> P s \<Longrightarrow> m s = (r, t) \<Longrightarrow> P t"
  by (metis keepsD snd_conv)

lemma keeps_ret [hoare_rules]: "keeps P (ret x)"
  by (simp add: keeps_def step_simps)

lemma keeps_throw [hoare_rules]: "keeps P (throw e)"
  by (simp add: keeps_def step_simps)

lemma keeps_liftE [hoare_rules]: "keeps P (liftE r)"
  by (simp add: keeps_def step_simps)

lemma keeps_attempt [hoare_rules]: "keeps P m \<Longrightarrow> (\<And>r. keeps P (f r)) \<Longrightarrow> keeps P (attempt m f)"
  by (simp add: keeps_def step_simps)

lemma keeps_andThen [hoare_rules]:
  "keeps P m \<Longrightarrow> (\<And>x. keeps P (f x)) \<Longrightarrow> keeps P (andThen m f)"
  by (auto simp: keeps_def step_simps split: sum.split)

lemma keeps_loopM [hoare_rules]: "(\<And>x acc. keeps P (f x acc)) \<Longrightarrow> keeps P (loopM f xs acc)"
  by (induction xs arbitrary: acc) (auto intro: keeps_ret keeps_andThen)

lemma keeps_if [hoare_rules]: "(b \<Longrightarrow> keeps P m) \<Longrightarrow> (\<not> b \<Longrightarrow> keeps P n) \<Longrightarrow> keeps P (if b then m else n)"
  by simp

lemma keeps_case_option [hoare_rules]:
  "(x = None \<Longrightarrow> keeps P m) \<Longrightarrow> (\<And>y. x = Some y \<Longrightarrow> keeps P (f y)) \<Longrightarrow>
   keeps P (case x of None \<Rightarrow> m | Some y \<Rightarrow> f y)"
  by (cases x) auto

lemma keeps_case_sum [hoare_rules]:
  "(\<And>e. x = Inl e \<Longrightarrow> keeps P (f e)) \<Longrightarrow> (\<And>y. x = Inr y \<Longrightarrow> keeps P (g y)) \<Longrightarrow>
   keeps P (case x of Inl e \<Rightarrow> f e | Inr y \<Rightarrow> g y)"
  by (cases x) auto

lemma keeps_case_prod [hoare_rules]:
  "(\<And>a b. x = (a, b) \<Longrightarrow> keeps P (f a b)) \<Longrightarrow> keeps P (case x of (a, b) \<Rightarrow> f a b)"
  by (cases x) auto

lemma keeps_Let [hoare_rules]: "(\<And>x. x = e \<Longrightarrow> keeps P (f x)) \<Longrightarrow> keeps P (Let e f)"
  by simp

subsection \<open>Checked sums of a result list\<close>

text \<open>Folding a fallible pure function over a list, stopping at the first error.\<close>

fun foldE :: "('x \<Rightarrow> 'acc \<Rightarrow> 'e + 'acc) \<Rightarrow> 'x list \<Rightarrow> 'acc \<Rightarrow> 'e + 'acc" where
  "foldE f [] acc = Inr acc"
| "foldE f (x # xs) acc = (case f x acc of Inl e \<Rightarrow> Inl e | Inr a \<Rightarrow> foldE f xs a)"

lemma foldE_append:
  "foldE f (xs @ ys) acc = (case foldE f xs acc of Inl e \<Rightarrow> Inl e | Inr a \<Rightarrow> foldE f ys a)"
  by (induction xs arbitrary: acc) (auto split: sum.split)

subsection \<open>Signed 64-bit readings\<close>

definition in64 :: "int \<Rightarrow> bool" where
  "in64 x \<longleftrightarrow> - 9223372036854775808 \<le> x \<and> x < 9223372036854775808"

lemma sint_in64 [simp, money_arith]: "in64 (sint (m :: money))"
  using sint_ge [of m] sint_lt [of m] by (simp add: in64_def)

lemma sint_lower: "- 9223372036854775808 \<le> sint (m :: money)"
  and sint_upper: "sint (m :: money) < 9223372036854775808"
  using sint_in64 [of m] by (auto simp: in64_def)

lemma sint_word_of_int64: "in64 x \<Longrightarrow> sint (word_of_int x :: money) = x"
  by (simp add: sint_sbintrunc' in64_def signed_take_bit_int_eq_self)

lemma sint_add64 [money_arith]:
  assumes "in64 (sint a + sint b)"
  shows "sint (a + b :: money) = sint a + sint b"
  using sint_word_of_int64 [OF assms] by (simp add: wi_hom_add [symmetric])

lemma sint_sub64 [money_arith]:
  assumes "in64 (sint a - sint b)"
  shows "sint (a - b :: money) = sint a - sint b"
  using sint_word_of_int64 [OF assms] by (simp add: wi_hom_sub [symmetric])

lemma sint_minus64 [money_arith]:
  assumes "in64 (- sint a)"
  shows "sint (- a :: money) = - sint a"
  using sint_word_of_int64 [OF assms] by (simp add: wi_hom_neg [symmetric])

lemma sint_eq64: "sint a = sint b \<longleftrightarrow> a = (b :: money)"
  by (metis signed_word_eqI)

lemma sless_sint: "a <s b \<longleftrightarrow> sint a < sint (b :: money)"
  by (rule word_sless_alt)

lemma sle_sint: "a <=s b \<longleftrightarrow> sint a \<le> sint (b :: money)"
  by (rule word_sle_eq)

lemma unat64_less: "unat (a :: 64 word) < 18446744073709551616"
proof -
  have "unat a < 2 ^ LENGTH(64)" by (rule unsigned_less)
  then show ?thesis by simp
qed

lemma unat_minus_one64: "unat (- 1 :: 64 word) = 18446744073709551615"
  by (simp add: unsigned_minus_1_eq_mask mask_eq_exp_minus_1)

lemma uint_of_sint64: "uint (v :: money) = sint v mod 18446744073709551616"
proof -
  have "uint (word_of_int (sint v) :: money) = sint v mod 2 ^ LENGTH(64)"
    by (rule uint_word_of_int)
  then show ?thesis by simp
qed

lemma mod_wrap:
  fixes y n :: int
  assumes "- n \<le> y" "y < 2 * n" "0 < n"
  shows "y mod n = (if y < 0 then y + n else if n \<le> y then y - n else y)"
proof -
  consider "y < 0" | "0 \<le> y" "y < n" | "n \<le> y" by linarith
  then show ?thesis
  proof cases
    case 1
    then have "y mod n = (y + n) mod n" by simp
    also have "\<dots> = y + n" using 1 assms by (intro mod_pos_pos_trivial) auto
    finally show ?thesis using 1 by simp
  next
    case 2
    then show ?thesis by simp
  next
    case 3
    then have "y mod n = (y - n) mod n" by simp
    also have "\<dots> = y - n" using 3 assms by (intro mod_pos_pos_trivial) auto
    finally show ?thesis using 3 assms by simp
  qed
qed

subsection \<open>sort.Search\<close>

text \<open>
  Go's \<open>sort.Search(n, f)\<close>: the binary search of the standard library, on the half-open
  range \<open>[i, j)\<close>. For a monotone \<open>f\<close> it is the least index where \<open>f\<close> holds, \<open>n\<close> if there is none.
\<close>

function searchFrom :: "(nat \<Rightarrow> bool) \<Rightarrow> nat \<Rightarrow> nat \<Rightarrow> nat" where
  "searchFrom f i j =
     (if i < j then (let h = (i + j) div 2 in if \<not> f h then searchFrom f (h + 1) j else searchFrom f i h)
      else i)"
  by pat_completeness auto
termination
  by (relation "measure (\<lambda>(f, i, j). j - i)") auto

declare searchFrom.simps [simp del]

definition sortSearch :: "nat \<Rightarrow> (nat \<Rightarrow> bool) \<Rightarrow> nat" where
  "sortSearch n f = searchFrom f 0 n"

lemma searchFrom_spec:
  assumes "i \<le> j" and "\<And>k l. k \<le> l \<Longrightarrow> l < n \<Longrightarrow> f k \<Longrightarrow> f l" and "j \<le> n"
    and "\<And>k. k < i \<Longrightarrow> \<not> f k" and "j < n \<Longrightarrow> f j"
  shows "searchFrom f i j \<le> n \<and> (\<forall>k < searchFrom f i j. \<not> f k) \<and>
    (searchFrom f i j < n \<longrightarrow> f (searchFrom f i j))"
  using assms
proof (induction f i j rule: searchFrom.induct)
  case (1 f i j)
  show ?case
  proof (cases "i < j")
    case False
    then have "searchFrom f i j = i" by (simp add: searchFrom.simps [of f i j])
    with False "1.prems" show ?thesis by auto
  next
    case True
    define h where "h = (i + j) div 2"
    have h: "i \<le> h" "h < j" using True by (auto simp: h_def)
    show ?thesis
    proof (cases "f h")
      case True
      have "searchFrom f i j = searchFrom f i h"
        using \<open>i < j\<close> True by (subst searchFrom.simps) (simp add: h_def [symmetric] Let_def)
      moreover have "searchFrom f i h \<le> n \<and> (\<forall>k < searchFrom f i h. \<not> f k) \<and>
          (searchFrom f i h < n \<longrightarrow> f (searchFrom f i h))"
        using h True "1.prems" by (intro "1.IH"(2) [OF \<open>i < j\<close> h_def]) auto
      ultimately show ?thesis by simp
    next
      case False
      have eq: "searchFrom f i j = searchFrom f (h + 1) j"
        using \<open>i < j\<close> False by (subst searchFrom.simps) (simp add: h_def [symmetric] Let_def)
      have below: "\<not> f k" if "k < h + 1" for k
        using that False h "1.prems"(2) [of k h] "1.prems"(3) by auto
      have "searchFrom f (h + 1) j \<le> n \<and> (\<forall>k < searchFrom f (h + 1) j. \<not> f k) \<and>
          (searchFrom f (h + 1) j < n \<longrightarrow> f (searchFrom f (h + 1) j))"
        using h False below "1.prems" by (intro "1.IH"(1) [OF \<open>i < j\<close> h_def]) auto
      then show ?thesis unfolding eq .
    qed
  qed
qed

lemma sortSearch_spec:
  assumes "\<And>k l. k \<le> l \<Longrightarrow> l < n \<Longrightarrow> f k \<Longrightarrow> f l"
  shows "sortSearch n f \<le> n" and "k < sortSearch n f \<Longrightarrow> \<not> f k"
    and "sortSearch n f \<le> k \<Longrightarrow> k < n \<Longrightarrow> f k"
proof -
  have *: "sortSearch n f \<le> n \<and> (\<forall>k < sortSearch n f. \<not> f k) \<and>
      (sortSearch n f < n \<longrightarrow> f (sortSearch n f))"
    unfolding sortSearch_def by (rule searchFrom_spec) (use assms in auto)
  show "sortSearch n f \<le> n" using * by blast
  show "k < sortSearch n f \<Longrightarrow> \<not> f k" using * by blast
  show "sortSearch n f \<le> k \<Longrightarrow> k < n \<Longrightarrow> f k" using * assms [of "sortSearch n f" k] by force
qed

end
