(* ===== verification/SafeMath.thy ===== *)
theory SafeMath
  imports Prelude
begin

unbundle bit_operations_syntax

text \<open>
  internal/safemath: the overflow-detecting integer primitives, on 64-bit words exactly as
  the Go code computes them (sums wrap, the wrap is detected afterwards). \<open>ok = false\<close> is None.
  The lemmas show that each primitive is the exact mathematical operation where the result
  fits and refuses precisely where it does not.
\<close>

subsection \<open>Definitions\<close>

text \<open>\<open>bits.Mul64\<close>: the 128-bit product as high and low word.\<close>

definition mul64 :: "64 word \<Rightarrow> 64 word \<Rightarrow> 64 word \<times> 64 word" where
  "mul64 a b = (of_nat (unat a * unat b div 2 ^ 64), a * b)"

text \<open>
  \<open>bits.Div64\<close>: quotient and remainder of a 128-bit number; it panics (None) when the divisor
  is zero or the quotient does not fit.
\<close>

definition div64 :: "64 word \<Rightarrow> 64 word \<Rightarrow> 64 word \<Rightarrow> (64 word \<times> 64 word) option" where
  "div64 hi lo d =
     (if d = 0 \<or> d \<le> hi then None
      else let x = unat hi * 2 ^ 64 + unat lo in Some (of_nat (x div unat d), of_nat (x mod unat d)))"

definition safemathMulDiv :: "64 word \<Rightarrow> 64 word \<Rightarrow> 64 word \<Rightarrow> bool \<Rightarrow> bool \<Rightarrow> 64 word option" where
  "safemathMulDiv a b d roundUp halfUp =
     (if d = 0 then None
      else let (hi, lo) = mul64 a b in
        if d \<le> hi then None
        else case div64 hi lo d of
            None \<Rightarrow> None
          | Some (q, r) \<Rightarrow>
              if r = 0 then Some q
              else if roundUp then (if q = NOT 0 then None else Some (q + 1))
              else if halfUp \<and> d - r \<le> r then (if q = NOT 0 then None else Some (q + 1))
              else Some q)"

definition safemathAdd :: "money \<Rightarrow> money \<Rightarrow> money option" where
  "safemathAdd a b =
     (let s = a + b in if (0 <s b \<and> s <s a) \<or> (b <s 0 \<and> a <s s) then None else Some s)"

definition safemathSub :: "money \<Rightarrow> money \<Rightarrow> money option" where
  "safemathSub a b =
     (let d = a - b in if (b <s 0 \<and> d <s a) \<or> (0 <s b \<and> a <s d) then None else Some d)"

definition minInt64 :: money where
  "minInt64 = - 9223372036854775808"

definition safemathNeg :: "money \<Rightarrow> money option" where
  "safemathNeg a = (if a = minInt64 then None else Some (- a))"

subsection \<open>Addition, subtraction and negation are exact or refused\<close>

text \<open>The signed reading of a wrapped 64-bit result, as a case distinction.\<close>

lemma sint_word_of_int_wrap:
  assumes "- 18446744073709551616 \<le> x" "x < 18446744073709551616"
  shows "sint (word_of_int x :: money) =
    (if x < - 9223372036854775808 then x + 18446744073709551616
     else if 9223372036854775808 \<le> x then x - 18446744073709551616 else x)"
proof -
  have "sint (word_of_int x :: money) = (x + 9223372036854775808) mod 18446744073709551616 - 9223372036854775808"
    by (simp add: sint_sbintrunc' signed_take_bit_eq_take_bit_shift take_bit_eq_mod)
  moreover have "(x + 9223372036854775808) mod 18446744073709551616 =
      (if x + 9223372036854775808 < 0 then x + 9223372036854775808 + 18446744073709551616
       else if 18446744073709551616 \<le> x + 9223372036854775808
       then x + 9223372036854775808 - 18446744073709551616
       else x + 9223372036854775808)"
    using assms by (intro mod_wrap) auto
  ultimately show ?thesis by simp
qed

lemma sint_add_wrap: "sint (a + b :: money) =
    (let x = sint a + sint b in
     if x < - 9223372036854775808 then x + 18446744073709551616
     else if 9223372036854775808 \<le> x then x - 18446744073709551616 else x)"
  using sint_word_of_int_wrap [of "sint a + sint b"] sint_lower [of a] sint_lower [of b]
    sint_upper [of a] sint_upper [of b]
  by (simp add: wi_hom_add [symmetric] Let_def)

lemma sint_sub_wrap: "sint (a - b :: money) =
    (let x = sint a - sint b in
     if x < - 9223372036854775808 then x + 18446744073709551616
     else if 9223372036854775808 \<le> x then x - 18446744073709551616 else x)"
  using sint_word_of_int_wrap [of "sint a - sint b"] sint_lower [of a] sint_lower [of b]
    sint_upper [of a] sint_upper [of b]
  by (simp add: wi_hom_sub [symmetric] Let_def)

lemma safemathAdd_exact:
  "safemathAdd a b = (if in64 (sint a + sint b) then Some (a + b) else None)"
  using sint_add_wrap [of a b] sint_lower [of a] sint_lower [of b] sint_upper [of a] sint_upper [of b]
  by (simp add: safemathAdd_def Let_def sless_sint in64_def split: if_splits)

lemma safemathSub_exact:
  "safemathSub a b = (if in64 (sint a - sint b) then Some (a - b) else None)"
  using sint_sub_wrap [of a b] sint_lower [of a] sint_lower [of b] sint_upper [of a] sint_upper [of b]
  by (simp add: safemathSub_def Let_def sless_sint in64_def split: if_splits)

lemma sint_minInt64: "sint minInt64 = - 9223372036854775808"
  by (simp add: minInt64_def)

lemma safemathNeg_exact:
  "safemathNeg a = (if in64 (- sint a) then Some (- a) else None)"
  using sint_eq64 [of a minInt64] sint_lower [of a] sint_upper [of a]
  by (auto simp: safemathNeg_def in64_def sint_minInt64)

subsection \<open>Multiply-then-divide is the exact rounded quotient\<close>

text \<open>The rounding the code promises, on unbounded naturals.\<close>

definition roundQuot :: "bool \<Rightarrow> bool \<Rightarrow> nat \<Rightarrow> nat \<Rightarrow> nat" where
  "roundQuot roundUp halfUp x d =
     (if x mod d = 0 then x div d
      else if roundUp \<or> (halfUp \<and> d \<le> 2 * (x mod d)) then x div d + 1
      else x div d)"

lemma unat_mul64: "mul64 a b = (hi, lo) \<Longrightarrow> unat hi * 2 ^ 64 + unat lo = unat a * unat b"
proof -
  assume "mul64 a b = (hi, lo)"
  then have hi: "hi = of_nat (unat a * unat b div 2 ^ 64)" and lo: "lo = a * b"
    by (auto simp: mul64_def)
  have "unat a * unat b < 2 ^ 64 * 2 ^ 64"
    using unat64_less [of a] unat64_less [of b] by (intro mult_strict_mono) auto
  then have "unat a * unat b div 2 ^ 64 < 2 ^ 64"
    by (simp add: less_mult_imp_div_less)
  then have "unat hi = unat a * unat b div 2 ^ 64"
    by (simp add: hi unat_of_nat)
  moreover have "unat lo = unat a * unat b mod 2 ^ 64"
    by (simp add: lo unat_word_ariths)
  ultimately show ?thesis by simp
qed

lemma div64_exact:
  assumes "hi < d"
  shows "\<exists>q r. div64 hi lo d = Some (q, r) \<and>
    unat q = (unat hi * 2 ^ 64 + unat lo) div unat d \<and>
    unat r = (unat hi * 2 ^ 64 + unat lo) mod unat d"
proof -
  let ?x = "unat hi * 2 ^ 64 + unat lo"
  have d: "0 < unat d" using assms by (simp add: word_less_nat_alt)
  have "?x < (unat hi + 1) * 2 ^ 64" using unat64_less [of lo] by simp
  also have "\<dots> \<le> unat d * 2 ^ 64" using assms by (intro mult_right_mono) (auto simp: word_less_nat_alt)
  finally have "?x div unat d < 2 ^ 64" using d by (simp add: less_mult_imp_div_less mult.commute)
  then have q: "unat (of_nat (?x div unat d) :: 64 word) = ?x div unat d"
    by (simp add: unat_of_nat)
  have "?x mod unat d < 2 ^ 64" using mod_less_divisor [OF d, of ?x] unat64_less [of d] by simp
  then have r: "unat (of_nat (?x mod unat d) :: 64 word) = ?x mod unat d"
    by (simp add: unat_of_nat)
  show ?thesis using assms d q r by (auto simp: div64_def Let_def not_le)
qed


text \<open>
  The routine is total (its \<open>Div64\<close> never panics) and equals the rounded quotient of the
  unbounded product, refusing exactly the quotients that do not fit a uint64.
\<close>

lemma safemathMulDiv_exact:
  "map_option unat (safemathMulDiv a b d up half) =
    (if d = 0 then None
     else let q = roundQuot up half (unat a * unat b) (unat d) in if q < 2 ^ 64 then Some q else None)"
proof (cases "d = 0")
  case True
  then show ?thesis by (simp add: safemathMulDiv_def)
next
  case False
  obtain hi lo where m: "mul64 a b = (hi, lo)" by fastforce
  let ?x = "unat a * unat b"
  have x: "unat hi * 2 ^ 64 + unat lo = ?x" by (rule unat_mul64 [OF m])
  have d: "0 < unat d" using False by (simp add: unat_gt_0)
  show ?thesis
  proof (cases "d \<le> hi")
    case True
    then have "unat d * 2 ^ 64 \<le> ?x" using x by (simp add: word_le_nat_alt flip: x)
    then have "2 ^ 64 \<le> ?x div unat d" using d by (simp add: less_eq_div_iff_mult_less_eq mult.commute)
    then have "\<not> roundQuot up half ?x (unat d) < 2 ^ 64" by (auto simp: roundQuot_def)
    with True False m show ?thesis by (simp add: safemathMulDiv_def Let_def)
  next
    case hi: False
    obtain q r where qr: "div64 hi lo d = Some (q, r)"
      and q: "unat q = ?x div unat d" and r: "unat r = ?x mod unat d"
      using div64_exact [of hi d lo] hi x by (auto simp: not_le)
    have r0: "r = 0 \<longleftrightarrow> ?x mod unat d = 0" using r by (metis unat_eq_zero)
    have top: "q = - 1 \<longleftrightarrow> \<not> ?x div unat d + 1 < 2 ^ 64"
      using q unat64_less [of q] by (auto simp: word_unat_eq_iff unat_minus_one64)
    have inc: "unat (q + 1) = ?x div unat d + 1" if "q \<noteq> - 1"
      using that top q by (simp add: unat_word_ariths)
    have "unat (d - r) = unat d - ?x mod unat d"
      using r mod_less_divisor [OF d, of ?x] by (simp add: unat_sub word_le_nat_alt)
    then have half: "d - r \<le> r \<longleftrightarrow> unat d \<le> 2 * (?x mod unat d)"
      using r by (auto simp: word_le_nat_alt)
    show ?thesis
      using False hi m qr q unat64_less [of q]
      by (auto simp: safemathMulDiv_def Let_def roundQuot_def r0 top inc half)
  qed
qed


lemma safemathMulDiv_Some:
  assumes "d \<noteq> 0" "roundQuot up half (unat a * unat b) (unat d) < 18446744073709551616"
  shows "\<exists>w. safemathMulDiv a b d up half = Some w \<and> unat w = roundQuot up half (unat a * unat b) (unat d)"
  using safemathMulDiv_exact [of a b d up half] assms by (auto simp: Let_def)

end
