(* ===== verification/Strconv.thy ===== *)
theory Strconv
  imports Prelude
begin

text \<open>
  Decimal rendering and parsing of integers: \<open>strconv.FormatInt(v, 10)\<close> / \<open>strconv.Itoa\<close> and
  \<open>strconv.ParseInt(s, 10, 64)\<close> of the Go standard library, and \<open>i64s\<close> of idem.go, the
  hand-written renderer the idempotency keys use. A string is its bytes.
\<close>

subsection \<open>Digits\<close>

definition digitChar :: "nat \<Rightarrow> char" where
  "digitChar n = char_of (48 + n)"

definition isDigit :: "char \<Rightarrow> bool" where
  "isDigit c \<longleftrightarrow> 48 \<le> (of_char c :: nat) \<and> (of_char c :: nat) \<le> 57"

definition digitVal :: "char \<Rightarrow> nat" where
  "digitVal c = of_char c - 48"

lemma of_char_digitChar [simp]: "n < 10 \<Longrightarrow> (of_char (digitChar n) :: nat) = 48 + n"
  by (simp add: digitChar_def)

lemma digitChar_eqs:
  "digitChar 0 = CHR ''0''" "digitChar 1 = CHR ''1''" "digitChar 2 = CHR ''2''" "digitChar 3 = CHR ''3''"
  "digitChar 4 = CHR ''4''" "digitChar 5 = CHR ''5''" "digitChar 6 = CHR ''6''" "digitChar 7 = CHR ''7''"
  "digitChar 8 = CHR ''8''" "digitChar 9 = CHR ''9''"
  by code_simp+

lemma isDigit_digitChar [simp]: "n < 10 \<Longrightarrow> isDigit (digitChar n)"
  by (simp add: isDigit_def)

lemma digitChar_not_sign: "n < 10 \<Longrightarrow> digitChar n \<noteq> CHR ''-'' \<and> digitChar n \<noteq> CHR ''+''"
  by (auto dest!: arg_cong [where f = "of_char :: char \<Rightarrow> nat"])

lemma digitVal_digitChar [simp]: "n < 10 \<Longrightarrow> digitVal (digitChar n) = n"
  by (simp add: digitVal_def)

text \<open>The decimal digits of a natural number, most significant first.\<close>

fun showNat :: "nat \<Rightarrow> string" where
  "showNat n = (if n < 10 then [digitChar n] else showNat (n div 10) @ [digitChar (n mod 10)])"

declare showNat.simps [simp del]

definition readNat :: "string \<Rightarrow> nat" where
  "readNat s = foldl (\<lambda>a c. 10 * a + digitVal c) 0 s"

lemma readNat_snoc [simp]: "readNat (s @ [c]) = 10 * readNat s + digitVal c"
  by (simp add: readNat_def)

lemma readNat_Nil [simp]: "readNat [] = 0"
  by (simp add: readNat_def)

lemma showNat_nonempty [simp]: "showNat n \<noteq> []"
  by (subst showNat.simps) simp

lemma showNat_digits: "list_all isDigit (showNat n)"
proof (induction n rule: showNat.induct)
  case (1 n)
  then show ?case by (cases "n < 10") (simp_all add: showNat.simps [of n])
qed

lemma readNat_showNat [simp]: "readNat (showNat n) = n"
proof (induction n rule: showNat.induct)
  case (1 n)
  show ?case
  proof (cases "n < 10")
    case True
    then show ?thesis by (simp add: showNat.simps [of n] readNat_def)
  next
    case False
    with 1 show ?thesis by (simp add: showNat.simps [of n])
  qed
qed

lemma showNat_inject [simp]: "showNat m = showNat n \<longleftrightarrow> m = n"
  by (metis readNat_showNat)

subsection \<open>FormatInt and ParseInt\<close>

definition formatInt :: "int \<Rightarrow> string" where
  "formatInt v = (if v < 0 then ''-'' @ showNat (nat (- v)) else showNat (nat v))"

text \<open>
  \<open>ParseInt\<close>: an optional sign, at least one digit, only digits, and a value inside int64;
  anything else is an error, here None.
\<close>

definition parseInt :: "string \<Rightarrow> int option" where
  "parseInt s =
     (let (neg, body) = (case s of
          c # cs \<Rightarrow> if c = CHR ''-'' then (True, cs) else if c = CHR ''+'' then (False, cs) else (False, s)
        | [] \<Rightarrow> (False, []));
          v = (if neg then - int (readNat body) else int (readNat body))
      in if body = [] \<or> \<not> list_all isDigit body \<or> \<not> in64 v then None else Some v)"

lemma showNat_head_not_sign: "showNat n \<noteq> CHR ''-'' # cs" "showNat n \<noteq> CHR ''+'' # cs"
  using showNat_digits [of n] by (auto simp: isDigit_def)

lemma parseInt_showNat: "in64 (int n) \<Longrightarrow> parseInt (showNat n) = Some (int n)"
proof -
  assume n: "in64 (int n)"
  obtain c cs where c: "showNat n = c # cs" using showNat_nonempty by (cases "showNat n") auto
  have "c \<noteq> CHR ''-''" "c \<noteq> CHR ''+''" "list_all isDigit (c # cs)" "readNat (c # cs) = n"
    using showNat_head_not_sign [of n] showNat_digits [of n] readNat_showNat [of n] by (auto simp: c)
  with n show ?thesis by (simp add: parseInt_def c Let_def)
qed

lemma parseInt_formatInt [simp]: "in64 v \<Longrightarrow> parseInt (formatInt v) = Some v"
proof (cases "v < 0")
  case True
  assume "in64 v"
  with True showNat_digits [of "nat (- v)"] show ?thesis by (simp add: formatInt_def parseInt_def)
next
  case False
  assume "in64 v"
  with False parseInt_showNat [of "nat v"] show ?thesis by (simp add: formatInt_def)
qed

lemma formatInt_inject [simp]: "formatInt v = formatInt w \<longleftrightarrow> v = w"
  using showNat_head_not_sign(1)
  by (auto simp: formatInt_def nat_eq_iff split: if_splits) metis+

lemma formatInt_nonempty [simp]: "formatInt v \<noteq> []"
  by (simp add: formatInt_def)

subsection \<open>i64s\<close>

text \<open>
  The loop of \<open>i64s\<close> fills a buffer from the right with the digits of \<open>u\<close>; \<open>buf\<close> is the
  part already filled. The 20 bytes of Go's buffer hold any 64-bit value with its sign.
\<close>

function putDigits :: "nat \<Rightarrow> string \<Rightarrow> string" where
  "putDigits u buf = (if u > 0 then putDigits (u div 10) (digitChar (u mod 10) # buf) else buf)"
  by pat_completeness auto
termination
  by (relation "measure fst") auto

declare putDigits.simps [simp del]

definition i64s :: "int \<Rightarrow> string" where
  "i64s v =
     (if v = 0 then ''0''
      else let u = (if v < 0 then nat (- (v + 1)) + 1 else nat v); buf = putDigits u []
           in if v < 0 then CHR ''-'' # buf else buf)"

lemma putDigits_showNat: "u > 0 \<Longrightarrow> putDigits u buf = showNat u @ buf"
proof (induction u buf rule: putDigits.induct)
  case (1 u buf)
  show ?case
  proof (cases "u < 10")
    case True
    with "1.prems" show ?thesis
      by (simp add: putDigits.simps [of u] putDigits.simps [of 0] showNat.simps [of u])
  next
    case False
    with 1 show ?thesis
      by (simp add: putDigits.simps [of u] showNat.simps [of u])
  qed
qed

lemma i64s_formatInt: "i64s v = formatInt v"
proof -
  have "nat (- (v + 1)) + 1 = nat (- v)" if "v < 0" using that by simp
  moreover have "showNat 0 = ''0''" by code_simp
  ultimately show ?thesis
    by (simp add: i64s_def formatInt_def putDigits_showNat Let_def)
qed

lemma i64s_inject [simp]: "i64s v = i64s w \<longleftrightarrow> v = w"
  by (simp add: i64s_formatInt)

end
