(* ===== verification/Money.thy ===== *)
theory Money
  imports SafeMath Strconv
begin

text \<open>
  money.go: rates in basis points, rounding modes, and the checked amount arithmetic, its
  decimal rendering and its parser. Amounts are 64-bit words; a rate is an int32 that is only
  compared, summed in int64 and converted, so it is an \<open>int\<close>.
\<close>

subsection \<open>Rates and rounding\<close>

type_synonym rate = int

definition RateScale :: int where
  "RateScale = 10000"

definition MaxRateBP :: rate where
  "MaxRateBP = RateScale"

definition rateValid :: "rate \<Rightarrow> bool" where
  "rateValid r \<longleftrightarrow> 0 \<le> r \<and> r \<le> MaxRateBP"

text \<open>\<open>strings.TrimRight(s, "0")\<close>.\<close>

definition trimRightZeros :: "string \<Rightarrow> string" where
  "trimRightZeros s = rev (dropWhile (\<lambda>c. c = CHR ''0'') (rev s))"

definition rateString :: "rate \<Rightarrow> string" where
  "rateString r =
     (let neg = (if r < 0 then ''-'' else ''''); v = (if r < 0 then - r else r);
          whole = v div 100; frac = v mod 100
      in if frac = 0 then neg @ formatInt whole @ ''%''
         else let s = trimRightZeros (tl (formatInt (frac + 100)))
              in neg @ formatInt whole @ ''.'' @ s @ ''%'')"

text \<open>\<open>RoundingRaw n\<close> is any other byte value, which \<open>Valid\<close> refuses.\<close>

datatype rounding = RoundDown | RoundHalfUp | RoundUp | RoundingRaw nat

definition roundingValid :: "rounding \<Rightarrow> bool" where
  "roundingValid m \<longleftrightarrow> (case m of RoundingRaw _ \<Rightarrow> False | _ \<Rightarrow> True)"

definition roundingString :: "rounding \<Rightarrow> string" where
  "roundingString m = (case m of
      RoundDown \<Rightarrow> ''down'' | RoundHalfUp \<Rightarrow> ''half-up'' | RoundUp \<Rightarrow> ''up''
    | RoundingRaw n \<Rightarrow> ''unknown('' @ formatInt (int n) @ '')'')"

subsection \<open>Checked arithmetic\<close>

definition moneyAdd :: "money \<Rightarrow> money \<Rightarrow> gerror + money" where
  "moneyAdd m o' = (case safemathAdd m o' of None \<Rightarrow> Inl ErrOverflow | Some s \<Rightarrow> Inr s)"

definition moneySub :: "money \<Rightarrow> money \<Rightarrow> gerror + money" where
  "moneySub m o' = (case safemathSub m o' of None \<Rightarrow> Inl ErrOverflow | Some d \<Rightarrow> Inr d)"

definition moneyNeg :: "money \<Rightarrow> gerror + money" where
  "moneyNeg m = (case safemathNeg m of None \<Rightarrow> Inl ErrOverflow | Some n \<Rightarrow> Inr n)"

definition moneySign :: "money \<Rightarrow> int" where
  "moneySign m = (if m <s 0 then -1 else if 0 <s m then 1 else 0)"

definition moneyCmp :: "money \<Rightarrow> money \<Rightarrow> int" where
  "moneyCmp m o' = (if m <s o' then -1 else if o' <s m then 1 else 0)"

definition absUint64 :: "money \<Rightarrow> 64 word" where
  "absUint64 v = (if v <s 0 then - (v + 1) + 1 else v)"

definition moneyApply :: "money \<Rightarrow> rate \<Rightarrow> rounding \<Rightarrow> gerror + money" where
  "moneyApply m r mode =
     (if \<not> rateValid r then Inl (FieldError ''rate'')
      else if \<not> roundingValid mode then Inl (FieldError ''rounding'')
      else if m = 0 \<or> r = 0 then Inr 0
      else let neg = m <s 0; a = absUint64 m in
        case safemathMulDiv a (word_of_int r) (word_of_int RateScale) (mode = RoundUp) (mode = RoundHalfUp) of
          None \<Rightarrow> Inl ErrOverflow
        | Some q \<Rightarrow> if 9223372036854775807 < q then Inl ErrOverflow
                    else Inr (if neg then - q else q))"

definition moneyMulDiv :: "money \<Rightarrow> money \<Rightarrow> money \<Rightarrow> rounding \<Rightarrow> gerror + money" where
  "moneyMulDiv m numerator denominator mode =
     (if denominator <=s 0 then Inl (FieldError ''denominator'')
      else if \<not> roundingValid mode then Inl (FieldError ''rounding'')
      else if m = 0 \<or> numerator = 0 then Inr 0
      else let neg = (m <s 0) \<noteq> (numerator <s 0) in
        case safemathMulDiv (absUint64 m) (absUint64 numerator) denominator
               (mode = RoundUp) (mode = RoundHalfUp) of
          None \<Rightarrow> Inl ErrOverflow
        | Some q \<Rightarrow> if 9223372036854775807 < q then Inl ErrOverflow
                    else Inr (if neg then - q else q))"

subsection \<open>Rendering\<close>

definition moneyString :: "money \<Rightarrow> string" where
  "moneyString m =
     (let v = sint m in
      if v = - 9223372036854775808 then ''-92233720368547758.08''
      else let sign = (if v < 0 then ''-'' else ''''); u = (if v < 0 then - v else v);
               whole = u div 100; frac = u mod 100
           in sign @ formatInt whole @ ''.'' @ tl (formatInt (frac + 100)))"

definition moneyMarshalJSON :: "money \<Rightarrow> string" where
  "moneyMarshalJSON m = CHR 0x22 # moneyString m @ [CHR 0x22]"

subsection \<open>Parsing\<close>

text \<open>
  \<open>strings.TrimSpace\<close> on bytes: the UTF-8 encodings of the runes Go calls white space,
  removed from both ends.
\<close>

definition spaceSeqs :: "string list" where
  "spaceSeqs =
     map (\<lambda>n. [char_of (n :: nat)]) [9, 10, 11, 12, 13, 32] @
     map (map (\<lambda>n. char_of (n :: nat)))
       ([[0xC2, 0x85], [0xC2, 0xA0], [0xE1, 0x9A, 0x80]] @
        map (\<lambda>k. [0xE2, 0x80, 0x80 + k]) [0..<11] @
        [[0xE2, 0x80, 0xA8], [0xE2, 0x80, 0xA9], [0xE2, 0x80, 0xAF], [0xE2, 0x81, 0x9F],
         [0xE3, 0x80, 0x80]])"

function trimWith :: "string list \<Rightarrow> string \<Rightarrow> string" where
  "trimWith seqs s =
     (case find (\<lambda>p. p \<noteq> [] \<and> take (length p) s = p) seqs of
        None \<Rightarrow> s
      | Some p \<Rightarrow> if s = [] then s else trimWith seqs (drop (length p) s))"
  by pat_completeness auto
termination
  by (relation "measure (\<lambda>(seqs, s). length s)") (auto simp: find_Some_iff)

declare trimWith.simps [simp del]

definition trimSpace :: "string \<Rightarrow> string" where
  "trimSpace s = rev (trimWith (map rev spaceSeqs) (rev (trimWith spaceSeqs s)))"

text \<open>\<open>strings.Cut(s, ".")\<close>: the text before and after the first dot, and whether there is one.\<close>

definition cutDot :: "string \<Rightarrow> string \<times> string \<times> bool" where
  "cutDot s = (let b = takeWhile (\<lambda>c. c \<noteq> CHR ''.'') s; a = drop (length b) s
               in (b, tl a, a \<noteq> []))"

definition isASCIIDigits :: "string \<Rightarrow> bool" where
  "isASCIIDigits s \<longleftrightarrow> s \<noteq> [] \<and> list_all isDigit s"

definition padTwo :: "string \<Rightarrow> string" where
  "padTwo s = s @ replicate (2 - length s) (CHR ''0'')"

definition parseMoney :: "string \<Rightarrow> gerror + money" where
  "parseMoney s0 =
     (let s1 = trimSpace s0 in
      if s1 = [] then Inl (FieldError ''money'')
      else
        let neg = (hd s1 = CHR ''-'');
            s = (if hd s1 = CHR ''-'' \<or> hd s1 = CHR ''+'' then tl s1 else s1) in
        if s = [] then Inl (FieldError ''money'')
        else
          let (intPart0, fracPart0, hasFrac) = cutDot s;
              intPart = (if intPart0 = [] then ''0'' else intPart0) in
          if \<not> isASCIIDigits intPart then Inl (FieldError ''money'')
          else if hasFrac \<and> (fracPart0 = [] \<or> \<not> isASCIIDigits fracPart0) then Inl (FieldError ''money'')
          else if hasFrac \<and> length fracPart0 > 2 then Inl (FieldError ''money'')
          else
            let fracPart = padTwo fracPart0 in
            case parseInt intPart of
              None \<Rightarrow> Inl (FieldError ''money'')
            | Some whole \<Rightarrow>
                if whole > 9223372036854775807 div 100 then Inl ErrOverflow
                else
                  let minor0 = word_of_int whole * 100;
                      f = (case parseInt fracPart of None \<Rightarrow> 0 | Some f \<Rightarrow> word_of_int f);
                      minor = (if hasFrac then minor0 + f else minor0)
                  in Inr (if neg then - minor else minor))"

definition moneyUnmarshalJSON :: "string \<Rightarrow> gerror + money" where
  "moneyUnmarshalJSON s =
     (if s = ''null'' then Inr 0
      else if length s \<ge> 2 \<and> hd s = CHR 0x22 \<and> last s = CHR 0x22 then parseMoney (butlast (tl s))
      else if list_ex (\<lambda>c. c \<in> set ''.eE'') s then Inl (FieldError ''money'')
      else case parseInt s of None \<Rightarrow> Inl (FieldError ''money'') | Some v \<Rightarrow> Inr (word_of_int v))"

subsection \<open>The arithmetic is exact or refused\<close>

lemma moneyAdd_exact:
  "moneyAdd a b = (if in64 (sint a + sint b) then Inr (a + b) else Inl ErrOverflow)"
  by (simp add: moneyAdd_def safemathAdd_exact)

lemma moneySub_exact:
  "moneySub a b = (if in64 (sint a - sint b) then Inr (a - b) else Inl ErrOverflow)"
  by (simp add: moneySub_def safemathSub_exact)

lemma moneyAdd_InrD:
  assumes "moneyAdd a b = Inr c"
  shows "c = a + b" and "sint c = sint a + sint b"
  using assms by (auto simp: moneyAdd_exact money_arith split: if_splits)

lemma moneySub_InrD:
  assumes "moneySub a b = Inr c"
  shows "c = a - b" and "sint c = sint a - sint b"
  using assms by (auto simp: moneySub_exact money_arith split: if_splits)

lemma moneyAdd_nonneg_total:
  "moneyAdd a b = Inr c \<or> moneyAdd a b = Inl ErrOverflow" if "c = a + b"
  using that by (simp add: moneyAdd_exact)

text \<open>The magnitude of a 64-bit amount, including the smallest one.\<close>

lemma unat_absUint64: "int (unat (absUint64 v)) = \<bar>sint v\<bar>"
proof (cases "v <s 0")
  case True
  then have neg: "sint v < 0" by (simp add: sless_sint)
  have "absUint64 v = word_of_int (- sint v)"
    using True by (simp add: absUint64_def flip: wi_hom_neg)
  then have "uint (absUint64 v) = (- sint v) mod 18446744073709551616"
    by (simp only: uint_word_of_int) simp
  also have "\<dots> = - sint v" using neg sint_lower [of v] by (intro mod_pos_pos_trivial) auto
  finally show ?thesis using neg by simp
next
  case False
  then have pos: "0 \<le> sint v" by (simp add: sless_sint)
  have "uint v = sint v" using pos sint_upper [of v] by (simp add: uint_of_sint64)
  then show ?thesis using False pos by (simp add: absUint64_def)
qed

lemma nat_absUint64: "unat (absUint64 v) = nat \<bar>sint v\<bar>"
  using unat_absUint64 [of v] by linarith

text \<open>Turning the unsigned quotient back into a signed amount.\<close>

lemma sint_of_quotient:
  assumes "\<not> 9223372036854775807 < (q :: 64 word)"
  shows "sint (if neg then - q else q) = (if neg then - int (unat q) else int (unat q))"
proof -
  have le: "unat q \<le> 9223372036854775807" using assms by (simp add: word_less_nat_alt)
  have int_le: "int (unat q) \<le> 9223372036854775807" using le by linarith
  have "sint (word_of_int (int (unat q)) :: money) = int (unat q)"
    by (rule sint_word_of_int64) (use int_le in \<open>simp only: in64_def\<close>, linarith)
  then have "sint q = int (unat q)" by simp
  moreover have "in64 (- int (unat q))" using int_le unfolding in64_def by linarith
  ultimately show ?thesis by (auto simp only: sint_minus64 split: if_split)
qed

text \<open>The bound of a rounded share: at most the whole when the rate is at most one.\<close>

lemma roundQuot_le:
  assumes "r \<le> d" "0 < d"
  shows "roundQuot up half (x * r) d \<le> x"
proof -
  have "x * r \<le> x * d" using assms by simp
  show ?thesis
  proof (cases "x * r mod d = 0")
    case True
    then show ?thesis
      using div_le_mono [OF \<open>x * r \<le> x * d\<close>, of d] assms by (simp add: roundQuot_def)
  next
    case False
    have "x * r div d < x"
    proof (rule ccontr)
      assume "\<not> x * r div d < x"
      then have "x * d \<le> x * r div d * d" by simp
      also have "\<dots> = x * r - x * r mod d" by (simp add: minus_mod_eq_div_mult)
      finally have "x * d \<le> x * r - x * r mod d" .
      moreover have "x * r mod d \<le> x * r" by (rule mod_less_eq_dividend)
      ultimately show False using False \<open>x * r \<le> x * d\<close> by linarith
    qed
    then show ?thesis by (auto simp: roundQuot_def)
  qed
qed

text \<open>
  \<open>Apply\<close> is the rounded product of the magnitude and the rate with the sign of the amount,
  and overflows only where that does not fit.
\<close>

lemma unat_rate: "rateValid r \<Longrightarrow> unat (word_of_int r :: 64 word) = nat r"
  by (simp add: rateValid_def MaxRateBP_def RateScale_def unat_eq_nat_uint uint_word_of_int)

lemma moneyApply_quotient:
  fixes m :: money
  assumes "rateValid r" "roundingValid mode"
  defines "q \<equiv> roundQuot (mode = RoundUp) (mode = RoundHalfUp) (nat \<bar>sint m\<bar> * nat r) 10000"
  shows "q \<le> nat \<bar>sint m\<bar>"
    and "q \<le> 9223372036854775807 \<Longrightarrow> \<exists>x. moneyApply m r mode = Inr x \<and> sint x = sgn (sint m) * int q"
    and "9223372036854775807 < q \<Longrightarrow> moneyApply m r mode = Inl ErrOverflow"
proof -
  have r: "nat r \<le> 10000" "0 \<le> r" using assms(1) by (auto simp: rateValid_def MaxRateBP_def RateScale_def)
  show le: "q \<le> nat \<bar>sint m\<bar>" unfolding q_def by (rule roundQuot_le) (use r in auto)
  have le2: "q < 18446744073709551616" using le sint_lower [of m] sint_upper [of m] by linarith
  obtain w where w: "safemathMulDiv (absUint64 m) (word_of_int r) (word_of_int RateScale)
      (mode = RoundUp) (mode = RoundHalfUp) = Some w" and uw: "unat w = q"
    using safemathMulDiv_Some [of "word_of_int RateScale" "mode = RoundUp" "mode = RoundHalfUp" "absUint64 m"
        "word_of_int r"] le2
    by (auto simp: nat_absUint64 unat_rate [OF assms(1)] RateScale_def q_def)
  show "\<exists>x. moneyApply m r mode = Inr x \<and> sint x = sgn (sint m) * int q" if "q \<le> 9223372036854775807"
  proof (cases "m = 0 \<or> r = 0")
    case True
    then have "moneyApply m r mode = Inr 0" and "q = 0" using assms by (auto simp: moneyApply_def roundQuot_def)
    then show ?thesis by simp
  next
    case False
    have nw: "\<not> 9223372036854775807 < w" using that uw by (simp add: word_less_nat_alt)
    have "moneyApply m r mode = Inr (if m <s 0 then - w else w)"
      using False assms(1,2) w nw by (simp add: moneyApply_def Let_def)
    moreover have "sint (if m <s 0 then - w else w) = sgn (sint m) * int q"
      using sint_of_quotient [OF nw, of "m <s 0"] uw False sint_eq64 [of m 0]
      by (auto simp: sless_sint sgn_if)
    ultimately show ?thesis by blast
  qed
  show "moneyApply m r mode = Inl ErrOverflow" if "9223372036854775807 < q"
  proof -
    have "m \<noteq> 0" "r \<noteq> 0" using that by (auto simp: q_def roundQuot_def)
    with w uw show ?thesis
      using that assms(1,2) \<open>m \<noteq> 0\<close> \<open>r \<noteq> 0\<close> by (simp add: moneyApply_def Let_def word_less_nat_alt)
  qed
qed

text \<open>\<open>MulDiv\<close> is the rounded quotient of the product, with the product's sign.\<close>

lemma moneyMulDiv_quotient:
  fixes m n d :: money
  assumes "0 < sint d" "roundingValid mode"
  defines "q \<equiv> roundQuot (mode = RoundUp) (mode = RoundHalfUp) (nat \<bar>sint m\<bar> * nat \<bar>sint n\<bar>) (nat (sint d))"
  shows "q \<le> 9223372036854775807 \<Longrightarrow>
      \<exists>x. moneyMulDiv m n d mode = Inr x \<and> sint x = sgn (sint m) * sgn (sint n) * int q"
    and "9223372036854775807 < q \<Longrightarrow> moneyMulDiv m n d mode = Inl ErrOverflow"
proof -
  have ud: "unat d = nat (sint d)" and d0: "d \<noteq> 0"
    using nat_absUint64 [of d] assms(1) by (auto simp: absUint64_def sless_sint split: if_splits)
  have small: "\<exists>w. safemathMulDiv (absUint64 m) (absUint64 n) d (mode = RoundUp) (mode = RoundHalfUp) = Some w
      \<and> unat w = q" if "q < 18446744073709551616"
    using safemathMulDiv_Some [OF d0, of "mode = RoundUp" "mode = RoundHalfUp" "absUint64 m" "absUint64 n"] that
    by (simp add: nat_absUint64 ud q_def)
  show "\<exists>x. moneyMulDiv m n d mode = Inr x \<and> sint x = sgn (sint m) * sgn (sint n) * int q"
    if qle: "q \<le> 9223372036854775807"
  proof (cases "m = 0 \<or> n = 0")
    case True
    then have "moneyMulDiv m n d mode = Inr 0" and "q = 0"
      using assms by (auto simp: moneyMulDiv_def roundQuot_def sle_sint)
    then show ?thesis using True by auto
  next
    case False
    obtain w where w: "safemathMulDiv (absUint64 m) (absUint64 n) d (mode = RoundUp) (mode = RoundHalfUp) = Some w"
      and uw: "unat w = q" using small qle by auto
    have nw: "\<not> 9223372036854775807 < w" using qle uw by (simp add: word_less_nat_alt)
    have "moneyMulDiv m n d mode = Inr (if (m <s 0) \<noteq> (n <s 0) then - w else w)"
      using False assms(1,2) w nw by (simp add: moneyMulDiv_def Let_def sle_sint)
    moreover have "sint (if (m <s 0) \<noteq> (n <s 0) then - w else w) = sgn (sint m) * sgn (sint n) * int q"
      using sint_of_quotient [OF nw, of "(m <s 0) \<noteq> (n <s 0)"] uw False sint_eq64 [of m 0] sint_eq64 [of n 0]
      by (auto simp: sless_sint sgn_if)
    ultimately show ?thesis by blast
  qed
  show "moneyMulDiv m n d mode = Inl ErrOverflow" if q: "9223372036854775807 < q"
  proof -
    have mn: "m \<noteq> 0" "n \<noteq> 0" using q by (auto simp: q_def roundQuot_def)
    show ?thesis
    proof (cases "q < 18446744073709551616")
      case True
      then obtain w where "safemathMulDiv (absUint64 m) (absUint64 n) d (mode = RoundUp) (mode = RoundHalfUp) = Some w"
        and "unat w = q" using small by blast
      with q mn assms(1,2) show ?thesis by (simp add: moneyMulDiv_def Let_def word_less_nat_alt sle_sint)
    next
      case False
      then have "safemathMulDiv (absUint64 m) (absUint64 n) d (mode = RoundUp) (mode = RoundHalfUp) = None"
        using safemathMulDiv_exact [of "absUint64 m" "absUint64 n" d "mode = RoundUp" "mode = RoundHalfUp"] d0
        by (simp add: nat_absUint64 ud q_def Let_def)
      with mn assms(1,2) show ?thesis by (simp add: moneyMulDiv_def Let_def sle_sint)
    qed
  qed
qed

lemma moneyApply_exact:
  fixes m :: money
  assumes "rateValid r" "roundingValid mode"
  shows "moneyApply m r mode =
    (let q = roundQuot (mode = RoundUp) (mode = RoundHalfUp) (nat \<bar>sint m\<bar> * nat r) 10000
     in if q \<le> 9223372036854775807 then Inr (word_of_int (sgn (sint m) * int q)) else Inl ErrOverflow)"
proof (cases "roundQuot (mode = RoundUp) (mode = RoundHalfUp) (nat \<bar>sint m\<bar> * nat r) 10000 \<le> 9223372036854775807")
  case True
  then obtain x where "moneyApply m r mode = Inr x"
    "sint x = sgn (sint m) * int (roundQuot (mode = RoundUp) (mode = RoundHalfUp) (nat \<bar>sint m\<bar> * nat r) 10000)"
    using moneyApply_quotient(2) [OF assms, of m] by auto
  moreover have "x = word_of_int (sint x)" by simp
  ultimately show ?thesis using True by (simp add: Let_def)
next
  case False
  then show ?thesis using moneyApply_quotient(3) [OF assms, of m] by (simp add: Let_def)
qed

lemma moneyMulDiv_exact:
  fixes m n d :: money
  assumes "0 < sint d" "roundingValid mode"
  shows "moneyMulDiv m n d mode =
    (let q = roundQuot (mode = RoundUp) (mode = RoundHalfUp) (nat \<bar>sint m\<bar> * nat \<bar>sint n\<bar>) (nat (sint d))
     in if q \<le> 9223372036854775807 then Inr (word_of_int (sgn (sint m) * sgn (sint n) * int q)) else Inl ErrOverflow)"
proof (cases "roundQuot (mode = RoundUp) (mode = RoundHalfUp) (nat \<bar>sint m\<bar> * nat \<bar>sint n\<bar>) (nat (sint d)) \<le> 9223372036854775807")
  case True
  then obtain x where "moneyMulDiv m n d mode = Inr x" "sint x = sgn (sint m) * sgn (sint n) *
      int (roundQuot (mode = RoundUp) (mode = RoundHalfUp) (nat \<bar>sint m\<bar> * nat \<bar>sint n\<bar>) (nat (sint d)))"
    using moneyMulDiv_quotient(1) [OF assms, of m n] by auto
  moreover have "x = word_of_int (sint x)" by simp
  ultimately show ?thesis using True by (simp add: Let_def)
next
  case False
  then show ?thesis using moneyMulDiv_quotient(2) [OF assms, of m n] by (simp add: Let_def)
qed

text \<open>
  C34. \<open>Apply\<close> and \<open>MulDiv\<close> are exact: the result is the true product or quotient of the unbounded
  magnitudes, rounded as asked, with the sign of the operands; an error is reported exactly when
  that number does not fit a 64-bit amount, and nothing ever wraps around.
\<close>

theorem products_exact:
  fixes m n d :: money
  assumes "rateValid r" "roundingValid mode" "0 < sint d"
  shows "moneyApply m r mode =
      (let q = roundQuot (mode = RoundUp) (mode = RoundHalfUp) (nat \<bar>sint m\<bar> * nat r) 10000
       in if q \<le> 9223372036854775807 then Inr (word_of_int (sgn (sint m) * int q)) else Inl ErrOverflow) \<and>
    moneyMulDiv m n d mode =
      (let q = roundQuot (mode = RoundUp) (mode = RoundHalfUp) (nat \<bar>sint m\<bar> * nat \<bar>sint n\<bar>) (nat (sint d))
       in if q \<le> 9223372036854775807 then Inr (word_of_int (sgn (sint m) * sgn (sint n) * int q)) else Inl ErrOverflow)"
  using moneyApply_exact [OF assms(1,2)] moneyMulDiv_exact [OF assms(3,2)] by blast

theorem products_exact_witness:
  "moneyApply (- 1050) 500 RoundUp = Inr (- 53) \<and> moneyMulDiv 100 2 3 RoundDown = Inr 66"
  using products_exact [of 500 RoundUp 3 "- 1050" 1] products_exact [of 500 RoundDown 3 100 2]
  by (simp add: rateValid_def MaxRateBP_def RateScale_def roundingValid_def roundQuot_def Let_def)

subsection \<open>Rendering and parsing are inverse\<close>

lemma spaceSeqs_edges:
  "list_all (\<lambda>p. p \<noteq> [] \<and> \<not> isDigit (hd p) \<and> hd p \<noteq> CHR ''-'' \<and> \<not> isDigit (last p)) spaceSeqs"
  by code_simp

lemma trimWith_id:
  assumes "\<And>p. p \<in> set seqs \<Longrightarrow> p \<noteq> [] \<Longrightarrow> hd p \<noteq> hd s" "s \<noteq> []"
  shows "trimWith seqs s = s"
proof -
  have "take (length p) s \<noteq> p" if "p \<in> set seqs" "p \<noteq> []" for p
    using assms that by (metis hd_take length_greater_0_conv)
  then have "find (\<lambda>p. p \<noteq> [] \<and> take (length p) s = p) seqs = None"
    by (auto simp: find_None_iff)
  then show ?thesis by (subst trimWith.simps) simp
qed

lemma trimSpace_id:
  assumes "s \<noteq> []" "isDigit (hd s) \<or> hd s = CHR ''-''" "isDigit (last s)"
  shows "trimSpace s = s"
proof -
  have "trimWith spaceSeqs s = s"
    using spaceSeqs_edges assms by (intro trimWith_id) (auto simp: list_all_iff)
  moreover have "trimWith (map rev spaceSeqs) (rev s) = rev s"
    using spaceSeqs_edges assms by (intro trimWith_id) (auto simp: list_all_iff hd_rev)
  ultimately show ?thesis by (simp add: trimSpace_def)
qed

lemma showNat_two: "n < 100 \<Longrightarrow> tl (showNat (n + 100)) = [digitChar (n div 10), digitChar (n mod 10)]"
proof -
  assume n: "n < 100"
  have "(n + 10 * 10) div 10 = n div 10 + 10" "(n + 100) mod 10 = n mod 10"
    using mod_mult_self1 [of n 10 10] by simp_all
  moreover have "(n div 10 + 10 * 1) div 10 = 1" "(n div 10 + 10 * 1) mod 10 = n div 10"
    using n by (simp_all only: div_mult_self1 mod_mult_self1) simp_all
  ultimately show ?thesis
    by (simp add: showNat.simps [of "n + 100"] showNat.simps [of "n div 10 + 10"] showNat.simps [of "Suc 0"])
qed

lemma cutDot_digits: "list_all isDigit d \<Longrightarrow> cutDot (d @ CHR ''.'' # r) = (d, r, True)"
proof -
  assume d: "list_all isDigit d"
  have "\<not> isDigit CHR ''.''" by code_simp
  with d have "takeWhile (\<lambda>c. c \<noteq> CHR ''.'') (d @ CHR ''.'' # r) = d"
    by (subst takeWhile_append2) (auto simp: list_all_iff)
  then show ?thesis by (simp add: cutDot_def)
qed

text \<open>What the parser makes of a plain decimal with two places.\<close>

lemma parseMoney_decimal:
  assumes "f < 100" "n \<le> 92233720368547758" and sg: "sg = [] \<or> sg = ''-''"
  shows "parseMoney (sg @ showNat n @ CHR ''.'' # [digitChar (f div 10), digitChar (f mod 10)]) =
    Inr (let v = word_of_int (int (100 * n + f)) in if sg = ''-'' then - v else v)"
proof -
  define t where "t = showNat n @ CHR ''.'' # [digitChar (f div 10), digitChar (f mod 10)]"
  obtain c cs where c: "showNat n = c # cs" using showNat_nonempty by (cases "showNat n") auto
  have dc: "isDigit c" "list_all isDigit (showNat n)" using showNat_digits [of n] by (auto simp: c)
  have t: "t \<noteq> []" "hd t \<noteq> CHR ''-''" "hd t \<noteq> CHR ''+''" "isDigit (hd t)" "isDigit (last t)"
    using showNat_head_not_sign [of n] dc(1) assms(1) by (auto simp: c t_def)
  have trim: "trimSpace t = t" "trimSpace (CHR ''-'' # t) = CHR ''-'' # t"
    using t by (auto intro!: trimSpace_id)
  have cut: "cutDot t = (showNat n, [digitChar (f div 10), digitChar (f mod 10)], True)"
    unfolding t_def by (rule cutDot_digits) (rule dc)
  have p1: "parseInt (showNat n) = Some (int n)"
    using assms(2) by (intro parseInt_showNat) (simp add: in64_def)
  have two: "list_all isDigit [digitChar (f div 10), digitChar (f mod 10)]" using assms(1) by simp
  have p2: "parseInt [digitChar (f div 10), digitChar (f mod 10)] = Some (int f)"
  proof -
    have "digitChar (f div 10) \<noteq> CHR ''-''" "digitChar (f div 10) \<noteq> CHR ''+''"
      using digitChar_not_sign assms(1) by auto
    moreover have "readNat [digitChar (f div 10), digitChar (f mod 10)] = f"
      using assms(1) by (simp add: readNat_def)
    ultimately show ?thesis using two assms(1) by (simp add: parseInt_def Let_def in64_def)
  qed
  have w: "word_of_int (int n) * 100 + word_of_int (int f) = (word_of_int (int (100 * n + f)) :: money)"
    by (simp add: mult.commute)
  have "int n \<le> 92233720368547758" using assms(2) by simp
  then have body: "parseMoney (sg @ t) = Inr (let v = word_of_int (int (100 * n + f)) in if sg = ''-'' then - v else v)"
    using sg t trim dc(2) two
    by (auto simp: parseMoney_def cut isASCIIDigits_def padTwo_def p1 p2 Let_def simp flip: w)
  then show ?thesis by (simp add: t_def)
qed

lemma moneyString_decimal:
  assumes "sint m \<noteq> - 9223372036854775808"
  defines "u \<equiv> nat \<bar>sint m\<bar>"
  shows "moneyString m = (if sint m < 0 then ''-'' else []) @ showNat (u div 100) @
    CHR ''.'' # [digitChar (u mod 100 div 10), digitChar (u mod 100 mod 10)]"
proof -
  have u: "int u = \<bar>sint m\<bar>" by (simp add: u_def)
  have w: "formatInt (int u div 100) = showNat (u div 100)"
    by (simp add: formatInt_def nat_div_distrib)
  have f: "tl (formatInt (int u mod 100 + 100)) = [digitChar (u mod 100 div 10), digitChar (u mod 100 mod 10)]"
  proof -
    have "\<not> int u mod 100 + 100 < 0" using pos_mod_sign [of 100 "int u"] by linarith
    then show ?thesis
      using showNat_two [of "u mod 100"] by (simp add: formatInt_def nat_add_distrib nat_mod_distrib)
  qed
  show ?thesis
    using assms(1) w f unfolding u by (cases "sint m < 0") (simp_all add: moneyString_def Let_def)
qed

text \<open>At the upper boundary the sum of whole and fraction wraps, with either sign.\<close>

lemma parseMoney_boundary:
  "sg = [] \<or> sg = ''-'' \<Longrightarrow> parseMoney (sg @ ''92233720368547758.08'') = Inr minInt64"
  using parseMoney_decimal [of 8 92233720368547758 sg]
  by (simp add: showNat.simps digitChar_eqs minInt64_def Let_def digitChar_eqs(2) [unfolded One_nat_def])

text \<open>
  C35. Printing an amount and parsing it back gives the same amount, for every 64-bit amount.
\<close>

theorem parse_moneyString: "parseMoney (moneyString m) = Inr m"
proof (cases "sint m = - 9223372036854775808")
  case True
  then have "m = minInt64" by (metis sint_minInt64 sint_eq64)
  with True parseMoney_boundary [of "''-''"] show ?thesis by (simp add: moneyString_def minInt64_def)
next
  case False
  define u where "u = nat \<bar>sint m\<bar>"
  have u: "u div 100 \<le> 92233720368547758" using sint_upper [of m] sint_lower [of m] False by (simp add: u_def)
  have m: "(if sint m < 0 then - word_of_int (int u) else word_of_int (int u)) = m"
    by (simp add: u_def flip: wi_hom_neg)
  have "parseMoney (moneyString m) =
      Inr (let v = word_of_int (int (100 * (u div 100) + u mod 100)) in if sint m < 0 then - v else v)"
    unfolding moneyString_decimal [OF False, folded u_def] using u by (subst parseMoney_decimal) auto
  also have "\<dots> = Inr m" using m by (simp only: Let_def mult_div_mod_eq)
  finally show ?thesis .
qed

text \<open>
  The JSON encoding of an amount decodes to the same amount.
\<close>

theorem unmarshal_marshal: "moneyUnmarshalJSON (moneyMarshalJSON m) = Inr m"
proof -
  have "moneyMarshalJSON m \<noteq> ''null''" by (simp add: moneyMarshalJSON_def)
  then show ?thesis
    using parse_moneyString [of m] by (simp add: moneyUnmarshalJSON_def moneyMarshalJSON_def)
qed


end
