(* ===== verification/Keys.thy ===== *)
theory Keys
  imports Money
begin

text \<open>
  keys.go and idem.go: the keys of users and orders with their validation, and the derivation
  of idempotency keys. SHA-256 enters as a parameter \<open>h\<close> (bytes to bytes); everything the code
  itself does around it (length prefixes, truncation, hex) is modelled, and the encoding is
  shown to be injective, so that two keys can only collide where the truncated hash does.
\<close>

subsection \<open>Keys\<close>

datatype user_key = UserKey (ukTenantID: int) (ukUserID: int)

datatype order_key = OrderKey (okTenantID: int) (okOrderID: string)

definition MaxOrderIDLen :: nat where "MaxOrderIDLen = 64"
definition MaxOrderItemIDLen :: nat where "MaxOrderItemIDLen = 128"
definition MaxIdemKeyLen :: nat where "MaxIdemKeyLen = 64"
definition MaxRemarkLen :: nat where "MaxRemarkLen = 256"

text \<open>A validation returns None when the value is fine, otherwise the error.\<close>

definition userKeyValidate :: "user_key \<Rightarrow> gerror option" where
  "userKeyValidate k =
     (if ukTenantID k < 0 then Some (FieldError ''tenant_id'')
      else if ukUserID k \<le> 0 then Some (FieldError ''user_id'')
      else None)"

definition orderKeyValidate :: "order_key \<Rightarrow> gerror option" where
  "orderKeyValidate k =
     (if okTenantID k < 0 then Some (FieldError ''tenant_id'')
      else if okOrderID k = [] then Some (FieldError ''order_id'')
      else if length (okOrderID k) > MaxOrderIDLen then Some (FieldError ''order_id'')
      else None)"

text \<open>
  The order of the account index: tenant first, then user. It is also a total order, which the
  library's sorting facts then apply to.
\<close>

instantiation user_key :: linorder
begin

definition less_eq_user_key :: "user_key \<Rightarrow> user_key \<Rightarrow> bool" where
  "less_eq_user_key a b \<longleftrightarrow>
     ukTenantID a < ukTenantID b \<or> ukTenantID a = ukTenantID b \<and> ukUserID a \<le> ukUserID b"

definition less_user_key :: "user_key \<Rightarrow> user_key \<Rightarrow> bool" where
  "less_user_key a b \<longleftrightarrow>
     ukTenantID a < ukTenantID b \<or> ukTenantID a = ukTenantID b \<and> ukUserID a < ukUserID b"

instance
  by standard (auto simp: less_eq_user_key_def less_user_key_def user_key.expand)

end

subsection \<open>Digests of key parts\<close>

text \<open>\<open>binary.BigEndian.PutUint64\<close> of a length.\<close>

definition be64 :: "nat \<Rightarrow> string" where
  "be64 n = map (\<lambda>i. char_of (n div 256 ^ (7 - i))) [0..<8]"

definition encodePart :: "string \<Rightarrow> string" where
  "encodePart p = be64 (length p) @ p"

definition encodeParts :: "string list \<Rightarrow> string" where
  "encodeParts parts = concat (map encodePart parts)"

definition hexDigit :: "nat \<Rightarrow> char" where
  "hexDigit n = (if n < 10 then char_of (48 + n) else char_of (87 + n))"

definition hexEncode :: "string \<Rightarrow> string" where
  "hexEncode s = concat (map (\<lambda>c. [hexDigit (of_char c div 16), hexDigit (of_char c mod 16)]) s)"

definition idemKeyLen :: nat where
  "idemKeyLen = 32"

definition hashParts :: "(string \<Rightarrow> string) \<Rightarrow> string list \<Rightarrow> string" where
  "hashParts h parts = hexEncode (take (idemKeyLen div 2) (h (encodeParts parts)))"

definition idemKeyVersion :: string where "idemKeyVersion = ''v1''"
definition nsAccrue :: string where "nsAccrue = ''accrue''"
definition nsReverse :: string where "nsReverse = ''reverse''"
definition nsRefund :: string where "nsRefund = ''refund''"
definition nsWithdraw :: string where "nsWithdraw = ''withdraw''"
definition nsUser :: string where "nsUser = ''user''"

definition accrueIdemParts :: "order_key \<Rightarrow> string \<Rightarrow> int \<Rightarrow> int \<Rightarrow> string \<Rightarrow> string list" where
  "accrueIdemParts order itemID agentUserID layer override =
     (if override = []
      then [idemKeyVersion, nsAccrue, i64s (okTenantID order), okOrderID order, itemID,
            i64s agentUserID, i64s layer]
      else [idemKeyVersion, nsUser, i64s (okTenantID order), override, okOrderID order, itemID,
            i64s agentUserID, i64s layer])"

definition accrueIdemKey :: "(string \<Rightarrow> string) \<Rightarrow> order_key \<Rightarrow> string \<Rightarrow> int \<Rightarrow> int \<Rightarrow> string \<Rightarrow> string" where
  "accrueIdemKey h order itemID agentUserID layer override =
     hashParts h (accrueIdemParts order itemID agentUserID layer override)"

definition reverseIdemParts :: "order_key \<Rightarrow> string \<Rightarrow> int \<Rightarrow> int \<Rightarrow> money \<Rightarrow> string list" where
  "reverseIdemParts order itemID agentUserID layer target =
     [idemKeyVersion, nsReverse, i64s (okTenantID order), okOrderID order, itemID,
      i64s agentUserID, i64s layer, i64s (sint target)]"

definition reverseIdemKey :: "(string \<Rightarrow> string) \<Rightarrow> order_key \<Rightarrow> string \<Rightarrow> int \<Rightarrow> int \<Rightarrow> money \<Rightarrow> string" where
  "reverseIdemKey h order itemID agentUserID layer target =
     hashParts h (reverseIdemParts order itemID agentUserID layer target)"

definition withdrawIdemKey :: "(string \<Rightarrow> string) \<Rightarrow> int \<Rightarrow> string \<Rightarrow> string" where
  "withdrawIdemKey h tenantID callerKey =
     hashParts h [idemKeyVersion, nsWithdraw, i64s tenantID, callerKey]"

definition refundIdemKey :: "(string \<Rightarrow> string) \<Rightarrow> order_key \<Rightarrow> string \<Rightarrow> string \<Rightarrow> string" where
  "refundIdemKey h order itemID callerKey =
     hashParts h [idemKeyVersion, nsRefund, i64s (okTenantID order), okOrderID order, itemID, callerKey]"

text \<open>The bytes a caller-supplied key may contain.\<close>

definition idemKeyByte :: "char \<Rightarrow> bool" where
  "idemKeyByte c \<longleftrightarrow>
     (let n = (of_char c :: nat) in
      97 \<le> n \<and> n \<le> 122 \<or> 65 \<le> n \<and> n \<le> 90 \<or> 48 \<le> n \<and> n \<le> 57) \<or>
     c \<in> set ''-_.:''"

definition validateIdemKeyOverride :: "string \<Rightarrow> gerror option" where
  "validateIdemKeyOverride raw =
     (if raw = [] then Some (FieldError ''idem_key'')
      else if length raw > MaxIdemKeyLen then Some (FieldError ''idem_key'')
      else if \<not> list_all idemKeyByte raw then Some (FieldError ''idem_key'')
      else None)"

subsection \<open>The encoding is injective\<close>

lemma length_be64 [simp]: "length (be64 n) = 8"
  by (simp add: be64_def)

lemma be64_inject:
  assumes "m < 2 ^ 64" "n < 2 ^ 64" "be64 m = be64 n"
  shows "m = n"
proof -
  have b: "m div 256 ^ k mod 256 = n div 256 ^ k mod 256" if "k < 8" for k
  proof -
    have "be64 m ! (7 - k) = be64 n ! (7 - k)" using assms(3) by simp
    moreover have "[0..<8] ! (7 - k) = 7 - k" using that by (subst nth_upt) auto
    ultimately show ?thesis using that by (simp add: be64_def del: upt_rec_numeral upt_conv_Cons)
  qed
  have "m mod 256 ^ j = n mod 256 ^ j" if "j \<le> 8" for j
    using that
  proof (induction j)
    case (Suc j)
    have "x mod 256 ^ Suc j = 256 ^ j * (x div 256 ^ j mod 256) + x mod 256 ^ j" for x :: nat
      by (simp only: power_Suc2 mod_mult2_eq)
    then show ?case using Suc b [of j] by simp
  qed simp
  from this [of 8] assms(1,2) show ?thesis by simp
qed

lemma encodeParts_Cons [simp]: "encodeParts (p # ps) = be64 (length p) @ p @ encodeParts ps"
  by (simp add: encodeParts_def encodePart_def)

lemma encodeParts_Nil [simp]: "encodeParts [] = []"
  by (simp add: encodeParts_def)

lemma encodeParts_inject:
  assumes "\<forall>p \<in> set ps \<union> set qs. length p < 2 ^ 64" "encodeParts ps = encodeParts qs"
  shows "ps = qs"
  using assms
proof (induction ps arbitrary: qs)
  case Nil
  then show ?case by (cases qs) (auto simp: dest: arg_cong [where f = length])
next
  case (Cons p ps)
  from Cons.prems(2) obtain q qs' where qs: "qs = q # qs'"
    by (cases qs) (auto dest: arg_cong [where f = length])
  have "be64 (length p) = be64 (length q)" and rest: "p @ encodeParts ps = q @ encodeParts qs'"
    using Cons.prems(2) by (simp_all add: qs append_eq_append_conv)
  then have "length p = length q" using Cons.prems(1) by (intro be64_inject) (auto simp: qs)
  with rest have "p = q" "encodeParts ps = encodeParts qs'" by auto
  moreover have "ps = qs'" using Cons.prems(1) \<open>encodeParts ps = encodeParts qs'\<close>
    by (intro Cons.IH) (auto simp: qs)
  ultimately show ?case by (simp add: qs)
qed

lemma hexDigit_inject: "m < 16 \<Longrightarrow> n < 16 \<Longrightarrow> hexDigit m = hexDigit n \<longleftrightarrow> m = n"
  by (auto simp: hexDigit_def split: if_splits)

lemma hexEncode_Nil [simp]: "hexEncode [] = []"
  by (simp add: hexEncode_def)

lemma hexEncode_Cons [simp]:
  "hexEncode (c # s) = hexDigit (of_char c div 16) # hexDigit (of_char c mod 16) # hexEncode s"
  by (simp add: hexEncode_def)

lemma hexEncode_inject: "hexEncode s = hexEncode t \<longleftrightarrow> s = t"
proof (induction s arbitrary: t)
  case Nil
  show ?case by (cases t) auto
next
  case (Cons c s)
  show ?case
  proof (cases t)
    case Nil
    then show ?thesis by simp
  next
    case (Cons d t')
    have lt: "(of_char e :: nat) div 16 < 16" for e :: char
      using nat_of_char_less_256 [of e] by (simp add: less_mult_imp_div_less)
    have "hexDigit (of_char c div 16) = hexDigit (of_char d div 16) \<and>
        hexDigit (of_char c mod 16) = hexDigit (of_char d mod 16) \<longleftrightarrow> c = d"
    proof
      assume "hexDigit (of_char c div 16) = hexDigit (of_char d div 16) \<and>
        hexDigit (of_char c mod 16) = hexDigit (of_char d mod 16)"
      then have "(of_char c :: nat) div 16 = of_char d div 16" "(of_char c :: nat) mod 16 = of_char d mod 16"
        using lt by (simp_all add: hexDigit_inject)
      then have "(of_char c :: nat) = of_char d" by (metis div_mult_mod_eq)
      then show "c = d" by simp
    qed simp
    then show ?thesis using Cons.IH by (simp add: \<open>t = d # t'\<close>) blast
  qed
qed

text \<open>
  What is asked of the hash: that its first sixteen bytes differ on the inputs at hand. This is
  what collision resistance of SHA-256 truncated to 128 bits provides in practice.
\<close>

definition noCollision :: "(string \<Rightarrow> string) \<Rightarrow> string set \<Rightarrow> bool" where
  "noCollision h X \<longleftrightarrow> inj_on (\<lambda>x. take (idemKeyLen div 2) (h x)) X"

lemma hashParts_inject:
  assumes "hashParts h ps = hashParts h qs" "noCollision h X" "encodeParts ps \<in> X" "encodeParts qs \<in> X"
    and "\<forall>p \<in> set ps \<union> set qs. length p < 2 ^ 64"
  shows "ps = qs"
proof (rule encodeParts_inject [OF assms(5)])
  show "encodeParts ps = encodeParts qs"
    using assms(1-4) by (auto simp: hashParts_def hexEncode_inject noCollision_def inj_on_def)
qed

lemmas ns_defs = idemKeyVersion_def nsAccrue_def nsReverse_def nsRefund_def nsWithdraw_def nsUser_def

text \<open>
  C37. An accrual key determines the order, item, agent, level and caller seed it was derived
  from, and is never the key of a reversal: two accruals, or an accrual and a reversal, can
  only be confused where the truncated hash collides.
\<close>

theorem accrueIdemKey_unique:
  assumes "noCollision h {encodeParts (accrueIdemParts o1 i1 a1 l1 s1), encodeParts (accrueIdemParts o2 i2 a2 l2 s2),
      encodeParts (reverseIdemParts o3 i3 a3 l3 t3)}"
    and "\<forall>p \<in> set (accrueIdemParts o1 i1 a1 l1 s1) \<union> set (accrueIdemParts o2 i2 a2 l2 s2) \<union>
      set (reverseIdemParts o3 i3 a3 l3 t3). length p < 2 ^ 64"
  shows "(accrueIdemKey h o1 i1 a1 l1 s1 = accrueIdemKey h o2 i2 a2 l2 s2 \<longleftrightarrow>
      o1 = o2 \<and> i1 = i2 \<and> a1 = a2 \<and> l1 = l2 \<and> s1 = s2) \<and>
    accrueIdemKey h o1 i1 a1 l1 s1 \<noteq> reverseIdemKey h o3 i3 a3 l3 t3"
proof
  have parts: "accrueIdemParts o1 i1 a1 l1 s1 = accrueIdemParts o2 i2 a2 l2 s2 \<longleftrightarrow>
      o1 = o2 \<and> i1 = i2 \<and> a1 = a2 \<and> l1 = l2 \<and> s1 = s2"
    by (cases o1; cases o2) (auto simp: accrueIdemParts_def ns_defs)
  have "accrueIdemParts o1 i1 a1 l1 s1 = accrueIdemParts o2 i2 a2 l2 s2"
    if "accrueIdemKey h o1 i1 a1 l1 s1 = accrueIdemKey h o2 i2 a2 l2 s2"
    by (rule hashParts_inject [OF that [unfolded accrueIdemKey_def] assms(1)]) (use assms(2) in auto)
  then show "accrueIdemKey h o1 i1 a1 l1 s1 = accrueIdemKey h o2 i2 a2 l2 s2 \<longleftrightarrow>
      o1 = o2 \<and> i1 = i2 \<and> a1 = a2 \<and> l1 = l2 \<and> s1 = s2"
    using parts by blast
  have "accrueIdemParts o1 i1 a1 l1 s1 = reverseIdemParts o3 i3 a3 l3 t3"
    if "accrueIdemKey h o1 i1 a1 l1 s1 = reverseIdemKey h o3 i3 a3 l3 t3"
    by (rule hashParts_inject [OF that [unfolded accrueIdemKey_def reverseIdemKey_def] assms(1)])
      (use assms(2) in auto)
  moreover have "accrueIdemParts o1 i1 a1 l1 s1 \<noteq> reverseIdemParts o3 i3 a3 l3 t3"
    by (simp add: accrueIdemParts_def reverseIdemParts_def ns_defs)
  ultimately show "accrueIdemKey h o1 i1 a1 l1 s1 \<noteq> reverseIdemKey h o3 i3 a3 l3 t3" by blast
qed

theorem accrueIdemKey_unique_witness:
  "\<exists>h. accrueIdemKey h (OrderKey 1 ''a|b'') ''c'' 7 1 [] \<noteq> accrueIdemKey h (OrderKey 1 ''a'') ''b|c'' 7 1 []"
proof -
  define p1 where "p1 = accrueIdemParts (OrderKey 1 ''a|b'') ''c'' 7 1 []"
  define p2 where "p2 = accrueIdemParts (OrderKey 1 ''a'') ''b|c'' 7 1 []"
  define p3 where "p3 = reverseIdemParts (OrderKey 1 ''a'') ''c'' 7 1 0"
  define h where "h x = (if x = encodeParts p1 then ''A'' else if x = encodeParts p2 then ''B'' else ''C'')" for x
  have digits: "i64s 0 = ''0''" "i64s 1 = ''1''" "i64s 7 = ''7''" by code_simp+
  have short: "\<forall>p \<in> set p1 \<union> set p2 \<union> set p3. length p < 2 ^ 64"
    by (simp add: p1_def p2_def p3_def accrueIdemParts_def reverseIdemParts_def ns_defs digits)
  have "p1 \<noteq> p2" "p1 \<noteq> p3" "p2 \<noteq> p3"
    by (simp_all add: p1_def p2_def p3_def accrueIdemParts_def reverseIdemParts_def ns_defs)
  then have "encodeParts p1 \<noteq> encodeParts p2" "encodeParts p1 \<noteq> encodeParts p3" "encodeParts p2 \<noteq> encodeParts p3"
    using short encodeParts_inject by blast+
  then have "noCollision h {encodeParts p1, encodeParts p2, encodeParts p3}"
    by (auto simp: noCollision_def h_def idemKeyLen_def)
  from accrueIdemKey_unique [OF this [unfolded p1_def p2_def p3_def] short [unfolded p1_def p2_def p3_def]]
  show ?thesis by (intro exI [of _ h]) simp
qed

end
