(* ===== verification/States.thy ===== *)
theory States
  imports Keys
begin

text \<open>
  state.go, the state part of model.go and the state part of withdraw.go: the two hard-coded
  state machines, of commissions and of withdrawals. Each is a table of legal transitions
  read by the same lookup; the locale \<open>transition_table\<close> states what such a table promises and
  proves once what follows for whole runs, and both machines interpret it.
\<close>

subsection \<open>Commissions\<close>

text \<open>
  A CommissionState is a byte; 2 is the retired value, \<open>CommissionRaw n\<close> is any byte above the
  known ones.
\<close>

datatype commission_state =
    CommissionPending
  | CommissionSettled
  | CommissionRetired
  | CommissionReversed
  | CommissionFrozen
  | CommissionVoid
  | CommissionRaw nat

definition commissionStateValid :: "commission_state \<Rightarrow> bool" where
  "commissionStateValid s \<longleftrightarrow> (case s of CommissionRetired \<Rightarrow> False | CommissionRaw _ \<Rightarrow> False | _ \<Rightarrow> True)"

fun commissionStateCode :: "commission_state \<Rightarrow> int" where
  "commissionStateCode CommissionPending = 0"
| "commissionStateCode CommissionSettled = 1"
| "commissionStateCode CommissionRetired = 2"
| "commissionStateCode CommissionReversed = 3"
| "commissionStateCode CommissionFrozen = 4"
| "commissionStateCode CommissionVoid = 5"
| "commissionStateCode (CommissionRaw n) = 6 + int n"

fun commissionStateString :: "commission_state \<Rightarrow> string" where
  "commissionStateString CommissionPending = ''pending''"
| "commissionStateString CommissionSettled = ''settled''"
| "commissionStateString CommissionReversed = ''reversed''"
| "commissionStateString CommissionFrozen = ''frozen''"
| "commissionStateString CommissionVoid = ''void''"
| "commissionStateString s = ''CommissionState('' @ formatInt (commissionStateCode s) @ '')''"

definition commissionTerminal :: "commission_state \<Rightarrow> bool" where
  "commissionTerminal s \<longleftrightarrow> s = CommissionReversed \<or> s = CommissionVoid"

text \<open>\<open>commissionTransitions\<close>; a key the Go map does not hold reads as the empty slice.\<close>

fun commissionTransitions :: "commission_state \<Rightarrow> commission_state list" where
  "commissionTransitions CommissionPending =
     [CommissionSettled, CommissionReversed, CommissionFrozen, CommissionVoid]"
| "commissionTransitions CommissionSettled = [CommissionReversed]"
| "commissionTransitions CommissionFrozen = [CommissionPending, CommissionVoid, CommissionReversed]"
| "commissionTransitions CommissionReversed = []"
| "commissionTransitions CommissionVoid = []"
| "commissionTransitions _ = []"

definition AllCommissionStates :: "commission_state list" where
  "AllCommissionStates =
     [CommissionPending, CommissionSettled, CommissionReversed, CommissionFrozen, CommissionVoid]"

definition CanTransitionCommission :: "commission_state \<Rightarrow> commission_state \<Rightarrow> bool" where
  "CanTransitionCommission f t \<longleftrightarrow>
     (if \<not> commissionStateValid f \<or> \<not> commissionStateValid t then False
      else list_ex (\<lambda>allowed. allowed = t) (commissionTransitions f))"

definition ValidateCommissionTransition :: "commission_state \<Rightarrow> commission_state \<Rightarrow> gerror option" where
  "ValidateCommissionTransition f t =
     (if \<not> commissionStateValid f then Some (FieldError ''state'')
      else if \<not> commissionStateValid t then Some (FieldError ''state'')
      else if \<not> CanTransitionCommission f t
      then Some (TransitionError ''commission'' (commissionStateString f) (commissionStateString t))
      else None)"

subsection \<open>Withdrawals\<close>

datatype withdrawal_state =
    WithdrawalApplied
  | WithdrawalApproved
  | WithdrawalRejected
  | WithdrawalPayFailed
  | WithdrawalPaid
  | WithdrawalRaw nat

definition withdrawalStateValid :: "withdrawal_state \<Rightarrow> bool" where
  "withdrawalStateValid s \<longleftrightarrow> (case s of WithdrawalRaw _ \<Rightarrow> False | _ \<Rightarrow> True)"

fun withdrawalStateCode :: "withdrawal_state \<Rightarrow> int" where
  "withdrawalStateCode WithdrawalApplied = 0"
| "withdrawalStateCode WithdrawalApproved = 1"
| "withdrawalStateCode WithdrawalRejected = 2"
| "withdrawalStateCode WithdrawalPayFailed = 3"
| "withdrawalStateCode WithdrawalPaid = 4"
| "withdrawalStateCode (WithdrawalRaw n) = 5 + int n"

fun withdrawalStateString :: "withdrawal_state \<Rightarrow> string" where
  "withdrawalStateString WithdrawalApplied = ''applied''"
| "withdrawalStateString WithdrawalApproved = ''approved''"
| "withdrawalStateString WithdrawalRejected = ''rejected''"
| "withdrawalStateString WithdrawalPayFailed = ''pay_failed''"
| "withdrawalStateString WithdrawalPaid = ''paid''"
| "withdrawalStateString s = ''WithdrawalState('' @ formatInt (withdrawalStateCode s) @ '')''"

definition withdrawalTerminal :: "withdrawal_state \<Rightarrow> bool" where
  "withdrawalTerminal s \<longleftrightarrow> s = WithdrawalRejected \<or> s = WithdrawalPaid"

definition withdrawalReserved :: "withdrawal_state \<Rightarrow> bool" where
  "withdrawalReserved s \<longleftrightarrow> s = WithdrawalApplied \<or> s = WithdrawalApproved \<or> s = WithdrawalPayFailed"

fun withdrawalTransitions :: "withdrawal_state \<Rightarrow> withdrawal_state list" where
  "withdrawalTransitions WithdrawalApplied = [WithdrawalApproved, WithdrawalRejected]"
| "withdrawalTransitions WithdrawalApproved = [WithdrawalPaid, WithdrawalPayFailed]"
| "withdrawalTransitions WithdrawalPayFailed = [WithdrawalPaid, WithdrawalRejected]"
| "withdrawalTransitions WithdrawalPaid = []"
| "withdrawalTransitions WithdrawalRejected = []"
| "withdrawalTransitions _ = []"

definition AllWithdrawalStates :: "withdrawal_state list" where
  "AllWithdrawalStates =
     [WithdrawalApplied, WithdrawalApproved, WithdrawalRejected, WithdrawalPayFailed, WithdrawalPaid]"

definition CanTransitionWithdrawal :: "withdrawal_state \<Rightarrow> withdrawal_state \<Rightarrow> bool" where
  "CanTransitionWithdrawal f t \<longleftrightarrow>
     (if \<not> withdrawalStateValid f \<or> \<not> withdrawalStateValid t then False
      else list_ex (\<lambda>allowed. allowed = t) (withdrawalTransitions f))"

subsection \<open>What a transition table promises\<close>

text \<open>
  \<open>can\<close> is the legality test the store calls, \<open>final\<close> the \<open>Terminal\<close> method. The laws: a legal
  step joins two known states, never a state to itself, and the final states are exactly the
  known states with no way out; from any other known state a final one is at most two steps away.
\<close>

locale transition_table =
  fixes valid :: "'st \<Rightarrow> bool"
    and can :: "'st \<Rightarrow> 'st \<Rightarrow> bool"
    and final :: "'st \<Rightarrow> bool"
    and all :: "'st list"
  assumes can_valid: "can f t \<Longrightarrow> valid f \<and> valid t"
    and can_irrefl: "\<not> can s s"
    and final_iff: "valid s \<Longrightarrow> final s \<longleftrightarrow> (\<forall>t. \<not> can s t)"
    and all_valid: "set all = {s. valid s}"
    and can_finish: "valid s \<Longrightarrow> \<not> final s \<Longrightarrow> \<exists>t. can s t \<and> final t \<or> (\<exists>u. can s u \<and> can u t \<and> final t)"
begin

lemma run_from_final: "can\<^sup>*\<^sup>* s t \<Longrightarrow> valid s \<Longrightarrow> final s \<Longrightarrow> t = s"
  by (metis converse_rtranclpE final_iff)

lemma run_valid: "can\<^sup>*\<^sup>* s t \<Longrightarrow> valid s \<Longrightarrow> valid t"
  by (induction rule: rtranclp_induct) (auto dest: can_valid)

lemma reaches_final: "valid s \<Longrightarrow> \<exists>t. can\<^sup>*\<^sup>* s t \<and> final t"
  by (metis can_finish rtranclp.rtrancl_refl r_into_rtranclp converse_rtranclp_into_rtranclp)

lemma run_closed:
  assumes "can\<^sup>*\<^sup>* s t" "P s" "\<And>a b. can a b \<Longrightarrow> P a \<Longrightarrow> P b"
  shows "P t"
  using assms by (induction rule: rtranclp_induct) auto

end

interpretation commission_machine: transition_table
  commissionStateValid CanTransitionCommission commissionTerminal AllCommissionStates
proof
  fix f t s :: commission_state
  show "CanTransitionCommission f t \<Longrightarrow> commissionStateValid f \<and> commissionStateValid t"
    by (simp add: CanTransitionCommission_def split: if_splits)
  show "\<not> CanTransitionCommission s s"
    by (cases s) (auto simp: CanTransitionCommission_def)
  show "commissionStateValid s \<Longrightarrow> commissionTerminal s \<longleftrightarrow> (\<forall>t. \<not> CanTransitionCommission s t)"
    by (cases s) (auto simp: CanTransitionCommission_def commissionTerminal_def commissionStateValid_def
        intro: exI [of _ CommissionReversed])
  show "set AllCommissionStates = {s. commissionStateValid s}"
  proof (rule set_eqI)
    show "x \<in> set AllCommissionStates \<longleftrightarrow> x \<in> {s. commissionStateValid s}" for x
      by (cases x) (simp_all add: AllCommissionStates_def commissionStateValid_def)
  qed
  show "commissionStateValid s \<Longrightarrow> \<not> commissionTerminal s \<Longrightarrow> \<exists>t. CanTransitionCommission s t \<and> commissionTerminal t \<or>
      (\<exists>u. CanTransitionCommission s u \<and> CanTransitionCommission u t \<and> commissionTerminal t)"
    by (intro exI [of _ CommissionReversed] disjI1, cases s)
      (auto simp: CanTransitionCommission_def commissionTerminal_def commissionStateValid_def)
qed

interpretation withdrawal_machine: transition_table
  withdrawalStateValid CanTransitionWithdrawal withdrawalTerminal AllWithdrawalStates
proof
  fix f t s :: withdrawal_state
  show "CanTransitionWithdrawal f t \<Longrightarrow> withdrawalStateValid f \<and> withdrawalStateValid t"
    by (simp add: CanTransitionWithdrawal_def split: if_splits)
  show "\<not> CanTransitionWithdrawal s s"
    by (cases s) (auto simp: CanTransitionWithdrawal_def)
  show "withdrawalStateValid s \<Longrightarrow> withdrawalTerminal s \<longleftrightarrow> (\<forall>t. \<not> CanTransitionWithdrawal s t)"
    by (cases s) (auto simp: CanTransitionWithdrawal_def withdrawalTerminal_def withdrawalStateValid_def
        intro: exI [of _ WithdrawalPaid] exI [of _ WithdrawalRejected])
  show "set AllWithdrawalStates = {s. withdrawalStateValid s}"
  proof (rule set_eqI)
    show "x \<in> set AllWithdrawalStates \<longleftrightarrow> x \<in> {s. withdrawalStateValid s}" for x
      by (cases x) (simp_all add: AllWithdrawalStates_def withdrawalStateValid_def)
  qed
  show "withdrawalStateValid s \<Longrightarrow> \<not> withdrawalTerminal s \<Longrightarrow> \<exists>t. CanTransitionWithdrawal s t \<and> withdrawalTerminal t \<or>
      (\<exists>u. CanTransitionWithdrawal s u \<and> CanTransitionWithdrawal u t \<and> withdrawalTerminal t)"
    by (intro exI [of _ WithdrawalPaid], cases s)
      (auto simp: CanTransitionWithdrawal_def withdrawalTerminal_def withdrawalStateValid_def
        intro!: exI [of _ WithdrawalApproved])
qed

subsection \<open>Lemmas on the two tables\<close>

lemma CanTransitionCommission_iff:
  "CanTransitionCommission f t \<longleftrightarrow> t \<in> set (commissionTransitions f)"
  by (cases f) (auto simp: CanTransitionCommission_def commissionStateValid_def list_ex_iff)

lemma CanTransitionWithdrawal_iff:
  "CanTransitionWithdrawal f t \<longleftrightarrow> t \<in> set (withdrawalTransitions f)"
  by (cases f) (auto simp: CanTransitionWithdrawal_def withdrawalStateValid_def list_ex_iff)

lemma ValidateCommissionTransition_None:
  "ValidateCommissionTransition f t = None \<longleftrightarrow> CanTransitionCommission f t"
  by (auto simp: ValidateCommissionTransition_def dest: commission_machine.can_valid)

lemma reserved_step:
  "CanTransitionWithdrawal f t \<Longrightarrow> withdrawalReserved f"
  by (cases f) (auto simp: CanTransitionWithdrawal_iff withdrawalReserved_def)

lemma reserved_iff_not_final: "withdrawalStateValid s \<Longrightarrow> withdrawalReserved s \<longleftrightarrow> \<not> withdrawalTerminal s"
  by (cases s) (auto simp: withdrawalReserved_def withdrawalTerminal_def withdrawalStateValid_def)

text \<open>
  C38. The commission machine: once settled, a commission can only ever be settled or reversed;
  once reversed or void it never changes again; and from every known state some run reaches a
  final state, so no commission can be stuck.
\<close>

theorem commission_runs:
  assumes "commissionStateValid s"
  shows "(CanTransitionCommission\<^sup>*\<^sup>* CommissionSettled t \<longrightarrow> t = CommissionSettled \<or> t = CommissionReversed) \<and>
    (commissionTerminal s \<longrightarrow> CanTransitionCommission\<^sup>*\<^sup>* s t \<longrightarrow> t = s) \<and>
    (\<exists>u. CanTransitionCommission\<^sup>*\<^sup>* s u \<and> commissionTerminal u)"
proof (intro conjI impI)
  assume "CanTransitionCommission\<^sup>*\<^sup>* CommissionSettled t"
  then show "t = CommissionSettled \<or> t = CommissionReversed"
    by (rule commission_machine.run_closed) (auto simp: CanTransitionCommission_iff)
next
  show "commissionTerminal s \<Longrightarrow> CanTransitionCommission\<^sup>*\<^sup>* s t \<Longrightarrow> t = s"
    using assms by (blast dest: commission_machine.run_from_final)
  show "\<exists>u. CanTransitionCommission\<^sup>*\<^sup>* s u \<and> commissionTerminal u"
    using assms by (rule commission_machine.reaches_final)
qed

theorem commission_runs_witness:
  "\<exists>u. CanTransitionCommission\<^sup>*\<^sup>* CommissionFrozen u \<and> commissionTerminal u"
  using commission_runs [of CommissionFrozen CommissionFrozen] by (simp add: commissionStateValid_def)

text \<open>
  C39. The withdrawal machine: every run can be completed to a final state, the reserved states
  are exactly the known states that are not final (so money is held precisely while the
  request is open), a final withdrawal never changes, and payment only follows an approval or a
  failed attempt.
\<close>

theorem withdrawal_runs:
  assumes "withdrawalStateValid s"
  shows "(withdrawalReserved s \<longleftrightarrow> \<not> withdrawalTerminal s) \<and>
    (withdrawalTerminal s \<longrightarrow> CanTransitionWithdrawal\<^sup>*\<^sup>* s t \<longrightarrow> t = s) \<and>
    (\<exists>u. CanTransitionWithdrawal\<^sup>*\<^sup>* s u \<and> withdrawalTerminal u) \<and>
    (CanTransitionWithdrawal s WithdrawalPaid \<longleftrightarrow> s = WithdrawalApproved \<or> s = WithdrawalPayFailed)"
proof (intro conjI impI)
  show "withdrawalReserved s \<longleftrightarrow> \<not> withdrawalTerminal s" using assms by (rule reserved_iff_not_final)
  show "withdrawalTerminal s \<Longrightarrow> CanTransitionWithdrawal\<^sup>*\<^sup>* s t \<Longrightarrow> t = s"
    using assms by (blast dest: withdrawal_machine.run_from_final)
  show "\<exists>u. CanTransitionWithdrawal\<^sup>*\<^sup>* s u \<and> withdrawalTerminal u"
    using assms by (rule withdrawal_machine.reaches_final)
  show "CanTransitionWithdrawal s WithdrawalPaid \<longleftrightarrow> s = WithdrawalApproved \<or> s = WithdrawalPayFailed"
    by (cases s) (auto simp: CanTransitionWithdrawal_iff)
qed

theorem withdrawal_runs_witness:
  "\<exists>u. CanTransitionWithdrawal\<^sup>*\<^sup>* WithdrawalPayFailed u \<and> withdrawalTerminal u"
  using withdrawal_runs [of WithdrawalPayFailed WithdrawalPaid] by (simp add: withdrawalStateValid_def)

end
