(* ===== verification/Model.thy ===== *)
theory Model
  imports States
begin

text \<open>
  model.go and the Withdrawal type of withdraw.go: the records the ledger keeps (agents,
  bindings, commissions, accounts, ledger entries, refund vouchers, withdrawals), the balance
  buckets, and the atomic account deltas. A field of a Go struct is a field of the record, with
  a short prefix per struct; \<open>zero\<dots>\<close> is the Go zero value a struct literal starts from.
\<close>

subsection \<open>Agents\<close>

datatype join_type = JoinFree | JoinReviewed | JoinPaid | JoinTypeRaw nat

definition joinTypeValid :: "join_type \<Rightarrow> bool" where
  "joinTypeValid j \<longleftrightarrow> (case j of JoinTypeRaw _ \<Rightarrow> False | _ \<Rightarrow> True)"

datatype agent_status = AgentInactive | AgentActive | AgentDisabled | AgentStatusRaw nat

definition agentStatusValid :: "agent_status \<Rightarrow> bool" where
  "agentStatusValid s \<longleftrightarrow> (case s of AgentStatusRaw _ \<Rightarrow> False | _ \<Rightarrow> True)"

definition agentStatusString :: "agent_status \<Rightarrow> string" where
  "agentStatusString s = (case s of
      AgentInactive \<Rightarrow> ''inactive'' | AgentActive \<Rightarrow> ''active'' | AgentDisabled \<Rightarrow> ''disabled''
    | AgentStatusRaw n \<Rightarrow> ''AgentStatus('' @ formatInt (int n) @ '')'')"

record agent =
  agKey :: user_key
  agParentID :: int
  agDepth :: int
  agStatus :: agent_status
  agJoinType :: join_type
  agRateOverrideBP :: "rate option"
  agCreatedAt :: gotime
  agUpdatedAt :: gotime
  agVersion :: int

subsection \<open>Bindings\<close>

datatype bind_source = SourceLink | SourceInviteCode | SourceManual | SourceSalesperson | BindSourceRaw nat

definition bindSourceValid :: "bind_source \<Rightarrow> bool" where
  "bindSourceValid s \<longleftrightarrow> (case s of BindSourceRaw _ \<Rightarrow> False | _ \<Rightarrow> True)"

record binding =
  bID :: int
  bBuyer :: user_key
  bAgentUserID :: int
  bSource :: bind_source
  bSourceRef :: string
  bBoundAt :: gotime
  bExpireAt :: gotime
  bActive :: bool
  bReboundFrom :: int
  bVersion :: int

definition bindingEffective :: "binding \<Rightarrow> gotime \<Rightarrow> bool" where
  "bindingEffective b at =
     (if \<not> bActive b then False
      else if bExpireAt b = 0 then True
      else at < bExpireAt b)"

subsection \<open>Commissions\<close>

record commission =
  cID :: int
  cKey :: order_key
  cIdemKey :: string
  cOrderItemID :: string
  cBuyerUserID :: int
  cAgentUserID :: int
  cLayer :: int
  cBaseAmount :: money
  cRate :: rate
  cAmount :: money
  cState :: commission_state
  cFreezeDays :: int
  cAvailableAt :: gotime
  cRuleVersion :: int
  cRuleSnapshot :: string
  cAccruedAt :: gotime
  cSettledAt :: gotime
  cReversedAmount :: money
  cReverseOf :: int
  cVersion :: int

definition zeroCommission :: commission where
  "zeroCommission = \<lparr>cID = 0, cKey = OrderKey 0 [], cIdemKey = [], cOrderItemID = [], cBuyerUserID = 0,
     cAgentUserID = 0, cLayer = 0, cBaseAmount = 0, cRate = 0, cAmount = 0, cState = CommissionPending,
     cFreezeDays = 0, cAvailableAt = 0, cRuleVersion = 0, cRuleSnapshot = [], cAccruedAt = 0, cSettledAt = 0,
     cReversedAmount = 0, cReverseOf = 0, cVersion = 0\<rparr>"

definition OutstandingAmount :: "commission \<Rightarrow> money" where
  "OutstandingAmount c = cAmount c - cReversedAmount c"

definition MaxReversible :: "commission \<Rightarrow> money" where
  "MaxReversible c = (if cAmount c <=s 0 then 0 else cAmount c)"

definition FullyReversed :: "commission \<Rightarrow> bool" where
  "FullyReversed c \<longleftrightarrow> 0 <s cAmount c \<and> cAmount c <=s cReversedAmount c"

definition DueAt :: "commission \<Rightarrow> gotime \<Rightarrow> bool" where
  "DueAt c at = (if cAvailableAt c = 0 then False else \<not> at < cAvailableAt c)"

subsection \<open>Accounts and buckets\<close>

record account =
  aKey :: user_key
  aFrozen :: money
  aAvailable :: money
  aWithdrawing :: money
  aWithdrawn :: money
  aTotalEarned :: money
  aTotalReversed :: money
  aVersion :: int
  aUpdatedAt :: gotime

definition zeroAccount :: account where
  "zeroAccount = \<lparr>aKey = UserKey 0 0, aFrozen = 0, aAvailable = 0, aWithdrawing = 0, aWithdrawn = 0,
     aTotalEarned = 0, aTotalReversed = 0, aVersion = 0, aUpdatedAt = 0\<rparr>"

datatype bucket = BucketFrozen | BucketAvailable | BucketWithdrawing | BucketWithdrawn

definition AllBuckets :: "bucket list" where
  "AllBuckets = [BucketFrozen, BucketAvailable, BucketWithdrawing, BucketWithdrawn]"

fun bucketString :: "bucket \<Rightarrow> string" where
  "bucketString BucketFrozen = ''Frozen''"
| "bucketString BucketAvailable = ''Available''"
| "bucketString BucketWithdrawing = ''Withdrawing''"
| "bucketString BucketWithdrawn = ''Withdrawn''"

fun bucketValue :: "bucket \<Rightarrow> account \<Rightarrow> money" where
  "bucketValue BucketFrozen a = aFrozen a"
| "bucketValue BucketAvailable a = aAvailable a"
| "bucketValue BucketWithdrawing a = aWithdrawing a"
| "bucketValue BucketWithdrawn a = aWithdrawn a"

fun bucketSet :: "bucket \<Rightarrow> money \<Rightarrow> account \<Rightarrow> account" where
  "bucketSet BucketFrozen v a = a\<lparr>aFrozen := v\<rparr>"
| "bucketSet BucketAvailable v a = a\<lparr>aAvailable := v\<rparr>"
| "bucketSet BucketWithdrawing v a = a\<lparr>aWithdrawing := v\<rparr>"
| "bucketSet BucketWithdrawn v a = a\<lparr>aWithdrawn := v\<rparr>"

definition NegativeBuckets :: "account \<Rightarrow> bucket list" where
  "NegativeBuckets a = filter (\<lambda>b. bucketValue b a <s 0) AllBuckets"

definition Settleable :: "account \<Rightarrow> bool" where
  "Settleable a \<longleftrightarrow> list_all (\<lambda>b. \<not> bucketValue b a <s 0) AllBuckets"

subsection \<open>Account deltas\<close>

record account_delta =
  dKey :: user_key
  dFrozen :: money
  dAvailable :: money
  dWithdrawing :: money
  dWithdrawn :: money
  dTotalEarned :: money
  dTotalReversed :: money
  dAt :: gotime
  dRequireNonNegative :: bool

definition zeroDelta :: account_delta where
  "zeroDelta = \<lparr>dKey = UserKey 0 0, dFrozen = 0, dAvailable = 0, dWithdrawing = 0, dWithdrawn = 0,
     dTotalEarned = 0, dTotalReversed = 0, dAt = 0, dRequireNonNegative = False\<rparr>"

fun bucketAddToDelta :: "bucket \<Rightarrow> money \<Rightarrow> account_delta \<Rightarrow> account_delta" where
  "bucketAddToDelta BucketFrozen v d = d\<lparr>dFrozen := dFrozen d + v\<rparr>"
| "bucketAddToDelta BucketAvailable v d = d\<lparr>dAvailable := dAvailable d + v\<rparr>"
| "bucketAddToDelta BucketWithdrawing v d = d\<lparr>dWithdrawing := dWithdrawing d + v\<rparr>"
| "bucketAddToDelta BucketWithdrawn v d = d\<lparr>dWithdrawn := dWithdrawn d + v\<rparr>"

text \<open>The change a delta makes to a bucket (for statements; the code names the fields).\<close>

fun deltaOf :: "bucket \<Rightarrow> account_delta \<Rightarrow> money" where
  "deltaOf BucketFrozen d = dFrozen d"
| "deltaOf BucketAvailable d = dAvailable d"
| "deltaOf BucketWithdrawing d = dWithdrawing d"
| "deltaOf BucketWithdrawn d = dWithdrawn d"

definition deltaApply :: "account_delta \<Rightarrow> account \<Rightarrow> gerror + account" where
  "deltaApply d a =
     (case moneyAdd (aFrozen a) (dFrozen d) of Inl e \<Rightarrow> Inl e | Inr v1 \<Rightarrow>
      case moneyAdd (aAvailable a) (dAvailable d) of Inl e \<Rightarrow> Inl e | Inr v2 \<Rightarrow>
      case moneyAdd (aWithdrawing a) (dWithdrawing d) of Inl e \<Rightarrow> Inl e | Inr v3 \<Rightarrow>
      case moneyAdd (aWithdrawn a) (dWithdrawn d) of Inl e \<Rightarrow> Inl e | Inr v4 \<Rightarrow>
      case moneyAdd (aTotalEarned a) (dTotalEarned d) of Inl e \<Rightarrow> Inl e | Inr v5 \<Rightarrow>
      case moneyAdd (aTotalReversed a) (dTotalReversed d) of Inl e \<Rightarrow> Inl e | Inr v6 \<Rightarrow>
      Inr (a\<lparr>aFrozen := v1, aAvailable := v2, aWithdrawing := v3, aWithdrawn := v4,
             aTotalEarned := v5, aTotalReversed := v6\<rparr>))"

definition deltaIsZero :: "account_delta \<Rightarrow> bool" where
  "deltaIsZero d \<longleftrightarrow> dFrozen d = 0 \<and> dAvailable d = 0 \<and> dWithdrawing d = 0 \<and>
     dWithdrawn d = 0 \<and> dTotalEarned d = 0 \<and> dTotalReversed d = 0"

subsection \<open>Refund vouchers\<close>

record refund =
  rfID :: int
  rfKey :: order_key
  rfItemID :: string
  rfAmount :: money
  rfCumulative :: money
  rfIdemKey :: string
  rfRefundedAt :: gotime

subsection \<open>Ledger entries\<close>

datatype ledger_biz_type =
    LedgerAccrue
  | LedgerSettle
  | LedgerReverse
  | LedgerVoid
  | LedgerWithdrawHold
  | LedgerWithdrawPaid
  | LedgerWithdrawRefund
  | LedgerManualAdjust
  | LedgerBizRaw nat

definition ledgerBizValid :: "ledger_biz_type \<Rightarrow> bool" where
  "ledgerBizValid t \<longleftrightarrow> (case t of LedgerBizRaw _ \<Rightarrow> False | _ \<Rightarrow> True)"

definition referencesCommission :: "ledger_biz_type \<Rightarrow> bool" where
  "referencesCommission t \<longleftrightarrow> t = LedgerAccrue \<or> t = LedgerReverse \<or> t = LedgerVoid"

definition referencesWithdrawal :: "ledger_biz_type \<Rightarrow> bool" where
  "referencesWithdrawal t \<longleftrightarrow> t = LedgerWithdrawHold \<or> t = LedgerWithdrawPaid \<or> t = LedgerWithdrawRefund"

record ledger_entry =
  leID :: int
  leKey :: user_key
  leBizType :: ledger_biz_type
  leBizID :: string
  leDeltaFrozen :: money
  leDeltaAvailable :: money
  leDeltaWithdrawing :: money
  leDeltaWithdrawn :: money
  leAfterFrozen :: money
  leAfterAvailable :: money
  leAfterWithdrawing :: money
  leAfterWithdrawn :: money
  leRemark :: string
  leCreatedAt :: gotime

fun bucketDelta :: "bucket \<Rightarrow> ledger_entry \<Rightarrow> money" where
  "bucketDelta BucketFrozen e = leDeltaFrozen e"
| "bucketDelta BucketAvailable e = leDeltaAvailable e"
| "bucketDelta BucketWithdrawing e = leDeltaWithdrawing e"
| "bucketDelta BucketWithdrawn e = leDeltaWithdrawn e"

fun bucketAfter :: "bucket \<Rightarrow> ledger_entry \<Rightarrow> money" where
  "bucketAfter BucketFrozen e = leAfterFrozen e"
| "bucketAfter BucketAvailable e = leAfterAvailable e"
| "bucketAfter BucketWithdrawing e = leAfterWithdrawing e"
| "bucketAfter BucketWithdrawn e = leAfterWithdrawn e"

fun bucketSetAfter :: "bucket \<Rightarrow> money \<Rightarrow> ledger_entry \<Rightarrow> ledger_entry" where
  "bucketSetAfter BucketFrozen v e = e\<lparr>leAfterFrozen := v\<rparr>"
| "bucketSetAfter BucketAvailable v e = e\<lparr>leAfterAvailable := v\<rparr>"
| "bucketSetAfter BucketWithdrawing v e = e\<lparr>leAfterWithdrawing := v\<rparr>"
| "bucketSetAfter BucketWithdrawn v e = e\<lparr>leAfterWithdrawn := v\<rparr>"

text \<open>Despite its name \<open>AddDelta\<close> assigns.\<close>

fun bucketAddDelta :: "bucket \<Rightarrow> money \<Rightarrow> ledger_entry \<Rightarrow> ledger_entry" where
  "bucketAddDelta BucketFrozen v e = e\<lparr>leDeltaFrozen := v\<rparr>"
| "bucketAddDelta BucketAvailable v e = e\<lparr>leDeltaAvailable := v\<rparr>"
| "bucketAddDelta BucketWithdrawing v e = e\<lparr>leDeltaWithdrawing := v\<rparr>"
| "bucketAddDelta BucketWithdrawn v e = e\<lparr>leDeltaWithdrawn := v\<rparr>"

definition NetDelta :: "ledger_entry \<Rightarrow> money" where
  "NetDelta e = leDeltaFrozen e + leDeltaAvailable e + leDeltaWithdrawing e + leDeltaWithdrawn e"

definition newLedgerEntry ::
  "user_key \<Rightarrow> ledger_biz_type \<Rightarrow> string \<Rightarrow> string \<Rightarrow> gotime \<Rightarrow> account \<Rightarrow> bucket \<Rightarrow> money \<Rightarrow> ledger_entry" where
  "newLedgerEntry key bizType bizID remark at after moved amount =
     (let e = \<lparr>leID = 0, leKey = key, leBizType = bizType, leBizID = bizID,
               leDeltaFrozen = 0, leDeltaAvailable = 0, leDeltaWithdrawing = 0, leDeltaWithdrawn = 0,
               leAfterFrozen = 0, leAfterAvailable = 0, leAfterWithdrawing = 0, leAfterWithdrawn = 0,
               leRemark = remark, leCreatedAt = at\<rparr>
      in bucketAddDelta moved amount
           (foldl (\<lambda>e b. bucketSetAfter b (bucketValue b after) e) e AllBuckets))"

subsection \<open>Withdrawals\<close>

record withdrawal =
  wID :: int
  wKey :: user_key
  wIdemKey :: string
  wAmount :: money
  wFee :: money
  wRealAmount :: money
  wChannel :: string
  wAccountInfo :: string
  wState :: withdrawal_state
  wFailReason :: string
  wTaxAmount :: money
  wInvoiceNo :: string
  wOperator :: string
  wAppliedAt :: gotime
  wAuditedAt :: gotime
  wPaidAt :: gotime
  wVersion :: int

definition withdrawalValidate :: "withdrawal \<Rightarrow> gerror option" where
  "withdrawalValidate w =
     (case userKeyValidate (wKey w) of Some e \<Rightarrow> Some e | None \<Rightarrow>
      if wAmount w <=s 0 then Some (FieldError ''amount'')
      else if wFee w <s 0 then Some (FieldError ''fee'')
      else if wAmount w <=s wFee w then Some (FieldError ''fee'')
      else if wRealAmount w \<noteq> wAmount w - wFee w then Some (FieldError ''real_amount'')
      else if \<not> withdrawalStateValid (wState w) then Some (FieldError ''state'')
      else if wState w = WithdrawalPaid \<and> wPaidAt w = 0 then Some (FieldError ''paid_at'')
      else if wState w \<noteq> WithdrawalPaid \<and> wPaidAt w \<noteq> 0 then Some (FieldError ''paid_at'')
      else if wIdemKey w = [] then Some (FieldError ''idem_key'')
      else None)"

definition withdrawalOutstanding :: "withdrawal \<Rightarrow> money" where
  "withdrawalOutstanding w = (if withdrawalReserved (wState w) then wAmount w else 0)"

record withdrawal_transition =
  wtFailReason :: string
  wtInvoiceNo :: string
  wtOperator :: string
  wtAuditedAt :: gotime
  wtPaidAt :: gotime

subsection \<open>Lemmas: buckets\<close>

lemma set_AllBuckets [simp]: "set AllBuckets = UNIV"
proof (rule UNIV_eq_I [symmetric])
  show "b \<in> set AllBuckets" for b by (cases b) (simp_all add: AllBuckets_def)
qed

lemma bucketValue_bucketSet [simp]: "bucketValue b (bucketSet c v a) = (if b = c then v else bucketValue b a)"
  by (cases b; cases c) simp_all

lemma bucketAfter_AddDelta [simp]: "bucketAfter b (bucketAddDelta c v e) = bucketAfter b e"
  by (cases b; cases c) simp_all

lemma bucketDelta_AddDelta [simp]: "bucketDelta b (bucketAddDelta c v e) = (if b = c then v else bucketDelta b e)"
  by (cases b; cases c) simp_all

lemma leFields_AddDelta [simp]:
  "leID (bucketAddDelta c v e) = leID e" "leKey (bucketAddDelta c v e) = leKey e"
  "leBizType (bucketAddDelta c v e) = leBizType e" "leBizID (bucketAddDelta c v e) = leBizID e"
  "leRemark (bucketAddDelta c v e) = leRemark e"
  by (cases c; simp)+

lemma newLedgerEntry_fields [simp]:
  "leKey (newLedgerEntry k t i r at a m v) = k" "leBizType (newLedgerEntry k t i r at a m v) = t"
  "leBizID (newLedgerEntry k t i r at a m v) = i" "leRemark (newLedgerEntry k t i r at a m v) = r"
  "bucketAfter b (newLedgerEntry k t i r at a m v) = bucketValue b a"
  "bucketDelta b (newLedgerEntry k t i r at a m v) = (if b = m then v else 0)"
  by (cases b; simp add: newLedgerEntry_def AllBuckets_def Let_def)+

lemma NegativeBuckets_Nil: "NegativeBuckets a = [] \<longleftrightarrow> (\<forall>b. 0 \<le> sint (bucketValue b a))"
  by (auto simp: NegativeBuckets_def filter_empty_conv sless_sint not_less)

lemma Settleable_iff: "Settleable a \<longleftrightarrow> (\<forall>b. 0 \<le> sint (bucketValue b a))"
  by (auto simp: Settleable_def list_all_iff sless_sint not_less)

lemma deltaOf_AddToDelta [simp]:
  "deltaOf b (bucketAddToDelta c v d) = (if b = c then deltaOf b d + v else deltaOf b d)"
  by (cases b; cases c) simp_all

lemma dFields_AddToDelta [simp]:
  "dKey (bucketAddToDelta c v d) = dKey d" "dTotalEarned (bucketAddToDelta c v d) = dTotalEarned d"
  "dTotalReversed (bucketAddToDelta c v d) = dTotalReversed d"
  "dRequireNonNegative (bucketAddToDelta c v d) = dRequireNonNegative d"
  by (cases c; simp)+

text \<open>Applying a delta is exact in every bucket and total, or an overflow that changes nothing.\<close>

lemma deltaApply_InrD:
  assumes "deltaApply d a = Inr a'"
  shows "bucketValue b a' = bucketValue b a + deltaOf b d"
    and "sint (bucketValue b a') = sint (bucketValue b a) + sint (deltaOf b d)"
    and "sint (aTotalEarned a') = sint (aTotalEarned a) + sint (dTotalEarned d)"
    and "sint (aTotalReversed a') = sint (aTotalReversed a) + sint (dTotalReversed d)"
    and "aTotalEarned a' = aTotalEarned a + dTotalEarned d"
    and "aTotalReversed a' = aTotalReversed a + dTotalReversed d"
    and "aKey a' = aKey a" and "aVersion a' = aVersion a" and "aUpdatedAt a' = aUpdatedAt a"
  using assms
  by (cases b; auto simp: deltaApply_def split: sum.splits dest: moneyAdd_InrD)+

lemma deltaApply_Inl: "deltaApply d a = Inl e \<Longrightarrow> e = ErrOverflow"
  by (auto simp: deltaApply_def moneyAdd_exact split: sum.splits if_splits)

lemma account_eqI:
  assumes "\<And>b. bucketValue b x = bucketValue b y" "aKey x = aKey y" "aTotalEarned x = aTotalEarned y"
    "aTotalReversed x = aTotalReversed y" "aVersion x = aVersion y" "aUpdatedAt x = aUpdatedAt y"
  shows "x = (y :: account)"
  using assms(1) [of BucketFrozen] assms(1) [of BucketAvailable] assms(1) [of BucketWithdrawing]
    assms(1) [of BucketWithdrawn] assms(2-) by (simp add: account.equality)

end
