(* ===== verification/Rules.thy ===== *)
theory Rules
  imports Model
begin

text \<open>
  rule.go: the business rules with their normalisation and validation, the snapshot string and
  content fingerprint recorded on a commission, and the default rate resolver and eligibility
  check. A caller's own resolver or checker is a function of the same type.
\<close>

definition MaxLevels :: int where "MaxLevels = 3"
definition MaxFreezeDays :: int where "MaxFreezeDays = 3650"
definition MaxBindExpireDays :: int where "MaxBindExpireDays = 36500"

record rules =
  rLevels :: int
  rRateBP :: "rate list"
  rRounding :: rounding
  rFreezeDays :: int
  rMaxAllocatableBP :: rate
  rBindExpireDays :: int
  rMinWithdraw :: money
  rFeeRateBP :: rate
  rAllowNegative :: bool

definition DefaultRules :: rules where
  "DefaultRules = \<lparr>rLevels = 2, rRateBP = [0, 0], rRounding = RoundDown, rFreezeDays = 7,
     rMaxAllocatableBP = MaxRateBP, rBindExpireDays = 0, rMinWithdraw = 10000, rFeeRateBP = 0,
     rAllowNegative = False\<rparr>"

text \<open>\<open>make([]Rate, n)\<close> panics for a negative length; the model's replicate is then empty, and
  \<open>Validate\<close>, which always follows, refuses a negative level count either way.\<close>

definition rulesNormalize :: "rules \<Rightarrow> rules" where
  "rulesNormalize r0 =
     (let r1 = (if rMaxAllocatableBP r0 = 0 then r0\<lparr>rMaxAllocatableBP := MaxRateBP\<rparr> else r0);
          r2 = (if rLevels r1 = 0 then r1\<lparr>rLevels := 2\<rparr> else r1);
          r3 = (if rRateBP r2 = [] then r2\<lparr>rRateBP := replicate (nat (rLevels r2)) 0\<rparr> else r2)
      in r3)"

definition rulesValidate :: "rules \<Rightarrow> gerror option" where
  "rulesValidate r =
     (if rLevels r < 1 \<or> rLevels r > MaxLevels then Some (FieldError ''rules.levels'')
      else if int (length (rRateBP r)) \<noteq> rLevels r then Some (FieldError ''rules.rate_bp'')
      else if \<not> roundingValid (rRounding r) then Some (FieldError ''rules.rounding'')
      else if rFreezeDays r < 0 \<or> rFreezeDays r > MaxFreezeDays then Some (FieldError ''rules.freeze_days'')
      else if rBindExpireDays r < 0 \<or> rBindExpireDays r > MaxBindExpireDays
        then Some (FieldError ''rules.bind_expire_days'')
      else if \<not> rateValid (rMaxAllocatableBP r) then Some (FieldError ''rules.max_allocatable_bp'')
      else if rMaxAllocatableBP r = 0 then Some (FieldError ''rules.max_allocatable_bp'')
      else case foldE (\<lambda>rate tot. if \<not> rateValid rate then Inl (FieldError ''rules.rate_bp'')
                                 else Inr (tot + rate)) (rRateBP r) 0 of
          Inl e \<Rightarrow> Some e
        | Inr tot \<Rightarrow> if tot > rMaxAllocatableBP r then Some (FieldError ''rules.rate_bp'') else None)"

fun joinRates :: "rate list \<Rightarrow> string" where
  "joinRates [] = []"
| "joinRates [r] = formatInt r"
| "joinRates (r # rs) = formatInt r @ CHR '','' # joinRates rs"

definition rulesDescribe :: "rules \<Rightarrow> string" where
  "rulesDescribe r =
     ''{'' @ [CHR 0x22] @ ''levels'' @ [CHR 0x22] @ '':'' @ formatInt (rLevels r) @
     '','' @ [CHR 0x22] @ ''rate_bp'' @ [CHR 0x22] @ '':['' @ joinRates (rRateBP r) @
     ''],'' @ [CHR 0x22] @ ''rounding'' @ [CHR 0x22] @ '':'' @
     [CHR 0x22] @ roundingString (rRounding r) @ [CHR 0x22] @
     '','' @ [CHR 0x22] @ ''freeze_days'' @ [CHR 0x22] @ '':'' @ formatInt (rFreezeDays r) @
     '','' @ [CHR 0x22] @ ''max_allocatable_bp'' @ [CHR 0x22] @ '':'' @ formatInt (rMaxAllocatableBP r) @ ''}''"

text \<open>\<open>binary.BigEndian.Uint64\<close>, and the fingerprint with SHA-256 as the parameter \<open>h\<close>.\<close>

definition beUint64 :: "string \<Rightarrow> nat" where
  "beUint64 s = foldl (\<lambda>a c. 256 * a + of_char c) 0 (take 8 s)"

definition rulesVersion :: "(string \<Rightarrow> string) \<Rightarrow> rules \<Rightarrow> int" where
  "rulesVersion h r = int (beUint64 (h (rulesDescribe r)) div 2)"

record rate_input =
  riOrder :: order_key
  riLayer :: int
  riAgent :: agent
  riRules :: rules

record eligibility_input =
  eiAgent :: agent
  eiOrder :: order_key
  eiBuyerUserID :: int

definition defaultResolveRate :: "rate_input \<Rightarrow> gerror + rate" where
  "defaultResolveRate i =
     (case agRateOverrideBP (riAgent i) of
        Some r \<Rightarrow> Inr r
      | None \<Rightarrow>
          let idx = riLayer i - 1 in
          if idx < 0 \<or> idx \<ge> int (length (rRateBP (riRules i))) then Inl (FieldError ''layer'')
          else Inr (rRateBP (riRules i) ! nat idx))"

definition defaultEligible :: "eligibility_input \<Rightarrow> bool \<times> string" where
  "defaultEligible i =
     (if agStatus (eiAgent i) \<noteq> AgentActive
      then (False, ''agent status is '' @ agentStatusString (agStatus (eiAgent i)))
      else if eiBuyerUserID i \<noteq> 0 \<and> ukUserID (agKey (eiAgent i)) = eiBuyerUserID i
      then (False, ''self-purchase is not eligible by default'')
      else (True, []))"

subsection \<open>Lemmas\<close>

lemma rates_fold:
  "foldE (\<lambda>rate tot. if \<not> rateValid rate then Inl (FieldError f) else Inr (tot + rate)) rs s =
   (if list_all rateValid rs then Inr (s + sum_list rs) else Inl (FieldError f))"
  by (induction rs arbitrary: s) auto

text \<open>What validation establishes; every later use of the rules rests on these facts.\<close>

lemma rulesValidate_None:
  assumes "rulesValidate r = None"
  shows "1 \<le> rLevels r" "rLevels r \<le> 3" "int (length (rRateBP r)) = rLevels r" "roundingValid (rRounding r)"
    and "0 \<le> rFreezeDays r" "rFreezeDays r \<le> MaxFreezeDays" "rateValid (rMaxAllocatableBP r)"
    "list_all rateValid (rRateBP r)" "sum_list (rRateBP r) \<le> rMaxAllocatableBP r"
  using assms by (auto simp: rulesValidate_def rates_fold MaxLevels_def split: if_splits)

text \<open>
  C40. The defaults pay nothing: normalising the empty rules or taking the defaults passes
  validation, and validated rules never promise more than the allocation cap, which is at most
  the whole base.
\<close>

theorem rules_sound:
  assumes "rulesValidate r = None"
  shows "rulesValidate DefaultRules = None \<and> sum_list (rRateBP DefaultRules) = 0 \<and>
    sum_list (rRateBP r) \<le> rMaxAllocatableBP r \<and> rMaxAllocatableBP r \<le> RateScale \<and>
    length (rRateBP r) \<le> 3 \<and> (\<forall>x \<in> set (rRateBP r). 0 \<le> x \<and> x \<le> RateScale)"
proof -
  have "rulesValidate DefaultRules = None"
    by (simp add: rulesValidate_def DefaultRules_def MaxLevels_def MaxFreezeDays_def MaxBindExpireDays_def
        roundingValid_def rateValid_def MaxRateBP_def RateScale_def)
  with rulesValidate_None [OF assms] show ?thesis
    by (auto simp: DefaultRules_def rateValid_def MaxRateBP_def list_all_iff)
qed

theorem rules_sound_witness:
  "rulesValidate (DefaultRules\<lparr>rRateBP := [500, 200]\<rparr>) = None \<and>
   sum_list (rRateBP (DefaultRules\<lparr>rRateBP := [500, 200]\<rparr>)) \<le> rMaxAllocatableBP DefaultRules"
proof -
  have ok: "rulesValidate (DefaultRules\<lparr>rRateBP := [500, 200]\<rparr>) = None"
    by (simp add: rulesValidate_def DefaultRules_def MaxLevels_def MaxFreezeDays_def MaxBindExpireDays_def
        roundingValid_def rateValid_def MaxRateBP_def RateScale_def)
  from rules_sound [OF ok] ok show ?thesis by simp
qed

text \<open>
  The content fingerprint does not see every rule: rules that differ only in the binding
  term, the minimum withdrawal, the fee or the debt policy have the same snapshot and the same
  version, whatever the hash.
\<close>

theorem version_blind:
  "rulesDescribe (r\<lparr>rBindExpireDays := d, rMinWithdraw := m, rFeeRateBP := f, rAllowNegative := n\<rparr>) = rulesDescribe r \<and>
   rulesVersion h (r\<lparr>rBindExpireDays := d, rMinWithdraw := m, rFeeRateBP := f, rAllowNegative := n\<rparr>) = rulesVersion h r"
  by (simp add: rulesVersion_def rulesDescribe_def)

end
