(* ===== verification/Events.thy ===== *)
theory Events
  imports Rules
begin

text \<open>
  event.go: the events external systems deliver, with their validation, and the results the
  engine answers with. The request types of payout.go follow the same pattern.
\<close>

subsection \<open>Paid orders\<close>

record order_item =
  oiItemID :: string
  oiAmount :: money

record order_paid_event =
  epTenantID :: int
  epOrderID :: string
  epBuyerUserID :: int
  epPaidAmount :: money
  epItems :: "order_item list"
  epPaidAt :: gotime
  epIdemKey :: string

definition epOrderKey :: "order_paid_event \<Rightarrow> order_key" where
  "epOrderKey e = OrderKey (epTenantID e) (epOrderID e)"

definition MaxOrderItems :: nat where
  "MaxOrderItems = 200"

definition itemField :: "nat \<Rightarrow> string \<Rightarrow> string" where
  "itemField i f = ''items['' @ i64s (int i) @ '']'' @ f"

text \<open>One round of the item loop; the accumulator is the set of ids seen and the checked sum.\<close>

definition checkPaidItem :: "nat \<times> order_item \<Rightarrow> string set \<times> money \<Rightarrow> gerror + (string set \<times> money)" where
  "checkPaidItem = (\<lambda>(i, it) (seen, tot).
     if oiItemID it = [] then Inl (FieldError (itemField i ''.item_id''))
     else if length (oiItemID it) > MaxOrderItemIDLen then Inl (FieldError (itemField i ''.item_id''))
     else if oiAmount it <=s 0 then Inl (FieldError (itemField i ''.amount''))
     else if oiItemID it \<in> seen then Inl (FieldError (itemField i ''.item_id''))
     else case moneyAdd tot (oiAmount it) of
        Inl e \<Rightarrow> Inl e
      | Inr next \<Rightarrow> Inr (insert (oiItemID it) seen, next))"

definition paidValidate :: "order_paid_event \<Rightarrow> gerror option" where
  "paidValidate e =
     (case orderKeyValidate (epOrderKey e) of Some err \<Rightarrow> Some err | None \<Rightarrow>
      case (if epIdemKey e \<noteq> [] then validateIdemKeyOverride (epIdemKey e) else None) of Some err \<Rightarrow> Some err | None \<Rightarrow>
      if epBuyerUserID e \<le> 0 then Some (FieldError ''buyer_user_id'')
      else if epPaidAmount e <s 0 then Some (FieldError ''paid_amount'')
      else if epPaidAmount e = 0 then Some (FieldError ''paid_amount'')
      else if epPaidAt e = 0 then Some (FieldError ''paid_at'')
      else if length (epItems e) > MaxOrderItems then Some (FieldError ''items'')
      else case foldE checkPaidItem (enumerate 0 (epItems e)) ({}, 0) of
          Inl err \<Rightarrow> Some err
        | Inr (_, tot) \<Rightarrow> if epPaidAmount e <s tot then Some (FieldError ''items'') else None)"

subsection \<open>Receipts\<close>

record order_received_event =
  erTenantID :: int
  erOrderID :: string
  erReceivedAt :: gotime

definition erOrderKey :: "order_received_event \<Rightarrow> order_key" where
  "erOrderKey e = OrderKey (erTenantID e) (erOrderID e)"

definition receivedValidate :: "order_received_event \<Rightarrow> gerror option" where
  "receivedValidate e = orderKeyValidate (erOrderKey e)"

subsection \<open>Refunds\<close>

record refund_item =
  riItemID :: string
  riAmount :: money

record order_refunded_event =
  efTenantID :: int
  efOrderID :: string
  efIsFull :: bool
  efItems :: "refund_item list"
  efAmount :: money
  efRefundedAt :: gotime
  efIdemKey :: string

definition efOrderKey :: "order_refunded_event \<Rightarrow> order_key" where
  "efOrderKey e = OrderKey (efTenantID e) (efOrderID e)"

definition checkRefundItem :: "nat \<times> refund_item \<Rightarrow> string set \<Rightarrow> gerror + string set" where
  "checkRefundItem = (\<lambda>(i, it) seen.
     if length (riItemID it) > MaxOrderItemIDLen then Inl (FieldError (itemField i ''.item_id''))
     else if riAmount it <=s 0 then Inl (FieldError (itemField i ''..amount''))
     else if riItemID it \<in> seen then Inl (FieldError (itemField i ''.item_id''))
     else Inr (insert (riItemID it) seen))"

definition refundModes :: "order_refunded_event \<Rightarrow> nat" where
  "refundModes e = (if efIsFull e then 1 else 0) + (if length (efItems e) > 0 then 1 else 0) +
     (if 0 <s efAmount e then 1 else 0)"

definition refundedValidate :: "order_refunded_event \<Rightarrow> gerror option" where
  "refundedValidate e =
     (case orderKeyValidate (efOrderKey e) of Some err \<Rightarrow> Some err | None \<Rightarrow>
      if efRefundedAt e = 0 then Some (FieldError ''refunded_at'')
      else if efIdemKey e = [] then Some (FieldError ''idem_key'')
      else case validateIdemKeyOverride (efIdemKey e) of Some err \<Rightarrow> Some err | None \<Rightarrow>
      if refundModes e = 0 then Some (FieldError ''is_full'')
      else if refundModes e > 1 then Some (FieldError ''is_full'')
      else if efAmount e <s 0 then Some (FieldError ''amount'')
      else case foldE checkRefundItem (enumerate 0 (efItems e)) {} of
          Inl err \<Rightarrow> Some err
        | Inr _ \<Rightarrow> None)"

subsection \<open>Results\<close>

datatype skip_code =
    SkipZeroAmount
  | SkipIneligible
  | SkipNoParent
  | SkipCapExhausted
  | SkipAgentMissing
  | SkipFullyReversed

record skip_reason =
  skLayer :: int
  skAgentUserID :: int
  skCode :: skip_code
  skDetail :: string

record accrue_result =
  arOrderKey :: order_key
  arAttributed :: bool
  arAgentUserID :: int
  arCommissions :: "commission list"
  arReplayed :: bool
  arUnallocatedBase :: money
  arSkipped :: "skip_reason list"

definition newAccrueResult :: "order_key \<Rightarrow> accrue_result" where
  "newAccrueResult k = \<lparr>arOrderKey = k, arAttributed = False, arAgentUserID = 0, arCommissions = [],
     arReplayed = False, arUnallocatedBase = 0, arSkipped = []\<rparr>"

definition accrueSkip :: "int \<Rightarrow> int \<Rightarrow> skip_code \<Rightarrow> string \<Rightarrow> accrue_result \<Rightarrow> accrue_result" where
  "accrueSkip layer agent code detail r =
     r\<lparr>arSkipped := arSkipped r @ [\<lparr>skLayer = layer, skAgentUserID = agent, skCode = code, skDetail = detail\<rparr>]\<rparr>"

definition AccruedAmount :: "accrue_result \<Rightarrow> gerror + money" where
  "AccruedAmount r = foldE (\<lambda>c tot. moneyAdd tot (cAmount c)) (arCommissions r) 0"

record receive_result =
  rrOrderKey :: order_key
  rrUpdated :: nat

record maintain_result =
  mrSettledCount :: nat
  mrSettledAmount :: money
  mrQuarantined :: "int list"

definition zeroMaintain :: maintain_result where
  "zeroMaintain = \<lparr>mrSettledCount = 0, mrSettledAmount = 0, mrQuarantined = []\<rparr>"

record refund_result =
  frOrderKey :: order_key
  frReversed :: "commission list"
  frReversedAmount :: money
  frAlreadyReversed :: bool
  frSkipped :: "skip_reason list"

definition newRefundResult :: "order_key \<Rightarrow> refund_result" where
  "newRefundResult k = \<lparr>frOrderKey = k, frReversed = [], frReversedAmount = 0, frAlreadyReversed = False,
     frSkipped = []\<rparr>"

subsection \<open>Requests\<close>

record bind_agent_request =
  baTenantID :: int
  baUserID :: int
  baParentID :: int
  baJoinType :: join_type
  baStatus :: agent_status
  baRateOverrideBP :: "rate option"

record bind_buyer_request =
  bbTenantID :: int
  bbBuyerUserID :: int
  bbAgentUserID :: int
  bbSource :: bind_source
  bbSourceRef :: string
  bbBoundAt :: gotime

record withdraw_request =
  wrTenantID :: int
  wrUserID :: int
  wrAmount :: money
  wrIdemKey :: string
  wrChannel :: string
  wrAccountInfo :: string

record withdraw_decision =
  wdTenantID :: int
  wdWithdrawalID :: int
  wdOperator :: string
  wdReason :: string

record payout_outcome =
  poTenantID :: int
  poWithdrawalID :: int
  poOperator :: string
  poInvoiceNo :: string
  poFailReason :: string

record payout_request =
  prIdemKey :: string
  prTenantID :: int
  prUserID :: int
  prAmount :: money
  prAccountInfo :: string
  prWithdrawalID :: int

record payout_result =
  psPaid :: bool
  psInvoiceNo :: string
  psFailReason :: string

subsection \<open>What the item loop establishes\<close>

lemma checkPaidItem_Inr:
  assumes "checkPaidItem (i, it) (seen, tot) = Inr (seen', tot')"
  shows "oiItemID it \<notin> seen \<and> oiItemID it \<noteq> [] \<and> length (oiItemID it) \<le> 128 \<and> 0 < sint (oiAmount it) \<and>
    seen' = insert (oiItemID it) seen \<and> sint tot' = sint tot + sint (oiAmount it)"
  using assms
  by (auto simp: checkPaidItem_def MaxOrderItemIDLen_def sle_sint dest: moneyAdd_InrD split: if_splits sum.splits)

lemma checkPaidItems_Inr:
  assumes "foldE checkPaidItem (enumerate n items) (seen, tot) = Inr (seen', tot')"
  shows "distinct (map oiItemID items) \<and> set (map oiItemID items) \<inter> seen = {} \<and>
    (\<forall>it \<in> set items. oiItemID it \<noteq> [] \<and> length (oiItemID it) \<le> 128 \<and> 0 < sint (oiAmount it)) \<and>
    sint tot' = sint tot + (\<Sum>it \<leftarrow> items. sint (oiAmount it))"
  using assms
proof (induction items arbitrary: n seen tot)
  case Nil
  then show ?case by simp
next
  case (Cons it items)
  then obtain s1 m1 where one: "checkPaidItem (n, it) (seen, tot) = Inr (s1, m1)"
    and rest: "foldE checkPaidItem (enumerate (Suc n) items) (s1, m1) = Inr (seen', tot')"
    by (auto split: sum.splits)
  from checkPaidItem_Inr [OF one] Cons.IH [OF rest] show ?case by auto
qed

lemma paidValidate_facts:
  assumes "paidValidate e = None"
  shows "distinct (map oiItemID (epItems e)) \<and>
    (\<forall>it \<in> set (epItems e). oiItemID it \<noteq> [] \<and> length (oiItemID it) \<le> 128 \<and> 0 < sint (oiAmount it)) \<and>
    (\<Sum>it \<leftarrow> epItems e. sint (oiAmount it)) \<le> sint (epPaidAmount e) \<and> 0 < sint (epPaidAmount e) \<and>
    0 < epBuyerUserID e \<and> epPaidAt e \<noteq> 0"
proof -
  obtain seen tot where loop: "foldE checkPaidItem (enumerate 0 (epItems e)) ({}, 0) = Inr (seen, tot)"
    and le: "\<not> epPaidAmount e <s tot" and pos: "\<not> epPaidAmount e <s 0" "epPaidAmount e \<noteq> 0"
    and other: "0 < epBuyerUserID e" "epPaidAt e \<noteq> 0"
    using assms by (auto simp: paidValidate_def split: if_splits option.splits sum.splits prod.splits)
  have "sint (epPaidAmount e) \<noteq> 0" using pos(2) sint_eq64 [of "epPaidAmount e" 0] by simp
  then have "0 < sint (epPaidAmount e)" using pos(1) by (simp add: sless_sint)
  with checkPaidItems_Inr [OF loop] le other show ?thesis by (auto simp: sless_sint)
qed

text \<open>
  An accepted payment event has items with distinct non-empty ids and positive amounts whose
  exact total (no wrap-around) is at most the paid amount.
\<close>

theorem paidValidate_items:
  assumes "paidValidate e = None"
  shows "distinct (map oiItemID (epItems e)) \<and>
    (\<forall>it \<in> set (epItems e). oiItemID it \<noteq> [] \<and> length (oiItemID it) \<le> 128 \<and> 0 < sint (oiAmount it)) \<and>
    (\<Sum>it \<leftarrow> epItems e. sint (oiAmount it)) \<le> sint (epPaidAmount e) \<and> 0 < sint (epPaidAmount e) \<and>
    0 < epBuyerUserID e \<and> epPaidAt e \<noteq> 0"
  by (rule paidValidate_facts [OF assms])

theorem paidValidate_items_witness:
  "let e = \<lparr>epTenantID = 1, epOrderID = ''O'', epBuyerUserID = 9, epPaidAmount = 100,
      epItems = [\<lparr>oiItemID = ''a'', oiAmount = 60\<rparr>, \<lparr>oiItemID = ''b'', oiAmount = 30\<rparr>],
      epPaidAt = 5, epIdemKey = []\<rparr>
   in paidValidate e = None \<and> (\<Sum>it \<leftarrow> epItems e. sint (oiAmount it)) \<le> sint (epPaidAmount e)"
proof -
  define e where "e = \<lparr>epTenantID = 1, epOrderID = ''O'', epBuyerUserID = 9, epPaidAmount = 100,
      epItems = [\<lparr>oiItemID = ''a'', oiAmount = 60\<rparr>, \<lparr>oiItemID = ''b'', oiAmount = 30\<rparr>],
      epPaidAt = 5, epIdemKey = []\<rparr>"
  have ok: "paidValidate e = None"
    by (simp add: e_def paidValidate_def epOrderKey_def orderKeyValidate_def MaxOrderIDLen_def MaxOrderItems_def
        checkPaidItem_def MaxOrderItemIDLen_def moneyAdd_def safemathAdd_def Let_def sless_sint sle_sint)
  from paidValidate_items [OF ok] ok show ?thesis unfolding Let_def e_def [symmetric] by blast
qed

end
