(* ===== verification/MemStore.thy ===== *)
theory MemStore
  imports Events
begin

text \<open>
  store/memory/memory.go: the data the in-memory store holds, the undo log of a transaction, its
  rollback, and the transaction brackets \<open>View\<close> and \<open>Update\<close>. A Go map is a HOL map, a slice a
  list. A lock is held for a whole transaction, so a transaction is one function from state to
  state; contexts and the marker against nested transactions are not modelled.
\<close>

subsection \<open>State\<close>

datatype idem_ref = IdemRef (irTenantID: int) (irKey: string)

datatype due_ref = DueRef (duTenantID: int) (duAt: gotime) (duID: int)

definition dueRefLess :: "due_ref \<Rightarrow> due_ref \<Rightarrow> bool" where
  "dueRefLess r q =
     (if duTenantID r \<noteq> duTenantID q then duTenantID r < duTenantID q
      else if duAt r \<noteq> duAt q then duAt r < duAt q
      else duID r < duID q)"

text \<open>The order of the settlement index is total, so the library's facts on sorted lists apply.\<close>

instantiation due_ref :: linorder
begin

definition less_due_ref :: "due_ref \<Rightarrow> due_ref \<Rightarrow> bool" where
  "less_due_ref r q \<longleftrightarrow> dueRefLess r q"

definition less_eq_due_ref :: "due_ref \<Rightarrow> due_ref \<Rightarrow> bool" where
  "less_eq_due_ref r q \<longleftrightarrow> dueRefLess r q \<or> r = q"

instance
proof
  fix x y z :: due_ref
  show "x < y \<longleftrightarrow> x \<le> y \<and> \<not> y \<le> x" "x \<le> x"
    by (cases x; cases y; auto simp: less_due_ref_def less_eq_due_ref_def dueRefLess_def)+
  show "x \<le> y \<Longrightarrow> y \<le> z \<Longrightarrow> x \<le> z"
    by (cases x; cases y; cases z) (auto simp: less_eq_due_ref_def dueRefLess_def split: if_splits)
  show "x \<le> y \<Longrightarrow> y \<le> x \<Longrightarrow> x = y" "x \<le> y \<or> y \<le> x"
    by (cases x; cases y; auto simp: less_eq_due_ref_def dueRefLess_def split: if_splits)+
qed

end

record data =
  dAgents :: "user_key \<rightharpoonup> agent"
  dBindings :: "user_key \<rightharpoonup> binding"
  dAccounts :: "user_key \<rightharpoonup> account"
  dCommissions :: "int \<rightharpoonup> commission"
  dCommissionIDs :: "int list"
  dIdem :: "idem_ref \<rightharpoonup> int"
  dByOrder :: "order_key \<rightharpoonup> int list"
  dByAgent :: "user_key \<rightharpoonup> int list"
  dRefunds :: "int \<rightharpoonup> refund"
  dRefundIdem :: "idem_ref \<rightharpoonup> int"
  dRefundsByOrder :: "order_key \<rightharpoonup> int list"
  dWithdrawals :: "int \<rightharpoonup> withdrawal"
  dWithdrawalIDs :: "int list"
  dWithdrawIdem :: "idem_ref \<rightharpoonup> int"
  dLedger :: "int \<rightharpoonup> ledger_entry"
  dLedgerIDs :: "int list"
  dLedgerByUser :: "user_key \<rightharpoonup> int list"
  dLedgerByTenant :: "int \<rightharpoonup> int list"
  dAccountIDs :: "user_key list"
  dPendingDue :: "due_ref list"
  dNextID :: int

definition newData :: data where
  "newData = \<lparr>dAgents = Map.empty, dBindings = Map.empty, dAccounts = Map.empty,
     dCommissions = Map.empty, dCommissionIDs = [], dIdem = Map.empty, dByOrder = Map.empty,
     dByAgent = Map.empty, dRefunds = Map.empty, dRefundIdem = Map.empty, dRefundsByOrder = Map.empty,
     dWithdrawals = Map.empty, dWithdrawalIDs = [], dWithdrawIdem = Map.empty,
     dLedger = Map.empty, dLedgerIDs = [], dLedgerByUser = Map.empty, dLedgerByTenant = Map.empty,
     dAccountIDs = [], dPendingDue = [], dNextID = 0\<rparr>"

text \<open>A Go map read: the zero value where the key is missing.\<close>

definition slot :: "('k \<rightharpoonup> 'v list) \<Rightarrow> 'k \<Rightarrow> 'v list" where
  "slot m k = (case m k of None \<Rightarrow> [] | Some l \<Rightarrow> l)"

definition accountOf :: "data \<Rightarrow> user_key \<Rightarrow> account" where
  "accountOf d k = (case dAccounts d k of None \<Rightarrow> zeroAccount | Some a \<Rightarrow> a)"

subsection \<open>Undo records\<close>

text \<open>
  An \<open>undoEntry\<close> is the old value, None when the key did not exist; the undo map of a Go map
  sends the keys saved so far to their entries.
\<close>

type_synonym ('k, 'v) undo_map = "'k \<rightharpoonup> 'v option"

definition saveKey :: "'k \<Rightarrow> ('k \<rightharpoonup> 'v) \<Rightarrow> ('k, 'v) undo_map \<Rightarrow> ('k, 'v) undo_map" where
  "saveKey k m u = (case u k of Some _ \<Rightarrow> u | None \<Rightarrow> u(k \<mapsto> m k))"

definition restoreMap :: "('k, 'v) undo_map \<Rightarrow> ('k \<rightharpoonup> 'v) \<Rightarrow> ('k \<rightharpoonup> 'v)" where
  "restoreMap u m = (\<lambda>k. case u k of None \<Rightarrow> m k | Some old \<Rightarrow> old)"

record append_index =
  aiLength :: nat
  aiExisted :: bool

type_synonym 'k index_undo = "'k \<rightharpoonup> append_index"

definition noteAppendIndex :: "'k index_undo \<Rightarrow> ('k \<rightharpoonup> 'v list) \<Rightarrow> 'k \<Rightarrow> 'k index_undo" where
  "noteAppendIndex u m k =
     (case u k of Some _ \<Rightarrow> u
      | None \<Rightarrow> u(k \<mapsto> \<lparr>aiLength = length (slot m k), aiExisted = (m k \<noteq> None)\<rparr>))"

definition restoreAppendIndex :: "'k index_undo \<Rightarrow> ('k \<rightharpoonup> 'v list) \<Rightarrow> ('k \<rightharpoonup> 'v list)" where
  "restoreAppendIndex u m = (\<lambda>k. case u k of
      None \<Rightarrow> m k
    | Some s \<Rightarrow> if \<not> aiExisted s then None else Some (take (aiLength s) (slot m k)))"

text \<open>\<open>orderedUndo\<close>: \<open>full\<close> is None until a structural change forced a snapshot.\<close>

record 'a ordered_undo =
  ouSaved :: bool
  ouFull :: "'a list option"
  ouLength :: nat

definition freshOrdered :: "'a ordered_undo" where
  "freshOrdered = \<lparr>ouSaved = False, ouFull = None, ouLength = 0\<rparr>"

definition noteAppend :: "'a list \<Rightarrow> 'a ordered_undo \<Rightarrow> 'a ordered_undo" where
  "noteAppend cur u = (if ouSaved u then u else u\<lparr>ouSaved := True, ouLength := length cur\<rparr>)"

definition noteStructural :: "'a list \<Rightarrow> 'a ordered_undo \<Rightarrow> 'a ordered_undo" where
  "noteStructural cur u =
     (if ouFull u \<noteq> None then u
      else if ouSaved u then u\<lparr>ouFull := Some (take (ouLength u) cur), ouSaved := True\<rparr>
      else u\<lparr>ouFull := Some cur, ouSaved := True\<rparr>)"

definition restoreOrdered :: "'a ordered_undo \<Rightarrow> 'a list \<Rightarrow> 'a list" where
  "restoreOrdered u cur =
     (if \<not> ouSaved u then cur
      else case ouFull u of Some f \<Rightarrow> f | None \<Rightarrow> take (ouLength u) cur)"

record undo =
  uAgents :: "(user_key, agent) undo_map"
  uBindings :: "(user_key, binding) undo_map"
  uAccounts :: "(user_key, account) undo_map"
  uCommissions :: "(int, commission) undo_map"
  uLedger :: "(int, ledger_entry) undo_map"
  uIdem :: "(idem_ref, int) undo_map"
  uRefunds :: "(int, refund) undo_map"
  uRefundIdem :: "(idem_ref, int) undo_map"
  uWithdrawals :: "(int, withdrawal) undo_map"
  uWithdrawIdem :: "(idem_ref, int) undo_map"
  uByOrder :: "order_key index_undo"
  uByAgent :: "user_key index_undo"
  uRefundsByOrder :: "order_key index_undo"
  uLedgerByUser :: "user_key index_undo"
  uLedgerByTenant :: "int index_undo"
  uLedgerIDsLen :: nat
  uCommissionIDsLen :: nat
  uWithdrawalIDsLen :: nat
  uDue :: "due_ref ordered_undo"
  uAccountIDs :: "user_key ordered_undo"
  uNextID :: int

definition newUndo :: "data \<Rightarrow> undo" where
  "newUndo d = \<lparr>uAgents = Map.empty, uBindings = Map.empty, uAccounts = Map.empty,
     uCommissions = Map.empty, uLedger = Map.empty, uIdem = Map.empty, uRefunds = Map.empty,
     uRefundIdem = Map.empty, uWithdrawals = Map.empty, uWithdrawIdem = Map.empty,
     uByOrder = Map.empty, uByAgent = Map.empty, uRefundsByOrder = Map.empty,
     uLedgerByUser = Map.empty, uLedgerByTenant = Map.empty,
     uLedgerIDsLen = length (dLedgerIDs d), uCommissionIDsLen = length (dCommissionIDs d),
     uWithdrawalIDsLen = length (dWithdrawalIDs d), uDue = freshOrdered, uAccountIDs = freshOrdered,
     uNextID = dNextID d\<rparr>"

definition rollback :: "undo \<Rightarrow> data \<Rightarrow> data" where
  "rollback u d = d\<lparr>
     dAgents := restoreMap (uAgents u) (dAgents d),
     dBindings := restoreMap (uBindings u) (dBindings d),
     dAccounts := restoreMap (uAccounts u) (dAccounts d),
     dCommissions := restoreMap (uCommissions u) (dCommissions d),
     dLedger := restoreMap (uLedger u) (dLedger d),
     dIdem := restoreMap (uIdem u) (dIdem d),
     dRefunds := restoreMap (uRefunds u) (dRefunds d),
     dRefundIdem := restoreMap (uRefundIdem u) (dRefundIdem d),
     dWithdrawals := restoreMap (uWithdrawals u) (dWithdrawals d),
     dWithdrawIdem := restoreMap (uWithdrawIdem u) (dWithdrawIdem d),
     dByOrder := restoreAppendIndex (uByOrder u) (dByOrder d),
     dByAgent := restoreAppendIndex (uByAgent u) (dByAgent d),
     dRefundsByOrder := restoreAppendIndex (uRefundsByOrder u) (dRefundsByOrder d),
     dLedgerByUser := restoreAppendIndex (uLedgerByUser u) (dLedgerByUser d),
     dLedgerByTenant := restoreAppendIndex (uLedgerByTenant u) (dLedgerByTenant d),
     dLedgerIDs := take (uLedgerIDsLen u) (dLedgerIDs d),
     dCommissionIDs := take (uCommissionIDsLen u) (dCommissionIDs d),
     dWithdrawalIDs := take (uWithdrawalIDsLen u) (dWithdrawalIDs d),
     dPendingDue := restoreOrdered (uDue u) (dPendingDue d),
     dAccountIDs := restoreOrdered (uAccountIDs u) (dAccountIDs d),
     dNextID := uNextID u\<rparr>"

subsection \<open>Transactions\<close>

record txn =
  txD :: data
  txU :: undo

record mem_store =
  stData :: data
  stClosed :: bool

definition newStore :: mem_store where
  "newStore = \<lparr>stData = newData, stClosed = False\<rparr>"

definition storeClose :: "mem_store \<Rightarrow> mem_store" where
  "storeClose s = s\<lparr>stClosed := True\<rparr>"

definition View :: "(data \<Rightarrow> gerror + 'a) \<Rightarrow> (mem_store, 'a) step" where
  "View fn s = (if stClosed s then (Inl ErrClosed, s) else (fn (stData s), s))"

definition Update :: "(txn, 'a) step \<Rightarrow> (mem_store, 'a) step" where
  "Update fn s =
     (if stClosed s then (Inl ErrClosed, s)
      else case fn \<lparr>txD = stData s, txU = newUndo (stData s)\<rparr> of
          (Inl e, t) \<Rightarrow> (Inl e, s\<lparr>stData := rollback (txU t) (txD t)\<rparr>)
        | (Inr x, t) \<Rightarrow> (Inr x, s\<lparr>stData := txD t\<rparr>))"

text \<open>A read inside a transaction sees the transaction's own writes.\<close>

definition rd :: "(data \<Rightarrow> gerror + 'a) \<Rightarrow> (txn, 'a) step" where
  "rd q t = (q (txD t), t)"

lemma rd_run [step_simps]: "rd q t = (q (txD t), t)"
  by (simp add: rd_def)

lemma rd_Inr_iff [simp]: "rd q s = (Inr y, t) \<longleftrightarrow> q (txD s) = Inr y \<and> t = s"
  by (auto simp: rd_def)

lemma keeps_rd [hoare_rules]: "keeps P (rd q)"
  by (simp add: keeps_def rd_def)

subsection \<open>What an undo record promises\<close>

text \<open>
  A cell is a part of the data together with its undo record: \<open>write\<close> logs and then changes it,
  \<open>restore\<close> is its rollback. The laws make every sequence of writes reversible.
\<close>

locale undo_cell =
  fixes ok :: "'c \<Rightarrow> 'u \<Rightarrow> 'c \<Rightarrow> bool"
    and fresh :: "'u"
    and wr :: "'w \<Rightarrow> 'u \<times> 'c \<Rightarrow> 'u \<times> 'c"
    and restore :: "'u \<Rightarrow> 'c \<Rightarrow> 'c"
  assumes ok_fresh: "ok c fresh c"
    and ok_wr: "ok c0 u c \<Longrightarrow> wr w (u, c) = (u', c') \<Longrightarrow> ok c0 u' c'"
    and ok_restore: "ok c0 u c \<Longrightarrow> restore u c = c0"
begin

lemma ok_writes: "ok c0 (fst p) (snd p) \<Longrightarrow> ok c0 (fst (fold wr ws p)) (snd (fold wr ws p))"
proof (induction ws arbitrary: p)
  case (Cons w ws)
  have "ok c0 (fst (wr w p)) (snd (wr w p))"
    by (rule ok_wr [OF Cons.prems]) simp
  then show ?case using Cons.IH by simp
qed simp

lemma restore_writes: "fold wr ws (fresh, c) = (u, c') \<Longrightarrow> restore u c' = c"
  using ok_writes [of c "(fresh, c)" ws] by (simp add: ok_fresh ok_restore)

end

definition mapOk :: "('k \<rightharpoonup> 'v) \<Rightarrow> ('k, 'v) undo_map \<Rightarrow> ('k \<rightharpoonup> 'v) \<Rightarrow> bool" where
  "mapOk m0 u m \<longleftrightarrow> m0 = restoreMap u m"

definition slotOk :: "'v list option \<Rightarrow> append_index option \<Rightarrow> 'v list option \<Rightarrow> bool" where
  "slotOk old s cur \<longleftrightarrow> (case s of
       None \<Rightarrow> cur = old
     | Some i \<Rightarrow> if aiExisted i then \<exists>l l'. old = Some l \<and> cur = Some (l @ l') \<and> aiLength i = length l
                 else old = None)"

definition indexOk :: "('k \<rightharpoonup> 'v list) \<Rightarrow> 'k index_undo \<Rightarrow> ('k \<rightharpoonup> 'v list) \<Rightarrow> bool" where
  "indexOk m0 u m \<longleftrightarrow> (\<forall>k. slotOk (m0 k) (u k) (m k))"

definition orderedOk :: "'a list \<Rightarrow> 'a ordered_undo \<Rightarrow> 'a list \<Rightarrow> bool" where
  "orderedOk c0 u c \<longleftrightarrow>
     (if \<not> ouSaved u then c = c0 \<and> ouFull u = None
      else case ouFull u of Some f \<Rightarrow> f = c0 | None \<Rightarrow> take (ouLength u) c = c0 \<and> ouLength u \<le> length c)"

text \<open>The writes each kind of cell sees: set or delete a key, append under a key, replace a list.\<close>

definition mapWrite :: "'k \<times> 'v option \<Rightarrow> ('k, 'v) undo_map \<times> ('k \<rightharpoonup> 'v) \<Rightarrow> ('k, 'v) undo_map \<times> ('k \<rightharpoonup> 'v)" where
  "mapWrite w p = (saveKey (fst w) (snd p) (fst p), (snd p)(fst w := snd w))"

definition indexWrite :: "'k \<times> 'v \<Rightarrow> 'k index_undo \<times> ('k \<rightharpoonup> 'v list) \<Rightarrow> 'k index_undo \<times> ('k \<rightharpoonup> 'v list)" where
  "indexWrite w p = (noteAppendIndex (fst p) (snd p) (fst w), (snd p)(fst w \<mapsto> slot (snd p) (fst w) @ [snd w]))"

datatype 'a ordered_write = TailAppend 'a | Structural "'a list"

fun orderedWrite :: "'a ordered_write \<Rightarrow> 'a ordered_undo \<times> 'a list \<Rightarrow> 'a ordered_undo \<times> 'a list" where
  "orderedWrite (TailAppend x) p = (noteAppend (snd p) (fst p), snd p @ [x])"
| "orderedWrite (Structural ys) p = (noteStructural (snd p) (fst p), ys)"

lemma mapOk_save: "mapOk m0 u m \<Longrightarrow> mapOk m0 (saveKey k m u) (m(k := v))"
  by (auto simp: mapOk_def restoreMap_def saveKey_def fun_eq_iff split: option.split)

lemma mapOk_save_keep: "mapOk m0 u m \<Longrightarrow> mapOk m0 (saveKey k m u) m"
  by (auto simp: mapOk_def restoreMap_def saveKey_def fun_eq_iff split: option.split)

lemma indexOk_note:
  assumes "indexOk m0 u m"
  shows "indexOk m0 (noteAppendIndex u m k) (m(k \<mapsto> slot m k @ [x]))"
  unfolding indexOk_def
proof
  fix j
  have at: "slotOk (m0 i) (u i) (m i)" for i using assms by (simp add: indexOk_def)
  show "slotOk (m0 j) (noteAppendIndex u m k j) ((m(k \<mapsto> slot m k @ [x])) j)"
  proof (cases "j = k")
    case False
    then show ?thesis using at [of j] by (simp add: noteAppendIndex_def split: option.split)
  next
    case True
    then show ?thesis using at [of k]
      by (cases "u k"; cases "m k") (auto simp: noteAppendIndex_def slotOk_def slot_def split: if_splits)
  qed
qed

lemma orderedOk_append: "orderedOk c0 u c \<Longrightarrow> orderedOk c0 (noteAppend c u) (c @ [x])"
  by (auto simp: orderedOk_def noteAppend_def split: option.splits if_splits)

lemma orderedOk_structural: "orderedOk c0 u c \<Longrightarrow> orderedOk c0 (noteStructural c u) c'"
  by (auto simp: orderedOk_def noteStructural_def split: option.splits if_splits)

interpretation map_cell: undo_cell mapOk Map.empty mapWrite restoreMap
proof
  show "mapOk c Map.empty c" for c :: "'a \<rightharpoonup> 'b" by (simp add: mapOk_def restoreMap_def)
  show "mapOk c0 u c \<Longrightarrow> mapWrite w (u, c) = (u', c') \<Longrightarrow> mapOk c0 u' c'"
    for c0 c c' :: "'a \<rightharpoonup> 'b" and u u' w
    by (auto simp: mapWrite_def mapOk_save)
  show "mapOk c0 u c \<Longrightarrow> restoreMap u c = c0" for c0 c :: "'a \<rightharpoonup> 'b" and u
    by (simp add: mapOk_def)
qed

interpretation index_cell: undo_cell indexOk Map.empty indexWrite restoreAppendIndex
proof
  show "indexOk c Map.empty c" for c :: "'a \<rightharpoonup> 'b list" by (simp add: indexOk_def slotOk_def)
  show "indexOk c0 u c \<Longrightarrow> indexWrite w (u, c) = (u', c') \<Longrightarrow> indexOk c0 u' c'"
    for c0 c c' :: "'a \<rightharpoonup> 'b list" and u u' w
    by (auto simp: indexWrite_def indexOk_note)
  show "indexOk c0 u c \<Longrightarrow> restoreAppendIndex u c = c0" for c0 c :: "'a \<rightharpoonup> 'b list" and u
  proof (rule ext)
    fix k
    assume "indexOk c0 u c"
    then have "slotOk (c0 k) (u k) (c k)" by (simp add: indexOk_def)
    then show "restoreAppendIndex u c k = c0 k"
      by (cases "u k") (auto simp: slotOk_def restoreAppendIndex_def slot_def split: if_splits)
  qed
qed

interpretation ordered_cell: undo_cell orderedOk freshOrdered orderedWrite restoreOrdered
proof
  show "orderedOk c freshOrdered c" for c :: "'a list" by (simp add: orderedOk_def freshOrdered_def)
  show "orderedOk c0 u c \<Longrightarrow> orderedWrite w (u, c) = (u', c') \<Longrightarrow> orderedOk c0 u' c'"
    for c0 c c' :: "'a list" and u u' w
    by (cases w) (auto simp: orderedOk_append orderedOk_structural)
  show "orderedOk c0 u c \<Longrightarrow> restoreOrdered u c = c0" for c0 c :: "'a list" and u
    by (auto simp: orderedOk_def restoreOrdered_def split: option.splits if_splits)
qed

subsection \<open>The undo log of a whole transaction\<close>

definition prefixLen :: "'a list \<Rightarrow> nat \<Rightarrow> 'a list \<Rightarrow> bool" where
  "prefixLen c0 n c \<longleftrightarrow> take n c = c0 \<and> n \<le> length c"

lemma prefixLen_append: "prefixLen c0 n c \<Longrightarrow> prefixLen c0 n (c @ [x])"
  by (simp add: prefixLen_def)

text \<open>\<open>undoOk d0 t\<close>: the log in \<open>t\<close> describes how to get from its data back to \<open>d0\<close>.\<close>

definition undoOk :: "data \<Rightarrow> txn \<Rightarrow> bool" where
  "undoOk d0 t \<longleftrightarrow>
     mapOk (dAgents d0) (uAgents (txU t)) (dAgents (txD t)) \<and>
     mapOk (dBindings d0) (uBindings (txU t)) (dBindings (txD t)) \<and>
     mapOk (dAccounts d0) (uAccounts (txU t)) (dAccounts (txD t)) \<and>
     mapOk (dCommissions d0) (uCommissions (txU t)) (dCommissions (txD t)) \<and>
     mapOk (dLedger d0) (uLedger (txU t)) (dLedger (txD t)) \<and>
     mapOk (dIdem d0) (uIdem (txU t)) (dIdem (txD t)) \<and>
     mapOk (dRefunds d0) (uRefunds (txU t)) (dRefunds (txD t)) \<and>
     mapOk (dRefundIdem d0) (uRefundIdem (txU t)) (dRefundIdem (txD t)) \<and>
     mapOk (dWithdrawals d0) (uWithdrawals (txU t)) (dWithdrawals (txD t)) \<and>
     mapOk (dWithdrawIdem d0) (uWithdrawIdem (txU t)) (dWithdrawIdem (txD t)) \<and>
     indexOk (dByOrder d0) (uByOrder (txU t)) (dByOrder (txD t)) \<and>
     indexOk (dByAgent d0) (uByAgent (txU t)) (dByAgent (txD t)) \<and>
     indexOk (dRefundsByOrder d0) (uRefundsByOrder (txU t)) (dRefundsByOrder (txD t)) \<and>
     indexOk (dLedgerByUser d0) (uLedgerByUser (txU t)) (dLedgerByUser (txD t)) \<and>
     indexOk (dLedgerByTenant d0) (uLedgerByTenant (txU t)) (dLedgerByTenant (txD t)) \<and>
     prefixLen (dLedgerIDs d0) (uLedgerIDsLen (txU t)) (dLedgerIDs (txD t)) \<and>
     prefixLen (dCommissionIDs d0) (uCommissionIDsLen (txU t)) (dCommissionIDs (txD t)) \<and>
     prefixLen (dWithdrawalIDs d0) (uWithdrawalIDsLen (txU t)) (dWithdrawalIDs (txD t)) \<and>
     orderedOk (dPendingDue d0) (uDue (txU t)) (dPendingDue (txD t)) \<and>
     orderedOk (dAccountIDs d0) (uAccountIDs (txU t)) (dAccountIDs (txD t)) \<and>
     uNextID (txU t) = dNextID d0"

lemma undoOk_fresh: "undoOk d \<lparr>txD = d, txU = newUndo d\<rparr>"
  by (simp add: undoOk_def newUndo_def map_cell.ok_fresh index_cell.ok_fresh ordered_cell.ok_fresh prefixLen_def)

lemma undoOk_rollback: "undoOk d0 t \<Longrightarrow> rollback (txU t) (txD t) = d0"
  by (simp add: undoOk_def rollback_def map_cell.ok_restore index_cell.ok_restore ordered_cell.ok_restore
      prefixLen_def)

text \<open>The lemmas that carry a logged write through the invariant.\<close>

lemmas undo_writes = mapOk_save mapOk_save_keep indexOk_note orderedOk_append orderedOk_structural prefixLen_append

text \<open>A body that only makes logged writes is atomic.\<close>

lemma Update_Inl:
  assumes "\<And>d0. keeps (undoOk d0) fn" "Update fn s = (Inl e, s')"
  shows "s' = s"
proof (cases "stClosed s")
  case True
  then show ?thesis using assms(2) by (simp add: Update_def)
next
  case False
  obtain r t where run: "fn \<lparr>txD = stData s, txU = newUndo (stData s)\<rparr> = (r, t)" by fastforce
  have "undoOk (stData s) t"
    using keeps_resultD [OF assms(1) undoOk_fresh run] .
  then have "rollback (txU t) (txD t) = stData s" by (rule undoOk_rollback)
  then show ?thesis using assms(2) False run by (auto simp: Update_def split: sum.splits)
qed

lemma Update_Inr:
  assumes "Update fn s = (Inr x, s')"
  obtains t where "\<not> stClosed s" "fn \<lparr>txD = stData s, txU = newUndo (stData s)\<rparr> = (Inr x, t)" "s' = s\<lparr>stData := txD t\<rparr>"
  using assms by (auto simp: Update_def split: if_splits prod.splits sum.splits)

end
