(* ===== verification/OrderedIndex.thy ===== *)
theory OrderedIndex
  imports Prelude
begin

text \<open>
  Sorted slices kept with \<open>sort.Search\<close>, as the in-memory store keeps its settlement and account
  indexes: lookup of a position, insertion and deletion there, and the contract such an index
  offers to its readers.
\<close>

definition lowerBound :: "'a::linorder list \<Rightarrow> 'a \<Rightarrow> nat" where
  "lowerBound idx x = sortSearch (length idx) (\<lambda>i. \<not> idx ! i < x)"

text \<open>\<open>slices.Insert(idx, pos, x)\<close> and \<open>slices.Delete(idx, pos, pos+1)\<close>.\<close>

definition insertAt :: "nat \<Rightarrow> 'a \<Rightarrow> 'a list \<Rightarrow> 'a list" where
  "insertAt pos x xs = take pos xs @ x # drop pos xs"

definition deleteAt :: "nat \<Rightarrow> 'a list \<Rightarrow> 'a list" where
  "deleteAt pos xs = take pos xs @ drop (Suc pos) xs"

lemma sortSearch_cong: "(\<And>i. f i = g i) \<Longrightarrow> sortSearch n f = sortSearch n g"
  by (metis ext)

lemma set_insertAt [simp]: "set (insertAt pos x xs) = insert x (set xs)"
  unfolding insertAt_def by (metis Un_insert_right append_take_drop_id list.simps(15) set_append)

text \<open>The partition a search over a sorted slice makes, for any upward closed test.\<close>

lemma search_sorted:
  assumes "sorted (xs :: 'a::linorder list)" "\<And>a b. a \<le> b \<Longrightarrow> P a \<Longrightarrow> P b"
  shows "sortSearch (length xs) (\<lambda>i. P (xs ! i)) \<le> length xs"
    and "\<forall>y \<in> set (take (sortSearch (length xs) (\<lambda>i. P (xs ! i))) xs). \<not> P y"
    and "\<forall>y \<in> set (drop (sortSearch (length xs) (\<lambda>i. P (xs ! i))) xs). P y"
proof -
  let ?n = "length xs" and ?f = "\<lambda>i. P (xs ! i)"
  have mono: "?f l" if "k \<le> l" "l < ?n" "?f k" for k l
    using that assms(2) sorted_nth_mono [OF assms(1) that(1,2)] by blast
  note spec = sortSearch_spec [of ?n ?f, OF mono, simplified]
  show "sortSearch ?n ?f \<le> ?n" by (rule spec(1))
  show "\<forall>y \<in> set (take (sortSearch ?n ?f) xs). \<not> P y"
    using spec(2) by (auto simp: in_set_conv_nth)
  show "\<forall>y \<in> set (drop (sortSearch ?n ?f) xs). P y"
    using spec(3) by (auto simp: in_set_conv_nth)
qed

lemma lowerBound_parts:
  assumes "sorted xs"
  shows "lowerBound xs x \<le> length xs" "\<forall>y \<in> set (take (lowerBound xs x) xs). y < x"
    "\<forall>y \<in> set (drop (lowerBound xs x) xs). x \<le> y"
proof -
  have up: "a \<le> b \<Longrightarrow> \<not> a < x \<Longrightarrow> \<not> b < x" for a b
    using le_less_trans by blast
  note s = search_sorted [where P = "\<lambda>y. \<not> y < x", OF assms, folded lowerBound_def]
  show "lowerBound xs x \<le> length xs" by (rule s(1)) (rule up)
  have "\<forall>y \<in> set (take (lowerBound xs x) xs). \<not> \<not> y < x" by (rule s(2)) (rule up)
  then show "\<forall>y \<in> set (take (lowerBound xs x) xs). y < x" by blast
  have "\<forall>y \<in> set (drop (lowerBound xs x) xs). \<not> y < x" by (rule s(3)) (rule up)
  then show "\<forall>y \<in> set (drop (lowerBound xs x) xs). x \<le> y" using leI by blast
qed

lemma sorted_insertAt:
  assumes "sorted xs"
  shows "sorted (insertAt (lowerBound xs x) x xs)"
proof -
  note parts = lowerBound_parts [OF assms, of x]
  have "\<forall>y \<in> set (take (lowerBound xs x) xs). \<forall>z \<in> set (drop (lowerBound xs x) xs). y \<le> z"
    using parts(2,3) less_le_trans less_imp_le by blast
  then show ?thesis
    using parts(2,3) assms by (auto simp: insertAt_def sorted_append sorted_wrt_take sorted_wrt_drop)
qed

lemma distinct_insertAt: "distinct (insertAt pos x xs) \<longleftrightarrow> distinct xs \<and> x \<notin> set xs"
proof -
  have "distinct (insertAt pos x xs) \<longleftrightarrow> distinct (x # (take pos xs @ drop pos xs))"
    by (auto simp: insertAt_def simp del: append_take_drop_id)
  then show ?thesis by auto
qed

lemma strict_insertAt:
  "sorted_wrt (<) xs \<Longrightarrow> x \<notin> set xs \<Longrightarrow> sorted_wrt (<) (insertAt (lowerBound xs x) x xs)"
  by (simp add: strict_sorted_iff sorted_insertAt distinct_insertAt)

lemma filter_insertAt: "filter P (insertAt pos x xs) = (if P x then insertAt (length (filter P (take pos xs))) x (filter P xs) else filter P xs)"
proof -
  have "filter P xs = filter P (take pos xs) @ filter P (drop pos xs)"
    by (metis append_take_drop_id filter_append)
  then show ?thesis by (simp add: insertAt_def)
qed

lemma lowerBound_hit:
  assumes "sorted xs"
  shows "lowerBound xs x < length xs \<and> xs ! lowerBound xs x = x \<longleftrightarrow> x \<in> set xs"
proof
  assume "x \<in> set xs"
  then obtain i where i: "i < length xs" "xs ! i = x" by (auto simp: in_set_conv_nth)
  note parts = lowerBound_parts [OF assms, of x]
  have "\<not> i < lowerBound xs x"
  proof
    assume "i < lowerBound xs x"
    then have "xs ! i \<in> set (take (lowerBound xs x) xs)" using i by (auto simp: in_set_conv_nth)
    then show False using parts(2) i by auto
  qed
  then have le: "lowerBound xs x \<le> i" by simp
  then have lt: "lowerBound xs x < length xs" using i by simp
  then have "xs ! lowerBound xs x \<in> set (drop (lowerBound xs x) xs)"
    by (metis Cons_nth_drop_Suc list.set_intros(1))
  then have "x \<le> xs ! lowerBound xs x" using parts(3) by blast
  moreover have "xs ! lowerBound xs x \<le> x" using sorted_nth_mono [OF assms le i(1)] i(2) by simp
  ultimately show "lowerBound xs x < length xs \<and> xs ! lowerBound xs x = x" using lt by simp
qed (metis nth_mem)

lemma deleteAt_parts:
  assumes "pos < length xs"
  obtains l r where "xs = l @ xs ! pos # r" "deleteAt pos xs = l @ r"
  using assms id_take_nth_drop [OF assms] by (simp add: deleteAt_def)

lemma sorted_deleteAt:
  assumes "sorted xs" "pos < length xs"
  shows "sorted (deleteAt pos xs)"
proof -
  obtain l r where x: "xs = l @ xs ! pos # r" and d: "deleteAt pos xs = l @ r"
    by (rule deleteAt_parts [OF assms(2)])
  have "sorted (l @ xs ! pos # r)" using assms(1) x by simp
  then show ?thesis by (auto simp: d sorted_append)
qed

subsection \<open>The contract of an ordered index\<close>

text \<open>
  \<open>idx\<close> reads the index out of a state, \<open>ins\<close> adds a key that is not there yet. What a reader
  gets is that the index is always the one sorted enumeration of the keys added.
\<close>

locale ordered_index =
  fixes idx :: "'s \<Rightarrow> 'k::linorder list"
    and ins :: "'k \<Rightarrow> 's \<Rightarrow> 's"
  assumes ins_sorted: "sorted_wrt (<) (idx s) \<Longrightarrow> k \<notin> set (idx s) \<Longrightarrow> sorted_wrt (<) (idx (ins k s))"
    and ins_set: "sorted_wrt (<) (idx s) \<Longrightarrow> k \<notin> set (idx s) \<Longrightarrow> set (idx (ins k s)) = insert k (set (idx s))"
begin

lemma ins_all:
  assumes "sorted_wrt (<) (idx s)" "distinct ks" "set ks \<inter> set (idx s) = {}"
  shows "sorted_wrt (<) (idx (fold ins ks s)) \<and> set (idx (fold ins ks s)) = set ks \<union> set (idx s)"
  using assms
proof (induction ks arbitrary: s)
  case (Cons k ks)
  then have k: "sorted_wrt (<) (idx (ins k s))" "set (idx (ins k s)) = insert k (set (idx s))"
    by (auto simp: ins_sorted ins_set)
  have "sorted_wrt (<) (idx (fold ins ks (ins k s))) \<and>
      set (idx (fold ins ks (ins k s))) = set ks \<union> set (idx (ins k s))"
    using Cons.prems k by (intro Cons.IH) auto
  then show ?case using k by auto
qed simp

lemma idx_unique:
  assumes "idx s = []" "distinct ks"
  shows "idx (fold ins ks s) = sorted_list_of_set (set ks)"
proof -
  have "sorted_wrt (<) (idx (fold ins ks s)) \<and> set (idx (fold ins ks s)) = set ks"
    using ins_all [of s ks] assms by auto
  then show ?thesis
    by (metis List.finite_set strict_sorted_equal strict_sorted_list_of_set set_sorted_list_of_set)
qed

end

end
