(* ===== verification/MemWriter.thy ===== *)
theory MemWriter
  imports MemStore OrderedIndex
begin

text \<open>
  store/memory/writer.go and the write half of store/memory/withdraw.go: every write operation
  of a transaction, in the order of its checks, with the undo record it leaves. Each operation
  is a step on the transaction state.
\<close>

subsection \<open>Saving to the undo log\<close>

definition saveAgent :: "undo \<Rightarrow> data \<Rightarrow> user_key \<Rightarrow> undo" where
  "saveAgent u d k = u\<lparr>uAgents := saveKey k (dAgents d) (uAgents u)\<rparr>"

definition saveBinding :: "undo \<Rightarrow> data \<Rightarrow> user_key \<Rightarrow> undo" where
  "saveBinding u d k = u\<lparr>uBindings := saveKey k (dBindings d) (uBindings u)\<rparr>"

definition saveAccount :: "undo \<Rightarrow> data \<Rightarrow> user_key \<Rightarrow> undo" where
  "saveAccount u d k = u\<lparr>uAccounts := saveKey k (dAccounts d) (uAccounts u)\<rparr>"

definition saveCommission :: "undo \<Rightarrow> data \<Rightarrow> int \<Rightarrow> undo" where
  "saveCommission u d k = u\<lparr>uCommissions := saveKey k (dCommissions d) (uCommissions u)\<rparr>"

definition saveLedger :: "undo \<Rightarrow> data \<Rightarrow> int \<Rightarrow> undo" where
  "saveLedger u d k = u\<lparr>uLedger := saveKey k (dLedger d) (uLedger u)\<rparr>"

definition saveWithdrawal :: "undo \<Rightarrow> data \<Rightarrow> int \<Rightarrow> undo" where
  "saveWithdrawal u d k = u\<lparr>uWithdrawals := saveKey k (dWithdrawals d) (uWithdrawals u)\<rparr>"

definition saveWithdrawIdem :: "undo \<Rightarrow> data \<Rightarrow> idem_ref \<Rightarrow> undo" where
  "saveWithdrawIdem u d k = u\<lparr>uWithdrawIdem := saveKey k (dWithdrawIdem d) (uWithdrawIdem u)\<rparr>"

definition saveRefund :: "undo \<Rightarrow> data \<Rightarrow> int \<Rightarrow> undo" where
  "saveRefund u d k = u\<lparr>uRefunds := saveKey k (dRefunds d) (uRefunds u)\<rparr>"

definition saveRefundIdem :: "undo \<Rightarrow> data \<Rightarrow> idem_ref \<Rightarrow> undo" where
  "saveRefundIdem u d k = u\<lparr>uRefundIdem := saveKey k (dRefundIdem d) (uRefundIdem u)\<rparr>"

definition saveIdem :: "undo \<Rightarrow> data \<Rightarrow> idem_ref \<Rightarrow> undo" where
  "saveIdem u d k = u\<lparr>uIdem := saveKey k (dIdem d) (uIdem u)\<rparr>"

text \<open>A logged change: the record of the old value first, then the new data.\<close>

definition change :: "(undo \<Rightarrow> data \<Rightarrow> undo) \<Rightarrow> (data \<Rightarrow> data) \<Rightarrow> txn \<Rightarrow> txn" where
  "change log f t = \<lparr>txD = f (txD t), txU = log (txU t) (txD t)\<rparr>"

subsection \<open>Versions and ordered indexes\<close>

definition checkVersion :: "string \<Rightarrow> int \<Rightarrow> int \<Rightarrow> bool \<Rightarrow> gerror option" where
  "checkVersion kind expected actual existed =
     (if \<not> existed then (if expected \<noteq> 0 then Some (ConflictError kind expected 0) else None)
      else if expected \<noteq> actual then Some (ConflictError kind expected actual)
      else None)"

definition dueTracked :: "commission_state \<Rightarrow> bool" where
  "dueTracked s \<longleftrightarrow> s = CommissionPending \<or> s = CommissionFrozen"

definition insertDue :: "int \<Rightarrow> gotime \<Rightarrow> int \<Rightarrow> txn \<Rightarrow> txn" where
  "insertDue tenantID at rid t =
     (let idx = dPendingDue (txD t);
          ref = DueRef tenantID at rid;
          pos = sortSearch (length idx) (\<lambda>i. \<not> dueRefLess (idx ! i) ref)
      in if pos = length idx
         then change (\<lambda>u d. u\<lparr>uDue := noteAppend idx (uDue u)\<rparr>) (\<lambda>d. d\<lparr>dPendingDue := idx @ [ref]\<rparr>) t
         else change (\<lambda>u d. u\<lparr>uDue := noteStructural idx (uDue u)\<rparr>)
                (\<lambda>d. d\<lparr>dPendingDue := insertAt pos ref idx\<rparr>) t)"

definition removeDue :: "int \<Rightarrow> gotime \<Rightarrow> int \<Rightarrow> txn \<Rightarrow> txn" where
  "removeDue tenantID at rid t =
     (let idx = dPendingDue (txD t);
          ref = DueRef tenantID at rid;
          pos = sortSearch (length idx) (\<lambda>i. \<not> dueRefLess (idx ! i) ref)
      in if pos \<ge> length idx \<or> idx ! pos \<noteq> ref then t
         else change (\<lambda>u d. u\<lparr>uDue := noteStructural idx (uDue u)\<rparr>)
                (\<lambda>d. d\<lparr>dPendingDue := deleteAt pos idx\<rparr>) t)"

definition insertAccountID :: "user_key \<Rightarrow> txn \<Rightarrow> txn" where
  "insertAccountID key t =
     (let idx = dAccountIDs (txD t);
          pos = sortSearch (length idx) (\<lambda>i.
            if ukTenantID (idx ! i) \<noteq> ukTenantID key then ukTenantID (idx ! i) \<ge> ukTenantID key
            else ukUserID (idx ! i) \<ge> ukUserID key)
      in if pos < length idx \<and> idx ! pos = key then t
         else if pos = length idx
         then change (\<lambda>u d. u\<lparr>uAccountIDs := noteAppend idx (uAccountIDs u)\<rparr>)
                (\<lambda>d. d\<lparr>dAccountIDs := idx @ [key]\<rparr>) t
         else change (\<lambda>u d. u\<lparr>uAccountIDs := noteStructural idx (uAccountIDs u)\<rparr>)
                (\<lambda>d. d\<lparr>dAccountIDs := insertAt pos key idx\<rparr>) t)"

subsection \<open>Agents, bindings and accounts\<close>

definition PutAgent :: "agent \<Rightarrow> (txn, agent) step" where
  "PutAgent a t =
     (case userKeyValidate (agKey a) of Some e \<Rightarrow> (Inl e, t) | None \<Rightarrow>
      if agParentID a < 0 then (Inl (FieldError ''parent_id''), t)
      else if agParentID a \<noteq> 0 \<and> agParentID a = ukUserID (agKey a) then (Inl (FieldError ''parent_id''), t)
      else if \<not> agentStatusValid (agStatus a) then (Inl (FieldError ''status''), t)
      else if \<not> joinTypeValid (agJoinType a) then (Inl (FieldError ''join_type''), t)
      else
        let cur = dAgents (txD t) (agKey a) in
        case checkVersion ''agent'' (agVersion a) (case cur of None \<Rightarrow> 0 | Some c \<Rightarrow> agVersion c) (cur \<noteq> None) of
          Some e \<Rightarrow> (Inl e, t)
        | None \<Rightarrow>
            let a' = a\<lparr>agVersion := agVersion a + 1\<rparr> in
            (Inr a', change (\<lambda>u d. saveAgent u d (agKey a))
                       (\<lambda>d. d\<lparr>dAgents := (dAgents d)(agKey a \<mapsto> a')\<rparr>) t))"

definition PutBinding :: "binding \<Rightarrow> (txn, binding) step" where
  "PutBinding b t =
     (case userKeyValidate (bBuyer b) of Some e \<Rightarrow> (Inl e, t) | None \<Rightarrow>
      if bAgentUserID b \<le> 0 then (Inl (FieldError ''agent_user_id''), t)
      else if \<not> bindSourceValid (bSource b) then (Inl (FieldError ''source''), t)
      else
        let cur = dBindings (txD t) (bBuyer b) in
        case checkVersion ''binding'' (bVersion b) (case cur of None \<Rightarrow> 0 | Some c \<Rightarrow> bVersion c) (cur \<noteq> None) of
          Some e \<Rightarrow> (Inl e, t)
        | None \<Rightarrow>
            let b' = b\<lparr>bVersion := bVersion b + 1\<rparr> in
            (Inr b', change (\<lambda>u d. saveBinding u d (bBuyer b))
                       (\<lambda>d. d\<lparr>dBindings := (dBindings d)(bBuyer b \<mapsto> b')\<rparr>) t))"

text \<open>The shared tail of the two account writes: log, index a new key, store with the next version.\<close>

definition storeAccount :: "account \<Rightarrow> (txn, account) step" where
  "storeAccount a t =
     (let t1 = change (\<lambda>u d. saveAccount u d (aKey a)) id t;
          t2 = (if dAccounts (txD t) (aKey a) = None then insertAccountID (aKey a) t1 else t1);
          a' = a\<lparr>aVersion := aVersion a + 1\<rparr>
      in (Inr a', t2\<lparr>txD := (txD t2)\<lparr>dAccounts := (dAccounts (txD t2))(aKey a \<mapsto> a')\<rparr>\<rparr>))"

definition PutAccount :: "account \<Rightarrow> (txn, account) step" where
  "PutAccount a t =
     (case userKeyValidate (aKey a) of Some e \<Rightarrow> (Inl e, t) | None \<Rightarrow>
      if \<not> Settleable a then (Inl (FieldError ''account''), t)
      else
        let cur = dAccounts (txD t) (aKey a) in
        case checkVersion ''account'' (aVersion a) (case cur of None \<Rightarrow> 0 | Some c \<Rightarrow> aVersion c) (cur \<noteq> None) of
          Some e \<Rightarrow> (Inl e, t)
        | None \<Rightarrow> storeAccount a t)"

definition IncrementAccount :: "account_delta \<Rightarrow> (txn, account) step" where
  "IncrementAccount delta t =
     (case userKeyValidate (dKey delta) of Some e \<Rightarrow> (Inl e, t) | None \<Rightarrow>
      case deltaApply delta ((accountOf (txD t) (dKey delta))\<lparr>aKey := dKey delta\<rparr>) of
        Inl e \<Rightarrow> (Inl e, t)
      | Inr updated \<Rightarrow>
          if dRequireNonNegative delta \<and> NegativeBuckets updated \<noteq> []
          then (Inl ErrInsufficientBalance, t)
          else storeAccount updated t)"

subsection \<open>Commissions\<close>

text \<open>The guards of \<open>AppendCommission\<close> before it looks at the store, in order.\<close>

definition commissionGuards :: "commission \<Rightarrow> gerror option" where
  "commissionGuards c =
     (case orderKeyValidate (cKey c) of Some e \<Rightarrow> Some e | None \<Rightarrow>
      if cIdemKey c = [] then Some (FieldError ''idem_key'')
      else if cAgentUserID c \<le> 0 then Some (FieldError ''agent_user_id'')
      else if cLayer c < 1 \<or> cLayer c > MaxLevels then Some (FieldError ''layer'')
      else if \<not> commissionStateValid (cState c) then Some (FieldError ''state'')
      else if cAmount c = 0 then Some (FieldError ''amount'')
      else if cAmount c <s 0 \<and> cReverseOf c \<le> 0 then Some (FieldError ''reverse_of'')
      else if 0 <s cAmount c \<and> cReverseOf c \<noteq> 0 then Some (FieldError ''reverse_of'')
      else if cReversedAmount c <s 0 \<or> MaxReversible c <s cReversedAmount c
        then Some (FieldError ''reversed_amount'')
      else if cReverseOf c < 0 then Some (FieldError ''reverse_of'')
      else None)"

definition AppendCommission :: "commission \<Rightarrow> (txn, commission) step" where
  "AppendCommission c0 t =
     (case commissionGuards c0 of Some e \<Rightarrow> (Inl e, t) | None \<Rightarrow>
      let ref = IdemRef (okTenantID (cKey c0)) (cIdemKey c0) in
      if dIdem (txD t) ref \<noteq> None then (Inl ErrDuplicate, t)
      else
        let rid = dNextID (txD t) + 1;
            c = c0\<lparr>cID := rid\<rparr>;
            agentKey = UserKey (okTenantID (cKey c)) (cAgentUserID c);
            t1 = change (\<lambda>u d. u) (\<lambda>d. d\<lparr>dNextID := rid\<rparr>) t;
            t2 = change (\<lambda>u d. saveIdem u d ref) (\<lambda>d. d\<lparr>dIdem := (dIdem d)(ref \<mapsto> rid)\<rparr>) t1;
            t3 = change (\<lambda>u d. saveCommission u d rid)
                   (\<lambda>d. d\<lparr>dCommissions := (dCommissions d)(rid \<mapsto> c), dCommissionIDs := dCommissionIDs d @ [rid]\<rparr>) t2;
            t4 = change (\<lambda>u d. u\<lparr>uByOrder := noteAppendIndex (uByOrder u) (dByOrder d) (cKey c)\<rparr>)
                   (\<lambda>d. d\<lparr>dByOrder := (dByOrder d)(cKey c \<mapsto> slot (dByOrder d) (cKey c) @ [rid])\<rparr>) t3;
            t5 = change (\<lambda>u d. u\<lparr>uByAgent := noteAppendIndex (uByAgent u) (dByAgent d) agentKey\<rparr>)
                   (\<lambda>d. d\<lparr>dByAgent := (dByAgent d)(agentKey \<mapsto> slot (dByAgent d) agentKey @ [rid])\<rparr>) t4;
            t6 = (if dueTracked (cState c) \<and> cAvailableAt c \<noteq> 0
                  then insertDue (okTenantID (cKey c)) (cAvailableAt c) rid t5 else t5)
        in (Inr c, t6))"

text \<open>Storing a changed commission under its id.\<close>

definition storeCommission :: "int \<Rightarrow> commission \<Rightarrow> txn \<Rightarrow> txn" where
  "storeCommission rid c =
     change (\<lambda>u d. saveCommission u d rid) (\<lambda>d. d\<lparr>dCommissions := (dCommissions d)(rid \<mapsto> c)\<rparr>)"

definition SetCommissionAvailableAt :: "int \<Rightarrow> gotime \<Rightarrow> int \<Rightarrow> (txn, commission) step" where
  "SetCommissionAvailableAt rid at expectedVersion t =
     (case dCommissions (txD t) rid of None \<Rightarrow> (Inl ErrNotFound, t) | Some c \<Rightarrow>
      if cAvailableAt c \<noteq> 0 then (Inr c, t)
      else if cVersion c \<noteq> expectedVersion
        then (Inl (ConflictError ''commission'' expectedVersion (cVersion c)), t)
      else
        let c' = c\<lparr>cAvailableAt := at, cVersion := cVersion c + 1\<rparr>;
            t1 = storeCommission rid c' t
        in (Inr c', if dueTracked (cState c') then insertDue (okTenantID (cKey c')) (cAvailableAt c') rid t1 else t1))"

definition SetCommissionReversedAmount :: "int \<Rightarrow> money \<Rightarrow> int \<Rightarrow> (txn, commission) step" where
  "SetCommissionReversedAmount rid reversed expectedVersion t =
     (case dCommissions (txD t) rid of None \<Rightarrow> (Inl ErrNotFound, t) | Some c \<Rightarrow>
      if reversed <s 0 \<or> MaxReversible c <s reversed then (Inl (FieldError ''reversed_amount''), t)
      else if cVersion c \<noteq> expectedVersion
        then (Inl (ConflictError ''commission'' expectedVersion (cVersion c)), t)
      else if cReversedAmount c = reversed then (Inr c, t)
      else
        let c' = c\<lparr>cReversedAmount := reversed, cVersion := cVersion c + 1\<rparr>
        in (Inr c', storeCommission rid c' t))"

definition TransitionCommission ::
  "int \<Rightarrow> commission_state \<Rightarrow> commission_state \<Rightarrow> int \<Rightarrow> (txn, commission) step" where
  "TransitionCommission rid from to expectedVersion t =
     (case dCommissions (txD t) rid of None \<Rightarrow> (Inl ErrNotFound, t) | Some c \<Rightarrow>
      if cState c \<noteq> from
        then (Inl (ConflictError ''commission state'' (commissionStateCode from) (commissionStateCode (cState c))), t)
      else if cVersion c \<noteq> expectedVersion
        then (Inl (ConflictError ''commission'' expectedVersion (cVersion c)), t)
      else case ValidateCommissionTransition from to of Some e \<Rightarrow> (Inl e, t) | None \<Rightarrow>
        let c' = c\<lparr>cState := to, cVersion := cVersion c + 1\<rparr>;
            t1 = storeCommission rid c' t
        in (Inr c', if \<not> dueTracked to \<and> cAvailableAt c' \<noteq> 0
                    then removeDue (okTenantID (cKey c')) (cAvailableAt c') rid t1 else t1))"

subsection \<open>Refund vouchers and ledger entries\<close>

definition AppendRefund :: "refund \<Rightarrow> (txn, refund) step" where
  "AppendRefund r0 t =
     (case orderKeyValidate (rfKey r0) of Some e \<Rightarrow> (Inl e, t) | None \<Rightarrow>
      if rfIdemKey r0 = [] then (Inl (FieldError ''idem_key''), t)
      else if rfAmount r0 <=s 0 then (Inl (FieldError ''amount''), t)
      else if rfCumulative r0 <s rfAmount r0 then (Inl (FieldError ''cumulative''), t)
      else
        let ref = IdemRef (okTenantID (rfKey r0)) (rfIdemKey r0) in
        if dRefundIdem (txD t) ref \<noteq> None then (Inl ErrDuplicate, t)
        else
          let rid = dNextID (txD t) + 1;
              r = r0\<lparr>rfID := rid\<rparr>;
              t1 = change (\<lambda>u d. u) (\<lambda>d. d\<lparr>dNextID := rid\<rparr>) t;
              t2 = change (\<lambda>u d. saveRefundIdem u d ref) (\<lambda>d. d\<lparr>dRefundIdem := (dRefundIdem d)(ref \<mapsto> rid)\<rparr>) t1;
              t3 = change (\<lambda>u d. saveRefund u d rid) (\<lambda>d. d\<lparr>dRefunds := (dRefunds d)(rid \<mapsto> r)\<rparr>) t2;
              t4 = change (\<lambda>u d. u\<lparr>uRefundsByOrder := noteAppendIndex (uRefundsByOrder u) (dRefundsByOrder d) (rfKey r)\<rparr>)
                     (\<lambda>d. d\<lparr>dRefundsByOrder :=
                        (dRefundsByOrder d)(rfKey r \<mapsto> slot (dRefundsByOrder d) (rfKey r) @ [rid])\<rparr>) t3
          in (Inr r, t4))"

definition AppendLedger :: "ledger_entry \<Rightarrow> (txn, ledger_entry) step" where
  "AppendLedger e0 t =
     (case userKeyValidate (leKey e0) of Some e \<Rightarrow> (Inl e, t) | None \<Rightarrow>
      if \<not> ledgerBizValid (leBizType e0) then (Inl (FieldError ''biz_type''), t)
      else if length (leRemark e0) > MaxRemarkLen then (Inl (FieldError ''remark''), t)
      else
        let rid = dNextID (txD t) + 1;
            e = e0\<lparr>leID := rid\<rparr>;
            tenant = ukTenantID (leKey e);
            t1 = change (\<lambda>u d. u) (\<lambda>d. d\<lparr>dNextID := rid\<rparr>) t;
            t2 = change (\<lambda>u d. saveLedger u d rid)
                   (\<lambda>d. d\<lparr>dLedger := (dLedger d)(rid \<mapsto> e), dLedgerIDs := dLedgerIDs d @ [rid]\<rparr>) t1;
            t3 = change (\<lambda>u d. u\<lparr>uLedgerByUser := noteAppendIndex (uLedgerByUser u) (dLedgerByUser d) (leKey e)\<rparr>)
                   (\<lambda>d. d\<lparr>dLedgerByUser := (dLedgerByUser d)(leKey e \<mapsto> slot (dLedgerByUser d) (leKey e) @ [rid])\<rparr>) t2;
            t4 = change (\<lambda>u d. u\<lparr>uLedgerByTenant := noteAppendIndex (uLedgerByTenant u) (dLedgerByTenant d) tenant\<rparr>)
                   (\<lambda>d. d\<lparr>dLedgerByTenant := (dLedgerByTenant d)(tenant \<mapsto> slot (dLedgerByTenant d) tenant @ [rid])\<rparr>) t3
        in (Inr e, t4))"

subsection \<open>Withdrawals\<close>

definition AppendWithdrawal :: "withdrawal \<Rightarrow> (txn, withdrawal) step" where
  "AppendWithdrawal w0 t =
     (case withdrawalValidate w0 of Some e \<Rightarrow> (Inl e, t) | None \<Rightarrow>
      let ref = IdemRef (ukTenantID (wKey w0)) (wIdemKey w0) in
      if dWithdrawIdem (txD t) ref \<noteq> None then (Inl ErrDuplicate, t)
      else
        let rid = dNextID (txD t) + 1;
            w = w0\<lparr>wID := rid\<rparr>;
            t1 = change (\<lambda>u d. u) (\<lambda>d. d\<lparr>dNextID := rid\<rparr>) t;
            t2 = change (\<lambda>u d. saveWithdrawIdem u d ref) (\<lambda>d. d\<lparr>dWithdrawIdem := (dWithdrawIdem d)(ref \<mapsto> rid)\<rparr>) t1;
            t3 = change (\<lambda>u d. saveWithdrawal u d rid)
                   (\<lambda>d. d\<lparr>dWithdrawals := (dWithdrawals d)(rid \<mapsto> w), dWithdrawalIDs := dWithdrawalIDs d @ [rid]\<rparr>) t2
        in (Inr w, t3))"

text \<open>The fields a transition fills in, each only when given.\<close>

definition withdrawalPatch :: "withdrawal_transition \<Rightarrow> withdrawal \<Rightarrow> withdrawal" where
  "withdrawalPatch tr w0 =
     (let w1 = (if wtFailReason tr \<noteq> [] then w0\<lparr>wFailReason := wtFailReason tr\<rparr> else w0);
          w2 = (if wtInvoiceNo tr \<noteq> [] then w1\<lparr>wInvoiceNo := wtInvoiceNo tr\<rparr> else w1);
          w3 = (if wtOperator tr \<noteq> [] then w2\<lparr>wOperator := wtOperator tr\<rparr> else w2);
          w4 = (if wtAuditedAt tr \<noteq> 0 then w3\<lparr>wAuditedAt := wtAuditedAt tr\<rparr> else w3);
          w5 = (if wtPaidAt tr \<noteq> 0 then w4\<lparr>wPaidAt := wtPaidAt tr\<rparr> else w4)
      in w5)"

definition TransitionWithdrawal ::
  "int \<Rightarrow> withdrawal_state \<Rightarrow> withdrawal_state \<Rightarrow> int \<Rightarrow> withdrawal_transition \<Rightarrow> (txn, withdrawal) step" where
  "TransitionWithdrawal rid from to expectedVersion tr t =
     (if \<not> withdrawalStateValid from \<or> \<not> withdrawalStateValid to then (Inl (FieldError ''state''), t)
      else case dWithdrawals (txD t) rid of None \<Rightarrow> (Inl ErrNotFound, t) | Some w \<Rightarrow>
      if wState w \<noteq> from
        then (Inl (ConflictError ''withdrawal'' (withdrawalStateCode from) (withdrawalStateCode (wState w))), t)
      else if wVersion w \<noteq> expectedVersion
        then (Inl (ConflictError ''withdrawal'' expectedVersion (wVersion w)), t)
      else if \<not> CanTransitionWithdrawal from to
        then (Inl (TransitionError ''withdrawal'' (withdrawalStateString from) (withdrawalStateString to)), t)
      else
        let w' = withdrawalPatch tr (w\<lparr>wState := to, wVersion := wVersion w + 1\<rparr>)
        in (Inr w', change (\<lambda>u d. saveWithdrawal u d rid)
                      (\<lambda>d. d\<lparr>dWithdrawals := (dWithdrawals d)(rid \<mapsto> w')\<rparr>) t))"

subsection \<open>Every operation writes through the log\<close>

lemma dueRefLess_less: "dueRefLess a b \<longleftrightarrow> a < b"
  by (simp add: less_due_ref_def)

lemma dueSearch: "sortSearch (length idx) (\<lambda>i. \<not> dueRefLess (idx ! i) ref) = lowerBound idx ref"
  by (simp add: lowerBound_def dueRefLess_less)

lemma accountSearch:
  "sortSearch (length idx) (\<lambda>i. if ukTenantID (idx ! i) \<noteq> ukTenantID key then ukTenantID (idx ! i) \<ge> ukTenantID key
      else ukUserID (idx ! i) \<ge> ukUserID key) = lowerBound idx key"
  unfolding lowerBound_def by (rule sortSearch_cong) (auto simp: less_user_key_def)

lemma insertAt_end: "insertAt (length xs) x xs = xs @ [x]"
  by (simp add: insertAt_def)

text \<open>The data after the index updates, whichever way the undo log went.\<close>

lemma insertDue_data:
  "txD (insertDue tn at rid t) = (txD t)\<lparr>dPendingDue :=
     insertAt (lowerBound (dPendingDue (txD t)) (DueRef tn at rid)) (DueRef tn at rid) (dPendingDue (txD t))\<rparr>"
  by (simp add: insertDue_def Let_def dueSearch change_def insertAt_end)

lemma removeDue_data:
  "txD (removeDue tn at rid t) = (txD t)\<lparr>dPendingDue :=
     (let idx = dPendingDue (txD t); pos = lowerBound idx (DueRef tn at rid) in
      if pos < length idx \<and> idx ! pos = DueRef tn at rid then deleteAt pos idx else idx)\<rparr>"
  by (auto simp: removeDue_def Let_def dueSearch change_def)

lemma insertAccountID_data:
  "txD (insertAccountID key t) = (txD t)\<lparr>dAccountIDs :=
     (let idx = dAccountIDs (txD t); pos = lowerBound idx key in
      if pos < length idx \<and> idx ! pos = key then idx else insertAt pos key idx)\<rparr>"
  by (auto simp: insertAccountID_def Let_def accountSearch change_def insertAt_end)

text \<open>
  Both indexes offer the contract of an ordered index, so that any order of insertions of new keys
  gives the one sorted enumeration of them.
\<close>

interpretation account_index: ordered_index "\<lambda>t. dAccountIDs (txD t)" insertAccountID
proof
  fix t :: txn and k :: user_key
  assume idx: "sorted_wrt (<) (dAccountIDs (txD t))" "k \<notin> set (dAccountIDs (txD t))"
  then have "sorted (dAccountIDs (txD t))" by (simp add: strict_sorted_iff)
  then have new: "dAccountIDs (txD (insertAccountID k t)) =
      insertAt (lowerBound (dAccountIDs (txD t)) k) k (dAccountIDs (txD t))"
    using lowerBound_hit [of "dAccountIDs (txD t)" k] idx(2) by (auto simp: insertAccountID_data Let_def)
  show "sorted_wrt (<) (dAccountIDs (txD (insertAccountID k t)))" using strict_insertAt [OF idx] new by simp
  show "set (dAccountIDs (txD (insertAccountID k t))) = insert k (set (dAccountIDs (txD t)))" using new by simp
qed

interpretation due_index: ordered_index "\<lambda>t. dPendingDue (txD t)" "\<lambda>r. insertDue (duTenantID r) (duAt r) (duID r)"
  by unfold_locales (simp_all add: insertDue_data strict_insertAt)

lemma undoOk_change:
  assumes "undoOk d0 t"
  shows "undoOk d0 (change (\<lambda>u d. u) (\<lambda>d. d\<lparr>dNextID := n\<rparr>) t)"
    and "undoOk d0 (change (\<lambda>u d. saveAgent u d k) (\<lambda>d. d\<lparr>dAgents := (dAgents d)(k \<mapsto> ag)\<rparr>) t)"
    and "undoOk d0 (change (\<lambda>u d. saveBinding u d k) (\<lambda>d. d\<lparr>dBindings := (dBindings d)(k \<mapsto> b)\<rparr>) t)"
    and "undoOk d0 (change (\<lambda>u d. saveAccount u d k) id t)"
    and "undoOk d0 (change (\<lambda>u d. saveIdem u d r) (\<lambda>d. d\<lparr>dIdem := (dIdem d)(r \<mapsto> n)\<rparr>) t)"
    and "undoOk d0 (change (\<lambda>u d. saveRefundIdem u d r) (\<lambda>d. d\<lparr>dRefundIdem := (dRefundIdem d)(r \<mapsto> n)\<rparr>) t)"
    and "undoOk d0 (change (\<lambda>u d. saveWithdrawIdem u d r) (\<lambda>d. d\<lparr>dWithdrawIdem := (dWithdrawIdem d)(r \<mapsto> n)\<rparr>) t)"
    and "undoOk d0 (change (\<lambda>u d. saveCommission u d n) (\<lambda>d. d\<lparr>dCommissions := (dCommissions d)(n \<mapsto> c)\<rparr>) t)"
    and "undoOk d0 (change (\<lambda>u d. saveCommission u d n)
          (\<lambda>d. d\<lparr>dCommissions := (dCommissions d)(n \<mapsto> c), dCommissionIDs := dCommissionIDs d @ [n]\<rparr>) t)"
    and "undoOk d0 (change (\<lambda>u d. saveLedger u d n)
          (\<lambda>d. d\<lparr>dLedger := (dLedger d)(n \<mapsto> e), dLedgerIDs := dLedgerIDs d @ [n]\<rparr>) t)"
    and "undoOk d0 (change (\<lambda>u d. saveRefund u d n) (\<lambda>d. d\<lparr>dRefunds := (dRefunds d)(n \<mapsto> f)\<rparr>) t)"
    and "undoOk d0 (change (\<lambda>u d. saveWithdrawal u d n) (\<lambda>d. d\<lparr>dWithdrawals := (dWithdrawals d)(n \<mapsto> w)\<rparr>) t)"
    and "undoOk d0 (change (\<lambda>u d. saveWithdrawal u d n)
          (\<lambda>d. d\<lparr>dWithdrawals := (dWithdrawals d)(n \<mapsto> w), dWithdrawalIDs := dWithdrawalIDs d @ [n]\<rparr>) t)"
    and "undoOk d0 (change (\<lambda>u d. u\<lparr>uByOrder := noteAppendIndex (uByOrder u) (dByOrder d) ok\<rparr>)
          (\<lambda>d. d\<lparr>dByOrder := (dByOrder d)(ok \<mapsto> slot (dByOrder d) ok @ [n])\<rparr>) t)"
    and "undoOk d0 (change (\<lambda>u d. u\<lparr>uByAgent := noteAppendIndex (uByAgent u) (dByAgent d) k\<rparr>)
          (\<lambda>d. d\<lparr>dByAgent := (dByAgent d)(k \<mapsto> slot (dByAgent d) k @ [n])\<rparr>) t)"
    and "undoOk d0 (change (\<lambda>u d. u\<lparr>uRefundsByOrder := noteAppendIndex (uRefundsByOrder u) (dRefundsByOrder d) ok\<rparr>)
          (\<lambda>d. d\<lparr>dRefundsByOrder := (dRefundsByOrder d)(ok \<mapsto> slot (dRefundsByOrder d) ok @ [n])\<rparr>) t)"
    and "undoOk d0 (change (\<lambda>u d. u\<lparr>uLedgerByUser := noteAppendIndex (uLedgerByUser u) (dLedgerByUser d) k\<rparr>)
          (\<lambda>d. d\<lparr>dLedgerByUser := (dLedgerByUser d)(k \<mapsto> slot (dLedgerByUser d) k @ [n])\<rparr>) t)"
    and "undoOk d0 (change (\<lambda>u d. u\<lparr>uLedgerByTenant := noteAppendIndex (uLedgerByTenant u) (dLedgerByTenant d) tn\<rparr>)
          (\<lambda>d. d\<lparr>dLedgerByTenant := (dLedgerByTenant d)(tn \<mapsto> slot (dLedgerByTenant d) tn @ [n])\<rparr>) t)"
    and "idx = dPendingDue (txD t) \<Longrightarrow>
        undoOk d0 (change (\<lambda>u d. u\<lparr>uDue := noteAppend idx (uDue u)\<rparr>) (\<lambda>d. d\<lparr>dPendingDue := idx @ [x]\<rparr>) t)"
    and "idx = dPendingDue (txD t) \<Longrightarrow>
        undoOk d0 (change (\<lambda>u d. u\<lparr>uDue := noteStructural idx (uDue u)\<rparr>) (\<lambda>d. d\<lparr>dPendingDue := xs\<rparr>) t)"
    and "ids = dAccountIDs (txD t) \<Longrightarrow>
        undoOk d0 (change (\<lambda>u d. u\<lparr>uAccountIDs := noteAppend ids (uAccountIDs u)\<rparr>) (\<lambda>d. d\<lparr>dAccountIDs := ids @ [k]\<rparr>) t)"
    and "ids = dAccountIDs (txD t) \<Longrightarrow>
        undoOk d0 (change (\<lambda>u d. u\<lparr>uAccountIDs := noteStructural ids (uAccountIDs u)\<rparr>) (\<lambda>d. d\<lparr>dAccountIDs := ks\<rparr>) t)"
  using assms
  by (simp_all add: undoOk_def change_def saveAgent_def saveBinding_def saveAccount_def saveCommission_def
      saveLedger_def saveWithdrawal_def saveWithdrawIdem_def saveRefund_def saveRefundIdem_def saveIdem_def undo_writes)

lemma undoOk_insertDue: "undoOk d0 t \<Longrightarrow> undoOk d0 (insertDue tn at rid t)"
  by (simp add: insertDue_def Let_def undoOk_change)

lemma undoOk_removeDue: "undoOk d0 t \<Longrightarrow> undoOk d0 (removeDue tn at rid t)"
  by (simp add: removeDue_def Let_def undoOk_change)

lemma undoOk_insertAccountID: "undoOk d0 t \<Longrightarrow> undoOk d0 (insertAccountID k t)"
  by (simp add: insertAccountID_def Let_def undoOk_change)

lemma mapOk_saved: "mapOk m0 u m \<Longrightarrow> u k \<noteq> None \<Longrightarrow> mapOk m0 u (m(k := v))"
  by (auto simp: mapOk_def restoreMap_def fun_eq_iff split: option.split)

lemma uAccounts_saved:
  "\<exists>old. uAccounts (txU (change (\<lambda>u d. saveAccount u d k) id t)) k = Some old"
  "uAccounts (txU (insertAccountID j t)) = uAccounts (txU t)"
  by (auto simp: change_def saveAccount_def saveKey_def insertAccountID_def Let_def split: option.split)

lemma undoOk_accounts:
  assumes "undoOk d0 t" "uAccounts (txU t) k \<noteq> None"
  shows "undoOk d0 (t\<lparr>txD := (txD t)\<lparr>dAccounts := (dAccounts (txD t))(k \<mapsto> a)\<rparr>\<rparr>)"
  using assms by (simp add: undoOk_def mapOk_saved)

lemma undoOk_storeAccount: "undoOk d0 t \<Longrightarrow> undoOk d0 (snd (storeAccount a t))"
  unfolding storeAccount_def Let_def snd_conv
  by (intro undoOk_accounts) (auto simp: undoOk_change(4) undoOk_insertAccountID uAccounts_saved)

lemma undoOk_storeCommission: "undoOk d0 t \<Longrightarrow> undoOk d0 (storeCommission rid c t)"
  by (simp add: storeCommission_def undoOk_change)

lemma keeps_writer [hoare_rules]:
  shows "keeps (undoOk d0) (PutAgent ag)" and "keeps (undoOk d0) (PutBinding b)" and "keeps (undoOk d0) (PutAccount a)"
    and "keeps (undoOk d0) (IncrementAccount delta)" and "keeps (undoOk d0) (AppendCommission c)"
    and "keeps (undoOk d0) (SetCommissionAvailableAt n at v)"
    and "keeps (undoOk d0) (SetCommissionReversedAmount n m v)"
    and "keeps (undoOk d0) (TransitionCommission n cf ct v)" and "keeps (undoOk d0) (AppendRefund f)"
    and "keeps (undoOk d0) (AppendLedger e)" and "keeps (undoOk d0) (AppendWithdrawal w)"
    and "keeps (undoOk d0) (TransitionWithdrawal n sf st v tr)"
  unfolding keeps_def PutAgent_def PutBinding_def PutAccount_def IncrementAccount_def AppendCommission_def
    SetCommissionAvailableAt_def SetCommissionReversedAmount_def TransitionCommission_def AppendRefund_def
    AppendLedger_def AppendWithdrawal_def TransitionWithdrawal_def Let_def
  by (simp_all add: undoOk_change undoOk_insertDue undoOk_removeDue undoOk_storeAccount undoOk_storeCommission
      split: option.split sum.split)

text \<open>A failing operation has touched nothing: every guard comes before the first write.\<close>

lemma writer_Inl:
  shows "PutAgent ag t = (Inl er, t') \<Longrightarrow> t' = t" and "PutBinding b t = (Inl er, t') \<Longrightarrow> t' = t"
    and "PutAccount a t = (Inl er, t') \<Longrightarrow> t' = t" and "IncrementAccount delta t = (Inl er, t') \<Longrightarrow> t' = t"
    and "AppendCommission c t = (Inl er, t') \<Longrightarrow> t' = t"
    and "SetCommissionAvailableAt n at v t = (Inl er, t') \<Longrightarrow> t' = t"
    and "SetCommissionReversedAmount n m v t = (Inl er, t') \<Longrightarrow> t' = t"
    and "TransitionCommission n cf ct v t = (Inl er, t') \<Longrightarrow> t' = t" and "AppendRefund f t = (Inl er, t') \<Longrightarrow> t' = t"
    and "AppendLedger e t = (Inl er, t') \<Longrightarrow> t' = t" and "AppendWithdrawal w t = (Inl er, t') \<Longrightarrow> t' = t"
    and "TransitionWithdrawal n sf st v tr t = (Inl er, t') \<Longrightarrow> t' = t"
  unfolding PutAgent_def PutBinding_def PutAccount_def IncrementAccount_def AppendCommission_def
    SetCommissionAvailableAt_def SetCommissionReversedAmount_def TransitionCommission_def AppendRefund_def
    AppendLedger_def AppendWithdrawal_def TransitionWithdrawal_def storeAccount_def Let_def
  by (auto split: option.splits sum.splits if_splits)

end
