(* ===== verification/Tables.thy ===== *)
theory Tables
  imports Prelude
begin

text \<open>
  Generic facts on the tables the store keeps: sums over the rows of a finite map, and the
  relation between a table and its secondary indexes (ascending id lists, unique keys).
\<close>

subsection \<open>Sums over the rows of a table\<close>

definition mapSum :: "('v \<Rightarrow> int) \<Rightarrow> ('k \<rightharpoonup> 'v) \<Rightarrow> int" where
  "mapSum f m = (\<Sum>k \<in> dom m. f (the (m k)))"

definition rowOf :: "('v \<Rightarrow> int) \<Rightarrow> ('k \<rightharpoonup> 'v) \<Rightarrow> 'k \<Rightarrow> int" where
  "rowOf f m k = (case m k of None \<Rightarrow> 0 | Some v \<Rightarrow> f v)"

lemma mapSum_empty [simp]: "mapSum f Map.empty = 0"
  by (simp add: mapSum_def)

lemma mapSum_upd:
  assumes "finite (dom m)"
  shows "mapSum f (m(k \<mapsto> v)) = mapSum f m - rowOf f m k + f v"
proof -
  have "mapSum f (m(k \<mapsto> v)) = f v + (\<Sum>j \<in> dom m - {k}. f (the (m j)))"
  proof -
    have "(\<Sum>j \<in> dom m - {k}. f (the ((m(k \<mapsto> v)) j))) = (\<Sum>j \<in> dom m - {k}. f (the (m j)))"
      by (intro sum.cong) auto
    then show ?thesis using assms by (simp add: mapSum_def sum.insert_remove)
  qed
  moreover have "mapSum f m = rowOf f m k + (\<Sum>j \<in> dom m - {k}. f (the (m j)))"
  proof (cases "k \<in> dom m")
    case True
    then show ?thesis using sum.remove [OF assms True, of "\<lambda>j. f (the (m j))"]
      by (auto simp: mapSum_def rowOf_def)
  next
    case False
    then have "m k = None" by (auto simp: domIff)
    then show ?thesis using False by (simp add: mapSum_def rowOf_def)
  qed
  ultimately show ?thesis by simp
qed

lemma mapSum_new:
  "finite (dom m) \<Longrightarrow> m k = None \<Longrightarrow> mapSum f (m(k \<mapsto> v)) = mapSum f m + f v"
  by (simp add: mapSum_upd rowOf_def)

lemma mapSum_set:
  "finite (dom m) \<Longrightarrow> m k = Some w \<Longrightarrow> mapSum f (m(k \<mapsto> v)) = mapSum f m - f w + f v"
  by (simp add: mapSum_upd rowOf_def)

lemma mapSum_cong: "(\<And>k v. m k = Some v \<Longrightarrow> f v = g v) \<Longrightarrow> mapSum f m = mapSum g m"
  unfolding mapSum_def by (intro sum.cong) auto

lemma mapSum_nonneg: "(\<And>k v. m k = Some v \<Longrightarrow> 0 \<le> f v) \<Longrightarrow> 0 \<le> mapSum f m"
  unfolding mapSum_def by (intro sum_nonneg) auto

lemma mapSum_add: "mapSum (\<lambda>v. f v + g v) m = mapSum f m + mapSum g m"
  by (simp add: mapSum_def sum.distrib)

lemma mapSum_diff: "mapSum (\<lambda>v. f v - g v) m = mapSum f m - mapSum g m"
  by (simp add: mapSum_def sum_subtractf)

lemma mapSum_ge_row:
  assumes "finite (dom m)" "m k = Some v" "\<And>j w. m j = Some w \<Longrightarrow> 0 \<le> f w"
  shows "f v \<le> mapSum f m"
proof -
  have "(\<Sum>j \<in> dom m - {k}. f (the (m j))) \<ge> 0" using assms(3) by (intro sum_nonneg) auto
  moreover have "mapSum f m = f v + (\<Sum>j \<in> dom m - {k}. f (the (m j)))"
    using assms(1,2) sum.remove [of "dom m" k "\<lambda>j. f (the (m j))"] by (auto simp: mapSum_def)
  ultimately show ?thesis by simp
qed

text \<open>Only rows with some property count.\<close>

definition onlyIf :: "bool \<Rightarrow> int \<Rightarrow> int" where
  "onlyIf b x = (if b then x else 0)"

lemma onlyIf_simps [simp]: "onlyIf True x = x" "onlyIf False x = 0"
  by (simp_all add: onlyIf_def)

subsection \<open>Secondary indexes\<close>

text \<open>\<open>listIndex ids m P\<close>: the slice lists, ascending, the ids of exactly the rows with \<open>P\<close>.\<close>

definition listIndex :: "int list \<Rightarrow> (int \<rightharpoonup> 'v) \<Rightarrow> ('v \<Rightarrow> bool) \<Rightarrow> bool" where
  "listIndex ids m P \<longleftrightarrow> sorted_wrt (<) ids \<and> set ids = {i. \<exists>v. m i = Some v \<and> P v}"

lemma listIndex_empty [simp]: "listIndex [] Map.empty P"
  by (simp add: listIndex_def)

lemma listIndex_new:
  assumes "listIndex ids m P" "\<And>i v. m i = Some v \<Longrightarrow> i < n"
  shows "listIndex (if P v then ids @ [n] else ids) (m(n \<mapsto> v)) P"
proof -
  have "m n = None" using assms(2) [of n] by (cases "m n") auto
  then show ?thesis using assms by (auto simp: listIndex_def sorted_wrt_append)
qed

lemma listIndex_set:
  assumes "listIndex ids m P" "m k = Some w" "P v = P w"
  shows "listIndex ids (m(k \<mapsto> v)) P"
  using assms by (auto simp: listIndex_def)

lemma listIndex_rows:
  assumes "listIndex ids m P"
  shows "i \<in> set ids \<longleftrightarrow> (\<exists>v. m i = Some v \<and> P v)"
  using assms by (simp add: listIndex_def)

text \<open>Reading the rows of an index in order, as \<open>for _, id := range ids\<close> loops do.\<close>

definition rowsAt :: "('i \<rightharpoonup> 'v) \<Rightarrow> 'i list \<Rightarrow> 'v list" where
  "rowsAt m ids = map (\<lambda>i. the (m i)) (filter (\<lambda>i. m i \<noteq> None) ids)"

lemma rowsAt_Cons: "rowsAt m (i # ids) = (case m i of None \<Rightarrow> rowsAt m ids | Some v \<Rightarrow> v # rowsAt m ids)"
  by (auto simp: rowsAt_def split: option.split)

lemma set_rowsAt: "listIndex ids m P \<Longrightarrow> set (rowsAt m ids) = {v. \<exists>i. m i = Some v \<and> P v}"
  by (force simp: rowsAt_def listIndex_def)

text \<open>A sum over the rows of an index is a sum over the table.\<close>

lemma sum_rowsAt:
  assumes "listIndex ids m P" "finite (dom m)"
  shows "(\<Sum>v \<leftarrow> rowsAt m ids. f v) = mapSum (\<lambda>v. onlyIf (P v) (f v)) m"
proof -
  have "filter (\<lambda>i. m i \<noteq> None) ids = ids"
    using assms(1) by (auto simp: listIndex_def filter_id_conv)
  then have "rowsAt m ids = map (\<lambda>i. the (m i)) ids" unfolding rowsAt_def by presburger
  then have "(\<Sum>v \<leftarrow> rowsAt m ids. f v) = (\<Sum>i \<leftarrow> ids. f (the (m i)))"
    by (simp add: o_def)
  also have "\<dots> = (\<Sum>i \<in> set ids. f (the (m i)))"
    using assms(1) by (intro sum_list_distinct_conv_sum_set) (auto simp: listIndex_def strict_sorted_iff)
  also have "\<dots> = (\<Sum>i \<in> set ids. onlyIf (P (the (m i))) (f (the (m i))))"
    using assms(1) by (intro sum.cong) (auto simp: listIndex_def)
  also have "\<dots> = (\<Sum>i \<in> dom m. onlyIf (P (the (m i))) (f (the (m i))))"
    using assms by (intro sum.mono_neutral_left) (auto simp: listIndex_def onlyIf_def)
  finally show ?thesis by (simp add: mapSum_def)
qed

text \<open>\<open>keyIndex ix m key\<close>: the index maps exactly the keys of the rows to their ids.\<close>

definition keyIndex :: "('r \<rightharpoonup> int) \<Rightarrow> (int \<rightharpoonup> 'v) \<Rightarrow> ('v \<Rightarrow> 'r) \<Rightarrow> bool" where
  "keyIndex ix m key \<longleftrightarrow> (\<forall>r i. ix r = Some i \<longleftrightarrow> (\<exists>v. m i = Some v \<and> key v = r))"

lemma keyIndex_empty [simp]: "keyIndex Map.empty Map.empty key"
  by (simp add: keyIndex_def)

lemma keyIndex_new:
  assumes "keyIndex ix m key" "m n = None" "ix (key v) = None"
  shows "keyIndex (ix(key v \<mapsto> n)) (m(n \<mapsto> v)) key"
  unfolding keyIndex_def
proof (intro allI)
  fix r i
  have r: "ix r = Some i \<longleftrightarrow> (\<exists>v. m i = Some v \<and> key v = r)" using assms(1) by (simp add: keyIndex_def)
  have n: "ix (key v) = Some i \<longleftrightarrow> (\<exists>w. m i = Some w \<and> key w = key v)" using assms(1) by (simp add: keyIndex_def)
  show "(ix(key v \<mapsto> n)) r = Some i \<longleftrightarrow> (\<exists>w. (m(n \<mapsto> v)) i = Some w \<and> key w = r)"
    using r n assms(2,3) by (cases "r = key v"; cases "i = n") auto
qed

lemma keyIndex_set:
  assumes "keyIndex ix m key" "m k = Some w" "key v = key w"
  shows "keyIndex ix (m(k \<mapsto> v)) key"
  unfolding keyIndex_def
proof (intro allI)
  fix r i
  have "ix r = Some i \<longleftrightarrow> (\<exists>v. m i = Some v \<and> key v = r)" using assms(1) by (simp add: keyIndex_def)
  then show "ix r = Some i \<longleftrightarrow> (\<exists>u. (m(k \<mapsto> v)) i = Some u \<and> key u = r)"
    using assms(2,3) by (cases "i = k") auto
qed

lemma keyIndex_unique:
  "keyIndex ix m key \<Longrightarrow> m i = Some v \<Longrightarrow> m j = Some w \<Longrightarrow> key v = key w \<Longrightarrow> i = j"
  unfolding keyIndex_def by (metis option.inject)

text \<open>Ids drawn from a counter: every row has an id between one and the last one drawn.\<close>

definition idsUpTo :: "int \<Rightarrow> (int \<rightharpoonup> 'v) \<Rightarrow> ('v \<Rightarrow> int) \<Rightarrow> bool" where
  "idsUpTo n m idf \<longleftrightarrow> (\<forall>i v. m i = Some v \<longrightarrow> 1 \<le> i \<and> i \<le> n \<and> idf v = i)"

lemma idsUpTo_empty [simp]: "idsUpTo n Map.empty idf"
  by (simp add: idsUpTo_def)

lemma idsUpTo_finite: "idsUpTo n m idf \<Longrightarrow> finite (dom m)"
  by (rule finite_subset [of _ "{1..n}"]) (auto simp: idsUpTo_def)

lemma idsUpTo_fresh: "idsUpTo n m idf \<Longrightarrow> m (n + 1) = None"
  by (cases "m (n + 1)") (fastforce simp: idsUpTo_def)+

lemma idsUpTo_next: "idsUpTo n m idf \<Longrightarrow> idsUpTo (n + 1) m idf"
  by (fastforce simp: idsUpTo_def)

lemma idsUpTo_new: "idsUpTo n m idf \<Longrightarrow> 0 \<le> n \<Longrightarrow> idf v = n + 1 \<Longrightarrow> idsUpTo (n + 1) (m(n + 1 \<mapsto> v)) idf"
  by (fastforce simp: idsUpTo_def)

lemma idsUpTo_set: "idsUpTo n m idf \<Longrightarrow> m k = Some w \<Longrightarrow> idf v = idf w \<Longrightarrow> idsUpTo n (m(k \<mapsto> v)) idf"
  by (fastforce simp: idsUpTo_def)

end
