(* ===== verification/StoreInv.thy ===== *)
theory StoreInv
  imports MemWriter Tables
begin

text \<open>
  What the in-memory store's write operations do to the data, stated without the undo log, and
  the well-formedness of the data they all keep: ids come from one counter, every id list and
  every key index describes its table exactly, and the settlement index holds exactly the
  commissions with a known date that are still waiting.
\<close>

subsection \<open>Abstract effects\<close>

definition agentKeyOf :: "commission \<Rightarrow> user_key" where
  "agentKeyOf c = UserKey (okTenantID (cKey c)) (cAgentUserID c)"

definition commissionRef :: "commission \<Rightarrow> idem_ref" where
  "commissionRef c = IdemRef (okTenantID (cKey c)) (cIdemKey c)"

definition refundRef :: "refund \<Rightarrow> idem_ref" where
  "refundRef r = IdemRef (okTenantID (rfKey r)) (rfIdemKey r)"

definition withdrawalRef :: "withdrawal \<Rightarrow> idem_ref" where
  "withdrawalRef w = IdemRef (ukTenantID (wKey w)) (wIdemKey w)"

definition waiting :: "commission \<Rightarrow> bool" where
  "waiting c \<longleftrightarrow> dueTracked (cState c) \<and> cAvailableAt c \<noteq> 0"

definition dueOf :: "commission \<Rightarrow> int \<Rightarrow> due_ref" where
  "dueOf c i = DueRef (okTenantID (cKey c)) (cAvailableAt c) i"

definition indexAdd :: "'a::linorder \<Rightarrow> 'a list \<Rightarrow> 'a list" where
  "indexAdd x idx = (if x \<in> set idx then idx else insertAt (lowerBound idx x) x idx)"

definition push :: "'k \<Rightarrow> 'v \<Rightarrow> ('k \<rightharpoonup> 'v list) \<Rightarrow> ('k \<rightharpoonup> 'v list)" where
  "push k x m = m(k \<mapsto> slot m k @ [x])"

definition addAccount :: "account \<Rightarrow> data \<Rightarrow> data" where
  "addAccount a d = d\<lparr>dAccounts := (dAccounts d)(aKey a \<mapsto> a\<lparr>aVersion := aVersion a + 1\<rparr>),
     dAccountIDs := (if dAccounts d (aKey a) = None
       then (let idx = dAccountIDs d; pos = lowerBound idx (aKey a) in
             if pos < length idx \<and> idx ! pos = aKey a then idx else insertAt pos (aKey a) idx)
       else dAccountIDs d)\<rparr>"

definition addCommission :: "commission \<Rightarrow> data \<Rightarrow> data" where
  "addCommission c d = d\<lparr>dNextID := cID c, dIdem := (dIdem d)(commissionRef c \<mapsto> cID c),
     dCommissions := (dCommissions d)(cID c \<mapsto> c), dCommissionIDs := dCommissionIDs d @ [cID c],
     dByOrder := push (cKey c) (cID c) (dByOrder d), dByAgent := push (agentKeyOf c) (cID c) (dByAgent d),
     dPendingDue := (if waiting c then insertAt (lowerBound (dPendingDue d) (dueOf c (cID c))) (dueOf c (cID c)) (dPendingDue d)
                     else dPendingDue d)\<rparr>"

definition addRefund :: "refund \<Rightarrow> data \<Rightarrow> data" where
  "addRefund r d = d\<lparr>dNextID := rfID r, dRefundIdem := (dRefundIdem d)(refundRef r \<mapsto> rfID r),
     dRefunds := (dRefunds d)(rfID r \<mapsto> r), dRefundsByOrder := push (rfKey r) (rfID r) (dRefundsByOrder d)\<rparr>"

definition addLedger :: "ledger_entry \<Rightarrow> data \<Rightarrow> data" where
  "addLedger e d = d\<lparr>dNextID := leID e, dLedger := (dLedger d)(leID e \<mapsto> e), dLedgerIDs := dLedgerIDs d @ [leID e],
     dLedgerByUser := push (leKey e) (leID e) (dLedgerByUser d),
     dLedgerByTenant := push (ukTenantID (leKey e)) (leID e) (dLedgerByTenant d)\<rparr>"

definition addWithdrawal :: "withdrawal \<Rightarrow> data \<Rightarrow> data" where
  "addWithdrawal w d = d\<lparr>dNextID := wID w, dWithdrawIdem := (dWithdrawIdem d)(withdrawalRef w \<mapsto> wID w),
     dWithdrawals := (dWithdrawals d)(wID w \<mapsto> w), dWithdrawalIDs := dWithdrawalIDs d @ [wID w]\<rparr>"

subsection \<open>The operations have these effects\<close>

lemma storeAccount_data: "snd (storeAccount a t) = t' \<Longrightarrow> txD t' = addAccount a (txD t)"
  by (auto simp: storeAccount_def Let_def addAccount_def insertAccountID_data change_def)

lemma storeAccount_fst: "fst (storeAccount a t) = Inr (a\<lparr>aVersion := aVersion a + 1\<rparr>)"
  by (simp add: storeAccount_def Let_def)

lemma checkVersion_None: "checkVersion k e a ex = None \<longleftrightarrow> e = (if ex then a else 0)"
  by (simp add: checkVersion_def)

lemma PutAgent_Inr:
  assumes "PutAgent a t = (Inr a', t')"
  shows "txD t' = (txD t)\<lparr>dAgents := (dAgents (txD t))(agKey a \<mapsto> a')\<rparr>" "a' = a\<lparr>agVersion := agVersion a + 1\<rparr>"
    "agVersion a = (case dAgents (txD t) (agKey a) of None \<Rightarrow> 0 | Some c \<Rightarrow> agVersion c)"
  using assms by (auto simp: PutAgent_def Let_def change_def checkVersion_None split: option.splits if_splits)

lemma PutBinding_Inr:
  assumes "PutBinding b t = (Inr b', t')"
  shows "txD t' = (txD t)\<lparr>dBindings := (dBindings (txD t))(bBuyer b \<mapsto> b')\<rparr>" "b' = b\<lparr>bVersion := bVersion b + 1\<rparr>"
    "bVersion b = (case dBindings (txD t) (bBuyer b) of None \<Rightarrow> 0 | Some c \<Rightarrow> bVersion c)"
  using assms by (auto simp: PutBinding_def Let_def change_def checkVersion_None split: option.splits if_splits)

lemma PutAccount_Inr:
  assumes "PutAccount a t = (Inr a', t')"
  shows "txD t' = addAccount a (txD t)" "a' = a\<lparr>aVersion := aVersion a + 1\<rparr>" "Settleable a"
    "aVersion a = (case dAccounts (txD t) (aKey a) of None \<Rightarrow> 0 | Some c \<Rightarrow> aVersion c)"
proof -
  have s: "storeAccount a t = (Inr a', t') \<and> Settleable a \<and>
      aVersion a = (case dAccounts (txD t) (aKey a) of None \<Rightarrow> 0 | Some c \<Rightarrow> aVersion c)"
    using assms by (auto simp: PutAccount_def Let_def checkVersion_None split: option.splits if_splits)
  then show "txD t' = addAccount a (txD t)" using storeAccount_data [of a t t'] by simp
  show "a' = a\<lparr>aVersion := aVersion a + 1\<rparr>" using s storeAccount_fst [of a t] by simp
  show "Settleable a" "aVersion a = (case dAccounts (txD t) (aKey a) of None \<Rightarrow> 0 | Some c \<Rightarrow> aVersion c)"
    using s by auto
qed

lemma IncrementAccount_Inr:
  assumes "IncrementAccount d t = (Inr a', t')"
  obtains a where "userKeyValidate (dKey d) = None" "deltaApply d ((accountOf (txD t) (dKey d))\<lparr>aKey := dKey d\<rparr>) = Inr a"
    "dRequireNonNegative d \<Longrightarrow> NegativeBuckets a = []" "txD t' = addAccount a (txD t)" "a' = a\<lparr>aVersion := aVersion a + 1\<rparr>"
proof -
  obtain a where a: "userKeyValidate (dKey d) = None" "deltaApply d ((accountOf (txD t) (dKey d))\<lparr>aKey := dKey d\<rparr>) = Inr a"
    "dRequireNonNegative d \<longrightarrow> NegativeBuckets a = []" "storeAccount a t = (Inr a', t')"
    using assms by (auto simp: IncrementAccount_def split: option.splits sum.splits if_splits)
  moreover have "txD t' = addAccount a (txD t)" using a(4) storeAccount_data [of a t t'] by simp
  moreover have "a' = a\<lparr>aVersion := aVersion a + 1\<rparr>" using a(4) storeAccount_fst [of a t] by simp
  ultimately show thesis using that by blast
qed

lemma AppendCommission_Inr:
  assumes "AppendCommission c0 t = (Inr c, t')"
  shows "txD t' = addCommission c (txD t)" "c = c0\<lparr>cID := dNextID (txD t) + 1\<rparr>" "commissionGuards c0 = None"
    "dIdem (txD t) (commissionRef c0) = None"
  using assms
  by (auto simp: AppendCommission_def Let_def change_def insertDue_data addCommission_def push_def commissionRef_def
      agentKeyOf_def dueOf_def waiting_def split: option.splits if_splits)

lemma AppendCommission_duplicate:
  "AppendCommission c t = (Inl ErrDuplicate, t') \<Longrightarrow> dIdem (txD t) (commissionRef c) \<noteq> None"
  by (auto simp: AppendCommission_def Let_def commissionRef_def commissionGuards_def orderKeyValidate_def
      split: option.splits if_splits)

lemma AppendRefund_Inr:
  assumes "AppendRefund r0 t = (Inr r, t')"
  shows "txD t' = addRefund r (txD t)" "r = r0\<lparr>rfID := dNextID (txD t) + 1\<rparr>" "0 <s rfAmount r0"
    "rfAmount r0 <=s rfCumulative r0" "dRefundIdem (txD t) (refundRef r0) = None"
  using assms
  by (auto simp: AppendRefund_def Let_def change_def addRefund_def push_def refundRef_def sless_sint sle_sint not_le not_less
      split: option.splits if_splits)

lemma AppendLedger_Inr:
  assumes "AppendLedger e0 t = (Inr e, t')"
  shows "txD t' = addLedger e (txD t)" "e = e0\<lparr>leID := dNextID (txD t) + 1\<rparr>" "ledgerBizValid (leBizType e0)"
    "length (leRemark e0) \<le> MaxRemarkLen"
  using assms
  by (auto simp: AppendLedger_def Let_def change_def addLedger_def push_def split: option.splits if_splits)

lemma AppendWithdrawal_Inr:
  assumes "AppendWithdrawal w0 t = (Inr w, t')"
  shows "txD t' = addWithdrawal w (txD t)" "w = w0\<lparr>wID := dNextID (txD t) + 1\<rparr>" "withdrawalValidate w0 = None"
    "dWithdrawIdem (txD t) (withdrawalRef w0) = None"
  using assms
  by (auto simp: AppendWithdrawal_def Let_def change_def addWithdrawal_def withdrawalRef_def
      split: option.splits if_splits)

text \<open>Changing a commission: the row, and what the settlement index does.\<close>

definition setCommission :: "int \<Rightarrow> commission \<Rightarrow> data \<Rightarrow> data" where
  "setCommission i c d = d\<lparr>dCommissions := (dCommissions d)(i \<mapsto> c)\<rparr>"

lemma SetCommissionAvailableAt_Inr:
  assumes "SetCommissionAvailableAt i at v t = (Inr c', t')"
  obtains (fixed) c where "dCommissions (txD t) i = Some c" "cAvailableAt c \<noteq> 0" "c' = c" "t' = t"
  | (set) c where "dCommissions (txD t) i = Some c" "cAvailableAt c = 0" "cVersion c = v"
      "c' = c\<lparr>cAvailableAt := at, cVersion := cVersion c + 1\<rparr>"
      "txD t' = (setCommission i c' (txD t))\<lparr>dPendingDue := (if dueTracked (cState c)
         then insertAt (lowerBound (dPendingDue (txD t)) (dueOf c' i)) (dueOf c' i) (dPendingDue (txD t))
         else dPendingDue (txD t))\<rparr>"
  using assms
  by (auto simp: SetCommissionAvailableAt_def Let_def storeCommission_def change_def insertDue_data setCommission_def
      dueOf_def split: option.splits if_splits)

lemma SetCommissionReversedAmount_Inr:
  assumes "SetCommissionReversedAmount i m v t = (Inr c', t')"
  obtains (same) c where "dCommissions (txD t) i = Some c" "cReversedAmount c = m" "cVersion c = v" "c' = c" "t' = t"
  | (set) c where "dCommissions (txD t) i = Some c" "cVersion c = v" "0 \<le> sint m" "sint m \<le> sint (MaxReversible c)"
      "c' = c\<lparr>cReversedAmount := m, cVersion := cVersion c + 1\<rparr>" "txD t' = setCommission i c' (txD t)"
proof -
  obtain c where c: "dCommissions (txD t) i = Some c" using assms
    by (auto simp: SetCommissionReversedAmount_def split: option.splits)
  show thesis
  proof (cases "cReversedAmount c = m")
    case True
    then show ?thesis using assms c
      by (intro same [of c]) (simp_all add: SetCommissionReversedAmount_def split: if_splits)
  next
    case False
    then show ?thesis using assms c
      by (intro set [of c]) (auto simp: SetCommissionReversedAmount_def storeCommission_def change_def setCommission_def
          Let_def sless_sint not_less split: if_splits)
  qed
qed

lemma TransitionCommission_Inr:
  assumes "TransitionCommission i from to v t = (Inr c', t')"
  obtains c where "dCommissions (txD t) i = Some c" "cState c = from" "cVersion c = v" "CanTransitionCommission from to"
      "c' = c\<lparr>cState := to, cVersion := cVersion c + 1\<rparr>"
      "txD t' = (setCommission i c' (txD t))\<lparr>dPendingDue := (if \<not> dueTracked to \<and> cAvailableAt c \<noteq> 0
         then (let idx = dPendingDue (txD t); pos = lowerBound idx (dueOf c i) in
               if pos < length idx \<and> idx ! pos = dueOf c i then deleteAt pos idx else idx)
         else dPendingDue (txD t))\<rparr>"
  using assms
  by (auto simp: TransitionCommission_def Let_def storeCommission_def change_def removeDue_data setCommission_def
      dueOf_def ValidateCommissionTransition_None split: option.splits if_splits)

lemma TransitionWithdrawal_Inr:
  assumes "TransitionWithdrawal i from to v tr t = (Inr w', t')"
  obtains w where "dWithdrawals (txD t) i = Some w" "wState w = from" "wVersion w = v" "CanTransitionWithdrawal from to"
      "w' = withdrawalPatch tr (w\<lparr>wState := to, wVersion := wVersion w + 1\<rparr>)"
      "txD t' = (txD t)\<lparr>dWithdrawals := (dWithdrawals (txD t))(i \<mapsto> w')\<rparr>"
  using assms
  by (auto simp: TransitionWithdrawal_def Let_def change_def split: option.splits if_splits)

lemma withdrawalPatch_fields [simp]:
  "wID (withdrawalPatch tr w) = wID w" "wKey (withdrawalPatch tr w) = wKey w"
  "wIdemKey (withdrawalPatch tr w) = wIdemKey w" "wAmount (withdrawalPatch tr w) = wAmount w"
  "wFee (withdrawalPatch tr w) = wFee w" "wRealAmount (withdrawalPatch tr w) = wRealAmount w"
  "wState (withdrawalPatch tr w) = wState w" "wVersion (withdrawalPatch tr w) = wVersion w"
  "wAppliedAt (withdrawalPatch tr w) = wAppliedAt w"
  "wPaidAt (withdrawalPatch tr w) = (if wtPaidAt tr \<noteq> 0 then wtPaidAt tr else wPaidAt w)"
  by (simp_all add: withdrawalPatch_def Let_def)

subsection \<open>Well-formed data\<close>

text \<open>
  The settlement index is sorted, and its dated entries are, each once, those of the waiting
  commissions. An entry for the zero time can be there too (a receipt whose settlement date
  falls on Go's zero time leaves one); nothing is claimed about those.
\<close>

definition dated :: "due_ref \<Rightarrow> bool" where
  "dated r \<longleftrightarrow> duAt r \<noteq> 0"

definition dueIndex :: "due_ref list \<Rightarrow> (int \<rightharpoonup> commission) \<Rightarrow> bool" where
  "dueIndex idx m \<longleftrightarrow> sorted idx \<and> distinct (filter dated idx) \<and>
     (\<forall>r. dated r \<longrightarrow> (r \<in> set idx \<longleftrightarrow> (\<exists>c. m (duID r) = Some c \<and> waiting c \<and> r = dueOf c (duID r))))"

definition commissionsWf :: "data \<Rightarrow> bool" where
  "commissionsWf d \<longleftrightarrow>
     idsUpTo (dNextID d) (dCommissions d) cID \<and>
     listIndex (dCommissionIDs d) (dCommissions d) (\<lambda>_. True) \<and>
     (\<forall>k. listIndex (slot (dByOrder d) k) (dCommissions d) (\<lambda>c. cKey c = k)) \<and>
     (\<forall>k. listIndex (slot (dByAgent d) k) (dCommissions d) (\<lambda>c. agentKeyOf c = k)) \<and>
     keyIndex (dIdem d) (dCommissions d) commissionRef \<and>
     dueIndex (dPendingDue d) (dCommissions d)"

definition refundsWf :: "data \<Rightarrow> bool" where
  "refundsWf d \<longleftrightarrow>
     idsUpTo (dNextID d) (dRefunds d) rfID \<and>
     (\<forall>k. listIndex (slot (dRefundsByOrder d) k) (dRefunds d) (\<lambda>r. rfKey r = k)) \<and>
     keyIndex (dRefundIdem d) (dRefunds d) refundRef"

definition ledgerWf :: "data \<Rightarrow> bool" where
  "ledgerWf d \<longleftrightarrow>
     idsUpTo (dNextID d) (dLedger d) leID \<and>
     listIndex (dLedgerIDs d) (dLedger d) (\<lambda>_. True) \<and>
     (\<forall>k. listIndex (slot (dLedgerByUser d) k) (dLedger d) (\<lambda>e. leKey e = k)) \<and>
     (\<forall>n. listIndex (slot (dLedgerByTenant d) n) (dLedger d) (\<lambda>e. ukTenantID (leKey e) = n))"

definition withdrawalsWf :: "data \<Rightarrow> bool" where
  "withdrawalsWf d \<longleftrightarrow>
     idsUpTo (dNextID d) (dWithdrawals d) wID \<and>
     listIndex (dWithdrawalIDs d) (dWithdrawals d) (\<lambda>_. True) \<and>
     keyIndex (dWithdrawIdem d) (dWithdrawals d) withdrawalRef"

definition accountsWf :: "data \<Rightarrow> bool" where
  "accountsWf d \<longleftrightarrow>
     sorted_wrt (<) (dAccountIDs d) \<and> set (dAccountIDs d) = dom (dAccounts d) \<and>
     (\<forall>k a. dAccounts d k = Some a \<longrightarrow> aKey a = k)"

definition storeWf :: "data \<Rightarrow> bool" where
  "storeWf d \<longleftrightarrow> 0 \<le> dNextID d \<and> commissionsWf d \<and> refundsWf d \<and> ledgerWf d \<and> withdrawalsWf d \<and> accountsWf d"

lemma slot_empty [simp]: "slot Map.empty k = []"
  by (simp add: slot_def)

lemma slot_push: "slot (push k x m) j = (if j = k then slot m k @ [x] else slot m j)"
  by (simp add: slot_def push_def)

lemma storeWf_newData: "storeWf newData"
  by (simp add: storeWf_def newData_def commissionsWf_def refundsWf_def ledgerWf_def withdrawalsWf_def
      accountsWf_def dueIndex_def)

text \<open>The settlement index under the three changes of a commission.\<close>

lemma dueOf_simps [simp]: "duID (dueOf c i) = i" "dueOf c i = dueOf c' j \<longleftrightarrow>
    i = j \<and> okTenantID (cKey c) = okTenantID (cKey c') \<and> cAvailableAt c = cAvailableAt c'"
  by (auto simp: dueOf_def)

lemma waiting_dated: "waiting c \<Longrightarrow> dated (dueOf c i)"
  by (simp add: waiting_def dated_def dueOf_def)

lemma dueIndex_row:
  assumes "dueIndex idx m" "m i = Some c" "cAvailableAt c \<noteq> 0"
  shows "dueOf c i \<in> set idx \<longleftrightarrow> waiting c"
proof -
  have "dated (dueOf c i)" using assms(3) by (simp add: dated_def dueOf_def)
  then show ?thesis using assms(1,2) by (auto simp: dueIndex_def)
qed

lemma dueIndex_rows:
  "dueIndex idx m \<Longrightarrow> dated r \<Longrightarrow> r \<in> set idx \<longleftrightarrow> (\<exists>c. m (duID r) = Some c \<and> waiting c \<and> r = dueOf c (duID r))"
  by (simp add: dueIndex_def)

lemma dueIndex_insert:
  assumes d: "dueIndex idx m" and none: "m i = None \<or> (\<exists>c. m i = Some c \<and> \<not> waiting c)"
    and b: "waiting c' \<Longrightarrow> b" "b \<Longrightarrow> cAvailableAt c' \<noteq> 0 \<Longrightarrow> waiting c'"
  shows "dueIndex (if b then insertAt (lowerBound idx (dueOf c' i)) (dueOf c' i) idx else idx) (m(i \<mapsto> c'))"
proof -
  let ?idx = "if b then insertAt (lowerBound idx (dueOf c' i)) (dueOf c' i) idx else idx"
  note rows = dueIndex_rows [OF d]
  have absent: "r \<notin> set idx" if "duID r = i" "dated r" for r using rows [OF that(2)] none that by auto
  have dated: "dated (dueOf c' i) \<longleftrightarrow> cAvailableAt c' \<noteq> 0" by (simp add: dated_def dueOf_def)
  have "sorted ?idx" using d by (auto simp: dueIndex_def intro: sorted_insertAt)
  moreover have "distinct (filter dated ?idx)"
    using d absent [of "dueOf c' i"] by (auto simp: dueIndex_def filter_insertAt distinct_insertAt)
  moreover have "r \<in> set ?idx \<longleftrightarrow> (\<exists>c. (m(i \<mapsto> c')) (duID r) = Some c \<and> waiting c \<and> r = dueOf c (duID r))"
    if "dated r" for r
    using absent [of r] rows [OF that] that b dated waiting_dated [of c' i] by (cases "duID r = i") auto
  ultimately show ?thesis by (simp only: dueIndex_def) blast
qed

lemma dueIndex_same:
  assumes d: "dueIndex idx m" and c: "m i = Some c" "waiting c' = waiting c" "waiting c \<Longrightarrow> dueOf c' i = dueOf c i"
  shows "dueIndex idx (m(i \<mapsto> c'))"
proof -
  have "r \<in> set idx \<longleftrightarrow> (\<exists>c. (m(i \<mapsto> c')) (duID r) = Some c \<and> waiting c \<and> r = dueOf c (duID r))" if "dated r" for r
    using dueIndex_rows [OF d that] c by (cases "duID r = i"; cases "waiting c") (auto simp del: dueOf_simps)
  then show ?thesis using d by (simp add: dueIndex_def)
qed

lemma dueIndex_remove:
  assumes d: "dueIndex idx m" and c: "m i = Some c" "\<not> waiting c'" "cAvailableAt c \<noteq> 0"
  shows "dueIndex (let pos = lowerBound idx (dueOf c i) in
           if pos < length idx \<and> idx ! pos = dueOf c i then deleteAt pos idx else idx) (m(i \<mapsto> c'))"
proof -
  let ?r = "dueOf c i" and ?pos = "lowerBound idx (dueOf c i)"
  have sorted: "sorted idx" using d by (simp add: dueIndex_def)
  have rows: "r \<in> set idx \<and> r \<noteq> ?r \<longleftrightarrow> (\<exists>c. (m(i \<mapsto> c')) (duID r) = Some c \<and> waiting c \<and> r = dueOf c (duID r))"
    if "dated r" for r
    using dueIndex_rows [OF d that] c by (cases "duID r = i") auto
  show ?thesis
  proof (cases "?pos < length idx \<and> idx ! ?pos = ?r")
    case False
    then have "?r \<notin> set idx" using lowerBound_hit [OF sorted] by blast
    then have "r \<in> set idx \<longleftrightarrow> r \<in> set idx \<and> r \<noteq> ?r" for r by blast
    moreover have "(let pos = lowerBound idx ?r in if pos < length idx \<and> idx ! pos = ?r then deleteAt pos idx else idx) = idx"
      using False by (simp only: Let_def if_False)
    ultimately show ?thesis using rows d by (simp only: dueIndex_def) blast
  next
    case True
    obtain l r where x: "idx = l @ ?r # r" and del: "deleteAt ?pos idx = l @ r"
      using deleteAt_parts [of ?pos idx] True by metis
    have dt: "dated ?r" using c(3) by (simp add: dated_def dueOf_def)
    have dist: "distinct (filter dated (l @ ?r # r))" using d x by (simp add: dueIndex_def)
    then have out: "?r \<notin> set (l @ r)" using dt by auto
    have "distinct (filter dated (l @ r))" using dist dt by auto
    moreover have "q \<in> set (l @ r) \<longleftrightarrow> q \<in> set idx \<and> q \<noteq> ?r" for q using x out by auto
    ultimately show ?thesis using True rows sorted_deleteAt [OF sorted, of ?pos] by (simp add: dueIndex_def del)
  qed
qed

lemma commissionsWf_add:
  assumes wf: "commissionsWf d" "0 \<le> dNextID d" and new: "cID c = dNextID d + 1" "dIdem d (commissionRef c) = None"
  shows "commissionsWf (addCommission c d)"
proof -
  have ids: "idsUpTo (dNextID d) (dCommissions d) cID" using wf by (simp add: commissionsWf_def)
  have fresh: "dCommissions d (dNextID d + 1) = None" by (rule idsUpTo_fresh [OF ids])
  have below: "\<And>i v. dCommissions d i = Some v \<Longrightarrow> i < dNextID d + 1" using ids by (force simp: idsUpTo_def)
  have lists: "listIndex (if P c then ids @ [dNextID d + 1] else ids) ((dCommissions d)(dNextID d + 1 \<mapsto> c)) P"
    if "listIndex ids (dCommissions d) P" for ids P
    using listIndex_new [OF that below] by simp
  have "listIndex (slot (push (cKey c) (dNextID d + 1) (dByOrder d)) k) ((dCommissions d)(dNextID d + 1 \<mapsto> c)) (\<lambda>c. cKey c = k)" for k
    using lists [of "slot (dByOrder d) k" "\<lambda>c. cKey c = k"] wf(1) by (auto simp: commissionsWf_def slot_push split: if_splits)
  moreover have "listIndex (slot (push (agentKeyOf c) (dNextID d + 1) (dByAgent d)) k) ((dCommissions d)(dNextID d + 1 \<mapsto> c))
      (\<lambda>c. agentKeyOf c = k)" for k
    using lists [of "slot (dByAgent d) k" "\<lambda>c. agentKeyOf c = k"] wf(1) by (auto simp: commissionsWf_def slot_push split: if_splits)
  moreover have "listIndex (dCommissionIDs d @ [dNextID d + 1]) ((dCommissions d)(dNextID d + 1 \<mapsto> c)) (\<lambda>_. True)"
    using lists [of "dCommissionIDs d" "\<lambda>_. True"] wf(1) by (simp add: commissionsWf_def)
  moreover have "keyIndex ((dIdem d)(commissionRef c \<mapsto> dNextID d + 1)) ((dCommissions d)(dNextID d + 1 \<mapsto> c)) commissionRef"
    using wf(1) new(2) fresh by (intro keyIndex_new) (auto simp: commissionsWf_def)
  moreover have "dueIndex (if waiting c then insertAt (lowerBound (dPendingDue d) (dueOf c (dNextID d + 1)))
      (dueOf c (dNextID d + 1)) (dPendingDue d) else dPendingDue d) ((dCommissions d)(dNextID d + 1 \<mapsto> c))"
    using wf(1) fresh by (intro dueIndex_insert) (auto simp: commissionsWf_def waiting_def)
  moreover have "idsUpTo (dNextID d + 1) ((dCommissions d)(dNextID d + 1 \<mapsto> c)) cID"
    using ids wf(2) new(1) by (rule idsUpTo_new)
  ultimately show ?thesis by (cases "waiting c") (simp_all add: commissionsWf_def addCommission_def new(1))
qed

text \<open>Changing a row in place; \<open>sameCommission\<close> are the fields no operation ever changes.\<close>

definition sameCommission :: "commission \<Rightarrow> commission \<Rightarrow> bool" where
  "sameCommission c c' \<longleftrightarrow>
     (\<exists>s a r v. c' = c\<lparr>cState := s, cAvailableAt := a, cReversedAmount := r, cVersion := v\<rparr>)"

lemma sameCommission_updates [intro, simp]:
  "sameCommission c c" "sameCommission c (c\<lparr>cState := s, cVersion := v\<rparr>)"
  "sameCommission c (c\<lparr>cAvailableAt := a, cVersion := v\<rparr>)" "sameCommission c (c\<lparr>cReversedAmount := r, cVersion := v\<rparr>)"
  unfolding sameCommission_def
  by (intro exI [of _ "cState c"] exI [of _ "cAvailableAt c"] exI [of _ "cReversedAmount c"] exI [of _ "cVersion c"]
      exI [of _ s] exI [of _ v] exI [of _ a] exI [of _ r], (simp; fail))+

lemma sameCommission_fields:
  assumes "sameCommission c c'"
  shows "cID c' = cID c" "cKey c' = cKey c" "commissionRef c' = commissionRef c" "agentKeyOf c' = agentKeyOf c"
    "cAmount c' = cAmount c" "cReverseOf c' = cReverseOf c" "cOrderItemID c' = cOrderItemID c"
    "cBaseAmount c' = cBaseAmount c" "cLayer c' = cLayer c" "cAgentUserID c' = cAgentUserID c"
    "cBuyerUserID c' = cBuyerUserID c"
  using assms by (auto simp: sameCommission_def commissionRef_def agentKeyOf_def)

lemma commissionsWf_set:
  assumes "commissionsWf d" "dCommissions d i = Some c" "sameCommission c c'" "dueIndex due ((dCommissions d)(i \<mapsto> c'))"
  shows "commissionsWf ((setCommission i c' d)\<lparr>dPendingDue := due\<rparr>)"
  using assms(1,2,4) sameCommission_fields [OF assms(3)]
  by (auto simp: commissionsWf_def setCommission_def intro!: idsUpTo_set listIndex_set keyIndex_set)

lemma wf_nextID:
  "idsUpTo n m f \<Longrightarrow> n \<le> n' \<Longrightarrow> idsUpTo n' m f"
  by (fastforce simp: idsUpTo_def)

lemma sameCommission_trans: "sameCommission a b \<Longrightarrow> sameCommission b c \<Longrightarrow> sameCommission a c"
  by (clarsimp simp: sameCommission_def) (intro exI, rule refl)

lemma refundsWf_add:
  assumes wf: "refundsWf d" "0 \<le> dNextID d" and new: "rfID r = dNextID d + 1" "dRefundIdem d (refundRef r) = None"
  shows "refundsWf (addRefund r d)"
proof -
  have ids: "idsUpTo (dNextID d) (dRefunds d) rfID" using wf by (simp add: refundsWf_def)
  have fresh: "dRefunds d (dNextID d + 1) = None" by (rule idsUpTo_fresh [OF ids])
  have below: "\<And>i v. dRefunds d i = Some v \<Longrightarrow> i < dNextID d + 1" using ids by (force simp: idsUpTo_def)
  have "listIndex (slot (push (rfKey r) (dNextID d + 1) (dRefundsByOrder d)) k) ((dRefunds d)(dNextID d + 1 \<mapsto> r)) (\<lambda>r. rfKey r = k)" for k
    using listIndex_new [of "slot (dRefundsByOrder d) k" "dRefunds d" "\<lambda>r. rfKey r = k", where v = r, OF _ below] wf(1)
    by (auto simp: refundsWf_def slot_push split: if_splits)
  moreover have "keyIndex ((dRefundIdem d)(refundRef r \<mapsto> dNextID d + 1)) ((dRefunds d)(dNextID d + 1 \<mapsto> r)) refundRef"
    using wf(1) new(2) fresh by (intro keyIndex_new) (auto simp: refundsWf_def)
  moreover have "idsUpTo (dNextID d + 1) ((dRefunds d)(dNextID d + 1 \<mapsto> r)) rfID"
    using ids wf(2) new(1) by (rule idsUpTo_new)
  ultimately show ?thesis by (simp add: refundsWf_def addRefund_def new(1))
qed

lemma ledgerWf_add:
  assumes wf: "ledgerWf d" "0 \<le> dNextID d" and new: "leID e = dNextID d + 1"
  shows "ledgerWf (addLedger e d)"
proof -
  have ids: "idsUpTo (dNextID d) (dLedger d) leID" using wf by (simp add: ledgerWf_def)
  have below: "\<And>i v. dLedger d i = Some v \<Longrightarrow> i < dNextID d + 1" using ids by (force simp: idsUpTo_def)
  have lists: "listIndex (if P e then ids @ [dNextID d + 1] else ids) ((dLedger d)(dNextID d + 1 \<mapsto> e)) P"
    if "listIndex ids (dLedger d) P" for ids P
    using listIndex_new [OF that below] by simp
  have "listIndex (slot (push (leKey e) (dNextID d + 1) (dLedgerByUser d)) k) ((dLedger d)(dNextID d + 1 \<mapsto> e)) (\<lambda>e. leKey e = k)" for k
    using lists [of "slot (dLedgerByUser d) k" "\<lambda>e. leKey e = k"] wf(1) by (auto simp: ledgerWf_def slot_push split: if_splits)
  moreover have "listIndex (slot (push (ukTenantID (leKey e)) (dNextID d + 1) (dLedgerByTenant d)) n)
      ((dLedger d)(dNextID d + 1 \<mapsto> e)) (\<lambda>e. ukTenantID (leKey e) = n)" for n
    using lists [of "slot (dLedgerByTenant d) n" "\<lambda>e. ukTenantID (leKey e) = n"] wf(1)
    by (auto simp: ledgerWf_def slot_push split: if_splits)
  moreover have "listIndex (dLedgerIDs d @ [dNextID d + 1]) ((dLedger d)(dNextID d + 1 \<mapsto> e)) (\<lambda>_. True)"
    using lists [of "dLedgerIDs d" "\<lambda>_. True"] wf(1) by (simp add: ledgerWf_def)
  moreover have "idsUpTo (dNextID d + 1) ((dLedger d)(dNextID d + 1 \<mapsto> e)) leID"
    using ids wf(2) new(1) by (rule idsUpTo_new)
  ultimately show ?thesis by (simp add: ledgerWf_def addLedger_def new(1))
qed

lemma withdrawalsWf_add:
  assumes wf: "withdrawalsWf d" "0 \<le> dNextID d" and new: "wID w = dNextID d + 1" "dWithdrawIdem d (withdrawalRef w) = None"
  shows "withdrawalsWf (addWithdrawal w d)"
proof -
  have ids: "idsUpTo (dNextID d) (dWithdrawals d) wID" using wf by (simp add: withdrawalsWf_def)
  have fresh: "dWithdrawals d (dNextID d + 1) = None" by (rule idsUpTo_fresh [OF ids])
  have below: "\<And>i v. dWithdrawals d i = Some v \<Longrightarrow> i < dNextID d + 1" using ids by (force simp: idsUpTo_def)
  have "listIndex (dWithdrawalIDs d @ [dNextID d + 1]) ((dWithdrawals d)(dNextID d + 1 \<mapsto> w)) (\<lambda>_. True)"
    using listIndex_new [of "dWithdrawalIDs d" "dWithdrawals d" "\<lambda>_. True", OF _ below] wf(1) by (simp add: withdrawalsWf_def)
  moreover have "keyIndex ((dWithdrawIdem d)(withdrawalRef w \<mapsto> dNextID d + 1)) ((dWithdrawals d)(dNextID d + 1 \<mapsto> w)) withdrawalRef"
    using wf(1) new(2) fresh by (intro keyIndex_new) (auto simp: withdrawalsWf_def)
  moreover have "idsUpTo (dNextID d + 1) ((dWithdrawals d)(dNextID d + 1 \<mapsto> w)) wID"
    using ids wf(2) new(1) by (rule idsUpTo_new)
  ultimately show ?thesis by (simp add: withdrawalsWf_def addWithdrawal_def new(1))
qed

lemma accountsWf_add:
  assumes wf: "accountsWf d"
  shows "accountsWf (addAccount a d)"
proof (cases "dAccounts d (aKey a)")
  case None
  then have "aKey a \<notin> set (dAccountIDs d)" using wf by (auto simp: accountsWf_def)
  then have miss: "\<not> (lowerBound (dAccountIDs d) (aKey a) < length (dAccountIDs d) \<and>
      dAccountIDs d ! lowerBound (dAccountIDs d) (aKey a) = aKey a)"
    using wf lowerBound_hit [of "dAccountIDs d" "aKey a"] by (simp add: accountsWf_def strict_sorted_iff)
  show ?thesis using wf None \<open>aKey a \<notin> set (dAccountIDs d)\<close> miss
    by (auto simp: accountsWf_def addAccount_def Let_def intro!: strict_insertAt)
next
  case (Some b)
  then show ?thesis using wf by (auto simp: accountsWf_def addAccount_def)
qed

lemma storeWf_bump:
  assumes "storeWf d" "dNextID d \<le> n"
  shows "storeWf (d\<lparr>dNextID := n\<rparr>)"
  using assms by (auto simp: storeWf_def commissionsWf_def refundsWf_def ledgerWf_def withdrawalsWf_def accountsWf_def
      elim!: wf_nextID)

lemma storeWf_parts:
  assumes "storeWf d"
  shows "0 \<le> dNextID d" "commissionsWf d" "refundsWf d" "ledgerWf d" "withdrawalsWf d" "accountsWf d"
    "idsUpTo (dNextID d) (dCommissions d) cID" "idsUpTo (dNextID d) (dLedger d) leID"
    "idsUpTo (dNextID d) (dWithdrawals d) wID" "idsUpTo (dNextID d) (dRefunds d) rfID"
    "finite (dom (dCommissions d))" "finite (dom (dLedger d))" "finite (dom (dWithdrawals d))" "finite (dom (dRefunds d))"
  using assms
  by (auto simp: storeWf_def commissionsWf_def refundsWf_def ledgerWf_def withdrawalsWf_def intro: idsUpTo_finite)

lemma storeWf_addCommission:
  assumes wf: "storeWf d" and new: "cID c = dNextID d + 1" "dIdem d (commissionRef c) = None"
  shows "storeWf (addCommission c d)"
proof -
  have "storeWf (d\<lparr>dNextID := dNextID d + 1\<rparr>)" using wf by (rule storeWf_bump) simp
  then show ?thesis using commissionsWf_add [OF _ _ new] storeWf_parts [OF wf]
    by (simp add: storeWf_def refundsWf_def ledgerWf_def withdrawalsWf_def accountsWf_def addCommission_def new)
qed

lemma storeWf_addRefund:
  assumes wf: "storeWf d" and new: "rfID r = dNextID d + 1" "dRefundIdem d (refundRef r) = None"
  shows "storeWf (addRefund r d)"
proof -
  have "storeWf (d\<lparr>dNextID := dNextID d + 1\<rparr>)" using wf by (rule storeWf_bump) simp
  then show ?thesis using refundsWf_add [OF _ _ new] storeWf_parts [OF wf]
    by (simp add: storeWf_def commissionsWf_def ledgerWf_def withdrawalsWf_def accountsWf_def addRefund_def new)
qed

lemma storeWf_addLedger:
  assumes wf: "storeWf d" and new: "leID e = dNextID d + 1"
  shows "storeWf (addLedger e d)"
proof -
  have "storeWf (d\<lparr>dNextID := dNextID d + 1\<rparr>)" using wf by (rule storeWf_bump) simp
  then show ?thesis using ledgerWf_add [OF _ _ new] storeWf_parts [OF wf]
    by (simp add: storeWf_def commissionsWf_def refundsWf_def withdrawalsWf_def accountsWf_def addLedger_def new)
qed

lemma storeWf_addWithdrawal:
  assumes wf: "storeWf d" and new: "wID w = dNextID d + 1" "dWithdrawIdem d (withdrawalRef w) = None"
  shows "storeWf (addWithdrawal w d)"
proof -
  have "storeWf (d\<lparr>dNextID := dNextID d + 1\<rparr>)" using wf by (rule storeWf_bump) simp
  then show ?thesis using withdrawalsWf_add [OF _ _ new] storeWf_parts [OF wf]
    by (simp add: storeWf_def commissionsWf_def refundsWf_def ledgerWf_def accountsWf_def addWithdrawal_def new)
qed

lemma storeWf_addAccount: "storeWf d \<Longrightarrow> storeWf (addAccount a d)"
  using accountsWf_add [of d a]
  by (simp add: storeWf_def commissionsWf_def refundsWf_def ledgerWf_def withdrawalsWf_def addAccount_def)

lemma storeWf_setCommission:
  assumes "storeWf d" "dCommissions d i = Some c" "sameCommission c c'" "dueIndex due ((dCommissions d)(i \<mapsto> c'))"
  shows "storeWf ((setCommission i c' d)\<lparr>dPendingDue := due\<rparr>)"
  using commissionsWf_set [OF storeWf_parts(2) [OF assms(1)] assms(2-)] assms(1)
  by (simp add: storeWf_def refundsWf_def ledgerWf_def withdrawalsWf_def accountsWf_def setCommission_def)

lemma storeWf_setWithdrawal:
  assumes "storeWf d" "dWithdrawals d i = Some w" "wID w' = wID w" "withdrawalRef w' = withdrawalRef w"
  shows "storeWf (d\<lparr>dWithdrawals := (dWithdrawals d)(i \<mapsto> w')\<rparr>)"
  using assms
  by (auto simp: storeWf_def commissionsWf_def refundsWf_def ledgerWf_def withdrawalsWf_def accountsWf_def
      intro!: idsUpTo_set listIndex_set keyIndex_set)

end
