(* ===== verification/TxInvariant.thy ===== *)
theory TxInvariant
  imports StoreInv
begin

text \<open>
  The contract between the engine and a transaction: an invariant that every write operation
  keeps. The engine's operations are shown once, inside the locale, to keep any such invariant;
  here the locale is given the three invariants of the in-memory store: its undo log describes
  the way back, its data is well formed, and its history only grows along legal steps.
\<close>

locale tx_moves =
  fixes inv :: "txn \<Rightarrow> bool"
  assumes keeps_PutAccount: "keeps inv (PutAccount acc)"
    and keeps_IncrementAccount: "keeps inv (IncrementAccount delta)"
    and keeps_SetCommissionAvailableAt: "keeps inv (SetCommissionAvailableAt i at v)"
    and keeps_SetCommissionReversedAmount: "keeps inv (SetCommissionReversedAmount i m v)"
    and keeps_TransitionCommission: "keeps inv (TransitionCommission i cf ct v)"
    and keeps_AppendRefund: "keeps inv (AppendRefund r)"
    and keeps_AppendLedger: "keeps inv (AppendLedger e)"
    and keeps_AppendWithdrawal: "keeps inv (AppendWithdrawal w)"
    and keeps_TransitionWithdrawal: "keeps inv (TransitionWithdrawal i sf st v tr)"
begin

lemmas keeps_moves = keeps_PutAccount keeps_IncrementAccount
  keeps_SetCommissionAvailableAt keeps_SetCommissionReversedAmount keeps_TransitionCommission keeps_AppendRefund
  keeps_AppendLedger keeps_AppendWithdrawal keeps_TransitionWithdrawal

end

text \<open>The same with new commissions, with the operations on bindings, and with those on agents.\<close>

locale tx_rows = tx_moves +
  assumes keeps_AppendCommission: "keeps inv (AppendCommission c)"
begin

lemmas keeps_ops = keeps_AppendCommission keeps_moves

end

locale tx_bindings = tx_rows +
  assumes keeps_PutBinding: "keeps inv (PutBinding b)"

locale tx_invariant = tx_bindings +
  assumes keeps_PutAgent: "keeps inv (PutAgent a)"

interpretation undo_inv: tx_invariant "undoOk d0" for d0
  by unfold_locales (rule hoare_rules)+

subsection \<open>Well-formedness\<close>

text \<open>An operation keeps a property of the data when it does so on success.\<close>

lemma keeps_dataI:
  fixes act :: "(txn, 'a) step"
  assumes "\<And>t x t'. P (txD t) \<Longrightarrow> act t = (Inr x, t') \<Longrightarrow> P (txD t')"
    and "\<And>t e t'. act t = (Inl e, t') \<Longrightarrow> t' = t"
  shows "keeps (\<lambda>t. P (txD t)) act"
proof (rule keepsI)
  fix t :: txn
  assume P: "P (txD t)"
  obtain r t' where run: "act t = (r, t')" by fastforce
  show "P (txD (snd (act t)))"
  proof (cases r)
    case (Inl e)
    then show ?thesis using assms(2) [of t e t'] run P by simp
  next
    case (Inr x)
    then show ?thesis using assms(1) [OF P, of x t'] run by simp
  qed
qed

lemma storeWf_frame:
  "storeWf d \<Longrightarrow> storeWf (d\<lparr>dAgents := x\<rparr>)" "storeWf d \<Longrightarrow> storeWf (d\<lparr>dBindings := y\<rparr>)"
  by (simp_all add: storeWf_def commissionsWf_def refundsWf_def ledgerWf_def withdrawalsWf_def accountsWf_def)

lemma storeWf_PutAgent: "storeWf (txD t) \<Longrightarrow> PutAgent a t = (Inr x, t') \<Longrightarrow> storeWf (txD t')"
  using PutAgent_Inr(1) [of a t x t'] by (simp add: storeWf_frame)

lemma storeWf_PutBinding: "storeWf (txD t) \<Longrightarrow> PutBinding b t = (Inr x, t') \<Longrightarrow> storeWf (txD t')"
  using PutBinding_Inr(1) [of b t x t'] by (simp add: storeWf_frame)

lemma storeWf_PutAccount: "storeWf (txD t) \<Longrightarrow> PutAccount acc t = (Inr x, t') \<Longrightarrow> storeWf (txD t')"
  using PutAccount_Inr(1) [of acc t x t'] by (simp add: storeWf_addAccount)

lemma storeWf_IncrementAccount: "storeWf (txD t) \<Longrightarrow> IncrementAccount delta t = (Inr x, t') \<Longrightarrow> storeWf (txD t')"
  by (erule IncrementAccount_Inr) (simp add: storeWf_addAccount)

lemma storeWf_AppendCommission: "storeWf (txD t) \<Longrightarrow> AppendCommission c t = (Inr x, t') \<Longrightarrow> storeWf (txD t')"
  using AppendCommission_Inr [of c t x t'] by (simp add: storeWf_addCommission commissionRef_def)

lemma storeWf_AppendRefund: "storeWf (txD t) \<Longrightarrow> AppendRefund r t = (Inr x, t') \<Longrightarrow> storeWf (txD t')"
  using AppendRefund_Inr [of r t x t'] by (simp add: storeWf_addRefund refundRef_def)

lemma storeWf_AppendLedger: "storeWf (txD t) \<Longrightarrow> AppendLedger e t = (Inr x, t') \<Longrightarrow> storeWf (txD t')"
  using AppendLedger_Inr [of e t x t'] by (simp add: storeWf_addLedger)

lemma storeWf_AppendWithdrawal: "storeWf (txD t) \<Longrightarrow> AppendWithdrawal w t = (Inr x, t') \<Longrightarrow> storeWf (txD t')"
  using AppendWithdrawal_Inr [of w t x t'] by (simp add: storeWf_addWithdrawal withdrawalRef_def)

lemma storeWf_TransitionWithdrawal:
  "storeWf (txD t) \<Longrightarrow> TransitionWithdrawal i sf st v tr t = (Inr x, t') \<Longrightarrow> storeWf (txD t')"
  by (erule TransitionWithdrawal_Inr) (simp add: storeWf_setWithdrawal withdrawalRef_def)

lemma storeWf_due: "storeWf d \<Longrightarrow> dueIndex (dPendingDue d) (dCommissions d)"
  by (simp add: storeWf_def commissionsWf_def)

lemma storeWf_SetCommissionAvailableAt:
  assumes wf: "storeWf (txD t)" and run: "SetCommissionAvailableAt i at v t = (Inr x, t')"
  shows "storeWf (txD t')"
  using run
proof (cases rule: SetCommissionAvailableAt_Inr)
  case (fixed c)
  then show ?thesis using wf by simp
next
  case (set c)
  have "dueIndex (if dueTracked (cState c)
      then insertAt (lowerBound (dPendingDue (txD t)) (dueOf x i)) (dueOf x i) (dPendingDue (txD t))
      else dPendingDue (txD t)) ((dCommissions (txD t))(i \<mapsto> x))"
    using set by (intro dueIndex_insert storeWf_due wf) (auto simp: waiting_def)
  moreover have "sameCommission c x" using set by simp
  ultimately show ?thesis unfolding set(5) using storeWf_setCommission [OF wf set(1)] by blast
qed

lemma storeWf_SetCommissionReversedAmount:
  assumes wf: "storeWf (txD t)" and run: "SetCommissionReversedAmount i m v t = (Inr x, t')"
  shows "storeWf (txD t')"
  using run
proof (cases rule: SetCommissionReversedAmount_Inr)
  case (same c)
  then show ?thesis using wf by simp
next
  case (set c)
  have "dueIndex (dPendingDue (txD t)) ((dCommissions (txD t))(i \<mapsto> x))"
    using set by (intro dueIndex_same [OF storeWf_due [OF wf]]) (auto simp: waiting_def dueOf_def)
  moreover have "sameCommission c x" using set by simp
  ultimately have "storeWf ((setCommission i x (txD t))\<lparr>dPendingDue := dPendingDue (txD t)\<rparr>)"
    using storeWf_setCommission [OF wf set(1)] by blast
  then show ?thesis using set(6) by (simp add: setCommission_def)
qed

lemma storeWf_TransitionCommission:
  assumes wf: "storeWf (txD t)" and run: "TransitionCommission i cf ct v t = (Inr x, t')"
  shows "storeWf (txD t')"
  using run
proof (cases rule: TransitionCommission_Inr)
  case (1 c)
  have same: "sameCommission c x" using 1 by simp
  have due: "dueIndex (if \<not> dueTracked ct \<and> cAvailableAt c \<noteq> 0
         then (let idx = dPendingDue (txD t); pos = lowerBound idx (dueOf c i) in
               if pos < length idx \<and> idx ! pos = dueOf c i then deleteAt pos idx else idx)
         else dPendingDue (txD t)) ((dCommissions (txD t))(i \<mapsto> x))"
  proof (cases "\<not> dueTracked ct \<and> cAvailableAt c \<noteq> 0")
    case True
    then show ?thesis using 1 dueIndex_remove [OF storeWf_due [OF wf] 1(1), of x] by (simp add: waiting_def Let_def)
  next
    case False
    \<comment> \<open>a state that keeps its date is only entered from another one\<close>
    have "dueTracked cf" if "dueTracked ct" using that 1(4)
      by (cases cf) (auto simp: dueTracked_def CanTransitionCommission_iff)
    then have "waiting x = waiting c" using False 1 by (auto simp: waiting_def)
    then have "dueIndex (dPendingDue (txD t)) ((dCommissions (txD t))(i \<mapsto> x))"
      using 1 dueIndex_same [OF storeWf_due [OF wf] 1(1), of x] by (simp add: dueOf_def)
    then show ?thesis unfolding if_not_P [OF False] .
  qed
  show ?thesis unfolding 1(6) using storeWf_setCommission [OF wf 1(1) same due] .
qed

interpretation wf_inv: tx_invariant "\<lambda>t. storeWf (txD t)"
  by unfold_locales
    (rule keeps_dataI; blast intro: storeWf_PutAgent storeWf_PutBinding storeWf_PutAccount storeWf_IncrementAccount
      storeWf_AppendCommission storeWf_SetCommissionAvailableAt storeWf_SetCommissionReversedAmount
      storeWf_TransitionCommission storeWf_AppendRefund storeWf_AppendLedger storeWf_AppendWithdrawal
      storeWf_TransitionWithdrawal writer_Inl)+

subsection \<open>History\<close>

text \<open>
  \<open>grewFrom d0 d\<close>: nothing recorded in \<open>d0\<close> is lost or rewritten in \<open>d\<close>. Ledger entries and refund
  vouchers are immutable; a commission keeps its facts, moves along legal transitions, and its
  settlement date is fixed once set; a withdrawal keeps its amounts and moves along legal
  transitions; idempotency keys stay taken; versions never fall, and a row whose version is
  unchanged is unchanged (what optimistic locking relies on).
\<close>

definition commissionGrew :: "commission \<Rightarrow> commission \<Rightarrow> bool" where
  "commissionGrew c c' \<longleftrightarrow> sameCommission c c' \<and> CanTransitionCommission\<^sup>*\<^sup>* (cState c) (cState c') \<and>
     (cAvailableAt c \<noteq> 0 \<longrightarrow> cAvailableAt c' = cAvailableAt c) \<and> cVersion c \<le> cVersion c' \<and>
     (cVersion c' = cVersion c \<longrightarrow> c' = c)"

definition withdrawalGrew :: "withdrawal \<Rightarrow> withdrawal \<Rightarrow> bool" where
  "withdrawalGrew w w' \<longleftrightarrow> wID w' = wID w \<and> wKey w' = wKey w \<and> wIdemKey w' = wIdemKey w \<and>
     wAmount w' = wAmount w \<and> wFee w' = wFee w \<and> wRealAmount w' = wRealAmount w \<and> wAppliedAt w' = wAppliedAt w \<and>
     CanTransitionWithdrawal\<^sup>*\<^sup>* (wState w) (wState w') \<and> wVersion w \<le> wVersion w' \<and>
     (wVersion w' = wVersion w \<longrightarrow> w' = w)"

definition rowsGrew :: "('v \<Rightarrow> 'v \<Rightarrow> bool) \<Rightarrow> ('k \<rightharpoonup> 'v) \<Rightarrow> ('k \<rightharpoonup> 'v) \<Rightarrow> bool" where
  "rowsGrew R m0 m \<longleftrightarrow> (\<forall>k v. m0 k = Some v \<longrightarrow> (\<exists>v'. m k = Some v' \<and> R v v'))"

definition grewFrom :: "data \<Rightarrow> data \<Rightarrow> bool" where
  "grewFrom d0 d \<longleftrightarrow> dNextID d0 \<le> dNextID d \<and> rowsGrew commissionGrew (dCommissions d0) (dCommissions d) \<and>
     rowsGrew withdrawalGrew (dWithdrawals d0) (dWithdrawals d) \<and> rowsGrew (=) (dLedger d0) (dLedger d) \<and>
     rowsGrew (=) (dRefunds d0) (dRefunds d) \<and> rowsGrew (=) (dIdem d0) (dIdem d) \<and>
     rowsGrew (=) (dRefundIdem d0) (dRefundIdem d) \<and> rowsGrew (=) (dWithdrawIdem d0) (dWithdrawIdem d) \<and>
     rowsGrew (\<lambda>a a'. agVersion a \<le> agVersion a') (dAgents d0) (dAgents d) \<and>
     rowsGrew (\<lambda>b b'. bVersion b \<le> bVersion b') (dBindings d0) (dBindings d) \<and>
     rowsGrew (\<lambda>a a'. aVersion a \<le> aVersion a') (dAccounts d0) (dAccounts d)"

lemma commissionGrew_refl [simp]: "commissionGrew c c"
  by (simp add: commissionGrew_def)

lemma withdrawalGrew_refl [simp]: "withdrawalGrew w w"
  by (simp add: withdrawalGrew_def)

lemma commissionGrew_trans: "transp commissionGrew"
  by (rule transpI) (auto simp: commissionGrew_def intro: sameCommission_trans rtranclp_trans)

lemma withdrawalGrew_trans: "transp withdrawalGrew"
  by (rule transpI) (auto simp: withdrawalGrew_def intro: rtranclp_trans)

lemma rowsGrew_refl: "(\<And>v. R v v) \<Longrightarrow> rowsGrew R m m"
  by (simp add: rowsGrew_def)

lemma rowsGrew_new: "rowsGrew R m0 m \<Longrightarrow> m k = None \<Longrightarrow> rowsGrew R m0 (m(k \<mapsto> v))"
  by (fastforce simp: rowsGrew_def)

lemma rowsGrew_set:
  assumes "rowsGrew R m0 m" "m k = Some w" "R w v" "transp R"
  shows "rowsGrew R m0 (m(k \<mapsto> v))"
  using assms unfolding rowsGrew_def by (fastforce dest: transpD)

lemma grewFrom_refl: "grewFrom d d"
  by (simp add: grewFrom_def rowsGrew_refl)

text \<open>The invariant is well-formedness with growth from a fixed starting point.\<close>

definition historyInv :: "data \<Rightarrow> data \<Rightarrow> bool" where
  "historyInv d0 d \<longleftrightarrow> storeWf d \<and> grewFrom d0 d"

lemma rowsGrew_AppendCommission:
  assumes inv: "historyInv d0 (txD t)" and run: "AppendCommission c t = (Inr x, t')"
  shows "historyInv d0 (txD t')"
proof -
  note eff = AppendCommission_Inr [OF run]
  have wf: "storeWf (txD t)" using inv by (simp add: historyInv_def)
  have "dCommissions (txD t) (cID x) = None" using idsUpTo_fresh [OF storeWf_parts(7) [OF wf]] eff(2) by simp
  moreover have "dIdem (txD t) (commissionRef x) = None" using eff(2,4) by (simp add: commissionRef_def)
  moreover have "storeWf (txD t')" using storeWf_AppendCommission [OF wf run] .
  ultimately show ?thesis using inv eff by (auto simp: historyInv_def grewFrom_def addCommission_def intro: rowsGrew_new)
qed

lemma rowsGrew_AppendRefund:
  assumes inv: "historyInv d0 (txD t)" and run: "AppendRefund r t = (Inr x, t')"
  shows "historyInv d0 (txD t')"
proof -
  note eff = AppendRefund_Inr [OF run]
  have wf: "storeWf (txD t)" using inv by (simp add: historyInv_def)
  have "dRefunds (txD t) (rfID x) = None" using idsUpTo_fresh [OF storeWf_parts(10) [OF wf]] eff(2) by simp
  moreover have "dRefundIdem (txD t) (refundRef x) = None" using eff(2,5) by (simp add: refundRef_def)
  moreover have "storeWf (txD t')" using storeWf_AppendRefund [OF wf run] .
  ultimately show ?thesis using inv eff by (auto simp: historyInv_def grewFrom_def addRefund_def intro: rowsGrew_new)
qed

lemma rowsGrew_AppendLedger:
  assumes inv: "historyInv d0 (txD t)" and run: "AppendLedger e t = (Inr x, t')"
  shows "historyInv d0 (txD t')"
proof -
  note eff = AppendLedger_Inr [OF run]
  have wf: "storeWf (txD t)" using inv by (simp add: historyInv_def)
  have "dLedger (txD t) (leID x) = None" using idsUpTo_fresh [OF storeWf_parts(8) [OF wf]] eff(2) by simp
  moreover have "storeWf (txD t')" using storeWf_AppendLedger [OF wf run] .
  ultimately show ?thesis using inv eff by (auto simp: historyInv_def grewFrom_def addLedger_def intro: rowsGrew_new)
qed

lemma rowsGrew_AppendWithdrawal:
  assumes inv: "historyInv d0 (txD t)" and run: "AppendWithdrawal w t = (Inr x, t')"
  shows "historyInv d0 (txD t')"
proof -
  note eff = AppendWithdrawal_Inr [OF run]
  have wf: "storeWf (txD t)" using inv by (simp add: historyInv_def)
  have "dWithdrawals (txD t) (wID x) = None" using idsUpTo_fresh [OF storeWf_parts(9) [OF wf]] eff(2) by simp
  moreover have "dWithdrawIdem (txD t) (withdrawalRef x) = None" using eff(2,4) by (simp add: withdrawalRef_def)
  moreover have "storeWf (txD t')" using storeWf_AppendWithdrawal [OF wf run] .
  ultimately show ?thesis using inv eff by (auto simp: historyInv_def grewFrom_def addWithdrawal_def intro: rowsGrew_new)
qed

text \<open>Rows changed in place: versions rise by one, commissions and withdrawals grow.\<close>

lemma rowsGrew_bump:
  assumes "rowsGrew R m0 m" "\<And>w. m k = Some w \<Longrightarrow> R w v" "\<And>a b c. R a b \<Longrightarrow> R b c \<Longrightarrow> R a c"
  shows "rowsGrew R m0 (m(k \<mapsto> v))"
  using assms by (fastforce simp: rowsGrew_def)

lemma rowsGrew_PutAgent:
  assumes inv: "historyInv d0 (txD t)" and run: "PutAgent a t = (Inr x, t')"
  shows "historyInv d0 (txD t')"
proof -
  note eff = PutAgent_Inr [OF run]
  have "rowsGrew (\<lambda>a a'. agVersion a \<le> agVersion a') (dAgents d0) ((dAgents (txD t))(agKey a \<mapsto> x))"
    using inv eff by (intro rowsGrew_bump) (auto simp: historyInv_def grewFrom_def)
  then show ?thesis using inv eff storeWf_PutAgent [OF _ run] by (simp add: historyInv_def grewFrom_def)
qed

lemma rowsGrew_PutBinding:
  assumes inv: "historyInv d0 (txD t)" and run: "PutBinding b t = (Inr x, t')"
  shows "historyInv d0 (txD t')"
proof -
  note eff = PutBinding_Inr [OF run]
  have "rowsGrew (\<lambda>b b'. bVersion b \<le> bVersion b') (dBindings d0) ((dBindings (txD t))(bBuyer b \<mapsto> x))"
    using inv eff by (intro rowsGrew_bump) (auto simp: historyInv_def grewFrom_def)
  then show ?thesis using inv eff storeWf_PutBinding [OF _ run] by (simp add: historyInv_def grewFrom_def)
qed

lemma rowsGrew_addAccount:
  assumes "grewFrom d0 d" "\<And>w. dAccounts d (aKey a) = Some w \<Longrightarrow> aVersion w \<le> aVersion a + 1"
  shows "grewFrom d0 (addAccount a d)"
proof -
  have "rowsGrew (\<lambda>a a'. aVersion a \<le> aVersion a') (dAccounts d0) ((dAccounts d)(aKey a \<mapsto> a\<lparr>aVersion := aVersion a + 1\<rparr>))"
    using assms by (intro rowsGrew_bump) (auto simp: grewFrom_def)
  then show ?thesis using assms(1) by (simp add: grewFrom_def addAccount_def)
qed

lemma rowsGrew_PutAccount:
  assumes inv: "historyInv d0 (txD t)" and run: "PutAccount acc t = (Inr x, t')"
  shows "historyInv d0 (txD t')"
  using inv storeWf_PutAccount [OF _ run] PutAccount_Inr [OF run] rowsGrew_addAccount [of d0 "txD t" acc]
  by (auto simp: historyInv_def)

lemma rowsGrew_IncrementAccount:
  assumes inv: "historyInv d0 (txD t)" and run: "IncrementAccount delta t = (Inr x, t')"
  shows "historyInv d0 (txD t')"
  using run
proof (cases rule: IncrementAccount_Inr)
  case (1 a)
  have "aKey a = dKey delta" "aVersion a = aVersion (accountOf (txD t) (dKey delta))"
    using deltaApply_InrD(7,8) [OF 1(2)] by simp_all
  then have "grewFrom d0 (addAccount a (txD t))"
    using inv by (intro rowsGrew_addAccount) (auto simp: historyInv_def accountOf_def)
  then show ?thesis using 1(4) inv storeWf_IncrementAccount [OF _ run] by (simp add: historyInv_def)
qed

lemma rowsGrew_setCommission:
  assumes "historyInv d0 d" "dCommissions d i = Some c" "commissionGrew c c'"
  shows "grewFrom d0 ((setCommission i c' d)\<lparr>dPendingDue := due\<rparr>)"
proof -
  have "rowsGrew commissionGrew (dCommissions d0) ((dCommissions d)(i \<mapsto> c'))"
    by (rule rowsGrew_set [where R = commissionGrew and m = "dCommissions d" and k = i, OF _ assms(2,3) commissionGrew_trans]) (use assms(1) in \<open>simp_all add: historyInv_def grewFrom_def\<close>)
  then show ?thesis using assms(1) by (simp add: historyInv_def grewFrom_def setCommission_def)
qed

lemma rowsGrew_SetCommissionAvailableAt:
  assumes inv: "historyInv d0 (txD t)" and run: "SetCommissionAvailableAt i at v t = (Inr x, t')"
  shows "historyInv d0 (txD t')"
  using run
proof (cases rule: SetCommissionAvailableAt_Inr)
  case (set c)
  then have "commissionGrew c x" by (simp add: commissionGrew_def)
  from rowsGrew_setCommission [OF inv set(1) this] show ?thesis
    using inv storeWf_SetCommissionAvailableAt [OF _ run] by (simp add: historyInv_def set(5))
qed (use inv in simp)

lemma rowsGrew_SetCommissionReversedAmount:
  assumes inv: "historyInv d0 (txD t)" and run: "SetCommissionReversedAmount i m v t = (Inr x, t')"
  shows "historyInv d0 (txD t')"
  using run
proof (cases rule: SetCommissionReversedAmount_Inr)
  case (set c)
  then have "commissionGrew c x" by (simp add: commissionGrew_def)
  from rowsGrew_setCommission [OF inv set(1) this, of "dPendingDue (txD t)"] show ?thesis
    using inv storeWf_SetCommissionReversedAmount [OF _ run] by (simp add: historyInv_def set(6) setCommission_def)
qed (use inv in simp)

lemma rowsGrew_TransitionCommission:
  assumes inv: "historyInv d0 (txD t)" and run: "TransitionCommission i cf ct v t = (Inr x, t')"
  shows "historyInv d0 (txD t')"
  using run
proof (cases rule: TransitionCommission_Inr)
  case (1 c)
  then have "commissionGrew c x" by (auto simp: commissionGrew_def)
  from rowsGrew_setCommission [OF inv 1(1) this] show ?thesis
    using inv storeWf_TransitionCommission [OF _ run] by (simp add: historyInv_def 1(6))
qed

lemma rowsGrew_TransitionWithdrawal:
  assumes inv: "historyInv d0 (txD t)" and run: "TransitionWithdrawal i sf st v tr t = (Inr x, t')"
  shows "historyInv d0 (txD t')"
  using run
proof (cases rule: TransitionWithdrawal_Inr)
  case (1 w)
  then have w: "withdrawalGrew w x" by (auto simp: withdrawalGrew_def)
  have "rowsGrew withdrawalGrew (dWithdrawals d0) ((dWithdrawals (txD t))(i \<mapsto> x))"
    by (rule rowsGrew_set [where R = withdrawalGrew and m = "dWithdrawals (txD t)" and k = i, OF _ 1(1) w withdrawalGrew_trans]) (use inv in \<open>simp_all add: historyInv_def grewFrom_def\<close>)
  then show ?thesis using inv storeWf_TransitionWithdrawal [OF _ run] 1(6) by (simp add: historyInv_def grewFrom_def)
qed

interpretation history_inv: tx_invariant "\<lambda>t. historyInv d0 (txD t)" for d0
  by unfold_locales
    (rule keeps_dataI; blast intro: rowsGrew_PutAgent rowsGrew_PutBinding rowsGrew_PutAccount rowsGrew_IncrementAccount
      rowsGrew_AppendCommission rowsGrew_SetCommissionAvailableAt rowsGrew_SetCommissionReversedAmount
      rowsGrew_TransitionCommission rowsGrew_AppendRefund rowsGrew_AppendLedger rowsGrew_AppendWithdrawal
      rowsGrew_TransitionWithdrawal writer_Inl)+

end
