(* ===== verification/MemReader.thy ===== *)
theory MemReader
  imports TxInvariant
begin

text \<open>
  store/memory/reader.go and the read half of store/memory/withdraw.go, with the page sizes of
  store.go: lookups, keyset pages, the per-tenant settlement query answered by binary search,
  and the cross-tenant selection by a bounded heap. A read is a function of the data.
\<close>

subsection \<open>Page sizes\<close>

definition DefaultPageLimit :: int where "DefaultPageLimit = 100"
definition MaxPageLimit :: int where "MaxPageLimit = 1000"

definition normalizeLimit :: "int \<Rightarrow> int" where
  "normalizeLimit limit =
     (if limit \<le> 0 then DefaultPageLimit else if limit > MaxPageLimit then MaxPageLimit else limit)"

record page =
  pgAfterID :: int
  pgLimit :: int

record account_page =
  apAfterUserID :: int
  apLimit :: int

record commission_query =
  cqPage :: page
  cqStates :: "commission_state list"

text \<open>A business type of zero, which means no filter, is None.\<close>

record ledger_query =
  lqPage :: page
  lqBizType :: "ledger_biz_type option"

text \<open>
  The collecting loop of every paged read: \<open>pick\<close> is the body's \<open>continue\<close> conditions with the row
  they leave, \<open>n\<close> (at least one) the room left in \<open>out\<close> before the \<open>break\<close>.
\<close>

fun collectRows :: "('i \<Rightarrow> 'v option) \<Rightarrow> nat \<Rightarrow> 'i list \<Rightarrow> 'v list" where
  "collectRows pick n [] = []"
| "collectRows pick n (i # is) =
     (case pick i of
        None \<Rightarrow> collectRows pick n is
      | Some v \<Rightarrow> if n \<le> 1 then [v] else v # collectRows pick (n - 1) is)"

subsection \<open>Lookups\<close>

definition rdAgent :: "user_key \<Rightarrow> data \<Rightarrow> gerror + agent" where
  "rdAgent k d = (case dAgents d k of None \<Rightarrow> Inl ErrNotFound | Some a \<Rightarrow> Inr a)"

definition rdBinding :: "user_key \<Rightarrow> data \<Rightarrow> gerror + binding" where
  "rdBinding k d = (case dBindings d k of None \<Rightarrow> Inl ErrNotFound | Some b \<Rightarrow> Inr b)"

definition rdAccount :: "user_key \<Rightarrow> data \<Rightarrow> gerror + account" where
  "rdAccount k d = Inr (accountOf d k)"

definition rdCommission :: "int \<Rightarrow> data \<Rightarrow> gerror + commission" where
  "rdCommission i d = (case dCommissions d i of None \<Rightarrow> Inl ErrNotFound | Some c \<Rightarrow> Inr c)"

definition rdWithdrawalByID :: "int \<Rightarrow> data \<Rightarrow> gerror + withdrawal" where
  "rdWithdrawalByID i d = (case dWithdrawals d i of None \<Rightarrow> Inl ErrNotFound | Some w \<Rightarrow> Inr w)"

definition rdWithdrawalByIdemKey :: "int \<Rightarrow> string \<Rightarrow> data \<Rightarrow> gerror + withdrawal" where
  "rdWithdrawalByIdemKey tenantID idemKey d =
     (if idemKey = [] then Inl (FieldError ''idem_key'')
      else case dWithdrawIdem d (IdemRef tenantID idemKey) of None \<Rightarrow> Inl ErrNotFound | Some i \<Rightarrow>
        (case dWithdrawals d i of None \<Rightarrow> Inl ErrNotFound | Some w \<Rightarrow> Inr w))"

subsection \<open>Lists\<close>

definition rdCommissionsByOrder :: "order_key \<Rightarrow> data \<Rightarrow> gerror + commission list" where
  "rdCommissionsByOrder k d = Inr (rowsAt (dCommissions d) (slot (dByOrder d) k))"

definition rdRefundsByOrder :: "order_key \<Rightarrow> data \<Rightarrow> gerror + refund list" where
  "rdRefundsByOrder k d = Inr (rowsAt (dRefunds d) (slot (dRefundsByOrder d) k))"

definition rdCommissionsByAgent :: "user_key \<Rightarrow> commission_query \<Rightarrow> data \<Rightarrow> gerror + commission list" where
  "rdCommissionsByAgent k q d = Inr (collectRows
     (\<lambda>i. if i \<le> pgAfterID (cqPage q) then None
          else case dCommissions d i of None \<Rightarrow> None | Some c \<Rightarrow>
            if cqStates q \<noteq> [] \<and> cState c \<notin> set (cqStates q) then None else Some c)
     (nat (normalizeLimit (pgLimit (cqPage q)))) (slot (dByAgent d) k))"

definition rdCommissionsByTenant :: "int \<Rightarrow> page \<Rightarrow> data \<Rightarrow> gerror + commission list" where
  "rdCommissionsByTenant tenantID p d =
     (let ids = dCommissionIDs d;
          start = sortSearch (length ids) (\<lambda>i. ids ! i > pgAfterID p)
      in Inr (collectRows
           (\<lambda>i. case dCommissions d i of None \<Rightarrow> None | Some c \<Rightarrow>
              if okTenantID (cKey c) \<noteq> tenantID then None else Some c)
           (nat (normalizeLimit (pgLimit p))) (drop start ids)))"

definition collectLedger :: "data \<Rightarrow> int list \<Rightarrow> ledger_query \<Rightarrow> ledger_entry list" where
  "collectLedger d ids q = collectRows
     (\<lambda>i. if i \<le> pgAfterID (lqPage q) then None
          else case dLedger d i of None \<Rightarrow> None | Some e \<Rightarrow>
            (case lqBizType q of None \<Rightarrow> Some e | Some t \<Rightarrow> if leBizType e \<noteq> t then None else Some e))
     (nat (normalizeLimit (pgLimit (lqPage q)))) ids"

definition rdLedgerEntries :: "user_key \<Rightarrow> ledger_query \<Rightarrow> data \<Rightarrow> gerror + ledger_entry list" where
  "rdLedgerEntries k q d = Inr (collectLedger d (slot (dLedgerByUser d) k) q)"

definition rdLedgerByTenant :: "int \<Rightarrow> page \<Rightarrow> data \<Rightarrow> gerror + ledger_entry list" where
  "rdLedgerByTenant tenantID p d =
     Inr (collectLedger d (slot (dLedgerByTenant d) tenantID) \<lparr>lqPage = p, lqBizType = None\<rparr>)"

definition rdAccountsByTenant :: "int \<Rightarrow> account_page \<Rightarrow> data \<Rightarrow> gerror + account list" where
  "rdAccountsByTenant tenantID p d =
     (let idx = dAccountIDs d;
          start = sortSearch (length idx) (\<lambda>i.
            if ukTenantID (idx ! i) \<noteq> tenantID then ukTenantID (idx ! i) \<ge> tenantID
            else ukUserID (idx ! i) > apAfterUserID p)
      in Inr (collectRows (dAccounts d) (nat (normalizeLimit (apLimit p)))
           (takeWhile (\<lambda>k. ukTenantID k = tenantID) (drop start idx))))"

definition rdWithdrawalsByTenant :: "int \<Rightarrow> page \<Rightarrow> data \<Rightarrow> gerror + withdrawal list" where
  "rdWithdrawalsByTenant tenantID p d =
     (if tenantID < 0 then Inl (FieldError ''tenant_id'')
      else Inr (collectRows
        (\<lambda>i. if i \<le> pgAfterID p then None
             else case dWithdrawals d i of None \<Rightarrow> None | Some w \<Rightarrow>
               if ukTenantID (wKey w) \<noteq> tenantID then None else Some w)
        (nat (normalizeLimit (pgLimit p))) (dWithdrawalIDs d)))"

text \<open>
  The state counts. The commission count ranges over the Go map itself, whose order is
  unspecified and does not matter; a state that was never counted has no key in the result.
\<close>

definition countKey :: "nat \<Rightarrow> nat option" where
  "countKey n = (if n = 0 then None else Some n)"

definition rdCountCommissionsByState :: "int \<Rightarrow> data \<Rightarrow> gerror + (commission_state \<rightharpoonup> nat)" where
  "rdCountCommissionsByState tenantID d =
     Inr (\<lambda>s. countKey (card {i. \<exists>c. dCommissions d i = Some c \<and> okTenantID (cKey c) = tenantID \<and> cState c = s}))"

definition rdCountWithdrawalsByState :: "int \<Rightarrow> data \<Rightarrow> gerror + (withdrawal_state \<rightharpoonup> nat)" where
  "rdCountWithdrawalsByState tenantID d =
     Inr (\<lambda>s. countKey (length (filter (\<lambda>w. ukTenantID (wKey w) = tenantID \<and> wState w = s)
       (rowsAt (dWithdrawals d) (dWithdrawalIDs d)))))"

subsection \<open>Due commissions of a tenant\<close>

text \<open>The freshness test: an index entry counts only when it agrees with its commission.\<close>

definition freshRow :: "data \<Rightarrow> due_ref \<Rightarrow> commission option" where
  "freshRow d r =
     (case dCommissions d (duID r) of None \<Rightarrow> None | Some c \<Rightarrow>
      if cState c \<noteq> CommissionPending \<or> cAvailableAt c \<noteq> duAt r then None else Some c)"

definition rdDueCommissions :: "int \<Rightarrow> gotime \<Rightarrow> int \<Rightarrow> data \<Rightarrow> gerror + commission list" where
  "rdDueCommissions tenantID dueAt limit0 d =
     (let limit = (if limit0 \<le> 0 then DefaultPageLimit else limit0);
          idx = dPendingDue d;
          lo = sortSearch (length idx) (\<lambda>i. duTenantID (idx ! i) \<ge> tenantID);
          hi = lo + sortSearch (length idx - lo) (\<lambda>i. let e = idx ! (lo + i) in
                 duTenantID e \<noteq> tenantID \<or> duAt e > dueAt)
      in Inr (collectRows (freshRow d) (nat limit) (take (hi - lo) (drop lo idx))))"

subsection \<open>Due work across tenants\<close>

text \<open>The heap comparison: the later date, or the larger id at the same date, is worse.\<close>

definition worse :: "due_ref \<Rightarrow> due_ref \<Rightarrow> bool" where
  "worse a b = (if duAt a \<noteq> duAt b then duAt a > duAt b else duID a > duID b)"

function siftDownWorstFirstFrom :: "nat \<Rightarrow> due_ref list \<Rightarrow> due_ref list" where
  "siftDownWorstFirstFrom i refs =
     (let l = 2 * i + 1; rr = 2 * i + 2;
          g1 = (if l < length refs \<and> worse (refs ! l) (refs ! i) then l else i);
          g2 = (if rr < length refs \<and> worse (refs ! rr) (refs ! g1) then rr else g1)
      in if g2 = i then refs
         else siftDownWorstFirstFrom g2 (refs[i := refs ! g2, g2 := refs ! i]))"
  by pat_completeness auto
termination
  by (relation "measure (\<lambda>(i, refs). length refs - i)") (auto simp: Let_def split: if_splits)

declare siftDownWorstFirstFrom.simps [simp del]

definition siftDownWorstFirst :: "due_ref list \<Rightarrow> due_ref list" where
  "siftDownWorstFirst refs = siftDownWorstFirstFrom 0 refs"

definition heapifyWorstFirst :: "due_ref list \<Rightarrow> due_ref list" where
  "heapifyWorstFirst refs = fold siftDownWorstFirstFrom (rev [0..<length refs div 2]) refs"

definition dueWorkStep :: "data \<Rightarrow> gotime \<Rightarrow> nat \<Rightarrow> due_ref \<Rightarrow> due_ref list \<Rightarrow> due_ref list" where
  "dueWorkStep d dueAt limit ref heap =
     (if duAt ref > dueAt then heap
      else if freshRow d ref = None then heap
      else if length heap < limit
      then (let heap' = heap @ [ref] in if length heap' = limit then heapifyWorstFirst heap' else heap')
      else if worse (heap ! 0) ref then siftDownWorstFirst (heap[0 := ref])
      else heap)"

text \<open>
  \<open>sort.Slice\<close> by date and id: the pair is a total order on the rows, so the result is the one
  sorted arrangement.
\<close>

definition rdDueWork :: "gotime \<Rightarrow> int \<Rightarrow> data \<Rightarrow> gerror + commission list" where
  "rdDueWork dueAt limit0 d =
     (let limit = nat (if limit0 \<le> 0 then DefaultPageLimit else limit0);
          heap = fold (dueWorkStep d dueAt limit) (dPendingDue d) []
      in Inr (sort_key (\<lambda>c. DueRef 0 (cAvailableAt c) (cID c)) (rowsAt (dCommissions d) (map duID heap))))"

subsection \<open>Lemmas: pages\<close>

lemma collectRows_take: "1 \<le> n \<Longrightarrow> collectRows pick n ids = take n (List.map_filter pick ids)"
proof (induction pick n ids rule: collectRows.induct)
  case (2 pick n i "is")
  then show ?case by (cases "n = 1") (auto simp: List.map_filter_simps take_Cons' split: option.split)
qed (simp add: List.map_filter_simps)

lemma normalizeLimit_range: "1 \<le> normalizeLimit l \<and> normalizeLimit l \<le> MaxPageLimit"
  by (simp add: normalizeLimit_def DefaultPageLimit_def MaxPageLimit_def)

lemma rdAgent_Inr [simp]: "rdAgent k d = Inr a \<longleftrightarrow> dAgents d k = Some a"
  by (auto simp: rdAgent_def split: option.split)

lemma rdBinding_Inr [simp]: "rdBinding k d = Inr a \<longleftrightarrow> dBindings d k = Some a"
  by (auto simp: rdBinding_def split: option.split)

lemma rdCommission_Inr [simp]: "rdCommission i d = Inr c \<longleftrightarrow> dCommissions d i = Some c"
  by (auto simp: rdCommission_def split: option.split)

lemma rdWithdrawalByID_Inr [simp]: "rdWithdrawalByID i d = Inr c \<longleftrightarrow> dWithdrawals d i = Some c"
  by (auto simp: rdWithdrawalByID_def split: option.split)

lemma rd_Inl:
  "rdAgent k d = Inl e \<Longrightarrow> e = ErrNotFound" "rdBinding k d = Inl e \<Longrightarrow> e = ErrNotFound"
  "rdCommission i d = Inl e \<Longrightarrow> e = ErrNotFound" "rdWithdrawalByID i d = Inl e \<Longrightarrow> e = ErrNotFound"
  by (auto simp: rdAgent_def rdBinding_def rdCommission_def rdWithdrawalByID_def split: option.splits)

end
