(* ===== verification/LedgerOps.thy ===== *)
theory LedgerOps
  imports MemReader
begin

text \<open>
  ledger.go: the configured ledger, its construction, the relation operations (agents with their
  depth, buyers with their binding), and the read-only queries.

  A ledger holds its rules, the rate resolver and the eligibility check as functions, the payout
  channel as an optional function, the hash the keys are derived with, and the time of the call:
  the clock stands still during one call. The store is passed explicitly.
\<close>

record ledger =
  lRules :: rules
  lNow :: gotime
  lRates :: "rate_input \<Rightarrow> gerror + rate"
  lElig :: "eligibility_input \<Rightarrow> bool \<times> string"
  lPayout :: "(payout_request \<Rightarrow> string + payout_result) option"
  lRuleVersion :: int
  lDigest :: "string \<Rightarrow> string"

record config =
  cfStore :: "mem_store option"
  cfRules :: rules
  cfNow :: gotime
  cfRateResolver :: "(rate_input \<Rightarrow> gerror + rate) option"
  cfEligibility :: "(eligibility_input \<Rightarrow> bool \<times> string) option"
  cfPayout :: "(payout_request \<Rightarrow> string + payout_result) option"
  cfDigest :: "string \<Rightarrow> string"

definition newLedger :: "config \<Rightarrow> gerror + (ledger \<times> mem_store)" where
  "newLedger cfg =
     (case cfStore cfg of None \<Rightarrow> Inl (FieldError ''store'') | Some st \<Rightarrow>
      let rules = rulesNormalize (cfRules cfg) in
      case rulesValidate rules of Some _ \<Rightarrow> Inl ErrInvalidConfig | None \<Rightarrow>
      Inr (\<lparr>lRules = rules, lNow = cfNow cfg,
            lRates = (case cfRateResolver cfg of None \<Rightarrow> defaultResolveRate | Some f \<Rightarrow> f),
            lElig = (case cfEligibility cfg of None \<Rightarrow> defaultEligible | Some f \<Rightarrow> f),
            lPayout = cfPayout cfg, lRuleVersion = rulesVersion (cfDigest cfg) rules,
            lDigest = cfDigest cfg\<rparr>, st))"

subsection \<open>Agents\<close>

text \<open>The walk to the root; every round raises the depth, which \<open>MaxLevels\<close> bounds.\<close>

function depthFrom :: "data \<Rightarrow> user_key \<Rightarrow> int \<Rightarrow> int \<Rightarrow> int set \<Rightarrow> gerror + int" where
  "depthFrom d key depth cur seen =
     (if cur = 0 then Inr depth
      else if cur = ukUserID key then Inl ErrCycle
      else if cur \<in> seen then Inl ErrCycle
      else if depth + 1 > MaxLevels then Inl ErrDepthExceeded
      else case rdAgent (UserKey (ukTenantID key) cur) d of
          Inl e \<Rightarrow> Inl (if e = ErrNotFound then FieldError ''parent_id'' else e)
        | Inr parent \<Rightarrow> depthFrom d key (depth + 1) (agParentID parent) (insert cur seen))"
  by pat_completeness auto
termination
  by (relation "measure (\<lambda>(d, key, depth, cur, seen). nat (MaxLevels + 1 - depth))") auto

declare depthFrom.simps [simp del]

definition resolveDepth :: "user_key \<Rightarrow> int \<Rightarrow> data \<Rightarrow> gerror + int" where
  "resolveDepth key parentID d = depthFrom d key 1 parentID {}"

definition bindAgentBody :: "ledger \<Rightarrow> bind_agent_request \<Rightarrow> (txn, agent) step" where
  "bindAgentBody l req =
     (let key = UserKey (baTenantID req) (baUserID req) in
      attempt (rd (rdAgent key)) (\<lambda>r. case r of
          Inr cur \<Rightarrow>
            if agParentID cur \<noteq> baParentID req then throw ErrParentAlreadySet
            else PutAgent (cur\<lparr>agStatus := baStatus req, agJoinType := baJoinType req,
                   agRateOverrideBP := baRateOverrideBP req, agUpdatedAt := lNow l\<rparr>)
        | Inl e \<Rightarrow>
            if e \<noteq> ErrNotFound then throw e
            else andThen (rd (resolveDepth key (baParentID req))) (\<lambda>depth.
              PutAgent \<lparr>agKey = key, agParentID = baParentID req, agDepth = depth,
                agStatus = baStatus req, agJoinType = baJoinType req,
                agRateOverrideBP = baRateOverrideBP req, agCreatedAt = lNow l,
                agUpdatedAt = lNow l, agVersion = 0\<rparr>)))"

definition BindAgent :: "ledger \<Rightarrow> bind_agent_request \<Rightarrow> (mem_store, agent) step" where
  "BindAgent l req =
     (if baTenantID req < 0 then throw (FieldError ''tenant_id'')
      else if baUserID req \<le> 0 then throw (FieldError ''user_id'')
      else if baParentID req < 0 then throw (FieldError ''parent_id'')
      else if baParentID req = baUserID req then throw (FieldError ''parent_id'')
      else if \<not> joinTypeValid (baJoinType req) then throw (FieldError ''join_type'')
      else if \<not> agentStatusValid (baStatus req) then throw (FieldError ''status'')
      else if (case baRateOverrideBP req of None \<Rightarrow> False | Some r \<Rightarrow> \<not> rateValid r)
        then throw (FieldError ''rate_override_bp'')
      else Update (bindAgentBody l req))"

subsection \<open>Buyers\<close>

text \<open>\<open>t.AddDate(0, 0, n)\<close> of a UTC time.\<close>

definition addDays :: "gotime \<Rightarrow> int \<Rightarrow> gotime" where
  "addDays at n = at + n * 86400000000000"

definition expiryFor :: "ledger \<Rightarrow> gotime \<Rightarrow> gotime" where
  "expiryFor l boundAt =
     (if rBindExpireDays (lRules l) \<le> 0 then 0 else addDays boundAt (rBindExpireDays (lRules l)))"

text \<open>The transaction returns the binding and whether it is locked to another agent.\<close>

definition bindBuyerBody :: "ledger \<Rightarrow> bind_buyer_request \<Rightarrow> gotime \<Rightarrow> (txn, binding \<times> bool) step" where
  "bindBuyerBody l req boundAt =
     (let agentID = bbAgentUserID req; buyer = UserKey (bbTenantID req) (bbBuyerUserID req) in
      attempt (rd (rdAgent (UserKey (bbTenantID req) agentID))) (\<lambda>ra. case ra of
        Inl e \<Rightarrow> throw (if e = ErrNotFound then FieldError ''agent_user_id'' else e)
      | Inr agent \<Rightarrow>
          if agStatus agent \<noteq> AgentActive then throw (FieldError ''agent_user_id'')
          else if agentID = bbBuyerUserID req then throw (FieldError ''agent_user_id'')
          else attempt (rd (rdBinding buyer)) (\<lambda>rb. case rb of
            Inr cur \<Rightarrow>
              if bindingEffective cur boundAt then ret (cur, bAgentUserID cur \<noteq> agentID)
              else andThen (PutBinding (cur\<lparr>bAgentUserID := agentID, bSource := bbSource req,
                     bSourceRef := bbSourceRef req, bBoundAt := boundAt,
                     bExpireAt := expiryFor l boundAt, bActive := True, bReboundFrom := bID cur\<rparr>))
                   (\<lambda>b. ret (b, False))
          | Inl e \<Rightarrow>
              if e \<noteq> ErrNotFound then throw e
              else andThen (PutBinding \<lparr>bID = 0, bBuyer = buyer, bAgentUserID = agentID, bSource = bbSource req,
                     bSourceRef = bbSourceRef req, bBoundAt = boundAt, bExpireAt = expiryFor l boundAt,
                     bActive = True, bReboundFrom = 0, bVersion = 0\<rparr>)
                   (\<lambda>b. ret (b, False)))))"

text \<open>Go returns the standing binding beside \<open>ErrBindingLocked\<close>; the flag carries that case.\<close>

definition BindBuyer :: "ledger \<Rightarrow> bind_buyer_request \<Rightarrow> (mem_store, binding \<times> bool) step" where
  "BindBuyer l req =
     (case userKeyValidate (UserKey (bbTenantID req) (bbBuyerUserID req)) of Some e \<Rightarrow> throw e | None \<Rightarrow>
      if bbAgentUserID req \<le> 0 then throw (FieldError ''agent_user_id'')
      else if \<not> bindSourceValid (bbSource req) then throw (FieldError ''source'')
      else if length (bbSourceRef req) > MaxOrderItemIDLen then throw (FieldError ''source_ref'')
      else
        let boundAt = (if bbBoundAt req = 0 then lNow l else bbBoundAt req)
        in Update (bindBuyerBody l req boundAt))"

subsection \<open>Queries\<close>

definition Balance :: "int \<Rightarrow> int \<Rightarrow> (mem_store, account) step" where
  "Balance tenantID userID =
     (case userKeyValidate (UserKey tenantID userID) of Some e \<Rightarrow> throw e
      | None \<Rightarrow> View (rdAccount (UserKey tenantID userID)))"

definition AgentOf :: "int \<Rightarrow> int \<Rightarrow> (mem_store, agent) step" where
  "AgentOf tenantID userID =
     (case userKeyValidate (UserKey tenantID userID) of Some e \<Rightarrow> throw e
      | None \<Rightarrow> View (rdAgent (UserKey tenantID userID)))"

definition CommissionsByOrder :: "int \<Rightarrow> string \<Rightarrow> (mem_store, commission list) step" where
  "CommissionsByOrder tenantID orderID =
     (case orderKeyValidate (OrderKey tenantID orderID) of Some e \<Rightarrow> throw e
      | None \<Rightarrow> View (rdCommissionsByOrder (OrderKey tenantID orderID)))"

definition CommissionsByAgent :: "int \<Rightarrow> int \<Rightarrow> commission_query \<Rightarrow> (mem_store, commission list) step" where
  "CommissionsByAgent tenantID userID q =
     (case userKeyValidate (UserKey tenantID userID) of Some e \<Rightarrow> throw e
      | None \<Rightarrow> View (rdCommissionsByAgent (UserKey tenantID userID) q))"

definition LedgerEntries :: "int \<Rightarrow> int \<Rightarrow> ledger_query \<Rightarrow> (mem_store, ledger_entry list) step" where
  "LedgerEntries tenantID userID q =
     (case userKeyValidate (UserKey tenantID userID) of Some e \<Rightarrow> throw e
      | None \<Rightarrow> View (rdLedgerEntries (UserKey tenantID userID) q))"

subsection \<open>Every invariant of the store survives\<close>

context tx_bindings
begin

lemma keeps_bindBuyer: "keeps inv (bindBuyerBody l req boundAt)"
  unfolding bindBuyerBody_def Let_def by (intro hoare_rules keeps_PutBinding)

end

context tx_invariant
begin

lemma keeps_bindAgent: "keeps inv (bindAgentBody l req)"
  unfolding bindAgentBody_def Let_def by (intro hoare_rules keeps_PutAgent)

end

end
