(* ===== verification/SelfCheck.thy ===== *)
theory SelfCheck
  imports LedgerOps "HOL-Library.AList" "HOL-Library.List_Lexorder" "HOL-Library.Char_ord" "HOL-Library.Product_Lexorder"
begin

text \<open>
  selfcheck.go: the read-only self-check of one tenant. Each invariant is checked by paging through
  the store; a check yields a result with the violations it found. A violation or note is a value
  with the arguments of its message; the prose of the message is dropped. A check can stop with an
  error, and a paging loop may in principle never end: the outcome None.
\<close>

subsection \<open>Results\<close>

datatype violation =
  NegativeBucketOf user_key bucket money
| BalanceWithoutEntries user_key bucket money
| DeltaSumMismatch user_key bucket money money
| TailMismatch user_key bucket int money money
| WithdrawalBizIDNotNumeric int string
| PaidWithoutTime int
| TimeWithoutPaid int withdrawal_state
| NoHoldEntry int
| NoPaidEntry int
| NoRefundEntry int
| WithdrawingMismatch user_key money money
| AccrualBizIDNotNumeric int string
| NoLedgerEntry int string int money
| DanglingEntry int
| CapExceeded order_key string money money money
| ReversedOutOfRange int money money
| ReversedStateMismatch int money money commission_state
| NegativeWithoutLink int money
| ReversesMissing int int
| ReversesNonAccrual int int
| ReversedSumMismatch int money money
| ReversedTooMuch int money money
| EarnedMismatch user_key money money
| ReversedTotalMismatch user_key money money

datatype observation = DebtCarried user_key money bucket

record invariant_result =
  irName :: string
  irOK :: bool
  irChecked :: nat
  irViolations :: "violation list"
  irTotalViolations :: nat
  irNotes :: "observation list"

definition maxViolationsPerCheck :: nat where "maxViolationsPerCheck = 20"

definition newInvariant :: "string \<Rightarrow> invariant_result" where
  "newInvariant name = \<lparr>irName = name, irOK = True, irChecked = 0, irViolations = [], irTotalViolations = 0, irNotes = []\<rparr>"

definition addViolation :: "violation \<Rightarrow> invariant_result \<Rightarrow> invariant_result" where
  "addViolation v r = r\<lparr>irTotalViolations := irTotalViolations r + 1,
     irViolations := (if length (irViolations r) < maxViolationsPerCheck then irViolations r @ [v] else irViolations r),
     irOK := False\<rparr>"

definition addNote :: "observation \<Rightarrow> invariant_result \<Rightarrow> invariant_result" where
  "addNote x r = r\<lparr>irNotes := (if length (irNotes r) < maxViolationsPerCheck then irNotes r @ [x] else irNotes r)\<rparr>"

definition checkedOne :: "invariant_result \<Rightarrow> invariant_result" where
  "checkedOne r = r\<lparr>irChecked := irChecked r + 1\<rparr>"

text \<open>A condition of the check that adds a violation.\<close>

definition flagIf :: "bool \<Rightarrow> violation \<Rightarrow> invariant_result \<Rightarrow> invariant_result" where
  "flagIf b v r = (if b then addViolation v r else r)"

record report =
  rpTenantID :: int
  rpOK :: bool
  rpStoreKind :: string
  rpSchemaIssues :: "string list"
  rpInvariants :: "invariant_result list"
  rpCounters :: "string \<rightharpoonup> nat"
  rpReconciled :: bool

subsection \<open>Paging loops\<close>

type_synonym 'a outcome = "(gerror + 'a) option"

definition okC :: "'a \<Rightarrow> 'a outcome" where
  "okC x = Some (Inr x)"

definition errC :: "gerror \<Rightarrow> 'a outcome" where
  "errC e = Some (Inl e)"

definition bindC :: "'a outcome \<Rightarrow> ('a \<Rightarrow> 'b outcome) \<Rightarrow> 'b outcome" where
  "bindC m f = (case m of None \<Rightarrow> None | Some r \<Rightarrow> (case r of Inl e \<Rightarrow> Some (Inl e) | Inr x \<Rightarrow> f x))"

fun foldC :: "('x \<Rightarrow> 's \<Rightarrow> 's outcome) \<Rightarrow> 'x list \<Rightarrow> 's \<Rightarrow> 's outcome" where
  "foldC f [] s = okC s"
| "foldC f (x # xs) s = bindC (f x s) (foldC f xs)"

text \<open>
  The loop of every check: fetch the page after the anchor, run the body on its rows, stop on an
  empty or short page, and go on after the last row of a full one.
\<close>

partial_function (option) pageLoop ::
  "(int \<Rightarrow> gerror + 'x list) \<Rightarrow> ('x \<Rightarrow> int) \<Rightarrow> ('x \<Rightarrow> 's \<Rightarrow> 's outcome) \<Rightarrow> int \<Rightarrow> 's \<Rightarrow> 's outcome" where
  "pageLoop fetch anchor body after s =
     (case fetch after of
        Inl e \<Rightarrow> Some (Inl e)
      | Inr page \<Rightarrow>
          if page = [] then Some (Inr s)
          else case foldC body page s of
            None \<Rightarrow> None
          | Some r \<Rightarrow> (case r of
              Inl e \<Rightarrow> Some (Inl e)
            | Inr s' \<Rightarrow>
                if int (length page) < MaxPageLimit then Some (Inr s')
                else pageLoop fetch anchor body (anchor (last page)) s'))"

subsection \<open>I1: conservation\<close>

definition accountConservationViolations ::
  "account \<Rightarrow> account \<Rightarrow> ledger_entry option \<Rightarrow> nat \<Rightarrow> bool \<Rightarrow> invariant_result \<Rightarrow> invariant_result" where
  "accountConservationViolations acct sums tail entries allowNegative res =
     (let res1 = (if Settleable acct then res
            else fold (\<lambda>b r.
              if \<not> bucketValue b acct <s 0 then r
              else if allowNegative \<and> b = BucketAvailable then addNote (DebtCarried (aKey acct) (bucketValue b acct) b) r
              else addViolation (NegativeBucketOf (aKey acct) b (bucketValue b acct)) r) AllBuckets res)
      in if entries = 0
         then fold (\<lambda>b. flagIf (bucketValue b acct \<noteq> 0) (BalanceWithoutEntries (aKey acct) b (bucketValue b acct))) AllBuckets res1
         else fold (\<lambda>b r.
              flagIf (bucketAfter b (the tail) \<noteq> bucketValue b acct)
                (TailMismatch (aKey acct) b (leID (the tail)) (bucketAfter b (the tail)) (bucketValue b acct))
              (flagIf (bucketValue b sums \<noteq> bucketValue b acct)
                (DeltaSumMismatch (aKey acct) b (bucketValue b sums) (bucketValue b acct)) r)) AllBuckets res1)"

text \<open>One entry added to the sums, bucket by bucket, with checked additions.\<close>

definition addEntry :: "ledger_entry \<Rightarrow> account \<times> ledger_entry option \<times> nat \<Rightarrow> (account \<times> ledger_entry option \<times> nat) outcome" where
  "addEntry e = (\<lambda>(sums, tail, entries).
     case foldE (\<lambda>b sums. case moneyAdd (bucketValue b sums) (bucketDelta b e) of
            Inl er \<Rightarrow> Inl er | Inr v \<Rightarrow> Inr (bucketSet b v sums)) AllBuckets sums of
       Inl er \<Rightarrow> errC er
     | Inr sums' \<Rightarrow> okC (sums', Some e, entries + 1))"

definition checkLedgerConservation :: "ledger \<Rightarrow> int \<Rightarrow> data \<Rightarrow> invariant_result outcome" where
  "checkLedgerConservation l tenantID d =
     pageLoop (\<lambda>after. rdAccountsByTenant tenantID \<lparr>apAfterUserID = after, apLimit = MaxPageLimit\<rparr> d) (\<lambda>a. ukUserID (aKey a))
       (\<lambda>acct res.
          bindC (pageLoop (\<lambda>after. rdLedgerEntries (aKey acct)
                    \<lparr>lqPage = \<lparr>pgAfterID = after, pgLimit = MaxPageLimit\<rparr>, lqBizType = None\<rparr> d) leID
                  addEntry 0 (zeroAccount, None, 0))
            (\<lambda>(sums, tail, entries).
               okC (accountConservationViolations acct sums tail entries (rAllowNegative (lRules l)) (checkedOne res))))
       0 (newInvariant ''I1: account balance equals sum of ledger deltas'')"

text \<open>
  A store that aggregates itself answers with the accounts it could not confirm and the number it
  examined. The self-check takes it as an argument; SqlReconcile models the one of store/sql.
\<close>

record account_reconciliation =
  arcKey :: user_key
  arcStored :: account
  arcSummed :: account
  arcTail :: "ledger_entry option"

definition entriesFromTail :: "account_reconciliation \<Rightarrow> nat" where
  "entriesFromTail m = (if arcTail m \<noteq> None then 1 else 0)"

type_synonym reconciler = "int \<Rightarrow> int \<Rightarrow> gerror + (account_reconciliation list \<times> nat)"

definition checkLedgerConservationReconciled :: "ledger \<Rightarrow> reconciler \<Rightarrow> int \<Rightarrow> invariant_result outcome" where
  "checkLedgerConservationReconciled l rec tenantID =
     (case rec tenantID MaxPageLimit of
        Inl e \<Rightarrow> errC e
      | Inr (candidates, examined) \<Rightarrow>
          okC ((fold (\<lambda>m. accountConservationViolations (arcStored m) (arcSummed m) (arcTail m) (entriesFromTail m)
                    (rAllowNegative (lRules l))) candidates
                (newInvariant ''I1: account balance equals sum of ledger deltas''))\<lparr>irChecked := examined\<rparr>))"

subsection \<open>I2: linkage and allocation cap\<close>

datatype alloc_key = AllocKey (akOrderKey: order_key) (akOrderItemID: string)

record alloc_agg =
  aaBase :: money
  aaAmount :: money

type_synonym alloc_groups = "(alloc_key \<times> alloc_agg) list"

definition allocKeyOrder :: "alloc_key \<Rightarrow> int \<times> string \<times> string" where
  "allocKeyOrder k = (okTenantID (akOrderKey k), okOrderID (akOrderKey k), akOrderItemID k)"

text \<open>The references of one entry of the tenant's journal to commissions.\<close>

definition collectRef :: "ledger_entry \<Rightarrow> invariant_result \<times> int set \<Rightarrow> (invariant_result \<times> int set) outcome" where
  "collectRef e = (\<lambda>(res, refs).
     if \<not> referencesCommission (leBizType e) then okC (res, refs)
     else case parseInt (leBizID e) of
       None \<Rightarrow> okC (addViolation (AccrualBizIDNotNumeric (leID e) (leBizID e)) res, refs)
     | Some i \<Rightarrow> okC (res, insert i refs))"

text \<open>One commission: its back reference, and its group of the quota check.\<close>

definition linkCommission ::
  "int set \<Rightarrow> commission \<Rightarrow> invariant_result \<times> int set \<times> alloc_groups \<Rightarrow> (invariant_result \<times> int set \<times> alloc_groups) outcome" where
  "linkCommission refs c = (\<lambda>(res, known, groups).
     let res1 = flagIf (cID c \<notin> refs) (NoLedgerEntry (cID c) (okOrderID (cKey c)) (cLayer c) (cAmount c)) (checkedOne res);
         known1 = insert (cID c) known
     in if cAmount c <=s 0 then okC (res1, known1, groups)
        else let k = AllocKey (cKey c) (cOrderItemID c);
                 g = (case map_of groups k of None \<Rightarrow> \<lparr>aaBase = cBaseAmount c, aaAmount = 0\<rparr> | Some g \<Rightarrow> g)
             in case moneyAdd (aaAmount g) (cAmount c) of
                  Inl e \<Rightarrow> errC e
                | Inr v \<Rightarrow> okC (res1, known1, AList.update k (g\<lparr>aaAmount := v\<rparr>) groups))"

definition checkQuota :: "ledger \<Rightarrow> alloc_key \<times> alloc_agg \<Rightarrow> invariant_result \<Rightarrow> gerror + invariant_result" where
  "checkQuota l = (\<lambda>(k, g) res.
     case moneyApply (aaBase g) (rMaxAllocatableBP (lRules l)) RoundDown of
       Inl e \<Rightarrow> Inl e
     | Inr capAmount \<Rightarrow>
         Inr (flagIf (capAmount <s aaAmount g)
           (CapExceeded (akOrderKey k) (if akOrderItemID k = [] then ''<whole order>'' else akOrderItemID k)
             (aaAmount g) capAmount (aaBase g)) res))"

definition checkAllocationCap :: "ledger \<Rightarrow> int \<Rightarrow> data \<Rightarrow> invariant_result outcome" where
  "checkAllocationCap l tenantID d =
     bindC (pageLoop (\<lambda>after. rdLedgerByTenant tenantID \<lparr>pgAfterID = after, pgLimit = MaxPageLimit\<rparr> d) leID collectRef
              0 (newInvariant ''I2: commission ledger linkage and allocation cap'', {}))
       (\<lambda>(res, refs).
     bindC (pageLoop (\<lambda>after. rdCommissionsByTenant tenantID \<lparr>pgAfterID = after, pgLimit = MaxPageLimit\<rparr> d) cID
              (linkCommission refs) 0 (res, {}, []))
       (\<lambda>(res, known, groups).
     let res1 = fold (\<lambda>i. flagIf (i \<notin> known) (DanglingEntry i)) (sorted_list_of_set refs) res
     in case foldE (checkQuota l) (sort_key (\<lambda>g. allocKeyOrder (fst g)) groups) res1 of
          Inl e \<Rightarrow> errC e | Inr r \<Rightarrow> okC r))"

subsection \<open>I3: reversals\<close>

definition getMoney :: "('k \<rightharpoonup> money) \<Rightarrow> 'k \<Rightarrow> money" where
  "getMoney m k = (case m k of None \<Rightarrow> 0 | Some v \<Rightarrow> v)"

record reversal_tally =
  rtRes :: invariant_result
  rtOriginals :: "int \<rightharpoonup> money"
  rtReversed :: "int \<rightharpoonup> money"
  rtAmount :: "int \<rightharpoonup> money"
  rtAccruedBy :: "int \<rightharpoonup> money"
  rtReversedBy :: "int \<rightharpoonup> money"

definition tallyAccrual :: "commission \<Rightarrow> reversal_tally \<Rightarrow> reversal_tally outcome" where
  "tallyAccrual c t =
     (case moneyAdd (getMoney (rtAccruedBy t) (cAgentUserID c)) (cAmount c) of
        Inl e \<Rightarrow> errC e
      | Inr v \<Rightarrow>
          let t1 = t\<lparr>rtAccruedBy := (rtAccruedBy t)(cAgentUserID c \<mapsto> v)\<rparr>
          in if cReversedAmount c = 0 then okC t1
             else let t2 = t1\<lparr>rtOriginals := (rtOriginals t1)(cID c \<mapsto> cReversedAmount c),
                        rtAmount := (rtAmount t1)(cID c \<mapsto> cAmount c)\<rparr>;
                      r1 = flagIf (cReversedAmount c <s 0 \<or> cAmount c <s cReversedAmount c)
                             (ReversedOutOfRange (cID c) (cReversedAmount c) (cAmount c)) (checkedOne (rtRes t2));
                      r2 = flagIf (FullyReversed c \<noteq> (cState c = CommissionReversed \<or> cState c = CommissionVoid))
                             (ReversedStateMismatch (cID c) (cReversedAmount c) (cAmount c) (cState c)) r1
                  in okC (t2\<lparr>rtRes := r2\<rparr>))"

definition tallyReversal :: "data \<Rightarrow> commission \<Rightarrow> reversal_tally \<Rightarrow> reversal_tally outcome" where
  "tallyReversal d c t =
     (let t1 = t\<lparr>rtRes := checkedOne (rtRes t)\<rparr>;
          flag = (\<lambda>v. okC (t1\<lparr>rtRes := addViolation v (rtRes t1)\<rparr>))
      in if cReverseOf c \<le> 0 then flag (NegativeWithoutLink (cID c) (cAmount c))
         else case rdCommission (cReverseOf c) d of
           Inl e \<Rightarrow> flag (ReversesMissing (cID c) (cReverseOf c))
         | Inr original \<Rightarrow>
             if cAmount original <=s 0 then flag (ReversesNonAccrual (cID c) (cReverseOf c))
             else let amount = - cAmount c in
               case moneyAdd (getMoney (rtReversed t1) (cReverseOf c)) amount of
                 Inl e \<Rightarrow> errC e
               | Inr v \<Rightarrow>
                   let t2 = t1\<lparr>rtReversed := (rtReversed t1)(cReverseOf c \<mapsto> v)\<rparr> in
                   case moneyAdd (getMoney (rtReversedBy t2) (cAgentUserID c)) amount of
                     Inl e \<Rightarrow> errC e
                   | Inr w \<Rightarrow>
                       let t3 = t2\<lparr>rtReversedBy := (rtReversedBy t2)(cAgentUserID c \<mapsto> w)\<rparr>
                       in okC (if rtAmount t3 (cReverseOf c) = None
                               then t3\<lparr>rtAmount := (rtAmount t3)(cReverseOf c \<mapsto> cAmount original)\<rparr> else t3))"

definition tallyCommission :: "data \<Rightarrow> commission \<Rightarrow> reversal_tally \<Rightarrow> reversal_tally outcome" where
  "tallyCommission d c t = (if 0 <s cAmount c then tallyAccrual c t else tallyReversal d c t)"

text \<open>The accumulator of a commission against the sum of its reversal records.\<close>

definition compareReversal :: "reversal_tally \<Rightarrow> int \<Rightarrow> invariant_result \<Rightarrow> invariant_result" where
  "compareReversal t i res =
     (let want = getMoney (rtReversed t) i; got = getMoney (rtOriginals t) i;
          res1 = flagIf (got \<noteq> want) (ReversedSumMismatch i got want) res
      in case rtAmount t i of
           None \<Rightarrow> res1
         | Some amt \<Rightarrow> flagIf (amt <s want) (ReversedTooMuch i want amt) res1)"

definition compareTotals :: "reversal_tally \<Rightarrow> account \<Rightarrow> invariant_result \<Rightarrow> invariant_result outcome" where
  "compareTotals t acct res =
     (let earned = getMoney (rtAccruedBy t) (ukUserID (aKey acct)); rev = getMoney (rtReversedBy t) (ukUserID (aKey acct))
      in okC (flagIf (aTotalReversed acct \<noteq> rev) (ReversedTotalMismatch (aKey acct) (aTotalReversed acct) rev)
           (flagIf (aTotalEarned acct \<noteq> earned) (EarnedMismatch (aKey acct) (aTotalEarned acct) earned) (checkedOne res))))"

definition checkReversalReconciliation :: "int \<Rightarrow> data \<Rightarrow> invariant_result outcome" where
  "checkReversalReconciliation tenantID d =
     bindC (pageLoop (\<lambda>after. rdCommissionsByTenant tenantID \<lparr>pgAfterID = after, pgLimit = MaxPageLimit\<rparr> d) cID
              (tallyCommission d) 0
              \<lparr>rtRes = newInvariant ''I3: reversal accumulator, state and account totals reconcile'', rtOriginals = Map.empty,
                rtReversed = Map.empty, rtAmount = Map.empty, rtAccruedBy = Map.empty, rtReversedBy = Map.empty\<rparr>)
       (\<lambda>t. pageLoop (\<lambda>after. rdAccountsByTenant tenantID \<lparr>apAfterUserID = after, apLimit = MaxPageLimit\<rparr> d)
              (\<lambda>a. ukUserID (aKey a)) (compareTotals t) 0
              (fold (compareReversal t) (sorted_list_of_set (dom (rtOriginals t) \<union> dom (rtReversed t))) (rtRes t)))"

subsection \<open>I4: withdrawals\<close>

record withdrawal_refs =
  wrHolds :: "int set"
  wrPaids :: "int set"
  wrRefunds :: "int set"

definition collectWithdrawalRef ::
  "ledger_entry \<Rightarrow> invariant_result \<times> withdrawal_refs \<Rightarrow> (invariant_result \<times> withdrawal_refs) outcome" where
  "collectWithdrawalRef e = (\<lambda>(res, refs).
     if \<not> referencesWithdrawal (leBizType e) then okC (res, refs)
     else case parseInt (leBizID e) of
       None \<Rightarrow> okC (addViolation (WithdrawalBizIDNotNumeric (leID e) (leBizID e)) res, refs)
     | Some i \<Rightarrow> okC (res,
         (case leBizType e of
            LedgerWithdrawHold \<Rightarrow> refs\<lparr>wrHolds := insert i (wrHolds refs)\<rparr>
          | LedgerWithdrawPaid \<Rightarrow> refs\<lparr>wrPaids := insert i (wrPaids refs)\<rparr>
          | LedgerWithdrawRefund \<Rightarrow> refs\<lparr>wrRefunds := insert i (wrRefunds refs)\<rparr>
          | _ \<Rightarrow> refs)))"

definition checkWithdrawal ::
  "withdrawal_refs \<Rightarrow> withdrawal \<Rightarrow> invariant_result \<times> (user_key \<rightharpoonup> money) \<Rightarrow> (invariant_result \<times> (user_key \<rightharpoonup> money)) outcome" where
  "checkWithdrawal refs w = (\<lambda>(res, reserved).
     let r1 = flagIf (wState w = WithdrawalPaid \<and> wPaidAt w = 0) (PaidWithoutTime (wID w)) (checkedOne res);
         r2 = flagIf (wState w \<noteq> WithdrawalPaid \<and> wPaidAt w \<noteq> 0) (TimeWithoutPaid (wID w) (wState w)) r1;
         r3 = flagIf (wID w \<notin> wrHolds refs) (NoHoldEntry (wID w)) r2;
         r4 = flagIf (wState w = WithdrawalPaid \<and> wID w \<notin> wrPaids refs) (NoPaidEntry (wID w)) r3;
         r5 = flagIf (wState w = WithdrawalRejected \<and> wID w \<notin> wrRefunds refs) (NoRefundEntry (wID w)) r4
     in if 0 <s withdrawalOutstanding w
        then case moneyAdd (getMoney reserved (wKey w)) (withdrawalOutstanding w) of
               Inl e \<Rightarrow> errC e
             | Inr v \<Rightarrow> okC (r5, reserved(wKey w \<mapsto> v))
        else okC (r5, reserved))"

definition compareReserved :: "(user_key \<rightharpoonup> money) \<Rightarrow> account \<Rightarrow> invariant_result \<Rightarrow> invariant_result outcome" where
  "compareReserved reserved acct res =
     (let want = getMoney reserved (aKey acct)
      in okC (flagIf (aWithdrawing acct \<noteq> want) (WithdrawingMismatch (aKey acct) (aWithdrawing acct) want) (checkedOne res)))"

definition checkWithdrawalReconciliation :: "int \<Rightarrow> data \<Rightarrow> invariant_result outcome" where
  "checkWithdrawalReconciliation tenantID d =
     bindC (pageLoop (\<lambda>after. rdLedgerByTenant tenantID \<lparr>pgAfterID = after, pgLimit = MaxPageLimit\<rparr> d) leID collectWithdrawalRef 0
              (newInvariant ''I4: withdrawal state, reservation and ledger agree'', \<lparr>wrHolds = {}, wrPaids = {}, wrRefunds = {}\<rparr>))
       (\<lambda>(res, refs).
     bindC (pageLoop (\<lambda>after. rdWithdrawalsByTenant tenantID \<lparr>pgAfterID = after, pgLimit = MaxPageLimit\<rparr> d) wID
              (checkWithdrawal refs) 0 (res, Map.empty))
       (\<lambda>(res, reserved).
     pageLoop (\<lambda>after. rdAccountsByTenant tenantID \<lparr>apAfterUserID = after, apLimit = MaxPageLimit\<rparr> d)
       (\<lambda>a. ukUserID (aKey a)) (compareReserved reserved) 0 res))"

subsection \<open>The self-check\<close>

text \<open>
  The optional interfaces of the store: its name, its schema check, its own aggregation. The
  in-memory store has only the name.
\<close>

record optional_ports =
  poKind :: "string option"
  poSchemaIssues :: "string list option"
  poReconcile :: "reconciler option"

definition StoreKind :: string where "StoreKind = ''memory''"

definition memoryPorts :: optional_ports where
  "memoryPorts = \<lparr>poKind = Some StoreKind, poSchemaIssues = None, poReconcile = None\<rparr>"

definition stateCounters :: "(commission_state \<rightharpoonup> nat) \<Rightarrow> string \<rightharpoonup> nat" where
  "stateCounters counts = map_of (map (\<lambda>s. (commissionStateString s, case counts s of None \<Rightarrow> 0 | Some n \<Rightarrow> n)) AllCommissionStates)"

text \<open>The read transaction: the counters and the four invariants.\<close>

definition selfCheckReads ::
  "ledger \<Rightarrow> int \<Rightarrow> invariant_result option \<Rightarrow> data \<Rightarrow> ((string \<rightharpoonup> nat) \<times> invariant_result list) outcome" where
  "selfCheckReads l tenantID given d =
     (case rdCountCommissionsByState tenantID d of
        Inl e \<Rightarrow> errC e
      | Inr counts \<Rightarrow>
          bindC (case given of None \<Rightarrow> checkLedgerConservation l tenantID d | Some i1 \<Rightarrow> okC i1) (\<lambda>i1.
          bindC (checkAllocationCap l tenantID d) (\<lambda>i2.
          bindC (checkReversalReconciliation tenantID d) (\<lambda>i3.
          bindC (checkWithdrawalReconciliation tenantID d) (\<lambda>i4.
            okC (stateCounters counts, [i1, i2, i3, i4]))))))"

definition SelfCheck :: "ledger \<Rightarrow> optional_ports \<Rightarrow> int \<Rightarrow> mem_store \<Rightarrow> report outcome" where
  "SelfCheck l ports tenantID s =
     (if tenantID < 0 then errC (FieldError ''tenant_id'')
      else bindC (case poReconcile ports of None \<Rightarrow> okC None
             | Some rec \<Rightarrow> bindC (checkLedgerConservationReconciled l rec tenantID) (\<lambda>i1. okC (Some i1)))
        (\<lambda>given.
           if stClosed s then errC ErrClosed
           else bindC (selfCheckReads l tenantID given (stData s)) (\<lambda>(counters, invs).
             let issues = (case poSchemaIssues ports of None \<Rightarrow> [] | Some is \<Rightarrow> is)
             in okC \<lparr>rpTenantID = tenantID, rpOK = (issues = [] \<and> list_all irOK invs),
                  rpStoreKind = (case poKind ports of None \<Rightarrow> [] | Some k \<Rightarrow> k), rpSchemaIssues = issues,
                  rpInvariants = invs, rpCounters = counters, rpReconciled = (poReconcile ports \<noteq> None)\<rparr>)))"

subsection \<open>Lemmas: loops\<close>

lemma bindC_simps [simp]: "bindC (okC x) f = f x" "bindC (errC e) f = errC e" "bindC None f = None"
  "bindC (Some (Inr x)) f = f x" "bindC (Some (Inl e)) f = Some (Inl e)"
  by (simp_all add: bindC_def okC_def errC_def)

lemma foldC_append: "foldC f (xs @ ys) s = bindC (foldC f xs s) (foldC f ys)"
proof (induction xs arbitrary: s)
  case (Cons x xs)
  then show ?case by (cases "f x s" rule: option.exhaust; cases "the (f x s)") (auto simp: bindC_def)
qed simp

text \<open>What lies after the last row of a page is what the page left.\<close>

lemma rest_after_page:
  fixes anchor :: "'a \<Rightarrow> int"
  defines "rest after xs \<equiv> filter (\<lambda>x. after < anchor x) xs"
  assumes sorted: "sorted_wrt (\<lambda>x y. anchor x < anchor y) xs"
    and split: "rest after xs = page @ others" "page \<noteq> []"
  shows "rest (anchor (last page)) xs = others"
proof -
  have last: "last page \<in> set page" using split(2) by simp
  have "sorted_wrt (\<lambda>x y. anchor x < anchor y) (page @ others)"
    using sorted_wrt_filter [OF sorted] by (metis rest_def split(1))
  then have parts: "sorted_wrt (\<lambda>x y. anchor x < anchor y) (butlast page @ [last page])"
      "\<forall>x\<in>set others. anchor (last page) < anchor x"
    using last split(2) by (auto simp: sorted_wrt_append)
  have "last page \<in> set (rest after xs)" using last split(1) by simp
  then have "after < anchor (last page)" by (simp add: rest_def)
  then have "rest (anchor (last page)) xs = rest (anchor (last page)) (rest after xs)"
    by (auto simp: rest_def intro!: filter_cong)
  moreover have "\<not> anchor (last page) < anchor x" if "x \<in> set page" for x
  proof -
    have "x \<in> set (butlast page @ [last page])" using that split(2) by simp
    then show ?thesis using parts(1) by (auto simp: sorted_wrt_append)
  qed
  then have "rest (anchor (last page)) page = []" by (simp add: rest_def filter_empty_conv)
  moreover have "rest (anchor (last page)) others = others" using parts(2) by (simp add: rest_def filter_id_conv)
  ultimately show ?thesis by (simp only: split(1)) (simp add: rest_def)
qed

text \<open>
  A loop over pages of an ordered list is one pass over the list: every row once, in order.
\<close>

lemma pageLoop_rows:
  assumes fetch: "\<And>after. fetch after = Inr (take (nat MaxPageLimit) (filter (\<lambda>x. after < anchor x) xs))"
    and sorted: "sorted_wrt (\<lambda>x y. anchor x < anchor y) xs"
  shows "pageLoop fetch anchor body after s = foldC body (filter (\<lambda>x. after < anchor x) xs) s"
proof (induction "length (filter (\<lambda>x. after < anchor x) xs)" arbitrary: after s rule: less_induct)
  case less
  let ?rest = "filter (\<lambda>x. after < anchor x) xs" and ?n = "nat MaxPageLimit"
  let ?page = "take ?n ?rest"
  have n: "0 < ?n" by (simp add: MaxPageLimit_def)
  show ?case
  proof (cases "?rest = []")
    case True
    then show ?thesis by (simp add: pageLoop.simps [of fetch] fetch okC_def)
  next
    case nonempty: False
    then have page: "?page \<noteq> []" using n by simp
    show ?thesis
    proof (cases "length ?rest < ?n")
      case True
      then have "?page = ?rest" by simp
      then show ?thesis using nonempty True
        by (subst pageLoop.simps) (auto simp: fetch bindC_def split: option.split sum.split)
    next
      case False
      then have len: "length ?page = ?n" by simp
      have split: "?rest = ?page @ drop ?n ?rest" by simp
      have later: "filter (\<lambda>x. anchor (last ?page) < anchor x) xs = drop ?n ?rest"
        by (rule rest_after_page [OF sorted _ page]) simp
      have shorter: "length (filter (\<lambda>x. anchor (last ?page) < anchor x) xs) < length ?rest"
        using later nonempty n by (simp add: length_greater_0_conv)
      have full: "\<not> int (length ?page) < MaxPageLimit" using len by (simp add: MaxPageLimit_def)
      have step: "pageLoop fetch anchor body after s =
          bindC (foldC body ?page s) (\<lambda>s'. pageLoop fetch anchor body (anchor (last ?page)) s')"
        using page full by (subst pageLoop.simps) (simp add: fetch bindC_def split: option.split sum.split)
      have "pageLoop fetch anchor body after s = bindC (foldC body ?page s) (\<lambda>s'. foldC body (drop ?n ?rest) s')"
        unfolding step less [OF shorter] later ..
      also have "\<dots> = foldC body (?page @ drop ?n ?rest) s" by (simp only: foldC_append)
      finally show ?thesis using split by simp
    qed
  qed
qed

end
