(* ===== verification/Pages.thy ===== *)
theory Pages
  imports StoreInv MemReader
begin

text \<open>
  What the paged reads of the store return: with the store's invariant, a keyset page is the next
  stretch, up to the page size, of one list per query that is ordered by the anchor. So paging
  through a query visits every row of it exactly once, whatever the page size.
\<close>

subsection \<open>The lists behind the pages\<close>

definition commissionsOf :: "int \<Rightarrow> data \<Rightarrow> commission list" where
  "commissionsOf n d = filter (\<lambda>c. okTenantID (cKey c) = n) (rowsAt (dCommissions d) (dCommissionIDs d))"

definition entriesOf :: "user_key \<Rightarrow> data \<Rightarrow> ledger_entry list" where
  "entriesOf k d = rowsAt (dLedger d) (slot (dLedgerByUser d) k)"

definition tenantEntries :: "int \<Rightarrow> data \<Rightarrow> ledger_entry list" where
  "tenantEntries n d = rowsAt (dLedger d) (slot (dLedgerByTenant d) n)"

definition withdrawalsOf :: "int \<Rightarrow> data \<Rightarrow> withdrawal list" where
  "withdrawalsOf n d = filter (\<lambda>w. ukTenantID (wKey w) = n) (rowsAt (dWithdrawals d) (dWithdrawalIDs d))"

definition accountsOf :: "int \<Rightarrow> data \<Rightarrow> account list" where
  "accountsOf n d = rowsAt (dAccounts d) (filter (\<lambda>k. ukTenantID k = n) (dAccountIDs d))"

subsection \<open>Picking rows\<close>

lemma map_filter_rows:
  assumes "\<And>i v. m i = Some v \<Longrightarrow> idf v = i"
  shows "List.map_filter (\<lambda>i. if P i then None else case m i of None \<Rightarrow> None | Some v \<Rightarrow> if Q v then None else Some v) ids =
    filter (\<lambda>v. \<not> P (idf v)) (filter (\<lambda>v. \<not> Q v) (rowsAt m ids))"
proof (induction ids)
  case (Cons i ids)
  then show ?case using assms [of i] by (cases "m i") (auto simp: List.map_filter_simps rowsAt_Cons)
qed (simp add: List.map_filter_simps rowsAt_def)

lemma map_filter_all: "List.map_filter m ids = rowsAt m ids"
  by (induction ids) (auto simp: List.map_filter_simps rowsAt_Cons rowsAt_def split: option.split)

lemma rowsAt_filter:
  assumes "\<And>i v. m i = Some v \<Longrightarrow> idf v = i"
  shows "rowsAt m (filter P ids) = filter (\<lambda>v. P (idf v)) (rowsAt m ids)"
proof (induction ids)
  case (Cons i ids)
  then show ?case using assms [of i] by (cases "m i") (auto simp: rowsAt_Cons)
qed (simp add: rowsAt_def)

lemma rowsAt_sorted:
  assumes "sorted_wrt (<) (ids :: 'i::linorder list)" "\<And>i v. m i = Some v \<Longrightarrow> idf v = i"
  shows "sorted_wrt (\<lambda>v w. idf v < idf w) (rowsAt m ids)"
  using assms(1)
proof (induction ids)
  case (Cons i ids)
  have up: "i < idf v" if "v \<in> set (rowsAt m ids)" for v
  proof -
    obtain j where "j \<in> set ids" "m j = Some v" using \<open>v \<in> set (rowsAt m ids)\<close> by (auto simp: rowsAt_def)
    then show ?thesis using Cons.prems assms(2) by auto
  qed
  then show ?case using Cons assms(2) [of i] by (cases "m i") (auto simp: rowsAt_Cons)
qed (simp add: rowsAt_def)

text \<open>A binary search on a sorted slice keeps what an upward closed filter keeps.\<close>

lemma filter_parts: "\<forall>y\<in>set (take n xs). \<not> P y \<Longrightarrow> \<forall>y\<in>set (drop n xs). P y \<Longrightarrow> drop n xs = filter P xs"
proof -
  assume parts: "\<forall>y\<in>set (take n xs). \<not> P y" "\<forall>y\<in>set (drop n xs). P y"
  have "filter P xs = filter P (take n xs) @ filter P (drop n xs)"
    by (simp only: filter_append [symmetric] append_take_drop_id)
  moreover have "filter P (take n xs) = []" using parts(1) by (simp add: filter_empty_conv)
  moreover have "filter P (drop n xs) = drop n xs" using parts(2) by (simp add: filter_id_conv)
  ultimately show ?thesis by (simp only: append_Nil)
qed

lemma drop_search:
  assumes "sorted (xs :: 'a::linorder list)" "\<And>a b. a \<le> b \<Longrightarrow> P a \<Longrightarrow> P b"
  shows "drop (sortSearch (length xs) (\<lambda>i. P (xs ! i))) xs = filter P xs"
  by (rule filter_parts; rule search_sorted [where P = P, OF assms(1)]; erule (1) assms(2))

lemma takeWhile_sorted:
  assumes "sorted (xs :: 'a::linorder list)" "\<And>a b. a \<in> set xs \<Longrightarrow> b \<in> set xs \<Longrightarrow> a \<le> b \<Longrightarrow> Q b \<Longrightarrow> Q a"
  shows "takeWhile Q xs = filter Q xs"
  using assms
proof (induction xs)
  case (Cons x xs)
  show ?case
  proof (cases "Q x")
    case True
    have "takeWhile Q xs = filter Q xs" by (rule Cons.IH) (use Cons.prems in auto)
    then show ?thesis using True by simp
  next
    case False
    then have "\<not> Q y" if "y \<in> set xs" for y using Cons.prems that by auto
    then show ?thesis using False by (simp add: filter_empty_conv)
  qed
qed simp

subsection \<open>Each query\<close>

lemma page_size: "1 \<le> nat (normalizeLimit n)"
  using normalizeLimit_range [of n] by linarith

lemma filter_newer: "filter (\<lambda>v. \<not> idf v \<le> a) xs = filter (\<lambda>v. a < (idf v :: int)) xs"
  by (rule filter_cong) auto

lemma rdCommissionsByTenant_page:
  assumes "storeWf d"
  shows "rdCommissionsByTenant n p d =
    Inr (take (nat (normalizeLimit (pgLimit p))) (filter (\<lambda>c. pgAfterID p < cID c) (commissionsOf n d)))"
proof -
  have ids: "sorted_wrt (<) (dCommissionIDs d)"
    using storeWf_parts(2) [OF assms] by (simp add: commissionsWf_def listIndex_def)
  then have sorted: "sorted (dCommissionIDs d)" by (simp add: strict_sorted_iff)
  have idf: "cID c = i" if "dCommissions d i = Some c" for i c
    using storeWf_parts(7) [OF assms] that by (auto simp: idsUpTo_def)
  have search: "drop (sortSearch (length (dCommissionIDs d)) (\<lambda>i. pgAfterID p < dCommissionIDs d ! i)) (dCommissionIDs d) =
      filter (\<lambda>i. pgAfterID p < i) (dCommissionIDs d)"
    by (rule drop_search [where P = "\<lambda>i. pgAfterID p < i", OF sorted]) simp
  have rows: "List.map_filter (\<lambda>i. case dCommissions d i of None \<Rightarrow> None | Some c \<Rightarrow> if okTenantID (cKey c) \<noteq> n then None else Some c) ids =
      filter (\<lambda>c. \<not> okTenantID (cKey c) \<noteq> n) (rowsAt (dCommissions d) ids)" for ids
    using map_filter_rows [where m = "dCommissions d" and idf = cID and P = "\<lambda>_. False" and
        Q = "\<lambda>c. okTenantID (cKey c) \<noteq> n" and ids = ids, OF idf] by simp
  have newer: "rowsAt (dCommissions d) (filter (\<lambda>i. pgAfterID p < i) (dCommissionIDs d)) =
      filter (\<lambda>c. pgAfterID p < cID c) (rowsAt (dCommissions d) (dCommissionIDs d))"
    by (rule rowsAt_filter) (rule idf)
  have "rdCommissionsByTenant n p d = Inr (take (nat (normalizeLimit (pgLimit p))) (List.map_filter
      (\<lambda>i. case dCommissions d i of None \<Rightarrow> None | Some c \<Rightarrow> if okTenantID (cKey c) \<noteq> n then None else Some c)
      (filter (\<lambda>i. pgAfterID p < i) (dCommissionIDs d))))"
    by (simp only: rdCommissionsByTenant_def Let_def search collectRows_take [OF page_size])
  then show ?thesis unfolding rows newer by (simp add: commissionsOf_def conj_commute)
qed

lemma commissionsOf_sorted: "storeWf d \<Longrightarrow> sorted_wrt (\<lambda>c c'. cID c < cID c') (commissionsOf n d)"
  unfolding commissionsOf_def using storeWf_parts(2,7) [of d]
  by (intro sorted_wrt_filter rowsAt_sorted) (auto simp: commissionsWf_def listIndex_def idsUpTo_def)

lemma collectLedger_page:
  assumes "storeWf d" "lqBizType q = None"
  shows "collectLedger d ids q =
    take (nat (normalizeLimit (pgLimit (lqPage q)))) (filter (\<lambda>e. pgAfterID (lqPage q) < leID e) (rowsAt (dLedger d) ids))"
proof -
  have idf: "leID e = i" if "dLedger d i = Some e" for i e
    using storeWf_parts(8) [OF assms(1)] that by (auto simp: idsUpTo_def)
  have rows: "List.map_filter (\<lambda>i. if i \<le> pgAfterID (lqPage q) then None else case dLedger d i of None \<Rightarrow> None | Some e \<Rightarrow> Some e) ids =
      filter (\<lambda>e. \<not> leID e \<le> pgAfterID (lqPage q)) (rowsAt (dLedger d) ids)"
    using map_filter_rows [where m = "dLedger d" and idf = leID and P = "\<lambda>i. i \<le> pgAfterID (lqPage q)" and
        Q = "\<lambda>_. False" and ids = ids, OF idf]
    by (simp cong: if_cong option.case_cong)
  show ?thesis
    unfolding collectLedger_def assms(2) option.case collectRows_take [OF page_size] rows filter_newer ..
qed

lemma rdLedgerEntries_page:
  assumes "storeWf d" "lqBizType q = None"
  shows "rdLedgerEntries k q d =
    Inr (take (nat (normalizeLimit (pgLimit (lqPage q)))) (filter (\<lambda>e. pgAfterID (lqPage q) < leID e) (entriesOf k d)))"
  by (simp add: rdLedgerEntries_def collectLedger_page [OF assms] entriesOf_def)

lemma rdLedgerByTenant_page:
  assumes "storeWf d"
  shows "rdLedgerByTenant n p d =
    Inr (take (nat (normalizeLimit (pgLimit p))) (filter (\<lambda>e. pgAfterID p < leID e) (tenantEntries n d)))"
  by (simp add: rdLedgerByTenant_def collectLedger_page [OF assms] tenantEntries_def)

lemma ledger_sorted:
  assumes "storeWf d"
  shows "sorted_wrt (\<lambda>e e'. leID e < leID e') (entriesOf k d)" "sorted_wrt (\<lambda>e e'. leID e < leID e') (tenantEntries n d)"
  unfolding entriesOf_def tenantEntries_def using storeWf_parts(4,8) [OF assms]
  by (intro rowsAt_sorted; auto simp: ledgerWf_def listIndex_def idsUpTo_def)+

lemma rdWithdrawalsByTenant_page:
  assumes "storeWf d" "0 \<le> n"
  shows "rdWithdrawalsByTenant n p d =
    Inr (take (nat (normalizeLimit (pgLimit p))) (filter (\<lambda>w. pgAfterID p < wID w) (withdrawalsOf n d)))"
proof -
  have idf: "wID w = i" if "dWithdrawals d i = Some w" for i w
    using storeWf_parts(9) [OF assms(1)] that by (auto simp: idsUpTo_def)
  have rows: "List.map_filter (\<lambda>i. if i \<le> pgAfterID p then None else case dWithdrawals d i of None \<Rightarrow> None
        | Some w \<Rightarrow> if ukTenantID (wKey w) \<noteq> n then None else Some w) ids =
      filter (\<lambda>w. \<not> wID w \<le> pgAfterID p) (filter (\<lambda>w. \<not> ukTenantID (wKey w) \<noteq> n) (rowsAt (dWithdrawals d) ids))" for ids
    by (rule map_filter_rows) (rule idf)
  show ?thesis
    unfolding rdWithdrawalsByTenant_def collectRows_take [OF page_size] rows
    using assms(2) by (simp add: filter_newer withdrawalsOf_def)
qed

lemma withdrawalsOf_sorted: "storeWf d \<Longrightarrow> sorted_wrt (\<lambda>w w'. wID w < wID w') (withdrawalsOf n d)"
  unfolding withdrawalsOf_def using storeWf_parts(5,9) [of d]
  by (intro sorted_wrt_filter rowsAt_sorted) (auto simp: withdrawalsWf_def listIndex_def idsUpTo_def)

lemma rdAccountsByTenant_page:
  assumes "storeWf d"
  shows "rdAccountsByTenant n p d =
    Inr (take (nat (normalizeLimit (apLimit p))) (filter (\<lambda>a. apAfterUserID p < ukUserID (aKey a)) (accountsOf n d)))"
proof -
  let ?idx = "dAccountIDs d"
  let ?P = "\<lambda>k. if ukTenantID k \<noteq> n then ukTenantID k \<ge> n else ukUserID k > apAfterUserID p"
  have ids: "sorted ?idx" using storeWf_parts(6) [OF assms] by (simp add: accountsWf_def strict_sorted_iff)
  have idf: "aKey a = k" if "dAccounts d k = Some a" for k a
    using storeWf_parts(6) [OF assms] that by (auto simp: accountsWf_def)
  have search: "drop (sortSearch (length ?idx) (\<lambda>i. ?P (?idx ! i))) ?idx = filter ?P ?idx"
  proof (rule drop_search [where P = ?P, OF ids])
    fix a b assume le: "a \<le> b" and a: "?P a"
    have "ukTenantID a \<le> ukTenantID b" using le by (auto simp: less_eq_user_key_def)
    moreover have "ukUserID a \<le> ukUserID b" if "ukTenantID a = ukTenantID b" using le that by (simp add: less_eq_user_key_def)
    ultimately show "?P b" using a by (cases "ukTenantID a = n"; cases "ukTenantID b = n") simp_all
  qed
  have "sorted (filter ?P ?idx)" using ids by (rule sorted_wrt_filter)
  then have "takeWhile (\<lambda>k. ukTenantID k = n) (filter ?P ?idx) = filter (\<lambda>k. ukTenantID k = n) (filter ?P ?idx)"
  proof (rule takeWhile_sorted)
    fix a b assume "a \<in> set (filter ?P ?idx)" "a \<le> b" "ukTenantID b = n"
    then show "ukTenantID a = n" by (simp add: less_eq_user_key_def split: if_split_asm)
  qed
  also have "\<dots> = filter (\<lambda>k. apAfterUserID p < ukUserID k) (filter (\<lambda>k. ukTenantID k = n) ?idx)"
    unfolding filter_filter by (rule filter_cong) auto
  finally have rest: "takeWhile (\<lambda>k. ukTenantID k = n) (filter ?P ?idx) =
      filter (\<lambda>k. apAfterUserID p < ukUserID k) (filter (\<lambda>k. ukTenantID k = n) ?idx)" .
  have "rdAccountsByTenant n p d = Inr (take (nat (normalizeLimit (apLimit p)))
      (rowsAt (dAccounts d) (filter (\<lambda>k. apAfterUserID p < ukUserID k) (filter (\<lambda>k. ukTenantID k = n) ?idx))))"
    unfolding rdAccountsByTenant_def Let_def search rest collectRows_take [OF page_size] map_filter_all ..
  moreover have "rowsAt (dAccounts d) (filter (\<lambda>k. apAfterUserID p < ukUserID k) (filter (\<lambda>k. ukTenantID k = n) ?idx)) =
      filter (\<lambda>a. apAfterUserID p < ukUserID (aKey a)) (accountsOf n d)"
    unfolding accountsOf_def by (rule rowsAt_filter) (rule idf)
  ultimately show ?thesis by simp
qed

lemma accountsOf_sorted:
  assumes "storeWf d"
  shows "sorted_wrt (\<lambda>a b. ukUserID (aKey a) < ukUserID (aKey b)) (accountsOf n d)"
proof -
  have idf: "aKey a = k" if "dAccounts d k = Some a" for k a
    using storeWf_parts(6) [OF assms] that by (auto simp: accountsWf_def)
  have "sorted_wrt (<) (filter (\<lambda>k. ukTenantID k = n) (dAccountIDs d))"
    using storeWf_parts(6) [OF assms] by (simp add: accountsWf_def sorted_wrt_filter)
  then have "sorted_wrt (\<lambda>a b. aKey a < aKey b) (accountsOf n d)"
    unfolding accountsOf_def by (rule rowsAt_sorted) (rule idf)
  moreover have "ukTenantID (aKey a) = n" if "a \<in> set (accountsOf n d)" for a
    using that idf by (auto simp: accountsOf_def rowsAt_def)
  ultimately show ?thesis by (elim sorted_wrt_mono_rel [rotated]) (simp add: less_user_key_def)
qed

end
