(* ===== verification/Accrual.thy ===== *)
theory Accrual
  imports LedgerOps
begin

text \<open>
  accrual.go: the accrual engine. A payment is booked once per order: for every base (an item, or
  the whole order) the relation chain is walked up to the configured number of levels, and each
  eligible agent is credited with its rate, within the allocation cap of that base.
\<close>

record accrual_base =
  abItemID :: string
  abAmount :: money

definition basesOf :: "order_paid_event \<Rightarrow> accrual_base list" where
  "basesOf ev =
     (if epItems ev = [] then [\<lparr>abItemID = [], abAmount = epPaidAmount ev\<rparr>]
      else map (\<lambda>it. \<lparr>abItemID = oiItemID it, abAmount = oiAmount it\<rparr>) (epItems ev))"

fun layerOneAgent :: "commission list \<Rightarrow> int" where
  "layerOneAgent [] = 0"
| "layerOneAgent (c # cs) = (if cLayer c = 1 then cAgentUserID c else layerOneAgent cs)"

definition creditAccrual :: "commission \<Rightarrow> gotime \<Rightarrow> (txn, unit) step" where
  "creditAccrual c now =
     (let key = UserKey (okTenantID (cKey c)) (cAgentUserID c) in
      andThen (IncrementAccount (zeroDelta\<lparr>dKey := key, dFrozen := cAmount c, dTotalEarned := cAmount c, dAt := now\<rparr>))
        (\<lambda>saved. andThen (AppendLedger (newLedgerEntry key LedgerAccrue (formatInt (cID c))
             (''order '' @ okOrderID (cKey c) @ '' layer '' @ formatInt (cLayer c))
             now saved BucketFrozen (cAmount c)))
          (\<lambda>_. ret ())))"

text \<open>The record one level books.\<close>

definition accrualRecord ::
  "ledger \<Rightarrow> order_paid_event \<Rightarrow> accrual_base \<Rightarrow> int \<Rightarrow> int \<Rightarrow> rate \<Rightarrow> money \<Rightarrow> commission" where
  "accrualRecord l ev base agentUserID layer rate amount = zeroCommission\<lparr>
     cKey := epOrderKey ev,
     cIdemKey := accrueIdemKey (lDigest l) (epOrderKey ev) (abItemID base) agentUserID layer (epIdemKey ev),
     cOrderItemID := abItemID base, cBuyerUserID := epBuyerUserID ev, cAgentUserID := agentUserID,
     cLayer := layer, cBaseAmount := abAmount base, cRate := rate, cAmount := amount,
     cState := CommissionPending, cFreezeDays := rFreezeDays (lRules l),
     cRuleVersion := lRuleVersion l, cRuleSnapshot := rulesDescribe (lRules l), cAccruedAt := lNow l\<rparr>"

text \<open>
  The loop over the levels still to do. The walk stops at the end of the relation chain, skips a
  level on an ineligible agent, a zero amount or a duplicate, and truncates at the cap.
\<close>

fun accrueLayers ::
  "ledger \<Rightarrow> order_paid_event \<Rightarrow> accrual_base \<Rightarrow> money \<Rightarrow> int list \<Rightarrow> int \<Rightarrow> money \<Rightarrow> accrue_result \<Rightarrow>
   (txn, accrue_result) step" where
  "accrueLayers l ev base capAmount [] agentUserID allocated result = ret result"
| "accrueLayers l ev base capAmount (layer # layers) agentUserID allocated result =
     (if agentUserID = 0
      then ret (accrueSkip layer 0 SkipNoParent ''relation chain ends here'' result)
      else attempt (rd (rdAgent (UserKey (epTenantID ev) agentUserID))) (\<lambda>r. case r of
        Inl e \<Rightarrow>
          if e = ErrNotFound
          then ret (accrueSkip layer agentUserID SkipAgentMissing
                      ''agent referenced by relation chain does not exist'' result)
          else throw e
      | Inr agent \<Rightarrow>
          let check = (if layer > 1
                       then lElig l \<lparr>eiAgent = agent, eiOrder = epOrderKey ev, eiBuyerUserID = epBuyerUserID ev\<rparr>
                       else (True, []))
          in if \<not> fst check
          then accrueLayers l ev base capAmount layers (agParentID agent) allocated
                 (accrueSkip layer agentUserID SkipIneligible (snd check) result)
          else case lRates l \<lparr>riOrder = epOrderKey ev, riLayer = layer, riAgent = agent, riRules = lRules l\<rparr> of
            Inl e \<Rightarrow> throw e
          | Inr rate \<Rightarrow>
          case moneyApply (abAmount base) rate (rRounding (lRules l)) of
            Inl e \<Rightarrow> throw e
          | Inr wanted \<Rightarrow>
          let remaining = capAmount - allocated;
              amount = (if remaining <s wanted then remaining else wanted);
              result = (if remaining <s wanted
                        then accrueSkip layer agentUserID SkipCapExhausted
                               (''amount '' @ moneyString wanted @ '' truncated to remaining '' @ moneyString remaining) result
                        else result)
          in if amount <=s 0
          then accrueLayers l ev base capAmount layers (agParentID agent) allocated
                 (accrueSkip layer agentUserID SkipZeroAmount (''rate '' @ rateString rate @ '' yields zero'') result)
          else attempt (AppendCommission (accrualRecord l ev base agentUserID layer rate amount)) (\<lambda>rc. case rc of
            Inl e \<Rightarrow>
              if e = ErrDuplicate
              then accrueLayers l ev base capAmount layers (agParentID agent) allocated result
              else throw e
          | Inr c \<Rightarrow>
              andThen (creditAccrual c (lNow l)) (\<lambda>_.
                accrueLayers l ev base capAmount layers (agParentID agent) (allocated + amount)
                  (result\<lparr>arCommissions := arCommissions result @ [c]\<rparr>)))))"

definition accrueBase ::
  "ledger \<Rightarrow> order_paid_event \<Rightarrow> int \<Rightarrow> accrual_base \<Rightarrow> accrue_result \<Rightarrow> (txn, accrue_result) step" where
  "accrueBase l ev firstAgentID base result =
     (case moneyApply (abAmount base) (rMaxAllocatableBP (lRules l)) RoundDown of
        Inl e \<Rightarrow> throw e
      | Inr capAmount \<Rightarrow> accrueLayers l ev base capAmount [1..rLevels (lRules l)] firstAgentID 0 result)"

text \<open>The loop over the bases, with the checked sum of their amounts.\<close>

definition accrueBases ::
  "ledger \<Rightarrow> order_paid_event \<Rightarrow> int \<Rightarrow> accrue_result \<Rightarrow> (txn, money \<times> accrue_result) step" where
  "accrueBases l ev firstAgentID result =
     loopM (\<lambda>base (allocatedBase, result).
         case moneyAdd allocatedBase (abAmount base) of
           Inl e \<Rightarrow> throw e
         | Inr next \<Rightarrow> andThen (accrueBase l ev firstAgentID base result) (\<lambda>result. ret (next, result)))
       (basesOf ev) (0, result)"

definition orderPaidBody :: "ledger \<Rightarrow> order_paid_event \<Rightarrow> (txn, accrue_result) step" where
  "orderPaidBody l ev =
     (let key = epOrderKey ev; result = newAccrueResult key in
      andThen (rd (rdCommissionsByOrder key)) (\<lambda>existing.
      if existing \<noteq> [] then
        (if cBuyerUserID (hd existing) \<noteq> epBuyerUserID ev then throw (FieldError ''buyer_user_id'')
         else
           let agentUserID = layerOneAgent existing; result = result\<lparr>arReplayed := True\<rparr> in
           if agentUserID = 0
           then ret (accrueSkip 1 0 SkipAgentMissing ''order has commissions but no level-1 record'' result)
           else ret (result\<lparr>arAttributed := True, arAgentUserID := agentUserID\<rparr>))
      else attempt (rd (rdBinding (UserKey (epTenantID ev) (epBuyerUserID ev)))) (\<lambda>rb. case rb of
        Inl e \<Rightarrow>
          if e = ErrNotFound then ret (accrueSkip 1 0 SkipNoParent ''buyer has no binding'' result) else throw e
      | Inr b \<Rightarrow>
          if bBoundAt b > epPaidAt ev
          then ret (accrueSkip 1 0 SkipNoParent ''binding was created after the order was paid'' result)
          else if \<not> bindingEffective b (epPaidAt ev)
          then ret (accrueSkip 1 0 SkipNoParent ''binding is not effective at paid time'' result)
          else
            let result = result\<lparr>arAttributed := True, arAgentUserID := bAgentUserID b\<rparr> in
            attempt (rd (rdAgent (UserKey (epTenantID ev) (bAgentUserID b)))) (\<lambda>ra. case ra of
              Inl e \<Rightarrow>
                if e = ErrNotFound
                then ret (accrueSkip 1 (bAgentUserID b) SkipAgentMissing ''attributed agent no longer exists'' result)
                else throw e
            | Inr agent \<Rightarrow>
                let check = lElig l \<lparr>eiAgent = agent, eiOrder = key, eiBuyerUserID = epBuyerUserID ev\<rparr> in
                if \<not> fst check
                then ret (accrueSkip 1 (ukUserID (agKey agent)) SkipIneligible (snd check) result)
                else andThen (accrueBases l ev (ukUserID (agKey agent)) result) (\<lambda>(allocatedBase, result).
                  ret (if allocatedBase <s epPaidAmount ev
                       then result\<lparr>arUnallocatedBase := epPaidAmount ev - allocatedBase\<rparr> else result))))))"

text \<open>
  The fallback for an unset payment time never applies: the validation has refused that event.
\<close>

definition OnOrderPaid :: "ledger \<Rightarrow> order_paid_event \<Rightarrow> (mem_store, accrue_result) step" where
  "OnOrderPaid l ev = (case paidValidate ev of Some e \<Rightarrow> throw e | None \<Rightarrow> Update (orderPaidBody l ev))"

subsection \<open>Every invariant of the store survives\<close>

context tx_rows
begin

lemma keeps_creditAccrual: "keeps inv (creditAccrual c now)"
  unfolding creditAccrual_def Let_def by (intro hoare_rules keeps_ops)

lemma keeps_accrueLayers: "keeps inv (accrueLayers l ev base capAmount layers agentUserID allocated result)"
proof (induction layers arbitrary: agentUserID allocated result)
  case Nil
  show ?case by (simp add: keeps_ret)
next
  case (Cons layer layers)
  show ?case unfolding accrueLayers.simps(2) Let_def
    by (intro hoare_rules keeps_ops keeps_creditAccrual Cons.IH)
qed

lemma keeps_orderPaid: "keeps inv (orderPaidBody l ev)"
  unfolding orderPaidBody_def accrueBases_def accrueBase_def Let_def
  by (intro hoare_rules keeps_ops keeps_accrueLayers)

end

end
