(* ===== verification/Settle.thy ===== *)
theory Settle
  imports Accrual
begin

text \<open>
  settle.go: the receipt of an order fixes the settlement date of its commissions, and the
  maintenance heartbeat settles what has come due, tenant by tenant, in bounded batches under
  one work budget.
\<close>

definition maintainBatch :: int where "maintainBatch = 200"
definition maintainWorkBatch :: int where "maintainWorkBatch = 2000"
definition maxMaintainRounds :: nat where "maxMaintainRounds = 100"
definition maxSettlePerMaintain :: int where "maxSettlePerMaintain = 20000"

text \<open>The budget object is its one field, \<open>left\<close>.\<close>

definition budgetExhausted :: "int \<Rightarrow> bool" where
  "budgetExhausted left \<longleftrightarrow> left \<le> 0"

definition budgetSpend :: "int \<Rightarrow> int \<Rightarrow> int" where
  "budgetSpend n left = (if left - n < 0 then 0 else left - n)"

definition budgetPermits :: "int \<Rightarrow> int \<Rightarrow> int" where
  "budgetPermits want left = (if left < want then left else want)"

subsection \<open>Receipts\<close>

definition receiveOne :: "gotime \<Rightarrow> commission \<Rightarrow> receive_result \<Rightarrow> (txn, receive_result) step" where
  "receiveOne at c result =
     (if cState c \<noteq> CommissionPending \<and> cState c \<noteq> CommissionFrozen then ret result
      else if cAvailableAt c \<noteq> 0 then ret result
      else attempt (SetCommissionAvailableAt (cID c) (addDays at (cFreezeDays c)) (cVersion c)) (\<lambda>r. case r of
          Inl e \<Rightarrow> if isConflict e then ret result else throw e
        | Inr _ \<Rightarrow> ret (result\<lparr>rrUpdated := rrUpdated result + 1\<rparr>)))"

definition orderReceivedBody :: "order_key \<Rightarrow> gotime \<Rightarrow> (txn, receive_result) step" where
  "orderReceivedBody key at =
     andThen (rd (rdCommissionsByOrder key)) (\<lambda>list.
       loopM (receiveOne at) list \<lparr>rrOrderKey = key, rrUpdated = 0\<rparr>)"

definition OnOrderReceived :: "ledger \<Rightarrow> order_received_event \<Rightarrow> (mem_store, receive_result) step" where
  "OnOrderReceived l ev =
     (case receivedValidate ev of Some e \<Rightarrow> throw e | None \<Rightarrow>
      Update (orderReceivedBody (erOrderKey ev) (if erReceivedAt ev = 0 then lNow l else erReceivedAt ev)))"

subsection \<open>Settling one commission\<close>

definition settleOne :: "commission \<Rightarrow> money \<Rightarrow> gotime \<Rightarrow> (txn, bool) step" where
  "settleOne c outstanding now =
     andThen (TransitionCommission (cID c) CommissionPending CommissionSettled (cVersion c)) (\<lambda>_.
     let key = UserKey (okTenantID (cKey c)) (cAgentUserID c) in
     andThen (IncrementAccount (zeroDelta\<lparr>dKey := key, dFrozen := - outstanding, dAvailable := outstanding,
        dRequireNonNegative := True, dAt := now\<rparr>)) (\<lambda>saved.
     andThen (AppendLedger (bucketAddDelta BucketAvailable outstanding
        (newLedgerEntry key LedgerSettle (formatInt (cID c))
          (''settle order '' @ okOrderID (cKey c) @ '' layer '' @ formatInt (cLayer c))
          now saved BucketFrozen (- outstanding)))) (\<lambda>_.
     ret True)))"

text \<open>One round of a tenant: the count, the amount and the quarantined ids.\<close>

definition settleStep ::
  "gotime \<Rightarrow> commission \<Rightarrow> nat \<times> money \<times> int list \<Rightarrow> (txn, nat \<times> money \<times> int list) step" where
  "settleStep now c = (\<lambda>(count, amount, quarantine).
     let outstanding = OutstandingAmount c in
     if cAmount c <=s 0 \<or> outstanding <=s 0 then ret (count, amount, quarantine @ [cID c])
     else attempt (settleOne c outstanding now) (\<lambda>r. case r of
         Inl e \<Rightarrow> if isConflict e then ret (count, amount, quarantine) else throw e
       | Inr settled \<Rightarrow>
           if settled then
             (case moneyAdd amount outstanding of
                Inl e \<Rightarrow> throw e
              | Inr amount' \<Rightarrow> ret (count + 1, amount', quarantine))
           else ret (count, amount, quarantine)))"

definition settleRound :: "int \<Rightarrow> gotime \<Rightarrow> int \<Rightarrow> (txn, nat \<times> money \<times> int list) step" where
  "settleRound tenantID now limit =
     andThen (rd (rdDueCommissions tenantID now limit)) (\<lambda>due. loopM (settleStep now) due (0, 0, []))"

subsection \<open>Maintenance\<close>

text \<open>
  \<open>maintainTenant\<close> runs at most \<open>rounds\<close> transactions; it returns its result, the error it stopped
  at if any, and the budget it leaves.
\<close>

fun maintainTenantRounds ::
  "nat \<Rightarrow> int \<Rightarrow> gotime \<Rightarrow> int \<Rightarrow> maintain_result \<Rightarrow> mem_store \<Rightarrow> (maintain_result \<times> gerror option \<times> int) \<times> mem_store" where
  "maintainTenantRounds 0 tenantID now left out s = ((out, None, left), s)"
| "maintainTenantRounds (Suc rounds) tenantID now left out s =
     (if budgetExhausted left then ((out, None, left), s)
      else case Update (settleRound tenantID now (budgetPermits maintainBatch left)) s of
          (Inl e, s') \<Rightarrow> ((out, Some e, left), s')
        | (Inr (count, amount, quarantine), s') \<Rightarrow>
            let left' = budgetSpend (int count) left;
                out1 = out\<lparr>mrSettledCount := mrSettledCount out + count\<rparr>
            in case moneyAdd (mrSettledAmount out1) amount of
                 Inl e \<Rightarrow> ((out1, Some e, left'), s')
               | Inr amount' \<Rightarrow>
                   let out2 = out1\<lparr>mrSettledAmount := amount', mrQuarantined := mrQuarantined out1 @ quarantine\<rparr>
                   in if count = 0 then ((out2, None, left'), s')
                      else maintainTenantRounds rounds tenantID now left' out2 s')"

definition maintainTenant ::
  "int \<Rightarrow> gotime \<Rightarrow> int \<Rightarrow> mem_store \<Rightarrow> (maintain_result \<times> gerror option \<times> int) \<times> mem_store" where
  "maintainTenant tenantID now left s = maintainTenantRounds maxMaintainRounds tenantID now left zeroMaintain s"

text \<open>
  \<open>groupByTenant\<close> yields the tenants of a batch in ascending order; the commissions it groups are
  not used by its caller.
\<close>

definition groupByTenant :: "commission list \<Rightarrow> (int \<times> commission list) list" where
  "groupByTenant batch =
     map (\<lambda>n. (n, filter (\<lambda>c. okTenantID (cKey c) = n) batch))
       (sort (remdups (map (\<lambda>c. okTenantID (cKey c)) batch)))"

text \<open>The ids not seen before, each once, with the set of those seen.\<close>

fun quarantineNew :: "int list \<Rightarrow> int set \<Rightarrow> int list \<times> int set" where
  "quarantineNew [] seen = ([], seen)"
| "quarantineNew (i # is) seen =
     (if i \<in> seen then quarantineNew is seen
      else case quarantineNew is (insert i seen) of (new, seen') \<Rightarrow> (i # new, seen'))"

record maintain_state =
  msTotal :: maintain_result
  msSeen :: "int set"
  msFailed :: "gerror list"
  msLeft :: int
  msProgressed :: bool

text \<open>The loop over the tenants of one batch; the error is one that ends the whole call.\<close>

fun maintainGroups ::
  "gotime \<Rightarrow> int list \<Rightarrow> maintain_state \<Rightarrow> mem_store \<Rightarrow> (gerror option \<times> maintain_state) \<times> mem_store" where
  "maintainGroups now [] ms s = ((None, ms), s)"
| "maintainGroups now (tenantID # tenants) ms s =
     (if budgetExhausted (msLeft ms) then ((None, ms), s)
      else case maintainTenant tenantID now (msLeft ms) s of ((part, err, left'), s') \<Rightarrow>
        let (new, seen') = quarantineNew (mrQuarantined part) (msSeen ms);
            total0 = msTotal ms;
            total1 = total0\<lparr>mrQuarantined := mrQuarantined total0 @ new,
                            mrSettledCount := mrSettledCount total0 + mrSettledCount part\<rparr>;
            ms1 = ms\<lparr>msTotal := total1, msSeen := seen', msLeft := left'\<rparr>
        in case moneyAdd (mrSettledAmount total1) (mrSettledAmount part) of
             Inl e \<Rightarrow> ((Some e, ms1), s')
           | Inr amount \<Rightarrow>
               maintainGroups now tenants
                 (ms1\<lparr>msTotal := total1\<lparr>mrSettledAmount := amount\<rparr>,
                      msProgressed := (msProgressed ms \<or> mrSettledCount part > 0),
                      msFailed := msFailed ms @ (case err of None \<Rightarrow> [] | Some e \<Rightarrow> [e])\<rparr>) s')"

text \<open>The rounds of the call. The result is the total with the errors it reports, none if empty.\<close>

fun maintainRounds ::
  "nat \<Rightarrow> gotime \<Rightarrow> maintain_state \<Rightarrow> mem_store \<Rightarrow> (maintain_result \<times> gerror list) \<times> mem_store" where
  "maintainRounds 0 now ms s = ((msTotal ms, msFailed ms), s)"
| "maintainRounds (Suc rounds) now ms s =
     (if budgetExhausted (msLeft ms) then ((msTotal ms, msFailed ms), s)
      else case View (rdDueWork now maintainWorkBatch) s of
          (Inl e, s') \<Rightarrow> ((msTotal ms, [e]), s')
        | (Inr batch, s') \<Rightarrow>
            if batch = [] then ((msTotal ms, msFailed ms), s')
            else case maintainGroups now (map fst (groupByTenant batch)) (ms\<lparr>msProgressed := False\<rparr>) s' of
                ((Some e, ms'), s'') \<Rightarrow> ((msTotal ms', [e]), s'')
              | ((None, ms'), s'') \<Rightarrow>
                  if \<not> msProgressed ms' then ((msTotal ms', msFailed ms'), s'')
                  else maintainRounds rounds now ms' s'')"

definition Maintain :: "ledger \<Rightarrow> mem_store \<Rightarrow> (maintain_result \<times> gerror list) \<times> mem_store" where
  "Maintain l s = maintainRounds maxMaintainRounds (lNow l)
     \<lparr>msTotal = zeroMaintain, msSeen = {}, msFailed = [], msLeft = maxSettlePerMaintain, msProgressed = False\<rparr> s"

subsection \<open>Every invariant of the store survives\<close>

context tx_moves
begin

lemma keeps_orderReceived: "keeps inv (orderReceivedBody key at)"
  unfolding orderReceivedBody_def receiveOne_def by (intro hoare_rules keeps_moves)

lemma keeps_settleOne: "keeps inv (settleOne c outstanding now)"
  unfolding settleOne_def Let_def by (intro hoare_rules keeps_moves)

lemma keeps_settleRound: "keeps inv (settleRound tenantID now limit)"
  unfolding settleRound_def settleStep_def Let_def by (intro hoare_rules keeps_moves keeps_settleOne)

end

end
