(* ===== verification/Reversal.thy ===== *)
theory Reversal
  imports Settle "HOL-Library.List_Lexorder" "HOL-Library.Char_ord"
begin

text \<open>
  reversal.go: refunds. The cumulative refund of an item scales what each of its accruals must
  give back; the difference to what it gave back already is clawed back from the bucket the money
  is in, with a reversal record and a ledger entry.
\<close>

definition reasonRefund :: string where "reasonRefund = ''refund''"
definition reasonVoid :: string where "reasonVoid = ''void''"

subsection \<open>Grouping\<close>

text \<open>A Go map from item ids is an association list in order of first insertion.\<close>

type_synonym item_groups = "(string \<times> commission list) list"

fun groupAppend :: "string \<Rightarrow> commission \<Rightarrow> item_groups \<Rightarrow> item_groups" where
  "groupAppend k c [] = [(k, [c])]"
| "groupAppend k c ((j, cs) # g) = (if j = k then (j, cs @ [c]) # g else (j, cs) # groupAppend k c g)"

definition groupAccrualsByItem :: "commission list \<Rightarrow> item_groups" where
  "groupAccrualsByItem all =
     fold (\<lambda>c groups. if cAmount c <=s 0 then groups else groupAppend (cOrderItemID c) c groups) all []"

definition groupOf :: "item_groups \<Rightarrow> string \<Rightarrow> commission list" where
  "groupOf groups k = (case map_of groups k of None \<Rightarrow> [] | Some cs \<Rightarrow> cs)"

definition sortedItemIDs :: "item_groups \<Rightarrow> string list" where
  "sortedItemIDs groups = sort (map fst groups)"

definition baseOf :: "commission list \<Rightarrow> money" where
  "baseOf cs = (case cs of [] \<Rightarrow> 0 | c # _ \<Rightarrow> cBaseAmount c)"

subsection \<open>Shares\<close>

text \<open>
  The shares of a refund and the amounts refunded so far are Go maps that are only read by key,
  with zero for a missing one: functions that are zero almost everywhere.
\<close>

type_synonym item_amounts = "string \<Rightarrow> money"

definition shareItem :: "item_groups \<Rightarrow> refund_item \<Rightarrow> item_amounts \<Rightarrow> gerror + item_amounts" where
  "shareItem groups it shares =
     (case map_of groups (riItemID it) of
        None \<Rightarrow> Inl (FieldError ''items'')
      | Some cs \<Rightarrow>
          if baseOf cs <s riAmount it then Inl (FieldError ''items'')
          else Inr (shares(riItemID it := riAmount it)))"

text \<open>The proportional split: every item but the last takes its quotient, the last the rest.\<close>

fun splitAmount :: "item_groups \<Rightarrow> money \<Rightarrow> money \<Rightarrow> string list \<Rightarrow> money \<Rightarrow> item_amounts \<Rightarrow> gerror + item_amounts" where
  "splitAmount groups amount totalBase [] allocated shares = Inr shares"
| "splitAmount groups amount totalBase (k # ks) allocated shares =
     (let base = baseOf (groupOf groups k) in
      case (if ks = [] then moneySub amount allocated else moneyMulDiv amount base totalBase RoundDown) of
        Inl e \<Rightarrow> Inl e
      | Inr share0 \<Rightarrow>
          let share1 = (if share0 <s 0 then 0 else share0);
              share = (if base <s share1 then base else share1)
          in case moneyAdd allocated share of
               Inl e \<Rightarrow> Inl e
             | Inr next \<Rightarrow> splitAmount groups amount totalBase ks next (shares(k := share)))"

definition refundShares :: "order_refunded_event \<Rightarrow> item_groups \<Rightarrow> gerror + item_amounts" where
  "refundShares ev groups =
     (if efIsFull ev then Inr (\<lambda>k. baseOf (groupOf groups k))
      else if efItems ev \<noteq> [] then foldE (shareItem groups) (efItems ev) (\<lambda>_. 0)
      else
        let ids = sortedItemIDs groups in
        case foldE (\<lambda>k tot. moneyAdd tot (baseOf (groupOf groups k))) ids 0 of
          Inl e \<Rightarrow> Inl e
        | Inr totalBase \<Rightarrow>
            if totalBase <=s 0 then Inl (FieldError ''amount'')
            else splitAmount groups (efAmount ev) totalBase ids 0 (\<lambda>_. 0))"

definition cumulativeOf :: "refund list \<Rightarrow> item_amounts" where
  "cumulativeOf refunds =
     fold (\<lambda>r out. if out (rfItemID r) <s rfCumulative r then out(rfItemID r := rfCumulative r) else out) refunds (\<lambda>_. 0)"

definition cumulativeRefunds :: "order_key \<Rightarrow> (txn, item_amounts) step" where
  "cumulativeRefunds key = andThen (rd (rdRefundsByOrder key)) (\<lambda>refunds. ret (cumulativeOf refunds))"

subsection \<open>Clawing back\<close>

definition reversalDelta ::
  "commission \<Rightarrow> money \<Rightarrow> money \<Rightarrow> commission_state \<Rightarrow> money \<times> money \<times> skip_reason option" where
  "reversalDelta original cumulative base terminal =
     (if cState original = CommissionReversed \<or> cState original = CommissionVoid
      then (0, 0, Some \<lparr>skLayer = cLayer original, skAgentUserID = cAgentUserID original, skCode = SkipFullyReversed,
                    skDetail = ''commission state is '' @ commissionStateString (cState original)\<rparr>)
      else if terminal = CommissionVoid \<and> cAmount original <=s 0 then (0, 0, None)
      else
        case (if terminal = CommissionVoid then Inr (cAmount original)
              else case moneyMulDiv (cAmount original) cumulative base RoundDown of
                Inl e \<Rightarrow> Inl e
              | Inr want \<Rightarrow> Inr (if cAmount original <s want then cAmount original else want)) of
          Inl (_ :: gerror) \<Rightarrow> (0, 0, None)
        | Inr want \<Rightarrow>
            if want <=s cReversedAmount original then (0, 0, None)
            else (want - cReversedAmount original, want, None))"

definition reversalBucket :: "commission_state \<Rightarrow> gerror + bucket" where
  "reversalBucket st = (case st of
      CommissionPending \<Rightarrow> Inr BucketFrozen
    | CommissionFrozen \<Rightarrow> Inr BucketFrozen
    | CommissionSettled \<Rightarrow> Inr BucketAvailable
    | _ \<Rightarrow> Inl (TransitionError ''commission clawback'' (commissionStateString st) (commissionStateString CommissionReversed)))"

text \<open>
  The debit. An uncovered one is refused, or booked as a debt of the available bucket where the
  rules allow it.
\<close>

definition debitEntry ::
  "commission \<Rightarrow> bucket \<Rightarrow> money \<Rightarrow> string \<Rightarrow> int \<Rightarrow> money \<Rightarrow> money \<Rightarrow> gotime \<Rightarrow> account \<Rightarrow> ledger_entry" where
  "debitEntry original bkt delta reason reversalID target originalAmount at saved =
     newLedgerEntry (UserKey (okTenantID (cKey original)) (cAgentUserID original))
       (if reason = reasonVoid then LedgerVoid else LedgerReverse) (formatInt reversalID)
       (reason @ '' order '' @ okOrderID (cKey original) @ '' layer '' @ formatInt (cLayer original) @
        '' (reversed '' @ moneyString target @ '' of '' @ moneyString originalAmount @ '')'')
       at saved bkt (- delta)"

definition debitBucket ::
  "ledger \<Rightarrow> commission \<Rightarrow> bucket \<Rightarrow> money \<Rightarrow> string \<Rightarrow> int \<Rightarrow> money \<Rightarrow> money \<Rightarrow> gotime \<Rightarrow> (txn, unit) step" where
  "debitBucket l original bkt delta reason reversalID target originalAmount at =
     (let key = UserKey (okTenantID (cKey original)) (cAgentUserID original);
          clawback = bucketAddToDelta bkt (- delta)
            (zeroDelta\<lparr>dKey := key, dTotalReversed := delta, dRequireNonNegative := True, dAt := at\<rparr>)
      in attempt (IncrementAccount clawback) (\<lambda>r. case r of
        Inr saved \<Rightarrow>
          andThen (AppendLedger (debitEntry original bkt delta reason reversalID target originalAmount at saved)) (\<lambda>_. ret ())
      | Inl e \<Rightarrow>
          if e \<noteq> ErrInsufficientBalance then throw e
          else if \<not> rAllowNegative (lRules l) \<or> bkt \<noteq> BucketAvailable then throw ErrInsufficientBalance
          else
            andThen (IncrementAccount (clawback\<lparr>dRequireNonNegative := False\<rparr>)) (\<lambda>saved.
            andThen (AppendLedger (debitEntry original bkt delta
                (reason @ '' (uncovered: money already paid out)'') reversalID target originalAmount at saved)) (\<lambda>_.
            ret ()))))"

text \<open>The reversal record that stands against an accrual.\<close>

definition reversalRecord :: "ledger \<Rightarrow> commission \<Rightarrow> money \<Rightarrow> money \<Rightarrow> gotime \<Rightarrow> commission" where
  "reversalRecord l original delta target at = zeroCommission\<lparr>
     cKey := cKey original,
     cIdemKey := reverseIdemKey (lDigest l) (cKey original) (cOrderItemID original) (cAgentUserID original) (cLayer original) target,
     cOrderItemID := cOrderItemID original, cBuyerUserID := cBuyerUserID original,
     cAgentUserID := cAgentUserID original, cLayer := cLayer original,
     cBaseAmount := cBaseAmount original, cRate := cRate original, cAmount := - delta,
     cState := CommissionReversed, cRuleVersion := cRuleVersion original,
     cRuleSnapshot := cRuleSnapshot original, cReverseOf := cID original, cAccruedAt := at\<rparr>"

definition clawBack ::
  "ledger \<Rightarrow> commission \<Rightarrow> money \<Rightarrow> money \<Rightarrow> commission_state \<Rightarrow> string \<Rightarrow> gotime \<Rightarrow> (txn, commission) step" where
  "clawBack l original delta target terminal reason at =
     andThen (AppendCommission (reversalRecord l original delta target at)) (\<lambda>reversal.
     andThen (SetCommissionReversedAmount (cID original) target (cVersion original)) (\<lambda>cur0.
     andThen (if FullyReversed cur0 \<and> cState cur0 \<noteq> terminal
              then TransitionCommission (cID cur0) (cState cur0) terminal (cVersion cur0)
              else ret cur0) (\<lambda>cur.
     case reversalBucket (cState original) of
       Inl e \<Rightarrow> throw e
     | Inr bkt \<Rightarrow>
         andThen (debitBucket l original bkt delta reason (cID reversal) target (cAmount cur) at) (\<lambda>_.
         ret reversal))))"

subsection \<open>Refunds\<close>

definition reverseStep ::
  "ledger \<Rightarrow> money \<Rightarrow> money \<Rightarrow> gotime \<Rightarrow> commission \<Rightarrow> refund_result \<Rightarrow> (txn, refund_result) step" where
  "reverseStep l base cumulative at original result =
     (case reversalDelta original cumulative base CommissionReversed of (delta, target, skip) \<Rightarrow>
      case skip of
        Some sk \<Rightarrow> ret (result\<lparr>frSkipped := frSkipped result @ [sk]\<rparr>)
      | None \<Rightarrow>
          if delta <=s 0 then ret result
          else attempt (clawBack l original delta target CommissionReversed reasonRefund at) (\<lambda>r. case r of
            Inl e \<Rightarrow> if e = ErrDuplicate then ret result else throw e
          | Inr reversal \<Rightarrow>
              case moneyAdd (frReversedAmount result) delta of
                Inl e \<Rightarrow> throw e
              | Inr next \<Rightarrow> ret (result\<lparr>frReversed := frReversed result @ [reversal], frReversedAmount := next\<rparr>)))"

text \<open>
  \<open>sort.Slice\<close> by level: an item has one accrual per level, so the order is determined.
\<close>

definition reverseItem ::
  "ledger \<Rightarrow> commission list \<Rightarrow> money \<Rightarrow> money \<Rightarrow> gotime \<Rightarrow> refund_result \<Rightarrow> (txn, refund_result) step" where
  "reverseItem l cs base cumulative at result =
     (if base <=s 0 \<or> cumulative <=s 0 then ret result
      else loopM (reverseStep l base cumulative at) (sort_key cLayer cs) result)"

definition refundItem ::
  "ledger \<Rightarrow> order_refunded_event \<Rightarrow> item_groups \<Rightarrow> item_amounts \<Rightarrow> item_amounts \<Rightarrow> string \<Rightarrow> refund_result \<Rightarrow>
   (txn, refund_result) step" where
  "refundItem l ev groups cumulative shares itemID result =
     (let base = baseOf (groupOf groups itemID);
          target0 = cumulative itemID + shares itemID;
          target = (if base <s target0 then base else target0)
      in if target <=s cumulative itemID then ret result
         else attempt (AppendRefund \<lparr>rfID = 0, rfKey = efOrderKey ev, rfItemID = itemID, rfAmount = shares itemID,
                rfCumulative = target, rfIdemKey = refundIdemKey (lDigest l) (efOrderKey ev) itemID (efIdemKey ev),
                rfRefundedAt = efRefundedAt ev\<rparr>) (\<lambda>r. case r of
           Inl e \<Rightarrow>
             if e = ErrDuplicate
             then ret (result\<lparr>frSkipped := frSkipped result @ [\<lparr>skLayer = 1, skAgentUserID = 0, skCode = SkipFullyReversed,
                    skDetail = ''refund instalment '' @ efIdemKey ev @ '' was already applied''\<rparr>]\<rparr>)
             else throw e
         | Inr _ \<Rightarrow> reverseItem l (groupOf groups itemID) base target (efRefundedAt ev) result))"

definition orderRefundedBody :: "ledger \<Rightarrow> order_refunded_event \<Rightarrow> (txn, refund_result) step" where
  "orderRefundedBody l ev =
     (let key = efOrderKey ev; result = newRefundResult key;
          skip = (\<lambda>code detail. result\<lparr>frSkipped := [\<lparr>skLayer = 0, skAgentUserID = 0, skCode = code, skDetail = detail\<rparr>],
                    frAlreadyReversed := True\<rparr>)
      in andThen (rd (rdCommissionsByOrder key)) (\<lambda>all.
         if all = [] then ret (skip SkipNoParent ''order has no commissions yet'')
         else
           let groups = groupAccrualsByItem all in
           if groups = [] then ret (skip SkipFullyReversed ''order has no accrual records'')
           else andThen (cumulativeRefunds key) (\<lambda>cumulative.
             case refundShares ev groups of
               Inl e \<Rightarrow> throw e
             | Inr shares \<Rightarrow>
                 andThen (loopM (refundItem l ev groups cumulative shares) (sortedItemIDs groups) result) (\<lambda>result.
                   ret (result\<lparr>frAlreadyReversed := (frReversed result = [])\<rparr>)))))"

definition OnOrderRefunded :: "ledger \<Rightarrow> order_refunded_event \<Rightarrow> (mem_store, refund_result) step" where
  "OnOrderRefunded l ev =
     (case refundedValidate ev of Some e \<Rightarrow> throw e | None \<Rightarrow> Update (orderRefundedBody l ev))"

subsection \<open>Every invariant of the store survives\<close>

context tx_rows
begin

lemma keeps_clawBack: "keeps inv (clawBack l original delta target terminal reason at)"
  unfolding clawBack_def debitBucket_def Let_def by (intro hoare_rules keeps_ops)

lemma keeps_reverseItem: "keeps inv (reverseItem l cs base cumulative at result)"
  unfolding reverseItem_def reverseStep_def by (intro hoare_rules keeps_ops keeps_clawBack)

lemma keeps_orderRefunded: "keeps inv (orderRefundedBody l ev)"
  unfolding orderRefundedBody_def cumulativeRefunds_def refundItem_def Let_def
  by (intro hoare_rules keeps_ops keeps_reverseItem)

end

end
