(* ===== verification/Risk.thy ===== *)
theory Risk
  imports Reversal
begin

text \<open>risk.go: freezing, unfreezing and voiding a commission by an operator.\<close>

definition maxReasonLen :: nat where "maxReasonLen = 128"

definition validateReason :: "string \<Rightarrow> gerror option" where
  "validateReason reason = (if length reason > maxReasonLen then Some (FieldError ''reason'') else None)"

definition loadScopedCommission :: "int \<Rightarrow> int \<Rightarrow> data \<Rightarrow> gerror + commission" where
  "loadScopedCommission tenantID commissionID d =
     (if tenantID < 0 then Inl (FieldError ''tenant_id'')
      else if commissionID \<le> 0 then Inl (FieldError ''commission_id'')
      else case rdCommission commissionID d of
          Inl e \<Rightarrow> Inl e
        | Inr cur \<Rightarrow> if okTenantID (cKey cur) \<noteq> tenantID then Inl ErrNotFound else Inr cur)"

definition freezeBody :: "int \<Rightarrow> int \<Rightarrow> (txn, commission) step" where
  "freezeBody tenantID commissionID =
     andThen (rd (loadScopedCommission tenantID commissionID)) (\<lambda>cur.
       if cState cur \<noteq> CommissionPending
       then throw (TransitionError ''commission freeze'' (commissionStateString (cState cur)) (commissionStateString CommissionFrozen))
       else TransitionCommission (cID cur) CommissionPending CommissionFrozen (cVersion cur))"

definition FreezeCommission :: "int \<Rightarrow> int \<Rightarrow> string \<Rightarrow> (mem_store, commission) step" where
  "FreezeCommission tenantID commissionID reason =
     (case validateReason reason of Some e \<Rightarrow> throw e | None \<Rightarrow> Update (freezeBody tenantID commissionID))"

definition unfreezeBody :: "int \<Rightarrow> int \<Rightarrow> (txn, commission) step" where
  "unfreezeBody tenantID commissionID =
     andThen (rd (loadScopedCommission tenantID commissionID)) (\<lambda>cur.
       if cState cur \<noteq> CommissionFrozen
       then throw (TransitionError ''commission unfreeze'' (commissionStateString (cState cur)) (commissionStateString CommissionPending))
       else TransitionCommission (cID cur) CommissionFrozen CommissionPending (cVersion cur))"

definition UnfreezeCommission :: "int \<Rightarrow> int \<Rightarrow> string \<Rightarrow> (mem_store, commission) step" where
  "UnfreezeCommission tenantID commissionID reason =
     (case validateReason reason of Some e \<Rightarrow> throw e | None \<Rightarrow> Update (unfreezeBody tenantID commissionID))"

definition voidBody :: "ledger \<Rightarrow> int \<Rightarrow> int \<Rightarrow> (txn, commission) step" where
  "voidBody l tenantID commissionID =
     andThen (rd (loadScopedCommission tenantID commissionID)) (\<lambda>cur.
       if cState cur \<noteq> CommissionPending \<and> cState cur \<noteq> CommissionFrozen
       then throw (TransitionError ''commission void'' (commissionStateString (cState cur)) (commissionStateString CommissionVoid))
       else if OutstandingAmount cur <=s 0 then ret cur
       else case reversalDelta cur 0 1 CommissionVoid of (delta, target, skip) \<Rightarrow>
         if skip \<noteq> None then ret cur
         else attempt (clawBack l cur delta target CommissionVoid reasonVoid (lNow l)) (\<lambda>r. case r of
             Inl e \<Rightarrow> if e = ErrDuplicate then ret cur else throw e
           | Inr _ \<Rightarrow> rd (rdCommission (cID cur))))"

definition VoidCommission :: "ledger \<Rightarrow> int \<Rightarrow> int \<Rightarrow> string \<Rightarrow> (mem_store, commission) step" where
  "VoidCommission l tenantID commissionID reason =
     (case validateReason reason of Some e \<Rightarrow> throw e | None \<Rightarrow> Update (voidBody l tenantID commissionID))"

subsection \<open>Every invariant of the store survives\<close>

context tx_moves
begin

lemma keeps_freeze: "keeps inv (freezeBody tenantID commissionID)"
  unfolding freezeBody_def by (intro hoare_rules keeps_moves)

lemma keeps_unfreeze: "keeps inv (unfreezeBody tenantID commissionID)"
  unfolding unfreezeBody_def by (intro hoare_rules keeps_moves)

end

context tx_rows
begin

lemma keeps_void: "keeps inv (voidBody l tenantID commissionID)"
  unfolding voidBody_def by (intro hoare_rules keeps_ops keeps_clawBack)

end

end
