(* ===== verification/Payout.thy ===== *)
theory Payout
  imports Risk
begin

text \<open>
  payout.go: withdrawal requests, their approval or rejection, and the payout. A request reserves
  the amount by moving it to the withdrawing bucket; rejection moves it back, payment moves it on.
  The payment channel is a function from the request to an error text or a result; paying is two
  transactions with the channel call between them.
\<close>

definition maxChannelLen :: nat where "maxChannelLen = 64"
definition maxInvoiceLen :: nat where "maxInvoiceLen = 256"

definition manualChannelName :: string where "manualChannelName = ''manual''"

definition manualPay :: "payout_request \<Rightarrow> string + payout_result" where
  "manualPay req = Inr \<lparr>psPaid = True, psInvoiceNo = [], psFailReason = []\<rparr>"

text \<open>The test channel, with the calls it records.\<close>

record mock_channel =
  mcFail :: bool
  mcInvoice :: string
  mcCalls :: "payout_request list"

definition mockPay :: "payout_request \<Rightarrow> mock_channel \<Rightarrow> (string + payout_result) \<times> mock_channel" where
  "mockPay req c =
     (let c' = c\<lparr>mcCalls := mcCalls c @ [req]\<rparr> in
      if mcFail c then (Inr \<lparr>psPaid = False, psInvoiceNo = [], psFailReason = ''mock channel configured to fail''\<rparr>, c')
      else (Inr \<lparr>psPaid = True,
                 psInvoiceNo = (if mcInvoice c = [] then ''MOCK-'' @ prIdemKey req else mcInvoice c),
                 psFailReason = []\<rparr>, c'))"

definition validateIdemKey :: "string \<Rightarrow> gerror option" where
  "validateIdemKey key =
     (if key = [] then Some (FieldError ''idem_key'')
      else if length key > MaxIdemKeyLen then Some (FieldError ''idem_key'')
      else if trimSpace key \<noteq> key then Some (FieldError ''idem_key'')
      else None)"

definition withdrawFee :: "money \<Rightarrow> rate \<Rightarrow> rounding \<Rightarrow> gerror + money" where
  "withdrawFee amount rate rounding =
     (if rate = 0 then Inr 0
      else case moneyApply amount rate rounding of
          Inl e \<Rightarrow> Inl e
        | Inr fee \<Rightarrow> if amount <=s fee then Inl (FieldError ''fee_rate_bp'') else Inr fee)"

subsection \<open>Requesting\<close>

definition requestWithdrawBody ::
  "ledger \<Rightarrow> withdraw_request \<Rightarrow> string \<Rightarrow> money \<Rightarrow> (txn, withdrawal \<times> bool) step" where
  "requestWithdrawBody l req channel fee =
     (let key = UserKey (wrTenantID req) (wrUserID req);
          idem = withdrawIdemKey (lDigest l) (wrTenantID req) (wrIdemKey req);
          at = lNow l
      in attempt (rd (rdWithdrawalByIdemKey (wrTenantID req) idem)) (\<lambda>r. case r of
        Inr prior \<Rightarrow> ret (prior, True)
      | Inl e \<Rightarrow>
          if e \<noteq> ErrNotFound then throw e
          else attempt (AppendWithdrawal \<lparr>wID = 0, wKey = key, wIdemKey = idem, wAmount = wrAmount req, wFee = fee,
                 wRealAmount = wrAmount req - fee, wChannel = channel, wAccountInfo = wrAccountInfo req,
                 wState = WithdrawalApplied, wFailReason = [], wTaxAmount = 0, wInvoiceNo = [], wOperator = [],
                 wAppliedAt = at, wAuditedAt = 0, wPaidAt = 0, wVersion = 0\<rparr>) (\<lambda>ra. case ra of
            Inl e \<Rightarrow>
              if e = ErrDuplicate
              then andThen (rd (rdWithdrawalByIdemKey (wrTenantID req) idem)) (\<lambda>prior. ret (prior, True))
              else throw e
          | Inr saved \<Rightarrow>
              andThen (IncrementAccount (zeroDelta\<lparr>dKey := key, dAvailable := - wrAmount req,
                 dWithdrawing := wrAmount req, dRequireNonNegative := True, dAt := at\<rparr>)) (\<lambda>acct.
              andThen (AppendLedger (bucketAddDelta BucketWithdrawing (wrAmount req)
                 (newLedgerEntry key LedgerWithdrawHold (formatInt (wID saved))
                   (''withdraw request '' @ formatInt (wID saved) @ '' hold '' @ moneyString (wrAmount req) @
                    '' fee '' @ moneyString fee)
                   at acct BucketAvailable (- wrAmount req)))) (\<lambda>_.
              ret (saved, False))))))"

definition RequestWithdraw :: "ledger \<Rightarrow> withdraw_request \<Rightarrow> (mem_store, withdrawal \<times> bool) step" where
  "RequestWithdraw l req =
     (if wrTenantID req < 0 then throw (FieldError ''tenant_id'')
      else if wrUserID req \<le> 0 then throw (FieldError ''user_id'')
      else if wrAmount req <=s 0 then throw (FieldError ''amount'')
      else case validateIdemKey (wrIdemKey req) of Some e \<Rightarrow> throw e | None \<Rightarrow>
        let channel = (if wrChannel req = [] then manualChannelName else wrChannel req) in
        if length channel > maxChannelLen then throw (FieldError ''channel'')
        else if wrAmount req <s rMinWithdraw (lRules l) then throw (FieldError ''amount'')
        else case withdrawFee (wrAmount req) (rFeeRateBP (lRules l)) (rRounding (lRules l)) of
            Inl e \<Rightarrow> throw e
          | Inr fee \<Rightarrow> Update (requestWithdrawBody l req channel fee))"

subsection \<open>Deciding\<close>

definition loadScopedWithdrawal :: "int \<Rightarrow> int \<Rightarrow> data \<Rightarrow> gerror + withdrawal" where
  "loadScopedWithdrawal tenantID wid d =
     (if tenantID < 0 then Inl (FieldError ''tenant_id'')
      else if wid \<le> 0 then Inl (FieldError ''withdrawal_id'')
      else case rdWithdrawalByID wid d of
          Inl e \<Rightarrow> Inl e
        | Inr cur \<Rightarrow> if ukTenantID (wKey cur) \<noteq> tenantID then Inl ErrNotFound else Inr cur)"

definition noTransition :: withdrawal_transition where
  "noTransition = \<lparr>wtFailReason = [], wtInvoiceNo = [], wtOperator = [], wtAuditedAt = 0, wtPaidAt = 0\<rparr>"

definition approveBody :: "ledger \<Rightarrow> withdraw_decision \<Rightarrow> (txn, withdrawal) step" where
  "approveBody l req =
     andThen (rd (loadScopedWithdrawal (wdTenantID req) (wdWithdrawalID req))) (\<lambda>cur.
       TransitionWithdrawal (wID cur) WithdrawalApplied WithdrawalApproved (wVersion cur)
         (noTransition\<lparr>wtOperator := wdOperator req, wtAuditedAt := lNow l\<rparr>))"

definition ApproveWithdraw :: "ledger \<Rightarrow> withdraw_decision \<Rightarrow> (mem_store, withdrawal) step" where
  "ApproveWithdraw l req = Update (approveBody l req)"

definition releaseReservation :: "withdrawal \<Rightarrow> ledger_biz_type \<Rightarrow> string \<Rightarrow> gotime \<Rightarrow> (txn, unit) step" where
  "releaseReservation w bizType reason at =
     (let amount = withdrawalOutstanding w in
      if amount <=s 0 then ret ()
      else
        andThen (IncrementAccount (zeroDelta\<lparr>dKey := wKey w, dWithdrawing := - amount, dAvailable := amount,
           dRequireNonNegative := True, dAt := at\<rparr>)) (\<lambda>acct.
        andThen (AppendLedger (bucketAddDelta BucketAvailable amount
           (newLedgerEntry (wKey w) bizType (formatInt (wID w))
             (''withdraw released '' @ formatInt (wID w) @ '' amount '' @ moneyString amount @ '' reason '' @ reason)
             at acct BucketWithdrawing (- amount)))) (\<lambda>_.
        ret ())))"

definition rejectBody :: "ledger \<Rightarrow> withdraw_decision \<Rightarrow> (txn, withdrawal) step" where
  "rejectBody l req =
     andThen (rd (loadScopedWithdrawal (wdTenantID req) (wdWithdrawalID req))) (\<lambda>cur.
       if \<not> withdrawalReserved (wState cur)
       then throw (TransitionError ''withdrawal reject'' (withdrawalStateString (wState cur))
              (withdrawalStateString WithdrawalRejected))
       else andThen (releaseReservation cur LedgerWithdrawRefund (wdReason req) (lNow l)) (\<lambda>_.
         TransitionWithdrawal (wID cur) (wState cur) WithdrawalRejected (wVersion cur)
           (noTransition\<lparr>wtOperator := wdOperator req, wtFailReason := wdReason req, wtAuditedAt := lNow l\<rparr>)))"

definition RejectWithdraw :: "ledger \<Rightarrow> withdraw_decision \<Rightarrow> (mem_store, withdrawal) step" where
  "RejectWithdraw l req =
     (case validateReason (wdReason req) of Some e \<Rightarrow> throw e | None \<Rightarrow>
      if trimSpace (wdReason req) = [] then throw (FieldError ''reason'')
      else Update (rejectBody l req))"

subsection \<open>Paying\<close>

definition loadWithdrawal :: "int \<Rightarrow> int \<Rightarrow> (mem_store, withdrawal) step" where
  "loadWithdrawal tenantID wid =
     (if tenantID < 0 then throw (FieldError ''tenant_id'')
      else if wid \<le> 0 then throw (FieldError ''withdrawal_id'')
      else View (\<lambda>d. case rdWithdrawalByID wid d of
          Inl e \<Rightarrow> Inl e
        | Inr w \<Rightarrow> if ukTenantID (wKey w) \<noteq> tenantID then Inl ErrNotFound else Inr w))"

definition payoutFailureBody :: "withdrawal \<Rightarrow> string \<Rightarrow> string \<Rightarrow> (txn, withdrawal) step" where
  "payoutFailureBody cur reason operator =
     andThen (rd (rdWithdrawalByID (wID cur))) (\<lambda>live.
       TransitionWithdrawal (wID live) (wState live) WithdrawalPayFailed (wVersion live)
         (noTransition\<lparr>wtFailReason := reason, wtOperator := operator\<rparr>))"

definition recordPayoutFailure :: "withdrawal \<Rightarrow> string \<Rightarrow> string \<Rightarrow> (mem_store, withdrawal) step" where
  "recordPayoutFailure cur reason operator =
     Update (payoutFailureBody cur (if length reason > maxReasonLen then take maxReasonLen reason else reason) operator)"

definition settlePayoutBody :: "ledger \<Rightarrow> withdrawal \<Rightarrow> string \<Rightarrow> string \<Rightarrow> (txn, withdrawal) step" where
  "settlePayoutBody l cur invoice operator =
     andThen (rd (rdWithdrawalByID (wID cur))) (\<lambda>live.
       if wState live = WithdrawalPaid then ret live
       else
         let amount = withdrawalOutstanding live; at = lNow l in
         if amount <=s 0 then ret live
         else
           andThen (IncrementAccount (zeroDelta\<lparr>dKey := wKey live, dWithdrawing := - amount, dWithdrawn := amount,
              dRequireNonNegative := True, dAt := at\<rparr>)) (\<lambda>acct.
           andThen (AppendLedger (bucketAddDelta BucketWithdrawn amount
              (newLedgerEntry (wKey live) LedgerWithdrawPaid (formatInt (wID live))
                (''withdraw paid '' @ formatInt (wID live) @ '' amount '' @ moneyString amount @
                 '' real '' @ moneyString (wRealAmount live) @ '' fee '' @ moneyString (wFee live))
                at acct BucketWithdrawing (- amount)))) (\<lambda>_.
           if wPaidAt live \<noteq> 0 then throw (ErrOther ''withdrawal already records a payout'')
           else TransitionWithdrawal (wID live) (wState live) WithdrawalPaid (wVersion live)
                  (noTransition\<lparr>wtInvoiceNo := invoice, wtOperator := operator, wtPaidAt := at\<rparr>))))"

definition settlePayout :: "ledger \<Rightarrow> withdrawal \<Rightarrow> string \<Rightarrow> string \<Rightarrow> (mem_store, withdrawal) step" where
  "settlePayout l cur invoice operator =
     (if length invoice > maxInvoiceLen then throw (FieldError ''invoice_no'')
      else Update (settlePayoutBody l cur invoice operator))"

text \<open>What follows the channel call, given its answer.\<close>

definition payAnswered ::
  "ledger \<Rightarrow> payout_outcome \<Rightarrow> withdrawal \<Rightarrow> string + payout_result \<Rightarrow> (mem_store, withdrawal) step" where
  "payAnswered l req cur answer =
     (case answer of
        Inl err \<Rightarrow> recordPayoutFailure cur (''channel error: '' @ err) (poOperator req)
      | Inr result \<Rightarrow>
          if \<not> psPaid result
          then recordPayoutFailure cur
                 (if psFailReason result = [] then ''channel reported failure without a reason'' else psFailReason result)
                 (poOperator req)
          else settlePayout l cur (psInvoiceNo result) (poOperator req))"

definition payoutRequestFor :: "withdrawal \<Rightarrow> payout_request" where
  "payoutRequestFor cur = \<lparr>prIdemKey = wIdemKey cur, prTenantID = ukTenantID (wKey cur), prUserID = ukUserID (wKey cur),
     prAmount = wRealAmount cur, prAccountInfo = wAccountInfo cur, prWithdrawalID = wID cur\<rparr>"

definition PayWithdraw :: "ledger \<Rightarrow> payout_outcome \<Rightarrow> (mem_store, withdrawal) step" where
  "PayWithdraw l req =
     (case lPayout l of None \<Rightarrow> throw ErrNoPayoutChannel | Some channel \<Rightarrow>
      andThen (loadWithdrawal (poTenantID req) (poWithdrawalID req)) (\<lambda>cur.
        if wState cur \<noteq> WithdrawalApproved \<and> wState cur \<noteq> WithdrawalPayFailed
        then throw (TransitionError ''withdrawal pay'' (withdrawalStateString (wState cur)) (withdrawalStateString WithdrawalPaid))
        else payAnswered l req cur (channel (payoutRequestFor cur))))"

definition MarkWithdrawPaid :: "ledger \<Rightarrow> payout_outcome \<Rightarrow> (mem_store, withdrawal) step" where
  "MarkWithdrawPaid l req =
     (if length (poInvoiceNo req) > maxInvoiceLen then throw (FieldError ''invoice_no'')
      else andThen (loadWithdrawal (poTenantID req) (poWithdrawalID req)) (\<lambda>cur.
        if wState cur = WithdrawalPaid then ret cur
        else if wState cur \<noteq> WithdrawalApproved \<and> wState cur \<noteq> WithdrawalPayFailed
        then throw (TransitionError ''withdrawal mark paid'' (withdrawalStateString (wState cur)) (withdrawalStateString WithdrawalPaid))
        else settlePayout l cur (poInvoiceNo req) (poOperator req)))"

subsection \<open>Queries\<close>

definition WithdrawalOf :: "int \<Rightarrow> int \<Rightarrow> (mem_store, withdrawal) step" where
  "WithdrawalOf tenantID wid = loadWithdrawal tenantID wid"

definition WithdrawalByIdemKey :: "ledger \<Rightarrow> int \<Rightarrow> string \<Rightarrow> (mem_store, withdrawal) step" where
  "WithdrawalByIdemKey l tenantID callerKey =
     (case validateIdemKey callerKey of Some e \<Rightarrow> throw e
      | None \<Rightarrow> View (rdWithdrawalByIdemKey tenantID (withdrawIdemKey (lDigest l) tenantID callerKey)))"

definition Withdrawals :: "int \<Rightarrow> page \<Rightarrow> (mem_store, withdrawal list) step" where
  "Withdrawals tenantID p = View (rdWithdrawalsByTenant tenantID p)"

subsection \<open>Every invariant of the store survives\<close>

context tx_moves
begin

lemma keeps_requestWithdraw: "keeps inv (requestWithdrawBody l req channel fee)"
  unfolding requestWithdrawBody_def Let_def by (intro hoare_rules keeps_moves)

lemma keeps_approve: "keeps inv (approveBody l req)"
  unfolding approveBody_def by (intro hoare_rules keeps_moves)

lemma keeps_reject: "keeps inv (rejectBody l req)"
  unfolding rejectBody_def releaseReservation_def Let_def by (intro hoare_rules keeps_moves)

lemma keeps_payoutFailure: "keeps inv (payoutFailureBody cur reason operator)"
  unfolding payoutFailureBody_def by (intro hoare_rules keeps_moves)

lemma keeps_settlePayout: "keeps inv (settlePayoutBody l cur invoice operator)"
  unfolding settlePayoutBody_def Let_def by (intro hoare_rules keeps_moves)

end

end
