(* ===== verification/Posting.thy ===== *)
theory Posting
  imports Payout
begin

text \<open>
  The double entry of every money movement: an account delta and a ledger entry that records it.
  The interface \<open>posting_store\<close> is what the engine relies on; inside it, posting a delta and then a
  matching entry keeps balances equal to the journal and every entry's running balance true. The
  in-memory store provides it.
\<close>

subsection \<open>The interface\<close>

locale posting_store =
  fixes ok :: "'s \<Rightarrow> bool"
    and bal :: "'s \<Rightarrow> user_key \<Rightarrow> bucket \<Rightarrow> int"
    and journal :: "'s \<Rightarrow> user_key \<Rightarrow> bucket \<Rightarrow> int"
    and entry :: "'s \<Rightarrow> int \<Rightarrow> ledger_entry option"
    and upto :: "'s \<Rightarrow> int \<Rightarrow> user_key \<Rightarrow> bucket \<Rightarrow> int"
    and incr :: "account_delta \<Rightarrow> ('s, account) step"
    and post :: "ledger_entry \<Rightarrow> ('s, ledger_entry) step"
  assumes incr_ok: "ok s \<Longrightarrow> incr d s = (Inr a, s') \<Longrightarrow> ok s'"
    and incr_bal: "ok s \<Longrightarrow> incr d s = (Inr a, s') \<Longrightarrow>
        bal s' k b = bal s k b + onlyIf (k = dKey d) (sint (deltaOf b d))"
    and incr_after: "ok s \<Longrightarrow> incr d s = (Inr a, s') \<Longrightarrow> sint (bucketValue b a) = bal s' (dKey d) b"
    and incr_journal: "ok s \<Longrightarrow> incr d s = (Inr a, s') \<Longrightarrow>
        journal s' = journal s \<and> entry s' = entry s \<and> upto s' = upto s"
    and post_ok: "ok s \<Longrightarrow> post e s = (Inr e', s') \<Longrightarrow> ok s'"
    and post_bal: "ok s \<Longrightarrow> post e s = (Inr e', s') \<Longrightarrow> bal s' = bal s"
    and post_journal: "ok s \<Longrightarrow> post e s = (Inr e', s') \<Longrightarrow>
        journal s' k b = journal s k b + onlyIf (k = leKey e) (sint (bucketDelta b e))"
    and post_entry: "ok s \<Longrightarrow> post e s = (Inr e', s') \<Longrightarrow>
        entry s i = None \<and> entry s' = (entry s)(i \<mapsto> e') \<or> i \<noteq> leID e'"
    and post_fields: "post e s = (Inr e', s') \<Longrightarrow> e' = e\<lparr>leID := leID e'\<rparr>"
    and post_upto: "ok s \<Longrightarrow> post e s = (Inr e', s') \<Longrightarrow>
        (entry s i \<noteq> None \<longrightarrow> upto s' i = upto s i) \<and> upto s' (leID e') k b = journal s' k b"
begin

text \<open>Balances are the journal's sums, and every entry shows the balance right after it.\<close>

definition conserved :: "'s \<Rightarrow> bool" where
  "conserved s \<longleftrightarrow> (\<forall>k b. bal s k b = journal s k b) \<and>
     (\<forall>i e. entry s i = Some e \<longrightarrow> (\<forall>b. sint (bucketAfter b e) = upto s i (leKey e) b))"

lemma post_conserves:
  assumes s: "ok s" "conserved s" and inc: "incr d s = (Inr a, s1)" and app: "post e s1 = (Inr e', s2)"
    and key: "leKey e = dKey d" and deltas: "\<And>b. sint (bucketDelta b e) = sint (deltaOf b d)"
    and after: "\<And>b. bucketAfter b e = bucketValue b a"
  shows "conserved s2"
proof -
  note s1 = incr_ok [OF s(1) inc]
  have j1: "journal s1 = journal s" "entry s1 = entry s" "upto s1 = upto s" using incr_journal [OF s(1) inc] by auto
  have bal2: "bal s2 k b = journal s2 k b" for k b
    using s(2) incr_bal [OF s(1) inc, of k b] post_bal [OF s1 app] post_journal [OF s1 app, of k b] j1(1) key deltas
    by (simp add: conserved_def)
  have new: "entry s2 = (entry s)(leID e' \<mapsto> e')" "entry s (leID e') = None"
    using post_entry [OF s1 app, of "leID e'"] j1(2) by auto
  have "sint (bucketAfter b x) = upto s2 i (leKey x) b" if "entry s2 i = Some x" for i x b
  proof (cases "i = leID e'")
    case True
    then have x: "x = e'" using that new by simp
    have "bucketAfter b e' = bucketAfter b e" by (subst post_fields [OF app], cases b; simp)
    moreover have "leKey e' = leKey e" by (subst post_fields [OF app], simp)
    ultimately have "sint (bucketAfter b x) = bal s1 (dKey d) b" using x after incr_after [OF s(1) inc, of b] by simp
    also have "\<dots> = journal s2 (dKey d) b" using bal2 [of "dKey d" b] post_bal [OF s1 app] by simp
    also have "\<dots> = upto s2 i (leKey x) b"
      using post_upto [OF s1 app, of i "dKey d" b] x \<open>leKey e' = leKey e\<close> key True by simp
    finally show ?thesis .
  next
    case False
    then have "entry s i = Some x" using that new by simp
    then show ?thesis using s(2) post_upto [OF s1 app, of i "leKey x" b] j1 by (simp add: conserved_def)
  qed
  with bal2 show ?thesis by (simp add: conserved_def)
qed

end

subsection \<open>The in-memory store provides it\<close>

definition balanceIn :: "txn \<Rightarrow> user_key \<Rightarrow> bucket \<Rightarrow> int" where
  "balanceIn t k b = sint (bucketValue b (accountOf (txD t) k))"

definition ledgerSum :: "data \<Rightarrow> user_key \<Rightarrow> bucket \<Rightarrow> int" where
  "ledgerSum d k b = mapSum (\<lambda>e. onlyIf (leKey e = k) (sint (bucketDelta b e))) (dLedger d)"

definition ledgerUpTo :: "data \<Rightarrow> int \<Rightarrow> user_key \<Rightarrow> bucket \<Rightarrow> int" where
  "ledgerUpTo d i k b = mapSum (\<lambda>e. onlyIf (leKey e = k \<and> leID e \<le> i) (sint (bucketDelta b e))) (dLedger d)"

lemma accountOf_addAccount:
  "accountOf (addAccount a d) k = (if k = aKey a then a\<lparr>aVersion := aVersion a + 1\<rparr> else accountOf d k)"
  by (simp add: accountOf_def addAccount_def)

lemma bucketValue_version [simp]: "bucketValue b (a\<lparr>aVersion := v\<rparr>) = bucketValue b a"
  by (cases b) simp_all

lemma bucketValue_key [simp]: "bucketValue b (a\<lparr>aKey := k\<rparr>) = bucketValue b a"
  by (cases b) simp_all

lemma bucketDelta_id [simp]: "bucketDelta b (e\<lparr>leID := i\<rparr>) = bucketDelta b e"
  by (cases b) simp_all

lemma bucketAfter_id [simp]: "bucketAfter b (e\<lparr>leID := i\<rparr>) = bucketAfter b e"
  by (cases b) simp_all

text \<open>An increment in full: the row it leaves, exactly.\<close>

lemma IncrementAccount_exact:
  assumes "IncrementAccount d t = (Inr a', t')"
  obtains a where "a' = a\<lparr>aVersion := aVersion a + 1\<rparr>" "aKey a = dKey d" "txD t' = addAccount a (txD t)"
    "userKeyValidate (dKey d) = None"
    "\<And>b. sint (bucketValue b a) = sint (bucketValue b (accountOf (txD t) (dKey d))) + sint (deltaOf b d)"
    "sint (aTotalEarned a) = sint (aTotalEarned (accountOf (txD t) (dKey d))) + sint (dTotalEarned d)"
    "sint (aTotalReversed a) = sint (aTotalReversed (accountOf (txD t) (dKey d))) + sint (dTotalReversed d)"
    "dRequireNonNegative d \<Longrightarrow> \<forall>b. 0 \<le> sint (bucketValue b a)"
  using assms
proof (cases rule: IncrementAccount_Inr)
  case (1 a)
  note exact = deltaApply_InrD [OF 1(2)]
  show thesis
    using that [of a] 1 exact(2-4,7) by (simp add: NegativeBuckets_Nil)
qed

interpretation memory_posting: posting_store "\<lambda>t. storeWf (txD t)" balanceIn "\<lambda>t. ledgerSum (txD t)"
  "\<lambda>t. dLedger (txD t)" "\<lambda>t. ledgerUpTo (txD t)" IncrementAccount AppendLedger
proof
  fix t t' :: txn and d a k b
  assume wf: "storeWf (txD t)" and run: "IncrementAccount d t = (Inr a, t')"
  show "storeWf (txD t')" using wf run by (rule storeWf_IncrementAccount)
  obtain r where r: "a = r\<lparr>aVersion := aVersion r + 1\<rparr>" "aKey r = dKey d" "txD t' = addAccount r (txD t)"
    "\<And>b. sint (bucketValue b r) = sint (bucketValue b (accountOf (txD t) (dKey d))) + sint (deltaOf b d)"
    using run by (rule IncrementAccount_exact) blast
  show "balanceIn t' k b = balanceIn t k b + onlyIf (k = dKey d) (sint (deltaOf b d))"
    by (simp add: balanceIn_def r(2,3,4) accountOf_addAccount onlyIf_def)
  show "sint (bucketValue b a) = balanceIn t' (dKey d) b"
    by (simp add: balanceIn_def r(1,2,3) accountOf_addAccount)
  show "ledgerSum (txD t') = ledgerSum (txD t) \<and> dLedger (txD t') = dLedger (txD t) \<and> ledgerUpTo (txD t') = ledgerUpTo (txD t)"
    by (simp add: r(3) addAccount_def ledgerSum_def ledgerUpTo_def fun_eq_iff)
next
  fix t t' :: txn and e e' k b i
  assume run: "AppendLedger e t = (Inr e', t')"
  show "e' = e\<lparr>leID := leID e'\<rparr>" using AppendLedger_Inr [OF run] by simp
  assume wf: "storeWf (txD t)"
  note eff = AppendLedger_Inr [OF run]
  note ids = storeWf_parts(8) [OF wf] and fin = storeWf_parts(12) [OF wf]
  have none: "dLedger (txD t) (leID e') = None" using idsUpTo_fresh [OF ids] eff(2) by simp
  have row: "dLedger (txD t') = (dLedger (txD t))(leID e' \<mapsto> e')" by (simp add: eff(1) addLedger_def)
  have old: "leID x < leID e'" if "dLedger (txD t) i = Some x" for i x using ids that eff(2) by (force simp: idsUpTo_def)
  show "storeWf (txD t')" using wf run by (rule storeWf_AppendLedger)
  show "balanceIn t' = balanceIn t" by (simp add: balanceIn_def fun_eq_iff eff(1) addLedger_def accountOf_def)
  show "ledgerSum (txD t') k b = ledgerSum (txD t) k b + onlyIf (k = leKey e) (sint (bucketDelta b e))"
    by (simp add: ledgerSum_def row mapSum_new [OF fin none]) (use eff(2) in \<open>auto simp: onlyIf_def\<close>)
  show "dLedger (txD t) i = None \<and> dLedger (txD t') = (dLedger (txD t))(i \<mapsto> e') \<or> i \<noteq> leID e'"
    using none row by auto
  show "(dLedger (txD t) i \<noteq> None \<longrightarrow> ledgerUpTo (txD t') i = ledgerUpTo (txD t) i) \<and>
      ledgerUpTo (txD t') (leID e') k b = ledgerSum (txD t') k b"
  proof (intro conjI impI)
    assume "dLedger (txD t) i \<noteq> None"
    then have "i < leID e'" using ids eff(2) by (force simp: idsUpTo_def)
    then show "ledgerUpTo (txD t') i = ledgerUpTo (txD t) i"
      by (simp add: ledgerUpTo_def fun_eq_iff row mapSum_new [OF fin none])
  next
    show "ledgerUpTo (txD t') (leID e') k b = ledgerSum (txD t') k b"
      unfolding ledgerUpTo_def ledgerSum_def row by (rule mapSum_cong) (use old in \<open>auto split: if_splits simp: less_imp_le\<close>)
  qed
qed

end
