(* ===== verification/Books.thy ===== *)
theory Books
  imports Posting
begin

text \<open>
  The books of the ledger: how accounts, commissions, withdrawals and the journal must agree, and
  the lemmas that each movement the engine makes keeps them so. Every equation is on exact
  integers, not on wrapping amounts.
\<close>

subsection \<open>Rows\<close>

definition accrual :: "commission \<Rightarrow> bool" where
  "accrual c \<longleftrightarrow> 0 < sint (cAmount c)"

text \<open>
  An accrual has given back between nothing and all of its amount, and is reversed or void exactly
  when it has given back all. A reversal is a negative record in its final state that points at
  another commission.
\<close>

definition commissionRow :: "commission \<Rightarrow> bool" where
  "commissionRow c \<longleftrightarrow> commissionStateValid (cState c) \<and>
     (if accrual c
      then 0 \<le> sint (cReversedAmount c) \<and> sint (cReversedAmount c) \<le> sint (cAmount c) \<and> cReverseOf c = 0 \<and>
           (cReversedAmount c = cAmount c \<longleftrightarrow> commissionTerminal (cState c))
      else sint (cAmount c) < 0 \<and> cReversedAmount c = 0 \<and> cState c = CommissionReversed \<and> 0 < cReverseOf c)"

text \<open>What an accrual has given back is the sum of the reversals that point at it.\<close>

definition clawedFrom :: "int \<Rightarrow> (int \<rightharpoonup> commission) \<Rightarrow> int" where
  "clawedFrom i m = mapSum (\<lambda>r. onlyIf (cReverseOf r = i) (- sint (cAmount r))) m"

definition linked :: "commission \<Rightarrow> commission \<Rightarrow> bool" where
  "linked r c \<longleftrightarrow> accrual c \<and> cKey r = cKey c \<and> cOrderItemID r = cOrderItemID c \<and>
     cAgentUserID r = cAgentUserID c \<and> cLayer r = cLayer c"

definition commissionsInv :: "(int \<rightharpoonup> commission) \<Rightarrow> bool" where
  "commissionsInv m \<longleftrightarrow> (\<forall>i c. m i = Some c \<longrightarrow> commissionRow c \<and>
     (if accrual c then sint (cReversedAmount c) = clawedFrom i m
      else \<exists>p. m (cReverseOf c) = Some p \<and> linked c p))"

lemma commissionsInvD:
  assumes "commissionsInv m" "m i = Some c"
  shows "commissionRow c" "accrual c \<Longrightarrow> sint (cReversedAmount c) = clawedFrom i m"
    "\<not> accrual c \<Longrightarrow> \<exists>p. m (cReverseOf c) = Some p \<and> linked c p"
  using assms unfolding commissionsInv_def by metis+

lemma open_accrual: "commissionRow c \<Longrightarrow> \<not> commissionTerminal (cState c) \<Longrightarrow> accrual c"
  by (auto simp: commissionRow_def commissionTerminal_def split: if_splits)

definition withdrawalRow :: "withdrawal \<Rightarrow> bool" where
  "withdrawalRow w \<longleftrightarrow> 0 < sint (wAmount w) \<and> 0 \<le> sint (wFee w) \<and> sint (wFee w) < sint (wAmount w) \<and>
     sint (wRealAmount w) = sint (wAmount w) - sint (wFee w) \<and> withdrawalStateValid (wState w) \<and>
     (wPaidAt w \<noteq> 0 \<longrightarrow> wState w = WithdrawalPaid)"

definition withdrawalsInv :: "(int \<rightharpoonup> withdrawal) \<Rightarrow> bool" where
  "withdrawalsInv m \<longleftrightarrow> (\<forall>i w. m i = Some w \<longrightarrow> withdrawalRow w)"

subsection \<open>Shares of an account\<close>

definition frozenShare :: "commission \<Rightarrow> int" where
  "frozenShare c = onlyIf (accrual c \<and> dueTracked (cState c)) (sint (cAmount c) - sint (cReversedAmount c))"

definition earnedShare :: "commission \<Rightarrow> int" where
  "earnedShare c = onlyIf (accrual c) (sint (cAmount c))"

definition reversedShare :: "commission \<Rightarrow> int" where
  "reversedShare c = onlyIf (accrual c) (sint (cReversedAmount c))"

definition reservedShare :: "withdrawal \<Rightarrow> int" where
  "reservedShare w = onlyIf (withdrawalReserved (wState w)) (sint (wAmount w))"

definition paidShare :: "withdrawal \<Rightarrow> int" where
  "paidShare w = onlyIf (wState w = WithdrawalPaid) (sint (wAmount w))"

definition commSum :: "(commission \<Rightarrow> int) \<Rightarrow> user_key \<Rightarrow> data \<Rightarrow> int" where
  "commSum f k d = mapSum (\<lambda>c. onlyIf (agentKeyOf c = k) (f c)) (dCommissions d)"

definition wdSum :: "(withdrawal \<Rightarrow> int) \<Rightarrow> user_key \<Rightarrow> data \<Rightarrow> int" where
  "wdSum f k d = mapSum (\<lambda>w. onlyIf (wKey w = k) (f w)) (dWithdrawals d)"

text \<open>
  The books of one account: frozen money is what waiting accruals still owe, withdrawing money
  what open withdrawals hold, withdrawn money what was paid; the totals count what was earned and
  given back; and the four buckets together are the difference of the totals.
\<close>

definition booksAt :: "account \<Rightarrow> user_key \<Rightarrow> data \<Rightarrow> bool" where
  "booksAt a k d \<longleftrightarrow>
     sint (aFrozen a) = commSum frozenShare k d \<and>
     sint (aWithdrawing a) = wdSum reservedShare k d \<and>
     sint (aWithdrawn a) = wdSum paidShare k d \<and>
     sint (aTotalEarned a) = commSum earnedShare k d \<and>
     sint (aTotalReversed a) = commSum reversedShare k d \<and>
     sint (aFrozen a) + sint (aAvailable a) + sint (aWithdrawing a) + sint (aWithdrawn a) =
       sint (aTotalEarned a) - sint (aTotalReversed a)"

definition booksOk :: "data \<Rightarrow> bool" where
  "booksOk d \<longleftrightarrow> (\<forall>k. booksAt (accountOf d k) k d)"

definition journalOk :: "data \<Rightarrow> bool" where
  "journalOk d \<longleftrightarrow> (\<forall>k b. sint (bucketValue b (accountOf d k)) = ledgerSum d k b) \<and>
     (\<forall>i e. dLedger d i = Some e \<longrightarrow> (\<forall>b. sint (bucketAfter b e) = ledgerUpTo d i (leKey e) b))"

definition moneyInv :: "data \<Rightarrow> bool" where
  "moneyInv d \<longleftrightarrow> storeWf d \<and> commissionsInv (dCommissions d) \<and> withdrawalsInv (dWithdrawals d) \<and> booksOk d \<and> journalOk d"

lemma journalOk_conserved: "journalOk (txD t) = memory_posting.conserved t"
  by (simp add: journalOk_def memory_posting.conserved_def balanceIn_def)

lemma moneyInv_parts:
  assumes "moneyInv d"
  shows "storeWf d" "commissionsInv (dCommissions d)" "withdrawalsInv (dWithdrawals d)" "booksOk d" "journalOk d"
    "finite (dom (dCommissions d))" "finite (dom (dWithdrawals d))"
    "idsUpTo (dNextID d) (dCommissions d) cID" "idsUpTo (dNextID d) (dWithdrawals d) wID"
  using assms storeWf_parts by (auto simp: moneyInv_def)

lemma accountOf_newData [simp]: "accountOf newData k = zeroAccount"
  by (simp add: accountOf_def newData_def)

lemma moneyInv_newData: "moneyInv newData"
proof -
  have "bucketValue b zeroAccount = 0" for b by (cases b) (simp_all add: zeroAccount_def)
  moreover have "dCommissions newData = Map.empty" "dWithdrawals newData = Map.empty" "dLedger newData = Map.empty"
    by (simp_all add: newData_def)
  ultimately show ?thesis
    by (simp add: moneyInv_def storeWf_newData commissionsInv_def withdrawalsInv_def booksOk_def booksAt_def
        journalOk_def commSum_def wdSum_def ledgerSum_def ledgerUpTo_def)
      (simp add: zeroAccount_def)
qed

subsection \<open>Changing one row\<close>

lemma commSum_new:
  assumes "finite (dom (dCommissions d))" "dCommissions d i = None" "dCommissions d' = (dCommissions d)(i \<mapsto> c)"
  shows "commSum f k d' = commSum f k d + onlyIf (agentKeyOf c = k) (f c)"
  using assms by (simp add: commSum_def mapSum_new)

lemma commSum_set:
  assumes "finite (dom (dCommissions d))" "dCommissions d i = Some c" "dCommissions d' = (dCommissions d)(i \<mapsto> c')"
    "agentKeyOf c' = agentKeyOf c"
  shows "commSum f k d' = commSum f k d + onlyIf (agentKeyOf c = k) (f c' - f c)"
  using assms by (simp add: commSum_def mapSum_set) (simp add: onlyIf_def)

lemma wdSum_new:
  assumes "finite (dom (dWithdrawals d))" "dWithdrawals d i = None" "dWithdrawals d' = (dWithdrawals d)(i \<mapsto> w)"
  shows "wdSum f k d' = wdSum f k d + onlyIf (wKey w = k) (f w)"
  using assms by (simp add: wdSum_def mapSum_new)

lemma wdSum_set:
  assumes "finite (dom (dWithdrawals d))" "dWithdrawals d i = Some w" "dWithdrawals d' = (dWithdrawals d)(i \<mapsto> w')"
    "wKey w' = wKey w"
  shows "wdSum f k d' = wdSum f k d + onlyIf (wKey w = k) (f w' - f w)"
  using assms by (simp add: wdSum_def mapSum_set) (simp add: onlyIf_def)

lemma commSum_same: "dCommissions d' = dCommissions d \<Longrightarrow> commSum f k d' = commSum f k d"
  by (simp add: commSum_def)

lemma wdSum_same: "dWithdrawals d' = dWithdrawals d \<Longrightarrow> wdSum f k d' = wdSum f k d"
  by (simp add: wdSum_def)

text \<open>The books after a change that concerns one account.\<close>

lemma booksOk_change:
  assumes books: "booksOk d"
    and other: "\<And>k. k \<noteq> key \<Longrightarrow> accountOf d' k = accountOf d k"
    and buckets: "\<And>b. sint (bucketValue b (accountOf d' key)) = sint (bucketValue b (accountOf d key)) + x b"
    and earned: "sint (aTotalEarned (accountOf d' key)) = sint (aTotalEarned (accountOf d key)) + e"
    and reversed: "sint (aTotalReversed (accountOf d' key)) = sint (aTotalReversed (accountOf d key)) + r"
    and sums: "\<And>k. commSum frozenShare k d' = commSum frozenShare k d + onlyIf (k = key) (x BucketFrozen)"
      "\<And>k. wdSum reservedShare k d' = wdSum reservedShare k d + onlyIf (k = key) (x BucketWithdrawing)"
      "\<And>k. wdSum paidShare k d' = wdSum paidShare k d + onlyIf (k = key) (x BucketWithdrawn)"
      "\<And>k. commSum earnedShare k d' = commSum earnedShare k d + onlyIf (k = key) e"
      "\<And>k. commSum reversedShare k d' = commSum reversedShare k d + onlyIf (k = key) r"
    and net: "x BucketFrozen + x BucketAvailable + x BucketWithdrawing + x BucketWithdrawn = e - r"
  shows "booksOk d'"
  unfolding booksOk_def
proof
  fix k
  have k: "booksAt (accountOf d k) k d" using books by (simp add: booksOk_def)
  show "booksAt (accountOf d' k) k d'"
  proof (cases "k = key")
    case True
    then show ?thesis
      using k net buckets [of BucketFrozen] buckets [of BucketAvailable] buckets [of BucketWithdrawing]
        buckets [of BucketWithdrawn] earned reversed by (simp add: booksAt_def sums)
  next
    case False
    then show ?thesis using k other [OF False] by (simp add: booksAt_def sums)
  qed
qed

subsection \<open>Posting\<close>

text \<open>
  A delta and its entry, run one after the other: what they leave. \<open>postWith\<close> is the shape every
  movement of the engine has.
\<close>

definition postWith :: "account_delta \<Rightarrow> (account \<Rightarrow> ledger_entry) \<Rightarrow> (txn, unit) step" where
  "postWith delta f = andThen (IncrementAccount delta) (\<lambda>a. andThen (AppendLedger (f a)) (\<lambda>_. ret ()))"

definition matching :: "account_delta \<Rightarrow> (account \<Rightarrow> ledger_entry) \<Rightarrow> bool" where
  "matching delta f \<longleftrightarrow> (\<forall>a. leKey (f a) = dKey delta \<and>
     (\<forall>b. bucketDelta b (f a) = deltaOf b delta \<and> bucketAfter b (f a) = bucketValue b a))"

lemma postWith_Inr:
  assumes wf: "storeWf (txD t)" "journalOk (txD t)" and match: "matching delta f"
    and run: "postWith delta f t = (Inr u, t')"
  shows "storeWf (txD t')" "journalOk (txD t')"
    "dCommissions (txD t') = dCommissions (txD t)" "dWithdrawals (txD t') = dWithdrawals (txD t)"
    "\<And>k. k \<noteq> dKey delta \<Longrightarrow> accountOf (txD t') k = accountOf (txD t) k"
    "\<And>b. sint (bucketValue b (accountOf (txD t') (dKey delta))) =
        sint (bucketValue b (accountOf (txD t) (dKey delta))) + sint (deltaOf b delta)"
    "sint (aTotalEarned (accountOf (txD t') (dKey delta))) =
        sint (aTotalEarned (accountOf (txD t) (dKey delta))) + sint (dTotalEarned delta)"
    "sint (aTotalReversed (accountOf (txD t') (dKey delta))) =
        sint (aTotalReversed (accountOf (txD t) (dKey delta))) + sint (dTotalReversed delta)"
    "dRequireNonNegative delta \<Longrightarrow> \<forall>b. 0 \<le> sint (bucketValue b (accountOf (txD t') (dKey delta)))"
    "dRefunds (txD t') = dRefunds (txD t)" "dNextID (txD t') = dNextID (txD t) + 1"
proof -
  obtain a t1 e where inc: "IncrementAccount delta t = (Inr a, t1)" and app: "AppendLedger (f a) t1 = (Inr e, t')"
    using run unfolding postWith_def by (auto elim!: andThen_InrE)
  obtain r where r: "a = r\<lparr>aVersion := aVersion r + 1\<rparr>" "aKey r = dKey delta" "txD t1 = addAccount r (txD t)"
    "userKeyValidate (dKey delta) = None"
    "\<And>b. sint (bucketValue b r) = sint (bucketValue b (accountOf (txD t) (dKey delta))) + sint (deltaOf b delta)"
    "sint (aTotalEarned r) = sint (aTotalEarned (accountOf (txD t) (dKey delta))) + sint (dTotalEarned delta)"
    "sint (aTotalReversed r) = sint (aTotalReversed (accountOf (txD t) (dKey delta))) + sint (dTotalReversed delta)"
    "dRequireNonNegative delta \<Longrightarrow> \<forall>b. 0 \<le> sint (bucketValue b r)"
    using inc by (rule IncrementAccount_exact) blast
  note led = AppendLedger_Inr [OF app]
  have acc: "accountOf (txD t') k = accountOf (addAccount r (txD t)) k" for k
    by (simp add: led(1) r(3) addLedger_def accountOf_def)
  show "storeWf (txD t')" using storeWf_AppendLedger [OF storeWf_IncrementAccount [OF wf(1) inc] app] .
  show "journalOk (txD t')"
    using wf match memory_posting.post_conserves [OF wf(1) _ inc app]
    by (simp add: journalOk_conserved matching_def)
  show "dCommissions (txD t') = dCommissions (txD t)" "dWithdrawals (txD t') = dWithdrawals (txD t)"
    "dRefunds (txD t') = dRefunds (txD t)" "dNextID (txD t') = dNextID (txD t) + 1"
    by (simp_all add: led(1,2) r(3) addLedger_def addAccount_def)
  show "accountOf (txD t') k = accountOf (txD t) k" if "k \<noteq> dKey delta" for k
    using that by (simp add: acc accountOf_addAccount r(2))
  show "sint (bucketValue b (accountOf (txD t') (dKey delta))) =
        sint (bucketValue b (accountOf (txD t) (dKey delta))) + sint (deltaOf b delta)" for b
    by (simp add: acc accountOf_addAccount r)
  show "sint (aTotalEarned (accountOf (txD t') (dKey delta))) =
        sint (aTotalEarned (accountOf (txD t) (dKey delta))) + sint (dTotalEarned delta)"
    "sint (aTotalReversed (accountOf (txD t') (dKey delta))) =
        sint (aTotalReversed (accountOf (txD t) (dKey delta))) + sint (dTotalReversed delta)"
    by (simp_all add: acc accountOf_addAccount r)
  show "\<forall>b. 0 \<le> sint (bucketValue b (accountOf (txD t') (dKey delta)))" if "dRequireNonNegative delta"
    using r(8) that by (simp add: acc accountOf_addAccount r(2))
qed

lemma deltaOf_bucket: "deltaOf b d = (case b of BucketFrozen \<Rightarrow> dFrozen d | BucketAvailable \<Rightarrow> dAvailable d
    | BucketWithdrawing \<Rightarrow> dWithdrawing d | BucketWithdrawn \<Rightarrow> dWithdrawn d)"
  by (cases b) simp_all

text \<open>
  The books after a movement: the posting changes the account by its delta, and the rows of the
  final data have changed the account's shares by the same amounts.
\<close>

lemma booksOk_posted:
  assumes books: "booksOk d"
    and before: "storeWf (txD t1)" "journalOk (txD t1)" "\<And>k. accountOf (txD t1) k = accountOf d k"
    and match: "matching delta f" and run: "postWith delta f t1 = (Inr u, t2)"
    and after: "\<And>k. accountOf d' k = accountOf (txD t2) k"
    and sums: "\<And>k. commSum frozenShare k d' = commSum frozenShare k d + onlyIf (k = dKey delta) (sint (dFrozen delta))"
      "\<And>k. wdSum reservedShare k d' = wdSum reservedShare k d + onlyIf (k = dKey delta) (sint (dWithdrawing delta))"
      "\<And>k. wdSum paidShare k d' = wdSum paidShare k d + onlyIf (k = dKey delta) (sint (dWithdrawn delta))"
      "\<And>k. commSum earnedShare k d' = commSum earnedShare k d + onlyIf (k = dKey delta) (sint (dTotalEarned delta))"
      "\<And>k. commSum reversedShare k d' = commSum reversedShare k d + onlyIf (k = dKey delta) (sint (dTotalReversed delta))"
    and net: "sint (dFrozen delta) + sint (dAvailable delta) + sint (dWithdrawing delta) + sint (dWithdrawn delta) =
      sint (dTotalEarned delta) - sint (dTotalReversed delta)"
  shows "booksOk d'"
proof -
  note post = postWith_Inr [OF before(1,2) match run]
  show ?thesis
    by (rule booksOk_change [where d = d and key = "dKey delta" and x = "\<lambda>b. sint (deltaOf b delta)"
          and e = "sint (dTotalEarned delta)" and r = "sint (dTotalReversed delta)"])
      (use post(5-8) net in \<open>simp_all add: books after before(3) sums deltaOf_bucket\<close>)
qed

subsection \<open>Booking an accrual\<close>

lemma clawedFrom_new:
  "finite (dom m) \<Longrightarrow> m n = None \<Longrightarrow> clawedFrom i (m(n \<mapsto> c)) = clawedFrom i m + onlyIf (cReverseOf c = i) (- sint (cAmount c))"
  by (simp add: clawedFrom_def mapSum_new)

lemma clawedFrom_set:
  "finite (dom m) \<Longrightarrow> m n = Some c \<Longrightarrow> sameCommission c c' \<Longrightarrow> clawedFrom i (m(n \<mapsto> c')) = clawedFrom i m"
  by (simp add: clawedFrom_def mapSum_set sameCommission_fields)

lemma clawedFrom_none:
  assumes "commissionsInv m" "m i = None" "0 < i"
  shows "clawedFrom i m = 0"
proof -
  have "cReverseOf c \<noteq> i" if "m j = Some c" for j c
    using that assms unfolding commissionsInv_def commissionRow_def by (metis less_irrefl option.distinct(1))
  then have "clawedFrom i m = mapSum (\<lambda>_. 0) m" unfolding clawedFrom_def by (intro mapSum_cong) simp
  then show ?thesis by (simp add: mapSum_def)
qed

lemma commissionsInv_accrual:
  assumes inv: "commissionsInv m" and ids: "idsUpTo n m cID" "0 \<le> n"
    and c: "accrual c" "cReversedAmount c = 0" "cReverseOf c = 0" "cState c = CommissionPending"
  shows "commissionsInv (m(n + 1 \<mapsto> c))"
  unfolding commissionsInv_def
proof (intro allI impI)
  fix i x
  assume row: "(m(n + 1 \<mapsto> c)) i = Some x"
  note fin = idsUpTo_finite [OF ids(1)] and none = idsUpTo_fresh [OF ids(1)]
  have claw: "clawedFrom j (m(n + 1 \<mapsto> c)) = clawedFrom j m" if "0 < j" for j
    using that c(3) by (simp add: clawedFrom_new [OF fin none] onlyIf_def)
  show "commissionRow x \<and> (if accrual x then sint (cReversedAmount x) = clawedFrom i (m(n + 1 \<mapsto> c))
      else \<exists>p. (m(n + 1 \<mapsto> c)) (cReverseOf x) = Some p \<and> linked x p)"
  proof (cases "i = n + 1")
    case True
    then have "x = c" using row by simp
    moreover have "cAmount c \<noteq> 0" using c(1) by (auto simp: accrual_def)
    ultimately show ?thesis
      using True c claw [of i] clawedFrom_none [OF inv none] ids(2)
      by (auto simp: commissionRow_def commissionStateValid_def commissionTerminal_def accrual_def)
  next
    case False
    then have x: "m i = Some x" using row by simp
    then have "0 < i" using ids(1) by (force simp: idsUpTo_def)
    have old: "commissionRow x \<and> (if accrual x then sint (cReversedAmount x) = clawedFrom i m
        else \<exists>p. m (cReverseOf x) = Some p \<and> linked x p)" using inv x by (simp add: commissionsInv_def)
    show ?thesis
    proof (cases "accrual x")
      case True
      then show ?thesis using old claw [OF \<open>0 < i\<close>] by simp
    next
      case False
      then obtain p where p: "m (cReverseOf x) = Some p" "linked x p" using old by auto
      then have "cReverseOf x \<noteq> n + 1" using none by auto
      then show ?thesis using old p False by simp
    qed
  qed
qed

lemma creditAccrual_post:
  "creditAccrual c now = postWith
     (zeroDelta\<lparr>dKey := agentKeyOf c, dFrozen := cAmount c, dTotalEarned := cAmount c, dAt := now\<rparr>)
     (\<lambda>saved. newLedgerEntry (agentKeyOf c) LedgerAccrue (formatInt (cID c))
        (''order '' @ okOrderID (cKey c) @ '' layer '' @ formatInt (cLayer c)) now saved BucketFrozen (cAmount c))"
  by (simp add: creditAccrual_def postWith_def agentKeyOf_def Let_def)

lemma matchingI:
  assumes "\<And>a. leKey (f a) = dKey delta" "\<And>a b. bucketDelta b (f a) = deltaOf b delta"
    "\<And>a b. bucketAfter b (f a) = bucketValue b a"
  shows "matching delta f"
  using assms by (simp add: matching_def)

lemma newLedgerEntry_deltas [simp]:
  "leDeltaFrozen (newLedgerEntry k t i r at a m v) = (if m = BucketFrozen then v else 0)"
  "leDeltaAvailable (newLedgerEntry k t i r at a m v) = (if m = BucketAvailable then v else 0)"
  "leDeltaWithdrawing (newLedgerEntry k t i r at a m v) = (if m = BucketWithdrawing then v else 0)"
  "leDeltaWithdrawn (newLedgerEntry k t i r at a m v) = (if m = BucketWithdrawn then v else 0)"
  by (cases m; simp add: newLedgerEntry_def AllBuckets_def Let_def)+

lemma bucketAfter_deltas [simp]:
  "bucketAfter b (e\<lparr>leDeltaFrozen := v\<rparr>) = bucketAfter b e" "bucketAfter b (e\<lparr>leDeltaAvailable := v\<rparr>) = bucketAfter b e"
  "bucketAfter b (e\<lparr>leDeltaWithdrawing := v\<rparr>) = bucketAfter b e" "bucketAfter b (e\<lparr>leDeltaWithdrawn := v\<rparr>) = bucketAfter b e"
  by (cases b; simp)+

lemma zeroDelta_fields [simp]:
  "dFrozen zeroDelta = 0" "dAvailable zeroDelta = 0" "dWithdrawing zeroDelta = 0" "dWithdrawn zeroDelta = 0"
  "dTotalEarned zeroDelta = 0" "dTotalReversed zeroDelta = 0" "dRequireNonNegative zeroDelta = False"
  by (simp_all add: zeroDelta_def)

lemma book_accrual:
  assumes inv: "moneyInv (txD t)"
    and c0: "accrual c0" "cReversedAmount c0 = 0" "cState c0 = CommissionPending"
    and app: "AppendCommission c0 t = (Inr c, t1)" and credit: "creditAccrual c now t1 = (Inr u, t2)"
  shows "moneyInv (txD t2)"
proof -
  note eff = AppendCommission_Inr [OF app] and parts = moneyInv_parts [OF inv]
  have rev0: "cReverseOf c0 = 0"
    using eff(3) c0(1) by (auto simp: commissionGuards_def accrual_def sless_sint split: option.splits if_splits)
  have acc: "accrual c" "cReversedAmount c = 0" "cReverseOf c = 0" "cState c = CommissionPending"
    using eff(2) c0 rev0 by (simp_all add: accrual_def)
  have rows: "dCommissions (txD t1) = (dCommissions (txD t))(dNextID (txD t) + 1 \<mapsto> c)"
    using eff(1,2) by (simp add: addCommission_def)
  have none: "dCommissions (txD t) (dNextID (txD t) + 1) = None" by (rule idsUpTo_fresh [OF parts(8)])
  have wf1: "storeWf (txD t1)" using storeWf_AppendCommission [OF parts(1) app] .
  have same1: "dWithdrawals (txD t1) = dWithdrawals (txD t)" "dLedger (txD t1) = dLedger (txD t)"
    "accountOf (txD t1) k = accountOf (txD t) k" for k
    by (simp_all add: eff(1) addCommission_def accountOf_def)
  have j1: "journalOk (txD t1)" using parts(5) by (simp add: journalOk_def same1 ledgerSum_def ledgerUpTo_def)
  let ?delta = "zeroDelta\<lparr>dKey := agentKeyOf c, dFrozen := cAmount c, dTotalEarned := cAmount c, dAt := now\<rparr>"
  have match: "matching ?delta (\<lambda>saved. newLedgerEntry (agentKeyOf c) LedgerAccrue (formatInt (cID c))
      (''order '' @ okOrderID (cKey c) @ '' layer '' @ formatInt (cLayer c)) now saved BucketFrozen (cAmount c))"
    by (rule matchingI) (simp_all add: deltaOf_bucket split: bucket.split)
  note post = postWith_Inr [OF wf1 j1 match credit [unfolded creditAccrual_post]]
  have rows2: "dCommissions (txD t2) = (dCommissions (txD t))(dNextID (txD t) + 1 \<mapsto> c)"
    and wds2: "dWithdrawals (txD t2) = dWithdrawals (txD t)"
    using post(3,4) rows same1 by simp_all
  have "booksOk (txD t2)"
    by (rule booksOk_posted [OF parts(4) wf1 j1 same1(3) match credit [unfolded creditAccrual_post]])
      (use acc commSum_new [OF parts(6) none rows2] wdSum_same [OF wds2] in
        \<open>auto simp: frozenShare_def earnedShare_def reversedShare_def dueTracked_def onlyIf_def\<close>)
  moreover have "commissionsInv (dCommissions (txD t2))"
    unfolding rows2 by (rule commissionsInv_accrual [OF parts(2) parts(8) _ acc]) (use storeWf_parts(1) [OF parts(1)] in simp)
  ultimately show ?thesis using post(1,2) parts(3) wds2 by (simp add: moneyInv_def)
qed

subsection \<open>Changing the state of a commission\<close>

lemma linked_same: "sameCommission p p' \<Longrightarrow> linked r p' = linked r p"
  by (simp add: linked_def accrual_def sameCommission_fields)

lemma linked_same_left: "sameCommission r r' \<Longrightarrow> linked r' p = linked r p"
  by (simp add: linked_def sameCommission_fields)

lemma commissionsInv_set:
  assumes inv: "commissionsInv m" and fin: "finite (dom m)" and c: "m i = Some c" and same: "sameCommission c c'"
    and row: "commissionRow c'" and claw: "accrual c \<Longrightarrow> sint (cReversedAmount c') = clawedFrom i m"
  shows "commissionsInv (m(i \<mapsto> c'))"
  unfolding commissionsInv_def
proof (intro allI impI)
  fix j x
  assume jx: "(m(i \<mapsto> c')) j = Some x"
  have clawed: "clawedFrom k (m(i \<mapsto> c')) = clawedFrom k m" for k by (rule clawedFrom_set [OF fin c same])
  have target: "\<exists>p. (m(i \<mapsto> c')) r = Some p \<and> linked y p" if "\<exists>p. m r = Some p \<and> linked y p" for r y
    using that c linked_same [OF same] by (cases "r = i") auto
  have acc: "accrual c' = accrual c" by (simp add: accrual_def sameCommission_fields [OF same])
  show "commissionRow x \<and> (if accrual x then sint (cReversedAmount x) = clawedFrom j (m(i \<mapsto> c'))
      else \<exists>p. (m(i \<mapsto> c')) (cReverseOf x) = Some p \<and> linked x p)"
  proof (cases "j = i")
    case True
    then have x: "x = c'" using jx by simp
    have "\<exists>p. m (cReverseOf c') = Some p \<and> linked c' p" if "\<not> accrual c"
      using inv c that sameCommission_fields(6) [OF same] linked_same_left [OF same]
      by (auto simp: commissionsInv_def)
    then show ?thesis using row claw clawed acc target [of "cReverseOf c'" c'] by (simp add: x True)
  next
    case False
    then have "m j = Some x" using jx by simp
    then show ?thesis using inv clawed target [of "cReverseOf x" x] by (auto simp: commissionsInv_def)
  qed
qed

lemma commissionsInv_state:
  assumes inv: "commissionsInv m" and fin: "finite (dom m)" and c: "m i = Some c"
    and c': "c' = c\<lparr>cState := st, cVersion := v\<rparr>" "commissionStateValid st"
    and open': "\<not> commissionTerminal (cState c)" "\<not> commissionTerminal st"
  shows "commissionsInv (m(i \<mapsto> c'))"
proof (rule commissionsInv_set [OF inv fin c])
  show "sameCommission c c'" using c' by simp
  have acc: "accrual c" "commissionRow c" "sint (cReversedAmount c) = clawedFrom i m"
    using commissionsInvD [OF inv c] open_accrual [of c] open'(1) by auto
  then show "commissionRow c'" using c' open' by (simp add: commissionRow_def accrual_def)
  show "sint (cReversedAmount c') = clawedFrom i m" using acc c' by simp
qed

text \<open>Freezing and unfreezing: nothing moves.\<close>

lemma TransitionCommission_tables:
  assumes "TransitionCommission i from to v t = (Inr c', t')"
  shows "dWithdrawals (txD t') = dWithdrawals (txD t)" "dLedger (txD t') = dLedger (txD t)"
    "accountOf (txD t') k = accountOf (txD t) k" "dRefunds (txD t') = dRefunds (txD t)"
    "dNextID (txD t') = dNextID (txD t)"
    "dCommissions (txD t') = (dCommissions (txD t))(i \<mapsto> c')"
  using assms by (auto elim!: TransitionCommission_Inr simp: setCommission_def accountOf_def)

lemma journalOk_same:
  assumes "journalOk d" "dLedger d' = dLedger d" "\<And>k. accountOf d' k = accountOf d k"
  shows "journalOk d'"
  using assms by (simp add: journalOk_def ledgerSum_def ledgerUpTo_def)

lemma book_refreeze:
  assumes inv: "moneyInv (txD t)" and tr: "TransitionCommission i from to v t = (Inr c', t')"
    and states: "dueTracked from" "dueTracked to"
  shows "moneyInv (txD t')"
proof -
  note parts = moneyInv_parts [OF inv] and tabs = TransitionCommission_tables [OF tr]
  obtain c where c: "dCommissions (txD t) i = Some c" "cState c = from" "c' = c\<lparr>cState := to, cVersion := cVersion c + 1\<rparr>"
    using tr by (auto elim!: TransitionCommission_Inr)
  have "commissionsInv (dCommissions (txD t'))"
    unfolding tabs(6) by (rule commissionsInv_state [OF parts(2,6) c(1,3)])
      (use c(2) states in \<open>auto simp: dueTracked_def commissionTerminal_def commissionStateValid_def\<close>)
  moreover have same: "commSum f k (txD t') = commSum f k (txD t)" if "f c' = f c" for f k
    using commSum_set [OF parts(6) c(1) tabs(6), of f k] c(3) that by (simp add: agentKeyOf_def onlyIf_def)
  have "frozenShare c' = frozenShare c" "earnedShare c' = earnedShare c" "reversedShare c' = reversedShare c"
    using c states by (auto simp: frozenShare_def earnedShare_def reversedShare_def accrual_def)
  then have "booksAt (accountOf (txD t') k) k (txD t')" if "booksAt (accountOf (txD t) k) k (txD t)" for k
    using that by (simp add: booksAt_def tabs(3) wdSum_same [OF tabs(1)] same)
  then have "booksOk (txD t')" using parts(4) by (simp add: booksOk_def)
  ultimately show ?thesis
    using storeWf_TransitionCommission [OF parts(1) tr] journalOk_same [OF parts(5) tabs(2,3)] parts(3) tabs(1)
    by (simp add: moneyInv_def)
qed

subsection \<open>Settling\<close>

lemma outstanding_exact:
  assumes "commissionRow c" "accrual c"
  shows "sint (OutstandingAmount c) = sint (cAmount c) - sint (cReversedAmount c)"
    "sint (- OutstandingAmount c) = - sint (OutstandingAmount c)"
proof -
  have r: "0 \<le> sint (cReversedAmount c)" "sint (cReversedAmount c) \<le> sint (cAmount c)"
    using assms by (simp_all add: commissionRow_def)
  then have "in64 (sint (cAmount c) - sint (cReversedAmount c))"
    using sint_upper [of "cAmount c"] by (simp add: in64_def)
  then show out: "sint (OutstandingAmount c) = sint (cAmount c) - sint (cReversedAmount c)"
    by (simp add: OutstandingAmount_def sint_sub64)
  have "in64 (- sint (OutstandingAmount c))" using r out sint_upper [of "cAmount c"] by (simp add: in64_def)
  then show "sint (- OutstandingAmount c) = - sint (OutstandingAmount c)" by (rule sint_minus64)
qed

definition settleDelta :: "commission \<Rightarrow> money \<Rightarrow> gotime \<Rightarrow> account_delta" where
  "settleDelta c outstanding now = zeroDelta\<lparr>dKey := agentKeyOf c, dFrozen := - outstanding, dAvailable := outstanding,
     dRequireNonNegative := True, dAt := now\<rparr>"

definition settleEntry :: "commission \<Rightarrow> money \<Rightarrow> gotime \<Rightarrow> account \<Rightarrow> ledger_entry" where
  "settleEntry c outstanding now saved = bucketAddDelta BucketAvailable outstanding
     (newLedgerEntry (agentKeyOf c) LedgerSettle (formatInt (cID c))
        (''settle order '' @ okOrderID (cKey c) @ '' layer '' @ formatInt (cLayer c)) now saved BucketFrozen (- outstanding))"

lemma settleOne_Inr:
  assumes "settleOne c outstanding now t = (Inr b, t2)"
  obtains c' t1 where "TransitionCommission (cID c) CommissionPending CommissionSettled (cVersion c) t = (Inr c', t1)"
    "postWith (settleDelta c outstanding now) (settleEntry c outstanding now) t1 = (Inr (), t2)" "b"
  using assms
  by (auto simp: settleOne_def postWith_def settleDelta_def settleEntry_def agentKeyOf_def Let_def andThen_Inr_iff)

lemma settle_matching: "matching (settleDelta c m now) (settleEntry c m now)"
  by (rule matchingI) (simp_all add: settleDelta_def settleEntry_def deltaOf_bucket split: bucket.split)

lemma book_settle:
  assumes inv: "moneyInv (txD t)" and row: "dCommissions (txD t) (cID c) = Some c"
    and run: "settleOne c (OutstandingAmount c) now t = (Inr b, t2)"
  shows "moneyInv (txD t2)"
proof -
  note parts = moneyInv_parts [OF inv]
  obtain c' t1 where tr: "TransitionCommission (cID c) CommissionPending CommissionSettled (cVersion c) t = (Inr c', t1)"
    and post: "postWith (settleDelta c (OutstandingAmount c) now) (settleEntry c (OutstandingAmount c) now) t1 = (Inr (), t2)"
    using run by (rule settleOne_Inr)
  note tabs = TransitionCommission_tables [OF tr]
  have c: "cState c = CommissionPending" "c' = c\<lparr>cState := CommissionSettled, cVersion := cVersion c + 1\<rparr>"
    using tr row by (auto elim!: TransitionCommission_Inr)
  have acc: "accrual c" "commissionRow c"
    using commissionsInvD(1) [OF parts(2) row] open_accrual [of c] c(1) by (simp_all add: commissionTerminal_def)
  note out = outstanding_exact [OF acc(2,1)]
  have wf1: "storeWf (txD t1)" by (rule storeWf_TransitionCommission [OF parts(1) tr])
  have j1: "journalOk (txD t1)" by (rule journalOk_same [OF parts(5) tabs(2,3)])
  note left = postWith_Inr [OF wf1 j1 settle_matching post]
  have rows2: "dCommissions (txD t2) = (dCommissions (txD t))(cID c \<mapsto> c')" and wds2: "dWithdrawals (txD t2) = dWithdrawals (txD t)"
    using left(3,4) tabs by simp_all
  have key: "agentKeyOf c' = agentKeyOf c" using c(2) by (simp add: agentKeyOf_def)
  have "booksOk (txD t2)"
    by (rule booksOk_posted [OF parts(4) wf1 j1 tabs(3) settle_matching post])
      (use acc out c commSum_set [OF parts(6) row rows2 key] wdSum_same [OF wds2] in
        \<open>auto simp: settleDelta_def frozenShare_def earnedShare_def reversedShare_def dueTracked_def accrual_def onlyIf_def\<close>)
  moreover have "commissionsInv (dCommissions (txD t2))"
    unfolding rows2 by (rule commissionsInv_state [OF parts(2,6) row c(2)])
      (simp_all add: c(1) commissionTerminal_def commissionStateValid_def)
  ultimately show ?thesis using left(1,2) parts(3) wds2 by (simp add: moneyInv_def)
qed

end
