(* ===== verification/Clawbacks.thy ===== *)
theory Clawbacks
  imports Books
begin

text \<open>
  The books after a clawback and after the movements of a withdrawal: each block of calls the
  engine makes keeps \<open>moneyInv\<close>.
\<close>

subsection \<open>Clawing back\<close>

lemma commissionsInv_claw:
  assumes inv: "commissionsInv m" and ids: "idsUpTo n m cID" and p: "m i = Some p" "accrual p"
    and r: "\<not> accrual r" "commissionRow r" "cReverseOf r = i" "linked r p"
    and p': "sameCommission p p'" "commissionRow p'"
    and amount: "sint (cReversedAmount p') = sint (cReversedAmount p) - sint (cAmount r)"
  shows "commissionsInv (m(n + 1 \<mapsto> r, i \<mapsto> p'))"
  unfolding commissionsInv_def
proof (intro allI impI)
  let ?m = "m(n + 1 \<mapsto> r, i \<mapsto> p')"
  fix j x
  assume jx: "?m j = Some x"
  note fin = idsUpTo_finite [OF ids] and none = idsUpTo_fresh [OF ids]
  have ne: "i \<noteq> n + 1" using none p(1) by auto
  have fin1: "finite (dom (m(n + 1 \<mapsto> r)))" using fin by simp
  have p1: "(m(n + 1 \<mapsto> r)) i = Some p" using p(1) ne by simp
  have claw: "clawedFrom k ?m = clawedFrom k m + onlyIf (i = k) (- sint (cAmount r))" for k
    unfolding clawedFrom_set [OF fin1 p1 p'(1)] clawedFrom_new [OF fin none] r(3) ..
  have acc': "accrual p'" using p(2) sameCommission_fields(5) [OF p'(1)] by (simp add: accrual_def)
  have target: "\<exists>q. ?m k = Some q \<and> linked y q" if "\<exists>q. m k = Some q \<and> linked y q" for k y
    using that none p(1) ne linked_same [OF p'(1), of y] by (cases "k = i"; cases "k = n + 1") auto
  consider "j = i" "x = p'" | "j = n + 1" "x = r" | "j \<noteq> i" "j \<noteq> n + 1" "m j = Some x"
    using jx by (auto split: if_splits)
  then show "commissionRow x \<and> (if accrual x then sint (cReversedAmount x) = clawedFrom j ?m
      else \<exists>q. ?m (cReverseOf x) = Some q \<and> linked x q)"
  proof cases
    case 1
    then show ?thesis using acc' p'(2) claw [of i] amount commissionsInvD(2) [OF inv p] by simp
  next
    case 2
    then show ?thesis using r linked_same [OF p'(1), of r] by simp
  next
    case 3
    then show ?thesis using commissionsInvD [OF inv 3(3)] claw [of j] target by auto
  qed
qed

definition debitDelta :: "commission \<Rightarrow> bucket \<Rightarrow> money \<Rightarrow> gotime \<Rightarrow> bool \<Rightarrow> account_delta" where
  "debitDelta original bkt delta at nonneg = (bucketAddToDelta bkt (- delta)
     (zeroDelta\<lparr>dKey := agentKeyOf original, dTotalReversed := delta, dRequireNonNegative := True, dAt := at\<rparr>))
       \<lparr>dRequireNonNegative := nonneg\<rparr>"

lemma debitDelta_fields [simp]:
  "dKey (debitDelta p bkt delta at nn) = agentKeyOf p" "dTotalReversed (debitDelta p bkt delta at nn) = delta"
  "dTotalEarned (debitDelta p bkt delta at nn) = 0" "dRequireNonNegative (debitDelta p bkt delta at nn) = nn"
  "deltaOf b (debitDelta p bkt delta at nn) = (if b = bkt then - delta else 0)"
  by (cases bkt; cases b; simp add: debitDelta_def)+

lemma debitDelta_buckets:
  "dFrozen (debitDelta p bkt delta at nn) = (if bkt = BucketFrozen then - delta else 0)"
  "dAvailable (debitDelta p bkt delta at nn) = (if bkt = BucketAvailable then - delta else 0)"
  "dWithdrawing (debitDelta p bkt delta at nn) = (if bkt = BucketWithdrawing then - delta else 0)"
  "dWithdrawn (debitDelta p bkt delta at nn) = (if bkt = BucketWithdrawn then - delta else 0)"
  by (cases bkt; simp add: debitDelta_def)+

lemma debit_matching: "matching (debitDelta p bkt delta at nn) (debitEntry p bkt delta reason n tg am at)"
  by (rule matchingI) (simp_all add: debitEntry_def agentKeyOf_def)

lemma if_throw_Inr [simp]: "(if c then throw e else m) s = (Inr y, t) \<longleftrightarrow> \<not> c \<and> m s = (Inr y, t)"
  by simp

lemma debitBucket_Inr:
  assumes "debitBucket l p bkt delta reason n tg am at t = (Inr u, t')"
  obtains nn reason' where "postWith (debitDelta p bkt delta at nn) (debitEntry p bkt delta reason' n tg am at) t = (Inr (), t')"
    "\<not> nn \<Longrightarrow> rAllowNegative (lRules l) \<and> bkt = BucketAvailable"
proof -
  let ?d = "\<lambda>nn. debitDelta p bkt delta at nn"
  have d: "bucketAddToDelta bkt (- delta) (zeroDelta\<lparr>dKey := UserKey (okTenantID (cKey p)) (cAgentUserID p),
      dTotalReversed := delta, dRequireNonNegative := True, dAt := at\<rparr>) = ?d True"
    by (cases bkt) (simp_all add: debitDelta_def agentKeyOf_def)
  have df: "(?d True)\<lparr>dRequireNonNegative := False\<rparr> = ?d False" by (simp add: debitDelta_def)
  obtain r t1 where inc: "IncrementAccount (?d True) t = (r, t1)" by fastforce
  show thesis
  proof (cases r)
    case (Inr saved)
    then have "debitBucket l p bkt delta reason n tg am at t = postWith (?d True) (debitEntry p bkt delta reason n tg am at) t"
      by (simp add: debitBucket_def Let_def d attempt_run andThen_run inc postWith_def)
    then show ?thesis using assms that [of True reason] by simp
  next
    case (Inl e)
    then have "t1 = t" using inc writer_Inl(4) by blast
    then have "debitBucket l p bkt delta reason n tg am at t =
        (if e \<noteq> ErrInsufficientBalance then throw e
         else if \<not> rAllowNegative (lRules l) \<or> bkt \<noteq> BucketAvailable then throw ErrInsufficientBalance
         else postWith (?d False) (debitEntry p bkt delta (reason @ '' (uncovered: money already paid out)'') n tg am at)) t"
      by (simp add: debitBucket_def Let_def d attempt_run inc Inl postWith_def) (simp add: debitDelta_def agentKeyOf_def)
    note ok = trans [OF this [symmetric] assms, unfolded if_throw_Inr]
    from ok have "postWith (?d False) (debitEntry p bkt delta (reason @ '' (uncovered: money already paid out)'') n tg am at) t = (Inr (), t')"
      by (elim conjE) (cases u, simp only:)
    then show ?thesis by (rule that) (use ok in simp)
  qed
qed

text \<open>What the amount to claw back is: the part of the target not given back yet.\<close>

lemma reversalDelta_some:
  assumes "reversalDelta c cumulative base terminal = (delta, target, None)" "\<not> delta <=s 0"
    and row: "commissionRow c" "accrual c"
  shows "delta = target - cReversedAmount c" "sint (cReversedAmount c) < sint target" "sint target \<le> sint (cAmount c)"
    "sint delta = sint target - sint (cReversedAmount c)" "\<not> commissionTerminal (cState c)"
proof -
  have r: "0 \<le> sint (cReversedAmount c)" "sint (cReversedAmount c) \<le> sint (cAmount c)"
    using row by (simp_all add: commissionRow_def)
  have "delta = target - cReversedAmount c \<and> sint (cReversedAmount c) < sint target \<and> sint target \<le> sint (cAmount c) \<and>
      \<not> commissionTerminal (cState c)"
    using assms(1,2)
    by (auto simp: reversalDelta_def sle_sint sless_sint commissionTerminal_def split: if_splits sum.splits)
  then show "delta = target - cReversedAmount c" "sint (cReversedAmount c) < sint target" "sint target \<le> sint (cAmount c)"
    "\<not> commissionTerminal (cState c)" by auto
  moreover have "in64 (sint target - sint (cReversedAmount c))"
    using calculation r sint_upper [of target] by (simp add: in64_def)
  ultimately show "sint delta = sint target - sint (cReversedAmount c)" by (simp add: sint_sub64)
qed

lemma reversalBucket_Inr:
  "reversalBucket st = Inr bkt \<Longrightarrow> (dueTracked st \<and> bkt = BucketFrozen) \<or> (st = CommissionSettled \<and> bkt = BucketAvailable)"
  by (cases st) (auto simp: reversalBucket_def dueTracked_def)

lemma clawBack_Inr:
  assumes "clawBack l p delta target terminal reason at t = (Inr r, t4)"
  obtains t1 t2 t3 p1 p2 bkt nn reason' where
    "AppendCommission (reversalRecord l p delta target at) t = (Inr r, t1)"
    "SetCommissionReversedAmount (cID p) target (cVersion p) t1 = (Inr p1, t2)"
    "if FullyReversed p1 \<and> cState p1 \<noteq> terminal
       then TransitionCommission (cID p1) (cState p1) terminal (cVersion p1) t2 = (Inr p2, t3) else p2 = p1 \<and> t3 = t2"
    "reversalBucket (cState p) = Inr bkt"
    "postWith (debitDelta p bkt delta at nn) (debitEntry p bkt delta reason' (cID r) target (cAmount p2) at) t3 = (Inr (), t4)"
    "\<not> nn \<Longrightarrow> rAllowNegative (lRules l) \<and> bkt = BucketAvailable"
proof -
  obtain t1 t2 t3 p1 p2 bkt u where steps:
    "AppendCommission (reversalRecord l p delta target at) t = (Inr r, t1)"
    "SetCommissionReversedAmount (cID p) target (cVersion p) t1 = (Inr p1, t2)"
    "if FullyReversed p1 \<and> cState p1 \<noteq> terminal
       then TransitionCommission (cID p1) (cState p1) terminal (cVersion p1) t2 = (Inr p2, t3) else p2 = p1 \<and> t3 = t2"
    "reversalBucket (cState p) = Inr bkt"
    "debitBucket l p bkt delta reason (cID r) target (cAmount p2) at t3 = (Inr u, t4)"
  proof -
    obtain r0 t1 where a: "AppendCommission (reversalRecord l p delta target at) t = (Inr r0, t1)"
      and k1: "andThen (SetCommissionReversedAmount (cID p) target (cVersion p)) (\<lambda>cur0.
        andThen (if FullyReversed cur0 \<and> cState cur0 \<noteq> terminal
              then TransitionCommission (cID cur0) (cState cur0) terminal (cVersion cur0)
              else ret cur0) (\<lambda>cur.
        case reversalBucket (cState p) of Inl e \<Rightarrow> throw e
        | Inr bkt \<Rightarrow> andThen (debitBucket l p bkt delta reason (cID r0) target (cAmount cur) at) (\<lambda>_. ret r0))) t1 = (Inr r, t4)"
      using assms unfolding clawBack_def by (rule andThen_InrE)
    obtain p1 t2 where b: "SetCommissionReversedAmount (cID p) target (cVersion p) t1 = (Inr p1, t2)"
      and k2: "andThen (if FullyReversed p1 \<and> cState p1 \<noteq> terminal
              then TransitionCommission (cID p1) (cState p1) terminal (cVersion p1) else ret p1) (\<lambda>cur.
        case reversalBucket (cState p) of Inl e \<Rightarrow> throw e
        | Inr bkt \<Rightarrow> andThen (debitBucket l p bkt delta reason (cID r0) target (cAmount cur) at) (\<lambda>_. ret r0)) t2 = (Inr r, t4)"
      using k1 by (rule andThen_InrE)
    obtain p2 t3 where c: "(if FullyReversed p1 \<and> cState p1 \<noteq> terminal
              then TransitionCommission (cID p1) (cState p1) terminal (cVersion p1) else ret p1) t2 = (Inr p2, t3)"
      and k3: "(case reversalBucket (cState p) of Inl e \<Rightarrow> throw e
        | Inr bkt \<Rightarrow> andThen (debitBucket l p bkt delta reason (cID r0) target (cAmount p2) at) (\<lambda>_. ret r0)) t3 = (Inr r, t4)"
      using k2 by (rule andThen_InrE)
    obtain bkt where d: "reversalBucket (cState p) = Inr bkt" using k3 by (auto split: sum.splits)
    obtain u where e: "debitBucket l p bkt delta reason (cID r0) target (cAmount p2) at t3 = (Inr u, t4)" "r0 = r"
    proof -
      have "andThen (debitBucket l p bkt delta reason (cID r0) target (cAmount p2) at) (\<lambda>_. ret r0) t3 = (Inr r, t4)"
        using k3 by (simp only: d sum.case)
      then show thesis by (rule andThen_InrE) (rule that, simp_all)
    qed
    have c': "if FullyReversed p1 \<and> cState p1 \<noteq> terminal
        then TransitionCommission (cID p1) (cState p1) terminal (cVersion p1) t2 = (Inr p2, t3) else p2 = p1 \<and> t3 = t2"
    proof (cases "FullyReversed p1 \<and> cState p1 \<noteq> terminal")
      case True
      with c show ?thesis by (simp only: if_True simp_thms)
    next
      case False
      with c have "ret p1 t2 = (Inr p2 :: gerror + commission, t3)" by (simp only: if_False)
      then have "p2 = p1 \<and> t3 = t2" by (auto simp: ret_run)
      with False show ?thesis by (simp only: if_False simp_thms)
    qed
    show ?thesis by (rule that [OF a [unfolded e(2)] b c' d e(1) [unfolded e(2)]])
  qed
  from steps(5) show thesis
    by (rule debitBucket_Inr) (rule that [OF steps(1-4)], simp_all)
qed

lemma sint_eqD: "sint (a :: money) = sint b \<Longrightarrow> a = b"
  by (rule signed_word_eqI)

lemma sameCommission_given:
  "sameCommission c (c\<lparr>cReversedAmount := r, cState := s, cVersion := v\<rparr>)"
  unfolding sameCommission_def
  by (rule exI [of _ s], rule exI [of _ "cAvailableAt c"], rule exI [of _ r], rule exI [of _ v]) simp

text \<open>The accrual after giving back up to \<open>target\<close>.\<close>

definition givenBack :: "commission \<Rightarrow> money \<Rightarrow> commission_state \<Rightarrow> commission \<Rightarrow> bool" where
  "givenBack p target terminal p2 \<longleftrightarrow> sameCommission p p2 \<and> cReversedAmount p2 = target \<and>
     cState p2 = (if target = cAmount p then terminal else cState p)"

lemma clawBack_rows:
  assumes wf: "storeWf (txD t)" and row: "dCommissions (txD t) (cID p) = Some p"
    and target: "cReversedAmount p \<noteq> target" "sint target \<le> sint (cAmount p)" "accrual p"
    and steps: "AppendCommission (reversalRecord l p delta target at) t = (Inr r, t1)"
      "SetCommissionReversedAmount (cID p) target (cVersion p) t1 = (Inr p1, t2)"
      "if FullyReversed p1 \<and> cState p1 \<noteq> terminal
         then TransitionCommission (cID p1) (cState p1) terminal (cVersion p1) t2 = (Inr p2, t3) else p2 = p1 \<and> t3 = t2"
  shows "storeWf (txD t3)" "givenBack p target terminal p2" "r = (reversalRecord l p delta target at)\<lparr>cID := dNextID (txD t) + 1\<rparr>"
    "dCommissions (txD t3) = (dCommissions (txD t))(dNextID (txD t) + 1 \<mapsto> r, cID p \<mapsto> p2)"
    "dWithdrawals (txD t3) = dWithdrawals (txD t)" "dLedger (txD t3) = dLedger (txD t)"
    "accountOf (txD t3) k = accountOf (txD t) k"
proof -
  note app = AppendCommission_Inr [OF steps(1)]
  have none: "dCommissions (txD t) (dNextID (txD t) + 1) = None"
    using storeWf_parts [OF wf] by (simp add: commissionsWf_def idsUpTo_fresh)
  then have ne: "cID p \<noteq> dNextID (txD t) + 1" using row by auto
  have t1: "dCommissions (txD t1) = (dCommissions (txD t))(dNextID (txD t) + 1 \<mapsto> r)" "dCommissions (txD t1) (cID p) = Some p"
    using app(1,2) ne row by (simp_all add: addCommission_def)
  have p1: "p1 = p\<lparr>cReversedAmount := target, cVersion := cVersion p + 1\<rparr>" "txD t2 = setCommission (cID p) p1 (txD t1)"
    using steps(2) by (cases rule: SetCommissionReversedAmount_Inr; use t1(2) target(1) in simp)+
  have full: "FullyReversed p1 \<longleftrightarrow> target = cAmount p"
    using target(2,3) sint_eqD [of target "cAmount p"]
    by (auto simp: p1(1) FullyReversed_def sle_sint sless_sint accrual_def)
  have wf1: "storeWf (txD t1)" by (rule storeWf_AppendCommission [OF wf steps(1)])
  have wf2: "storeWf (txD t2)" by (rule storeWf_SetCommissionReversedAmount [OF wf1 steps(2)])
  have both: "storeWf (txD t3) \<and> givenBack p target terminal p2 \<and>
      dCommissions (txD t3) = (dCommissions (txD t1))(cID p \<mapsto> p2) \<and> dWithdrawals (txD t3) = dWithdrawals (txD t2) \<and>
      dLedger (txD t3) = dLedger (txD t2) \<and> accountOf (txD t3) k = accountOf (txD t2) k"
  proof (cases "FullyReversed p1 \<and> cState p1 \<noteq> terminal")
    case True
    then have tr: "TransitionCommission (cID p1) (cState p1) terminal (cVersion p1) t2 = (Inr p2, t3)" using steps(3) by simp
    note tabs = TransitionCommission_tables [OF tr]
    have "p2 = p1\<lparr>cState := terminal, cVersion := cVersion p1 + 1\<rparr>"
      using tr by (rule TransitionCommission_Inr) (simp add: p1 setCommission_def)
    then have "givenBack p target terminal p2"
      using True full sameCommission_given by (auto simp: givenBack_def p1(1))
    moreover have "dCommissions (txD t3) = (dCommissions (txD t1))(cID p \<mapsto> p2)"
      using tabs(6) by (simp add: p1 setCommission_def)
    ultimately show ?thesis using storeWf_TransitionCommission [OF wf2 tr] tabs by simp
  next
    case False
    then have "p2 = p1" "t3 = t2" using steps(3) by (simp_all split: if_splits)
    then show ?thesis using wf2 False full by (auto simp: p1 setCommission_def givenBack_def)
  qed
  show "storeWf (txD t3)" "givenBack p target terminal p2" using both by blast+
  show "r = (reversalRecord l p delta target at)\<lparr>cID := dNextID (txD t) + 1\<rparr>" by (rule app(2))
  show "dCommissions (txD t3) = (dCommissions (txD t))(dNextID (txD t) + 1 \<mapsto> r, cID p \<mapsto> p2)" using both t1(1) by simp
  show "dWithdrawals (txD t3) = dWithdrawals (txD t)" "dLedger (txD t3) = dLedger (txD t)"
    "accountOf (txD t3) k = accountOf (txD t) k"
    using both by (simp_all add: p1(2) setCommission_def app(1) addCommission_def accountOf_def)
qed

lemma givenBack_row:
  assumes gb: "givenBack p target terminal p2" and row: "commissionRow p" "accrual p" "\<not> commissionTerminal (cState p)"
    and target: "0 \<le> sint target" "sint target \<le> sint (cAmount p)" and terminal: "commissionTerminal terminal"
  shows "commissionRow p2" "accrual p2" "earnedShare p2 = earnedShare p"
    "reversedShare p2 - reversedShare p = sint target - sint (cReversedAmount p)"
    "frozenShare p2 - frozenShare p = onlyIf (dueTracked (cState p)) (sint (cReversedAmount p) - sint target)"
proof -
  note same = sameCommission_fields [OF gb [unfolded givenBack_def, THEN conjunct1]]
  have amount: "cAmount p2 = cAmount p" "cReverseOf p2 = cReverseOf p" "cReversedAmount p2 = target"
    using same(5,6) gb by (simp_all add: givenBack_def)
  have st: "cState p2 = (if target = cAmount p then terminal else cState p)" using gb by (simp add: givenBack_def)
  show acc: "accrual p2" using row amount by (simp add: accrual_def)
  have "commissionStateValid terminal" using terminal by (auto simp: commissionTerminal_def commissionStateValid_def)
  then show "commissionRow p2" using row target terminal amount st acc by (auto simp: commissionRow_def)
  show "earnedShare p2 = earnedShare p" "reversedShare p2 - reversedShare p = sint target - sint (cReversedAmount p)"
    using row(2) acc by (simp_all add: earnedShare_def reversedShare_def onlyIf_def amount)
  have "\<not> dueTracked terminal" using terminal by (auto simp: commissionTerminal_def dueTracked_def)
  then show "frozenShare p2 - frozenShare p = onlyIf (dueTracked (cState p)) (sint (cReversedAmount p) - sint target)"
    using row(2) acc by (auto simp: frozenShare_def onlyIf_def amount st)
qed

lemma claw_commSum:
  assumes fin: "finite (dom (dCommissions d))" and ids: "idsUpTo (dNextID d) (dCommissions d) cID"
    and p: "dCommissions d i = Some p" "dCommissions d' = (dCommissions d)(dNextID d + 1 \<mapsto> r, i \<mapsto> p2)"
    and same: "sameCommission p p2" and r: "f r = 0"
  shows "commSum f k d' = commSum f k d + onlyIf (k = agentKeyOf p) (f p2 - f p)"
proof -
  have none: "dCommissions d (dNextID d + 1) = None" by (rule idsUpTo_fresh [OF ids])
  let ?mid = "d\<lparr>dCommissions := (dCommissions d)(dNextID d + 1 \<mapsto> r)\<rparr>"
  have "commSum f k ?mid = commSum f k d"
    using commSum_new [OF fin none, of ?mid r f k] r by (simp add: onlyIf_def)
  moreover have "commSum f k d' = commSum f k ?mid + onlyIf (agentKeyOf p = k) (f p2 - f p)"
    by (rule commSum_set) (use fin p none sameCommission_fields(4) [OF same] in auto)
  ultimately show ?thesis by (simp add: eq_commute)
qed

lemma storeWf_row_positive: "storeWf d \<Longrightarrow> dCommissions d i = Some c \<Longrightarrow> 0 < i \<and> cID c = i"
  by (fastforce dest!: storeWf_parts(7) simp: idsUpTo_def)

lemma book_clawBack:
  assumes inv: "moneyInv (txD t)" and row: "dCommissions (txD t) (cID p) = Some p" "accrual p"
    and delta: "reversalDelta p cumulative base terminal = (delta, target, None)" "\<not> delta <=s 0"
    and terminal: "commissionTerminal terminal"
    and run: "clawBack l p delta target terminal reason at t = (Inr r, t4)"
  shows "moneyInv (txD t4)"
proof -
  note parts = moneyInv_parts [OF inv]
  have crow: "commissionRow p" using commissionsInvD(1) [OF parts(2) row(1)] .
  note amounts = reversalDelta_some [OF delta crow row(2)]
  have r0: "0 \<le> sint (cReversedAmount p)" using crow row(2) by (simp add: commissionRow_def)
  obtain t1 t2 t3 p1 p2 bkt nn reason' where
    steps: "AppendCommission (reversalRecord l p delta target at) t = (Inr r, t1)"
      "SetCommissionReversedAmount (cID p) target (cVersion p) t1 = (Inr p1, t2)"
      "if FullyReversed p1 \<and> cState p1 \<noteq> terminal
         then TransitionCommission (cID p1) (cState p1) terminal (cVersion p1) t2 = (Inr p2, t3) else p2 = p1 \<and> t3 = t2"
    and bkt: "reversalBucket (cState p) = Inr bkt"
    and post: "postWith (debitDelta p bkt delta at nn) (debitEntry p bkt delta reason' (cID r) target (cAmount p2) at) t3 = (Inr (), t4)"
    using run by (rule clawBack_Inr)
  have "cReversedAmount p \<noteq> target" using amounts(2) by auto
  note claw = clawBack_rows [OF parts(1) row(1) this amounts(3) row(2) steps]
  note gb = givenBack_row [OF claw(2) crow row(2) amounts(5) _ amounts(3) terminal]
  have j3: "journalOk (txD t3)" by (rule journalOk_same [OF parts(5) claw(6,7)])
  note left = postWith_Inr [OF claw(1) j3 debit_matching post]
  have t0: "0 \<le> sint target" using r0 amounts(2) by simp
  note gb2 = gb [OF t0]
  have rfacts: "cAmount r = - delta" "agentKeyOf r = agentKeyOf p" "cReverseOf r = cID p" "cState r = CommissionReversed"
    "cReversedAmount r = 0" "linked r p"
    using row(2) by (simp_all add: claw(3) reversalRecord_def agentKeyOf_def linked_def zeroCommission_def)
  have "in64 (- sint delta)" using amounts(2-4) r0 sint_upper [of "cAmount p"] by (simp add: in64_def)
  then have neg: "sint (- delta) = - sint delta" by (rule sint_minus64)
  then have rneg: "\<not> accrual r" "sint (cAmount r) < 0" using amounts(2,4) rfacts(1) by (simp_all add: accrual_def)
  have rrow: "commissionRow r"
    using rneg rfacts(3-5) storeWf_row_positive [OF parts(1) row(1)]
    by (simp add: commissionRow_def commissionStateValid_def)
  have comms: "commissionsInv (dCommissions (txD t4))"
    unfolding left(3) claw(4)
    by (rule commissionsInv_claw [OF parts(2,8) row rneg(1) rrow rfacts(3,6) claw(2) [unfolded givenBack_def, THEN conjunct1] gb2(1)])
      (use claw(2) rfacts(1) neg amounts(4) in \<open>simp add: givenBack_def\<close>)
  have sums: "commSum f k (txD t4) = commSum f k (txD t) + onlyIf (k = agentKeyOf p) (f p2 - f p)" if "f r = 0" for f k
    using parts(6,8) row(1) _ claw(2) [unfolded givenBack_def, THEN conjunct1] that
    by (rule claw_commSum) (simp add: left(3) claw(4))
  have rshares: "frozenShare r = 0" "earnedShare r = 0" "reversedShare r = 0"
    using rneg by (simp_all add: frozenShare_def earnedShare_def reversedShare_def onlyIf_def)
  have wds: "dWithdrawals (txD t4) = dWithdrawals (txD t)" using left(4) claw(5) by simp
  have books: "booksOk (txD t4)"
    by (rule booksOk_posted [OF parts(4) claw(1) j3 claw(7) debit_matching post refl])
      (use reversalBucket_Inr [OF bkt] in
        \<open>auto simp: debitDelta_buckets sums rshares gb2 wdSum_same [OF wds] neg amounts(4) onlyIf_def dueTracked_def\<close>)
  show ?thesis using left(1,2) comms books parts(3) wds by (simp add: moneyInv_def)
qed

end
