(* ===== verification/Reservations.thy ===== *)
theory Reservations
  imports Clawbacks
begin

text \<open>
  The books after the movements of a withdrawal (holding its amount, releasing it, paying it out,
  moving between the states that hold it) and after the operations that touch neither money nor
  commission amounts.
\<close>

subsection \<open>Withdrawal rows\<close>

lemma withdrawalsInv_set: "withdrawalsInv m \<Longrightarrow> withdrawalRow w \<Longrightarrow> withdrawalsInv (m(i \<mapsto> w))"
  by (simp add: withdrawalsInv_def)

lemma withdrawalRow_validated:
  assumes "withdrawalValidate w = None" "withdrawalReserved (wState w)"
  shows "withdrawalRow w"
proof -
  have w: "0 < sint (wAmount w)" "0 \<le> sint (wFee w)" "sint (wFee w) < sint (wAmount w)" "wRealAmount w = wAmount w - wFee w"
    "withdrawalStateValid (wState w)" "wPaidAt w \<noteq> 0 \<Longrightarrow> wState w = WithdrawalPaid"
    using assms(1) by (auto simp: withdrawalValidate_def sle_sint sless_sint split: option.splits if_splits)
  then have "in64 (sint (wAmount w) - sint (wFee w))" using sint_upper [of "wAmount w"] by (simp add: in64_def)
  then show ?thesis using w by (simp add: withdrawalRow_def sint_sub64)
qed

lemma withdrawalRow_patch:
  assumes "withdrawalRow w" "withdrawalReserved (wState w)" "withdrawalStateValid st" "wtPaidAt tr \<noteq> 0 \<Longrightarrow> st = WithdrawalPaid"
  shows "withdrawalRow (withdrawalPatch tr (w\<lparr>wState := st, wVersion := v\<rparr>))"
  using assms by (auto simp: withdrawalRow_def withdrawalReserved_def)

lemma TransitionWithdrawal_tables:
  assumes "TransitionWithdrawal i from to v tr t = (Inr w', t')"
  shows "dCommissions (txD t') = dCommissions (txD t)" "dLedger (txD t') = dLedger (txD t)"
    "accountOf (txD t') k = accountOf (txD t) k" "dRefunds (txD t') = dRefunds (txD t)"
    "dWithdrawals (txD t') = (dWithdrawals (txD t))(i \<mapsto> w')"
  using assms by (auto elim!: TransitionWithdrawal_Inr simp: accountOf_def)

lemma row_reserved:
  assumes "withdrawalRow w" "withdrawalReserved (wState w)"
  shows "withdrawalOutstanding w = wAmount w" "\<not> wAmount w <=s 0" "sint (- wAmount w) = - sint (wAmount w)"
proof -
  have "in64 (- sint (wAmount w))" using assms(1) sint_upper [of "wAmount w"] by (simp add: withdrawalRow_def in64_def)
  then show "sint (- wAmount w) = - sint (wAmount w)" by (rule sint_minus64)
qed (use assms in \<open>simp_all add: withdrawalOutstanding_def withdrawalRow_def sle_sint\<close>)

subsection \<open>Holding, releasing, paying\<close>

definition holdDelta :: "user_key \<Rightarrow> money \<Rightarrow> gotime \<Rightarrow> account_delta" where
  "holdDelta k m at = zeroDelta\<lparr>dKey := k, dAvailable := - m, dWithdrawing := m, dRequireNonNegative := True, dAt := at\<rparr>"

definition releaseDelta :: "withdrawal_state \<Rightarrow> user_key \<Rightarrow> money \<Rightarrow> gotime \<Rightarrow> account_delta" where
  "releaseDelta to k m at = (if to = WithdrawalPaid
     then zeroDelta\<lparr>dKey := k, dWithdrawing := - m, dWithdrawn := m, dRequireNonNegative := True, dAt := at\<rparr>
     else zeroDelta\<lparr>dKey := k, dWithdrawing := - m, dAvailable := m, dRequireNonNegative := True, dAt := at\<rparr>)"

lemma releaseDelta_key [simp]: "dKey (releaseDelta to k m at) = k"
  by (simp add: releaseDelta_def)

lemma book_hold:
  assumes inv: "moneyInv (txD t)" and app: "AppendWithdrawal w0 t = (Inr w, t1)" and applied: "wState w0 = WithdrawalApplied"
    and key: "wKey w0 = k" "wAmount w0 = m" and match: "matching (holdDelta k m at) f"
    and post: "postWith (holdDelta k m at) f t1 = (Inr (), t2)"
  shows "moneyInv (txD t2)"
proof -
  note parts = moneyInv_parts [OF inv] and eff = AppendWithdrawal_Inr [OF app]
  have w: "wState w = WithdrawalApplied" "wKey w = k" "wAmount w = m" using eff(2) applied key by simp_all
  have row0: "withdrawalRow w0" using eff(3) applied by (simp add: withdrawalRow_validated withdrawalReserved_def)
  then have row: "withdrawalRow w" using eff(2) by (simp add: withdrawalRow_def)
  have none: "dWithdrawals (txD t) (dNextID (txD t) + 1) = None" by (rule idsUpTo_fresh [OF parts(9)])
  have rows: "dWithdrawals (txD t1) = (dWithdrawals (txD t))(dNextID (txD t) + 1 \<mapsto> w)"
    using eff(1,2) by (simp add: addWithdrawal_def)
  have wf1: "storeWf (txD t1)" by (rule storeWf_AppendWithdrawal [OF parts(1) app])
  have same1: "dCommissions (txD t1) = dCommissions (txD t)" "dLedger (txD t1) = dLedger (txD t)"
    "accountOf (txD t1) k = accountOf (txD t) k" for k
    by (simp_all add: eff(1) addWithdrawal_def accountOf_def)
  have j1: "journalOk (txD t1)" by (rule journalOk_same [OF parts(5) same1(2,3)])
  note left = postWith_Inr [OF wf1 j1 match post]
  have rows2: "dWithdrawals (txD t2) = (dWithdrawals (txD t))(dNextID (txD t) + 1 \<mapsto> w)"
    and comms2: "dCommissions (txD t2) = dCommissions (txD t)"
    using left(3,4) rows same1 by simp_all
  have neg: "sint (- m) = - sint m" using row_reserved(3) [OF row] w by (simp add: withdrawalReserved_def)
  have "booksOk (txD t2)"
    by (rule booksOk_posted [OF parts(4) wf1 j1 same1(3) match post refl])
      (use w neg wdSum_new [OF parts(7) none rows2] commSum_same [OF comms2] in
        \<open>auto simp: holdDelta_def reservedShare_def paidShare_def withdrawalReserved_def onlyIf_def\<close>)
  moreover have "withdrawalsInv (dWithdrawals (txD t2))"
    unfolding rows2 by (rule withdrawalsInv_set [OF parts(3) row])
  ultimately show ?thesis using left(1,2) parts(2) comms2 by (simp add: moneyInv_def)
qed

lemma book_release:
  assumes inv: "moneyInv (txD t)" and row: "dWithdrawals (txD t) i = Some w" and reserved: "withdrawalReserved (wState w)"
    and match: "matching (releaseDelta to (wKey w) (wAmount w) at) f"
    and post: "postWith (releaseDelta to (wKey w) (wAmount w) at) f t = (Inr (), t1)"
    and tr: "TransitionWithdrawal i (wState w) to v patch t1 = (Inr w', t2)"
    and to: "to = WithdrawalPaid \<or> to = WithdrawalRejected" "wtPaidAt patch \<noteq> 0 \<Longrightarrow> to = WithdrawalPaid"
  shows "moneyInv (txD t2)"
proof -
  note parts = moneyInv_parts [OF inv]
  note left = postWith_Inr [OF parts(1,5) match post] and tabs = TransitionWithdrawal_tables [OF tr]
  have wrow: "withdrawalRow w" using parts(3) row by (simp add: withdrawalsInv_def)
  have w': "w' = withdrawalPatch patch (w\<lparr>wState := to, wVersion := wVersion w + 1\<rparr>)"
    using tr row by (auto elim!: TransitionWithdrawal_Inr simp: left(4))
  have rows2: "dWithdrawals (txD t2) = (dWithdrawals (txD t))(i \<mapsto> w')" and comms2: "dCommissions (txD t2) = dCommissions (txD t)"
    using tabs(1,5) left(3,4) by simp_all
  note neg = row_reserved(3) [OF wrow reserved]
  have key: "wKey w' = wKey w" by (simp add: w')
  have valid: "withdrawalStateValid to" using to by (auto simp: withdrawalStateValid_def)
  have books: "booksOk (txD t2)"
    by (rule booksOk_posted [OF parts(4) parts(1,5) refl match post tabs(3)])
      (use reserved neg to(1) wdSum_set [OF parts(7) row rows2 key] commSum_same [OF comms2] in
        \<open>auto simp: releaseDelta_def reservedShare_def paidShare_def withdrawalReserved_def onlyIf_def w'\<close>)
  have "withdrawalRow w'" unfolding w' by (rule withdrawalRow_patch [OF wrow reserved valid to(2)])
  then have "withdrawalsInv (dWithdrawals (txD t2))" unfolding rows2 by (rule withdrawalsInv_set [OF parts(3)])
  moreover have "journalOk (txD t2)" by (rule journalOk_same [OF left(2) tabs(2,3)])
  ultimately show ?thesis using storeWf_TransitionWithdrawal [OF left(1) tr] books parts(2) comms2 by (simp add: moneyInv_def)
qed

text \<open>Between the states that hold the amount nothing moves.\<close>

lemma book_rereserve:
  assumes inv: "moneyInv (txD t)" and tr: "TransitionWithdrawal i from to v patch t = (Inr w', t')"
    and states: "withdrawalReserved to" and patch: "wtPaidAt patch = 0"
  shows "moneyInv (txD t')"
proof -
  note parts = moneyInv_parts [OF inv] and tabs = TransitionWithdrawal_tables [OF tr]
  obtain w where w: "dWithdrawals (txD t) i = Some w" "wState w = from"
    "w' = withdrawalPatch patch (w\<lparr>wState := to, wVersion := wVersion w + 1\<rparr>)" "CanTransitionWithdrawal from to"
    using tr by (auto elim!: TransitionWithdrawal_Inr)
  have from_res: "withdrawalReserved from" by (rule reserved_step [OF w(4)])
  have wrow: "withdrawalRow w" using parts(3) w(1) by (simp add: withdrawalsInv_def)
  have valid: "withdrawalStateValid to" using states by (auto simp: withdrawalReserved_def withdrawalStateValid_def)
  have row': "withdrawalRow w'"
    unfolding w(3) by (rule withdrawalRow_patch [OF wrow _ valid]) (use from_res w(2) patch in simp_all)
  have key: "wKey w' = wKey w" by (simp add: w(3))
  have shares: "reservedShare w' = reservedShare w" "paidShare w' = paidShare w"
    using from_res states w(2) by (auto simp: w(3) reservedShare_def paidShare_def withdrawalReserved_def)
  have same: "wdSum f k (txD t') = wdSum f k (txD t)" if "f w' = f w" for f k
    using wdSum_set [OF parts(7) w(1) tabs(5) key, of f k] that by (simp add: onlyIf_def)
  have "booksAt (accountOf (txD t') k) k (txD t')" if "booksAt (accountOf (txD t) k) k (txD t)" for k
    using that by (simp add: booksAt_def tabs(3) commSum_same [OF tabs(1)] same shares)
  then have "booksOk (txD t')" using parts(4) by (simp add: booksOk_def)
  moreover have "withdrawalsInv (dWithdrawals (txD t'))" unfolding tabs(5) by (rule withdrawalsInv_set [OF parts(3) row'])
  ultimately show ?thesis
    using storeWf_TransitionWithdrawal [OF parts(1) tr] journalOk_same [OF parts(5) tabs(2,3)] parts(2) tabs(1)
    by (simp add: moneyInv_def)
qed

subsection \<open>Decisions\<close>

lemma postWith_then:
  "andThen (IncrementAccount d) (\<lambda>a. andThen (AppendLedger (f a)) (\<lambda>_. m)) = andThen (postWith d f) (\<lambda>_. m)"
  by (rule ext) (simp add: postWith_def andThen_run ret_run split: sum.split)

lemma withdrawal_row:
  "moneyInv d \<Longrightarrow> dWithdrawals d i = Some w \<Longrightarrow> dWithdrawals d (wID w) = Some w \<and> withdrawalRow w"
  using storeWf_parts(9) [OF moneyInv_parts(1), of d] moneyInv_parts(3) [of d]
  by (auto simp: withdrawalsInv_def idsUpTo_def)

definition releaseEntry :: "withdrawal \<Rightarrow> string \<Rightarrow> gotime \<Rightarrow> account \<Rightarrow> ledger_entry" where
  "releaseEntry w reason at acct = bucketAddDelta BucketAvailable (wAmount w)
     (newLedgerEntry (wKey w) LedgerWithdrawRefund (formatInt (wID w))
       (''withdraw released '' @ formatInt (wID w) @ '' amount '' @ moneyString (wAmount w) @ '' reason '' @ reason)
       at acct BucketWithdrawing (- wAmount w))"

definition paidEntry :: "withdrawal \<Rightarrow> gotime \<Rightarrow> account \<Rightarrow> ledger_entry" where
  "paidEntry w at acct = bucketAddDelta BucketWithdrawn (wAmount w)
     (newLedgerEntry (wKey w) LedgerWithdrawPaid (formatInt (wID w))
       (''withdraw paid '' @ formatInt (wID w) @ '' amount '' @ moneyString (wAmount w) @
        '' real '' @ moneyString (wRealAmount w) @ '' fee '' @ moneyString (wFee w))
       at acct BucketWithdrawing (- wAmount w))"

lemma release_matching: "matching (releaseDelta WithdrawalRejected (wKey w) (wAmount w) at) (releaseEntry w reason at)"
  by (rule matchingI) (simp_all add: releaseEntry_def releaseDelta_def deltaOf_bucket split: bucket.split)

lemma paid_matching: "matching (releaseDelta WithdrawalPaid (wKey w) (wAmount w) at) (paidEntry w at)"
  by (rule matchingI) (simp_all add: paidEntry_def releaseDelta_def deltaOf_bucket split: bucket.split)

text \<open>A rejection that succeeds releases the amount, then moves the state.\<close>

lemma rejectBody_run:
  assumes inv: "moneyInv (txD t)" and load: "loadScopedWithdrawal (wdTenantID req) (wdWithdrawalID req) (txD t) = Inr cur"
    and res: "withdrawalReserved (wState cur)"
  shows "rejectBody l req t =
    andThen (postWith (releaseDelta WithdrawalRejected (wKey cur) (wAmount cur) (lNow l)) (releaseEntry cur (wdReason req) (lNow l)))
      (\<lambda>_. TransitionWithdrawal (wID cur) (wState cur) WithdrawalRejected (wVersion cur)
         (noTransition\<lparr>wtOperator := wdOperator req, wtFailReason := wdReason req, wtAuditedAt := lNow l\<rparr>)) t"
proof -
  have "withdrawalRow cur"
    using load withdrawal_row [OF inv] by (auto simp: loadScopedWithdrawal_def split: if_splits sum.splits)
  note amount = row_reserved [OF this res]
  have "releaseReservation cur LedgerWithdrawRefund (wdReason req) (lNow l) =
      postWith (releaseDelta WithdrawalRejected (wKey cur) (wAmount cur) (lNow l)) (releaseEntry cur (wdReason req) (lNow l))"
    unfolding releaseReservation_def Let_def amount(1) if_not_P [OF amount(2)] postWith_def releaseDelta_def releaseEntry_def by simp
  then show ?thesis using load res by (simp add: rejectBody_def andThen_run [of "rd q" for q] rd_run)
qed

lemma rejectBody_runs:
  assumes inv: "moneyInv (txD t)" and run: "rejectBody l req t = (Inr w', t2)"
  obtains cur t1 where "dWithdrawals (txD t) (wID cur) = Some cur" "withdrawalReserved (wState cur)"
    "postWith (releaseDelta WithdrawalRejected (wKey cur) (wAmount cur) (lNow l)) (releaseEntry cur (wdReason req) (lNow l)) t = (Inr (), t1)"
    "TransitionWithdrawal (wID cur) (wState cur) WithdrawalRejected (wVersion cur)
       (noTransition\<lparr>wtOperator := wdOperator req, wtFailReason := wdReason req, wtAuditedAt := lNow l\<rparr>) t1 = (Inr w', t2)"
proof -
  obtain cur where load: "loadScopedWithdrawal (wdTenantID req) (wdWithdrawalID req) (txD t) = Inr cur"
    and res: "withdrawalReserved (wState cur)"
    using run by (auto simp: rejectBody_def andThen_Inr_iff throw_def split: if_splits)
  have "dWithdrawals (txD t) (wID cur) = Some cur"
    using load withdrawal_row [OF inv] by (auto simp: loadScopedWithdrawal_def split: if_splits sum.splits)
  then show thesis
    using run that [of cur] res unfolding rejectBody_run [OF inv load res] andThen_Inr_iff by auto
qed

text \<open>A payment is settled once: from a state that holds the amount, or not at all.\<close>

lemma settlePayoutBody_run:
  assumes inv: "moneyInv (txD t)" and load: "rdWithdrawalByID (wID cur) (txD t) = Inr live"
  shows "settlePayoutBody l cur invoice operator t =
    (if withdrawalReserved (wState live)
     then andThen (postWith (releaseDelta WithdrawalPaid (wKey live) (wAmount live) (lNow l)) (paidEntry live (lNow l)))
       (\<lambda>_. TransitionWithdrawal (wID live) (wState live) WithdrawalPaid (wVersion live)
         (noTransition\<lparr>wtInvoiceNo := invoice, wtOperator := operator, wtPaidAt := lNow l\<rparr>)) t
     else (Inr live, t))"
proof (cases "withdrawalReserved (wState live)")
  case True
  have row: "withdrawalRow live" using load withdrawal_row [OF inv] by auto
  note amount = row_reserved [OF row True]
  have "wPaidAt live = 0" "wState live \<noteq> WithdrawalPaid"
    using row True by (auto simp: withdrawalRow_def withdrawalReserved_def)
  then have "settlePayoutBody l cur invoice operator t =
      andThen (IncrementAccount (releaseDelta WithdrawalPaid (wKey live) (wAmount live) (lNow l))) (\<lambda>acct.
        andThen (AppendLedger (paidEntry live (lNow l) acct)) (\<lambda>_.
          TransitionWithdrawal (wID live) (wState live) WithdrawalPaid (wVersion live)
            (noTransition\<lparr>wtInvoiceNo := invoice, wtOperator := operator, wtPaidAt := lNow l\<rparr>))) t"
    unfolding settlePayoutBody_def Let_def
    by (simp only: andThen_run [of "rd q" for q] rd_run fst_conv snd_conv load sum.case)
      (simp add: amount releaseDelta_def paidEntry_def)
  with True show ?thesis by (simp add: postWith_then)
next
  case False
  have "withdrawalOutstanding live <=s 0" using False by (simp add: withdrawalOutstanding_def sle_sint)
  then show ?thesis
    unfolding settlePayoutBody_def Let_def
    by (simp only: andThen_run [of "rd q" for q] rd_run fst_conv snd_conv load sum.case) (simp add: False ret_run)
qed

lemma settlePayoutBody_runs:
  assumes inv: "moneyInv (txD t)" and run: "settlePayoutBody l cur invoice operator t = (Inr w', t2)"
  obtains (idle) "t2 = t"
  | (paid) live t1 where "dWithdrawals (txD t) (wID live) = Some live" "withdrawalReserved (wState live)"
    "postWith (releaseDelta WithdrawalPaid (wKey live) (wAmount live) (lNow l)) (paidEntry live (lNow l)) t = (Inr (), t1)"
    "TransitionWithdrawal (wID live) (wState live) WithdrawalPaid (wVersion live)
       (noTransition\<lparr>wtInvoiceNo := invoice, wtOperator := operator, wtPaidAt := lNow l\<rparr>) t1 = (Inr w', t2)"
proof -
  obtain live where load: "rdWithdrawalByID (wID cur) (txD t) = Inr live"
    using run by (auto simp: settlePayoutBody_def andThen_Inr_iff)
  have row: "dWithdrawals (txD t) (wID live) = Some live" using load withdrawal_row [OF inv] by auto
  show thesis
  proof (cases "withdrawalReserved (wState live)")
    case True
    then show ?thesis
      using run paid [OF row True] unfolding settlePayoutBody_run [OF inv load] if_P [OF True] andThen_Inr_iff by auto
  next
    case False
    then show ?thesis using run idle unfolding settlePayoutBody_run [OF inv load] by simp
  qed
qed

end
