(* ===== verification/Commit.thy ===== *)
theory Commit
  imports TxInvariant
begin

text \<open>
  The contract of a transaction body: run on data that satisfies an invariant, a body that succeeds
  leaves data that satisfies it, and history only grows. A failing body is rolled back, so nothing
  is said of the state it stops in. Unlike the invariants of \<open>tx_invariant\<close>, the invariant need not
  hold between the operations of a body; the rules here put bodies together from blocks that keep it.
\<close>

locale commit_contract =
  fixes J :: "data \<Rightarrow> bool"
  assumes J_wf: "J d \<Longrightarrow> storeWf d"
begin

definition sound :: "data \<Rightarrow> txn \<Rightarrow> bool" where
  "sound d0 t \<longleftrightarrow> J (txD t) \<and> historyInv d0 (txD t)"

text \<open>A body starts on the data it will be rolled back to.\<close>

definition starts :: "data \<Rightarrow> txn \<Rightarrow> bool" where
  "starts d0 t \<longleftrightarrow> txD t = d0 \<and> J d0"

definition safe :: "(txn \<Rightarrow> bool) \<Rightarrow> data \<Rightarrow> (txn, 'a) step \<Rightarrow> bool" where
  "safe P d0 m \<longleftrightarrow> hoare P m (\<lambda>_. sound d0) (\<lambda>_ _. True)"

lemma starts_sound: "starts d0 t \<Longrightarrow> sound d0 t"
  by (auto simp: starts_def sound_def historyInv_def grewFrom_refl J_wf)

lemma sound_parts: "sound d0 t \<Longrightarrow> J (txD t)" "sound d0 t \<Longrightarrow> historyInv d0 (txD t)"
  by (simp_all add: sound_def)

lemma safe_start: "safe (sound d0) d0 m \<Longrightarrow> safe (starts d0) d0 m"
  unfolding safe_def by (erule hoare_pre) (rule starts_sound)

lemma safeI:
  assumes "keeps (\<lambda>t. historyInv d0 (txD t)) m"
    and "\<And>t x t'. P t \<Longrightarrow> m t = (Inr x, t') \<Longrightarrow> J (txD t')" and "\<And>t. P t \<Longrightarrow> sound d0 t"
  shows "safe P d0 m"
  unfolding safe_def
proof (rule hoareI)
  fix t x t'
  assume "P t" "m t = (Inr x, t')"
  then show "sound d0 t'"
    using assms(2) [of t x t'] keeps_resultD [OF assms(1), of t] assms(3) [of t] by (simp add: sound_def)
qed simp

lemma safe_ret: "(\<And>t. P t \<Longrightarrow> sound d0 t) \<Longrightarrow> safe P d0 (ret x)"
  by (simp add: safe_def hoare_retI)

lemma safe_throw: "safe P d0 (throw e)"
  by (simp add: safe_def hoare_throw_any)

lemma safe_bind:
  assumes "safe P d0 m" "\<And>x. safe (sound d0) d0 (f x)"
  shows "safe P d0 (andThen m f)"
  unfolding safe_def by (rule hoare_andThen) (use assms in \<open>auto simp: safe_def\<close>)

text \<open>A read leaves the state alone and tells what the row was.\<close>

lemma safe_read:
  assumes "\<And>x. safe (\<lambda>t. P t \<and> q (txD t) = x) d0 (f x)"
  shows "safe P d0 (attempt (rd q) f)"
  using assms unfolding safe_def hoare_def by (simp add: attempt_run rd_run)

lemma safe_read_Inr:
  assumes "\<And>x. safe (\<lambda>t. P t \<and> q (txD t) = Inr x) d0 (f x)"
  shows "safe P d0 (andThen (rd q) f)"
  unfolding andThen_def
  by (rule safe_read, case_tac x) (simp_all add: assms safe_throw)

lemma safe_if: "(b \<Longrightarrow> safe P d0 m) \<Longrightarrow> (\<not> b \<Longrightarrow> safe P d0 n) \<Longrightarrow> safe P d0 (if b then m else n)"
  by simp

lemma safe_pre: "safe P d0 m \<Longrightarrow> (\<And>t. P' t \<Longrightarrow> P t) \<Longrightarrow> safe P' d0 m"
  unfolding safe_def by (erule hoare_pre) simp

text \<open>An attempted block whose errors, where they are handled, have changed nothing.\<close>

lemma safe_attempt:
  assumes "safe P d0 m"
    and "\<And>t e t'. P t \<Longrightarrow> m t = (Inl e, t') \<Longrightarrow> handled e \<Longrightarrow> sound d0 t'"
    and "\<And>x. safe (sound d0) d0 (f (Inr x))"
    and "\<And>e. handled e \<Longrightarrow> safe (sound d0) d0 (f (Inl e))"
    and "\<And>e. \<not> handled e \<Longrightarrow> f (Inl e) = throw e"
  shows "safe P d0 (attempt m f)"
  unfolding safe_def
proof (rule hoare_attempt [where R = "\<lambda>_. sound d0" and F = "\<lambda>e t. handled e \<longrightarrow> sound d0 t"])
  show "hoare P m (\<lambda>_. sound d0) (\<lambda>e t. handled e \<longrightarrow> sound d0 t)"
    using assms(1,2) unfolding safe_def hoare_def by (fastforce split: prod.splits sum.splits)
  show "hoare (sound d0) (f (Inr x)) (\<lambda>_. sound d0) (\<lambda>_ _. True)" for x using assms(3) by (simp add: safe_def)
  show "hoare (\<lambda>t. handled e \<longrightarrow> sound d0 t) (f (Inl e)) (\<lambda>_. sound d0) (\<lambda>_ _. True)" for e
    using assms(4) [of e] assms(5) [of e] by (cases "handled e") (simp_all add: safe_def hoare_throw_any)
qed

lemma safe_loop:
  assumes "\<And>x acc. x \<in> set xs \<Longrightarrow> safe (sound d0) d0 (f x acc)"
  shows "safe (sound d0) d0 (loopM f xs acc)"
  using assms
proof (induction xs arbitrary: acc)
  case Nil
  show ?case by (simp add: safe_ret)
next
  case (Cons x xs)
  show ?case by (simp, rule safe_bind) (simp_all add: Cons)
qed

lemma safe_look:
  "(\<And>x. safe (sound d0) d0 (f x)) \<Longrightarrow> safe (sound d0) d0 (attempt (rd q) f)"
  "(\<And>x. safe (sound d0) d0 (g x)) \<Longrightarrow> safe (sound d0) d0 (andThen (rd p) g)"
  by (rule safe_read, rule safe_pre, assumption, simp; fail) (rule safe_read_Inr, rule safe_pre, assumption, simp)

lemma safe_case_sum:
  "(\<And>e. x = Inl e \<Longrightarrow> safe P d0 (f e)) \<Longrightarrow> (\<And>y. x = Inr y \<Longrightarrow> safe P d0 (g y)) \<Longrightarrow>
   safe P d0 (case x of Inl e \<Rightarrow> f e | Inr y \<Rightarrow> g y)"
  by (cases x) auto

lemma safe_sound_ret: "safe (sound d0) d0 (ret x)"
  by (rule safe_ret)

lemmas safe_rules = safe_look safe_case_sum safe_if safe_throw safe_sound_ret

lemma safe_start_read:
  assumes "\<And>x. q d0 = Inr x \<Longrightarrow> J d0 \<Longrightarrow> safe (starts d0) d0 (f x)"
  shows "safe (starts d0) d0 (andThen (rd q) f)"
  using assms unfolding safe_def hoare_def
  by (auto simp: andThen_run rd_run starts_def split: sum.split)

text \<open>An append followed by the posting that covers it.\<close>

lemma safe_block:
  assumes "keeps (\<lambda>t. historyInv d0 (txD t)) m" "\<And>x. keeps (\<lambda>t. historyInv d0 (txD t)) (k x)"
    and "\<And>t x t1 y t2. J (txD t) \<Longrightarrow> m t = (Inr x, t1) \<Longrightarrow> k x t1 = (Inr y, t2) \<Longrightarrow> J (txD t2)"
    and "\<And>t e t'. m t = (Inl e, t') \<Longrightarrow> t' = t"
    and "\<And>e. safe (sound d0) d0 (h e)" "\<And>x y. safe (sound d0) d0 (g x y)"
  shows "safe (sound d0) d0 (attempt m (\<lambda>r. case r of Inl e \<Rightarrow> h e | Inr x \<Rightarrow> andThen (k x) (g x)))"
  unfolding safe_def
proof (rule hoare_attempt [where R = "\<lambda>x t1. historyInv d0 (txD t1) \<and> (\<exists>t. J (txD t) \<and> m t = (Inr x, t1))"
      and F = "\<lambda>e. sound d0"])
  show "hoare (sound d0) m (\<lambda>x t1. historyInv d0 (txD t1) \<and> (\<exists>t. J (txD t) \<and> m t = (Inr x, t1))) (\<lambda>e. sound d0)"
    using assms(4) keeps_resultD [OF assms(1)] by (intro hoareI) (auto simp: sound_def)
  show "hoare (sound d0) (case Inl e of Inl e \<Rightarrow> h e | Inr x \<Rightarrow> andThen (k x) (g x)) (\<lambda>_. sound d0) (\<lambda>_ _. True)" for e
    using assms(5) by (simp add: safe_def)
  fix x
  have "hoare (\<lambda>t1. historyInv d0 (txD t1) \<and> (\<exists>t. J (txD t) \<and> m t = (Inr x, t1))) (k x) (\<lambda>_. sound d0) (\<lambda>_ _. True)"
    using assms(3) keeps_resultD [OF assms(2)] by (intro hoareI) (auto simp: sound_def)
  then show "hoare (\<lambda>t1. historyInv d0 (txD t1) \<and> (\<exists>t. J (txD t) \<and> m t = (Inr x, t1)))
      (case Inr x of Inl e \<Rightarrow> h e | Inr x \<Rightarrow> andThen (k x) (g x)) (\<lambda>_. sound d0) (\<lambda>_ _. True)"
    using assms(6) by (auto simp: safe_def intro: hoare_andThen)
qed

lemma safe_rd: "safe (sound d0) d0 (rd q)"
  by (simp add: safe_def hoare_def rd_run split: sum.split)

end

end
