(* ===== verification/Balanced.thy ===== *)
theory Balanced
  imports Reservations Commit
begin

text \<open>
  Every transaction body keeps the books: run on balanced data, a body that succeeds leaves
  balanced data, and its history only grows. A failing body is rolled back, so nothing is said of
  the state it stops in.
\<close>

subsection \<open>The contract for the books\<close>

interpretation books: commit_contract moneyInv
  by unfold_locales (rule moneyInv_parts)

abbreviation sound :: "data \<Rightarrow> txn \<Rightarrow> bool" where
  "sound \<equiv> books.sound"

abbreviation starts :: "data \<Rightarrow> txn \<Rightarrow> bool" where
  "starts \<equiv> books.starts"

abbreviation safe :: "(txn \<Rightarrow> bool) \<Rightarrow> data \<Rightarrow> (txn, 'a) step \<Rightarrow> bool" where
  "safe \<equiv> books.safe"

text \<open>A row read at the start and found at the version it was read at is unchanged.\<close>

lemma row_unchanged:
  assumes "historyInv d0 d" "dCommissions d0 i = Some c" "dCommissions d i = Some c'" "cVersion c' = cVersion c"
  shows "c' = c"
  using assms by (fastforce simp: historyInv_def grewFrom_def rowsGrew_def commissionGrew_def)

subsection \<open>Operations that move no money\<close>

lemma moneyInv_same:
  assumes "moneyInv d" "storeWf d'" "dCommissions d' = dCommissions d" "dWithdrawals d' = dWithdrawals d"
    "dLedger d' = dLedger d" "dAccounts d' = dAccounts d"
  shows "moneyInv d'"
proof -
  have "accountOf d' k = accountOf d k" for k by (simp add: accountOf_def assms(6))
  note acc = this
  have "booksAt (accountOf d' k) k d' = booksAt (accountOf d k) k d" for k
    unfolding booksAt_def acc commSum_same [OF assms(3)] wdSum_same [OF assms(4)] ..
  then show ?thesis
    using moneyInv_parts(2-5) [OF assms(1)] assms(2) journalOk_same [OF _ assms(5) acc]
    by (simp add: moneyInv_def booksOk_def assms(3,4))
qed

lemma moneyInv_frame:
  assumes "moneyInv d"
  shows "moneyInv (d\<lparr>dAgents := x\<rparr>)" "moneyInv (d\<lparr>dBindings := y\<rparr>)"
  by (rule moneyInv_same [OF assms]; simp add: storeWf_frame moneyInv_parts(1) [OF assms])+

lemma safe_PutAgent: "safe (sound d0) d0 (PutAgent a)"
  using moneyInv_frame(1) PutAgent_Inr(1)
  by (intro books.safeI history_inv.keeps_PutAgent) (auto simp: books.sound_def)

lemma safe_PutBinding: "safe (sound d0) d0 (PutBinding b)"
  using moneyInv_frame(2) PutBinding_Inr(1)
  by (intro books.safeI history_inv.keeps_PutBinding) (auto simp: books.sound_def)

lemma book_AppendRefund:
  assumes inv: "moneyInv (txD t)" and run: "AppendRefund r0 t = (Inr r, t')"
  shows "moneyInv (txD t')"
proof -
  have wf: "storeWf (txD t')" by (rule storeWf_AppendRefund [OF moneyInv_parts(1) [OF inv] run])
  show ?thesis by (rule moneyInv_same [OF inv wf]; simp add: AppendRefund_Inr(1) [OF run] addRefund_def)
qed

lemma book_SetCommissionAvailableAt:
  assumes inv: "moneyInv (txD t)" and run: "SetCommissionAvailableAt i at v t = (Inr c', t')"
  shows "moneyInv (txD t')"
  using run
proof (cases rule: SetCommissionAvailableAt_Inr)
  case (set c)
  note parts = moneyInv_parts [OF inv]
  have rows: "dCommissions (txD t') = (dCommissions (txD t))(i \<mapsto> c')" by (simp add: set(5) setCommission_def)
  have same: "commSum f k (txD t') = commSum f k (txD t)" if "f c' = f c" for f k
    using commSum_set [OF parts(6) set(1) rows, of f k] that by (simp add: set(4) agentKeyOf_def onlyIf_def)
  have shares: "frozenShare c' = frozenShare c" "earnedShare c' = earnedShare c" "reversedShare c' = reversedShare c"
    by (simp_all add: set(4) frozenShare_def earnedShare_def reversedShare_def accrual_def)
  have other: "accountOf (txD t') k = accountOf (txD t) k" "dWithdrawals (txD t') = dWithdrawals (txD t)"
    "dLedger (txD t') = dLedger (txD t)" for k
    by (simp_all add: set(5) setCommission_def accountOf_def)
  have "booksAt (accountOf (txD t') k) k (txD t')" if "booksAt (accountOf (txD t) k) k (txD t)" for k
    using that by (simp add: booksAt_def other(1) wdSum_same [OF other(2)] same shares)
  then have books: "booksOk (txD t')" using parts(4) by (simp add: booksOk_def)
  have crow: "commissionRow c'" using commissionsInvD(1) [OF parts(2) set(1)] by (simp add: set(4) commissionRow_def accrual_def)
  have sc: "sameCommission c c'" by (simp add: set(4))
  have "commissionsInv (dCommissions (txD t'))"
    unfolding rows
    by (rule commissionsInv_set [OF parts(2,6) set(1) sc crow])
      (use commissionsInvD(2) [OF parts(2) set(1)] in \<open>simp add: set(4)\<close>)
  then show ?thesis
    using storeWf_SetCommissionAvailableAt [OF parts(1) run] books journalOk_same [OF parts(5) other(3,1)] parts(3) other(2)
    by (simp add: moneyInv_def)
qed (use inv in simp)

lemma safe_AppendRefund: "safe (sound d0) d0 (AppendRefund r)"
  by (intro books.safeI history_inv.keeps_AppendRefund) (auto simp: books.sound_def intro: book_AppendRefund)

lemma safe_SetCommissionAvailableAt: "safe (sound d0) d0 (SetCommissionAvailableAt i at v)"
  by (intro books.safeI history_inv.keeps_SetCommissionAvailableAt) (auto simp: books.sound_def intro: book_SetCommissionAvailableAt)

subsection \<open>Bodies that only bind or transition\<close>

lemma safe_bindAgent: "safe (sound d0) d0 (bindAgentBody l req)"
  unfolding bindAgentBody_def Let_def by (intro books.safe_rules safe_PutAgent)

lemma safe_bindBuyer: "safe (sound d0) d0 (bindBuyerBody l req boundAt)"
  unfolding bindBuyerBody_def Let_def by (intro books.safe_rules books.safe_bind safe_PutBinding)

lemma safe_refreeze:
  assumes "dueTracked from" "dueTracked to"
  shows "safe (sound d0) d0 (TransitionCommission i from to v)"
  by (intro books.safeI history_inv.keeps_TransitionCommission) (auto simp: books.sound_def intro: book_refreeze [OF _ _ assms])

lemma safe_freeze: "safe (sound d0) d0 (freezeBody tenantID commissionID)"
  unfolding freezeBody_def by (intro books.safe_rules safe_refreeze) (simp_all add: dueTracked_def)

lemma safe_unfreeze: "safe (sound d0) d0 (unfreezeBody tenantID commissionID)"
  unfolding unfreezeBody_def by (intro books.safe_rules safe_refreeze) (simp_all add: dueTracked_def)

lemma safe_rereserve:
  assumes "withdrawalReserved to" "wtPaidAt patch = 0"
  shows "safe (sound d0) d0 (TransitionWithdrawal i from to v patch)"
  by (intro books.safeI history_inv.keeps_TransitionWithdrawal) (auto simp: books.sound_def intro: book_rereserve [OF _ _ assms])

lemma safe_approve: "safe (sound d0) d0 (approveBody l req)"
  unfolding approveBody_def
  by (intro books.safe_rules safe_rereserve) (simp_all add: withdrawalReserved_def noTransition_def)

lemma safe_payoutFailure: "safe (sound d0) d0 (payoutFailureBody cur reason operator)"
  unfolding payoutFailureBody_def
  by (intro books.safe_rules safe_rereserve) (simp_all add: withdrawalReserved_def noTransition_def)

lemma safe_receiveOne: "safe (sound d0) d0 (receiveOne at c result)"
  unfolding receiveOne_def
  by (intro books.safe_if books.safe_sound_ret books.safe_attempt [where handled = isConflict, OF safe_SetCommissionAvailableAt])
    (auto simp: books.safe_sound_ret dest: writer_Inl(6))

lemma safe_orderReceived: "safe (sound d0) d0 (orderReceivedBody key at)"
  unfolding orderReceivedBody_def by (intro books.safe_look books.safe_loop safe_receiveOne)

subsection \<open>Errors\<close>

text \<open>Posting never reports a conflict or a duplicate, so those errors come from the call before it.\<close>

definition plain :: "gerror \<Rightarrow> bool" where
  "plain e \<longleftrightarrow> \<not> isConflict e \<and> e \<noteq> ErrDuplicate"

lemma userKeyValidate_plain: "userKeyValidate k = Some e \<Longrightarrow> plain e"
  by (auto simp: userKeyValidate_def plain_def isConflict_def split: if_splits)

lemma moneyAdd_Inl: "moneyAdd a b = Inl e \<Longrightarrow> e = ErrOverflow"
  by (auto simp: moneyAdd_def split: option.splits)

lemma deltaApply_plain: "deltaApply d a = Inl e \<Longrightarrow> plain e"
  by (auto simp: deltaApply_def plain_def isConflict_def dest!: moneyAdd_Inl split: sum.splits)

lemma IncrementAccount_plain: "IncrementAccount d t = (Inl e, t') \<Longrightarrow> plain e"
  using userKeyValidate_plain deltaApply_plain
  by (auto simp: IncrementAccount_def storeAccount_def Let_def plain_def isConflict_def split: option.splits sum.splits if_splits)

lemma AppendLedger_plain: "AppendLedger en t = (Inl e, t') \<Longrightarrow> plain e"
  using userKeyValidate_plain
  by (auto simp: AppendLedger_def Let_def plain_def isConflict_def split: option.splits if_splits)

lemma andThen_Inl:
  "andThen m f s = (Inl e, t) \<longleftrightarrow> m s = (Inl e, t) \<or> (\<exists>x u. m s = (Inr x, u) \<and> f x u = (Inl e, t))"
  by (cases "m s") (auto simp: step_simps split: sum.splits)

lemma postWith_plain: "postWith d f t = (Inl e, t') \<Longrightarrow> plain e"
  by (auto simp: postWith_def andThen_Inl ret_def dest: IncrementAccount_plain AppendLedger_plain)

subsection \<open>Bodies that move money\<close>

lemma keeps_postWith: "keeps (\<lambda>t. historyInv d0 (txD t)) (postWith d f)"
  unfolding postWith_def by (intro hoare_rules history_inv.keeps_ops)

lemma safe_accrueLayers: "safe (sound d0) d0 (accrueLayers l ev base capAmount layers agentUserID allocated result)"
proof (induction layers arbitrary: agentUserID allocated result)
  case Nil
  show ?case by (simp add: books.safe_ret)
next
  case (Cons layer layers)
  have accrual: "accrual (accrualRecord l ev base ag layer rate amount)" if "\<not> amount <=s 0" for ag rate amount
    using that by (simp add: accrual_def accrualRecord_def zeroCommission_def sle_sint)
  show ?case unfolding accrueLayers.simps(2) Let_def
    by (intro books.safe_rules Cons.IH books.safe_block history_inv.keeps_ops history_inv.keeps_creditAccrual)
      (auto dest: writer_Inl(5) intro: book_accrual [OF _ accrual] simp: accrualRecord_def zeroCommission_def)
qed

lemma safe_orderPaid: "safe (sound d0) d0 (orderPaidBody l ev)"
  unfolding orderPaidBody_def accrueBases_def accrueBase_def Let_def
  by (intro books.safe_rules books.safe_bind books.safe_loop safe_accrueLayers) (auto intro!: books.safe_rules books.safe_bind safe_accrueLayers split: prod.split)

text \<open>Rows of an index are rows of the table.\<close>

lemma commission_row:
  "moneyInv d \<Longrightarrow> dCommissions d i = Some c \<Longrightarrow> dCommissions d (cID c) = Some c"
  by (drule moneyInv_parts(1), drule (1) storeWf_row_positive) simp

lemma rowsAt_row: "c \<in> set (rowsAt m ids) \<Longrightarrow> \<exists>i. m i = Some c"
  by (auto simp: rowsAt_def)

lemma collectRows_in: "c \<in> set (collectRows pick n ids) \<Longrightarrow> \<exists>i. pick i = Some c"
  by (induction ids arbitrary: n) (auto split: option.splits if_splits)

lemma rdDueCommissions_row:
  assumes "moneyInv d" "rdDueCommissions tenantID dueAt limit d = Inr due" "c \<in> set due"
  shows "dCommissions d (cID c) = Some c" "cState c = CommissionPending"
proof -
  obtain r where "freshRow d r = Some c"
    using assms(2,3) collectRows_in [of c "freshRow d"] by (auto simp: rdDueCommissions_def Let_def)
  then have r: "dCommissions d (duID r) = Some c" "cState c = CommissionPending"
    by (auto simp: freshRow_def split: option.splits if_splits)
  show "dCommissions d (cID c) = Some c" by (rule commission_row [OF assms(1) r(1)])
  show "cState c = CommissionPending" by (rule r(2))
qed

lemma safe_settleOne:
  assumes "dCommissions d0 (cID c) = Some c"
  shows "safe (sound d0) d0 (settleOne c (OutstandingAmount c) now)"
proof (rule books.safeI [OF history_inv.keeps_settleOne])
  fix t x t'
  assume t: "sound d0 t" and run: "settleOne c (OutstandingAmount c) now t = (Inr x, t')"
  obtain c' t1 where "TransitionCommission (cID c) CommissionPending CommissionSettled (cVersion c) t = (Inr c', t1)"
    using run by (rule settleOne_Inr)
  then obtain cur where "dCommissions (txD t) (cID c) = Some cur" "cVersion cur = cVersion c"
    by (auto elim: TransitionCommission_Inr)
  moreover from this have "cur = c" using row_unchanged [OF books.sound_parts(2) [OF t] assms] by simp
  ultimately show "moneyInv (txD t')" using book_settle [OF books.sound_parts(1) [OF t] _ run] by simp
qed simp

lemma settleOne_post:
  "settleOne c m now = andThen (TransitionCommission (cID c) CommissionPending CommissionSettled (cVersion c)) (\<lambda>_.
     andThen (postWith (settleDelta c m now) (settleEntry c m now)) (\<lambda>_. ret True))"
  unfolding settleOne_def Let_def postWith_then [symmetric] settleDelta_def settleEntry_def agentKeyOf_def ..

lemma settleOne_conflict:
  assumes "settleOne c m now t = (Inl e, t')" "isConflict e"
  shows "t' = t"
  using assms by (auto simp: settleOne_post andThen_Inl plain_def ret_def dest: writer_Inl(8) postWith_plain)

lemma safe_settleRound: "safe (starts d0) d0 (settleRound tenantID now limit)"
  unfolding settleRound_def
proof (rule books.safe_start_read, rule books.safe_start, rule books.safe_loop)
  fix due c and acc :: "nat \<times> money \<times> int list"
  assume due: "rdDueCommissions tenantID now limit d0 = Inr due" "moneyInv d0" "c \<in> set due"
  show "safe (sound d0) d0 (settleStep now c acc)"
    unfolding settleStep_def Let_def
    by (cases acc, simp only: prod.case,
        intro books.safe_if books.safe_sound_ret books.safe_attempt [where handled = isConflict, OF safe_settleOne [OF rdDueCommissions_row(1) [OF due(2,1,3)]]])
      (auto simp: books.safe_throw books.safe_sound_ret dest: settleOne_conflict split: sum.split)
qed

subsection \<open>Clawing back\<close>

lemma storeWf_row_le: "storeWf d \<Longrightarrow> dCommissions d i = Some c \<Longrightarrow> i \<le> dNextID d"
  by (fastforce dest!: storeWf_parts(7) simp: idsUpTo_def)

lemma IncrementAccount_fst_plain: "fst (IncrementAccount d t) = Inl e \<Longrightarrow> plain e"
  by (rule IncrementAccount_plain [of d t e "snd (IncrementAccount d t)"]) (simp add: prod_eq_iff)

lemma debitBucket_plain: "debitBucket l p bkt delta reason n tg am at t = (Inl e, t') \<Longrightarrow> plain e"
  by (auto simp: debitBucket_def Let_def attempt_run andThen_Inl throw_def ret_def plain_def isConflict_def
      dest: IncrementAccount_plain AppendLedger_plain IncrementAccount_fst_plain [unfolded plain_def isConflict_def]
      split: sum.splits if_splits)

lemma clawBack_duplicate:
  assumes "clawBack l p delta target terminal reason at t = (Inl ErrDuplicate, t')"
  shows "t' = t"
proof -
  have set_dup: "SetCommissionReversedAmount i m v s \<noteq> (Inl ErrDuplicate, s')" for i m v s s'
    by (auto simp: SetCommissionReversedAmount_def Let_def storeCommission_def split: option.splits if_splits)
  have tr_dup: "TransitionCommission i f g v s \<noteq> (Inl ErrDuplicate, s')" for i f g v s s'
    by (auto simp: TransitionCommission_def ValidateCommissionTransition_def Let_def storeCommission_def split: option.splits if_splits)
  have deb_dup: "debitBucket l p bkt delta reason n tg am at s \<noteq> (Inl ErrDuplicate, s')" for bkt n tg am s s'
    using debitBucket_plain [of l p bkt delta reason n tg am at s ErrDuplicate s'] by (auto simp: plain_def)
  have buc_dup: "reversalBucket st \<noteq> Inl ErrDuplicate" for st by (cases st) (auto simp: reversalBucket_def)
  show ?thesis
    using assms writer_Inl(5)
    by (auto simp: clawBack_def andThen_Inl set_dup tr_dup deb_dup buc_dup throw_def ret_def split: if_splits sum.splits)
qed

lemma safe_clawBack:
  assumes "moneyInv d0" "dCommissions d0 (cID p) = Some p" "accrual p"
    "reversalDelta p cumulative base terminal = (delta, target, None)" "\<not> delta <=s 0" "commissionTerminal terminal"
  shows "safe (sound d0) d0 (clawBack l p delta target terminal reason at)"
proof (rule books.safeI [OF history_inv.keeps_clawBack])
  fix t x t'
  assume t: "sound d0 t" and run: "clawBack l p delta target terminal reason at t = (Inr x, t')"
  show "moneyInv (txD t')" using run
  proof (rule clawBack_Inr)
    fix t1 t2 p1
    assume app: "AppendCommission (reversalRecord l p delta target at) t = (Inr x, t1)"
      and "SetCommissionReversedAmount (cID p) target (cVersion p) t1 = (Inr p1, t2)"
    then obtain cur where cur: "dCommissions (txD t1) (cID p) = Some cur" "cVersion cur = cVersion p"
      by (auto elim: SetCommissionReversedAmount_Inr)
    have "historyInv d0 (txD t1)" using rowsGrew_AppendCommission [OF books.sound_parts(2) [OF t] app] .
    then have "cur = p" using row_unchanged assms(2) cur by blast
    moreover have "dCommissions (txD t1) = (dCommissions (txD t))(dNextID (txD t) + 1 \<mapsto> x)"
      using AppendCommission_Inr(1,2) [OF app] by (simp add: addCommission_def)
    moreover have "cID p \<noteq> dNextID (txD t) + 1"
      using books.sound_parts(2) [OF t] storeWf_row_le [OF moneyInv_parts(1) [OF assms(1)] assms(2)]
      by (auto simp: historyInv_def grewFrom_def)
    ultimately have "dCommissions (txD t) (cID p) = Some p" using cur(1) by simp
    from book_clawBack [OF books.sound_parts(1) [OF t] this assms(3-6) run] show "moneyInv (txD t')" .
  qed
qed simp

lemma safe_reverseStep:
  assumes "moneyInv d0" "dCommissions d0 (cID c) = Some c" "accrual c"
  shows "safe (sound d0) d0 (reverseStep l base cumulative at c result)"
proof -
  obtain delta target skip where rd: "reversalDelta c cumulative base CommissionReversed = (delta, target, skip)"
    by (cases "reversalDelta c cumulative base CommissionReversed")
  have final: "commissionTerminal CommissionReversed" by (simp add: commissionTerminal_def)
  show ?thesis
  proof (cases skip)
    case None
    show ?thesis
      unfolding reverseStep_def rd None prod.case option.case
      by (intro books.safe_if books.safe_sound_ret
          books.safe_attempt [where handled = "\<lambda>e. e = ErrDuplicate", OF safe_clawBack [OF assms rd [unfolded None] _ final]])
        (auto simp: books.safe_throw books.safe_sound_ret dest: clawBack_duplicate split: sum.split)
  next
    case (Some sk)
    show ?thesis unfolding reverseStep_def rd Some prod.case option.case by (rule books.safe_sound_ret)
  qed
qed

lemma groupAppend_rows: "(\<Union>p\<in>set (groupAppend k c g). set (snd p)) = insert c (\<Union>p\<in>set g. set (snd p))"
  by (induction k c g rule: groupAppend.induct) auto

lemma groups_rows: "(\<Union>p\<in>set (groupAccrualsByItem all). set (snd p)) = {c \<in> set all. accrual c}"
proof (induction all rule: rev_induct)
  case Nil
  show ?case by (simp add: groupAccrualsByItem_def)
next
  case (snoc y ys)
  let ?g = "groupAccrualsByItem ys"
  have step: "groupAccrualsByItem (ys @ [y]) = (if cAmount y <=s 0 then ?g else groupAppend (cOrderItemID y) y ?g)"
    by (simp add: groupAccrualsByItem_def)
  have "accrual y \<longleftrightarrow> \<not> cAmount y <=s 0" by (simp add: accrual_def sle_sint not_le)
  then show ?case using snoc by (auto simp: step groupAppend_rows)
qed

lemma safe_refundItem:
  assumes "moneyInv d0" "\<And>c. c \<in> set (groupOf groups itemID) \<Longrightarrow> dCommissions d0 (cID c) = Some c \<and> accrual c"
  shows "safe (sound d0) d0 (refundItem l ev groups cumulative shares itemID result)"
proof -
  have items: "safe (sound d0) d0 (reverseItem l (groupOf groups itemID) base cum at result)" for base cum at
    unfolding reverseItem_def by (intro books.safe_if books.safe_sound_ret books.safe_loop safe_reverseStep) (use assms in auto)
  show ?thesis
    unfolding refundItem_def Let_def
    by (intro books.safe_if books.safe_sound_ret books.safe_attempt [where handled = "\<lambda>e. e = ErrDuplicate", OF safe_AppendRefund])
      (auto simp: books.safe_throw books.safe_sound_ret items dest: writer_Inl(9))
qed

lemma safe_orderRefunded: "safe (starts d0) d0 (orderRefundedBody l ev)"
  unfolding orderRefundedBody_def Let_def
proof (rule books.safe_start_read)
  fix all
  assume all: "rdCommissionsByOrder (efOrderKey ev) d0 = Inr all" and inv: "moneyInv d0"
  have rows: "dCommissions d0 (cID c) = Some c \<and> accrual c" if mem: "c \<in> set (groupOf (groupAccrualsByItem all) k)" for c k
  proof -
    obtain cs where "map_of (groupAccrualsByItem all) k = Some cs" "c \<in> set cs"
      using mem by (cases "map_of (groupAccrualsByItem all) k") (auto simp: groupOf_def)
    then have "c \<in> (\<Union>p\<in>set (groupAccrualsByItem all). set (snd p))"
      by (intro UN_I [of "(k, cs)"]) (auto dest: map_of_SomeD)
    then have c: "c \<in> set all" "accrual c" by (simp_all add: groups_rows)
    obtain i where "dCommissions d0 i = Some c"
      using rowsAt_row [of c "dCommissions d0" "slot (dByOrder d0) (efOrderKey ev)"] all c(1)
      by (auto simp: rdCommissionsByOrder_def)
    then show ?thesis using commission_row [OF inv] c(2) by simp
  qed
  show "safe (starts d0) d0
     (if all = [] then ret ((newRefundResult (efOrderKey ev))\<lparr>frSkipped := [\<lparr>skLayer = 0, skAgentUserID = 0,
          skCode = SkipNoParent, skDetail = ''order has no commissions yet''\<rparr>], frAlreadyReversed := True\<rparr>)
      else if groupAccrualsByItem all = []
        then ret ((newRefundResult (efOrderKey ev))\<lparr>frSkipped := [\<lparr>skLayer = 0, skAgentUserID = 0,
          skCode = SkipFullyReversed, skDetail = ''order has no accrual records''\<rparr>], frAlreadyReversed := True\<rparr>)
      else andThen (cumulativeRefunds (efOrderKey ev)) (\<lambda>cumulative.
             case refundShares ev (groupAccrualsByItem all) of Inl x \<Rightarrow> throw x
             | Inr shares \<Rightarrow>
                 andThen (loopM (refundItem l ev (groupAccrualsByItem all) cumulative shares)
                   (sortedItemIDs (groupAccrualsByItem all)) (newRefundResult (efOrderKey ev)))
                  (\<lambda>result. ret (result\<lparr>frAlreadyReversed := frReversed result = []\<rparr>))))"
    unfolding cumulativeRefunds_def
    by (rule books.safe_start)
      (intro books.safe_rules books.safe_bind books.safe_loop safe_refundItem inv rows; assumption)
qed

lemma void_delta:
  assumes "commissionRow c" "accrual c" "reversalDelta c 0 1 CommissionVoid = (delta, target, skip)"
    "\<not> OutstandingAmount c <=s 0" "skip = None"
  shows "\<not> delta <=s 0"
proof -
  have out: "0 < sint (cAmount c) - sint (cReversedAmount c)"
    using assms(4) outstanding_exact(1) [OF assms(1,2)] by (simp add: sle_sint)
  then have "delta = OutstandingAmount c"
    using assms(2,3,5) by (auto simp: reversalDelta_def OutstandingAmount_def sle_sint accrual_def split: if_splits)
  then show ?thesis using assms(4) by simp
qed

lemma safe_void: "safe (starts d0) d0 (voidBody l tenantID commissionID)"
  unfolding voidBody_def
proof (rule books.safe_start_read)
  fix cur
  assume cur: "loadScopedCommission tenantID commissionID d0 = Inr cur" and inv: "moneyInv d0"
  have row: "dCommissions d0 (cID cur) = Some cur"
    using cur commission_row [OF inv] by (auto simp: loadScopedCommission_def split: if_splits sum.splits)
  obtain delta target skip where rd: "reversalDelta cur 0 1 CommissionVoid = (delta, target, skip)"
    by (cases "reversalDelta cur 0 1 CommissionVoid")
  have final: "commissionTerminal CommissionVoid" by (simp add: commissionTerminal_def)
  have acc: "accrual cur" if "cState cur = CommissionPending \<or> cState cur = CommissionFrozen"
    using commissionsInvD(1) [OF moneyInv_parts(2) [OF inv] row] open_accrual [of cur] that
    by (auto simp: commissionTerminal_def)
  have claw: "safe (sound d0) d0 (clawBack l cur delta target CommissionVoid reasonVoid (lNow l))"
    if "skip = None" "cState cur = CommissionPending \<or> cState cur = CommissionFrozen" "\<not> delta <=s 0"
    using safe_clawBack [OF inv row acc [OF that(2)] rd [unfolded that(1)] that(3) final] .
  show "safe (starts d0) d0
     (if cState cur \<noteq> CommissionPending \<and> cState cur \<noteq> CommissionFrozen
      then throw (TransitionError ''commission void'' (commissionStateString (cState cur)) (commissionStateString CommissionVoid))
      else if OutstandingAmount cur <=s 0 then ret cur
      else case reversalDelta cur 0 1 CommissionVoid of (delta, target, skip) \<Rightarrow>
        if skip \<noteq> None then ret cur
        else attempt (clawBack l cur delta target CommissionVoid reasonVoid (lNow l)) (\<lambda>r. case r of
             Inl e \<Rightarrow> if e = ErrDuplicate then ret cur else throw e
           | Inr _ \<Rightarrow> rd (rdCommission (cID cur))))"
    unfolding rd prod.case
  proof (intro books.safe_if)
    assume live: "\<not> (cState cur \<noteq> CommissionPending \<and> cState cur \<noteq> CommissionFrozen)"
      and out: "\<not> OutstandingAmount cur <=s 0" and skip: "\<not> skip \<noteq> None"
    have row': "commissionRow cur" using commissionsInvD(1) [OF moneyInv_parts(2) [OF inv] row] .
    have "\<not> delta <=s 0"
      using rd live skip out acc void_delta [OF row' _ rd out] by blast
    then have "safe (starts d0) d0 (clawBack l cur delta target CommissionVoid reasonVoid (lNow l))"
      using claw skip live by (intro books.safe_start) auto
    then show "safe (starts d0) d0 (attempt (clawBack l cur delta target CommissionVoid reasonVoid (lNow l)) (\<lambda>r. case r of
             Inl e \<Rightarrow> if e = ErrDuplicate then ret cur else throw e
           | Inr _ \<Rightarrow> rd (rdCommission (cID cur))))"
      by (rule books.safe_attempt [where handled = "\<lambda>e. e = ErrDuplicate"])
        (auto simp: books.safe_sound_ret books.safe_rd books.starts_sound dest: clawBack_duplicate)
  qed (simp_all add: books.safe_throw books.safe_ret books.starts_sound)
qed

subsection \<open>Withdrawals\<close>

lemma safe_requestWithdraw: "safe (sound d0) d0 (requestWithdrawBody l req channel fee)"
proof -
  let ?k = "UserKey (wrTenantID req) (wrUserID req)" and ?m = "wrAmount req"
  let ?entry = "\<lambda>saved acct. bucketAddDelta BucketWithdrawing ?m
     (newLedgerEntry ?k LedgerWithdrawHold (formatInt (wID saved))
       (''withdraw request '' @ formatInt (wID saved) @ '' hold '' @ moneyString ?m @ '' fee '' @ moneyString fee)
       (lNow l) acct BucketAvailable (- ?m))"
  have match: "matching (holdDelta ?k ?m (lNow l)) (?entry saved)" for saved
    by (rule matchingI) (simp_all add: holdDelta_def deltaOf_bucket split: bucket.split)
  show ?thesis
    unfolding requestWithdrawBody_def Let_def holdDelta_def [symmetric] postWith_then
    by (intro books.safe_rules books.safe_block history_inv.keeps_ops keeps_postWith)
      (auto dest: writer_Inl(11) intro: book_hold [OF _ _ _ _ _ match])
qed

lemma safe_reject: "safe (starts d0) d0 (rejectBody l req)"
proof (rule books.safeI [OF history_inv.keeps_reject])
  fix t x t'
  assume "starts d0 t" and run: "rejectBody l req t = (Inr x, t')"
  then have inv: "moneyInv (txD t)" by (simp add: books.starts_def)
  from inv run show "moneyInv (txD t')"
    by (rule rejectBody_runs) (rule book_release [OF inv _ _ release_matching], assumption+, simp_all add: noTransition_def)
qed (rule books.starts_sound)

lemma safe_settlePayout: "safe (starts d0) d0 (settlePayoutBody l cur invoice operator)"
proof (rule books.safeI [OF history_inv.keeps_settlePayout])
  fix t x t'
  assume "starts d0 t" and run: "settlePayoutBody l cur invoice operator t = (Inr x, t')"
  then have inv: "moneyInv (txD t)" by (simp add: books.starts_def)
  from inv run show "moneyInv (txD t')"
  proof (cases rule: settlePayoutBody_runs)
    case (paid live t1)
    then show ?thesis by (intro book_release [OF inv _ _ paid_matching]) simp_all
  qed (use inv in simp)
qed (rule books.starts_sound)

end
