(* ===== verification/Service.thy ===== *)
theory Service
  imports Balanced
begin

text \<open>
  The ledger as a transition system. A step is one call of the public API on the store, or one of
  the transactions a longer call is made of: a round of the maintenance loop, and the part of a
  payment that follows the answer of the channel. The rules, the clock, the resolvers and the
  arguments are free in every step, so calls of different processes interleave freely.
\<close>

subsection \<open>One transaction\<close>

definition fresh :: "data \<Rightarrow> txn" where
  "fresh d = \<lparr>txD = d, txU = newUndo d\<rparr>"

definition transacts :: "(txn, 'a) step \<Rightarrow> mem_store \<Rightarrow> mem_store \<Rightarrow> bool" where
  "transacts fn s s' \<longleftrightarrow> s' = s \<or>
     (\<exists>x t. \<not> stClosed s \<and> fn (fresh (stData s)) = (Inr x, t) \<and> s' = s\<lparr>stData := txD t\<rparr>)"

lemma Update_transacts:
  assumes "\<And>d0. keeps (undoOk d0) fn" "Update fn s = (r, s')"
  shows "transacts fn s s'"
proof (cases r)
  case (Inl e)
  then show ?thesis using Update_Inl [OF assms(1)] assms(2) by (simp add: transacts_def)
next
  case (Inr x)
  with assms(2) show ?thesis by (auto elim!: Update_Inr simp: transacts_def fresh_def)
qed

lemma throw_transacts: "throw e s = (r, s') \<Longrightarrow> transacts fn s s'"
  by (simp add: throw_def transacts_def)

lemma BindAgent_transacts: "BindAgent l req s = (r, s') \<Longrightarrow> transacts (bindAgentBody l req) s s'"
  unfolding BindAgent_def
  by (auto intro: throw_transacts Update_transacts [OF undo_inv.keeps_bindAgent] split: if_splits)

lemma BindBuyer_transacts: 
  "BindBuyer l req s = (r, s') \<Longrightarrow>
   transacts (bindBuyerBody l req (if bbBoundAt req = 0 then lNow l else bbBoundAt req)) s s'"
  unfolding BindBuyer_def Let_def
  by (auto intro: throw_transacts Update_transacts [OF undo_inv.keeps_bindBuyer] split: if_splits option.splits)

lemma OnOrderPaid_transacts:
  "OnOrderPaid l ev s = (r, s') \<Longrightarrow> s' = s \<or> paidValidate ev = None \<and> transacts (orderPaidBody l ev) s s'"
  unfolding OnOrderPaid_def
  by (auto simp: throw_def intro: Update_transacts [OF undo_inv.keeps_orderPaid] split: option.splits)

lemma OnOrderReceived_transacts:
  "OnOrderReceived l ev s = (r, s') \<Longrightarrow> 
   transacts (orderReceivedBody (erOrderKey ev) (if erReceivedAt ev = 0 then lNow l else erReceivedAt ev)) s s'"
  unfolding OnOrderReceived_def
  by (auto intro: throw_transacts Update_transacts [OF undo_inv.keeps_orderReceived] split: option.splits)

lemma OnOrderRefunded_transacts: "OnOrderRefunded l ev s = (r, s') \<Longrightarrow> transacts (orderRefundedBody l ev) s s'"
  unfolding OnOrderRefunded_def
  by (auto intro: throw_transacts Update_transacts [OF undo_inv.keeps_orderRefunded] split: option.splits)

lemma FreezeCommission_transacts: "FreezeCommission n i why s = (r, s') \<Longrightarrow> transacts (freezeBody n i) s s'"
  unfolding FreezeCommission_def
  by (auto intro: throw_transacts Update_transacts [OF undo_inv.keeps_freeze] split: option.splits)

lemma UnfreezeCommission_transacts: "UnfreezeCommission n i why s = (r, s') \<Longrightarrow> transacts (unfreezeBody n i) s s'"
  unfolding UnfreezeCommission_def
  by (auto intro: throw_transacts Update_transacts [OF undo_inv.keeps_unfreeze] split: option.splits)

lemma VoidCommission_transacts: "VoidCommission l n i why s = (r, s') \<Longrightarrow> transacts (voidBody l n i) s s'"
  unfolding VoidCommission_def
  by (auto intro: throw_transacts Update_transacts [OF undo_inv.keeps_void] split: option.splits)

lemma RequestWithdraw_transacts:
  "RequestWithdraw l req s = (r, s') \<Longrightarrow> \<exists>channel fee. transacts (requestWithdrawBody l req channel fee) s s'"
  unfolding RequestWithdraw_def Let_def
  by (auto intro: throw_transacts Update_transacts [OF undo_inv.keeps_requestWithdraw] split: if_splits option.splits sum.splits)

lemma ApproveWithdraw_transacts: "ApproveWithdraw l req s = (r, s') \<Longrightarrow> transacts (approveBody l req) s s'"
  unfolding ApproveWithdraw_def by (rule Update_transacts [OF undo_inv.keeps_approve])

lemma RejectWithdraw_transacts: "RejectWithdraw l req s = (r, s') \<Longrightarrow> transacts (rejectBody l req) s s'"
  unfolding RejectWithdraw_def
  by (auto intro: throw_transacts Update_transacts [OF undo_inv.keeps_reject] split: option.splits if_splits)

lemma recordPayoutFailure_transacts:
  "recordPayoutFailure cur why who s = (r, s') \<Longrightarrow> \<exists>why'. transacts (payoutFailureBody cur why' who) s s'"
  unfolding recordPayoutFailure_def by (rule exI, rule Update_transacts [OF undo_inv.keeps_payoutFailure])

lemma settlePayout_transacts:
  "settlePayout l cur invoice who s = (r, s') \<Longrightarrow> transacts (settlePayoutBody l cur invoice who) s s'"
  unfolding settlePayout_def
  by (auto intro: throw_transacts Update_transacts [OF undo_inv.keeps_settlePayout] split: if_splits)

lemma settleRound_transacts: "Update (settleRound n now limit) s = (r, s') \<Longrightarrow> transacts (settleRound n now limit) s s'"
  by (rule Update_transacts [OF undo_inv.keeps_settleRound])

subsection \<open>Steps\<close>

inductive ledger_step :: "mem_store \<Rightarrow> mem_store \<Rightarrow> bool" where
  bind_agent: "BindAgent l req s = (r, s') \<Longrightarrow> ledger_step s s'"
| bind_buyer: "BindBuyer l breq s = (r, s') \<Longrightarrow> ledger_step s s'"
| order_paid: "OnOrderPaid l paid s = (r, s') \<Longrightarrow> ledger_step s s'"
| order_received: "OnOrderReceived l received s = (r, s') \<Longrightarrow> ledger_step s s'"
| order_refunded: "OnOrderRefunded l refunded s = (r, s') \<Longrightarrow> ledger_step s s'"
| freeze: "FreezeCommission n i why s = (r, s') \<Longrightarrow> ledger_step s s'"
| unfreeze: "UnfreezeCommission n i why s = (r, s') \<Longrightarrow> ledger_step s s'"
| void: "VoidCommission l n i why s = (r, s') \<Longrightarrow> ledger_step s s'"
| request_withdraw: "RequestWithdraw l wreq s = (r, s') \<Longrightarrow> ledger_step s s'"
| approve: "ApproveWithdraw l dec s = (r, s') \<Longrightarrow> ledger_step s s'"
| reject: "RejectWithdraw l dec s = (r, s') \<Longrightarrow> ledger_step s s'"
| payout_answered: "payAnswered l pay cur answer s = (r, s') \<Longrightarrow> ledger_step s s'"
| payout_settled: "settlePayout l cur invoice who s = (r, s') \<Longrightarrow> ledger_step s s'"
| settle_round: "Update (settleRound n now limit) s = (r, s') \<Longrightarrow> ledger_step s s'"
| close: "ledger_step s (storeClose s)"

inductive_cases ledger_stepE: "ledger_step s s'"

text \<open>The states the store can be in.\<close>

definition reachable :: "mem_store \<Rightarrow> bool" where
  "reachable s \<longleftrightarrow> ledger_step\<^sup>*\<^sup>* newStore s"

subsection \<open>Invariants of the data\<close>

text \<open>
  A property of the data that every transaction body preserves holds after every step. The
  second locale adds that it holds of the empty store, so that it holds in all reachable states.
\<close>

locale step_invariant =
  fixes P :: "data \<Rightarrow> bool"
  assumes P_bindAgent: "P d \<Longrightarrow> bindAgentBody l areq (fresh d) = (Inr a, t) \<Longrightarrow> P (txD t)"
    and P_bindBuyer: "P d \<Longrightarrow> bindBuyerBody l breq at (fresh d) = (Inr bb, t) \<Longrightarrow> P (txD t)"
    and P_orderPaid: "P d \<Longrightarrow> paidValidate paid = None \<Longrightarrow> orderPaidBody l paid (fresh d) = (Inr ac, t) \<Longrightarrow> P (txD t)"
    and P_orderReceived: "P d \<Longrightarrow> orderReceivedBody key at (fresh d) = (Inr rc, t) \<Longrightarrow> P (txD t)"
    and P_orderRefunded: "P d \<Longrightarrow> orderRefundedBody l refunded (fresh d) = (Inr rf, t) \<Longrightarrow> P (txD t)"
    and P_freeze: "P d \<Longrightarrow> freezeBody n i (fresh d) = (Inr c, t) \<Longrightarrow> P (txD t)"
    and P_unfreeze: "P d \<Longrightarrow> unfreezeBody n i (fresh d) = (Inr c, t) \<Longrightarrow> P (txD t)"
    and P_void: "P d \<Longrightarrow> voidBody l n i (fresh d) = (Inr c, t) \<Longrightarrow> P (txD t)"
    and P_requestWithdraw: "P d \<Longrightarrow> requestWithdrawBody l wreq channel fee (fresh d) = (Inr wb, t) \<Longrightarrow> P (txD t)"
    and P_approve: "P d \<Longrightarrow> approveBody l dec (fresh d) = (Inr w, t) \<Longrightarrow> P (txD t)"
    and P_reject: "P d \<Longrightarrow> rejectBody l dec (fresh d) = (Inr w, t) \<Longrightarrow> P (txD t)"
    and P_payoutFailure: "P d \<Longrightarrow> payoutFailureBody cur why who (fresh d) = (Inr w, t) \<Longrightarrow> P (txD t)"
    and P_settlePayout: "P d \<Longrightarrow> settlePayoutBody l cur invoice who (fresh d) = (Inr w, t) \<Longrightarrow> P (txD t)"
    and P_settleRound: "P d \<Longrightarrow> settleRound n now limit (fresh d) = (Inr q, t) \<Longrightarrow> P (txD t)"
begin

lemma transacts_keeps:
  "transacts fn s s' \<Longrightarrow> (\<And>d x t. P d \<Longrightarrow> fn (fresh d) = (Inr x, t) \<Longrightarrow> P (txD t)) \<Longrightarrow> P (stData s) \<Longrightarrow> P (stData s')"
  by (auto simp: transacts_def)

lemma paid_keeps: "OnOrderPaid l ev s = (r, s') \<Longrightarrow> P (stData s) \<Longrightarrow> P (stData s')"
  by (drule OnOrderPaid_transacts) (auto intro: transacts_keeps P_orderPaid)

lemmas single_call = transacts_keeps [OF BindAgent_transacts P_bindAgent] paid_keeps
  transacts_keeps [OF OnOrderRefunded_transacts P_orderRefunded] transacts_keeps [OF FreezeCommission_transacts P_freeze]
  transacts_keeps [OF UnfreezeCommission_transacts P_unfreeze] transacts_keeps [OF VoidCommission_transacts P_void]
  transacts_keeps [OF ApproveWithdraw_transacts P_approve] transacts_keeps [OF RejectWithdraw_transacts P_reject]
  transacts_keeps [OF settlePayout_transacts P_settlePayout] transacts_keeps [OF settleRound_transacts P_settleRound]
  transacts_keeps [OF BindBuyer_transacts P_bindBuyer] transacts_keeps [OF OnOrderReceived_transacts P_orderReceived]

lemma request_keeps: "RequestWithdraw l req s = (r, s') \<Longrightarrow> P (stData s) \<Longrightarrow> P (stData s')"
  by (drule RequestWithdraw_transacts, elim exE, rule transacts_keeps [OF _ P_requestWithdraw])

lemma failure_keeps: "recordPayoutFailure cur why who s = (r, s') \<Longrightarrow> P (stData s) \<Longrightarrow> P (stData s')"
  by (drule recordPayoutFailure_transacts, elim exE, rule transacts_keeps [OF _ P_payoutFailure])

lemma answered_keeps: "payAnswered l pay cur answer s = (r, s') \<Longrightarrow> P (stData s) \<Longrightarrow> P (stData s')"
  unfolding payAnswered_def by (auto dest: failure_keeps single_call(9) split: sum.splits if_splits)

lemma step_keeps: "ledger_step s s' \<Longrightarrow> P (stData s) \<Longrightarrow> P (stData s')"
  by (erule ledger_stepE) (erule (1) single_call request_keeps answered_keeps | simp add: storeClose_def)+

lemma steps_keep: "ledger_step\<^sup>*\<^sup>* s s' \<Longrightarrow> P (stData s) \<Longrightarrow> P (stData s')"
  by (induction rule: rtranclp_induct) (auto intro: step_keeps)

end

locale ledger_invariant = step_invariant +
  assumes P_new: "P newData"
begin

lemma reachable_holds: "reachable s \<Longrightarrow> P (stData s)"
  using steps_keep [of newStore s] P_new by (simp add: reachable_def newStore_def)

end

text \<open>An invariant that single operations keep is one that the transactions keep.\<close>

lemma keeps_run: "keeps (\<lambda>t. P (txD t)) fn \<Longrightarrow> P d \<Longrightarrow> fn (fresh d) = (Inr x, t) \<Longrightarrow> P (txD t)"
  using keeps_resultD [of "\<lambda>t. P (txD t)" fn "fresh d"] by (simp add: fresh_def)

locale data_invariant = tx_invariant "\<lambda>t. P (txD t)" for P :: "data \<Rightarrow> bool"

sublocale data_invariant < step_invariant P
  by unfold_locales
    (erule (1) keeps_run [OF keeps_bindAgent] keeps_run [OF keeps_bindBuyer] keeps_run [OF keeps_orderPaid]
      keeps_run [OF keeps_orderReceived] keeps_run [OF keeps_orderRefunded] keeps_run [OF keeps_freeze]
      keeps_run [OF keeps_unfreeze] keeps_run [OF keeps_void] keeps_run [OF keeps_requestWithdraw]
      keeps_run [OF keeps_approve] keeps_run [OF keeps_reject] keeps_run [OF keeps_payoutFailure]
      keeps_run [OF keeps_settlePayout] keeps_run [OF keeps_settleRound])+

interpretation history_steps: data_invariant "historyInv d0" for d0
  by unfold_locales

interpretation wf_data: data_invariant storeWf
  by unfold_locales

interpretation wf_steps: ledger_invariant storeWf
  by unfold_locales (rule storeWf_newData)

text \<open>The books balance after every step, although not after every operation.\<close>

context commit_contract
begin

lemma safe_run: "safe (starts d) d fn \<Longrightarrow> J d \<Longrightarrow> fn (fresh d) = (Inr x, t) \<Longrightarrow> J (txD t)"
  unfolding safe_def by (drule hoare_InrD [of _ _ _ _ "fresh d"]) (auto simp: starts_def fresh_def sound_def)

end

interpretation money_steps: ledger_invariant moneyInv
  by unfold_locales
    (erule (1) books.safe_run [OF books.safe_start [OF safe_bindAgent]] books.safe_run [OF books.safe_start [OF safe_bindBuyer]]
      books.safe_run [OF books.safe_start [OF safe_orderPaid]] books.safe_run [OF books.safe_start [OF safe_orderReceived]]
      books.safe_run [OF safe_orderRefunded] books.safe_run [OF books.safe_start [OF safe_freeze]] books.safe_run [OF books.safe_start [OF safe_unfreeze]]
      books.safe_run [OF safe_void] books.safe_run [OF books.safe_start [OF safe_requestWithdraw]] books.safe_run [OF books.safe_start [OF safe_approve]]
      books.safe_run [OF safe_reject] books.safe_run [OF books.safe_start [OF safe_payoutFailure]] books.safe_run [OF safe_settlePayout]
      books.safe_run [OF safe_settleRound] | rule moneyInv_newData)+

end
