(* ===== verification/Chains.thy ===== *)
theory Chains
  imports Service
begin

text \<open>
  The relation chains of agents: every agent knows its depth, its parent is one level above it,
  and nothing but \<open>BindAgent\<close> touches agents, so that the chains are finite, free of cycles and
  no deeper than \<open>MaxLevels\<close>.
\<close>

definition parentOk :: "data \<Rightarrow> user_key \<Rightarrow> agent \<Rightarrow> bool" where
  "parentOk d k a \<longleftrightarrow> agKey a = k \<and> 1 \<le> agDepth a \<and> agDepth a \<le> MaxLevels \<and>
     (if agParentID a = 0 then agDepth a = 1
      else \<exists>p. dAgents d (UserKey (ukTenantID k) (agParentID a)) = Some p \<and> agDepth a = agDepth p + 1)"

definition chainOk :: "data \<Rightarrow> bool" where
  "chainOk d \<longleftrightarrow> (\<forall>k a. dAgents d k = Some a \<longrightarrow> parentOk d k a)"

lemma chainOkD: "chainOk d \<Longrightarrow> dAgents d k = Some a \<Longrightarrow> parentOk d k a"
  by (simp add: chainOk_def)

text \<open>The depth walk finds the depth recorded in the parent.\<close>

lemma depthFrom_depth:
  assumes "chainOk d" "depthFrom d key depth cur seen = Inr n" "1 \<le> depth" "depth \<le> MaxLevels"
  shows "n \<le> MaxLevels \<and> (if cur = 0 then n = depth
     else \<exists>p. dAgents d (UserKey (ukTenantID key) cur) = Some p \<and> n = depth + agDepth p)"
  using assms
proof (induction d key depth cur seen rule: depthFrom.induct)
  case (1 d key depth cur seen)
  show ?case
  proof (cases "cur = 0")
    case True
    then show ?thesis using 1(3,5) by (simp add: depthFrom.simps)
  next
    case False
    then obtain p where p: "dAgents d (UserKey (ukTenantID key) cur) = Some p" "\<not> depth + 1 > MaxLevels"
      "cur \<noteq> ukUserID key" "cur \<notin> seen" "depthFrom d key (depth + 1) (agParentID p) (insert cur seen) = Inr n"
      using 1(3) by (subst (asm) depthFrom.simps) (auto split: if_splits sum.splits)
    have IH: "n \<le> MaxLevels \<and> (if agParentID p = 0 then n = depth + 1
        else \<exists>q. dAgents d (UserKey (ukTenantID key) (agParentID p)) = Some q \<and> n = depth + 1 + agDepth q)"
      using 1(1) [of p] 1(2,4) False p by simp
    have "parentOk d (UserKey (ukTenantID key) cur) p" using chainOkD [OF 1(2) p(1)] .
    then show ?thesis using IH False p(1) by (auto simp: parentOk_def split: if_splits)
  qed
qed

lemma parentOk_mono:
  assumes "parentOk d k a" and v: "agKey a' = agKey a" "agDepth a' = agDepth a" "agParentID a' = agParentID a"
    and up: "\<And>j p. dAgents d j = Some p \<Longrightarrow> \<exists>q. dAgents d' j = Some q \<and> agDepth q = agDepth p"
  shows "parentOk d' k a'"
proof (cases "agParentID a = 0")
  case True
  then show ?thesis using assms(1) v by (simp add: parentOk_def)
next
  case False
  then obtain p where p: "dAgents d (UserKey (ukTenantID k) (agParentID a)) = Some p" "agDepth a = agDepth p + 1"
    using assms(1) by (auto simp: parentOk_def)
  then show ?thesis using up [OF p(1)] False assms(1) v by (auto simp: parentOk_def)
qed

lemma parentOk_insert:
  assumes ok: "chainOk d" and new: "parentOk d (agKey a) a"
    and same: "\<And>c. dAgents d (agKey a) = Some c \<Longrightarrow> agDepth c = agDepth a" and v: "agKey a' = agKey a"
    "agDepth a' = agDepth a" "agParentID a' = agParentID a"
  shows "chainOk (d\<lparr>dAgents := (dAgents d)(agKey a \<mapsto> a')\<rparr>)"
  unfolding chainOk_def
proof (intro allI impI)
  let ?d = "d\<lparr>dAgents := (dAgents d)(agKey a \<mapsto> a')\<rparr>"
  fix k b
  assume kb: "dAgents ?d k = Some b"
  have up: "\<exists>q. dAgents ?d j = Some q \<and> agDepth q = agDepth p" if "dAgents d j = Some p" for j p
    using that same v by (cases "j = agKey a") auto
  show "parentOk ?d k b"
  proof (cases "k = agKey a")
    case True
    then have "b = a'" using kb by simp
    then show ?thesis unfolding True by (simp only:) (rule parentOk_mono [OF new v up])
  next
    case False
    then have "dAgents d k = Some b" using kb by simp
    from parentOk_mono [OF chainOkD [OF ok this] refl refl refl up] show ?thesis .
  qed
qed

lemma chainOk_PutAgent:
  assumes "chainOk (txD t)" "PutAgent a t = (Inr x, t')" "parentOk (txD t) (agKey a) a"
    "\<And>c. dAgents (txD t) (agKey a) = Some c \<Longrightarrow> agDepth c = agDepth a"
  shows "chainOk (txD t')"
  using parentOk_insert [OF assms(1,3,4), of x] PutAgent_Inr [OF assms(2)] by simp

text \<open>BindAgent stores the agent it found with other details, or a new one below its parent.\<close>

lemma bindAgent_cases:
  assumes run: "bindAgentBody l req (fresh d) = (Inr x, t)"
  defines "key \<equiv> UserKey (baTenantID req) (baUserID req)"
  obtains (found) cur a where "dAgents d key = Some cur" "agParentID cur = baParentID req"
      "PutAgent a (fresh d) = (Inr x, t)" "agKey a = agKey cur" "agDepth a = agDepth cur" "agParentID a = agParentID cur"
    | (added) depth a where "dAgents d key = None" "resolveDepth key (baParentID req) d = Inr depth"
      "PutAgent a (fresh d) = (Inr x, t)" "agKey a = key" "agDepth a = depth" "agParentID a = baParentID req"
proof (cases "dAgents d key")
  case None
  then have "andThen (rd (resolveDepth key (baParentID req))) (\<lambda>depth.
      PutAgent \<lparr>agKey = key, agParentID = baParentID req, agDepth = depth,
              agStatus = baStatus req, agJoinType = baJoinType req,
              agRateOverrideBP = baRateOverrideBP req, agCreatedAt = lNow l,
              agUpdatedAt = lNow l, agVersion = 0\<rparr>) (fresh d) = (Inr x, t)"
    using run by (simp add: bindAgentBody_def Let_def key_def [symmetric] attempt_run rd_run rdAgent_def fresh_def)
  then obtain depth u where u: "rd (resolveDepth key (baParentID req)) (fresh d) = (Inr depth, u)"
    and put: "PutAgent \<lparr>agKey = key, agParentID = baParentID req, agDepth = depth,
              agStatus = baStatus req, agJoinType = baJoinType req,
              agRateOverrideBP = baRateOverrideBP req, agCreatedAt = lNow l,
              agUpdatedAt = lNow l, agVersion = 0\<rparr> u = (Inr x, t)"
    by (rule andThen_InrE)
  from u have depth: "resolveDepth key (baParentID req) d = Inr depth" and "u = fresh d"
    by (simp_all add: rd_run fresh_def)
  from put [unfolded this(2)] show ?thesis by (rule that(2) [OF None depth]) simp_all
next
  case (Some cur)
  then have put: "agParentID cur = baParentID req" "PutAgent (cur\<lparr>agStatus := baStatus req, agJoinType := baJoinType req,
                 agRateOverrideBP := baRateOverrideBP req, agUpdatedAt := lNow l\<rparr>) (fresh d) = (Inr x, t)"
    using run by (simp_all add: bindAgentBody_def Let_def key_def [symmetric] attempt_run rd_run rdAgent_def fresh_def throw_run split: if_splits)
  show ?thesis by (rule that(1) [OF Some put]) simp_all
qed

lemma chain_bindAgent:
  assumes ok: "chainOk d" and run: "bindAgentBody l req (fresh d) = (Inr x, t)"
  shows "chainOk (txD t)"
  using run
proof (cases rule: bindAgent_cases)
  case (found cur a)
  have cur: "parentOk d (UserKey (baTenantID req) (baUserID req)) cur" by (rule chainOkD [OF ok found(1)])
  then have key: "agKey a = (UserKey (baTenantID req) (baUserID req))" using found(4) by (simp add: parentOk_def)
  have "parentOk d (UserKey (baTenantID req) (baUserID req)) a" by (rule parentOk_mono [OF cur found(4-6)]) auto
  then show ?thesis
    using chainOk_PutAgent [OF _ found(3)] ok found(1,5) key by (simp add: fresh_def)
next
  case (added depth a)
  have depth: "depth \<le> MaxLevels" and walk: "if baParentID req = 0 then depth = 1
      else \<exists>p. dAgents d (UserKey (baTenantID req) (baParentID req)) = Some p \<and> depth = 1 + agDepth p"
    using depthFrom_depth [OF ok added(2) [unfolded resolveDepth_def]] by (simp_all add: MaxLevels_def split: if_splits)
  have "1 \<le> depth"
  proof (cases "baParentID req = 0")
    case False
    then obtain p where p: "dAgents d (UserKey (baTenantID req) (baParentID req)) = Some p" "depth = 1 + agDepth p"
      using walk by auto
    then show ?thesis using chainOkD [OF ok p(1)] by (simp add: parentOk_def)
  qed (use walk in simp)
  then have "parentOk d (UserKey (baTenantID req) (baUserID req)) a"
    using depth walk added(4-6) unfolding parentOk_def by (simp add: add.commute)
  then show ?thesis using chainOk_PutAgent [OF _ added(3)] ok added(1,4) by (simp add: fresh_def)
qed

text \<open>No other transaction touches the agents.\<close>

lemma addAccount_agents [simp]: "dAgents (addAccount a d) = dAgents d"
  by (simp add: addAccount_def)

interpretation agents_fixed: tx_bindings "\<lambda>t. dAgents (txD t) = A" for A
  by unfold_locales
    (rule keeps_dataI [where P = "\<lambda>d. dAgents d = A"],
     auto dest: writer_Inl PutAccount_Inr AppendCommission_Inr(1) AppendRefund_Inr(1) AppendLedger_Inr(1) AppendWithdrawal_Inr(1)
       PutBinding_Inr(1)
       elim!: IncrementAccount_Inr SetCommissionAvailableAt_Inr SetCommissionReversedAmount_Inr TransitionCommission_Inr
         TransitionWithdrawal_Inr
       simp: addCommission_def addRefund_def addLedger_def addWithdrawal_def setCommission_def)+

lemma same_agents: "chainOk d \<Longrightarrow> dAgents d' = dAgents d \<Longrightarrow> chainOk d'"
  by (simp add: chainOk_def parentOk_def)

lemma chain_run:
  "keeps (\<lambda>t. dAgents (txD t) = dAgents d) fn \<Longrightarrow> chainOk d \<Longrightarrow> fn (fresh d) = (Inr x, t) \<Longrightarrow> chainOk (txD t)"
  by (erule same_agents) (drule keeps_run [where P = "\<lambda>e. dAgents e = dAgents d"], simp_all)

interpretation chain_steps: ledger_invariant chainOk
  by unfold_locales
    (erule (1) chain_bindAgent chain_run [OF agents_fixed.keeps_bindBuyer] chain_run [OF agents_fixed.keeps_orderPaid]
      chain_run [OF agents_fixed.keeps_orderReceived] chain_run [OF agents_fixed.keeps_orderRefunded]
      chain_run [OF agents_fixed.keeps_freeze] chain_run [OF agents_fixed.keeps_unfreeze] chain_run [OF agents_fixed.keeps_void]
      chain_run [OF agents_fixed.keeps_requestWithdraw] chain_run [OF agents_fixed.keeps_approve]
      chain_run [OF agents_fixed.keeps_reject] chain_run [OF agents_fixed.keeps_payoutFailure]
      chain_run [OF agents_fixed.keeps_settlePayout] chain_run [OF agents_fixed.keeps_settleRound]
     | simp add: chainOk_def newData_def)+

subsection \<open>Chains are finite\<close>

text \<open>The keys from an agent up to the root, at most \<open>n\<close> of them.\<close>

primrec lineage :: "data \<Rightarrow> nat \<Rightarrow> user_key \<Rightarrow> user_key list" where
  "lineage d 0 k = []"
| "lineage d (Suc n) k = (case dAgents d k of None \<Rightarrow> []
     | Some a \<Rightarrow> k # (if agParentID a = 0 then [] else lineage d n (UserKey (ukTenantID k) (agParentID a))))"

lemma lineage_depths:
  assumes "chainOk d" "dAgents d k = Some a" "agDepth a \<le> int n"
  shows "map (\<lambda>j. agDepth (the (dAgents d j))) (lineage d n k) = rev [1..agDepth a] \<and>
    (\<forall>j\<in>set (lineage d n k). dAgents d j \<noteq> None \<and> ukTenantID j = ukTenantID k)"
  using assms(2,3)
proof (induction n arbitrary: k a)
  case 0
  then show ?case using chainOkD [OF assms(1) 0(1)] by (simp add: parentOk_def)
next
  case (Suc n)
  have ok: "parentOk d k a" by (rule chainOkD [OF assms(1) Suc.prems(1)])
  have top: "[1..agDepth a] = [1..agDepth a - 1] @ [agDepth a]" using ok by (simp add: parentOk_def upto_rec2)
  show ?case
  proof (cases "agParentID a = 0")
    case True
    then show ?thesis using Suc.prems ok by (simp add: parentOk_def)
  next
    case False
    then obtain p where p: "dAgents d (UserKey (ukTenantID k) (agParentID a)) = Some p" "agDepth a = agDepth p + 1"
      using ok by (auto simp: parentOk_def)
    show ?thesis using Suc.IH [OF p(1)] Suc.prems p False top by auto
  qed
qed

end
