(* ===== verification/Progress.thy ===== *)
theory Progress
  imports Chains
begin

text \<open>
  When the operations of a transaction succeed: the other side of the effect lemmas, needed where
  a theorem says that a call returns a result.
\<close>

lemma AppendCommission_ok:
  assumes "commissionGuards c0 = None" "dIdem (txD t) (commissionRef c0) = None" "c = c0\<lparr>cID := dNextID (txD t) + 1\<rparr>"
  shows "\<exists>t'. AppendCommission c0 t = (Inr c, t') \<and> txD t' = addCommission c (txD t)"
proof -
  have "fst (AppendCommission c0 t) = Inr c"
    using assms by (simp add: AppendCommission_def Let_def commissionRef_def)
  then obtain t' where run: "AppendCommission c0 t = (Inr c, t')" by (cases "AppendCommission c0 t") simp
  then show ?thesis using AppendCommission_Inr(1) by blast
qed

lemma IncrementAccount_ok:
  assumes "userKeyValidate (dKey d) = None" "deltaApply d ((accountOf (txD t) (dKey d))\<lparr>aKey := dKey d\<rparr>) = Inr a"
    "dRequireNonNegative d \<Longrightarrow> NegativeBuckets a = []"
  shows "\<exists>t'. IncrementAccount d t = (Inr (a\<lparr>aVersion := aVersion a + 1\<rparr>), t') \<and> txD t' = addAccount a (txD t)"
proof -
  obtain r t' where st: "storeAccount a t = (r, t')" by fastforce
  have "r = Inr (a\<lparr>aVersion := aVersion a + 1\<rparr>)" "txD t' = addAccount a (txD t)"
    using storeAccount_fst [of a t] storeAccount_data [of a t t'] st by simp_all
  moreover have "\<not> (dRequireNonNegative d \<and> NegativeBuckets a \<noteq> [])" using assms(3) by blast
  ultimately show ?thesis using assms(1,2) st by (simp add: IncrementAccount_def)
qed

lemma AppendLedger_ok:
  assumes "userKeyValidate (leKey e0) = None" "ledgerBizValid (leBizType e0)" "length (leRemark e0) \<le> MaxRemarkLen"
  shows "\<exists>t'. AppendLedger e0 t = (Inr (e0\<lparr>leID := dNextID (txD t) + 1\<rparr>), t') \<and>
    txD t' = addLedger (e0\<lparr>leID := dNextID (txD t) + 1\<rparr>) (txD t)"
proof -
  have "fst (AppendLedger e0 t) = Inr (e0\<lparr>leID := dNextID (txD t) + 1\<rparr>)"
    using assms by (simp add: AppendLedger_def Let_def)
  then obtain t' where run: "AppendLedger e0 t = (Inr (e0\<lparr>leID := dNextID (txD t) + 1\<rparr>), t')"
    by (cases "AppendLedger e0 t") simp
  then show ?thesis using AppendLedger_Inr(1) by blast
qed

text \<open>A posting goes through when no balance overflows and, where asked, none turns negative.\<close>

lemma postWith_ok:
  assumes "userKeyValidate (dKey d) = None" "deltaApply d ((accountOf (txD t) (dKey d))\<lparr>aKey := dKey d\<rparr>) = Inr a"
    "dRequireNonNegative d \<Longrightarrow> NegativeBuckets a = []" "a' = a\<lparr>aVersion := aVersion a + 1\<rparr>" "leKey (f a') = dKey d"
    "ledgerBizValid (leBizType (f a'))" "length (leRemark (f a')) \<le> MaxRemarkLen"
  shows "\<exists>t' e. postWith d f t = (Inr (), t') \<and> e = (f a')\<lparr>leID := dNextID (txD t) + 1\<rparr> \<and>
    txD t' = addLedger e (addAccount a (txD t))"
proof -
  obtain t1 where inc: "IncrementAccount d t = (Inr a', t1)" "txD t1 = addAccount a (txD t)"
    using IncrementAccount_ok [OF assms(1-3)] assms(4) by blast
  have "userKeyValidate (leKey (f a')) = None" using assms(1,5) by simp
  from AppendLedger_ok [OF this assms(6,7), of t1] inc show ?thesis
    by (auto simp: postWith_def andThen_run ret_run addAccount_def)
qed

end
