(* ===== verification/Demo.thy ===== *)
theory Demo
  imports Progress
begin

text \<open>
  A small run of the ledger, used to instantiate the theorems: tenant 1 with agents 10 and 20
  (20 was recruited by 10), buyer 30 bound to agent 20, and a paid order of 100.00. The hash is a toy
  polynomial hash.
\<close>

definition toyHash :: "string \<Rightarrow> string" where
  "toyHash s = CHR ''h'' # showNat (foldl (\<lambda>h c. (h * 257 + of_char c) mod 2305843009213693951) 7 s)"

definition demoRules :: rules where
  "demoRules = DefaultRules\<lparr>rRateBP := [500, 200], rFeeRateBP := 100, rMinWithdraw := 100\<rparr>"

definition demoLedger :: "gotime \<Rightarrow> ledger" where
  "demoLedger now = \<lparr>lRules = demoRules, lNow = now, lRates = defaultResolveRate, lElig = defaultEligible,
     lPayout = None, lRuleVersion = rulesVersion toyHash demoRules, lDigest = toyHash\<rparr>"

definition day :: "int \<Rightarrow> gotime" where
  "day n = n * 86400000000000"

definition demoAgent :: "int \<Rightarrow> int \<Rightarrow> bind_agent_request" where
  "demoAgent u p = \<lparr>baTenantID = 1, baUserID = u, baParentID = p, baJoinType = JoinFree, baStatus = AgentActive,
     baRateOverrideBP = None\<rparr>"

definition demoBuyer :: bind_buyer_request where
  "demoBuyer = \<lparr>bbTenantID = 1, bbBuyerUserID = 30, bbAgentUserID = 10, bbSource = SourceLink, bbSourceRef = [],
     bbBoundAt = 0\<rparr>"

definition demoPaid :: order_paid_event where
  "demoPaid = \<lparr>epTenantID = 1, epOrderID = ''A1'', epBuyerUserID = 30, epPaidAmount = 10000, epItems = [],
     epPaidAt = day 1, epIdemKey = []\<rparr>"

definition demoAgent10 :: agent where
  "demoAgent10 = \<lparr>agKey = UserKey 1 10, agParentID = 0, agDepth = 1, agStatus = AgentActive, agJoinType = JoinFree,
     agRateOverrideBP = None, agCreatedAt = 1, agUpdatedAt = 1, agVersion = 1\<rparr>"

definition demoData1 :: data where
  "demoData1 = newData\<lparr>dAgents := [UserKey 1 10 \<mapsto> demoAgent10]\<rparr>"

definition demo1 :: mem_store where
  "demo1 = newStore\<lparr>stData := demoData1\<rparr>"

lemma demo1_run: "BindAgent (demoLedger 1) (demoAgent 10 0) newStore = (Inr demoAgent10, demo1)"
  by (simp add: BindAgent_def demoAgent_def Update_def newStore_def bindAgentBody_def step_simps Let_def joinTypeValid_def
      agentStatusValid_def rdAgent_def newData_def resolveDepth_def depthFrom.simps PutAgent_def userKeyValidate_def
      checkVersion_def change_def demoAgent10_def demoLedger_def demo1_def demoData1_def)

definition demoBinding :: binding where
  "demoBinding = \<lparr>bID = 0, bBuyer = UserKey 1 30, bAgentUserID = 10, bSource = SourceLink, bSourceRef = [], bBoundAt = 2,
     bExpireAt = 0, bActive = True, bReboundFrom = 0, bVersion = 1\<rparr>"

definition demoData2 :: data where
  "demoData2 = demoData1\<lparr>dBindings := [UserKey 1 30 \<mapsto> demoBinding]\<rparr>"

definition demo2 :: mem_store where
  "demo2 = newStore\<lparr>stData := demoData2\<rparr>"

lemma demo2_run: "BindBuyer (demoLedger 2) demoBuyer demo1 = (Inr (demoBinding, False), demo2)"
  by (simp add: BindBuyer_def demoBuyer_def Update_def newStore_def bindBuyerBody_def step_simps Let_def bindSourceValid_def
      rdAgent_def newData_def rdBinding_def PutBinding_def userKeyValidate_def demo2_def demoData2_def demoBinding_def
      checkVersion_def change_def demoAgent10_def demoLedger_def demo1_def demoData1_def expiryFor_def demoRules_def
      DefaultRules_def)

definition demoBase :: accrual_base where
  "demoBase = \<lparr>abItemID = [], abAmount = 10000\<rparr>"

definition demoC :: commission where
  "demoC = (accrualRecord (demoLedger (day 1)) demoPaid demoBase 10 1 500 500)\<lparr>cID := 1\<rparr>"

definition demoA :: account where
  "demoA = zeroAccount\<lparr>aKey := UserKey 1 10, aFrozen := 500, aTotalEarned := 500\<rparr>"

definition demoE :: ledger_entry where
  "demoE = (newLedgerEntry (UserKey 1 10) LedgerAccrue (formatInt 1)
        (''order '' @ ''A1'' @ '' layer '' @ formatInt 1) (day 1) (demoA\<lparr>aVersion := 1\<rparr>) BucketFrozen 500)\<lparr>leID := 2\<rparr>"

definition demoData3 :: data where
  "demoData3 = addLedger demoE (addAccount demoA (addCommission demoC demoData2))"

definition demo3 :: mem_store where
  "demo3 = newStore\<lparr>stData := demoData3\<rparr>"

lemma demo_amounts:
  "moneyApply 10000 10000 RoundDown = Inr 10000" "moneyApply 10000 500 RoundDown = Inr 500" "moneyAdd 0 10000 = Inr 10000"
  by (simp_all add: moneyApply_exact moneyAdd_def safemathAdd_exact in64_def rateValid_def MaxRateBP_def RateScale_def
      roundingValid_def roundQuot_def Let_def)

lemma demo_key: "accrueIdemKey toyHash k i a n s \<noteq> [] "
  by (simp add: accrueIdemKey_def hashParts_def toyHash_def hexEncode_def idemKeyLen_def)

lemma demo_append:
  assumes "txD t = demoData2"
  shows "\<exists>t'. AppendCommission (accrualRecord (demoLedger (day 1)) demoPaid demoBase 10 1 500 500) t = (Inr demoC, t') \<and>
    txD t' = addCommission demoC demoData2"
proof -
  let ?c = "accrualRecord (demoLedger (day 1)) demoPaid demoBase 10 1 500 500"
  have "commissionGuards ?c = None"
    using demo_key by (simp add: commissionGuards_def accrualRecord_def demoPaid_def epOrderKey_def orderKeyValidate_def MaxOrderIDLen_def
        zeroCommission_def MaxLevels_def commissionStateValid_def sless_sint sle_sint MaxReversible_def demoLedger_def)
  moreover have "dIdem (txD t) (commissionRef ?c) = None" "dNextID (txD t) = 0"
    by (simp_all add: assms demoData2_def demoData1_def newData_def)
  ultimately show ?thesis using AppendCommission_ok [of ?c t demoC] assms by (simp add: demoC_def)
qed

lemma demo_credit:
  assumes "txD t = addCommission demoC demoData2"
  shows "\<exists>t'. creditAccrual demoC (day 1) t = (Inr (), t') \<and> txD t' = demoData3"
proof -
  let ?d = "zeroDelta\<lparr>dKey := agentKeyOf demoC, dFrozen := cAmount demoC, dTotalEarned := cAmount demoC, dAt := day 1\<rparr>"
  have c: "agentKeyOf demoC = UserKey 1 10" "cAmount demoC = 500" "cID demoC = 1" "okOrderID (cKey demoC) = ''A1''"
    "cLayer demoC = 1" "cID demoC = 1"
    by (simp_all add: demoC_def accrualRecord_def agentKeyOf_def demoPaid_def epOrderKey_def)
  have acc: "accountOf (txD t) (UserKey 1 10) = zeroAccount"
    by (simp add: assms addCommission_def accountOf_def demoData2_def demoData1_def newData_def)
  have upd: "deltaApply ?d (zeroAccount\<lparr>aKey := UserKey 1 10\<rparr>) = Inr demoA"
    by (simp add: c deltaApply_def moneyAdd_def safemathAdd_exact in64_def demoA_def zeroAccount_def)
  have n: "dNextID (txD t) = 1" by (simp add: assms addCommission_def c)
  have one: "length (formatInt 1) = 1" by code_simp
  have v: "aVersion demoA = 0" by (simp add: demoA_def zeroAccount_def)
  let ?f = "\<lambda>saved. newLedgerEntry (agentKeyOf demoC) LedgerAccrue (formatInt (cID demoC))
        (''order '' @ okOrderID (cKey demoC) @ '' layer '' @ formatInt (cLayer demoC)) (day 1) saved BucketFrozen (cAmount demoC)"
  have "(?f (demoA\<lparr>aVersion := aVersion demoA + 1\<rparr>))\<lparr>leID := dNextID (txD t) + 1\<rparr> = demoE"
    unfolding demoE_def c n v by simp
  moreover have "userKeyValidate (dKey ?d) = None" by (simp add: c userKeyValidate_def)
  moreover have "deltaApply ?d ((accountOf (txD t) (dKey ?d))\<lparr>aKey := dKey ?d\<rparr>) = Inr demoA" using upd acc by (simp add: c)
  ultimately show ?thesis
    unfolding creditAccrual_post
    using postWith_ok [of ?d t demoA "demoA\<lparr>aVersion := aVersion demoA + 1\<rparr>" ?f] assms
    by (simp add: demoData3_def ledgerBizValid_def MaxRemarkLen_def c one)
qed

lemma demo_rules:
  "rRounding demoRules = RoundDown" "rMaxAllocatableBP demoRules = 10000" "rLevels demoRules = 2" "rRateBP demoRules = [500, 200]"
  "rFreezeDays demoRules = 7"
  by (simp_all add: demoRules_def DefaultRules_def MaxRateBP_def RateScale_def)

definition demoAccrued :: accrue_result where
  "demoAccrued = accrueSkip 2 0 SkipNoParent ''relation chain ends here''
     ((newAccrueResult (OrderKey 1 ''A1''))\<lparr>arAttributed := True, arAgentUserID := 10, arCommissions := [demoC]\<rparr>)"

lemma demo_layers:
  assumes "txD t = demoData2"
  shows "\<exists>t'. accrueBase (demoLedger (day 1)) demoPaid 10 demoBase
      ((newAccrueResult (OrderKey 1 ''A1''))\<lparr>arAttributed := True, arAgentUserID := 10\<rparr>) t = (Inr demoAccrued, t') \<and> txD t' = demoData3"
proof -
  obtain t1 where app: "AppendCommission (accrualRecord (demoLedger (day 1)) demoPaid demoBase 10 1 500 500) t = (Inr demoC, t1)"
    and d1: "txD t1 = addCommission demoC demoData2" using demo_append [OF assms] by auto
  obtain t2 where cred: "creditAccrual demoC (day 1) t1 = (Inr (), t2)" and d2: "txD t2 = demoData3"
    using demo_credit [OF d1] by auto
  have ag: "dAgents (txD t) (UserKey 1 10) = Some demoAgent10" by (simp add: assms demoData2_def demoData1_def)
  have upto: "[1..2] = [1, 2 :: int]" by (simp add: upto_rec1)
  have elig: "lElig (demoLedger n) i = defaultEligible i" "lRates (demoLedger n) j = defaultResolveRate j" "lRules (demoLedger n) = demoRules"
    "lNow (demoLedger n) = n" for n i j
    by (simp_all add: demoLedger_def)
  have a10: "agParentID demoAgent10 = 0" "agRateOverrideBP demoAgent10 = None" by (simp_all add: demoAgent10_def)
  have base: "abAmount demoBase = 10000" by (simp add: demoBase_def)
  have paid: "epTenantID demoPaid = 1" by (simp add: demoPaid_def)
  show ?thesis
    using app cred d2
    by (simp add: accrueBase_def elig demo_rules demo_amounts upto base attempt_run rd_run rdAgent_def ag a10 Let_def paid
        defaultResolveRate_def andThen_run ret_run sless_sint sle_sint demoAccrued_def newAccrueResult_def)
qed

lemma demo3_run: "OnOrderPaid (demoLedger (day 1)) demoPaid demo2 = (Inr demoAccrued, demo3)"
proof -
  obtain t where run: "accrueBase (demoLedger (day 1)) demoPaid 10 demoBase
      ((newAccrueResult (OrderKey 1 ''A1''))\<lparr>arAttributed := True, arAgentUserID := 10\<rparr>) (fresh demoData2) = (Inr demoAccrued, t)"
    and t: "txD t = demoData3" using demo_layers [of "fresh demoData2"] by (auto simp: fresh_def)
  have valid: "paidValidate demoPaid = None"
    by (simp add: paidValidate_def demoPaid_def epOrderKey_def orderKeyValidate_def MaxOrderIDLen_def sle_sint sless_sint day_def
        validateIdemKeyOverride_def MaxOrderItems_def)
  have key: "epOrderKey demoPaid = OrderKey 1 ''A1''" "epTenantID demoPaid = 1" "epBuyerUserID demoPaid = 30"
    "epPaidAmount demoPaid = 10000" "epPaidAt demoPaid = day 1" "basesOf demoPaid = [demoBase]"
    by (simp_all add: demoPaid_def epOrderKey_def basesOf_def demoBase_def)
  have rows: "rdCommissionsByOrder k demoData2 = Inr []" "rdBinding (UserKey 1 30) demoData2 = Inr demoBinding"
    "rdAgent (UserKey 1 10) demoData2 = Inr demoAgent10" for k
    by (simp_all add: rdCommissionsByOrder_def rowsAt_def slot_def demoData2_def demoData1_def newData_def)
  have bound: "bAgentUserID demoBinding = 10" "\<not> day 1 < bBoundAt demoBinding" "bindingEffective demoBinding (day 1)"
    by (simp_all add: demoBinding_def day_def bindingEffective_def)
  have ag: "agKey demoAgent10 = UserKey 1 10" by (simp add: demoAgent10_def)
  have elig: "fst (defaultEligible \<lparr>eiAgent = demoAgent10, eiOrder = OrderKey 1 ''A1'', eiBuyerUserID = 30\<rparr>)"
    by (simp add: defaultEligible_def demoAgent10_def)
  have base: "abAmount demoBase = 10000" "lElig (demoLedger n) = defaultEligible" for n
    by (simp_all add: demoBase_def demoLedger_def)
  have "orderPaidBody (demoLedger (day 1)) demoPaid (fresh demoData2) = (Inr demoAccrued, t)"
    using run
    by (simp add: orderPaidBody_def Let_def key andThen_run rd_run attempt_run rows bound ag elig base accrueBases_def
        demo_amounts ret_run sless_sint fresh_def)
  then show ?thesis
    by (simp add: OnOrderPaid_def valid Update_def demo2_def demo3_def newStore_def fresh_def t)
qed

lemma demo_reachable: "reachable demo1" "reachable demo2" "reachable demo3"
proof -
  have "ledger_step newStore demo1" using demo1_run by (rule ledger_step.bind_agent)
  then show r1: "reachable demo1" by (simp add: reachable_def)
  have "ledger_step demo1 demo2" using demo2_run by (rule ledger_step.bind_buyer)
  then show r2: "reachable demo2" using r1 unfolding reachable_def by (rule rtranclp.rtrancl_into_rtrancl [rotated])
  have "ledger_step demo2 demo3" using demo3_run by (rule ledger_step.order_paid)
  then show "reachable demo3" using r2 unfolding reachable_def by (rule rtranclp.rtrancl_into_rtrancl [rotated])
qed

end
