(* ===== verification/Guarantees.thy ===== *)
theory Guarantees
  imports Demo
begin

text \<open>
  What holds in every reachable state of the ledger and of every step from one: the books, the
  journal, the accruals and what was given back of them, the history, the identity of records, and
  the atomicity of calls. The witnesses use the run of the theory Demo.
\<close>

subsection \<open>The run, read back\<close>

lemma demo3_data:
  "dCommissions (stData demo3) = [1 \<mapsto> demoC]" "dLedger (stData demo3) = [2 \<mapsto> demoE]"
  "accountOf (stData demo3) (UserKey 1 10) = demoA\<lparr>aVersion := 1\<rparr>" "dAgents (stData demo3) (UserKey 1 10) = Some demoAgent10"
proof -
  have c: "cID demoC = 1" "leID demoE = 2" "aKey demoA = UserKey 1 10" "aVersion demoA = 0"
    by (simp_all add: demoC_def demoE_def demoA_def zeroAccount_def)
  then show "dCommissions (stData demo3) = [1 \<mapsto> demoC]" "dLedger (stData demo3) = [2 \<mapsto> demoE]"
    "accountOf (stData demo3) (UserKey 1 10) = demoA\<lparr>aVersion := 1\<rparr>" "dAgents (stData demo3) (UserKey 1 10) = Some demoAgent10"
    by (simp_all add: demo3_def demoData3_def addLedger_def addAccount_def addCommission_def demoData2_def demoData1_def
        newData_def accountOf_def)
qed

lemma demoC_fields: "cAmount demoC = 500" "cReversedAmount demoC = 0" "cState demoC = CommissionPending" "cReverseOf demoC = 0"
  "agentKeyOf demoC = UserKey 1 10" "cID demoC = 1"
  by (simp_all add: demoC_def accrualRecord_def zeroCommission_def agentKeyOf_def demoPaid_def epOrderKey_def)

subsection \<open>Books\<close>

text \<open>
  C1. The books balance in every reachable state: the frozen money of every user is what its
  waiting accruals still owe, the withdrawing money what its open withdrawals hold, the withdrawn
  money what was paid out, the totals what it earned and what was clawed back, and the four
  balances together are earned minus clawed back. The equations are on exact integers: no balance
  has ever wrapped around.
\<close>

theorem books_balance:
  assumes "reachable s"
  shows "let a = accountOf (stData s) k; d = stData s in
     sint (aFrozen a) = commSum frozenShare k d \<and> sint (aWithdrawing a) = wdSum reservedShare k d \<and>
     sint (aWithdrawn a) = wdSum paidShare k d \<and> sint (aTotalEarned a) = commSum earnedShare k d \<and>
     sint (aTotalReversed a) = commSum reversedShare k d \<and>
     sint (aFrozen a) + sint (aAvailable a) + sint (aWithdrawing a) + sint (aWithdrawn a) =
       sint (aTotalEarned a) - sint (aTotalReversed a)"
  using moneyInv_parts(4) [OF money_steps.reachable_holds [OF assms], unfolded booksOk_def, THEN spec, of k]
  unfolding booksAt_def Let_def .

theorem books_balance_witness:
  "sint (aFrozen (accountOf (stData demo3) (UserKey 1 10))) = 500 \<and>
   commSum frozenShare (UserKey 1 10) (stData demo3) = 500"
  using books_balance [OF demo_reachable(3), of "UserKey 1 10"] by (simp add: Let_def demo3_data demoA_def)

lemma moneyInv_held:
  assumes "moneyInv d"
  shows "0 \<le> sint (aFrozen (accountOf d k)) \<and> 0 \<le> sint (aWithdrawing (accountOf d k)) \<and>
    0 \<le> sint (aWithdrawn (accountOf d k))"
proof -
  note parts = moneyInv_parts [OF assms]
  have rows: "0 \<le> frozenShare c" if "dCommissions d i = Some c" for i c
    using commissionsInvD(1) [OF parts(2) that] by (auto simp: frozenShare_def onlyIf_def commissionRow_def)
  have wds: "0 \<le> reservedShare w" "0 \<le> paidShare w" if "dWithdrawals d i = Some w" for i w
    using parts(3) that by (fastforce simp: withdrawalsInv_def reservedShare_def paidShare_def onlyIf_def withdrawalRow_def)+
  have "0 \<le> commSum frozenShare k d" "0 \<le> wdSum reservedShare k d" "0 \<le> wdSum paidShare k d"
    unfolding commSum_def wdSum_def using rows wds by (intro mapSum_nonneg; simp add: onlyIf_def)+
  then show ?thesis using parts(4) by (simp add: booksOk_def booksAt_def)
qed

text \<open>
  C10. Money that is frozen, held for a withdrawal or paid out is never negative in a reachable
  state, for any user; only the available balance can be (a debt, where the rules allow one).
\<close>

theorem held_money_nonnegative:
  assumes "reachable s"
  shows "0 \<le> sint (aFrozen (accountOf (stData s) k)) \<and> 0 \<le> sint (aWithdrawing (accountOf (stData s) k)) \<and>
    0 \<le> sint (aWithdrawn (accountOf (stData s) k))"
  by (rule moneyInv_held [OF money_steps.reachable_holds [OF assms]])

theorem held_money_nonnegative_witness: "0 \<le> sint (aFrozen (accountOf (stData demo3) (UserKey 1 10))) \<and>
    aFrozen (accountOf (stData demo3) (UserKey 1 10)) = 500"
  using held_money_nonnegative [OF demo_reachable(3), of "UserKey 1 10"] by (simp add: demo3_data demoA_def)

text \<open>
  C7. The journal explains the balances: in a reachable state every balance of every user is the sum
  of that user's journal entries, and the after-balances an entry carries are the sums of the
  entries of its user up to and including itself.
\<close>

theorem journal_explains:
  assumes "reachable s"
  shows "sint (bucketValue b (accountOf (stData s) k)) = ledgerSum (stData s) k b \<and>
    (\<forall>i e. dLedger (stData s) i = Some e \<longrightarrow> sint (bucketAfter b e) = ledgerUpTo (stData s) i (leKey e) b)"
  using moneyInv_parts(5) [OF money_steps.reachable_holds [OF assms]] by (simp add: journalOk_def)

theorem journal_explains_witness:
  "ledgerSum (stData demo3) (UserKey 1 10) BucketFrozen = 500 \<and> ledgerUpTo (stData demo3) 2 (UserKey 1 10) BucketFrozen = 500"
proof -
  have "leKey demoE = UserKey 1 10" "bucketAfter BucketFrozen demoE = 500"
    by (simp_all add: demoE_def demoA_def newLedgerEntry_def AllBuckets_def Let_def)
  moreover have "bucketValue BucketFrozen (demoA\<lparr>aVersion := 1\<rparr>) = 500" by (simp add: demoA_def)
  moreover note both = journal_explains [OF demo_reachable(3), of BucketFrozen "UserKey 1 10"]
  moreover have "dLedger (stData demo3) 2 = Some demoE" by (simp add: demo3_data)
  then have "sint (bucketAfter BucketFrozen demoE) = ledgerUpTo (stData demo3) 2 (leKey demoE) BucketFrozen"
    using both by blast
  ultimately show ?thesis by (simp add: demo3_data(3))
qed

subsection \<open>Refinement of an abstract account book\<close>

text \<open>
  The abstract view of the store is a table of exact balances. What a step may do to it is given
  by the journal entries it adds, and nothing else changes it.
\<close>

definition book :: "data \<Rightarrow> user_key \<Rightarrow> bucket \<Rightarrow> int" where
  "book d k b = sint (bucketValue b (accountOf d k))"

definition postedSince :: "data \<Rightarrow> data \<Rightarrow> user_key \<Rightarrow> bucket \<Rightarrow> int" where
  "postedSince d0 d k b = mapSum (\<lambda>e. onlyIf (leKey e = k) (sint (bucketDelta b e))) (dLedger d |` (- dom (dLedger d0)))"

lemma mapSum_split:
  assumes "finite (dom m)" "\<And>i v. m0 i = Some v \<Longrightarrow> m i = Some v"
  shows "mapSum f m = mapSum f m0 + mapSum f (m |` (- dom m0))"
proof -
  have sub: "dom m0 \<subseteq> dom m" using assms(2) by auto
  have "mapSum f m = (\<Sum>k \<in> dom m - dom m0. f (the (m k))) + (\<Sum>k \<in> dom m0. f (the (m k)))"
    unfolding mapSum_def by (rule sum.subset_diff [OF sub assms(1)])
  also have "(\<Sum>k \<in> dom m0. f (the (m k))) = mapSum f m0"
    unfolding mapSum_def by (rule sum.cong [OF refl], simp add: dom_def, elim exE, frule assms(2), simp)
  also have "(\<Sum>k \<in> dom m - dom m0. f (the (m k))) = mapSum f (m |` (- dom m0))"
    unfolding mapSum_def by (rule sum.cong) (auto simp: restrict_map_def split: if_splits)
  finally show ?thesis by simp
qed

lemma reachable_step: "reachable s \<Longrightarrow> ledger_step s s' \<Longrightarrow> reachable s'"
  unfolding reachable_def by (rule rtranclp.rtrancl_into_rtrancl)

lemma reachable_steps: "reachable s \<Longrightarrow> ledger_step\<^sup>*\<^sup>* s s' \<Longrightarrow> reachable s'"
  unfolding reachable_def by (rule rtranclp_trans)

lemma steps_history: "reachable s \<Longrightarrow> ledger_step\<^sup>*\<^sup>* s s' \<Longrightarrow> historyInv (stData s) (stData s')"
  using history_steps.steps_keep [of s s' "stData s"] wf_steps.reachable_holds [of s]
  by (simp add: historyInv_def grewFrom_refl)

text \<open>
  C8. The store refines the account book: any sequence of steps changes the balance of a user by
  the sum of the journal entries those steps added for that user, and the entries that were there
  are still there unchanged. No step moves money without a journal entry.
\<close>

theorem book_refines_journal:
  assumes "reachable s" "ledger_step\<^sup>*\<^sup>* s s'"
  shows "book (stData s') k b = book (stData s) k b + postedSince (stData s) (stData s') k b \<and>
    (\<forall>i e. dLedger (stData s) i = Some e \<longrightarrow> dLedger (stData s') i = Some e)"
proof -
  have keep: "dLedger (stData s') i = Some e" if "dLedger (stData s) i = Some e" for i e
    using steps_history [OF assms] that by (auto simp: historyInv_def grewFrom_def rowsGrew_def)
  have r': "reachable s'" by (rule reachable_steps [OF assms])
  have fin: "finite (dom (dLedger (stData s')))" using storeWf_parts(12) [OF wf_steps.reachable_holds [OF r']] .
  have "journalOk (stData s)" "journalOk (stData s')"
    using moneyInv_parts(5) [OF money_steps.reachable_holds] assms(1) r' by blast+
  then have "book (stData s) k b = ledgerSum (stData s) k b" "book (stData s') k b = ledgerSum (stData s') k b"
    by (simp_all add: journalOk_def book_def)
  then show ?thesis
    using keep mapSum_split [OF fin keep] by (simp add: ledgerSum_def postedSince_def)
qed

theorem book_refines_journal_witness:
  "book (stData demo3) (UserKey 1 10) BucketFrozen = 0 + postedSince (stData demo2) (stData demo3) (UserKey 1 10) BucketFrozen"
proof -
  have step: "ledger_step\<^sup>*\<^sup>* demo2 demo3" using ledger_step.order_paid [OF demo3_run] by blast
  have "book (stData demo2) (UserKey 1 10) BucketFrozen = 0"
    by (simp add: book_def demo2_def demoData2_def demoData1_def newData_def accountOf_def zeroAccount_def)
  then show ?thesis using book_refines_journal [OF demo_reachable(2) step, of "UserKey 1 10" BucketFrozen] by simp
qed

subsection \<open>Accruals and what was given back\<close>

text \<open>
  C6. Every accrual of a reachable state has given back between nothing and all of its amount, what
  it has given back is exactly the sum of the reversal records that point at it, it is in a final
  state exactly when it has given back everything, and every reversal points at an accrual of the
  same order, item, agent and level.
\<close>

theorem reversals_exact:
  assumes "reachable s" "dCommissions (stData s) i = Some c"
  shows "if 0 < sint (cAmount c)
     then 0 \<le> sint (cReversedAmount c) \<and> sint (cReversedAmount c) \<le> sint (cAmount c) \<and>
       sint (cReversedAmount c) = clawedFrom i (dCommissions (stData s)) \<and>
       (commissionTerminal (cState c) \<longleftrightarrow> cReversedAmount c = cAmount c)
     else sint (cAmount c) < 0 \<and> cState c = CommissionReversed \<and>
       (\<exists>p. dCommissions (stData s) (cReverseOf c) = Some p \<and> 0 < sint (cAmount p) \<and> cKey c = cKey p \<and>
         cOrderItemID c = cOrderItemID p \<and> cAgentUserID c = cAgentUserID p \<and> cLayer c = cLayer p)"
proof -
  note inv = moneyInv_parts(2) [OF money_steps.reachable_holds [OF assms(1)]]
  show ?thesis using commissionsInvD [OF inv assms(2)] by (auto simp: commissionRow_def accrual_def linked_def)
qed

theorem reversals_exact_witness:
  "clawedFrom 1 (dCommissions (stData demo3)) = 0 \<and> \<not> commissionTerminal (cState demoC)"
proof -
  have "dCommissions (stData demo3) 1 = Some demoC" by (simp add: demo3_data)
  from reversals_exact [OF demo_reachable(3) this] show ?thesis by (simp add: demoC_fields commissionTerminal_def)
qed

lemma settleStep_quarantine:
  assumes "settleStep now c (n, m, q) t = (Inr (n', m', q'), t')" "\<not> cAmount c <=s 0" "\<not> OutstandingAmount c <=s 0"
  shows "q' = q"
  using assms
  by (auto simp: settleStep_def Let_def attempt_run ret_def throw_def split: sum.splits if_splits)

lemma settleLoop_quarantine:
  assumes "loopM (settleStep now) cs (n, m, q) t = (Inr (n', m', q'), t')"
    "\<And>c. c \<in> set cs \<Longrightarrow> \<not> cAmount c <=s 0 \<and> \<not> OutstandingAmount c <=s 0"
  shows "q' = q"
  using assms
proof (induction cs arbitrary: n m q t)
  case Nil
  then show ?case by simp
next
  case (Cons c cs)
  from Cons.prems(1) obtain n1 m1 q1 t1 where one: "settleStep now c (n, m, q) t = (Inr (n1, m1, q1), t1)"
    and rest: "loopM (settleStep now) cs (n1, m1, q1) t1 = (Inr (n', m', q'), t')"
    by (auto simp: andThen_Inr_iff)
  have "q1 = q" using settleStep_quarantine [OF one] Cons.prems(2) by simp
  then show ?case using Cons.IH [OF rest] Cons.prems(2) by simp
qed

lemma settleRound_count:
  assumes "loopM (settleStep now) cs (n, m, q) t = (Inr (n', m', q'), t')"
  shows "n' \<le> n + length cs"
  using assms
proof (induction cs arbitrary: n m q t)
  case (Cons c cs)
  from Cons.prems(1) obtain n1 m1 q1 t1 where one: "settleStep now c (n, m, q) t = (Inr (n1, m1, q1), t1)"
    and rest: "loopM (settleStep now) cs (n1, m1, q1) t1 = (Inr (n', m', q'), t')"
    by (auto simp: andThen_Inr_iff)
  have "n1 \<le> n + 1"
    using one by (auto simp: settleStep_def Let_def attempt_run ret_def throw_def split: sum.splits if_splits)
  then show ?case using Cons.IH [OF rest] by simp
qed simp

lemma due_length:
  assumes "rdDueCommissions tenantID now limit d = Inr due" "0 < limit"
  shows "int (length due) \<le> limit"
proof -
  obtain ids where "due = collectRows (freshRow d) (nat limit) ids"
    using assms by (auto simp: rdDueCommissions_def Let_def)
  then have "due = take (nat limit) (List.map_filter (freshRow d) ids)"
    using collectRows_take [of "nat limit" "freshRow d" ids] assms(2) by simp
  then show ?thesis using assms(2) by simp
qed

lemma round_facts:
  assumes "reachable s" "Update (settleRound tenantID now limit) s = (Inr (count, amount, quarantined), s')"
  shows "quarantined = []" "0 < limit \<Longrightarrow> int count \<le> limit" "reachable s'"
proof -
  note inv = money_steps.reachable_holds [OF assms(1)]
  show "reachable s'" by (rule reachable_step [OF assms(1) ledger_step.settle_round [OF assms(2)]])
  obtain t where "settleRound tenantID now limit (fresh (stData s)) = (Inr (count, amount, quarantined), t)"
    using assms(2) by (auto elim!: Update_Inr simp: fresh_def)
  then obtain due where due: "rdDueCommissions tenantID now limit (stData s) = Inr due"
    and run: "loopM (settleStep now) due (0, 0, []) (fresh (stData s)) = (Inr (count, amount, quarantined), t)"
    by (auto simp: settleRound_def andThen_Inr_iff rd_run fresh_def)
  have "\<not> cAmount c <=s 0 \<and> \<not> OutstandingAmount c <=s 0" if "c \<in> set due" for c
  proof -
    note row = rdDueCommissions_row [OF inv due that]
    have c: "commissionRow c" using commissionsInvD(1) [OF moneyInv_parts(2) [OF inv] row(1)] .
    then have acc: "accrual c" using open_accrual [of c] row(2) by (simp add: commissionTerminal_def)
    have "cReversedAmount c \<noteq> cAmount c" using c acc row(2) by (simp add: commissionRow_def commissionTerminal_def)
    then have "sint (cReversedAmount c) \<noteq> sint (cAmount c)" using sint_eqD by blast
    then show ?thesis using c acc outstanding_exact(1) [OF c acc] by (simp add: commissionRow_def accrual_def sle_sint)
  qed
  with settleLoop_quarantine [OF run] show "quarantined = []" by simp
  show "int count \<le> limit" if "0 < limit" using settleRound_count [OF run] due_length [OF due that] by simp
qed

lemma round_error: "reachable s \<Longrightarrow> Update (settleRound tenantID now limit) s = (Inl e, s') \<Longrightarrow> reachable s'"
  by (rule reachable_step, assumption, rule ledger_step.settle_round)

text \<open>One round with budget left: it fails, its sums overflow, it was the last, or the loop goes on.\<close>

lemma maintainTenant_round:
  assumes reach: "reachable s" and left: "0 < left"
    and run: "maintainTenantRounds (Suc rounds) tenantID now left out s = ((out', err, left'), s')"
  obtains (failed) "out' = out" "left' = left" "reachable s'"
  | (ended) count where "int count \<le> left" "left' = left - int count" "reachable s'"
      "mrSettledCount out' = mrSettledCount out + count" "mrQuarantined out' = mrQuarantined out"
  | (more) count out2 s1 where "int count \<le> left" "reachable s1"
      "mrSettledCount out2 = mrSettledCount out + count" "mrQuarantined out2 = mrQuarantined out"
      "maintainTenantRounds rounds tenantID now (left - int count) out2 s1 = ((out', err, left'), s')"
proof -
  let ?limit = "budgetPermits maintainBatch left"
  have some: "\<not> budgetExhausted left" using left by (simp add: budgetExhausted_def)
  have limit: "0 < ?limit" "?limit \<le> left" using left by (simp_all add: budgetPermits_def maintainBatch_def)
  obtain r s1 where round: "Update (settleRound tenantID now ?limit) s = (r, s1)" by fastforce
  show ?thesis
  proof (cases r)
    case (Inl e)
    then show ?thesis using failed run some round round_error [OF reach] by auto
  next
    case (Inr res)
    obtain count amount quar where res: "res = (count, amount, quar)" by (cases res)
    note facts = round_facts [OF reach round [unfolded Inr res]]
    have le: "int count \<le> left" using facts(2) [OF limit(1)] limit(2) by simp
    then have spend: "budgetSpend (int count) left = left - int count" by (simp add: budgetSpend_def)
    define out1 where "out1 = out\<lparr>mrSettledCount := mrSettledCount out + count\<rparr>"
    have out1: "mrSettledCount out1 = mrSettledCount out + count" "mrQuarantined out1 = mrQuarantined out"
      by (simp_all add: out1_def)
    have "(case moneyAdd (mrSettledAmount out1) amount of
           Inl e \<Rightarrow> ((out1, Some e, left - int count), s1)
         | Inr amount' \<Rightarrow>
             let out2 = out1\<lparr>mrSettledAmount := amount', mrQuarantined := mrQuarantined out1 @ quar\<rparr>
             in if count = 0 then ((out2, None, left - int count), s1)
                else maintainTenantRounds rounds tenantID now (left - int count) out2 s1) = ((out', err, left'), s')"
      using run by (simp only: maintainTenantRounds.simps(2) if_not_P [OF some] round Inr res prod.case sum.case Let_def spend out1_def)
    then show ?thesis
      using ended [OF le] facts(1,3) out1 more [OF le facts(3), of "out1\<lparr>mrSettledAmount := a, mrQuarantined := mrQuarantined out\<rparr>" for a]
      by (auto simp: Let_def split: sum.splits if_splits)
  qed
qed

lemma maintainTenant_facts:
  assumes "reachable s" "maintainTenantRounds rounds tenantID now left out s = ((out', err, left'), s')" "0 \<le> left"
  shows "mrQuarantined out' = mrQuarantined out \<and> reachable s' \<and> 0 \<le> left' \<and>
    int (mrSettledCount out') + left' = int (mrSettledCount out) + left"
  using assms
proof (induction rounds arbitrary: left out s)
  case 0
  then show ?case by simp
next
  case (Suc rounds)
  show ?case
  proof (cases "budgetExhausted left")
    case True
    then show ?thesis using Suc.prems by simp
  next
    case False
    then have "0 < left" by (simp add: budgetExhausted_def)
    from Suc.prems(1) this Suc.prems(2) show ?thesis
    proof (cases rule: maintainTenant_round)
      case (more count out2 s1)
      from Suc.IH [OF more(2,5)] show ?thesis using more(1,3,4) by simp
    qed (use Suc.prems(3) in simp_all)
  qed
qed

lemma quarantineNew_Nil [simp]: "quarantineNew [] seen = ([], seen)"
  by simp

lemma maintainGroups_facts:
  assumes "reachable s" "maintainGroups now tenants ms s = ((r, ms'), s')" "0 \<le> msLeft ms"
    "mrQuarantined (msTotal ms) = []"
  shows "mrQuarantined (msTotal ms') = [] \<and> reachable s' \<and> 0 \<le> msLeft ms' \<and>
    int (mrSettledCount (msTotal ms')) + msLeft ms' = int (mrSettledCount (msTotal ms)) + msLeft ms"
  using assms
proof (induction tenants arbitrary: ms s)
  case Nil
  then show ?case by simp
next
  case (Cons n tenants)
  show ?case
  proof (cases "budgetExhausted (msLeft ms)")
    case True
    then show ?thesis using Cons.prems by simp
  next
    case False
    obtain part err left' s1 where run: "maintainTenant n now (msLeft ms) s = ((part, err, left'), s1)"
      by (cases "maintainTenant n now (msLeft ms) s") auto
    have facts: "mrQuarantined part = []" "reachable s1" "0 \<le> left'" "int (mrSettledCount part) + left' = msLeft ms"
      using maintainTenant_facts [OF Cons.prems(1) run [unfolded maintainTenant_def] Cons.prems(3)]
      by (simp_all add: zeroMaintain_def)
    define ms1 where "ms1 = ms\<lparr>msTotal := (msTotal ms)\<lparr>mrQuarantined := [],
        mrSettledCount := mrSettledCount (msTotal ms) + mrSettledCount part\<rparr>, msLeft := left'\<rparr>"
    have unfold: "maintainGroups now (n # tenants) ms s =
        (case moneyAdd (mrSettledAmount (msTotal ms)) (mrSettledAmount part) of
           Inl e \<Rightarrow> ((Some e, ms1), s1)
         | Inr amount \<Rightarrow> maintainGroups now tenants (ms1\<lparr>msTotal := (msTotal ms1)\<lparr>mrSettledAmount := amount\<rparr>,
                      msProgressed := (msProgressed ms \<or> mrSettledCount part > 0),
                      msFailed := msFailed ms @ (case err of None \<Rightarrow> [] | Some e \<Rightarrow> [e])\<rparr>) s1)"
      using False Cons.prems(4) facts(1) by (simp add: run Let_def ms1_def cong: sum.case_cong)
    show ?thesis
    proof (cases "moneyAdd (mrSettledAmount (msTotal ms)) (mrSettledAmount part)")
      case (Inl e)
      then show ?thesis using Cons.prems(2) facts unfolding unfold by (auto simp: ms1_def)
    next
      case (Inr amount)
      then have rest: "maintainGroups now tenants (ms1\<lparr>msTotal := (msTotal ms1)\<lparr>mrSettledAmount := amount\<rparr>,
                      msProgressed := (msProgressed ms \<or> mrSettledCount part > 0),
                      msFailed := msFailed ms @ (case err of None \<Rightarrow> [] | Some e \<Rightarrow> [e])\<rparr>) s1 = ((r, ms'), s')"
        using Cons.prems(2) unfolding unfold by simp
      from Cons.IH [OF facts(2) rest] show ?thesis using facts by (simp add: ms1_def)
    qed
  qed
qed

lemma View_same: "View q s = (r, s') \<Longrightarrow> s' = s"
  by (auto simp: View_def split: if_splits)

lemma maintainRounds_facts:
  assumes "reachable s" "maintainRounds rounds now ms s = ((tot, errs), s')" "0 \<le> msLeft ms" "mrQuarantined (msTotal ms) = []"
  shows "mrQuarantined tot = [] \<and> reachable s' \<and> int (mrSettledCount tot) \<le> int (mrSettledCount (msTotal ms)) + msLeft ms"
  using assms
proof (induction rounds arbitrary: ms s)
  case 0
  then show ?case by auto
next
  case (Suc rounds)
  show ?case
  proof (cases "budgetExhausted (msLeft ms)")
    case True
    then show ?thesis using Suc.prems by auto
  next
    case False
    obtain r s1 where view: "View (rdDueWork now maintainWorkBatch) s = (r, s1)" by fastforce
    have s1: "s1 = s" by (rule View_same [OF view])
    show ?thesis
    proof (cases r)
      case (Inl e)
      then show ?thesis using Suc.prems False view s1 by auto
    next
      case (Inr batch)
      show ?thesis
      proof (cases "batch = []")
        case True
        then show ?thesis using Suc.prems False view s1 Inr by auto
      next
        case nonempty: False
        obtain res ms' s2 where groups: "maintainGroups now (map fst (groupByTenant batch)) (ms\<lparr>msProgressed := False\<rparr>) s1 = ((res, ms'), s2)"
          by (cases "maintainGroups now (map fst (groupByTenant batch)) (ms\<lparr>msProgressed := False\<rparr>) s1") auto
        have facts: "mrQuarantined (msTotal ms') = []" "reachable s2" "0 \<le> msLeft ms'"
          "int (mrSettledCount (msTotal ms')) + msLeft ms' = int (mrSettledCount (msTotal ms)) + msLeft ms"
          using maintainGroups_facts [OF _ groups] Suc.prems s1 by auto
        show ?thesis
        proof (cases res)
          case (Some e)
          then show ?thesis using Suc.prems(2) False view Inr nonempty groups facts by auto
        next
          case None
          show ?thesis
          proof (cases "msProgressed ms'")
            case True
            then have "maintainRounds rounds now ms' s2 = ((tot, errs), s')"
              using Suc.prems(2) False view Inr nonempty groups None by simp
            from Suc.IH [OF facts(2) this facts(3,1)] show ?thesis using facts(4) by simp
          next
            case stuck: False
            then show ?thesis using Suc.prems(2) False view Inr nonempty groups None facts by auto
          qed
        qed
      qed
    qed
  qed
qed

text \<open>
  C28. A maintenance call on a reachable state never quarantines a commission (what the due index
  yields are pending accruals with something left to settle), settles at most
  \<open>maxSettlePerMaintain\<close> commissions whatever the number of tenants and rounds, and leaves a
  reachable state, so that every other theorem of this file applies after it.
\<close>

theorem maintain_bounded:
  assumes "reachable s" "Maintain l s = ((tot, errs), s')"
  shows "mrQuarantined tot = [] \<and> int (mrSettledCount tot) \<le> maxSettlePerMaintain \<and> reachable s'"
  using maintainRounds_facts [OF assms(1) assms(2) [unfolded Maintain_def]]
  by (simp add: zeroMaintain_def maxSettlePerMaintain_def)

theorem maintain_bounded_witness:
  "reachable (snd (Maintain (demoLedger (day 2)) demo3)) \<and> mrQuarantined (fst (fst (Maintain (demoLedger (day 2)) demo3))) = []"
proof -
  obtain tot errs s' where run: "Maintain (demoLedger (day 2)) demo3 = ((tot, errs), s')"
    by (cases "Maintain (demoLedger (day 2)) demo3") auto
  show ?thesis using maintain_bounded [OF demo_reachable(3) run] by (simp add: run)
qed

end
