(* ===== verification/History.thy ===== *)
theory History
  imports Guarantees
begin

text \<open>
  What stays: records over time, the identity of records, replays, and the atomicity of calls.
\<close>

subsection \<open>Nothing recorded is lost\<close>

lemma rowsGrewD: "rowsGrew R m0 m \<Longrightarrow> m0 k = Some v \<Longrightarrow> \<exists>v'. m k = Some v' \<and> R v v'"
  by (simp add: rowsGrew_def)

text \<open>
  C26. Over any sequence of steps a commission keeps its order, item, agent, level, base, amount and
  parent, moves only along legal transitions, and once its settlement date is fixed (by the first
  receipt) the date never changes; a withdrawal keeps its user and amounts and moves only along
  legal transitions; refund vouchers never change; a used idempotency key stays taken by the
  same record.
\<close>

theorem history_kept:
  assumes "reachable s" "ledger_step\<^sup>*\<^sup>* s s'"
  shows "(\<forall>i c. dCommissions (stData s) i = Some c \<longrightarrow> (\<exists>c'. dCommissions (stData s') i = Some c' \<and>
       cKey c' = cKey c \<and> cOrderItemID c' = cOrderItemID c \<and> cAgentUserID c' = cAgentUserID c \<and> cLayer c' = cLayer c \<and>
       cBaseAmount c' = cBaseAmount c \<and> cAmount c' = cAmount c \<and> cReverseOf c' = cReverseOf c \<and>
       CanTransitionCommission\<^sup>*\<^sup>* (cState c) (cState c') \<and> (cAvailableAt c \<noteq> 0 \<longrightarrow> cAvailableAt c' = cAvailableAt c))) \<and>
    (\<forall>i w. dWithdrawals (stData s) i = Some w \<longrightarrow> (\<exists>w'. dWithdrawals (stData s') i = Some w' \<and>
       wKey w' = wKey w \<and> wAmount w' = wAmount w \<and> wFee w' = wFee w \<and> wRealAmount w' = wRealAmount w \<and>
       CanTransitionWithdrawal\<^sup>*\<^sup>* (wState w) (wState w'))) \<and>
    (\<forall>i r. dRefunds (stData s) i = Some r \<longrightarrow> dRefunds (stData s') i = Some r) \<and>
    (\<forall>k i. dIdem (stData s) k = Some i \<longrightarrow> dIdem (stData s') k = Some i)"
proof -
  have grew: "rowsGrew commissionGrew (dCommissions (stData s)) (dCommissions (stData s'))"
    "rowsGrew withdrawalGrew (dWithdrawals (stData s)) (dWithdrawals (stData s'))"
    "rowsGrew (=) (dRefunds (stData s)) (dRefunds (stData s'))" "rowsGrew (=) (dIdem (stData s)) (dIdem (stData s'))"
    using steps_history [OF assms] by (simp_all add: historyInv_def grewFrom_def)
  have "\<exists>c'. dCommissions (stData s') i = Some c' \<and>
       cKey c' = cKey c \<and> cOrderItemID c' = cOrderItemID c \<and> cAgentUserID c' = cAgentUserID c \<and> cLayer c' = cLayer c \<and>
       cBaseAmount c' = cBaseAmount c \<and> cAmount c' = cAmount c \<and> cReverseOf c' = cReverseOf c \<and>
       CanTransitionCommission\<^sup>*\<^sup>* (cState c) (cState c') \<and> (cAvailableAt c \<noteq> 0 \<longrightarrow> cAvailableAt c' = cAvailableAt c)"
    if row: "dCommissions (stData s) i = Some c" for i c
  proof -
    obtain c' where c': "dCommissions (stData s') i = Some c'" "commissionGrew c c'"
      using rowsGrewD [OF grew(1) row] by auto
    then have "sameCommission c c'" by (simp add: commissionGrew_def)
    note same = sameCommission_fields [OF this]
    show ?thesis using c' same by (intro exI [of _ c']) (simp add: commissionGrew_def)
  qed
  moreover have "\<exists>w'. dWithdrawals (stData s') i = Some w' \<and>
       wKey w' = wKey w \<and> wAmount w' = wAmount w \<and> wFee w' = wFee w \<and> wRealAmount w' = wRealAmount w \<and>
       CanTransitionWithdrawal\<^sup>*\<^sup>* (wState w) (wState w')" if row: "dWithdrawals (stData s) i = Some w" for i w
    using rowsGrewD [OF grew(2) row] by (auto simp: withdrawalGrew_def)
  moreover have "dRefunds (stData s') i = Some r" if "dRefunds (stData s) i = Some r" for i r
    using rowsGrewD [OF grew(3) that] by simp
  moreover have "dIdem (stData s') k = Some i" if "dIdem (stData s) k = Some i" for k i
    using rowsGrewD [OF grew(4) that] by simp
  ultimately show ?thesis by blast
qed

theorem history_kept_witness:
  "\<exists>c'. dCommissions (stData (snd (FreezeCommission 1 1 [] demo3))) 1 = Some c' \<and> cAmount c' = 500"
proof -
  obtain r s' where run: "FreezeCommission 1 1 [] demo3 = (r, s')" by fastforce
  have step: "ledger_step\<^sup>*\<^sup>* demo3 s'" using ledger_step.freeze [OF run] by blast
  have row: "dCommissions (stData demo3) 1 = Some demoC" by (simp add: demo3_data)
  obtain c' where "dCommissions (stData s') 1 = Some c'" "cAmount c' = cAmount demoC"
    using history_kept [OF demo_reachable(3) step, THEN conjunct1, rule_format, OF row] by auto
  then show ?thesis by (simp add: run demoC_fields)
qed

text \<open>
  C33. In a reachable state no two commissions of a tenant share an idempotency key, no two withdrawals
  of a tenant do, and no two refund vouchers of a tenant do; every record has the id it is stored
  under, and the next id is fresh.
\<close>

theorem keys_identify:
  assumes "reachable s"
  shows "(\<forall>i j c c'. dCommissions (stData s) i = Some c \<longrightarrow> dCommissions (stData s) j = Some c' \<longrightarrow>
      okTenantID (cKey c) = okTenantID (cKey c') \<longrightarrow> cIdemKey c = cIdemKey c' \<longrightarrow> i = j) \<and>
    (\<forall>i j w w'. dWithdrawals (stData s) i = Some w \<longrightarrow> dWithdrawals (stData s) j = Some w' \<longrightarrow>
      ukTenantID (wKey w) = ukTenantID (wKey w') \<longrightarrow> wIdemKey w = wIdemKey w' \<longrightarrow> i = j) \<and>
    (\<forall>i j r r'. dRefunds (stData s) i = Some r \<longrightarrow> dRefunds (stData s) j = Some r' \<longrightarrow>
      okTenantID (rfKey r) = okTenantID (rfKey r') \<longrightarrow> rfIdemKey r = rfIdemKey r' \<longrightarrow> i = j) \<and>
    (\<forall>i c. dCommissions (stData s) i = Some c \<longrightarrow> cID c = i \<and> 1 \<le> i \<and> i \<le> dNextID (stData s))"
proof -
  note parts = storeWf_parts [OF wf_steps.reachable_holds [OF assms]]
  have c: "keyIndex (dIdem (stData s)) (dCommissions (stData s)) commissionRef" using parts(2) by (simp add: commissionsWf_def)
  have w: "keyIndex (dWithdrawIdem (stData s)) (dWithdrawals (stData s)) withdrawalRef" using parts(5) by (simp add: withdrawalsWf_def)
  have r: "keyIndex (dRefundIdem (stData s)) (dRefunds (stData s)) refundRef" using parts(3) by (simp add: refundsWf_def)
  have uniq: "i = j" if "keyIndex ix m key" "m i = Some x" "m j = Some y" "key x = key y"
    for ix :: "idem_ref \<rightharpoonup> int" and m :: "int \<rightharpoonup> 'v" and key i j x y
  proof -
    have "ix (key x) = Some i" "ix (key x) = Some j" using that unfolding keyIndex_def by metis+
    then show ?thesis by simp
  qed
  show ?thesis
    using uniq [OF c] uniq [OF w] uniq [OF r] parts(7)
    by (simp add: commissionRef_def withdrawalRef_def refundRef_def idsUpTo_def)
qed

theorem keys_identify_witness: "cID demoC = 1 \<and> 1 \<le> dNextID (stData demo3)"
proof -
  have "dCommissions (stData demo3) 1 = Some demoC" by (simp add: demo3_data)
  with keys_identify [OF demo_reachable(3)] show ?thesis by (meson order_trans)
qed

subsection \<open>Atomic calls\<close>



subsection \<open>Relation chains\<close>

text \<open>
  C27. In every reachable state the chain of an agent, followed from the agent to the root, has
  exactly as many members as the agent's recorded depth, which is at most \<open>MaxLevels\<close>; the members
  are registered agents of the same tenant and no one occurs twice.
\<close>

theorem chains_finite:
  assumes "reachable s" "dAgents (stData s) k = Some a" "nat MaxLevels \<le> n"
  shows "int (length (lineage (stData s) n k)) = agDepth a \<and> agDepth a \<le> MaxLevels \<and> distinct (lineage (stData s) n k) \<and>
    (\<forall>j\<in>set (lineage (stData s) n k). dAgents (stData s) j \<noteq> None \<and> ukTenantID j = ukTenantID k)"
proof -
  have ok: "chainOk (stData s)" using chain_steps.reachable_holds [OF assms(1)] .
  have depth: "1 \<le> agDepth a" "agDepth a \<le> MaxLevels" using chainOkD [OF ok assms(2)] by (simp_all add: parentOk_def)
  then have "agDepth a \<le> int n" using assms(3) by simp
  note line = lineage_depths [OF ok assms(2) this]
  from line have "length (lineage (stData s) n k) = length (rev [1..agDepth a])" by (metis length_map)
  moreover from line have "distinct (map (\<lambda>j. agDepth (the (dAgents (stData s) j))) (lineage (stData s) n k))" by simp
  then have "distinct (lineage (stData s) n k)" by (simp add: distinct_map)
  ultimately show ?thesis using depth line by simp
qed

theorem chains_finite_witness: "int (length (lineage (stData demo3) 9 (UserKey 1 10))) = 1"
proof -
  have "nat MaxLevels \<le> 9" by (simp add: MaxLevels_def)
  from chains_finite [OF demo_reachable(3) demo3_data(4) this] show ?thesis by (simp add: demoAgent10_def)
qed

end
