(* ===== verification/AccrualSpec.thy ===== *)
theory AccrualSpec
  imports History
begin

text \<open>
  What a payment books: at most the allocation cap of every base, one positive pending accrual per
  level, each of them stored; and nothing at all when the order was booked before.
\<close>

subsection \<open>One level\<close>

text \<open>A refused duplicate leaves the state, and the loop goes on without the row.\<close>

lemma append_or_duplicate:
  assumes run: "attempt (AppendCommission r) (\<lambda>rc. case rc of
      Inl e \<Rightarrow> if e = ErrDuplicate then skipped else throw e
    | Inr c \<Rightarrow> andThen (creditAccrual c now) (\<lambda>_. booked c)) t = (Inr x, t')"
  obtains (duplicate) "skipped t = (Inr x, t')"
  | (booked) c t1 t2 where "AppendCommission r t = (Inr c, t1)" "creditAccrual c now t1 = (Inr (), t2)"
      "booked c t2 = (Inr x, t')"
proof -
  obtain rc t1 where app: "AppendCommission r t = (rc, t1)" by fastforce
  show ?thesis
  proof (cases rc)
    case (Inl e)
    have "t1 = t" using writer_Inl(5) app Inl by blast
    then show ?thesis using run app Inl duplicate unfolding attempt_run by (auto simp: throw_def split: if_split_asm)
  next
    case (Inr c)
    then have "andThen (creditAccrual c now) (\<lambda>_. booked c) t1 = (Inr x, t')" using run app unfolding attempt_run by simp
    then obtain u t2 where "creditAccrual c now t1 = (Inr u, t2)" "booked c t2 = (Inr x, t')" by (rule andThen_InrE)
    then show ?thesis using booked [OF app [unfolded Inr]] by simp
  qed
qed

lemma accrueLayers_step:
  assumes "accrueLayers l ev base cap (layer # layers) ag allocated result t = (Inr result', t')"
  obtains (stop) "arCommissions result' = arCommissions result" "t' = t"
  | (skip) ag1 result1 where "arCommissions result1 = arCommissions result"
      "accrueLayers l ev base cap layers ag1 allocated result1 t = (Inr result', t')"
  | (book) ag1 result1 rate amount c t1 t2 where "\<not> amount <=s 0" "\<not> (cap - allocated) <s amount"
      "AppendCommission (accrualRecord l ev base ag layer rate amount) t = (Inr c, t1)"
      "creditAccrual c (lNow l) t1 = (Inr (), t2)" "arCommissions result1 = arCommissions result @ [c]"
      "accrueLayers l ev base cap layers ag1 (allocated + amount) result1 t2 = (Inr result', t')"
proof (cases "ag = 0")
  case True
  then show ?thesis using assms stop by (auto simp: accrueSkip_def)
next
  case ag: False
  obtain look where look: "rdAgent (UserKey (epTenantID ev) ag) (txD t) = look" by simp
  show ?thesis
  proof (cases look)
    case (Inl e)
    then show ?thesis using assms ag look stop by (auto simp: attempt_run rd_run throw_def ret_def accrueSkip_def split: if_splits)
  next
    case (Inr agent)
    let ?check = "if layer > 1 then lElig l \<lparr>eiAgent = agent, eiOrder = epOrderKey ev, eiBuyerUserID = epBuyerUserID ev\<rparr>
                       else (True, [])"
    show ?thesis
    proof (cases "fst ?check")
      case False
      then show ?thesis
        using assms ag look Inr skip [of "accrueSkip layer ag SkipIneligible (snd ?check) result" "agParentID agent"]
        by (simp add: attempt_run rd_run accrueSkip_def Let_def)
    next
      case check: True
      obtain rate where rate: "lRates l \<lparr>riOrder = epOrderKey ev, riLayer = layer, riAgent = agent, riRules = lRules l\<rparr> = Inr rate"
        using assms ag look Inr check by (auto simp: attempt_run rd_run Let_def throw_def split: sum.splits)
      obtain wanted where wanted: "moneyApply (abAmount base) rate (rRounding (lRules l)) = Inr wanted"
        using assms ag look Inr check rate by (auto simp: attempt_run rd_run Let_def throw_def split: sum.splits)
      let ?amount = "if (cap - allocated) <s wanted then cap - allocated else wanted"
      let ?result = "if (cap - allocated) <s wanted
                     then accrueSkip layer ag SkipCapExhausted
                            (''amount '' @ moneyString wanted @ '' truncated to remaining '' @ moneyString (cap - allocated)) result
                     else result"
      have unfold: "accrueLayers l ev base cap (layer # layers) ag allocated result t =
         (if ?amount <=s 0
          then accrueLayers l ev base cap layers (agParentID agent) allocated
                 (accrueSkip layer ag SkipZeroAmount (''rate '' @ rateString rate @ '' yields zero'') ?result)
          else attempt (AppendCommission (accrualRecord l ev base ag layer rate ?amount)) (\<lambda>rc. case rc of
            Inl e \<Rightarrow>
              if e = ErrDuplicate
              then accrueLayers l ev base cap layers (agParentID agent) allocated ?result
              else throw e
          | Inr c \<Rightarrow>
              andThen (creditAccrual c (lNow l)) (\<lambda>_.
                accrueLayers l ev base cap layers (agParentID agent) (allocated + ?amount)
                  (?result\<lparr>arCommissions := arCommissions ?result @ [c]\<rparr>)))) t"
        by (simp only: accrueLayers.simps(2) if_not_P [OF ag] attempt_run rd_run fst_conv snd_conv look Inr sum.case Let_def
            check not_True_eq_False if_False rate wanted)
      note run = assms [unfolded unfold]
      have keep: "arCommissions ?result = arCommissions result" by (simp add: accrueSkip_def)
      show ?thesis
      proof (cases "?amount <=s 0")
        case True
        note run' = run [unfolded if_P [OF True]]
        show ?thesis by (rule skip [OF _ run']) (simp add: accrueSkip_def)
      next
        case pos: False
        note run' = run [unfolded if_not_P [OF pos]]
        from run' show ?thesis
        proof (cases rule: append_or_duplicate)
          case duplicate
          then show ?thesis by (rule skip [OF keep])
        next
          case (booked c t1 t2)
          show ?thesis
            by (rule book [OF pos _ booked(1,2) _ booked(3)]) (simp_all add: sless_sint accrueSkip_def)
        qed
      qed
    qed
  qed
qed

subsection \<open>One base\<close>

lemma room_exact:
  assumes "0 \<le> sint allocated" "sint allocated \<le> sint cap" "\<not> amount <=s 0" "\<not> (cap - allocated) <s amount"
  shows "0 < sint amount" "sint (allocated + amount) = sint allocated + sint amount"
    "sint allocated + sint amount \<le> sint (cap :: money)"
proof -
  have "in64 (sint cap - sint allocated)" using assms(1,2) sint_upper [of cap] sint_lower [of cap] by (simp add: in64_def)
  then have "sint (cap - allocated) = sint cap - sint allocated" by (rule sint_sub64)
  then show pos: "0 < sint amount" and le: "sint allocated + sint amount \<le> sint cap"
    using assms(3,4) by (simp_all add: sle_sint sless_sint)
  then have "in64 (sint allocated + sint amount)" using assms(1) sint_upper [of cap] by (simp add: in64_def)
  then show "sint (allocated + amount) = sint allocated + sint amount" by (rule sint_add64)
qed

text \<open>What one level of one base books.\<close>

definition accruedFor :: "order_paid_event \<Rightarrow> accrual_base \<Rightarrow> commission \<Rightarrow> bool" where
  "accruedFor ev base c \<longleftrightarrow> 0 < sint (cAmount c) \<and> cKey c = epOrderKey ev \<and> cOrderItemID c = abItemID base \<and>
     cBuyerUserID c = epBuyerUserID ev \<and> cBaseAmount c = abAmount base \<and> cState c = CommissionPending \<and>
     cReversedAmount c = 0 \<and> cReverseOf c = 0"

lemma accruedFor_record:
  assumes "AppendCommission (accrualRecord l ev base ag layer rate amount) t = (Inr c, t1)" "\<not> amount <=s 0"
  shows "accruedFor ev base c" "cAmount c = amount" "cLayer c = layer"
  using AppendCommission_Inr(2) [OF assms(1)] assms(2)
  by (simp_all add: accruedFor_def accrualRecord_def zeroCommission_def sle_sint)

text \<open>The table after new rows, each under an id that was free.\<close>

fun rowsAdded :: "commission list \<Rightarrow> (int \<rightharpoonup> commission) \<Rightarrow> (int \<rightharpoonup> commission) \<Rightarrow> bool" where
  "rowsAdded [] m m' \<longleftrightarrow> m' = m"
| "rowsAdded (c # cs) m m' \<longleftrightarrow> m (cID c) = None \<and> rowsAdded cs (m(cID c \<mapsto> c)) m'"

lemma rowsAdded_append: "rowsAdded (xs @ ys) m m' \<longleftrightarrow> (\<exists>m1. rowsAdded xs m m1 \<and> rowsAdded ys m1 m')"
  by (induction xs arbitrary: m) auto

lemma rowsAdded_kept: "rowsAdded cs m m' \<Longrightarrow> m i = Some x \<Longrightarrow> m' i = Some x"
proof (induction cs arbitrary: m)
  case (Cons c cs)
  have "rowsAdded cs (m(cID c \<mapsto> c)) m'" "(m(cID c \<mapsto> c)) i = Some x" using Cons.prems by auto
  then show ?case by (rule Cons.IH)
qed simp

lemma rowsAdded_rows: "rowsAdded cs m m' \<Longrightarrow> m' i = Some x \<Longrightarrow> m i = Some x \<or> x \<in> set cs"
  by (induction cs arbitrary: m) (fastforce split: if_splits)+

lemma rowsAdded_new: "rowsAdded cs m m' \<Longrightarrow> c \<in> set cs \<Longrightarrow> m' (cID c) = Some c"
  by (induction cs arbitrary: m) (auto intro: rowsAdded_kept)

lemma rowsAdded_sum: "rowsAdded cs m m' \<Longrightarrow> finite (dom m) \<Longrightarrow> mapSum f m' = mapSum f m + (\<Sum>c\<leftarrow>cs. f c)"
  by (induction cs arbitrary: m) (auto simp: mapSum_new)

lemma AppendCommission_added:
  assumes "storeWf (txD t)" "AppendCommission c0 t = (Inr c, t1)"
  shows "rowsAdded [c] (dCommissions (txD t)) (dCommissions (txD t1))"
proof -
  note eff = AppendCommission_Inr [OF assms(2)]
  have "dCommissions (txD t) (cID c) = None" using idsUpTo_fresh [OF storeWf_parts(7) [OF assms(1)]] eff(2) by simp
  then show ?thesis using eff(1) by (simp add: addCommission_def)
qed

lemma creditAccrual_rows: "creditAccrual c now t = (Inr u, t') \<Longrightarrow> dCommissions (txD t') = dCommissions (txD t)"
  by (auto simp: creditAccrual_def Let_def andThen_Inr_iff addAccount_def addLedger_def elim!: IncrementAccount_Inr
      dest!: AppendLedger_Inr(1))

definition booked :: "order_paid_event \<Rightarrow> accrual_base \<Rightarrow> int list \<Rightarrow> data \<Rightarrow> commission list \<Rightarrow> bool" where
  "booked ev base layers d new \<longleftrightarrow> distinct (map cLayer new) \<and>
     (\<forall>c\<in>set new. accruedFor ev base c \<and> cLayer c \<in> set layers \<and> dCommissions d (cID c) = Some c)"

lemma accrueLayers_books:
  assumes "accrueLayers l ev base cap layers ag allocated result t = (Inr result', t')" "distinct layers"
    "0 \<le> sint allocated" "sint allocated \<le> sint cap" "storeWf (txD t)"
  shows "\<exists>new. arCommissions result' = arCommissions result @ new \<and> booked ev base layers (txD t') new \<and>
    sint allocated + (\<Sum>c\<leftarrow>new. sint (cAmount c)) \<le> sint cap \<and> storeWf (txD t') \<and>
    rowsAdded new (dCommissions (txD t)) (dCommissions (txD t'))"
  using assms
proof (induction layers arbitrary: ag allocated result t)
  case Nil
  then show ?case by (auto simp: booked_def)
next
  case (Cons layer layers)
  from Cons.prems(1) show ?case
  proof (cases rule: accrueLayers_step)
    case stop
    then show ?thesis using Cons.prems by (auto simp: booked_def)
  next
    case (skip ag1 result1)
    obtain new where "arCommissions result' = arCommissions result1 @ new" "booked ev base layers (txD t') new"
      "sint allocated + (\<Sum>c\<leftarrow>new. sint (cAmount c)) \<le> sint cap" "storeWf (txD t')"
      "rowsAdded new (dCommissions (txD t)) (dCommissions (txD t'))"
      using Cons.IH [OF skip(2)] Cons.prems by auto
    then show ?thesis using skip(1) by (intro exI [of _ new]) (auto simp: booked_def)
  next
    case (book ag1 result1 rate amount c t1 t2)
    note room = room_exact [OF Cons.prems(3,4) book(1,2)]
    have wf1: "storeWf (txD t1)" by (rule storeWf_AppendCommission [OF Cons.prems(5) book(3)])
    have wf2: "storeWf (txD t2)" using keeps_resultD [OF wf_inv.keeps_creditAccrual wf1 book(4)] .
    have rows2: "dCommissions (txD t2) = dCommissions (txD t1)" by (rule creditAccrual_rows [OF book(4)])
    note row = AppendCommission_added [OF Cons.prems(5) book(3)]
    obtain new where new: "arCommissions result' = arCommissions result1 @ new" "booked ev base layers (txD t') new"
      "sint allocated + sint amount + (\<Sum>c\<leftarrow>new. sint (cAmount c)) \<le> sint cap" "storeWf (txD t')"
      "rowsAdded new (dCommissions (txD t2)) (dCommissions (txD t'))"
      using Cons.IH [OF book(6) _ _ _ wf2] Cons.prems(2,3) room by auto
    note rec = accruedFor_record [OF book(3,1)]
    have added: "rowsAdded (c # new) (dCommissions (txD t)) (dCommissions (txD t'))"
      using row new(5) rows2 by simp
    have "booked ev base (layer # layers) (txD t') (c # new)"
      using new(2) rec rowsAdded_new [OF added] Cons.prems(2) by (auto simp: booked_def)
    then show ?thesis using new book(5) rec(2) added by (intro exI [of _ "c # new"]) auto
  qed
qed

subsection \<open>All bases\<close>

lemma cap_bounds:
  assumes "moneyApply m r RoundDown = Inr cap" "0 \<le> sint m"
  shows "0 \<le> sint cap" "sint cap \<le> sint m"
proof -
  have valid: "rateValid r" using assms(1) by (auto simp: moneyApply_def split: if_splits)
  have mode: "roundingValid RoundDown" by (simp add: roundingValid_def)
  note q = moneyApply_quotient [OF valid mode, of m]
  let ?q = "roundQuot (RoundDown = RoundUp) (RoundDown = RoundHalfUp) (nat \<bar>sint m\<bar> * nat r) 10000"
  have "?q \<le> 9223372036854775807" using q(1) assms(2) sint_upper [of m] by linarith
  then obtain x where "moneyApply m r RoundDown = Inr x" "sint x = sgn (sint m) * int ?q" using q(2) by blast
  then have "sint cap = sgn (sint m) * int ?q" using assms(1) by simp
  then show "0 \<le> sint cap" "sint cap \<le> sint m" using assms(2) q(1) by (auto simp: sgn_if)
qed

definition cappedBy :: "ledger \<Rightarrow> accrual_base \<Rightarrow> commission list \<Rightarrow> bool" where
  "cappedBy l b cs \<longleftrightarrow> (\<exists>cap. moneyApply (abAmount b) (rMaxAllocatableBP (lRules l)) RoundDown = Inr cap \<and>
     (\<Sum>c\<leftarrow>cs. sint (cAmount c)) \<le> sint cap)"

definition accruals :: "ledger \<Rightarrow> order_paid_event \<Rightarrow> data \<Rightarrow> accrual_base \<Rightarrow> commission list \<Rightarrow> bool" where
  "accruals l ev d b cs \<longleftrightarrow> booked ev b [1..rLevels (lRules l)] d cs \<and> cappedBy l b cs"

lemma accruals_mono:
  "accruals l ev d b cs \<Longrightarrow> (\<And>i x. dCommissions d i = Some x \<Longrightarrow> dCommissions d' i = Some x) \<Longrightarrow> accruals l ev d' b cs"
  by (auto simp: accruals_def booked_def)

lemma accrueBases_books:
  assumes "loopM (\<lambda>base (allocatedBase, result).
         case moneyAdd allocatedBase (abAmount base) of
           Inl e \<Rightarrow> throw e
         | Inr next \<Rightarrow> andThen (accrueBase l ev first base result) (\<lambda>result. ret (next, result)))
       bs (tot, result) t = (Inr (tot', result'), t')"
    "\<And>b. b \<in> set bs \<Longrightarrow> 0 \<le> sint (abAmount b)" "storeWf (txD t)"
  shows "\<exists>ns. arCommissions result' = arCommissions result @ concat ns \<and> list_all2 (accruals l ev (txD t')) bs ns \<and>
    storeWf (txD t') \<and> rowsAdded (concat ns) (dCommissions (txD t)) (dCommissions (txD t'))"
  using assms
proof (induction bs arbitrary: tot result t)
  case Nil
  then show ?case by auto
next
  case (Cons b bs)
  obtain tot1 result1 t1 where one: "(case moneyAdd tot (abAmount b) of
           Inl e \<Rightarrow> throw e
         | Inr next \<Rightarrow> andThen (accrueBase l ev first b result) (\<lambda>result. ret (next, result))) t = (Inr (tot1, result1), t1)"
    and rest: "loopM (\<lambda>base (allocatedBase, result).
         case moneyAdd allocatedBase (abAmount base) of
           Inl e \<Rightarrow> throw e
         | Inr next \<Rightarrow> andThen (accrueBase l ev first base result) (\<lambda>result. ret (next, result)))
       bs (tot1, result1) t1 = (Inr (tot', result'), t')"
    using Cons.prems(1) by (auto simp: andThen_Inr_iff)
  have "accrueBase l ev first b result t = (Inr result1, t1)"
    using one by (auto simp: andThen_Inr_iff split: sum.splits)
  then obtain cap where cap: "moneyApply (abAmount b) (rMaxAllocatableBP (lRules l)) RoundDown = Inr cap"
    and run: "accrueLayers l ev b cap [1..rLevels (lRules l)] first 0 result t = (Inr result1, t1)"
    by (auto simp: accrueBase_def split: sum.splits)
  have cap0: "0 \<le> sint cap" using cap_bounds(1) [OF cap] Cons.prems(2) by simp
  obtain n where n: "arCommissions result1 = arCommissions result @ n" "booked ev b [1..rLevels (lRules l)] (txD t1) n"
    "(\<Sum>c\<leftarrow>n. sint (cAmount c)) \<le> sint cap" "storeWf (txD t1)"
    "rowsAdded n (dCommissions (txD t)) (dCommissions (txD t1))"
    using accrueLayers_books [OF run _ _ _ Cons.prems(3)] cap0 by auto
  obtain ns where ns: "arCommissions result' = arCommissions result1 @ concat ns" "list_all2 (accruals l ev (txD t')) bs ns"
    "storeWf (txD t')" "rowsAdded (concat ns) (dCommissions (txD t1)) (dCommissions (txD t'))"
    using Cons.IH [OF rest _ n(4)] Cons.prems(2) by auto
  have "accruals l ev (txD t1) b n" using n(2,3) cap by (auto simp: accruals_def cappedBy_def)
  then have "accruals l ev (txD t') b n" by (rule accruals_mono) (rule rowsAdded_kept [OF ns(4)])
  then show ?case using ns n by (intro exI [of _ "n # ns"]) (auto simp: rowsAdded_append)
qed

lemma orderPaidBody_runs:
  assumes "orderPaidBody l ev t = (Inr r, t')"
  shows "arCommissions r = [] \<and> t' = t \<or> (\<exists>first r0 tot r1. accrueBases l ev first r0 t = (Inr (tot, r1), t') \<and>
    arCommissions r0 = [] \<and> arCommissions r = arCommissions r1 \<and> rdCommissionsByOrder (epOrderKey ev) (txD t) = Inr [])"
proof -
  have none: "arCommissions (accrueSkip a b c d r0) = arCommissions r0" for a b c d r0 by (simp add: accrueSkip_def)
  have empty: "arCommissions (newAccrueResult k) = []" for k by (simp add: newAccrueResult_def)
  note run1 = assms [unfolded orderPaidBody_def Let_def andThen_def, unfolded attempt_run rd_run]
  obtain existing where existing: "rdCommissionsByOrder (epOrderKey ev) (txD t) = Inr existing"
    using run1 by (cases "rdCommissionsByOrder (epOrderKey ev) (txD t)") (auto simp: throw_def)
  show ?thesis
  proof (cases "existing = []")
    case False
    then show ?thesis using run1 [simplified existing] none empty by (auto simp: ret_def throw_def split: if_split_asm)
  next
    case True
    note run2 = run1 [simplified existing True, simplified, unfolded attempt_run rd_run]
    show ?thesis
    proof (cases "rdBinding (UserKey (epTenantID ev) (epBuyerUserID ev)) (txD t)")
      case (Inl e)
      then show ?thesis using run2 none empty by (auto simp: ret_def throw_def split: if_split_asm)
    next
      case b: (Inr b)
      show ?thesis
      proof (cases "rdAgent (UserKey (epTenantID ev) (bAgentUserID b)) (txD t)")
        case (Inl e)
        then show ?thesis using run2 b none empty
          by (auto simp: ret_def throw_def attempt_run rd_run rdAgent_def split: if_split_asm)
      next
        case agent: (Inr agent)
        let ?r0 = "newAccrueResult (epOrderKey ev) \<lparr>arAttributed := True, arAgentUserID := bAgentUserID b\<rparr>"
        obtain rb tb where loop: "accrueBases l ev (ukUserID (agKey agent)) ?r0 t = (rb, tb)" by fastforce
        show ?thesis
        proof (cases rb)
          case (Inl e)
          then show ?thesis using run2 b agent loop none empty
            by (auto simp: ret_def throw_def attempt_run rd_run rdAgent_def split: if_split_asm)
        next
          case (Inr p)
          obtain tot r1 where p: "p = (tot, r1)" by (cases p)
          have "arCommissions r = [] \<and> t' = t \<or> t' = tb \<and> arCommissions r = arCommissions r1"
            using run2 b agent loop none empty Inr p
            by (auto simp: ret_def throw_def attempt_run rd_run rdAgent_def split: if_split_asm)
          moreover have "arCommissions ?r0 = []" using empty by simp
          ultimately show ?thesis using loop Inr p existing True by blast
        qed
      qed
    qed
  qed
qed

lemma orderPaidBody_books:
  assumes "orderPaidBody l ev t = (Inr r, t')" "storeWf (txD t)" "\<And>b. b \<in> set (basesOf ev) \<Longrightarrow> 0 \<le> sint (abAmount b)"
  shows "rowsAdded (arCommissions r) (dCommissions (txD t)) (dCommissions (txD t')) \<and> (arCommissions r = [] \<or>
    (\<exists>ns. arCommissions r = concat ns \<and> list_all2 (accruals l ev (txD t')) (basesOf ev) ns \<and>
       rdCommissionsByOrder (epOrderKey ev) (txD t) = Inr []))"
  using orderPaidBody_runs [OF assms(1)]
proof (elim disjE exE conjE)
  fix first r0 tot r1
  assume run: "accrueBases l ev first r0 t = (Inr (tot, r1), t')" and r: "arCommissions r0 = []" "arCommissions r = arCommissions r1"
    "rdCommissionsByOrder (epOrderKey ev) (txD t) = Inr []"
  show ?thesis using accrueBases_books [OF run [unfolded accrueBases_def] assms(3,2)] r by auto
qed simp

subsection \<open>A payment\<close>

lemma basesOf_nonneg: "paidValidate ev = None \<Longrightarrow> b \<in> set (basesOf ev) \<Longrightarrow> 0 \<le> sint (abAmount b)"
  using paidValidate_facts [of ev] by (auto simp: basesOf_def split: if_splits)

lemma basesOf_total: "paidValidate ev = None \<Longrightarrow> (\<Sum>b\<leftarrow>basesOf ev. sint (abAmount b)) \<le> sint (epPaidAmount ev)"
  using paidValidate_facts [of ev] by (simp add: basesOf_def o_def)

lemma accruals_total:
  assumes "list_all2 (accruals l ev d) bs ns" "\<And>b. b \<in> set bs \<Longrightarrow> 0 \<le> sint (abAmount b)"
  shows "(\<Sum>c\<leftarrow>concat ns. sint (cAmount c)) \<le> (\<Sum>b\<leftarrow>bs. sint (abAmount b))"
  using assms
proof (induction bs ns rule: list_all2_induct)
  case (Cons b bs n ns)
  obtain cap where cap: "moneyApply (abAmount b) (rMaxAllocatableBP (lRules l)) RoundDown = Inr cap"
    and le: "(\<Sum>c\<leftarrow>n. sint (cAmount c)) \<le> sint cap"
    using Cons.hyps(1) by (auto simp: accruals_def cappedBy_def)
  have "(\<Sum>c\<leftarrow>n. sint (cAmount c)) \<le> sint (abAmount b)"
    using le cap_bounds(2) [OF cap] Cons.prems by simp
  then show ?case using Cons.IH Cons.prems by simp
qed simp

text \<open>
  C5. A payment books, for every base (an item, or the whole order), at most one accrual per level,
  each of a positive amount, pending, on the levels of the rules; the records it returns are exactly
  the rows it adds to the table, each under a free id; the accruals of a base together stay within the allocation cap of that base, and all of them together within
  the amount paid. The sums are on exact integers, and the statement covers any resolver and any
  eligibility policy the ledger is configured with.
\<close>

theorem accrual_capped:
  assumes "reachable s" "OnOrderPaid l ev s = (Inr r, s')"
  shows "rowsAdded (arCommissions r) (dCommissions (stData s)) (dCommissions (stData s')) \<and>
    (arCommissions r = [] \<or>
     (\<exists>ns. arCommissions r = concat ns \<and> list_all2 (accruals l ev (stData s')) (basesOf ev) ns)) \<and>
    (\<Sum>c\<leftarrow>arCommissions r. sint (cAmount c)) \<le> sint (epPaidAmount ev)"
proof -
  have valid: "paidValidate ev = None" and up: "Update (orderPaidBody l ev) s = (Inr r, s')"
    using assms(2) by (auto simp: OnOrderPaid_def throw_def split: option.splits)
  obtain t where run: "orderPaidBody l ev (fresh (stData s)) = (Inr r, t)" and s': "stData s' = txD t"
    using up by (auto elim!: Update_Inr simp: fresh_def)
  have wf: "storeWf (txD (fresh (stData s)))" using wf_steps.reachable_holds [OF assms(1)] by (simp add: fresh_def)
  have added: "rowsAdded (arCommissions r) (dCommissions (stData s)) (dCommissions (stData s'))"
    and books: "arCommissions r = [] \<or>
     (\<exists>ns. arCommissions r = concat ns \<and> list_all2 (accruals l ev (stData s')) (basesOf ev) ns)"
    using orderPaidBody_books [OF run wf basesOf_nonneg [OF valid]] s' by (auto simp: fresh_def)
  from books have "(\<Sum>c\<leftarrow>arCommissions r. sint (cAmount c)) \<le> sint (epPaidAmount ev)"
  proof (elim disjE exE conjE)
    assume "arCommissions r = []"
    then show ?thesis using paidValidate_facts [OF valid] by simp
  next
    fix ns assume ns: "arCommissions r = concat ns" "list_all2 (accruals l ev (stData s')) (basesOf ev) ns"
    show ?thesis
      using accruals_total [OF ns(2) basesOf_nonneg [OF valid]] basesOf_total [OF valid] ns(1) by simp
  qed
  then show ?thesis using books added by simp
qed

theorem accrual_capped_witness:
  "arCommissions demoAccrued = [demoC] \<and> sint (cAmount demoC) \<le> sint (epPaidAmount demoPaid)"
proof -
  have "arCommissions demoAccrued = [demoC]"
    by (simp add: demoAccrued_def accrueSkip_def newAccrueResult_def)
  then show ?thesis using accrual_capped [OF demo_reachable(2) demo3_run] by simp
qed

lemma Update_same:
  assumes "\<not> stClosed s" "fn (fresh (stData s)) = (r, fresh (stData s))"
  shows "Update fn s = (r, s)"
  using assms undoOk_rollback [OF undoOk_fresh, of "stData s"]
  by (simp add: Update_def fresh_def split: sum.splits)

lemma layerOneAgent_find:
  "layerOneAgent cs = (case find (\<lambda>x. cLayer x = 1) cs of None \<Rightarrow> 0 | Some x \<Rightarrow> cAgentUserID x)"
  by (induction cs) auto



end
