(* ===== verification/Conservation.thy ===== *)
theory Conservation
  imports SelfCheck Pages AccrualSpec
begin

text \<open>
  What the self-check finds in a state the engine has produced: the conservation check (I1).
\<close>

subsection \<open>Loops over the tenant's rows\<close>

lemma page_max: "nat (normalizeLimit MaxPageLimit) = nat MaxPageLimit"
  by (simp add: normalizeLimit_def MaxPageLimit_def)

lemma accounts_loop:
  assumes "storeWf d"
  shows "pageLoop (\<lambda>after. rdAccountsByTenant n \<lparr>apAfterUserID = after, apLimit = MaxPageLimit\<rparr> d) (\<lambda>a. ukUserID (aKey a)) body after s =
    foldC body (filter (\<lambda>a. after < ukUserID (aKey a)) (accountsOf n d)) s"
  by (rule pageLoop_rows) (simp_all add: rdAccountsByTenant_page [OF assms] page_max accountsOf_sorted [OF assms])

lemma positive_ids: "(\<And>x. x \<in> set xs \<Longrightarrow> 0 < f x) \<Longrightarrow> filter (\<lambda>x. (0 :: int) < f x) xs = xs"
  by (simp add: filter_id_conv)

lemma rows_positive:
  assumes "idsUpTo n m idf" "x \<in> set (rowsAt m ids)"
  shows "0 < idf x"
  using assms by (fastforce simp: rowsAt_def idsUpTo_def)

lemma entries_loop:
  assumes "storeWf d"
  shows "pageLoop (\<lambda>after. rdLedgerEntries k \<lparr>lqPage = \<lparr>pgAfterID = after, pgLimit = MaxPageLimit\<rparr>, lqBizType = None\<rparr> d) leID body 0 s =
    foldC body (entriesOf k d) s"
proof -
  have "filter (\<lambda>e. 0 < leID e) (entriesOf k d) = entriesOf k d"
    by (rule positive_ids) (rule rows_positive [OF storeWf_parts(8) [OF assms]], simp add: entriesOf_def)
  moreover have "pageLoop (\<lambda>after. rdLedgerEntries k \<lparr>lqPage = \<lparr>pgAfterID = after, pgLimit = MaxPageLimit\<rparr>, lqBizType = None\<rparr> d) leID body 0 s =
      foldC body (filter (\<lambda>e. 0 < leID e) (entriesOf k d)) s"
    by (rule pageLoop_rows) (simp_all add: rdLedgerEntries_page [OF assms] page_max ledger_sorted [OF assms])
  ultimately show ?thesis by simp
qed

lemma commissions_loop:
  assumes "storeWf d"
  shows "pageLoop (\<lambda>after. rdCommissionsByTenant n \<lparr>pgAfterID = after, pgLimit = MaxPageLimit\<rparr> d) cID body 0 s =
    foldC body (commissionsOf n d) s"
proof -
  have "filter (\<lambda>c. 0 < cID c) (commissionsOf n d) = commissionsOf n d"
    by (rule positive_ids) (auto simp: commissionsOf_def intro: rows_positive [OF storeWf_parts(7) [OF assms]])
  moreover have "pageLoop (\<lambda>after. rdCommissionsByTenant n \<lparr>pgAfterID = after, pgLimit = MaxPageLimit\<rparr> d) cID body 0 s =
      foldC body (filter (\<lambda>c. 0 < cID c) (commissionsOf n d)) s"
    by (rule pageLoop_rows) (simp_all add: rdCommissionsByTenant_page [OF assms] page_max commissionsOf_sorted [OF assms])
  ultimately show ?thesis by simp
qed

lemma foldC_ok: "(\<And>x s. x \<in> set xs \<Longrightarrow> f x s = okC (g x s)) \<Longrightarrow> foldC f xs s = okC (fold g xs s)"
  by (induction xs arbitrary: s) simp_all

subsection \<open>The sums of the entries of a user\<close>

lemma entriesOf_index: "storeWf d \<Longrightarrow> listIndex (slot (dLedgerByUser d) k) (dLedger d) (\<lambda>e. leKey e = k)"
  using storeWf_parts(4) [of d] by (simp add: ledgerWf_def)

lemma entriesOf_sum:
  assumes "storeWf d"
  shows "(\<Sum>e\<leftarrow>entriesOf k d. f e) = mapSum (\<lambda>e. onlyIf (leKey e = k) (f e)) (dLedger d)"
  unfolding entriesOf_def by (rule sum_rowsAt [OF entriesOf_index [OF assms] storeWf_parts(12) [OF assms]])

lemma sum_onlyIf: "(\<Sum>x\<leftarrow>xs. onlyIf (P x) (f x)) = (\<Sum>x\<leftarrow>filter P xs. f x)"
  by (induction xs) auto

lemma prefix_sum:
  assumes inv: "moneyInv d" and split: "entriesOf k d = xs @ e # ys"
  shows "(\<Sum>x\<leftarrow>xs @ [e]. sint (bucketDelta b x)) = sint (bucketAfter b e)"
proof -
  note wf = moneyInv_parts(1) [OF inv]
  have e: "e \<in> set (entriesOf k d)" using split by simp
  then have row: "dLedger d (leID e) = Some e \<and> leKey e = k"
    using set_rowsAt [OF entriesOf_index [OF wf]] storeWf_parts(8) [OF wf] by (auto simp: entriesOf_def idsUpTo_def)
  have sorted: "sorted_wrt (\<lambda>x y. leID x < leID y) (xs @ e # ys)" using ledger_sorted(1) [OF wf, of k] split by simp
  then have "\<forall>x\<in>set xs. leID x \<le> leID e" "\<forall>x\<in>set ys. \<not> leID x \<le> leID e"
    by (auto simp: sorted_wrt_append)
  then have "filter (\<lambda>x. leID x \<le> leID e) xs = xs" "filter (\<lambda>x. leID x \<le> leID e) ys = []"
    by (simp_all add: filter_id_conv filter_empty_conv)
  then have "(\<Sum>x\<leftarrow>xs @ [e]. sint (bucketDelta b x)) = (\<Sum>x\<leftarrow>entriesOf k d. onlyIf (leID x \<le> leID e) (sint (bucketDelta b x)))"
    by (simp add: sum_onlyIf split)
  also have "\<dots> = ledgerUpTo d (leID e) k b"
    unfolding entriesOf_sum [OF wf] ledgerUpTo_def by (rule mapSum_cong) (simp add: onlyIf_def)
  also have "\<dots> = sint (bucketAfter b e)"
    using moneyInv_parts(5) [OF inv, unfolded journalOk_def, THEN conjunct2, rule_format, of "leID e" e b] row by simp
  finally show ?thesis .
qed

lemma addEntry_ok:
  assumes "\<And>b. in64 (sint (bucketValue b sums) + sint (bucketDelta b e))"
  shows "\<exists>sums'. addEntry e (sums, tail, n) = okC (sums', Some e, n + 1) \<and>
    (\<forall>b. sint (bucketValue b sums') = sint (bucketValue b sums) + sint (bucketDelta b e))"
proof -
  have add: "moneyAdd (bucketValue b sums) (bucketDelta b e) = Inr (bucketValue b sums + bucketDelta b e)" for b
    using assms [of b] by (simp add: moneyAdd_exact)
  have val: "bucketValue b (bucketSet b' v a) = (if b = b' then v else bucketValue b a)" for b b' v a
    by (cases b; cases b') simp_all
  let ?s = "bucketSet BucketWithdrawn (bucketValue BucketWithdrawn sums + bucketDelta BucketWithdrawn e)
     (bucketSet BucketWithdrawing (bucketValue BucketWithdrawing sums + bucketDelta BucketWithdrawing e)
     (bucketSet BucketAvailable (bucketValue BucketAvailable sums + bucketDelta BucketAvailable e)
     (bucketSet BucketFrozen (bucketValue BucketFrozen sums + bucketDelta BucketFrozen e) sums)))"
  have "addEntry e (sums, tail, n) = okC (?s, Some e, n + 1)"
    using add by (simp add: addEntry_def AllBuckets_def val del: bucketValue.simps bucketSet.simps bucketDelta.simps)
  moreover have "sint (bucketValue b ?s) = sint (bucketValue b sums) + sint (bucketDelta b e)" for b
    using sint_add64 [OF assms [of b]] by (cases b) (simp_all add: val del: bucketSet.simps bucketDelta.simps)
  ultimately show ?thesis by blast
qed

lemma addEntries:
  assumes "\<And>p q b. es = p @ q \<Longrightarrow> in64 (\<Sum>x\<leftarrow>p. sint (bucketDelta b x))"
  shows "\<exists>sums. foldC addEntry es (zeroAccount, None, 0) = okC (sums, if es = [] then None else Some (last es), length es) \<and>
    (\<forall>b. sint (bucketValue b sums) = (\<Sum>x\<leftarrow>es. sint (bucketDelta b x)))"
  using assms
proof (induction es rule: rev_induct)
  case Nil
  have "bucketValue b zeroAccount = 0" for b by (cases b) (simp_all add: zeroAccount_def)
  then show ?case by (intro exI [of _ zeroAccount]) simp
next
  case (snoc e es)
  obtain sums where run: "foldC addEntry es (zeroAccount, None, 0) = okC (sums, if es = [] then None else Some (last es), length es)"
    and sums: "\<And>b. sint (bucketValue b sums) = (\<Sum>x\<leftarrow>es. sint (bucketDelta b x))"
    using snoc.IH snoc.prems [of _ "_ @ [e]"] by auto
  have "in64 (sint (bucketValue b sums) + sint (bucketDelta b e))" for b
    using snoc.prems [of "es @ [e]" "[]" b] sums by simp
  from addEntry_ok [OF this, of "if es = [] then None else Some (last es)" "length es"]
  obtain sums' where "addEntry e (sums, if es = [] then None else Some (last es), length es) = okC (sums', Some e, length es + 1)"
    "\<And>b. sint (bucketValue b sums') = sint (bucketValue b sums) + sint (bucketDelta b e)" by auto
  then show ?case using run sums by (intro exI [of _ sums']) (simp add: foldC_append)
qed

subsection \<open>The judgement of one account\<close>

lemma accountsOf_row:
  assumes "storeWf d" "a \<in> set (accountsOf n d)"
  shows "accountOf d (aKey a) = a" "ukTenantID (aKey a) = n"
  using assms storeWf_parts(6) [OF assms(1)] by (auto simp: accountsOf_def rowsAt_def accountsWf_def accountOf_def)

text \<open>What the check makes of an account whose balances and journal agree.\<close>

definition debtOnly :: "bool \<Rightarrow> account \<Rightarrow> invariant_result \<Rightarrow> invariant_result" where
  "debtOnly allowNegative a r =
     (if \<not> aAvailable a <s 0 then r
      else if allowNegative then addNote (DebtCarried (aKey a) (aAvailable a) BucketAvailable) r
      else addViolation (NegativeBucketOf (aKey a) BucketAvailable (aAvailable a)) r)"

lemma judge_agreeing:
  assumes held: "\<not> aFrozen a <s 0" "\<not> aWithdrawing a <s 0" "\<not> aWithdrawn a <s 0"
    and sums: "\<And>b. bucketValue b sums = bucketValue b a"
    and tail: "entries \<noteq> 0 \<Longrightarrow> \<forall>b. bucketAfter b (the tail) = bucketValue b a"
    and none: "entries = 0 \<Longrightarrow> \<forall>b. bucketValue b a = 0"
  shows "accountConservationViolations a sums tail entries allow r = debtOnly allow a r"
proof -
  have first: "(if Settleable a then r
      else fold (\<lambda>b r. if \<not> bucketValue b a <s 0 then r
              else if allow \<and> b = BucketAvailable then addNote (DebtCarried (aKey a) (bucketValue b a) b) r
              else addViolation (NegativeBucketOf (aKey a) b (bucketValue b a)) r) AllBuckets r) = debtOnly allow a r"
    using held by (simp add: Settleable_def AllBuckets_def debtOnly_def)
  show ?thesis
  proof (cases "entries = 0")
    case True
    then show ?thesis using none
      unfolding accountConservationViolations_def Let_def first by (simp add: AllBuckets_def flagIf_def)
  next
    case False
    then show ?thesis using sums tail
      unfolding accountConservationViolations_def Let_def first
      by (simp add: AllBuckets_def flagIf_def del: bucketValue.simps bucketAfter.simps)
  qed
qed

lemma conservation_account:
  assumes inv: "moneyInv d" and a: "a \<in> set (accountsOf n d)"
  shows "\<exists>sums tail entries. foldC addEntry (entriesOf (aKey a) d) (zeroAccount, None, 0) = okC (sums, tail, entries) \<and>
    accountConservationViolations a sums tail entries allow r = debtOnly allow a r"
proof -
  note wf = moneyInv_parts(1) [OF inv]
  let ?es = "entriesOf (aKey a) d"
  have prefixes: "in64 (\<Sum>x\<leftarrow>p. sint (bucketDelta b x))" if "?es = p @ q" for p q b
  proof (cases p rule: rev_cases)
    case Nil
    then show ?thesis by (simp add: in64_def)
  next
    case (snoc xs e)
    then have "?es = xs @ e # q" using that by simp
    from prefix_sum [OF inv this] show ?thesis using snoc by (metis sint_in64)
  qed
  obtain sums where run: "foldC addEntry ?es (zeroAccount, None, 0) = okC (sums, if ?es = [] then None else Some (last ?es), length ?es)"
    and sums: "\<And>b. sint (bucketValue b sums) = (\<Sum>x\<leftarrow>?es. sint (bucketDelta b x))"
    using addEntries [of ?es] prefixes by blast
  have acc: "accountOf d (aKey a) = a" using accountsOf_row(1) [OF wf a] .
  have whole: "(\<Sum>x\<leftarrow>?es. sint (bucketDelta b x)) = sint (bucketValue b a)" for b
    unfolding entriesOf_sum [OF wf] ledgerSum_def [symmetric]
    using moneyInv_parts(5) [OF inv, unfolded journalOk_def, THEN conjunct1, rule_format, of b "aKey a"] acc by simp
  then have equal: "bucketValue b sums = bucketValue b a" for b using sums [of b] sint_eqD by metis
  have after: "bucketAfter b (last ?es) = bucketValue b a" if "?es \<noteq> []" for b
  proof -
    have "?es = butlast ?es @ last ?es # []" using that by simp
    from prefix_sum [OF inv this, of b] that whole [of b] have "sint (bucketAfter b (last ?es)) = sint (bucketValue b a)" by simp
    then show ?thesis by (rule sint_eqD)
  qed
  have zero: "bucketValue b a = 0" if "?es = []" for b
    using whole [of b] that by (intro sint_eqD) simp
  note held = moneyInv_held [OF inv, of "aKey a", unfolded acc]
  have "accountConservationViolations a sums (if ?es = [] then None else Some (last ?es)) (length ?es) allow r = debtOnly allow a r"
    by (rule judge_agreeing) (use held equal after zero in \<open>auto simp: sless_sint\<close>)
  then show ?thesis using run by blast
qed

definition listedAccounts :: "int \<Rightarrow> data \<Rightarrow> account list" where
  "listedAccounts n d = filter (\<lambda>a. 0 < ukUserID (aKey a)) (accountsOf n d)"

lemma conservation_result:
  assumes "moneyInv d"
  shows "checkLedgerConservation l n d = okC (fold (\<lambda>a r. debtOnly (rAllowNegative (lRules l)) a (checkedOne r)) (listedAccounts n d)
    (newInvariant ''I1: account balance equals sum of ledger deltas''))"
proof -
  note wf = moneyInv_parts(1) [OF assms]
  have body: "bindC (foldC addEntry (entriesOf (aKey a) d) (zeroAccount, None, 0))
      (\<lambda>(sums, tail, entries). okC (accountConservationViolations a sums tail entries (rAllowNegative (lRules l)) (checkedOne r))) =
      okC (debtOnly (rAllowNegative (lRules l)) a (checkedOne r))" if "a \<in> set (listedAccounts n d)" for a r
  proof -
    have "a \<in> set (accountsOf n d)" using that by (simp add: listedAccounts_def)
    from conservation_account [OF assms this] show ?thesis by (fastforce simp: bindC_def okC_def)
  qed
  show ?thesis
    unfolding checkLedgerConservation_def entries_loop [OF wf] accounts_loop [OF wf] listedAccounts_def [symmetric]
    by (rule foldC_ok) (rule body)
qed

lemma debt_counts:
  "irChecked (fold (\<lambda>a r. debtOnly allow a (checkedOne r)) as r) = irChecked r + length as"
  "irTotalViolations (fold (\<lambda>a r. debtOnly allow a (checkedOne r)) as r) =
     irTotalViolations r + (if allow then 0 else length (filter (\<lambda>a. aAvailable a <s 0) as))"
  "irOK (fold (\<lambda>a r. debtOnly allow a (checkedOne r)) as r) \<longleftrightarrow> irOK r \<and> (allow \<or> (\<forall>a\<in>set as. \<not> aAvailable a <s 0))"
  by (induction as arbitrary: r) (auto simp: debtOnly_def addNote_def addViolation_def checkedOne_def)

text \<open>
  C29. The conservation check of a reachable state always ends, without an error, looks at every
  account of the tenant, and reports exactly the accounts in debt: no account disagrees with its
  journal, no balance but the available one is negative, and where the rules allow a debt the check
  passes. None of the checked additions overflows, whatever the size of the journal.
\<close>

theorem conservation_check_passes:
  assumes "reachable s"
  shows "\<exists>r. checkLedgerConservation l n (stData s) = Some (Inr r) \<and>
    irChecked r = length (listedAccounts n (stData s)) \<and>
    irTotalViolations r = (if rAllowNegative (lRules l) then 0
       else length (filter (\<lambda>a. aAvailable a <s 0) (listedAccounts n (stData s)))) \<and>
    (irOK r \<longleftrightarrow> rAllowNegative (lRules l) \<or> (\<forall>a\<in>set (listedAccounts n (stData s)). 0 \<le> sint (aAvailable a)))"
  using conservation_result [OF money_steps.reachable_holds [OF assms], of l n]
  by (auto simp: okC_def debt_counts newInvariant_def sless_sint)

theorem conservation_check_passes_witness:
  "\<exists>r. checkLedgerConservation (demoLedger (day 2)) 1 (stData demo3) = Some (Inr r) \<and> irOK r \<and> irChecked r = 1"
proof -
  have rows: "listedAccounts 1 (stData demo3) = [demoA\<lparr>aVersion := 1\<rparr>]"
    by (simp add: listedAccounts_def accountsOf_def rowsAt_def demo3_def demoData3_def addLedger_def addAccount_def
        addCommission_def demoData2_def demoData1_def newData_def demoA_def zeroAccount_def insertAt_def lowerBound_def
        sortSearch_def searchFrom.simps)
  show ?thesis using conservation_check_passes [OF demo_reachable(3), of "demoLedger (day 2)" 1]
    by (auto simp: rows demoA_def zeroAccount_def)
qed

end
