(* ===== verification/Reconciled.thy ===== *)
theory Reconciled
  imports Conservation
begin

text \<open>
  The reversal check (I3) of the self-check on a state the engine has produced: every accumulator
  is the sum of its reversal records, every state agrees with it, and the account totals are the
  roll-ups of the commissions.
\<close>

subsection \<open>Rows of a tenant\<close>

lemma commissionsOf_rows:
  assumes "storeWf d"
  shows "set (commissionsOf n d) = {c. dCommissions d (cID c) = Some c \<and> okTenantID (cKey c) = n}"
proof -
  have ix: "listIndex (dCommissionIDs d) (dCommissions d) (\<lambda>_. True)"
    using storeWf_parts(2) [OF assms] by (simp add: commissionsWf_def)
  have "dCommissions d (cID c) = Some c" if "dCommissions d i = Some c" for i c
    using storeWf_parts(7) [OF assms] that by (auto simp: idsUpTo_def)
  then show ?thesis using set_rowsAt [OF ix] by (auto simp: commissionsOf_def)
qed

lemma commissionsOf_sum:
  assumes "storeWf d"
  shows "(\<Sum>c\<leftarrow>commissionsOf n d. f c) = mapSum (\<lambda>c. onlyIf (okTenantID (cKey c) = n) (f c)) (dCommissions d)"
proof -
  have ix: "listIndex (dCommissionIDs d) (dCommissions d) (\<lambda>_. True)"
    using storeWf_parts(2) [OF assms] by (simp add: commissionsWf_def)
  show ?thesis
    unfolding commissionsOf_def sum_onlyIf [symmetric] sum_rowsAt [OF ix storeWf_parts(11) [OF assms]] by simp
qed

definition accruedIn :: "commission list \<Rightarrow> int \<Rightarrow> int" where
  "accruedIn cs a = (\<Sum>c\<leftarrow>cs. onlyIf (accrual c \<and> cAgentUserID c = a) (sint (cAmount c)))"

definition givenBackIn :: "commission list \<Rightarrow> int \<Rightarrow> int" where
  "givenBackIn cs a = (\<Sum>c\<leftarrow>cs. onlyIf (\<not> accrual c \<and> cAgentUserID c = a) (- sint (cAmount c)))"

definition clawedIn :: "commission list \<Rightarrow> int \<Rightarrow> int" where
  "clawedIn cs i = (\<Sum>c\<leftarrow>cs. onlyIf (\<not> accrual c \<and> cReverseOf c = i) (- sint (cAmount c)))"

text \<open>A prefix of a list with nonnegative terms sums to something between zero and the whole.\<close>

lemma prefix_bounds:
  assumes "\<And>x. x \<in> set (p @ q) \<Longrightarrow> 0 \<le> f x"
  shows "0 \<le> (\<Sum>x\<leftarrow>p. f x) \<and> (\<Sum>x\<leftarrow>p. f x) \<le> (\<Sum>x\<leftarrow>p @ q. (f x :: int))"
proof -
  have "0 \<le> (\<Sum>x\<leftarrow>p. f x)" "0 \<le> (\<Sum>x\<leftarrow>q. f x)" using assms by (intro sum_list_nonneg; auto)+
  then show ?thesis by simp
qed

lemma agentKey_eq: "agentKeyOf c = UserKey n a \<longleftrightarrow> okTenantID (cKey c) = n \<and> cAgentUserID c = a"
  by (auto simp: agentKeyOf_def)

lemma accruedIn_total:
  assumes "storeWf d"
  shows "accruedIn (commissionsOf n d) a = commSum earnedShare (UserKey n a) d"
  unfolding accruedIn_def commissionsOf_sum [OF assms] commSum_def
  by (rule mapSum_cong) (auto simp: agentKey_eq earnedShare_def onlyIf_def)

text \<open>
  Counting twice: the reversal records of an agent, summed record by record, or by the accrual
  each of them points at.
\<close>

lemma mapSum_groups:
  assumes fin: "finite (dom m)" and into: "\<And>i v. m i = Some v \<Longrightarrow> P v \<Longrightarrow> \<exists>w. m (target v) = Some w \<and> Q w"
  shows "mapSum (\<lambda>v. onlyIf (P v) (f v)) m = (\<Sum>j \<in> dom m. onlyIf (Q (the (m j))) (mapSum (\<lambda>v. onlyIf (P v \<and> target v = j) (f v)) m))"
proof -
  have one: "onlyIf (P v) (f v) = (\<Sum>j \<in> dom m. onlyIf (Q (the (m j)) \<and> P v \<and> target v = j) (f v))" if row: "m i = Some v" for i v
  proof (cases "P v")
    case True
    obtain w where w: "m (target v) = Some w" "Q w" using into [OF row True] by blast
    have "(\<Sum>j \<in> dom m. onlyIf (Q (the (m j)) \<and> P v \<and> target v = j) (f v)) = (\<Sum>j \<in> {target v}. onlyIf (Q (the (m j)) \<and> P v \<and> target v = j) (f v))"
      by (rule sum.mono_neutral_right) (use fin w in \<open>auto simp: onlyIf_def\<close>)
    then show ?thesis using w True by simp
  qed simp
  have "mapSum (\<lambda>v. onlyIf (P v) (f v)) m = (\<Sum>i \<in> dom m. \<Sum>j \<in> dom m. onlyIf (Q (the (m j)) \<and> P (the (m i)) \<and> target (the (m i)) = j) (f (the (m i))))"
    unfolding mapSum_def by (rule sum.cong [OF refl]) (auto dest: one)
  also have "\<dots> = (\<Sum>j \<in> dom m. \<Sum>i \<in> dom m. onlyIf (Q (the (m j)) \<and> P (the (m i)) \<and> target (the (m i)) = j) (f (the (m i))))"
    by (rule sum.swap)
  also have "\<dots> = (\<Sum>j \<in> dom m. onlyIf (Q (the (m j))) (mapSum (\<lambda>v. onlyIf (P v \<and> target v = j) (f v)) m))"
    unfolding mapSum_def by (rule sum.cong [OF refl]) (auto simp: onlyIf_def)
  finally show ?thesis .
qed

lemma clawedFrom_records:
  assumes "commissionsInv m" "0 < i"
  shows "clawedFrom i m = mapSum (\<lambda>r. onlyIf (\<not> accrual r \<and> cReverseOf r = i) (- sint (cAmount r))) m"
proof -
  have "cReverseOf c \<noteq> i" if "m k = Some c" "accrual c" for k c
    using commissionsInvD(1) [OF assms(1) that(1)] that(2) assms(2) by (auto simp: commissionRow_def)
  then show ?thesis unfolding clawedFrom_def by (intro mapSum_cong) (auto simp: onlyIf_def)
qed

lemma givenBackIn_total:
  assumes inv: "moneyInv d"
  shows "givenBackIn (commissionsOf n d) a = commSum reversedShare (UserKey n a) d"
proof -
  note parts = moneyInv_parts [OF inv]
  let ?m = "dCommissions d"
  have "givenBackIn (commissionsOf n d) a =
      mapSum (\<lambda>c. onlyIf (\<not> accrual c \<and> agentKeyOf c = UserKey n a) (- sint (cAmount c))) ?m"
    unfolding givenBackIn_def commissionsOf_sum [OF parts(1)] by (rule mapSum_cong) (auto simp: agentKey_eq onlyIf_def)
  also have "\<dots> = (\<Sum>j \<in> dom ?m. onlyIf (accrual (the (?m j)) \<and> agentKeyOf (the (?m j)) = UserKey n a)
      (mapSum (\<lambda>c. onlyIf ((\<not> accrual c \<and> agentKeyOf c = UserKey n a) \<and> cReverseOf c = j) (- sint (cAmount c))) ?m))"
  proof (rule mapSum_groups [OF parts(6)])
    fix i c
    assume c: "?m i = Some c" "\<not> accrual c \<and> agentKeyOf c = UserKey n a"
    then obtain p where "?m (cReverseOf c) = Some p" "linked c p" using commissionsInvD(3) [OF parts(2)] by blast
    then show "\<exists>w. ?m (cReverseOf c) = Some w \<and> accrual w \<and> agentKeyOf w = UserKey n a"
      using c(2) by (auto simp: linked_def agentKeyOf_def)
  qed
  also have "\<dots> = (\<Sum>j \<in> dom ?m. onlyIf (agentKeyOf (the (?m j)) = UserKey n a) (reversedShare (the (?m j))))"
  proof (rule sum.cong [OF refl])
    fix j
    assume "j \<in> dom ?m"
    then obtain p where p: "?m j = Some p" by blast
    show "onlyIf (accrual (the (?m j)) \<and> agentKeyOf (the (?m j)) = UserKey n a)
        (mapSum (\<lambda>c. onlyIf ((\<not> accrual c \<and> agentKeyOf c = UserKey n a) \<and> cReverseOf c = j) (- sint (cAmount c))) ?m) =
      onlyIf (agentKeyOf (the (?m j)) = UserKey n a) (reversedShare (the (?m j)))"
    proof (cases "accrual p \<and> agentKeyOf p = UserKey n a")
      case True
      have j: "0 < j" using parts(8) p by (fastforce simp: idsUpTo_def)
      have "mapSum (\<lambda>c. onlyIf ((\<not> accrual c \<and> agentKeyOf c = UserKey n a) \<and> cReverseOf c = j) (- sint (cAmount c))) ?m =
          mapSum (\<lambda>c. onlyIf (\<not> accrual c \<and> cReverseOf c = j) (- sint (cAmount c))) ?m"
      proof (rule mapSum_cong)
        fix i c
        assume c: "?m i = Some c"
        have "agentKeyOf c = UserKey n a" if "\<not> accrual c" "cReverseOf c = j"
          using commissionsInvD(3) [OF parts(2) c that(1)] that(2) p True by (auto simp: linked_def agentKeyOf_def)
        then show "onlyIf ((\<not> accrual c \<and> agentKeyOf c = UserKey n a) \<and> cReverseOf c = j) (- sint (cAmount c)) =
            onlyIf (\<not> accrual c \<and> cReverseOf c = j) (- sint (cAmount c))"
          by (auto simp: onlyIf_def)
      qed
      also have "\<dots> = sint (cReversedAmount p)"
        using clawedFrom_records [OF parts(2) j] commissionsInvD(2) [OF parts(2) p] True by simp
      finally show ?thesis using True p by (simp add: reversedShare_def)
    next
      case False
      then show ?thesis using p by (auto simp: reversedShare_def onlyIf_def)
    qed
  qed
  also have "\<dots> = commSum reversedShare (UserKey n a) d" by (simp add: commSum_def mapSum_def)
  finally show ?thesis .
qed

lemma clawedIn_total:
  assumes inv: "moneyInv d" and p: "dCommissions d i = Some p" "accrual p" "okTenantID (cKey p) = n"
  shows "clawedIn (commissionsOf n d) i = sint (cReversedAmount p)"
proof -
  note parts = moneyInv_parts [OF inv]
  have i: "0 < i" using parts(8) p(1) by (fastforce simp: idsUpTo_def)
  have "clawedIn (commissionsOf n d) i = mapSum (\<lambda>c. onlyIf (\<not> accrual c \<and> cReverseOf c = i) (- sint (cAmount c))) (dCommissions d)"
    unfolding clawedIn_def commissionsOf_sum [OF parts(1)]
  proof (rule mapSum_cong)
    fix j c
    assume c: "dCommissions d j = Some c"
    have "okTenantID (cKey c) = n" if "\<not> accrual c" "cReverseOf c = i"
      using commissionsInvD(3) [OF parts(2) c that(1)] that(2) p by (auto simp: linked_def)
    then show "onlyIf (okTenantID (cKey c) = n) (onlyIf (\<not> accrual c \<and> cReverseOf c = i) (- sint (cAmount c))) =
        onlyIf (\<not> accrual c \<and> cReverseOf c = i) (- sint (cAmount c))"
      by (auto simp: onlyIf_def)
  qed
  then show ?thesis using clawedFrom_records [OF parts(2) i] commissionsInvD(2) [OF parts(2) p(1,2)] by simp
qed

subsection \<open>The tally of the commissions\<close>

definition tallied :: "commission \<Rightarrow> bool" where
  "tallied c \<longleftrightarrow> \<not> accrual c \<or> cReversedAmount c \<noteq> 0"

definition cleanResult :: "string \<Rightarrow> nat \<Rightarrow> invariant_result \<Rightarrow> bool" where
  "cleanResult name n r \<longleftrightarrow> r = \<lparr>irName = name, irOK = True, irChecked = n, irViolations = [], irTotalViolations = 0, irNotes = []\<rparr>"

lemma cleanResult_checked: "cleanResult name n r \<Longrightarrow> cleanResult name (Suc n) (checkedOne r)"
  by (simp add: cleanResult_def checkedOne_def)

lemma flagIf_False [simp]: "flagIf False v r = r"
  by (simp add: flagIf_def)

text \<open>The tally after the rows \<open>p\<close>.\<close>

definition tallyInv :: "data \<Rightarrow> commission list \<Rightarrow> reversal_tally \<Rightarrow> bool" where
  "tallyInv d p t \<longleftrightarrow>
     (\<forall>a. sint (getMoney (rtAccruedBy t) a) = accruedIn p a) \<and>
     (\<forall>a. sint (getMoney (rtReversedBy t) a) = givenBackIn p a) \<and>
     (\<forall>i. sint (getMoney (rtReversed t) i) = clawedIn p i) \<and>
     (\<forall>i v. rtOriginals t i = Some v \<longleftrightarrow> (\<exists>c\<in>set p. cID c = i \<and> accrual c \<and> cReversedAmount c \<noteq> 0 \<and> v = cReversedAmount c)) \<and>
     (\<forall>i v. rtAmount t i = Some v \<longrightarrow> (\<exists>c. dCommissions d i = Some c \<and> v = cAmount c)) \<and>
     (\<forall>i v. rtReversed t i = Some v \<longrightarrow> (\<exists>c\<in>set p. \<not> accrual c \<and> cReverseOf c = i)) \<and>
     finite (dom (rtOriginals t)) \<and> finite (dom (rtReversed t)) \<and>
     cleanResult ''I3: reversal accumulator, state and account totals reconcile'' (length (filter tallied p)) (rtRes t)"

lemma sums_snoc:
  "accruedIn (p @ [c]) a = accruedIn p a + onlyIf (accrual c \<and> cAgentUserID c = a) (sint (cAmount c))"
  "givenBackIn (p @ [c]) a = givenBackIn p a + onlyIf (\<not> accrual c \<and> cAgentUserID c = a) (- sint (cAmount c))"
  "clawedIn (p @ [c]) i = clawedIn p i + onlyIf (\<not> accrual c \<and> cReverseOf c = i) (- sint (cAmount c))"
  by (simp_all add: accruedIn_def givenBackIn_def clawedIn_def)

lemma getMoney_upd [simp]: "getMoney (m(k \<mapsto> v)) j = (if j = k then v else getMoney m j)"
  by (simp add: getMoney_def)

lemma tally_accrual:
  assumes inv: "commissionsInv (dCommissions d)" and row: "dCommissions d (cID c) = Some c" and acc: "accrual c"
    and t: "tallyInv d p t" and fits: "in64 (accruedIn (p @ [c]) (cAgentUserID c))"
    and new: "\<And>x. x \<in> set p \<Longrightarrow> cID x \<noteq> cID c"
  shows "\<exists>t'. tallyCommission d c t = okC t' \<and> tallyInv d (p @ [c]) t'"
proof -
  let ?a = "cAgentUserID c"
  have cur: "sint (getMoney (rtAccruedBy t) ?a) = accruedIn p ?a" using t by (simp add: tallyInv_def)
  then have sum: "in64 (sint (getMoney (rtAccruedBy t) ?a) + sint (cAmount c))" using fits acc by (simp add: sums_snoc)
  have pos: "0 <s cAmount c" using acc by (simp add: accrual_def sless_sint)
  have state: "\<not> (cReversedAmount c <s 0 \<or> cAmount c <s cReversedAmount c)"
    "\<not> (FullyReversed c \<noteq> (cState c = CommissionReversed \<or> cState c = CommissionVoid))"
  proof -
    have row: "commissionRow c" using commissionsInvD(1) [OF inv row] .
    then show "\<not> (cReversedAmount c <s 0 \<or> cAmount c <s cReversedAmount c)"
      using acc by (simp add: commissionRow_def sless_sint)
    have "FullyReversed c \<longleftrightarrow> cReversedAmount c = cAmount c"
      using row acc sint_eq64 [of "cReversedAmount c" "cAmount c"]
      by (auto simp: commissionRow_def FullyReversed_def sless_sint sle_sint accrual_def)
    then show "\<not> (FullyReversed c \<noteq> (cState c = CommissionReversed \<or> cState c = CommissionVoid))"
      using row acc by (auto simp: commissionRow_def commissionTerminal_def)
  qed
  let ?v = "getMoney (rtAccruedBy t) ?a + cAmount c"
  let ?t1 = "t\<lparr>rtAccruedBy := (rtAccruedBy t)(?a \<mapsto> ?v)\<rparr>"
  let ?t2 = "?t1\<lparr>rtOriginals := (rtOriginals t)(cID c \<mapsto> cReversedAmount c), rtAmount := (rtAmount t)(cID c \<mapsto> cAmount c),
      rtRes := checkedOne (rtRes t)\<rparr>"
  let ?t' = "if cReversedAmount c = 0 then ?t1 else ?t2"
  have run: "tallyCommission d c t = okC ?t'"
    using pos sum state by (simp add: tallyCommission_def tallyAccrual_def moneyAdd_exact Let_def flagIf_def)
  have v: "sint ?v = accruedIn p ?a + sint (cAmount c)" using sint_add64 [OF sum] cur by simp
  have sums: "sint (getMoney (rtAccruedBy ?t') a) = accruedIn (p @ [c]) a"
    "sint (getMoney (rtReversedBy ?t') a) = givenBackIn (p @ [c]) a"
    "sint (getMoney (rtReversed ?t') i) = clawedIn (p @ [c]) i" for a i
    using t v acc by (auto simp: tallyInv_def sums_snoc)
  have orig: "rtOriginals t i = Some v \<longleftrightarrow> (\<exists>x\<in>set p. cID x = i \<and> accrual x \<and> cReversedAmount x \<noteq> 0 \<and> v = cReversedAmount x)" for i v
    using t by (simp add: tallyInv_def)
  have "rtOriginals ?t' i = Some v \<longleftrightarrow>
      (\<exists>x\<in>set (p @ [c]). cID x = i \<and> accrual x \<and> cReversedAmount x \<noteq> 0 \<and> v = cReversedAmount x)" for i v
  proof (cases "i = cID c")
    case True
    then have "\<not> (\<exists>x\<in>set p. cID x = i \<and> accrual x \<and> cReversedAmount x \<noteq> 0 \<and> v = cReversedAmount x)" using new by blast
    then show ?thesis using True acc orig [of i v] by auto
  next
    case False
    then show ?thesis using orig [of i v] by auto
  qed
  moreover have "rtAmount ?t' i = Some v \<Longrightarrow> \<exists>c. dCommissions d i = Some c \<and> v = cAmount c" for i v
    using t row by (auto simp: tallyInv_def split: if_splits)
  moreover have "rtReversed ?t' i = Some v \<Longrightarrow> \<exists>x\<in>set (p @ [c]). \<not> accrual x \<and> cReverseOf x = i" for i v
    using t by (auto simp: tallyInv_def split: if_splits)
  moreover have "finite (dom (rtOriginals ?t'))" "finite (dom (rtReversed ?t'))" using t by (simp_all add: tallyInv_def)
  moreover have "cleanResult ''I3: reversal accumulator, state and account totals reconcile'' (length (filter tallied (p @ [c]))) (rtRes ?t')"
    using t acc by (auto simp: tallyInv_def tallied_def intro: cleanResult_checked)
  ultimately have "tallyInv d (p @ [c]) ?t'" using sums unfolding tallyInv_def by blast
  then show ?thesis using run by blast
qed

lemma tally_reversal:
  assumes inv: "commissionsInv (dCommissions d)" and row: "dCommissions d (cID c) = Some c" and rev: "\<not> accrual c"
    and t: "tallyInv d p t"
    and fits: "in64 (givenBackIn (p @ [c]) (cAgentUserID c))" "in64 (clawedIn (p @ [c]) (cReverseOf c))"
    and amount: "in64 (- sint (cAmount c))"
  shows "\<exists>t'. tallyCommission d c t = okC t' \<and> tallyInv d (p @ [c]) t'"
proof -
  let ?a = "cAgentUserID c" and ?i = "cReverseOf c"
  have neg: "\<not> 0 <s cAmount c" using rev by (simp add: accrual_def sless_sint)
  have i: "\<not> ?i \<le> 0" using commissionsInvD(1) [OF inv row] rev by (simp add: commissionRow_def)
  obtain og where og: "dCommissions d ?i = Some og" "linked c og" using commissionsInvD(3) [OF inv row rev] by blast
  then have opos: "\<not> cAmount og <=s 0" by (simp add: linked_def accrual_def sle_sint)
  have m: "sint (- cAmount c) = - sint (cAmount c)" by (rule sint_minus64 [OF amount])
  have cur: "sint (getMoney (rtReversed t) ?i) = clawedIn p ?i" "sint (getMoney (rtReversedBy t) ?a) = givenBackIn p ?a"
    using t by (simp_all add: tallyInv_def)
  then have sum: "in64 (sint (getMoney (rtReversed t) ?i) + sint (- cAmount c))"
    "in64 (sint (getMoney (rtReversedBy t) ?a) + sint (- cAmount c))"
    using fits rev m by (simp_all add: sums_snoc)
  let ?v = "getMoney (rtReversed t) ?i + - cAmount c" and ?w = "getMoney (rtReversedBy t) ?a + - cAmount c"
  let ?t3 = "t\<lparr>rtRes := checkedOne (rtRes t), rtReversed := (rtReversed t)(?i \<mapsto> ?v), rtReversedBy := (rtReversedBy t)(?a \<mapsto> ?w)\<rparr>"
  let ?t' = "if rtAmount t ?i = None then ?t3\<lparr>rtAmount := (rtAmount t)(?i \<mapsto> cAmount og)\<rparr> else ?t3"
  have run: "tallyCommission d c t = okC ?t'"
    using neg i og(1) opos sum by (simp add: tallyCommission_def tallyReversal_def rdCommission_def moneyAdd_exact Let_def)
  have v: "sint ?v = clawedIn p ?i - sint (cAmount c)" "sint ?w = givenBackIn p ?a - sint (cAmount c)"
    using sint_add64 [OF sum(1)] sint_add64 [OF sum(2)] cur m by simp_all
  have "sint (getMoney (rtAccruedBy ?t') a) = accruedIn (p @ [c]) a"
    "sint (getMoney (rtReversedBy ?t') a) = givenBackIn (p @ [c]) a"
    "sint (getMoney (rtReversed ?t') i) = clawedIn (p @ [c]) i" for a i
    using t v rev by (auto simp: tallyInv_def sums_snoc)
  moreover have "rtOriginals ?t' i = Some v \<longleftrightarrow>
      (\<exists>x\<in>set (p @ [c]). cID x = i \<and> accrual x \<and> cReversedAmount x \<noteq> 0 \<and> v = cReversedAmount x)" for i v
    using t rev by (auto simp: tallyInv_def)
  moreover have "rtAmount ?t' i = Some v \<Longrightarrow> \<exists>c. dCommissions d i = Some c \<and> v = cAmount c" for i v
    using t og(1) by (auto simp: tallyInv_def split: if_splits)
  moreover have "rtReversed ?t' i = Some v \<Longrightarrow> \<exists>x\<in>set (p @ [c]). \<not> accrual x \<and> cReverseOf x = i" for i v
    using t rev by (auto simp: tallyInv_def split: if_splits)
  moreover have "finite (dom (rtOriginals ?t'))" "finite (dom (rtReversed ?t'))" using t by (simp_all add: tallyInv_def)
  moreover have "cleanResult ''I3: reversal accumulator, state and account totals reconcile'' (length (filter tallied (p @ [c]))) (rtRes ?t')"
    using t rev by (auto simp: tallyInv_def tallied_def intro: cleanResult_checked)
  ultimately have "tallyInv d (p @ [c]) ?t'" unfolding tallyInv_def by blast
  then show ?thesis using run by blast
qed

text \<open>The totals of a prefix of the pass are within those of the accounts, and so within int64.\<close>

lemma in64_below: "0 \<le> x \<Longrightarrow> x \<le> sint (v :: money) \<Longrightarrow> in64 x"
  using sint_upper [of v] by (simp add: in64_def)

lemma signed_amount:
  "commissionRow c \<Longrightarrow> 0 \<le> onlyIf (accrual c \<and> B) (sint (cAmount c)) \<and> 0 \<le> onlyIf (\<not> accrual c \<and> B) (- sint (cAmount c))"
  by (auto simp: onlyIf_def accrual_def commissionRow_def)

lemma tenant_rows:
  assumes "moneyInv d" "c \<in> set (commissionsOf n d)"
  shows "dCommissions d (cID c) = Some c \<and> okTenantID (cKey c) = n \<and> commissionRow c"
  using assms(2) commissionsOf_rows [OF moneyInv_parts(1) [OF assms(1)], of n]
    commissionsInvD(1) [OF moneyInv_parts(2) [OF assms(1)]] by auto

lemma accruedIn_range:
  assumes inv: "moneyInv d" and pq: "commissionsOf n d = p @ q"
  shows "in64 (accruedIn p a)"
proof -
  note parts = moneyInv_parts [OF inv]
  have "0 \<le> accruedIn p a \<and> accruedIn p a \<le> accruedIn (commissionsOf n d) a"
    unfolding accruedIn_def pq by (rule prefix_bounds) (use signed_amount tenant_rows [OF inv, of _ n] pq in auto)
  moreover have "accruedIn (commissionsOf n d) a = sint (aTotalEarned (accountOf d (UserKey n a)))"
    using accruedIn_total [OF parts(1)] parts(4) by (simp add: booksOk_def booksAt_def)
  ultimately show ?thesis using in64_below by metis
qed

lemma givenBackIn_range:
  assumes inv: "moneyInv d" and pq: "commissionsOf n d = p @ q"
  shows "in64 (givenBackIn p a)"
proof -
  note parts = moneyInv_parts [OF inv]
  have "0 \<le> givenBackIn p a \<and> givenBackIn p a \<le> givenBackIn (commissionsOf n d) a"
    unfolding givenBackIn_def pq by (rule prefix_bounds) (use signed_amount tenant_rows [OF inv, of _ n] pq in auto)
  moreover have "givenBackIn (commissionsOf n d) a = sint (aTotalReversed (accountOf d (UserKey n a)))"
    using givenBackIn_total [OF inv] parts(4) by (simp add: booksOk_def booksAt_def)
  ultimately show ?thesis using in64_below by metis
qed

lemma clawedIn_range:
  assumes inv: "moneyInv d" and pq: "commissionsOf n d = p @ q" and c: "c \<in> set (commissionsOf n d)" "\<not> accrual c"
  shows "in64 (clawedIn p (cReverseOf c)) \<and> in64 (- sint (cAmount c))"
proof -
  let ?cs = "commissionsOf n d"
  note parts = moneyInv_parts [OF inv] and rows = tenant_rows [OF inv, of _ n]
  obtain w where w: "dCommissions d (cReverseOf c) = Some w" "linked c w"
    using commissionsInvD(3) [OF parts(2) _ c(2)] rows [OF c(1)] by blast
  have n: "okTenantID (cKey w) = n" using w(2) rows [OF c(1)] by (simp add: linked_def)
  have whole: "clawedIn ?cs (cReverseOf c) = sint (cReversedAmount w)"
    using clawedIn_total [OF inv w(1) _ n] w(2) by (simp add: linked_def)
  have "0 \<le> clawedIn p (cReverseOf c) \<and> clawedIn p (cReverseOf c) \<le> clawedIn ?cs (cReverseOf c)"
    unfolding clawedIn_def pq by (rule prefix_bounds) (use signed_amount rows pq in auto)
  then have "in64 (clawedIn p (cReverseOf c))" using whole in64_below by metis
  moreover have "in64 (- sint (cAmount c))"
  proof -
    define f where "f x = onlyIf (\<not> accrual x \<and> cReverseOf x = cReverseOf c) (- sint (cAmount x))" for x
    have "0 \<le> y" if "y \<in> set (map f ?cs)" for y using that signed_amount rows by (auto simp: f_def)
    moreover have "f c \<in> set (map f ?cs)" using c(1) by simp
    ultimately have "f c \<le> clawedIn ?cs (cReverseOf c)"
      using member_le_sum_list [of "f c" "map f ?cs"] unfolding clawedIn_def f_def by blast
    moreover have "0 \<le> - sint (cAmount c)" using signed_amount [of c True] rows [OF c(1)] c(2) by simp
    ultimately show ?thesis using whole c(2) in64_below [of "- sint (cAmount c)" "cReversedAmount w"] by (simp add: f_def)
  qed
  ultimately show ?thesis by blast
qed

lemma tally_all:
  assumes inv: "moneyInv d"
  shows "\<exists>t. foldC (tallyCommission d) (commissionsOf n d)
      \<lparr>rtRes = newInvariant ''I3: reversal accumulator, state and account totals reconcile'', rtOriginals = Map.empty,
        rtReversed = Map.empty, rtAmount = Map.empty, rtAccruedBy = Map.empty, rtReversedBy = Map.empty\<rparr> = okC t \<and>
    tallyInv d (commissionsOf n d) t"
proof -
  note parts = moneyInv_parts [OF inv]
  let ?cs = "commissionsOf n d"
  let ?t0 = "\<lparr>rtRes = newInvariant ''I3: reversal accumulator, state and account totals reconcile'', rtOriginals = Map.empty,
        rtReversed = Map.empty, rtAmount = Map.empty, rtAccruedBy = Map.empty, rtReversedBy = Map.empty\<rparr>"
  have rows: "dCommissions d (cID c) = Some c" if "c \<in> set ?cs" for c using tenant_rows [OF inv that] by blast
  have sorted: "sorted_wrt (\<lambda>c c'. cID c < cID c') ?cs" by (rule commissionsOf_sorted [OF parts(1)])
  have "\<exists>t. foldC (tallyCommission d) p ?t0 = okC t \<and> tallyInv d p t" if "?cs = p @ q" for p q
    using that
  proof (induction p arbitrary: q rule: rev_induct)
    case Nil
    show ?case
      by (intro exI [of _ ?t0])
        (simp add: tallyInv_def getMoney_def accruedIn_def givenBackIn_def clawedIn_def cleanResult_def newInvariant_def)
  next
    case (snoc c p)
    obtain t where t: "foldC (tallyCommission d) p ?t0 = okC t" "tallyInv d p t" using snoc.IH [of "c # q"] snoc.prems by auto
    have c: "c \<in> set ?cs" using snoc.prems by simp
    have "\<exists>t'. tallyCommission d c t = okC t' \<and> tallyInv d (p @ [c]) t'"
    proof (cases "accrual c")
      case True
      have "cID x \<noteq> cID c" if "x \<in> set p" for x
        using sorted that unfolding snoc.prems by (auto simp: sorted_wrt_append)
      then show ?thesis using tally_accrual [OF parts(2) rows [OF c] True t(2) accruedIn_range [OF inv snoc.prems]] by blast
    next
      case False
      then show ?thesis
        using tally_reversal [OF parts(2) rows [OF c] False t(2) givenBackIn_range [OF inv snoc.prems]] clawedIn_range [OF inv snoc.prems c False] by auto
    qed
    then show ?case using t(1) by (auto simp: foldC_append)
  qed
  then show ?thesis by blast
qed

lemma compare_clean:
  assumes inv: "moneyInv d" and t: "tallyInv d (commissionsOf n d) t"
    and i: "i \<in> dom (rtOriginals t) \<union> dom (rtReversed t)"
  shows "compareReversal t i r = r"
proof -
  note parts = moneyInv_parts [OF inv]
  let ?cs = "commissionsOf n d"
  have orig: "rtOriginals t i = Some v \<longleftrightarrow> (\<exists>c\<in>set ?cs. cID c = i \<and> accrual c \<and> cReversedAmount c \<noteq> 0 \<and> v = cReversedAmount c)" for i v
    using t by (simp add: tallyInv_def)
  have rows: "c \<in> set ?cs \<longleftrightarrow> dCommissions d (cID c) = Some c \<and> okTenantID (cKey c) = n" for c
    using commissionsOf_rows [OF parts(1), of n] by simp
  have "\<exists>w. dCommissions d i = Some w \<and> accrual w \<and> okTenantID (cKey w) = n"
  proof (cases "i \<in> dom (rtOriginals t)")
    case True
    then obtain c where "c \<in> set ?cs" "cID c = i" "accrual c" using orig by blast
    then show ?thesis using rows by blast
  next
    case False
    then obtain v where "rtReversed t i = Some v" using i by blast
    then obtain c where c: "c \<in> set ?cs" "\<not> accrual c" "cReverseOf c = i" using t by (auto simp: tallyInv_def)
    then obtain w where "dCommissions d i = Some w" "linked c w" using commissionsInvD(3) [OF parts(2)] rows by blast
    then show ?thesis using c(1) rows [of c] by (auto simp: linked_def)
  qed
  then obtain w where w: "dCommissions d i = Some w" "accrual w" "okTenantID (cKey w) = n" by blast
  have id: "cID w = i" using parts(8) w(1) by (auto simp: idsUpTo_def)
  have want: "getMoney (rtReversed t) i = cReversedAmount w"
    using t clawedIn_total [OF inv w] by (intro sint_eqD) (simp add: tallyInv_def)
  have got: "getMoney (rtOriginals t) i = cReversedAmount w"
  proof (cases "cReversedAmount w = 0")
    case True
    have "rtOriginals t i = None"
    proof (rule ccontr)
      assume "rtOriginals t i \<noteq> None"
      then obtain c where "c \<in> set ?cs" "cID c = i" "cReversedAmount c \<noteq> 0" using orig by blast
      then show False using rows [of c] w(1) True by auto
    qed
    then show ?thesis using True by (simp add: getMoney_def)
  next
    case False
    then have "rtOriginals t i = Some (cReversedAmount w)" using orig [of i] w id rows [of w] by blast
    then show ?thesis by (simp add: getMoney_def)
  qed
  have "\<forall>i v. rtAmount t i = Some v \<longrightarrow> (\<exists>c. dCommissions d i = Some c \<and> v = cAmount c)"
    using t by (simp add: tallyInv_def)
  then have amount: "v = cAmount w" if "rtAmount t i = Some v" for v
    using that w(1) by (metis option.inject)
  have "\<not> cAmount w <s cReversedAmount w"
    using commissionsInvD(1) [OF parts(2) w(1)] w(2) by (simp add: commissionRow_def sless_sint)
  then show ?thesis using want got amount by (auto simp: compareReversal_def Let_def split: option.split)
qed

lemma totals_clean:
  assumes inv: "moneyInv d" and t: "tallyInv d (commissionsOf n d) t" and a: "a \<in> set (listedAccounts n d)"
  shows "compareTotals t a r = okC (checkedOne r)"
proof -
  note parts = moneyInv_parts [OF inv]
  have row: "accountOf d (aKey a) = a" "ukTenantID (aKey a) = n"
    using accountsOf_row [OF parts(1)] a by (auto simp: listedAccounts_def)
  then have key: "aKey a = UserKey n (ukUserID (aKey a))" by (metis user_key.collapse)
  have books: "booksAt a (aKey a) d" using parts(4) row(1) by (metis booksOk_def)
  have "sint (aTotalEarned a) = commSum earnedShare (aKey a) d" "sint (aTotalReversed a) = commSum reversedShare (aKey a) d"
    using books by (simp_all add: booksAt_def)
  moreover have "sint (getMoney (rtAccruedBy t) (ukUserID (aKey a))) = commSum earnedShare (aKey a) d"
    "sint (getMoney (rtReversedBy t) (ukUserID (aKey a))) = commSum reversedShare (aKey a) d"
    using t accruedIn_total [OF parts(1), of n "ukUserID (aKey a)"] givenBackIn_total [OF inv, of n "ukUserID (aKey a)"] key
    by (simp_all add: tallyInv_def)
  ultimately have "aTotalEarned a = getMoney (rtAccruedBy t) (ukUserID (aKey a))"
    "aTotalReversed a = getMoney (rtReversedBy t) (ukUserID (aKey a))"
    by (auto intro: sint_eqD)
  then show ?thesis by (simp add: compareTotals_def Let_def)
qed

lemma clean_checked: "cleanResult name k r \<Longrightarrow> cleanResult name (k + length as) (fold (\<lambda>a. checkedOne) as r)"
  using cleanResult_checked [of name] by (induction as arbitrary: k r) (simp_all, fastforce)

lemma reversal_result:
  assumes inv: "moneyInv d"
  shows "\<exists>r. checkReversalReconciliation n d = okC r \<and> cleanResult ''I3: reversal accumulator, state and account totals reconcile''
    (length (filter tallied (commissionsOf n d)) + length (listedAccounts n d)) r"
proof -
  note wf = moneyInv_parts(1) [OF inv]
  obtain t where run: "foldC (tallyCommission d) (commissionsOf n d)
      \<lparr>rtRes = newInvariant ''I3: reversal accumulator, state and account totals reconcile'', rtOriginals = Map.empty,
        rtReversed = Map.empty, rtAmount = Map.empty, rtAccruedBy = Map.empty, rtReversedBy = Map.empty\<rparr> = okC t"
    and t: "tallyInv d (commissionsOf n d) t" using tally_all [OF inv] by blast
  let ?ids = "sorted_list_of_set (dom (rtOriginals t) \<union> dom (rtReversed t))"
  have "set ?ids = dom (rtOriginals t) \<union> dom (rtReversed t)" using t by (simp add: tallyInv_def)
  then have "fold (compareReversal t) ?ids (rtRes t) = fold (\<lambda>i r. r) ?ids (rtRes t)"
    using compare_clean [OF inv t] by (intro fold_cong) (auto simp: fun_eq_iff)
  moreover have "fold (\<lambda>i r. r) xs q = q" for xs :: "int list" and q :: invariant_result by (induction xs) auto
  ultimately have same: "fold (compareReversal t) ?ids (rtRes t) = rtRes t" by simp
  have "foldC (compareTotals t) (listedAccounts n d) (rtRes t) =
      okC (fold (\<lambda>a. checkedOne) (listedAccounts n d) (rtRes t))"
    by (rule foldC_ok) (rule totals_clean [OF inv t])
  then have "checkReversalReconciliation n d = okC (fold (\<lambda>a. checkedOne) (listedAccounts n d) (rtRes t))"
    unfolding checkReversalReconciliation_def commissions_loop [OF wf] accounts_loop [OF wf] listedAccounts_def [symmetric]
    by (simp add: run same)
  moreover have "cleanResult ''I3: reversal accumulator, state and account totals reconcile''
      (length (filter tallied (commissionsOf n d))) (rtRes t)"
    using t by (simp add: tallyInv_def)
  ultimately show ?thesis using clean_checked by blast
qed

text \<open>
  C30. The reversal check of a reachable state always ends without an error and finds nothing: every
  accumulator equals the sum of the reversal records behind it, lies between zero and the amount
  and agrees with the state, every reversal record points at an accrual, and the earned and
  reversed totals of every account are the roll-ups of its commissions. It has then examined every
  commission with something reversed, every reversal record and every account of the tenant.
\<close>

theorem reversal_check_passes:
  assumes "reachable s"
  shows "\<exists>r. checkReversalReconciliation n (stData s) = Some (Inr r) \<and> irOK r \<and> irTotalViolations r = 0 \<and> irViolations r = [] \<and>
    irChecked r = length (filter tallied (commissionsOf n (stData s))) + length (listedAccounts n (stData s))"
  using reversal_result [OF money_steps.reachable_holds [OF assms], of n] by (auto simp: okC_def cleanResult_def)

theorem reversal_check_passes_witness:
  "\<exists>r. checkReversalReconciliation 1 (stData demo3) = Some (Inr r) \<and> irOK r"
  using reversal_check_passes [OF demo_reachable(3), of 1] by blast

end
