(* ===== verification/Linkage.thy ===== *)
theory Linkage
  imports AccrualSpec
begin

text \<open>
  The references between the journal and the records: every entry that names a commission or a
  withdrawal names one of its tenant, every commission has the entry that booked it, and every
  withdrawal has the entry of its hold and, once decided, of its payment or its release.
\<close>

subsection \<open>References\<close>

definition refersTo :: "data \<Rightarrow> ledger_entry \<Rightarrow> bool" where
  "refersTo d e \<longleftrightarrow>
     (referencesCommission (leBizType e) \<longrightarrow>
        (\<exists>i c. leBizID e = formatInt i \<and> dCommissions d i = Some c \<and> okTenantID (cKey c) = ukTenantID (leKey e))) \<and>
     (referencesWithdrawal (leBizType e) \<longrightarrow>
        (\<exists>i w. leBizID e = formatInt i \<and> dWithdrawals d i = Some w \<and> ukTenantID (wKey w) = ukTenantID (leKey e)))"

definition journalled :: "data \<Rightarrow> ledger_biz_type set \<Rightarrow> int \<Rightarrow> int \<Rightarrow> bool" where
  "journalled d kinds tenant i \<longleftrightarrow>
     (\<exists>j e. dLedger d j = Some e \<and> leBizType e \<in> kinds \<and> leBizID e = formatInt i \<and> ukTenantID (leKey e) = tenant)"

definition commissionKinds :: "ledger_biz_type set" where
  "commissionKinds = {LedgerAccrue, LedgerReverse, LedgerVoid}"

definition withdrawalLinked :: "data \<Rightarrow> int \<Rightarrow> withdrawal \<Rightarrow> bool" where
  "withdrawalLinked d i w \<longleftrightarrow>
     (wState w = WithdrawalPaid \<longrightarrow> journalled d {LedgerWithdrawPaid} (ukTenantID (wKey w)) i) \<and>
     (wState w = WithdrawalRejected \<longrightarrow> journalled d {LedgerWithdrawRefund} (ukTenantID (wKey w)) i)"

text \<open>The records whose own entry is still to come, inside a transaction, are the set \<open>S\<close>.\<close>

definition linksBut :: "int set \<Rightarrow> data \<Rightarrow> bool" where
  "linksBut S d \<longleftrightarrow> (\<forall>j e. dLedger d j = Some e \<longrightarrow> refersTo d e) \<and>
     (\<forall>i c. dCommissions d i = Some c \<longrightarrow> i \<in> S \<or> journalled d commissionKinds (okTenantID (cKey c)) i) \<and>
     (\<forall>i w. dWithdrawals d i = Some w \<longrightarrow>
        (i \<in> S \<or> journalled d {LedgerWithdrawHold} (ukTenantID (wKey w)) i) \<and> withdrawalLinked d i w)"

abbreviation linksOk :: "data \<Rightarrow> bool" where
  "linksOk \<equiv> linksBut {}"

lemma linksOk_newData: "linksOk newData"
  by (simp add: linksBut_def newData_def)

lemma linksButD:
  assumes "linksBut S d"
  shows "dLedger d j = Some e \<Longrightarrow> refersTo d e"
    "dCommissions d i = Some c \<Longrightarrow> i \<in> S \<or> journalled d commissionKinds (okTenantID (cKey c)) i"
    "dWithdrawals d i = Some w \<Longrightarrow> i \<in> S \<or> journalled d {LedgerWithdrawHold} (ukTenantID (wKey w)) i"
    "dWithdrawals d i = Some w \<Longrightarrow> withdrawalLinked d i w"
  using assms unfolding linksBut_def by metis+

text \<open>Rows keep their keys and stay: references stay good.\<close>

definition keysKept :: "data \<Rightarrow> data \<Rightarrow> bool" where
  "keysKept d d' \<longleftrightarrow>
     (\<forall>i c. dCommissions d i = Some c \<longrightarrow> (\<exists>c'. dCommissions d' i = Some c' \<and> cKey c' = cKey c)) \<and>
     (\<forall>i w. dWithdrawals d i = Some w \<longrightarrow> (\<exists>w'. dWithdrawals d' i = Some w' \<and> wKey w' = wKey w)) \<and>
     dLedger d \<subseteq>\<^sub>m dLedger d'"

lemma refersTo_kept: "keysKept d d' \<Longrightarrow> refersTo d e \<Longrightarrow> refersTo d' e"
  unfolding keysKept_def refersTo_def by metis

lemma journalled_kept: "keysKept d d' \<Longrightarrow> journalled d kinds n i \<Longrightarrow> journalled d' kinds n i"
  unfolding keysKept_def journalled_def map_le_def by (metis domI)

lemma withdrawalLinked_kept:
  "keysKept d d' \<Longrightarrow> withdrawalLinked d i w \<Longrightarrow> wKey w' = wKey w \<Longrightarrow>
   wState w' = wState w \<or> withdrawalReserved (wState w') \<Longrightarrow> withdrawalLinked d' i w'"
  by (auto simp: withdrawalLinked_def withdrawalReserved_def intro: journalled_kept)

text \<open>The three kinds of change.\<close>

lemma linksBut_kept:
  assumes links: "linksBut S d" and kept: "keysKept d d'" and led: "dLedger d' = dLedger d"
    and comms: "\<And>i c'. dCommissions d' i = Some c' \<Longrightarrow> i \<in> S \<or> (\<exists>c. dCommissions d i = Some c \<and> cKey c' = cKey c)"
    and wds: "\<And>i w'. dWithdrawals d' i = Some w' \<Longrightarrow>
      (\<exists>w. dWithdrawals d i = Some w \<and> wKey w' = wKey w \<and>
         (wState w' = wState w \<or> withdrawalReserved (wState w') \<or> withdrawalLinked d' i w')) \<or>
      i \<in> S \<and> withdrawalLinked d' i w'"
  shows "linksBut S d'"
  unfolding linksBut_def
proof (intro conjI allI impI)
  fix j e assume "dLedger d' j = Some e"
  then show "refersTo d' e" using linksButD(1) [OF links] led refersTo_kept [OF kept] by simp
next
  fix i c' assume "dCommissions d' i = Some c'"
  then show "i \<in> S \<or> journalled d' commissionKinds (okTenantID (cKey c')) i"
    using comms [of i c'] linksButD(2) [OF links, of i] journalled_kept [OF kept] by auto
next
  fix i w' assume w': "dWithdrawals d' i = Some w'"
  show "i \<in> S \<or> journalled d' {LedgerWithdrawHold} (ukTenantID (wKey w')) i"
    using wds [OF w'] linksButD(3) [OF links, of i] journalled_kept [OF kept] by fastforce
  show "withdrawalLinked d' i w'"
    using wds [OF w'] linksButD(4) [OF links, of i] withdrawalLinked_kept [OF kept] by blast
qed

lemma linksBut_more: "linksBut S d \<Longrightarrow> S \<subseteq> S' \<Longrightarrow> linksBut S' d"
  unfolding linksBut_def by blast

lemma linksBut_same:
  "linksBut S d \<Longrightarrow> dLedger d' = dLedger d \<Longrightarrow> dCommissions d' = dCommissions d \<Longrightarrow> dWithdrawals d' = dWithdrawals d \<Longrightarrow>
   linksBut S d'"
  by (simp add: linksBut_def refersTo_def journalled_def withdrawalLinked_def)

lemma linksBut_setCommission:
  assumes "linksBut S d" "dCommissions d i = Some c" "cKey c' = cKey c"
    "dCommissions d' = (dCommissions d)(i \<mapsto> c')" "dLedger d' = dLedger d" "dWithdrawals d' = dWithdrawals d"
  shows "linksBut S d'"
proof (rule linksBut_kept [OF assms(1)])
  show "keysKept d d'" using assms(2-6) by (simp add: keysKept_def)
qed (use assms in \<open>auto split: if_splits\<close>)

lemma linksBut_setWithdrawal:
  assumes "linksBut S d" "dWithdrawals d i = Some w" "wKey w' = wKey w" "withdrawalReserved (wState w') \<or> withdrawalLinked d i w'"
    "dWithdrawals d' = (dWithdrawals d)(i \<mapsto> w')" "dLedger d' = dLedger d" "dCommissions d' = dCommissions d"
  shows "linksBut S d'"
proof (rule linksBut_kept [OF assms(1)])
  show kept: "keysKept d d'" using assms(2,3,5-7) by (simp add: keysKept_def)
  have "withdrawalLinked d i w' \<Longrightarrow> withdrawalLinked d' i w'" using withdrawalLinked_kept [OF kept] by blast
  then show "(\<exists>w. dWithdrawals d j = Some w \<and> wKey x = wKey w \<and>
      (wState x = wState w \<or> withdrawalReserved (wState x) \<or> withdrawalLinked d' j x)) \<or> j \<in> S \<and> withdrawalLinked d' j x"
    if "dWithdrawals d' j = Some x" for j x
    using that assms(2-5) by (auto split: if_splits)
qed (use assms in auto)

lemma linksBut_newCommission:
  assumes "linksBut S d" "dCommissions d i = None"
    "dCommissions d' = (dCommissions d)(i \<mapsto> c)" "dLedger d' = dLedger d" "dWithdrawals d' = dWithdrawals d"
  shows "linksBut (insert i S) d'"
proof (rule linksBut_kept [OF linksBut_more [OF assms(1)]])
  show "keysKept d d'" using assms(2-5) by (auto simp: keysKept_def)
qed (use assms in \<open>auto split: if_splits\<close>)

lemma linksBut_newWithdrawal:
  assumes "linksBut S d" "dWithdrawals d i = None" "withdrawalReserved (wState w)"
    "dWithdrawals d' = (dWithdrawals d)(i \<mapsto> w)" "dLedger d' = dLedger d" "dCommissions d' = dCommissions d"
  shows "linksBut (insert i S) d'"
proof (rule linksBut_kept [OF linksBut_more [OF assms(1)]])
  show "keysKept d d'" using assms(2-6) by (auto simp: keysKept_def)
  have "withdrawalLinked d' i w" using assms(3) by (auto simp: withdrawalLinked_def withdrawalReserved_def)
  then show "(\<exists>w. dWithdrawals d j = Some w \<and> wKey x = wKey w \<and>
      (wState x = wState w \<or> withdrawalReserved (wState x) \<or> withdrawalLinked d' j x)) \<or> j \<in> insert i S \<and> withdrawalLinked d' j x"
    if "dWithdrawals d' j = Some x" for j x
    using that assms(4) by (auto split: if_splits)
qed (use assms in auto)

text \<open>An entry: it must refer to a record, and it settles the record it names.\<close>

lemma linksBut_entry:
  assumes links: "linksBut S d" and new: "dLedger d j = None" and e: "refersTo d e"
    and d': "dLedger d' = (dLedger d)(j \<mapsto> e)" "dCommissions d' = dCommissions d" "dWithdrawals d' = dWithdrawals d"
  shows "linksBut S d'"
proof -
  have kept: "keysKept d d'" using new d' by (auto simp: keysKept_def map_le_def)
  show ?thesis
    unfolding linksBut_def
  proof (intro conjI allI impI)
    fix k x assume "dLedger d' k = Some x"
    then show "refersTo d' x"
      using linksButD(1) [OF links, of k x] e refersTo_kept [OF kept] d'(1) by (auto split: if_splits)
  next
    fix i c assume "dCommissions d' i = Some c"
    then show "i \<in> S \<or> journalled d' commissionKinds (okTenantID (cKey c)) i"
      using linksButD(2) [OF links, of i c] journalled_kept [OF kept] d'(2) by auto
  next
    fix i w assume w: "dWithdrawals d' i = Some w"
    show "i \<in> S \<or> journalled d' {LedgerWithdrawHold} (ukTenantID (wKey w)) i"
      using w linksButD(3) [OF links, of i w] journalled_kept [OF kept] d'(3) by auto
    show "withdrawalLinked d' i w"
      using w linksButD(4) [OF links, of i w] withdrawalLinked_kept [OF kept] d'(3) by auto
  qed
qed

lemma linksBut_settled:
  assumes links: "linksBut (insert i S) d"
    and comm: "\<And>c. dCommissions d i = Some c \<Longrightarrow> journalled d commissionKinds (okTenantID (cKey c)) i"
    and wd: "\<And>w. dWithdrawals d i = Some w \<Longrightarrow> journalled d {LedgerWithdrawHold} (ukTenantID (wKey w)) i"
  shows "linksBut S d"
  using links comm wd unfolding linksBut_def by blast

subsection \<open>Postings\<close>

lemma postWith_entry:
  assumes "postWith delta f t = (Inr u, t')"
  obtains a where "dLedger (txD t') = (dLedger (txD t))(dNextID (txD t) + 1 \<mapsto> (f a)\<lparr>leID := dNextID (txD t) + 1\<rparr>)"
    "dCommissions (txD t') = dCommissions (txD t)" "dWithdrawals (txD t') = dWithdrawals (txD t)"
proof -
  obtain a t1 e where inc: "IncrementAccount delta t = (Inr a, t1)" and app: "AppendLedger (f a) t1 = (Inr e, t')"
    using assms unfolding postWith_def by (auto elim!: andThen_InrE)
  obtain r where r: "txD t1 = addAccount r (txD t)" using inc by (rule IncrementAccount_exact)
  show thesis
    by (rule that [of a]) (simp_all add: AppendLedger_Inr(1,2) [OF app] r addLedger_def addAccount_def)
qed

text \<open>What an entry says of its record: its kind, its number and its tenant.\<close>

definition names :: "(account \<Rightarrow> ledger_entry) \<Rightarrow> ledger_biz_type set \<Rightarrow> int \<Rightarrow> int \<Rightarrow> bool" where
  "names f kinds tenant i \<longleftrightarrow>
     (\<forall>a. leBizType (f a) \<in> kinds \<and> leBizID (f a) = formatInt i \<and> ukTenantID (leKey (f a)) = tenant)"

lemma posted_journalled:
  assumes "postWith delta f t = (Inr u, t')" "names f kinds tenant i"
  shows "journalled (txD t') kinds tenant i"
  using assms(1)
proof (rule postWith_entry)
  fix a
  assume "dLedger (txD t') = (dLedger (txD t))(dNextID (txD t) + 1 \<mapsto> (f a)\<lparr>leID := dNextID (txD t) + 1\<rparr>)"
  then show ?thesis
    unfolding journalled_def using assms(2)
    by (intro exI [of _ "dNextID (txD t) + 1"] exI [of _ "(f a)\<lparr>leID := dNextID (txD t) + 1\<rparr>"]) (simp add: names_def)
qed

lemma posted_links:
  assumes wf: "storeWf (txD t)" and links: "linksBut S (txD t)" and post: "postWith delta f t = (Inr u, t')"
    and refs: "\<And>a. refersTo (txD t) (f a)"
  shows "linksBut S (txD t')"
  using post
proof (rule postWith_entry)
  fix a
  assume d': "dLedger (txD t') = (dLedger (txD t))(dNextID (txD t) + 1 \<mapsto> (f a)\<lparr>leID := dNextID (txD t) + 1\<rparr>)"
    "dCommissions (txD t') = dCommissions (txD t)" "dWithdrawals (txD t') = dWithdrawals (txD t)"
  have "dLedger (txD t) (dNextID (txD t) + 1) = None" by (rule idsUpTo_fresh [OF storeWf_parts(8) [OF wf]])
  moreover have "refersTo (txD t) ((f a)\<lparr>leID := dNextID (txD t) + 1\<rparr>)" using refs [of a] by (simp add: refersTo_def)
  ultimately show ?thesis using linksBut_entry [OF links _ _ d'] by blast
qed

lemma posted_same:
  assumes "postWith delta f t = (Inr u, t')"
  shows "dCommissions (txD t') = dCommissions (txD t)" "dWithdrawals (txD t') = dWithdrawals (txD t)"
  using assms by (auto elim: postWith_entry)

lemma names_at:
  "names f kinds tenant i \<Longrightarrow> leBizType (f a) \<in> kinds \<and> leBizID (f a) = formatInt i \<and> ukTenantID (leKey (f a)) = tenant"
  by (simp add: names_def)

lemma commission_refers:
  "names f commissionKinds tenant i \<Longrightarrow> dCommissions d i = Some c \<Longrightarrow> okTenantID (cKey c) = tenant \<Longrightarrow> refersTo d (f a)"
  by (drule names_at [of _ _ _ _ a]) (auto simp: refersTo_def commissionKinds_def referencesWithdrawal_def)

lemma withdrawal_refers:
  "names f {k} tenant i \<Longrightarrow> referencesWithdrawal k \<Longrightarrow> dWithdrawals d i = Some w \<Longrightarrow> ukTenantID (wKey w) = tenant \<Longrightarrow>
   refersTo d (f a)"
  by (drule names_at [of _ _ _ _ a]) (auto simp: refersTo_def referencesWithdrawal_def referencesCommission_def)

lemma posted_commission:
  assumes "storeWf (txD t)" "linksBut {i} (txD t)" "postWith delta f t = (Inr u, t')"
    and "names f commissionKinds tenant i" "dCommissions (txD t) i = Some c" "okTenantID (cKey c) = tenant"
    and "dWithdrawals (txD t) i = None"
  shows "linksOk (txD t')"
proof (rule linksBut_settled)
  show "linksBut {i} (txD t')" using posted_links [OF assms(1-3)] commission_refers [OF assms(4-6)] .
qed (use posted_same [OF assms(3)] posted_journalled [OF assms(3,4)] assms(5-7) in auto)

lemma posted_hold:
  assumes "storeWf (txD t)" "linksBut {i} (txD t)" "postWith delta f t = (Inr u, t')"
    and "names f {LedgerWithdrawHold} tenant i" "dWithdrawals (txD t) i = Some w" "ukTenantID (wKey w) = tenant"
    and "dCommissions (txD t) i = None"
  shows "linksOk (txD t')"
proof (rule linksBut_settled)
  show "linksBut {i} (txD t')"
    using posted_links [OF assms(1-3)] withdrawal_refers [OF assms(4) _ assms(5,6)] by (simp add: referencesWithdrawal_def)
qed (use posted_same [OF assms(3)] posted_journalled [OF assms(3,4)] assms(5-7) in auto)

subsection \<open>The blocks of the engine\<close>

lemma fresh_rows:
  assumes "storeWf d"
  shows "dCommissions d (dNextID d + 1) = None" "dWithdrawals d (dNextID d + 1) = None"
  using idsUpTo_fresh storeWf_parts(7,9) [OF assms] by auto

lemma AppendCommission_links:
  assumes "storeWf (txD t)" "linksOk (txD t)" "AppendCommission c0 t = (Inr c, t')"
  shows "linksBut {cID c} (txD t')" "dCommissions (txD t') (cID c) = Some c" "dWithdrawals (txD t') (cID c) = None"
proof -
  note eff = AppendCommission_Inr(1,2) [OF assms(3)]
  show "linksBut {cID c} (txD t')"
    by (rule linksBut_newCommission [OF assms(2), where c = c])
      (simp_all add: eff(1) addCommission_def, simp add: eff(2) fresh_rows [OF assms(1)])
  show "dCommissions (txD t') (cID c) = Some c" "dWithdrawals (txD t') (cID c) = None"
    by (simp_all add: eff(1) addCommission_def, simp add: eff(2) fresh_rows [OF assms(1)])
qed

lemma accrual_links:
  assumes "storeWf (txD t)" "linksOk (txD t)" "AppendCommission c0 t = (Inr c, t1)" "creditAccrual c now t1 = (Inr u, t2)"
  shows "linksOk (txD t2)"
  by (rule posted_commission [OF storeWf_AppendCommission [OF assms(1,3)] AppendCommission_links(1) [OF assms(1-3)]
        assms(4) [unfolded creditAccrual_post] _ AppendCommission_links(2) [OF assms(1-3)] refl
        AppendCommission_links(3) [OF assms(1-3)]])
    (simp add: names_def commissionKinds_def agentKeyOf_def)

lemma setReversed_links:
  assumes "linksBut S (txD t)" "SetCommissionReversedAmount i m v t = (Inr c, t')"
  shows "linksBut S (txD t')"
  using assms(2)
proof (cases rule: SetCommissionReversedAmount_Inr)
  case (set c0)
  show ?thesis by (rule linksBut_setCommission [OF assms(1) set(1), of c]) (simp_all add: set(5,6) setCommission_def)
qed (use assms(1) in simp)

lemma transition_links:
  assumes "linksBut S (txD t)" "TransitionCommission i from to v t = (Inr c, t')"
  shows "linksBut S (txD t')"
  using assms(2)
proof (cases rule: TransitionCommission_Inr)
  case (1 c0)
  show ?thesis by (rule linksBut_setCommission [OF assms(1) 1(1), of c]) (simp_all add: 1(5,6) setCommission_def)
qed

text \<open>A change of a commission in place keeps the links, the key of every row and the withdrawals.\<close>

definition keyAt :: "data \<Rightarrow> int \<Rightarrow> order_key \<Rightarrow> bool" where
  "keyAt d i k \<longleftrightarrow> (\<exists>c. dCommissions d i = Some c \<and> cKey c = k) \<and> dWithdrawals d i = None"


lemma setReversed_key: "SetCommissionReversedAmount i m v t = (Inr c, t') \<Longrightarrow> keyAt (txD t) j k \<Longrightarrow> keyAt (txD t') j k"
  by (erule SetCommissionReversedAmount_Inr) (auto simp: setCommission_def keyAt_def)

lemma transition_key: "TransitionCommission i from to v t = (Inr c, t') \<Longrightarrow> keyAt (txD t) j k \<Longrightarrow> keyAt (txD t') j k"
  by (erule TransitionCommission_Inr) (auto simp: setCommission_def keyAt_def)

lemma clawBack_links:
  assumes wf: "storeWf (txD t)" and links: "linksOk (txD t)"
    and run: "clawBack l p delta target terminal reason at t = (Inr r, t4)"
  shows "linksOk (txD t4)"
  using run
proof (rule clawBack_Inr)
  fix t1 t2 t3 p1 p2 bkt nn reason'
  assume app: "AppendCommission (reversalRecord l p delta target at) t = (Inr r, t1)"
    and sr: "SetCommissionReversedAmount (cID p) target (cVersion p) t1 = (Inr p1, t2)"
    and tr: "if FullyReversed p1 \<and> cState p1 \<noteq> terminal
       then TransitionCommission (cID p1) (cState p1) terminal (cVersion p1) t2 = (Inr p2, t3) else p2 = p1 \<and> t3 = t2"
    and post: "postWith (debitDelta p bkt delta at nn) (debitEntry p bkt delta reason' (cID r) target (cAmount p2) at) t3 = (Inr (), t4)"
  note start = AppendCommission_links [OF wf links app]
  have key: "cKey r = cKey p" using AppendCommission_Inr(2) [OF app] by (simp add: reversalRecord_def zeroCommission_def)
  have wf2: "storeWf (txD t2)"
    by (rule storeWf_SetCommissionReversedAmount [OF storeWf_AppendCommission [OF wf app] sr])
  have k2: "keyAt (txD t2) (cID r) (cKey p)"
    by (rule setReversed_key [OF sr]) (use start(2,3) key in \<open>simp add: keyAt_def\<close>)
  have "storeWf (txD t3) \<and> linksBut {cID r} (txD t3) \<and> keyAt (txD t3) (cID r) (cKey p)"
  proof (cases "FullyReversed p1 \<and> cState p1 \<noteq> terminal")
    case True
    then have tr': "TransitionCommission (cID p1) (cState p1) terminal (cVersion p1) t2 = (Inr p2, t3)" using tr by simp
    show ?thesis
      using storeWf_TransitionCommission [OF wf2 tr'] transition_links [OF setReversed_links [OF start(1) sr] tr']
        transition_key [OF tr' k2] by simp
  next
    case False
    then have "t3 = t2" using tr by (simp only: if_False)
    then show ?thesis using wf2 setReversed_links [OF start(1) sr] k2 by simp
  qed
  then have wf3: "storeWf (txD t3)" and l3: "linksBut {cID r} (txD t3)" and k3: "keyAt (txD t3) (cID r) (cKey p)" by auto
  obtain c where c: "dCommissions (txD t3) (cID r) = Some c" "okTenantID (cKey c) = okTenantID (cKey p)"
    "dWithdrawals (txD t3) (cID r) = None" using k3 by (auto simp: keyAt_def)
  show ?thesis
    by (rule posted_commission [OF wf3 l3 post _ c])
      (simp add: names_def debitEntry_def commissionKinds_def)
qed

lemma settle_links:
  assumes wf: "storeWf (txD t)" and links: "linksOk (txD t)" and run: "settleOne c m now t = (Inr x, t')"
  shows "linksOk (txD t')"
proof -
  obtain c' t1 where tr: "TransitionCommission (cID c) CommissionPending CommissionSettled (cVersion c) t = (Inr c', t1)"
    and post: "postWith (settleDelta c m now) (settleEntry c m now) t1 = (Inr (), t')"
    using run by (rule settleOne_Inr)
  show ?thesis
    by (rule posted_links [OF storeWf_TransitionCommission [OF wf tr] transition_links [OF links tr] post])
      (simp add: refersTo_def settleEntry_def referencesCommission_def referencesWithdrawal_def)
qed

lemma hold_links:
  assumes wf: "storeWf (txD t)" and links: "linksOk (txD t)" and app: "AppendWithdrawal w0 t = (Inr w, t1)"
    and post: "postWith delta f t1 = (Inr u, t2)" and res: "withdrawalReserved (wState w0)"
    and f: "names f {LedgerWithdrawHold} (ukTenantID (wKey w0)) (wID w)"
  shows "linksOk (txD t2)"
proof -
  note eff = AppendWithdrawal_Inr(1,2) [OF app]
  have links1: "linksBut {wID w} (txD t1)"
    by (rule linksBut_newWithdrawal [OF links, where w = w])
      (simp_all add: eff(1) addWithdrawal_def, simp_all add: eff(2) fresh_rows [OF wf] res)
  have row: "dWithdrawals (txD t1) (wID w) = Some w" "dCommissions (txD t1) (wID w) = None"
    by (simp_all add: eff(1) addWithdrawal_def, simp add: eff(2) fresh_rows [OF wf])
  show ?thesis
    by (rule posted_hold [OF storeWf_AppendWithdrawal [OF wf app] links1 post f row(1) _ row(2)]) (simp add: eff(2))
qed

lemma rereserve_links:
  assumes "linksOk (txD t)" "TransitionWithdrawal i from to v patch t = (Inr w', t')" "withdrawalReserved to"
  shows "linksOk (txD t')"
  using assms(2)
proof (cases rule: TransitionWithdrawal_Inr)
  case (1 w)
  show ?thesis
    by (rule linksBut_setWithdrawal [OF assms(1) 1(1), of w']) (simp_all add: 1(5,6) assms(3))
qed

lemma release_links:
  assumes wf: "storeWf (txD t)" and links: "linksOk (txD t)" and row: "dWithdrawals (txD t) i = Some w"
    and post: "postWith delta f t = (Inr u, t1)" and f: "names f {k} (ukTenantID (wKey w)) i"
    and tr: "TransitionWithdrawal i from to v patch t1 = (Inr w', t2)"
    and k: "to = WithdrawalPaid \<and> k = LedgerWithdrawPaid \<or> to = WithdrawalRejected \<and> k = LedgerWithdrawRefund"
  shows "linksOk (txD t2)"
proof -
  have links1: "linksOk (txD t1)"
    using posted_links [OF wf links post] withdrawal_refers [OF f _ row refl] k by (auto simp: referencesWithdrawal_def)
  have j: "journalled (txD t1) {k} (ukTenantID (wKey w)) i" by (rule posted_journalled [OF post f])
  from tr show ?thesis
  proof (cases rule: TransitionWithdrawal_Inr)
    case (1 x)
    have x: "x = w" using 1(1) row posted_same(2) [OF post] by simp
    have "withdrawalLinked (txD t1) i w'" using j k by (auto simp: withdrawalLinked_def 1(5) x)
    then show ?thesis
      by (intro linksBut_setWithdrawal [OF links1 1(1), of w']) (simp_all add: 1(5,6))
  qed
qed

subsection \<open>Bodies\<close>

text \<open>A refund keeps what its clawbacks and its vouchers keep.\<close>

context commit_contract
begin

lemma safe_refunds:
  assumes claw: "\<And>p delta target terminal reason at. \<not> delta <=s 0 \<Longrightarrow>
      safe (sound d0) d0 (clawBack l p delta target terminal reason at)"
    and refund: "\<And>r. safe (sound d0) d0 (AppendRefund r)"
  shows "safe (sound d0) d0 (orderRefundedBody l ev)"
proof -
  have step: "safe (sound d0) d0 (reverseStep l base cumulative at c result)" for base cumulative at c result
  proof -
    obtain delta target skip where rd: "reversalDelta c cumulative base CommissionReversed = (delta, target, skip)"
      by (cases "reversalDelta c cumulative base CommissionReversed")
    show ?thesis
      unfolding reverseStep_def rd prod.case
      by (cases skip; simp only: option.case)
        (intro safe_if safe_sound_ret safe_attempt [where handled = "\<lambda>e. e = ErrDuplicate", OF claw];
          auto simp: safe_throw safe_sound_ret dest: clawBack_duplicate split: sum.split)+
  qed
  have item: "safe (sound d0) d0 (refundItem l ev groups cumulative shares itemID result)" for groups cumulative shares itemID result
    unfolding refundItem_def reverseItem_def Let_def
    by (intro safe_if safe_sound_ret safe_attempt [where handled = "\<lambda>e. e = ErrDuplicate", OF refund])
      (auto simp: safe_throw safe_sound_ret dest: writer_Inl(9) intro!: safe_if safe_loop step)
  show ?thesis
    unfolding orderRefundedBody_def cumulativeRefunds_def Let_def
    by (intro safe_rules safe_bind safe_loop item)
qed

end

definition linkedInv :: "data \<Rightarrow> bool" where
  "linkedInv d \<longleftrightarrow> storeWf d \<and> linksOk d"

interpretation links: commit_contract linkedInv
  by unfold_locales (simp add: linkedInv_def)

lemma link_step:
  assumes "keeps (\<lambda>t. historyInv d0 (txD t)) m"
    and "\<And>t x t'. linkedInv (txD t) \<Longrightarrow> m t = (Inr x, t') \<Longrightarrow> linksOk (txD t')"
  shows "links.safe (links.sound d0) d0 m"
proof (rule links.safeI [OF assms(1)])
  fix t x t'
  assume t: "links.sound d0 t" and run: "m t = (Inr x, t')"
  have "historyInv d0 (txD t')" using keeps_resultD [OF assms(1), of t] links.sound_parts(2) [OF t] run by simp
  then show "linkedInv (txD t')"
    using assms(2) [OF links.sound_parts(1) [OF t] run] by (simp add: linkedInv_def historyInv_def)
qed

lemma link_frames:
  "PutAgent a t = (Inr a', t') \<Longrightarrow> linksOk (txD t) \<Longrightarrow> linksOk (txD t')"
  "PutBinding b t = (Inr b', t') \<Longrightarrow> linksOk (txD t) \<Longrightarrow> linksOk (txD t')"
  "AppendRefund r t = (Inr r', t') \<Longrightarrow> linksOk (txD t) \<Longrightarrow> linksOk (txD t')"
  by (rule linksBut_same, assumption; simp add: PutAgent_Inr(1) PutBinding_Inr(1) AppendRefund_Inr(1) addRefund_def)+

lemma available_links:
  assumes "linksOk (txD t)" "SetCommissionAvailableAt i at v t = (Inr c, t')"
  shows "linksOk (txD t')"
  using assms(2)
proof (cases rule: SetCommissionAvailableAt_Inr)
  case (set c0)
  show ?thesis by (rule linksBut_setCommission [OF assms(1) set(1), of c]) (simp_all add: set(4,5) setCommission_def)
qed (use assms(1) in simp)

lemma link_PutAgent: "links.safe (links.sound d0) d0 (PutAgent a)"
  by (rule link_step [OF history_inv.keeps_PutAgent]) (auto simp: linkedInv_def intro: link_frames)

lemma link_PutBinding: "links.safe (links.sound d0) d0 (PutBinding b)"
  by (rule link_step [OF history_inv.keeps_PutBinding]) (auto simp: linkedInv_def intro: link_frames)

lemma link_AppendRefund: "links.safe (links.sound d0) d0 (AppendRefund r)"
  by (rule link_step [OF history_inv.keeps_AppendRefund]) (auto simp: linkedInv_def intro: link_frames)

lemma link_SetCommissionAvailableAt: "links.safe (links.sound d0) d0 (SetCommissionAvailableAt i at v)"
  by (rule link_step [OF history_inv.keeps_SetCommissionAvailableAt]) (auto simp: linkedInv_def intro: available_links)

lemma link_TransitionCommission: "links.safe (links.sound d0) d0 (TransitionCommission i from to v)"
  by (rule link_step [OF history_inv.keeps_TransitionCommission]) (auto simp: linkedInv_def intro: transition_links)

lemma link_rereserve:
  "withdrawalReserved to \<Longrightarrow> links.safe (links.sound d0) d0 (TransitionWithdrawal i from to v patch)"
  by (rule link_step [OF history_inv.keeps_TransitionWithdrawal]) (auto simp: linkedInv_def intro: rereserve_links)

lemma link_settleOne: "links.safe (links.sound d0) d0 (settleOne c m now)"
  by (rule link_step [OF history_inv.keeps_settleOne]) (auto simp: linkedInv_def intro: settle_links)

lemma link_clawBack: "links.safe (links.sound d0) d0 (clawBack l p delta target terminal reason at)"
  by (rule link_step [OF history_inv.keeps_clawBack]) (auto simp: linkedInv_def intro: clawBack_links)

lemma link_bindAgent: "links.safe (links.sound d0) d0 (bindAgentBody l req)"
  unfolding bindAgentBody_def Let_def by (intro links.safe_rules link_PutAgent)

lemma link_bindBuyer: "links.safe (links.sound d0) d0 (bindBuyerBody l req boundAt)"
  unfolding bindBuyerBody_def Let_def by (intro links.safe_rules links.safe_bind link_PutBinding)

lemma link_freeze: "links.safe (links.sound d0) d0 (freezeBody n i)"
  unfolding freezeBody_def by (intro links.safe_rules link_TransitionCommission)

lemma link_unfreeze: "links.safe (links.sound d0) d0 (unfreezeBody n i)"
  unfolding unfreezeBody_def by (intro links.safe_rules link_TransitionCommission)

lemma link_approve: "links.safe (links.sound d0) d0 (approveBody l req)"
  unfolding approveBody_def by (intro links.safe_rules link_rereserve) (simp add: withdrawalReserved_def)

lemma link_payoutFailure: "links.safe (links.sound d0) d0 (payoutFailureBody cur reason operator)"
  unfolding payoutFailureBody_def by (intro links.safe_rules link_rereserve) (simp add: withdrawalReserved_def)

lemma link_orderReceived: "links.safe (links.sound d0) d0 (orderReceivedBody key at)"
proof -
  have "links.safe (links.sound d0) d0 (receiveOne at c result)" for c result
    unfolding receiveOne_def
    by (intro links.safe_if links.safe_sound_ret links.safe_attempt [where handled = isConflict, OF link_SetCommissionAvailableAt])
      (auto simp: links.safe_sound_ret dest: writer_Inl(6))
  then show ?thesis unfolding orderReceivedBody_def by (intro links.safe_look links.safe_loop)
qed

lemma link_settleRound: "links.safe (links.sound d0) d0 (settleRound tenantID now limit)"
  unfolding settleRound_def
proof (intro links.safe_look links.safe_loop)
  fix c and acc :: "nat \<times> money \<times> int list"
  show "links.safe (links.sound d0) d0 (settleStep now c acc)"
    unfolding settleStep_def Let_def
    by (cases acc, simp only: prod.case,
        intro links.safe_if links.safe_sound_ret links.safe_attempt [where handled = isConflict, OF link_settleOne])
      (auto simp: links.safe_throw links.safe_sound_ret dest: settleOne_conflict split: sum.split)
qed

lemma link_accrueLayers: "links.safe (links.sound d0) d0 (accrueLayers l ev base capAmount layers agentUserID allocated result)"
proof (induction layers arbitrary: agentUserID allocated result)
  case Nil
  show ?case by (simp add: links.safe_ret)
next
  case (Cons layer layers)
  have block: "linkedInv (txD t2)"
    if "linkedInv (txD t)" "AppendCommission c0 t = (Inr c, t1)" "creditAccrual c now t1 = (Inr u, t2)" for c0 c now t t1 t2 u
  proof -
    have wf: "storeWf (txD t)" and ok: "linksOk (txD t)" using that(1) by (simp_all add: linkedInv_def)
    have "storeWf (txD t2)"
      by (rule keeps_resultD [OF wf_inv.keeps_creditAccrual storeWf_AppendCommission [OF wf that(2)] that(3)])
    then show ?thesis using accrual_links [OF wf ok that(2,3)] by (simp add: linkedInv_def)
  qed
  show ?case unfolding accrueLayers.simps(2) Let_def
    by (intro links.safe_rules Cons.IH links.safe_block history_inv.keeps_ops history_inv.keeps_creditAccrual)
      ((erule (2) block | erule writer_Inl(5) | simp)+)
qed

lemma link_orderPaid: "links.safe (links.sound d0) d0 (orderPaidBody l ev)"
  unfolding orderPaidBody_def accrueBases_def accrueBase_def Let_def
  by (intro links.safe_rules links.safe_bind links.safe_loop link_accrueLayers)
    (auto intro!: links.safe_rules links.safe_bind link_accrueLayers split: prod.split)

lemma link_orderRefunded: "links.safe (links.sound d0) d0 (orderRefundedBody l ev)"
  by (rule links.safe_refunds) (rule link_clawBack link_AppendRefund)+

lemma link_void: "links.safe (links.sound d0) d0 (voidBody l tenantID commissionID)"
  unfolding voidBody_def
proof (intro links.safe_look links.safe_if links.safe_throw links.safe_sound_ret)
  fix cur
  show "links.safe (links.sound d0) d0 (case reversalDelta cur 0 1 CommissionVoid of (delta, target, skip) \<Rightarrow>
         if skip \<noteq> None then ret cur
         else attempt (clawBack l cur delta target CommissionVoid reasonVoid (lNow l)) (\<lambda>r. case r of
             Inl e \<Rightarrow> if e = ErrDuplicate then ret cur else throw e
           | Inr _ \<Rightarrow> rd (rdCommission (cID cur))))"
    by (cases "reversalDelta cur 0 1 CommissionVoid", simp only: prod.case,
        intro links.safe_if links.safe_sound_ret links.safe_attempt [where handled = "\<lambda>e. e = ErrDuplicate", OF link_clawBack])
      (auto simp: links.safe_throw links.safe_sound_ret links.safe_rd dest: clawBack_duplicate)
qed

lemma link_requestWithdraw: "links.safe (links.sound d0) d0 (requestWithdrawBody l req channel fee)"
proof -
  let ?k = "UserKey (wrTenantID req) (wrUserID req)" and ?m = "wrAmount req"
  let ?entry = "\<lambda>saved acct. bucketAddDelta BucketWithdrawing ?m
     (newLedgerEntry ?k LedgerWithdrawHold (formatInt (wID saved))
       (''withdraw request '' @ formatInt (wID saved) @ '' hold '' @ moneyString ?m @ '' fee '' @ moneyString fee)
       (lNow l) acct BucketAvailable (- ?m))"
  have block: "linkedInv (txD t2)"
    if "linkedInv (txD t)" "AppendWithdrawal w0 t = (Inr w, t1)" "postWith (holdDelta ?k ?m (lNow l)) (?entry w) t1 = (Inr u, t2)"
      "wState w0 = WithdrawalApplied" "wKey w0 = ?k" for w0 w t t1 t2 u
  proof -
    have wf: "storeWf (txD t)" and ok: "linksOk (txD t)" using that(1) by (simp_all add: linkedInv_def)
    have names: "names (?entry w) {LedgerWithdrawHold} (ukTenantID (wKey w0)) (wID w)" by (simp add: names_def that(5))
    have res: "withdrawalReserved (wState w0)" by (simp add: that(4) withdrawalReserved_def)
    have "keeps (\<lambda>t. storeWf (txD t)) (postWith (holdDelta ?k ?m (lNow l)) (?entry w))"
      unfolding postWith_def by (intro hoare_rules wf_inv.keeps_ops)
    then have "storeWf (txD t2)"
      by (rule keeps_resultD [where P = "\<lambda>t. storeWf (txD t)" and r = "Inr u" and s = t1])
        (rule storeWf_AppendWithdrawal [OF wf that(2)] that(3))+
    then show ?thesis using hold_links [OF wf ok that(2,3) res names] by (simp add: linkedInv_def)
  qed
  show ?thesis
    unfolding requestWithdrawBody_def Let_def holdDelta_def [symmetric] postWith_then
    by (intro links.safe_rules links.safe_block history_inv.keeps_ops keeps_postWith)
      (erule writer_Inl(11) | (erule (2) block; simp))+
qed

lemma reject_linked:
  assumes inv: "moneyInv (txD t)" and ok: "linksOk (txD t)" and run: "rejectBody l req t = (Inr x, t')"
  shows "linksOk (txD t')"
proof -
  have wf: "storeWf (txD t)" using inv by (rule moneyInv_parts)
  from inv run show ?thesis
  proof (rule rejectBody_runs)
    fix cur t1
    assume row: "dWithdrawals (txD t) (wID cur) = Some cur"
      and post: "postWith (releaseDelta WithdrawalRejected (wKey cur) (wAmount cur) (lNow l)) (releaseEntry cur (wdReason req) (lNow l)) t = (Inr (), t1)"
      and tr: "TransitionWithdrawal (wID cur) (wState cur) WithdrawalRejected (wVersion cur)
       (noTransition\<lparr>wtOperator := wdOperator req, wtFailReason := wdReason req, wtAuditedAt := lNow l\<rparr>) t1 = (Inr x, t')"
    show ?thesis
      by (rule release_links [OF wf ok row post _ tr, of LedgerWithdrawRefund]) (simp_all add: names_def releaseEntry_def)
  qed
qed

lemma settlePayout_linked:
  assumes inv: "moneyInv (txD t)" and ok: "linksOk (txD t)" and run: "settlePayoutBody l cur invoice operator t = (Inr x, t')"
  shows "linksOk (txD t')"
proof -
  have wf: "storeWf (txD t)" using inv by (rule moneyInv_parts)
  from inv run show ?thesis
  proof (cases rule: settlePayoutBody_runs)
    case (paid live t1)
    show ?thesis
      by (rule release_links [OF wf ok paid(1,3) _ paid(4), of LedgerWithdrawPaid]) (simp_all add: names_def paidEntry_def)
  qed (use ok in simp)
qed

subsection \<open>Every reachable state is linked\<close>

lemma linked_run:
  "links.safe (links.sound d) d fn \<Longrightarrow> moneyInv d \<and> linksOk d \<Longrightarrow> fn (fresh d) = (Inr x, t) \<Longrightarrow> linksOk (txD t)"
  using links.safe_run [OF links.safe_start, of d fn x t] moneyInv_parts(1) [of d] by (simp add: linkedInv_def)

lemma linked_decisions:
  "moneyInv d \<and> linksOk d \<Longrightarrow> rejectBody l req (fresh d) = (Inr x, t) \<Longrightarrow> linksOk (txD t)"
  "moneyInv d \<and> linksOk d \<Longrightarrow> settlePayoutBody l cur invoice who (fresh d) = (Inr y, t) \<Longrightarrow> linksOk (txD t)"
  using reject_linked [of "fresh d" l req x t] settlePayout_linked [of "fresh d" l cur invoice who y t] by (simp_all add: fresh_def)

lemmas linked_runs = linked_decisions linked_run [OF link_bindAgent] linked_run [OF link_bindBuyer]
  linked_run [OF link_orderPaid] linked_run [OF link_orderReceived] linked_run [OF link_orderRefunded]
  linked_run [OF link_freeze] linked_run [OF link_unfreeze] linked_run [OF link_void] linked_run [OF link_requestWithdraw]
  linked_run [OF link_approve] linked_run [OF link_payoutFailure] linked_run [OF link_settleRound]

lemmas money_runs = money_steps.P_bindAgent money_steps.P_bindBuyer money_steps.P_orderPaid money_steps.P_orderReceived
  money_steps.P_orderRefunded money_steps.P_freeze money_steps.P_unfreeze money_steps.P_void money_steps.P_requestWithdraw
  money_steps.P_approve money_steps.P_reject money_steps.P_payoutFailure money_steps.P_settlePayout money_steps.P_settleRound

interpretation linked_steps: ledger_invariant "\<lambda>d. moneyInv d \<and> linksOk d"
  by unfold_locales
    ((rule conjI, erule conjE, erule money_runs, assumption+, erule linked_runs, assumption) |
      simp add: moneyInv_newData linksOk_newData)+

end
