(* ===== verification/Quota.thy ===== *)
theory Quota
  imports Linkage
begin

text \<open>
  Accruals are booked by payments only, and the accruals of an item of an order never exceed the
  base they were computed from: the quota that the self-check looks at.
\<close>

subsection \<open>The accruals of the store\<close>

definition accrualOf :: "commission \<Rightarrow> (order_key \<times> string \<times> money \<times> money) option" where
  "accrualOf c = (if accrual c then Some (cKey c, cOrderItemID c, cBaseAmount c, cAmount c) else None)"

definition accrualTable :: "data \<Rightarrow> int \<rightharpoonup> order_key \<times> string \<times> money \<times> money" where
  "accrualTable d i = (case dCommissions d i of None \<Rightarrow> None | Some c \<Rightarrow> accrualOf c)"

lemma accrualTable_same: "dCommissions d' = dCommissions d \<Longrightarrow> accrualTable d' = accrualTable d"
  by (simp add: accrualTable_def fun_eq_iff)

lemma accrualTable_set:
  "dCommissions d i = Some c \<Longrightarrow> sameCommission c c' \<Longrightarrow> dCommissions d' = (dCommissions d)(i \<mapsto> c') \<Longrightarrow>
   accrualTable d' = accrualTable d"
  by (auto simp: accrualTable_def fun_eq_iff accrualOf_def accrual_def sameCommission_def)

lemma accrualTable_new:
  "dCommissions d i = None \<Longrightarrow> \<not> accrual c \<Longrightarrow> dCommissions d' = (dCommissions d)(i \<mapsto> c) \<Longrightarrow> accrualTable d' = accrualTable d"
  by (auto simp: accrualTable_def fun_eq_iff accrualOf_def)

lemma accrualTable_simps:
  "accrualTable (d\<lparr>dAccounts := x1, dAccountIDs := x2\<rparr>) = accrualTable d"
  "accrualTable (d\<lparr>dNextID := x3, dRefundIdem := x4, dRefunds := x5, dRefundsByOrder := x6\<rparr>) = accrualTable d"
  "accrualTable (d\<lparr>dNextID := x3, dLedger := x7, dLedgerIDs := x8, dLedgerByUser := x9, dLedgerByTenant := x10\<rparr>) = accrualTable d"
  "accrualTable (d\<lparr>dNextID := x3, dWithdrawIdem := x11, dWithdrawals := x12, dWithdrawalIDs := x13\<rparr>) = accrualTable d"
  "accrualTable (d\<lparr>dWithdrawals := x12\<rparr>) = accrualTable d"
  by (rule accrualTable_same, simp)+

text \<open>The operations that append no commission leave the accruals alone.\<close>

lemma SetCommissionAvailableAt_accruals:
  assumes "SetCommissionAvailableAt i at v t = (Inr c', t')"
  shows "accrualTable (txD t') = accrualTable (txD t)"
  using assms
proof (cases rule: SetCommissionAvailableAt_Inr)
  case (set c)
  then show ?thesis by (intro accrualTable_set [of _ i c c']) (simp_all add: setCommission_def)
qed simp

lemma SetCommissionReversedAmount_accruals:
  assumes "SetCommissionReversedAmount i m v t = (Inr c', t')"
  shows "accrualTable (txD t') = accrualTable (txD t)"
  using assms
proof (cases rule: SetCommissionReversedAmount_Inr)
  case (set c)
  then show ?thesis by (intro accrualTable_set [of _ i c c']) (simp_all add: setCommission_def)
qed simp

lemma TransitionCommission_accruals:
  assumes "TransitionCommission i from to v t = (Inr c', t')"
  shows "accrualTable (txD t') = accrualTable (txD t)"
  using assms
proof (cases rule: TransitionCommission_Inr)
  case (1 c)
  then show ?thesis by (intro accrualTable_set [of _ i c c']) (simp_all add: setCommission_def)
qed

interpretation accruals_fixed: tx_moves "\<lambda>t. accrualTable (txD t) = A" for A
  by unfold_locales
    (rule keeps_dataI [where P = "\<lambda>d. accrualTable d = A"],
     auto dest: writer_Inl PutAccount_Inr AppendRefund_Inr(1) AppendLedger_Inr(1) AppendWithdrawal_Inr(1)
       elim!: IncrementAccount_Inr TransitionWithdrawal_Inr
       simp: addAccount_def addRefund_def addLedger_def addWithdrawal_def SetCommissionAvailableAt_accruals
         SetCommissionReversedAmount_accruals TransitionCommission_accruals accrualTable_simps)+

text \<open>A clawback of a positive amount appends a negative record.\<close>

lemma AppendCommission_accruals:
  assumes "storeWf (txD t)" "AppendCommission c0 t = (Inr c, t')" "\<not> accrual c0"
  shows "accrualTable (txD t') = accrualTable (txD t)"
proof (rule accrualTable_new)
  note eff = AppendCommission_Inr(1,2) [OF assms(2)]
  show "dCommissions (txD t') = (dCommissions (txD t))(cID c \<mapsto> c)" by (simp add: eff(1) addCommission_def)
  show "dCommissions (txD t) (cID c) = None" using fresh_rows(1) [OF assms(1)] by (simp add: eff(2))
  show "\<not> accrual c" using assms(3) by (simp add: eff(2) accrual_def)
qed

lemma clawBack_accruals:
  assumes wf: "storeWf (txD t)" and delta: "\<not> delta <=s 0"
    and run: "clawBack l p delta target terminal reason at t = (Inr r, t4)"
  shows "accrualTable (txD t4) = accrualTable (txD t)"
  using run
proof (rule clawBack_Inr)
  fix t1 t2 t3 p1 p2 bkt nn reason'
  assume app: "AppendCommission (reversalRecord l p delta target at) t = (Inr r, t1)"
    and sr: "SetCommissionReversedAmount (cID p) target (cVersion p) t1 = (Inr p1, t2)"
    and tr: "if FullyReversed p1 \<and> cState p1 \<noteq> terminal
       then TransitionCommission (cID p1) (cState p1) terminal (cVersion p1) t2 = (Inr p2, t3) else p2 = p1 \<and> t3 = t2"
    and post: "postWith (debitDelta p bkt delta at nn) (debitEntry p bkt delta reason' (cID r) target (cAmount p2) at) t3 = (Inr (), t4)"
  have "0 < sint delta" using delta by (simp add: sle_sint)
  then have "in64 (- sint delta)" using sint_upper [of delta] by (simp add: in64_def)
  then have "sint (- delta) = - sint delta" by (rule sint_minus64)
  then have "\<not> accrual (reversalRecord l p delta target at)"
    using \<open>0 < sint delta\<close> by (simp add: accrual_def reversalRecord_def zeroCommission_def)
  then have "accrualTable (txD t1) = accrualTable (txD t)" by (rule AppendCommission_accruals [OF wf app])
  moreover have "accrualTable (txD t2) = accrualTable (txD t1)" by (rule SetCommissionReversedAmount_accruals [OF sr])
  moreover have "accrualTable (txD t3) = accrualTable (txD t2)"
  proof (cases "FullyReversed p1 \<and> cState p1 \<noteq> terminal")
    case True
    then show ?thesis using tr by (auto intro: TransitionCommission_accruals)
  next
    case False
    then show ?thesis using tr by (simp only: if_False)
  qed
  moreover have "accrualTable (txD t4) = accrualTable (txD t3)" by (rule accrualTable_same) (rule posted_same(1) [OF post])
  ultimately show ?thesis by simp
qed

subsection \<open>Refunds and voids\<close>

definition steadyInv :: "(int \<rightharpoonup> order_key \<times> string \<times> money \<times> money) \<Rightarrow> data \<Rightarrow> bool" where
  "steadyInv A d \<longleftrightarrow> storeWf d \<and> accrualTable d = A"

interpretation steady: commit_contract "steadyInv A" for A
  by unfold_locales (simp add: steadyInv_def)

lemma steady_step:
  assumes "keeps (\<lambda>t. historyInv d0 (txD t)) m"
    and "\<And>t x t'. storeWf (txD t) \<Longrightarrow> m t = (Inr x, t') \<Longrightarrow> accrualTable (txD t') = accrualTable (txD t)"
  shows "steady.safe A (steady.sound A d0) d0 m"
proof (rule steady.safeI [OF assms(1)])
  fix t x t'
  assume t: "steady.sound A d0 t" and run: "m t = (Inr x, t')"
  have "historyInv d0 (txD t')" using keeps_resultD [OF assms(1), of t] steady.sound_parts(2) [OF t] run by simp
  then show "steadyInv A (txD t')"
    using assms(2) [OF _ run] steady.sound_parts(1) [OF t] by (simp add: steadyInv_def historyInv_def)
qed

lemma steady_clawBack:
  "\<not> delta <=s 0 \<Longrightarrow> steady.safe A (steady.sound A d0) d0 (clawBack l p delta target terminal reason at)"
  by (rule steady_step [OF history_inv.keeps_clawBack]) (rule clawBack_accruals)

lemma steady_AppendRefund: "steady.safe A (steady.sound A d0) d0 (AppendRefund r)"
  by (rule steady_step [OF history_inv.keeps_AppendRefund])
    (rule accrualTable_same, simp add: AppendRefund_Inr(1) addRefund_def)

lemma steady_orderRefunded: "steady.safe A (steady.sound A d0) d0 (orderRefundedBody l ev)"
  by (rule steady.safe_refunds) (simp_all add: steady_clawBack steady_AppendRefund)

lemma voidBody_runs:
  assumes inv: "moneyInv (txD t)" and run: "voidBody l n i t = (Inr x, t')"
  obtains (idle) "t' = t"
  | (claw) p delta target r where "\<not> delta <=s 0" "clawBack l p delta target CommissionVoid reasonVoid (lNow l) t = (Inr r, t')"
proof -
  obtain cur where load: "loadScopedCommission n i (txD t) = Inr cur" and
    run1: "(if cState cur \<noteq> CommissionPending \<and> cState cur \<noteq> CommissionFrozen
       then throw (TransitionError ''commission void'' (commissionStateString (cState cur)) (commissionStateString CommissionVoid))
       else if OutstandingAmount cur <=s 0 then ret cur
       else case reversalDelta cur 0 1 CommissionVoid of (delta, target, skip) \<Rightarrow>
         if skip \<noteq> None then ret cur
         else attempt (clawBack l cur delta target CommissionVoid reasonVoid (lNow l)) (\<lambda>r. case r of
             Inl e \<Rightarrow> if e = ErrDuplicate then ret cur else throw e
           | Inr _ \<Rightarrow> rd (rdCommission (cID cur)))) t = (Inr x, t')"
    using run unfolding voidBody_def by (auto simp: andThen_Inr_iff)
  have row: "dCommissions (txD t) (cID cur) = Some cur"
    using load commission_row [OF inv] by (auto simp: loadScopedCommission_def split: if_splits sum.splits)
  obtain delta target skip where rd: "reversalDelta cur 0 1 CommissionVoid = (delta, target, skip)"
    by (cases "reversalDelta cur 0 1 CommissionVoid")
  show thesis
  proof (cases "(cState cur = CommissionPending \<or> cState cur = CommissionFrozen) \<and> \<not> OutstandingAmount cur <=s 0 \<and> skip = None")
    case False
    then show ?thesis using run1 idle unfolding rd by (auto simp: throw_def split: if_splits)
  next
    case True
    have crow: "commissionRow cur" using commissionsInvD(1) [OF moneyInv_parts(2) [OF inv] row] .
    have "accrual cur" using open_accrual [OF crow] True by (auto simp: commissionTerminal_def)
    then have pos: "\<not> delta <=s 0" using void_delta [OF crow _ rd] True by blast
    obtain rc t1 where claw: "clawBack l cur delta target CommissionVoid reasonVoid (lNow l) t = (rc, t1)" by fastforce
    have "t' = t1 \<and> (rc = Inl ErrDuplicate \<or> (\<exists>r. rc = Inr r))"
      using run1 True unfolding rd by (auto simp: attempt_run claw throw_def split: sum.splits if_splits)
    then show ?thesis using claw pos claw that clawBack_duplicate by (metis (no_types))
  qed
qed

lemma void_accruals:
  assumes "moneyInv (txD t)" "voidBody l n i t = (Inr x, t')"
  shows "accrualTable (txD t') = accrualTable (txD t)"
  using assms
proof (cases rule: voidBody_runs)
  case (claw p delta target r)
  show ?thesis by (rule clawBack_accruals [OF moneyInv_parts(1) [OF assms(1)] claw])
qed simp

subsection \<open>The quota\<close>

definition itemSum :: "order_key \<Rightarrow> string \<Rightarrow> data \<Rightarrow> int" where
  "itemSum k item d = mapSum (\<lambda>c. onlyIf (accrual c \<and> cKey c = k \<and> cOrderItemID c = item) (sint (cAmount c))) (dCommissions d)"

text \<open>The accruals of an item share one base, and together they are at most that base.\<close>

definition quotaOk :: "data \<Rightarrow> bool" where
  "quotaOk d \<longleftrightarrow> (\<forall>i c. dCommissions d i = Some c \<and> accrual c \<longrightarrow>
     itemSum (cKey c) (cOrderItemID c) d \<le> sint (cBaseAmount c) \<and>
     (\<forall>j c'. dCommissions d j = Some c' \<and> accrual c' \<and> cKey c' = cKey c \<and> cOrderItemID c' = cOrderItemID c \<longrightarrow>
        cBaseAmount c' = cBaseAmount c))"

lemma quotaOkD:
  assumes "quotaOk d" "dCommissions d i = Some c" "accrual c"
  shows "itemSum (cKey c) (cOrderItemID c) d \<le> sint (cBaseAmount c)"
    "dCommissions d j = Some c' \<Longrightarrow> accrual c' \<Longrightarrow> cKey c' = cKey c \<Longrightarrow> cOrderItemID c' = cOrderItemID c \<Longrightarrow>
     cBaseAmount c' = cBaseAmount c"
  using assms unfolding quotaOk_def by blast+

lemma accrualTable_dom: "accrualTable d i = Some (k, item, b, m) \<longleftrightarrow>
   (\<exists>c. dCommissions d i = Some c \<and> accrual c \<and> cKey c = k \<and> cOrderItemID c = item \<and> cBaseAmount c = b \<and> cAmount c = m)"
  by (auto simp: accrualTable_def accrualOf_def split: option.splits if_splits)

lemma itemSum_table:
  assumes "finite (dom (dCommissions d))"
  shows "itemSum k item d = mapSum (\<lambda>(k', item', b, m). onlyIf (k' = k \<and> item' = item) (sint m)) (accrualTable d)"
proof -
  let ?f = "\<lambda>c. onlyIf (accrual c \<and> cKey c = k \<and> cOrderItemID c = item) (sint (cAmount c))"
  let ?g = "\<lambda>(k', item', b, m). onlyIf (k' = k \<and> item' = item) (sint (m :: money))"
  have sub: "dom (accrualTable d) \<subseteq> dom (dCommissions d)" by (auto simp: accrualTable_def split: option.splits)
  have "mapSum ?f (dCommissions d) = (\<Sum>i\<in>dom (dCommissions d). ?f (the (dCommissions d i)))" by (simp add: mapSum_def)
  also have "\<dots> = (\<Sum>i\<in>dom (accrualTable d). ?f (the (dCommissions d i)))"
    by (rule sum.mono_neutral_right [OF assms sub])
      (auto simp: accrualTable_def accrualOf_def onlyIf_def split: option.splits if_splits)
  also have "\<dots> = (\<Sum>i\<in>dom (accrualTable d). ?g (the (accrualTable d i)))"
    by (rule sum.cong [OF refl])
      (auto simp: accrualTable_def accrualOf_def onlyIf_def split: option.splits if_splits)
  finally show ?thesis by (simp add: itemSum_def mapSum_def)
qed

lemma quotaOk_same:
  assumes "accrualTable d' = accrualTable d" "storeWf d" "storeWf d'" "quotaOk d"
  shows "quotaOk d'"
proof -
  have sums: "itemSum k item d' = itemSum k item d" for k item
    using itemSum_table [OF storeWf_parts(11) [OF assms(2)]] itemSum_table [OF storeWf_parts(11) [OF assms(3)]] assms(1) by simp
  have rows: "\<exists>c0. dCommissions d i = Some c0 \<and> accrual c0 \<and> cKey c0 = cKey c \<and> cOrderItemID c0 = cOrderItemID c \<and>
      cBaseAmount c0 = cBaseAmount c" if "dCommissions d' i = Some c" "accrual c" for i c
  proof -
    have "accrualTable d' i = Some (cKey c, cOrderItemID c, cBaseAmount c, cAmount c)" using that accrualTable_dom by blast
    then have "accrualTable d i = Some (cKey c, cOrderItemID c, cBaseAmount c, cAmount c)" by (simp add: assms(1))
    then show ?thesis using accrualTable_dom by blast
  qed
  show ?thesis
    unfolding quotaOk_def
  proof (intro allI impI conjI)
    fix i c assume c: "dCommissions d' i = Some c \<and> accrual c"
    then obtain c0 where c0: "dCommissions d i = Some c0" "accrual c0" "cKey c0 = cKey c" "cOrderItemID c0 = cOrderItemID c"
      "cBaseAmount c0 = cBaseAmount c" using rows [of i c] by blast
    note old = quotaOkD [OF assms(4) c0(1,2), unfolded c0(3-5)]
    show "itemSum (cKey c) (cOrderItemID c) d' \<le> sint (cBaseAmount c)" unfolding sums by (rule old(1))
    fix j c' assume c': "dCommissions d' j = Some c' \<and> accrual c' \<and> cKey c' = cKey c \<and> cOrderItemID c' = cOrderItemID c"
    then obtain c1 where c1: "dCommissions d j = Some c1" "accrual c1" "cKey c1 = cKey c'" "cOrderItemID c1 = cOrderItemID c'"
      "cBaseAmount c1 = cBaseAmount c'" using rows [of j c'] by blast
    then show "cBaseAmount c' = cBaseAmount c" using old(2) [OF c1(1,2)] c' by simp
  qed
qed

subsection \<open>Payments keep the quota\<close>

lemma basesOf_distinct: "paidValidate ev = None \<Longrightarrow> distinct (map abItemID (basesOf ev))"
  using paidValidate_facts [of ev] by (simp add: basesOf_def o_def)

text \<open>What the records of one item of a payment add up to.\<close>

definition itemPart :: "string \<Rightarrow> commission \<Rightarrow> int" where
  "itemPart item c = onlyIf (cOrderItemID c = item) (sint (cAmount c))"

lemma accruals_items: "accruals l ev d b cs \<Longrightarrow> c \<in> set cs \<Longrightarrow> cOrderItemID c = abItemID b"
  by (simp add: accruals_def booked_def accruedFor_def)

lemma foreign_item:
  assumes "list_all2 (accruals l ev d) bs ns" "item \<notin> set (map abItemID bs)"
  shows "(\<Sum>c\<leftarrow>concat ns. itemPart item c) = 0"
  using assms
proof (induction bs ns rule: list_all2_induct)
  case (Cons b bs n ns)
  have "(\<Sum>c\<leftarrow>n. itemPart item c) = (\<Sum>c\<leftarrow>n. 0)"
    by (intro arg_cong [where f = sum_list] map_cong refl)
      (use Cons.hyps(1) Cons.prems in \<open>auto simp: itemPart_def onlyIf_def dest: accruals_items\<close>)
  then show ?case using Cons.IH Cons.prems by simp
qed simp

lemma item_within:
  assumes "list_all2 (accruals l ev d) bs ns" "distinct (map abItemID bs)" "\<And>b. b \<in> set bs \<Longrightarrow> 0 \<le> sint (abAmount b)"
    "c \<in> set (concat ns)"
  shows "\<exists>b\<in>set bs. accruedFor ev b c \<and> (\<Sum>c\<leftarrow>concat ns. itemPart (abItemID b) c) \<le> sint (abAmount b) \<and>
    (\<forall>c'\<in>set (concat ns). cOrderItemID c' = abItemID b \<longrightarrow> cBaseAmount c' = abAmount b)"
  using assms
proof (induction bs ns rule: list_all2_induct)
  case (Cons b bs n ns)
  obtain cap where cap: "moneyApply (abAmount b) (rMaxAllocatableBP (lRules l)) RoundDown = Inr cap"
    and le: "(\<Sum>c\<leftarrow>n. sint (cAmount c)) \<le> sint cap" and bk: "\<forall>c\<in>set n. accruedFor ev b c"
    using Cons.hyps(1) by (auto simp: accruals_def cappedBy_def booked_def)
  have rows: "\<exists>b'\<in>set bs. cOrderItemID c' = abItemID b'" if "c' \<in> set (concat ns)" for c'
  proof -
    have "\<exists>b'\<in>set bs. \<exists>n'. accruals l ev d b' n' \<and> c' \<in> set n'"
      using Cons.hyps(2) that by (induction bs ns rule: list_all2_induct) auto
    then show ?thesis using accruals_items by blast
  qed
  show ?case
  proof (cases "c \<in> set n")
    case True
    have "(\<Sum>c\<leftarrow>n. itemPart (abItemID b) c) = (\<Sum>c\<leftarrow>n. sint (cAmount c))"
      by (intro arg_cong [where f = sum_list] map_cong refl) (use bk in \<open>auto simp: itemPart_def onlyIf_def accruedFor_def\<close>)
    moreover have "(\<Sum>c\<leftarrow>concat ns. itemPart (abItemID b) c) = 0"
      by (rule foreign_item [OF Cons.hyps(2)]) (use Cons.prems(1) in auto)
    moreover have "sint cap \<le> sint (abAmount b)" using cap_bounds(2) [OF cap] Cons.prems(2) by simp
    ultimately have "(\<Sum>c\<leftarrow>concat (n # ns). itemPart (abItemID b) c) \<le> sint (abAmount b)" using le by simp
    moreover have "cBaseAmount c' = abAmount b" if "c' \<in> set (concat (n # ns))" "cOrderItemID c' = abItemID b" for c'
    proof (cases "c' \<in> set n")
      case False
      then have "c' \<in> set (concat ns)" using that(1) by auto
      from rows [OF this] have False using Cons.prems(1) that(2) by auto
      then show ?thesis ..
    qed (use bk in \<open>simp add: accruedFor_def\<close>)
    ultimately show ?thesis using bk True by (intro bexI [of _ b]) auto
  next
    case False
    then obtain b' where b': "b' \<in> set bs" "accruedFor ev b' c" "(\<Sum>c\<leftarrow>concat ns. itemPart (abItemID b') c) \<le> sint (abAmount b')"
      "\<forall>c'\<in>set (concat ns). cOrderItemID c' = abItemID b' \<longrightarrow> cBaseAmount c' = abAmount b'"
      using Cons.IH Cons.prems by auto
    have ne: "abItemID b \<noteq> abItemID b'" using b'(1) Cons.prems(1) by auto
    have "(\<Sum>c\<leftarrow>n. itemPart (abItemID b') c) = (\<Sum>c\<leftarrow>n. 0)"
      by (intro arg_cong [where f = sum_list] map_cong refl) (use bk ne in \<open>auto simp: itemPart_def onlyIf_def accruedFor_def\<close>)
    then show ?thesis using b' bk ne by (intro bexI [of _ b']) (auto simp: accruedFor_def)
  qed
qed simp

lemma no_rows_of_order:
  assumes "storeWf d" "rdCommissionsByOrder k d = Inr []" "dCommissions d i = Some c"
  shows "cKey c \<noteq> k"
proof -
  have "listIndex (slot (dByOrder d) k) (dCommissions d) (\<lambda>c. cKey c = k)"
    using storeWf_parts(2) [OF assms(1)] by (simp add: commissionsWf_def)
  from set_rowsAt [OF this] show ?thesis using assms(2,3) by (auto simp: rdCommissionsByOrder_def)
qed

lemma itemSum_added:
  assumes "rowsAdded new (dCommissions d) (dCommissions d')" "finite (dom (dCommissions d))"
    "\<And>c. c \<in> set new \<Longrightarrow> cKey c = k0 \<and> accrual c"
  shows "itemSum k item d' = itemSum k item d + (\<Sum>c\<leftarrow>new. onlyIf (k = k0) (itemPart item c))"
  unfolding itemSum_def rowsAdded_sum [OF assms(1,2)]
  by (intro arg_cong2 [where f = "(+)"] arg_cong [where f = sum_list] map_cong refl)
    (use assms(3) in \<open>auto simp: itemPart_def onlyIf_def\<close>)

lemma itemSum_none:
  assumes "\<And>i c. dCommissions d i = Some c \<Longrightarrow> cKey c \<noteq> k"
  shows "itemSum k item d = 0"
proof -
  have "itemSum k item d = mapSum (\<lambda>_. 0) (dCommissions d)"
    unfolding itemSum_def by (rule mapSum_cong) (use assms in \<open>auto simp: onlyIf_def\<close>)
  then show ?thesis by (simp add: mapSum_def)
qed

lemma paid_quota:
  assumes wf: "storeWf (txD t)" and quota: "quotaOk (txD t)" and valid: "paidValidate ev = None"
    and run: "orderPaidBody l ev t = (Inr r, t')"
  shows "quotaOk (txD t')"
proof -
  let ?new = "arCommissions r" and ?k = "epOrderKey ev"
  note books = orderPaidBody_books [OF run wf basesOf_nonneg [OF valid]]
  have added: "rowsAdded ?new (dCommissions (txD t)) (dCommissions (txD t'))" using books by blast
  have wf': "storeWf (txD t')" by (rule keeps_resultD [OF wf_inv.keeps_orderPaid wf run])
  from books consider "?new = []"
    | ns where "?new = concat ns" "list_all2 (accruals l ev (txD t')) (basesOf ev) ns" "rdCommissionsByOrder ?k (txD t) = Inr []"
    by blast
  then show ?thesis
  proof cases
    case 1
    then have "dCommissions (txD t') = dCommissions (txD t)" using added by simp
    then show ?thesis by (intro quotaOk_same [OF accrualTable_same wf wf' quota])
  next
    case (2 ns)
    note within = item_within [OF 2(2) basesOf_distinct [OF valid] basesOf_nonneg [OF valid], folded 2(1)]
    have ours: "cKey c = ?k \<and> accrual c" if "c \<in> set ?new" for c
      using within [of c] that by (auto simp: accruedFor_def accrual_def)
    note old = no_rows_of_order [OF wf 2(3)]
    note sums = itemSum_added [OF added storeWf_parts(11) [OF wf] ours] and none = itemSum_none [OF old]
    show ?thesis
      unfolding quotaOk_def
    proof (intro allI impI)
      fix i c
      assume c: "dCommissions (txD t') i = Some c \<and> accrual c"
      show "itemSum (cKey c) (cOrderItemID c) (txD t') \<le> sint (cBaseAmount c) \<and>
        (\<forall>j c'. dCommissions (txD t') j = Some c' \<and> accrual c' \<and> cKey c' = cKey c \<and> cOrderItemID c' = cOrderItemID c \<longrightarrow>
          cBaseAmount c' = cBaseAmount c)"
      proof (cases "c \<in> set ?new")
        case True
        then obtain b where b: "accruedFor ev b c" "(\<Sum>c\<leftarrow>?new. itemPart (abItemID b) c) \<le> sint (abAmount b)"
          "\<forall>c'\<in>set ?new. cOrderItemID c' = abItemID b \<longrightarrow> cBaseAmount c' = abAmount b"
          using within [of c] by auto
        have "cBaseAmount c' = cBaseAmount c"
          if "dCommissions (txD t') j = Some c'" "cKey c' = cKey c" "cOrderItemID c' = cOrderItemID c" for j c'
          using rowsAdded_rows [OF added that(1)] old [of j c'] ours [OF True] that b(1,3) by (auto simp: accruedFor_def)
        then show ?thesis using b(1,2) ours [OF True] by (auto simp: sums none onlyIf_def accruedFor_def)
      next
        case False
        then have c0: "dCommissions (txD t) i = Some c" using rowsAdded_rows [OF added] c by blast
        have ne: "cKey c \<noteq> ?k" by (rule old [OF c0])
        note q = quotaOkD [OF quota c0]
        have "cBaseAmount c' = cBaseAmount c"
          if "dCommissions (txD t') j = Some c'" "accrual c'" "cKey c' = cKey c" "cOrderItemID c' = cOrderItemID c" for j c'
          using rowsAdded_rows [OF added that(1)] ours [of c'] ne that q(2) [of j c'] c by auto
        then show ?thesis using q(1) c ne by (auto simp: sums onlyIf_def)
      qed
    qed
  qed
qed

subsection \<open>Every reachable state is within the quota\<close>

text \<open>No transaction but a payment changes the accruals.\<close>

lemma accruals_binding:
  "keeps (\<lambda>t. accrualTable (txD t) = A) (PutAgent a)" "keeps (\<lambda>t. accrualTable (txD t) = A) (PutBinding b)"
  by (rule keeps_dataI [where P = "\<lambda>d. accrualTable d = A"],
      drule PutAgent_Inr(1) PutBinding_Inr(1), simp add: accrualTable_def fun_eq_iff, erule writer_Inl)+

lemma accruals_bindAgent: "keeps (\<lambda>t. accrualTable (txD t) = A) (bindAgentBody l req)"
  unfolding bindAgentBody_def Let_def by (intro hoare_rules accruals_binding)

lemma accruals_bindBuyer: "keeps (\<lambda>t. accrualTable (txD t) = A) (bindBuyerBody l req at)"
  unfolding bindBuyerBody_def Let_def by (intro hoare_rules accruals_binding)

lemma steady_run:
  "keeps (\<lambda>t. accrualTable (txD t) = accrualTable d) fn \<Longrightarrow> fn (fresh d) = (Inr x, t) \<Longrightarrow> accrualTable (txD t) = accrualTable d"
  by (rule keeps_run [where P = "\<lambda>e. accrualTable e = accrualTable d" and d = d, OF _ refl])

lemma refund_steady:
  "orderRefundedBody l ev (fresh d) = (Inr x, t) \<Longrightarrow> moneyInv d \<Longrightarrow> accrualTable (txD t) = accrualTable d"
  using steady.safe_run [OF steady.safe_start [OF steady_orderRefunded], of "accrualTable d" d l ev x t] moneyInv_parts(1) [of d]
  by (simp add: steadyInv_def)

lemma void_steady: "voidBody l n i (fresh d) = (Inr x, t) \<Longrightarrow> moneyInv d \<Longrightarrow> accrualTable (txD t) = accrualTable d"
  using void_accruals [of "fresh d" l n i x t] by (simp add: fresh_def)

lemma quota_step:
  "moneyInv d \<and> quotaOk d \<Longrightarrow> moneyInv d' \<Longrightarrow> accrualTable d' = accrualTable d \<Longrightarrow> quotaOk d'"
  using quotaOk_same [of d' d] by (simp add: moneyInv_parts(1))

lemma paid_step:
  "moneyInv d \<and> quotaOk d \<Longrightarrow> paidValidate ev = None \<Longrightarrow> orderPaidBody l ev (fresh d) = (Inr r, t) \<Longrightarrow> quotaOk (txD t)"
  using paid_quota [of "fresh d" ev l r t] by (simp add: fresh_def moneyInv_parts(1))

lemmas quiet_runs = steady_run [OF accruals_bindAgent] steady_run [OF accruals_bindBuyer]
  steady_run [OF accruals_fixed.keeps_orderReceived] refund_steady steady_run [OF accruals_fixed.keeps_freeze]
  steady_run [OF accruals_fixed.keeps_unfreeze] void_steady steady_run [OF accruals_fixed.keeps_requestWithdraw]
  steady_run [OF accruals_fixed.keeps_approve] steady_run [OF accruals_fixed.keeps_reject]
  steady_run [OF accruals_fixed.keeps_payoutFailure] steady_run [OF accruals_fixed.keeps_settlePayout]
  steady_run [OF accruals_fixed.keeps_settleRound]

interpretation quota_steps: ledger_invariant "\<lambda>d. moneyInv d \<and> quotaOk d"
  by unfold_locales
    ((rule context_conjI, erule conjE, erule money_runs, assumption+, (erule (2) paid_step |
       (rule quota_step, assumption+, erule conjE, (erule quiet_runs; assumption)))) |
      rule conjI [OF moneyInv_newData], simp add: quotaOk_def newData_def)+

end
