(* ===== verification/WithdrawalCheck.thy ===== *)
theory WithdrawalCheck
  imports Reconciled Quota
begin

text \<open>
  The withdrawal check (I4) of the self-check on a state the engine has produced: it finds nothing
  but paid withdrawals that carry no payment time, which needs a clock that shows Go's zero time.
\<close>

subsection \<open>Loops\<close>

lemma tenantEntries_rows:
  assumes "storeWf d"
  shows "e \<in> set (tenantEntries n d) \<longleftrightarrow> (\<exists>j. dLedger d j = Some e \<and> ukTenantID (leKey e) = n)"
proof -
  have "listIndex (slot (dLedgerByTenant d) n) (dLedger d) (\<lambda>e. ukTenantID (leKey e) = n)"
    using storeWf_parts(4) [OF assms] by (simp add: ledgerWf_def)
  from set_rowsAt [OF this] show ?thesis by (simp add: tenantEntries_def)
qed

lemma tenant_loop:
  assumes "storeWf d"
  shows "pageLoop (\<lambda>after. rdLedgerByTenant n \<lparr>pgAfterID = after, pgLimit = MaxPageLimit\<rparr> d) leID body 0 s =
    foldC body (tenantEntries n d) s"
proof -
  have "filter (\<lambda>e. 0 < leID e) (tenantEntries n d) = tenantEntries n d"
    by (rule positive_ids) (rule rows_positive [OF storeWf_parts(8) [OF assms]], simp add: tenantEntries_def)
  moreover have "pageLoop (\<lambda>after. rdLedgerByTenant n \<lparr>pgAfterID = after, pgLimit = MaxPageLimit\<rparr> d) leID body 0 s =
      foldC body (filter (\<lambda>e. 0 < leID e) (tenantEntries n d)) s"
    by (rule pageLoop_rows) (simp_all add: rdLedgerByTenant_page [OF assms] page_max ledger_sorted [OF assms])
  ultimately show ?thesis by simp
qed

lemma withdrawals_loop:
  assumes "storeWf d" "0 \<le> n"
  shows "pageLoop (\<lambda>after. rdWithdrawalsByTenant n \<lparr>pgAfterID = after, pgLimit = MaxPageLimit\<rparr> d) wID body 0 s =
    foldC body (withdrawalsOf n d) s"
proof -
  have "filter (\<lambda>w. 0 < wID w) (withdrawalsOf n d) = withdrawalsOf n d"
    by (rule positive_ids) (auto simp: withdrawalsOf_def intro: rows_positive [OF storeWf_parts(9) [OF assms(1)]])
  moreover have "pageLoop (\<lambda>after. rdWithdrawalsByTenant n \<lparr>pgAfterID = after, pgLimit = MaxPageLimit\<rparr> d) wID body 0 s =
      foldC body (filter (\<lambda>w. 0 < wID w) (withdrawalsOf n d)) s"
    by (rule pageLoop_rows) (simp_all add: rdWithdrawalsByTenant_page [OF assms] page_max withdrawalsOf_sorted [OF assms(1)])
  ultimately show ?thesis by simp
qed

lemma withdrawalsOf_index: "storeWf d \<Longrightarrow> listIndex (dWithdrawalIDs d) (dWithdrawals d) (\<lambda>_. True)"
  using storeWf_parts(5) [of d] by (simp add: withdrawalsWf_def)

lemma withdrawalsOf_rows:
  assumes "storeWf d"
  shows "w \<in> set (withdrawalsOf n d) \<longleftrightarrow> dWithdrawals d (wID w) = Some w \<and> ukTenantID (wKey w) = n"
proof -
  have "dWithdrawals d (wID w) = Some w" if "dWithdrawals d i = Some w" for i w
    using storeWf_parts(9) [OF assms] that by (auto simp: idsUpTo_def)
  then show ?thesis using set_rowsAt [OF withdrawalsOf_index [OF assms]] by (auto simp: withdrawalsOf_def)
qed

lemma withdrawalsOf_sum:
  assumes "storeWf d"
  shows "(\<Sum>w\<leftarrow>withdrawalsOf n d. f w) = mapSum (\<lambda>w. onlyIf (ukTenantID (wKey w) = n) (f w)) (dWithdrawals d)"
  unfolding withdrawalsOf_def sum_onlyIf [symmetric] sum_rowsAt [OF withdrawalsOf_index [OF assms] storeWf_parts(13) [OF assms]] by simp

subsection \<open>The references of the journal\<close>

lemma okC_inject [simp]: "okC x = okC y \<longleftrightarrow> x = y"
  by (simp add: okC_def)

definition numbersOf :: "ledger_biz_type \<Rightarrow> ledger_entry list \<Rightarrow> int set" where
  "numbersOf b es = {i. \<exists>e\<in>set es. leBizType e = b \<and> parseInt (leBizID e) = Some i}"

lemma id_in64:
  assumes "idsUpTo n m idf" "m i = Some v" "n < 2 ^ 63"
  shows "in64 i"
  using assms by (force simp: idsUpTo_def in64_def)

lemma collect_withdrawals:
  assumes "\<And>e. e \<in> set es \<Longrightarrow> referencesWithdrawal (leBizType e) \<Longrightarrow> parseInt (leBizID e) \<noteq> None"
  shows "foldC collectWithdrawalRef es (res, refs) = okC (res,
    \<lparr>wrHolds = wrHolds refs \<union> numbersOf LedgerWithdrawHold es, wrPaids = wrPaids refs \<union> numbersOf LedgerWithdrawPaid es,
      wrRefunds = wrRefunds refs \<union> numbersOf LedgerWithdrawRefund es\<rparr>)"
  using assms
proof (induction es arbitrary: refs)
  case Nil
  show ?case by (cases refs) (simp add: numbersOf_def)
next
  case (Cons e es)
  have more: "numbersOf b (e # es) = (if leBizType e = b then set_option (parseInt (leBizID e)) else {}) \<union> numbersOf b es" for b
    by (auto simp: numbersOf_def)
  have step: "\<exists>refs'. collectWithdrawalRef e (res, refs) = okC (res, refs') \<and>
      wrHolds refs' = wrHolds refs \<union> (if leBizType e = LedgerWithdrawHold then set_option (parseInt (leBizID e)) else {}) \<and>
      wrPaids refs' = wrPaids refs \<union> (if leBizType e = LedgerWithdrawPaid then set_option (parseInt (leBizID e)) else {}) \<and>
      wrRefunds refs' = wrRefunds refs \<union> (if leBizType e = LedgerWithdrawRefund then set_option (parseInt (leBizID e)) else {})"
    using Cons.prems [of e]
    by (cases "leBizType e"; cases "parseInt (leBizID e)"; auto simp: collectWithdrawalRef_def referencesWithdrawal_def)
  then obtain refs' where r: "collectWithdrawalRef e (res, refs) = okC (res, refs')"
    "wrHolds refs' = wrHolds refs \<union> (if leBizType e = LedgerWithdrawHold then set_option (parseInt (leBizID e)) else {})"
    "wrPaids refs' = wrPaids refs \<union> (if leBizType e = LedgerWithdrawPaid then set_option (parseInt (leBizID e)) else {})"
    "wrRefunds refs' = wrRefunds refs \<union> (if leBizType e = LedgerWithdrawRefund then set_option (parseInt (leBizID e)) else {})"
    by blast
  show ?case using Cons.IH [of refs'] Cons.prems by (simp add: r more Un_assoc)
qed

text \<open>A linked journal: every number parses, and every record has its entries.\<close>

lemma linked_parses:
  assumes "moneyInv d" "linksOk d" "dNextID d < 2 ^ 63" "dLedger d j = Some e"
    "referencesWithdrawal (leBizType e) \<or> referencesCommission (leBizType e)"
  shows "parseInt (leBizID e) \<noteq> None"
proof -
  have refers: "refersTo d e" by (rule linksButD(1) [OF assms(2,4)])
  have "\<exists>i. leBizID e = formatInt i \<and> in64 i"
    using refers assms(5) id_in64 [OF moneyInv_parts(8) [OF assms(1)] _ assms(3)]
      id_in64 [OF moneyInv_parts(9) [OF assms(1)] _ assms(3)] unfolding refersTo_def by blast
  then show ?thesis by auto
qed

lemma journalled_number:
  assumes "storeWf d" "journalled d {b} n i" "in64 i"
  shows "i \<in> numbersOf b (tenantEntries n d)"
proof -
  obtain j e where "dLedger d j = Some e" "leBizType e = b" "leBizID e = formatInt i" "ukTenantID (leKey e) = n"
    using assms(2) by (auto simp: journalled_def)
  then show ?thesis
    using tenantEntries_rows [OF assms(1), of e n] assms(3) by (auto simp: numbersOf_def intro!: bexI [of _ e])
qed

subsection \<open>The withdrawals\<close>

definition unstamped :: "withdrawal \<Rightarrow> bool" where
  "unstamped w \<longleftrightarrow> wState w = WithdrawalPaid \<and> wPaidAt w = 0"

definition stampFlag :: "withdrawal \<Rightarrow> invariant_result \<Rightarrow> invariant_result" where
  "stampFlag w r = flagIf (unstamped w) (PaidWithoutTime (wID w)) (checkedOne r)"

lemma reserved_prefix:
  assumes inv: "moneyInv d" and split: "withdrawalsOf n d = p @ q"
  shows "in64 (\<Sum>w\<leftarrow>p. onlyIf (wKey w = k) (reservedShare w))"
    "q = [] \<Longrightarrow> ukTenantID k = n \<Longrightarrow> (\<Sum>w\<leftarrow>p. onlyIf (wKey w = k) (reservedShare w)) = sint (aWithdrawing (accountOf d k))"
proof -
  note wf = moneyInv_parts(1) [OF inv]
  let ?f = "\<lambda>w. onlyIf (wKey w = k) (reservedShare w)"
  have pos: "0 \<le> ?f w" if "w \<in> set (withdrawalsOf n d)" for w
    using that withdrawalsOf_rows [OF wf] moneyInv_parts(3) [OF inv]
    by (auto simp: onlyIf_def reservedShare_def withdrawalsInv_def withdrawalRow_def less_imp_le)
  have whole: "(\<Sum>w\<leftarrow>withdrawalsOf n d. ?f w) = sint (aWithdrawing (accountOf d k))" if "ukTenantID k = n"
  proof -
    have "mapSum (\<lambda>w. onlyIf (ukTenantID (wKey w) = n) (?f w)) (dWithdrawals d) = wdSum reservedShare k d"
      unfolding wdSum_def by (rule mapSum_cong) (use that in \<open>auto simp: onlyIf_def\<close>)
    moreover have "sint (aWithdrawing (accountOf d k)) = wdSum reservedShare k d"
      using moneyInv_parts(4) [OF inv] by (simp add: booksOk_def booksAt_def)
    ultimately show ?thesis by (simp add: withdrawalsOf_sum [OF wf])
  qed
  then show "q = [] \<Longrightarrow> ukTenantID k = n \<Longrightarrow> (\<Sum>w\<leftarrow>p. ?f w) = sint (aWithdrawing (accountOf d k))" using split by simp
  show "in64 (\<Sum>w\<leftarrow>p. ?f w)"
  proof (cases "ukTenantID k = n")
    case True
    have "0 \<le> (\<Sum>w\<leftarrow>p. ?f w) \<and> (\<Sum>w\<leftarrow>p. ?f w) \<le> (\<Sum>w\<leftarrow>p @ q. ?f w)"
      by (rule prefix_bounds) (use pos split in auto)
    then show ?thesis using whole [OF True] split sint_upper [of "aWithdrawing (accountOf d k)"] by (simp add: in64_def)
  next
    case False
    have "(\<Sum>w\<leftarrow>p. ?f w) = (\<Sum>w\<leftarrow>p. 0)"
      by (intro arg_cong [where f = sum_list] map_cong refl)
        (use False split withdrawalsOf_rows [OF wf, of _ n] in \<open>auto simp: onlyIf_def\<close>)
    then show ?thesis by (simp add: in64_def)
  qed
qed

definition refsOf :: "ledger_entry list \<Rightarrow> withdrawal_refs" where
  "refsOf es = \<lparr>wrHolds = numbersOf LedgerWithdrawHold es, wrPaids = numbersOf LedgerWithdrawPaid es,
     wrRefunds = numbersOf LedgerWithdrawRefund es\<rparr>"

text \<open>One withdrawal: its entries are there, so only the stamp can be missing.\<close>

lemma check_one:
  assumes inv: "moneyInv d" and links: "linksOk d" and ids: "dNextID d < 2 ^ 63" and w: "w \<in> set (withdrawalsOf n d)"
    and fits: "in64 (sint (getMoney reserved (wKey w)) + reservedShare w)"
  shows "\<exists>reserved'. checkWithdrawal (refsOf (tenantEntries n d)) w (res, reserved) = okC (stampFlag w res, reserved') \<and>
    (\<forall>k. sint (getMoney reserved' k) = sint (getMoney reserved k) + onlyIf (wKey w = k) (reservedShare w))"
proof -
  note wf = moneyInv_parts(1) [OF inv]
  have row: "dWithdrawals d (wID w) = Some w" "ukTenantID (wKey w) = n" using w withdrawalsOf_rows [OF wf] by auto
  have i: "in64 (wID w)" by (rule id_in64 [OF moneyInv_parts(9) [OF inv] row(1) ids])
  have wrow: "withdrawalRow w" using moneyInv_parts(3) [OF inv] row(1) by (simp add: withdrawalsInv_def)
  have hold: "wID w \<in> wrHolds (refsOf (tenantEntries n d))"
    using linksButD(3) [OF links row(1)] journalled_number [OF wf _ i] row(2) by (simp add: refsOf_def)
  have paid: "wID w \<in> wrPaids (refsOf (tenantEntries n d))" if "wState w = WithdrawalPaid"
    using linksButD(4) [OF links row(1)] journalled_number [OF wf _ i] row(2) that by (simp add: refsOf_def withdrawalLinked_def)
  have refund: "wID w \<in> wrRefunds (refsOf (tenantEntries n d))" if "wState w = WithdrawalRejected"
    using linksButD(4) [OF links row(1)] journalled_number [OF wf _ i] row(2) that by (simp add: refsOf_def withdrawalLinked_def)
  have time: "\<not> (wState w \<noteq> WithdrawalPaid \<and> wPaidAt w \<noteq> 0)" using wrow by (auto simp: withdrawalRow_def)
  have share: "reservedShare w = sint (withdrawalOutstanding w)" "0 \<le> reservedShare w"
    using wrow by (auto simp: reservedShare_def withdrawalOutstanding_def onlyIf_def withdrawalRow_def)
  have flags: "flagIf (wState w = WithdrawalRejected \<and> wID w \<notin> wrRefunds (refsOf (tenantEntries n d))) (NoRefundEntry (wID w))
      (flagIf (wState w = WithdrawalPaid \<and> wID w \<notin> wrPaids (refsOf (tenantEntries n d))) (NoPaidEntry (wID w))
      (flagIf (wID w \<notin> wrHolds (refsOf (tenantEntries n d))) (NoHoldEntry (wID w))
      (flagIf (wState w \<noteq> WithdrawalPaid \<and> wPaidAt w \<noteq> 0) (TimeWithoutPaid (wID w) (wState w))
      (flagIf (wState w = WithdrawalPaid \<and> wPaidAt w = 0) (PaidWithoutTime (wID w)) (checkedOne res))))) = stampFlag w res"
    using hold paid refund time by (auto simp: stampFlag_def unstamped_def flagIf_def)
  show ?thesis
  proof (cases "0 <s withdrawalOutstanding w")
    case True
    have sum: "in64 (sint (getMoney reserved (wKey w)) + sint (withdrawalOutstanding w))" using fits share(1) by simp
    then show ?thesis
      unfolding checkWithdrawal_def Let_def prod.case flags
      using True sint_add64 [OF sum] share(1)
      by (intro exI [of _ "reserved(wKey w \<mapsto> getMoney reserved (wKey w) + withdrawalOutstanding w)"])
        (auto simp: moneyAdd_exact onlyIf_def)
  next
    case False
    then have "reservedShare w = 0" using share by (simp add: sless_sint)
    then show ?thesis
      unfolding checkWithdrawal_def Let_def prod.case flags using False by (intro exI [of _ reserved]) (simp add: onlyIf_def)
  qed
qed

lemma check_all:
  assumes inv: "moneyInv d" and links: "linksOk d" and ids: "dNextID d < 2 ^ 63"
  shows "\<exists>reserved. foldC (checkWithdrawal (refsOf (tenantEntries n d))) (withdrawalsOf n d) (res, Map.empty) =
      okC (fold stampFlag (withdrawalsOf n d) res, reserved) \<and>
    (\<forall>k. ukTenantID k = n \<longrightarrow> sint (getMoney reserved k) = sint (aWithdrawing (accountOf d k)))"
proof -
  let ?chk = "checkWithdrawal (refsOf (tenantEntries n d))"
  have prefix: "\<exists>reserved. foldC ?chk p (res, Map.empty) = okC (fold stampFlag p res, reserved) \<and>
      (\<forall>k. sint (getMoney reserved k) = (\<Sum>w\<leftarrow>p. onlyIf (wKey w = k) (reservedShare w)))" if "withdrawalsOf n d = p @ q" for p q
    using that
  proof (induction p arbitrary: q rule: rev_induct)
    case Nil
    show ?case by (simp add: getMoney_def)
  next
    case (snoc w p)
    obtain reserved where r: "foldC ?chk p (res, Map.empty) = okC (fold stampFlag p res, reserved)"
      "\<And>k. sint (getMoney reserved k) = (\<Sum>w\<leftarrow>p. onlyIf (wKey w = k) (reservedShare w))"
      using snoc.IH [of "w # q"] snoc.prems by auto
    have w: "w \<in> set (withdrawalsOf n d)" using snoc.prems by simp
    have "in64 (sint (getMoney reserved (wKey w)) + reservedShare w)"
      using reserved_prefix(1) [OF inv snoc.prems, of "wKey w"] r(2) by (simp add: onlyIf_def)
    from check_one [OF inv links ids w this, of "fold stampFlag p res"] obtain reserved' where
      "?chk w (fold stampFlag p res, reserved) = okC (stampFlag w (fold stampFlag p res), reserved')"
      "\<And>k. sint (getMoney reserved' k) = sint (getMoney reserved k) + onlyIf (wKey w = k) (reservedShare w)" by blast
    then show ?case using r by (intro exI [of _ reserved']) (simp add: foldC_append)
  qed
  then show ?thesis
    using prefix [of "withdrawalsOf n d" "[]"] reserved_prefix(2) [OF inv, of n "withdrawalsOf n d" "[]"] by fastforce
qed

lemma reserved_clean:
  assumes inv: "moneyInv d" and a: "a \<in> set (listedAccounts n d)"
    and r: "\<forall>k. ukTenantID k = n \<longrightarrow> sint (getMoney reserved k) = sint (aWithdrawing (accountOf d k))"
  shows "compareReserved reserved a res = okC (checkedOne res)"
proof -
  have row: "accountOf d (aKey a) = a" "ukTenantID (aKey a) = n"
    using accountsOf_row [OF moneyInv_parts(1) [OF inv]] a by (auto simp: listedAccounts_def)
  then have "sint (getMoney reserved (aKey a)) = sint (aWithdrawing a)" using r by auto
  then have "getMoney reserved (aKey a) = aWithdrawing a" by (rule sint_eqD)
  then show ?thesis by (simp add: compareReserved_def)
qed

lemma withdrawal_result:
  assumes inv: "moneyInv d" and links: "linksOk d" and ids: "dNextID d < 2 ^ 63" and n: "0 \<le> n"
  shows "checkWithdrawalReconciliation n d = okC (fold (\<lambda>a. checkedOne) (listedAccounts n d)
    (fold stampFlag (withdrawalsOf n d) (newInvariant ''I4: withdrawal state, reservation and ledger agree'')))"
proof -
  note wf = moneyInv_parts(1) [OF inv]
  let ?new = "newInvariant ''I4: withdrawal state, reservation and ledger agree''"
  have parses: "parseInt (leBizID e) \<noteq> None" if "e \<in> set (tenantEntries n d)" "referencesWithdrawal (leBizType e)" for e
    using that tenantEntries_rows [OF wf] linked_parses [OF inv links ids] by blast
  have "foldC collectWithdrawalRef (tenantEntries n d) (?new, \<lparr>wrHolds = {}, wrPaids = {}, wrRefunds = {}\<rparr>) =
      okC (?new, refsOf (tenantEntries n d))"
    using collect_withdrawals [of "tenantEntries n d" ?new "\<lparr>wrHolds = {}, wrPaids = {}, wrRefunds = {}\<rparr>"] parses by (simp add: refsOf_def)
  moreover obtain reserved where "foldC (checkWithdrawal (refsOf (tenantEntries n d))) (withdrawalsOf n d) (?new, Map.empty) =
      okC (fold stampFlag (withdrawalsOf n d) ?new, reserved)"
    and reserved: "\<forall>k. ukTenantID k = n \<longrightarrow> sint (getMoney reserved k) = sint (aWithdrawing (accountOf d k))"
    using check_all [OF inv links ids] by blast
  moreover have "foldC (compareReserved reserved) (listedAccounts n d) r = okC (fold (\<lambda>a. checkedOne) (listedAccounts n d) r)" for r
    by (rule foldC_ok) (rule reserved_clean [OF inv _ reserved])
  ultimately show ?thesis
    unfolding checkWithdrawalReconciliation_def tenant_loop [OF wf] withdrawals_loop [OF wf n] accounts_loop [OF wf]
      listedAccounts_def [symmetric] by simp
qed

lemma stamp_counts:
  "irChecked (fold stampFlag ws r) = irChecked r + length ws"
  "irTotalViolations (fold stampFlag ws r) = irTotalViolations r + length (filter unstamped ws)"
  "irOK (fold stampFlag ws r) \<longleftrightarrow> irOK r \<and> (\<forall>w\<in>set ws. \<not> unstamped w)"
  by (induction ws arbitrary: r) (auto simp: stampFlag_def flagIf_def addViolation_def checkedOne_def)

lemma checked_counts:
  "irChecked (fold (\<lambda>a. checkedOne) as r) = irChecked r + length as"
  "irTotalViolations (fold (\<lambda>a. checkedOne) as r) = irTotalViolations r"
  "irOK (fold (\<lambda>a. checkedOne) as r) = irOK r"
  by (induction as arbitrary: r) (simp_all add: checkedOne_def)

text \<open>
  The withdrawal check of a reachable state always ends without an error, looks at every
  withdrawal and every account of the tenant, and reports exactly the paid withdrawals without a
  payment time: every withdrawal has the journal entry of its hold, every paid one the entry of its
  payment, every rejected one the entry of its release, no withdrawal is stamped as paid without
  being paid, and the withdrawing balance of every account is what its open withdrawals hold. The
  numbers of the records are assumed to fit the int64 type of the code.
\<close>

theorem withdrawal_check_passes:
  assumes "reachable s" "dNextID (stData s) < 2 ^ 63" "0 \<le> n"
  shows "\<exists>r. checkWithdrawalReconciliation n (stData s) = Some (Inr r) \<and>
    irChecked r = length (withdrawalsOf n (stData s)) + length (listedAccounts n (stData s)) \<and>
    irTotalViolations r = length (filter unstamped (withdrawalsOf n (stData s))) \<and>
    (irOK r \<longleftrightarrow> (\<forall>w\<in>set (withdrawalsOf n (stData s)). wState w = WithdrawalPaid \<longrightarrow> wPaidAt w \<noteq> 0))"
  using withdrawal_result [OF _ _ assms(2,3)] linked_steps.reachable_holds [OF assms(1)]
  by (auto simp: okC_def stamp_counts checked_counts newInvariant_def unstamped_def)

lemma demo_ids: "dNextID (stData demo3) < 2 ^ 63"
  by (simp add: demo3_def demoData3_def addLedger_def demoE_def)

theorem withdrawal_check_passes_witness:
  "\<exists>r. checkWithdrawalReconciliation 1 (stData demo3) = Some (Inr r) \<and> irTotalViolations r = 0"
proof -
  have "withdrawalsOf 1 (stData demo3) = []"
    by (simp add: withdrawalsOf_def rowsAt_def demo3_def demoData3_def addLedger_def addAccount_def addCommission_def
        demoData2_def demoData1_def newData_def)
  then show ?thesis using withdrawal_check_passes [OF demo_reachable(3) demo_ids, of 1] by auto
qed

end
