(* ===== verification/AllocationCheck.thy ===== *)
theory AllocationCheck
  imports WithdrawalCheck
begin

text \<open>
  The linkage and allocation check (I2) of the self-check on a state the engine has produced: every
  commission has its entry, no entry dangles, and a group of accruals is reported exactly when it
  exceeds the cap of the rules the check runs with.
\<close>

subsection \<open>References to commissions\<close>

definition commissionNumbers :: "ledger_entry list \<Rightarrow> int set" where
  "commissionNumbers es = {i. \<exists>e\<in>set es. referencesCommission (leBizType e) \<and> parseInt (leBizID e) = Some i}"

lemma collect_commissions:
  assumes "\<And>e. e \<in> set es \<Longrightarrow> referencesCommission (leBizType e) \<Longrightarrow> parseInt (leBizID e) \<noteq> None"
  shows "foldC collectRef es (res, refs) = okC (res, refs \<union> commissionNumbers es)"
  using assms
proof (induction es arbitrary: refs)
  case Nil
  show ?case by (simp add: commissionNumbers_def)
next
  case (Cons e es)
  have more: "commissionNumbers (e # es) =
      (if referencesCommission (leBizType e) then set_option (parseInt (leBizID e)) else {}) \<union> commissionNumbers es"
    by (auto simp: commissionNumbers_def)
  have "collectRef e (res, refs) =
      okC (res, refs \<union> (if referencesCommission (leBizType e) then set_option (parseInt (leBizID e)) else {}))"
    using Cons.prems [of e] by (auto simp: collectRef_def split: option.splits)
  then show ?case using Cons.IH Cons.prems by (simp add: more Un_assoc)
qed

lemma commissionNumbers_rows:
  assumes inv: "moneyInv d" and links: "linksOk d" and ids: "dNextID d < 2 ^ 63"
  shows "commissionNumbers (tenantEntries n d) = cID ` set (commissionsOf n d)"
proof -
  note wf = moneyInv_parts(1) [OF inv]
  note fits = id_in64 [OF moneyInv_parts(8) [OF inv] _ ids]
  have id: "cID c = i" if "dCommissions d i = Some c" for i c
    using moneyInv_parts(8) [OF inv] that by (auto simp: idsUpTo_def)
  show ?thesis
  proof (intro set_eqI iffI)
    fix i assume "i \<in> commissionNumbers (tenantEntries n d)"
    then obtain e j where e: "dLedger d j = Some e" "ukTenantID (leKey e) = n" "referencesCommission (leBizType e)"
      "parseInt (leBizID e) = Some i" using tenantEntries_rows [OF wf, of _ n] by (auto simp: commissionNumbers_def)
    then obtain k c where c: "leBizID e = formatInt k" "dCommissions d k = Some c" "okTenantID (cKey c) = n"
      using linksButD(1) [OF links e(1)] by (auto simp: refersTo_def)
    then have "i = k" using e(4) fits [OF c(2)] by simp
    then show "i \<in> cID ` set (commissionsOf n d)"
      using c(2,3) id [OF c(2)] commissionsOf_rows [OF wf, of n] by (auto intro!: image_eqI [of _ _ c])
  next
    fix i assume "i \<in> cID ` set (commissionsOf n d)"
    then obtain c where c: "dCommissions d i = Some c" "okTenantID (cKey c) = n" using commissionsOf_rows [OF wf, of n] by auto
    then obtain j e where e: "dLedger d j = Some e" "leBizType e \<in> commissionKinds" "leBizID e = formatInt i" "ukTenantID (leKey e) = n"
      using linksButD(2) [OF links c(1)] by (auto simp: journalled_def)
    then have "e \<in> set (tenantEntries n d)" using tenantEntries_rows [OF wf] by blast
    moreover have "referencesCommission (leBizType e)" using e(2) by (auto simp: commissionKinds_def referencesCommission_def)
    ultimately show "i \<in> commissionNumbers (tenantEntries n d)" using e(3) fits [OF c(1)] by (auto simp: commissionNumbers_def)
  qed
qed

subsection \<open>Groups\<close>

definition allocKeyOf :: "commission \<Rightarrow> alloc_key" where
  "allocKeyOf c = AllocKey (cKey c) (cOrderItemID c)"

definition allocSum :: "alloc_key \<Rightarrow> commission list \<Rightarrow> int" where
  "allocSum k p = (\<Sum>c\<leftarrow>p. onlyIf (accrual c \<and> allocKeyOf c = k) (sint (cAmount c)))"

definition grouped :: "commission list \<Rightarrow> alloc_groups \<Rightarrow> bool" where
  "grouped p groups \<longleftrightarrow> distinct (map fst groups) \<and> (\<forall>c\<in>set p. accrual c \<longrightarrow> allocKeyOf c \<in> fst ` set groups) \<and>
     (\<forall>k g. (k, g) \<in> set groups \<longrightarrow> sint (aaAmount g) = allocSum k p \<and>
        (\<exists>c\<in>set p. accrual c \<and> allocKeyOf c = k \<and> aaBase g = cBaseAmount c))"

lemma groupedD:
  assumes "grouped p groups"
  shows "distinct (map fst groups)" "c \<in> set p \<Longrightarrow> accrual c \<Longrightarrow> allocKeyOf c \<in> fst ` set groups"
    "(k, g) \<in> set groups \<Longrightarrow> sint (aaAmount g) = allocSum k p"
    "(k, g) \<in> set groups \<Longrightarrow> \<exists>c\<in>set p. accrual c \<and> allocKeyOf c = k \<and> aaBase g = cBaseAmount c"
  using assms unfolding grouped_def by blast+

lemma allocSum_item:
  assumes "storeWf d" "okTenantID k = n"
  shows "allocSum (AllocKey k item) (commissionsOf n d) = itemSum k item d"
  unfolding allocSum_def commissionsOf_sum [OF assms(1)] itemSum_def
  by (rule mapSum_cong) (use assms(2) in \<open>auto simp: onlyIf_def allocKeyOf_def\<close>)

lemma allocSum_prefix:
  assumes inv: "moneyInv d" and quota: "quotaOk d" and split: "commissionsOf n d = p @ q" and c: "c \<in> set p" "accrual c"
  shows "0 \<le> allocSum (allocKeyOf c) p" "allocSum (allocKeyOf c) p \<le> sint (cBaseAmount c)"
proof -
  note wf = moneyInv_parts(1) [OF inv]
  have row: "dCommissions d (cID c) = Some c" "okTenantID (cKey c) = n"
    using commissionsOf_rows [OF wf, of n] c(1) split by auto
  have "0 \<le> allocSum (allocKeyOf c) p \<and> allocSum (allocKeyOf c) p \<le> allocSum (allocKeyOf c) (commissionsOf n d)"
    unfolding allocSum_def split by (rule prefix_bounds) (auto simp: onlyIf_def accrual_def)
  then show "0 \<le> allocSum (allocKeyOf c) p" "allocSum (allocKeyOf c) p \<le> sint (cBaseAmount c)"
    using quotaOkD(1) [OF quota row(1) c(2)] allocSum_item [OF wf row(2)] by (simp_all add: allocKeyOf_def)
qed

lemma update_pairs:
  assumes dist: "distinct (map fst ps)"
  shows "(k, v) \<in> set (AList.update k0 v0 ps) \<longleftrightarrow> (if k = k0 then v = v0 else (k, v) \<in> set ps)"
proof -
  have "distinct (map fst (AList.update k0 v0 ps))" using dist by (rule AList.distinct_update)
  then show ?thesis
    using map_of_eq_Some_iff [of "AList.update k0 v0 ps" k v] map_of_eq_Some_iff [OF dist, of k v]
    by (auto simp: AList.update_conv')
qed

text \<open>The group an accrual is added to: the one of its key, or a new one with its base.\<close>

lemma group_start:
  assumes g: "grouped p groups" and c: "accrual c"
    and bases: "\<And>x. x \<in> set p \<Longrightarrow> accrual x \<Longrightarrow> allocKeyOf x = allocKeyOf c \<Longrightarrow> cBaseAmount x = cBaseAmount c"
    and g0: "g0 = (case map_of groups (allocKeyOf c) of None \<Rightarrow> \<lparr>aaBase = cBaseAmount c, aaAmount = 0\<rparr> | Some g \<Rightarrow> g)"
  shows "sint (aaAmount g0) = allocSum (allocKeyOf c) p \<and> aaBase g0 = cBaseAmount c"
proof (cases "map_of groups (allocKeyOf c)")
  case None
  then have "allocKeyOf c \<notin> fst ` set groups" by (simp add: map_of_eq_None_iff)
  then have "\<not> (accrual x \<and> allocKeyOf x = (allocKeyOf c))" if "x \<in> set p" for x
    using groupedD(2) [OF g that] by metis
  then have "allocSum (allocKeyOf c) p = (\<Sum>x\<leftarrow>p. 0)"
    unfolding allocSum_def by (intro arg_cong [where f = sum_list] map_cong refl) (auto simp: onlyIf_def)
  then show ?thesis by (simp add: g0 None)
next
  case (Some v)
  then have "((allocKeyOf c), v) \<in> set groups" by (rule map_of_SomeD)
  then obtain x where "sint (aaAmount v) = allocSum (allocKeyOf c) p" "x \<in> set p" "accrual x" "allocKeyOf x = (allocKeyOf c)" "aaBase v = cBaseAmount x"
    using groupedD(3,4) [OF g] by blast
  then show ?thesis using bases [of x] by (simp add: g0 Some)
qed

lemma link_one:
  assumes g: "grouped p groups" and fits: "accrual c \<Longrightarrow> in64 (allocSum (allocKeyOf c) (p @ [c]))"
    and bases: "\<And>x. x \<in> set p \<Longrightarrow> accrual x \<Longrightarrow> accrual c \<Longrightarrow> allocKeyOf x = allocKeyOf c \<Longrightarrow> cBaseAmount x = cBaseAmount c"
    and refs: "cID c \<in> refs"
  shows "\<exists>groups'. linkCommission refs c (res, known, groups) = okC (checkedOne res, insert (cID c) known, groups') \<and> grouped (p @ [c]) groups'"
proof (cases "accrual c")
  case False
  then have "cAmount c <=s 0" by (simp add: accrual_def sle_sint)
  moreover have "allocSum k (p @ [c]) = allocSum k p" for k using False by (simp add: allocSum_def onlyIf_def)
  then have "grouped (p @ [c]) groups" using g False unfolding grouped_def by auto
  ultimately show ?thesis using refs by (simp add: linkCommission_def Let_def flagIf_def)
next
  case True
  let ?k = "allocKeyOf c"
  define g0 where "g0 = (case map_of groups ?k of None \<Rightarrow> \<lparr>aaBase = cBaseAmount c, aaAmount = 0\<rparr> | Some g \<Rightarrow> g)"
  have dist: "distinct (map fst groups)" using g by (simp add: grouped_def)
  have g0: "sint (aaAmount g0) = allocSum ?k p \<and> aaBase g0 = cBaseAmount c"
    by (rule group_start [OF g True _ g0_def]) (use bases True in blast)
  have more: "allocSum k (p @ [c]) = allocSum k p + onlyIf (k = ?k) (sint (cAmount c))" for k
    using True by (simp add: allocSum_def onlyIf_def eq_commute)
  have sum: "in64 (sint (aaAmount g0) + sint (cAmount c))" using fits [OF True] g0 more [of ?k] by (simp add: onlyIf_def)
  let ?g' = "g0\<lparr>aaAmount := aaAmount g0 + cAmount c\<rparr>"
  have run: "linkCommission refs c (res, known, groups) = okC (checkedOne res, insert (cID c) known, AList.update ?k ?g' groups)"
    using True refs sum unfolding linkCommission_def prod.case Let_def allocKeyOf_def [symmetric] g0_def [symmetric]
    by (simp add: accrual_def sle_sint flagIf_def moneyAdd_exact)
  note pairs = update_pairs [OF dist]
  have "grouped (p @ [c]) (AList.update ?k ?g' groups)"
    unfolding grouped_def
  proof (intro conjI allI impI ballI)
    show "distinct (map fst (AList.update ?k ?g' groups))" using dist by (rule AList.distinct_update)
    show "allocKeyOf x \<in> fst ` set (AList.update ?k ?g' groups)" if "x \<in> set (p @ [c])" "accrual x" for x
      using that groupedD(2) [OF g, of x] by (auto simp: AList.dom_update)
    fix k v assume kv: "(k, v) \<in> set (AList.update ?k ?g' groups)"
    show "sint (aaAmount v) = allocSum k (p @ [c])"
      using kv groupedD(3) [OF g, of k v] g0 sint_add64 [OF sum] by (auto simp: pairs more onlyIf_def split: if_splits)
    show "\<exists>x\<in>set (p @ [c]). accrual x \<and> allocKeyOf x = k \<and> aaBase v = cBaseAmount x"
      using kv groupedD(4) [OF g, of k v] g0 True by (auto simp: pairs split: if_splits)
  qed
  then show ?thesis using run by blast
qed

lemma link_all:
  assumes inv: "moneyInv d" and quota: "quotaOk d"
  shows "\<exists>groups. foldC (linkCommission (cID ` set (commissionsOf n d))) (commissionsOf n d) (res, {}, []) =
      okC (fold (\<lambda>c. checkedOne) (commissionsOf n d) res, cID ` set (commissionsOf n d), groups) \<and> grouped (commissionsOf n d) groups"
proof -
  note wf = moneyInv_parts(1) [OF inv]
  let ?refs = "cID ` set (commissionsOf n d)"
  have row: "dCommissions d (cID c) = Some c" if "c \<in> set (commissionsOf n d)" for c
    using that commissionsOf_rows [OF wf, of n] by auto
  have "\<exists>groups. foldC (linkCommission ?refs) p (res, {}, []) = okC (fold (\<lambda>c. checkedOne) p res, cID ` set p, groups) \<and> grouped p groups"
    if "commissionsOf n d = p @ q" for p q
    using that
  proof (induction p arbitrary: q rule: rev_induct)
    case Nil
    show ?case by (simp add: grouped_def)
  next
    case (snoc c p)
    obtain groups where g: "foldC (linkCommission ?refs) p (res, {}, []) = okC (fold (\<lambda>c. checkedOne) p res, cID ` set p, groups)"
      "grouped p groups" using snoc.IH [of "c # q"] snoc.prems by auto
    have c: "c \<in> set (commissionsOf n d)" using snoc.prems by simp
    have fits: "in64 (allocSum (allocKeyOf c) (p @ [c]))" if "accrual c"
      using allocSum_prefix [OF inv quota snoc.prems, of c] that sint_upper [of "cBaseAmount c"] by (simp add: in64_def)
    have bases: "cBaseAmount x = cBaseAmount c" if "x \<in> set p" "accrual x" "accrual c" "allocKeyOf x = allocKeyOf c" for x
      using quotaOkD(2) [OF quota row [OF c] that(3), of "cID x" x] row [of x] that snoc.prems by (auto simp: allocKeyOf_def)
    have "cID c \<in> ?refs" using c by blast
    from link_one [OF g(2) fits bases this] obtain groups' where
      "linkCommission ?refs c (fold (\<lambda>c. checkedOne) p res, cID ` set p, groups) =
         okC (checkedOne (fold (\<lambda>c. checkedOne) p res), insert (cID c) (cID ` set p), groups')" "grouped (p @ [c]) groups'"
      by blast
    then show ?case using g(1) by (intro exI [of _ groups']) (simp add: foldC_append)
  qed
  then show ?thesis by blast
qed

subsection \<open>The cap\<close>

definition capOf :: "ledger \<Rightarrow> money \<Rightarrow> money" where
  "capOf l m = (case moneyApply m (rMaxAllocatableBP (lRules l)) RoundDown of Inl e \<Rightarrow> 0 | Inr cap \<Rightarrow> cap)"

lemma cap_exists:
  assumes "rateValid (rMaxAllocatableBP (lRules l))" "0 \<le> sint m"
  shows "moneyApply m (rMaxAllocatableBP (lRules l)) RoundDown = Inr (capOf l m)"
proof -
  have mode: "roundingValid RoundDown" by (simp add: roundingValid_def)
  have "roundQuot (RoundDown = RoundUp) (RoundDown = RoundHalfUp) (nat \<bar>sint m\<bar> * nat (rMaxAllocatableBP (lRules l))) 10000 \<le> 9223372036854775807"
    using moneyApply_quotient(1) [OF assms(1) mode, of m] assms(2) sint_upper [of m] by linarith
  from moneyApply_quotient(2) [OF assms(1) mode this] show ?thesis by (auto simp: capOf_def)
qed

text \<open>The cap is the whole number of cents below the exact share of the base.\<close>

lemma cap_value:
  assumes "rateValid (rMaxAllocatableBP (lRules l))" "0 \<le> sint m"
  shows "sint (capOf l m) = sint m * rMaxAllocatableBP (lRules l) div 10000"
proof -
  let ?bp = "rMaxAllocatableBP (lRules l)"
  have mode: "roundingValid RoundDown" by (simp add: roundingValid_def)
  have bp: "0 \<le> ?bp" using assms(1) by (simp add: rateValid_def)
  let ?q = "roundQuot (RoundDown = RoundUp) (RoundDown = RoundHalfUp) (nat \<bar>sint m\<bar> * nat ?bp) 10000"
  have q: "int ?q = sint m * ?bp div 10000"
    using assms(2) bp by (simp add: roundQuot_def zdiv_int)
  have "?q \<le> nat \<bar>sint m\<bar>" using moneyApply_quotient(1) [OF assms(1) mode, of m] .
  then have "?q \<le> 9223372036854775807" using assms(2) sint_upper [of m] by linarith
  from moneyApply_quotient(2) [OF assms(1) mode this] cap_exists [OF assms]
  have "sint (capOf l m) = sgn (sint m) * int ?q" by auto
  then show ?thesis using q assms(2) by (cases "sint m = 0") (simp_all add: sgn_if)
qed

definition overCap :: "ledger \<Rightarrow> alloc_key \<times> alloc_agg \<Rightarrow> bool" where
  "overCap l kg \<longleftrightarrow> capOf l (aaBase (snd kg)) <s aaAmount (snd kg)"

definition capFlag :: "ledger \<Rightarrow> alloc_key \<times> alloc_agg \<Rightarrow> invariant_result \<Rightarrow> invariant_result" where
  "capFlag l kg = flagIf (overCap l kg) (CapExceeded (akOrderKey (fst kg))
     (if akOrderItemID (fst kg) = [] then ''<whole order>'' else akOrderItemID (fst kg))
     (aaAmount (snd kg)) (capOf l (aaBase (snd kg))) (aaBase (snd kg)))"

lemma foldE_ok: "(\<And>x s. x \<in> set xs \<Longrightarrow> f x s = Inr (g x s)) \<Longrightarrow> foldE f xs s = Inr (fold g xs s)"
  by (induction xs arbitrary: s) simp_all

lemma cap_counts:
  "irChecked (fold (capFlag l) gs r) = irChecked r"
  "irOK (fold (capFlag l) gs r) \<longleftrightarrow> irOK r \<and> (\<forall>g\<in>set gs. \<not> overCap l g)"
  "set (irViolations (fold (capFlag l) gs r)) \<subseteq> set (irViolations r) \<union> {v. \<exists>k i a b c. v = CapExceeded k i a b c}"
proof (induction gs arbitrary: r)
  case (Cons g gs)
  have one: "irChecked (capFlag l g r) = irChecked r" "irOK (capFlag l g r) \<longleftrightarrow> irOK r \<and> \<not> overCap l g"
    "set (irViolations (capFlag l g r)) \<subseteq> set (irViolations r) \<union> {v. \<exists>k i a b c. v = CapExceeded k i a b c}"
    for r by (auto simp: capFlag_def flagIf_def addViolation_def)
  { case 1 show ?case using Cons(1) one(1) by simp }
  { case 2 show ?case using Cons(2) one(2) by auto }
  { case 3 show ?case using Cons(3) [of "capFlag l g r"] one(3) [of r] by auto }
qed simp_all

lemma no_dangling: "\<forall>i\<in>set is. i \<in> known \<Longrightarrow> fold (\<lambda>i. flagIf (i \<notin> known) (DanglingEntry i)) is r = r"
  by (induction "is") simp_all

lemma checkedOne_counts:
  "irChecked (fold (\<lambda>c. checkedOne) xs r) = irChecked r + length xs \<and> irOK (fold (\<lambda>c. checkedOne) xs r) = irOK r \<and>
    irViolations (fold (\<lambda>c. checkedOne) xs r) = irViolations r"
  by (induction xs arbitrary: r) (simp_all add: checkedOne_def)

text \<open>A group of the finished pass is an order item of the tenant, with its base and the sum of its accruals.\<close>

lemma group_item:
  assumes inv: "moneyInv d" and quota: "quotaOk d" and g: "grouped (commissionsOf n d) groups" and kv: "(k, v) \<in> set groups"
  shows "\<exists>c\<in>set (commissionsOf n d). accrual c \<and> k = allocKeyOf c \<and> aaBase v = cBaseAmount c \<and>
      sint (aaAmount v) = itemSum (cKey c) (cOrderItemID c) d \<and> 0 \<le> sint (aaBase v)"
proof -
  note wf = moneyInv_parts(1) [OF inv]
  obtain c where c: "c \<in> set (commissionsOf n d)" "accrual c" "allocKeyOf c = k" "aaBase v = cBaseAmount c"
    using groupedD(4) [OF g kv] by blast
  have "okTenantID (cKey c) = n" using c(1) commissionsOf_rows [OF wf, of n] by auto
  then have "sint (aaAmount v) = itemSum (cKey c) (cOrderItemID c) d"
    using groupedD(3) [OF g kv] allocSum_item [OF wf, of "cKey c" n "cOrderItemID c"] by (simp add: allocKeyOf_def flip: c(3))
  moreover have "0 \<le> sint (cBaseAmount c)"
    using allocSum_prefix [OF inv quota, of n "commissionsOf n d" "[]" c] c(1,2) by simp
  ultimately show ?thesis using c by auto
qed

text \<open>No group is over its cap exactly if no item is.\<close>

lemma groups_within_cap:
  assumes inv: "moneyInv d" and quota: "quotaOk d" and g: "grouped (commissionsOf n d) groups"
  shows "(\<forall>kg\<in>set groups. \<not> overCap l kg) \<longleftrightarrow> (\<forall>c\<in>set (commissionsOf n d). accrual c \<longrightarrow>
       itemSum (cKey c) (cOrderItemID c) d \<le> sint (capOf l (cBaseAmount c)))"
proof (intro iffI ballI impI)
  note item = group_item [OF inv quota g]
  have row: "dCommissions d (cID c) = Some c" if "c \<in> set (commissionsOf n d)" for c
    using that commissionsOf_rows [OF moneyInv_parts(1) [OF inv], of n] by auto
  fix c assume all: "\<forall>kg\<in>set groups. \<not> overCap l kg" and c: "c \<in> set (commissionsOf n d)" "accrual c"
  obtain v where v: "(allocKeyOf c, v) \<in> set groups" using groupedD(2) [OF g c] by auto
  then obtain x where x: "x \<in> set (commissionsOf n d)" "accrual x" "allocKeyOf c = allocKeyOf x" "aaBase v = cBaseAmount x"
    "sint (aaAmount v) = itemSum (cKey x) (cOrderItemID x) d" using item by blast
  then have "cBaseAmount x = cBaseAmount c"
    using quotaOkD(2) [OF quota row [OF c(1)] c(2) row [OF x(1)] x(2)] by (simp add: allocKeyOf_def)
  moreover have "\<not> overCap l (allocKeyOf c, v)" using all v by simp
  ultimately show "itemSum (cKey c) (cOrderItemID c) d \<le> sint (capOf l (cBaseAmount c))"
    using x(3-5) by (simp add: overCap_def sless_sint allocKeyOf_def)
next
  fix kg assume all: "\<forall>c\<in>set (commissionsOf n d). accrual c \<longrightarrow> itemSum (cKey c) (cOrderItemID c) d \<le> sint (capOf l (cBaseAmount c))"
    and kg: "kg \<in> set groups"
  obtain k v where kv: "kg = (k, v)" "(k, v) \<in> set groups" using kg by (cases kg rule: prod.exhaust) auto
  from group_item [OF inv quota g kv(2)] show "\<not> overCap l kg" using all by (auto simp: overCap_def kv(1) sless_sint)
qed

lemma allocation_result:
  assumes inv: "moneyInv d" and links: "linksOk d" and quota: "quotaOk d" and ids: "dNextID d < 2 ^ 63"
    and rate: "rateValid (rMaxAllocatableBP (lRules l))"
  shows "\<exists>r. checkAllocationCap l n d = okC r \<and> irChecked r = length (commissionsOf n d) \<and>
    (irOK r \<longleftrightarrow> (\<forall>c\<in>set (commissionsOf n d). accrual c \<longrightarrow>
       itemSum (cKey c) (cOrderItemID c) d \<le> sint (capOf l (cBaseAmount c)))) \<and>
    (\<forall>v\<in>set (irViolations r). \<exists>k i a b c. v = CapExceeded k i a b c)"
proof -
  note wf = moneyInv_parts(1) [OF inv]
  let ?new = "newInvariant ''I2: commission ledger linkage and allocation cap''" and ?cs = "commissionsOf n d"
  let ?ids = "cID ` set ?cs"
  have parses: "parseInt (leBizID e) \<noteq> None" if "e \<in> set (tenantEntries n d)" "referencesCommission (leBizType e)" for e
    using that tenantEntries_rows [OF wf] linked_parses [OF inv links ids] by blast
  have refs: "foldC collectRef (tenantEntries n d) (?new, {}) = okC (?new, ?ids)"
    using collect_commissions [of "tenantEntries n d" ?new "{}"] parses commissionNumbers_rows [OF inv links ids, of n] by simp
  let ?r1 = "fold (\<lambda>c. checkedOne) ?cs ?new"
  obtain groups where run: "foldC (linkCommission ?ids) ?cs (?new, {}, []) = okC (?r1, ?ids, groups)"
    and g: "grouped ?cs groups" using link_all [OF inv quota] by blast
  let ?gs = "sort_key (\<lambda>g. allocKeyOrder (fst g)) groups"
  have quotas: "foldE (checkQuota l) ?gs ?r1 = Inr (fold (capFlag l) ?gs ?r1)"
  proof (rule foldE_ok)
    fix kg r assume "kg \<in> set ?gs"
    then obtain k v where kg: "kg = (k, v)" "(k, v) \<in> set groups" by (cases kg rule: prod.exhaust) auto
    have "0 \<le> sint (aaBase v)" using group_item [OF inv quota g kg(2)] by blast
    from cap_exists [OF rate this] show "checkQuota l kg r = Inr (capFlag l kg r)"
      by (simp add: checkQuota_def kg(1) capFlag_def overCap_def)
  qed
  have "checkAllocationCap l n d = okC (fold (capFlag l) ?gs ?r1)"
    unfolding checkAllocationCap_def tenant_loop [OF wf] commissions_loop [OF wf]
    by (simp add: refs run no_dangling quotas)
  moreover have "(\<forall>kg\<in>set ?gs. \<not> overCap l kg) \<longleftrightarrow> (\<forall>c\<in>set ?cs. accrual c \<longrightarrow>
       itemSum (cKey c) (cOrderItemID c) d \<le> sint (capOf l (cBaseAmount c)))"
    using groups_within_cap [OF inv quota g, of l] by simp
  moreover have "irChecked ?r1 = length ?cs \<and> irOK ?r1 \<and> irViolations ?r1 = []"
    using checkedOne_counts [of ?cs ?new] by (simp add: newInvariant_def)
  ultimately show ?thesis
    using cap_counts(3) [of l ?gs ?r1] by (intro exI [of _ "fold (capFlag l) ?gs ?r1"]) (auto simp: cap_counts(1,2))
qed

end
