(* ===== verification/SelfAudit.thy ===== *)
theory SelfAudit
  imports AllocationCheck
begin

text \<open>
  The whole self-check on a state the engine has produced: what it reports is decided by three
  conditions on the data, and the journal and the records refer to each other as it expects.
\<close>

subsection \<open>References and quotas\<close>

lemma mapSum_one: "mapSum f [k \<mapsto> v] = f v"
  using mapSum_new [of Map.empty k f v] by simp

text \<open>
  C3. In every reachable state the journal and the records refer to each other: an entry that names a
  commission or a withdrawal names an existing one of its own tenant; every commission has an entry
  of its tenant that books it; every withdrawal has the entry of its hold, every paid one the entry
  of its payment and every rejected one the entry of its release.
\<close>

theorem journal_references:
  assumes "reachable s"
  shows "(\<forall>j e. dLedger (stData s) j = Some e \<longrightarrow>
      (referencesCommission (leBizType e) \<longrightarrow> (\<exists>i c. leBizID e = formatInt i \<and> dCommissions (stData s) i = Some c \<and>
         okTenantID (cKey c) = ukTenantID (leKey e))) \<and>
      (referencesWithdrawal (leBizType e) \<longrightarrow> (\<exists>i w. leBizID e = formatInt i \<and> dWithdrawals (stData s) i = Some w \<and>
         ukTenantID (wKey w) = ukTenantID (leKey e)))) \<and>
    (\<forall>i c. dCommissions (stData s) i = Some c \<longrightarrow>
      journalled (stData s) {LedgerAccrue, LedgerReverse, LedgerVoid} (okTenantID (cKey c)) i) \<and>
    (\<forall>i w. dWithdrawals (stData s) i = Some w \<longrightarrow>
      journalled (stData s) {LedgerWithdrawHold} (ukTenantID (wKey w)) i \<and>
      (wState w = WithdrawalPaid \<longrightarrow> journalled (stData s) {LedgerWithdrawPaid} (ukTenantID (wKey w)) i) \<and>
      (wState w = WithdrawalRejected \<longrightarrow> journalled (stData s) {LedgerWithdrawRefund} (ukTenantID (wKey w)) i))"
  using linked_steps.reachable_holds [OF assms]
  by (simp add: linksBut_def refersTo_def commissionKinds_def withdrawalLinked_def)

theorem journal_references_witness: "journalled (stData demo3) {LedgerAccrue, LedgerReverse, LedgerVoid} 1 1"
proof -
  have "dCommissions (stData demo3) 1 = Some demoC"
    by (simp add: demo3_def demoData3_def addLedger_def addAccount_def addCommission_def demoC_def)
  moreover have "okTenantID (cKey demoC) = 1" by (simp add: demoC_def accrualRecord_def demoPaid_def epOrderKey_def)
  ultimately show ?thesis using journal_references [OF demo_reachable(3)] by metis
qed

text \<open>
  C4. In every reachable state, whatever rules, resolvers and orders led there, the accruals of one
  item of an order (or of the whole order, where it has no items) were all computed from the same
  base, and together they are at most that base.
\<close>

theorem accruals_within_base:
  assumes "reachable s" "dCommissions (stData s) i = Some c" "0 < sint (cAmount c)"
  shows "mapSum (\<lambda>x. if 0 < sint (cAmount x) \<and> cKey x = cKey c \<and> cOrderItemID x = cOrderItemID c then sint (cAmount x) else 0)
      (dCommissions (stData s)) \<le> sint (cBaseAmount c) \<and>
    (\<forall>j x. dCommissions (stData s) j = Some x \<and> 0 < sint (cAmount x) \<and> cKey x = cKey c \<and> cOrderItemID x = cOrderItemID c \<longrightarrow>
      cBaseAmount x = cBaseAmount c)"
proof -
  have quota: "quotaOk (stData s)" using quota_steps.reachable_holds [OF assms(1)] by simp
  have acc: "accrual c" using assms(3) by (simp add: accrual_def)
  note q = quotaOkD [OF quota assms(2) acc]
  show ?thesis
    using q(1) q(2) by (auto simp: itemSum_def onlyIf_def accrual_def)
qed

theorem accruals_within_base_witness: "sint (cAmount demoC) \<le> sint (cBaseAmount demoC)"
proof -
  have row: "dCommissions (stData demo3) = [1 \<mapsto> demoC]"
    by (simp add: demo3_def demoData3_def addLedger_def addAccount_def addCommission_def demoC_def demoData2_def demoData1_def newData_def)
  have pos: "0 < sint (cAmount demoC)" by (simp add: demoC_def accrualRecord_def)
  have at: "dCommissions (stData demo3) 1 = Some demoC" by (simp add: row)
  from accruals_within_base [OF demo_reachable(3) at pos, THEN conjunct1]
  show ?thesis unfolding row mapSum_one using pos by (simp only: simp_thms if_True)
qed

subsection \<open>The check\<close>

lemma self_check_result:
  assumes inv: "moneyInv (stData s)" and links: "linksOk (stData s)" and quota: "quotaOk (stData s)"
    and ids: "dNextID (stData s) < 2 ^ 63" and open_: "\<not> stClosed s" and n: "0 \<le> n"
    and rate: "rateValid (rMaxAllocatableBP (lRules l))"
  shows "\<exists>rep. SelfCheck l memoryPorts n s = okC rep \<and> rpTenantID rep = n \<and> length (rpInvariants rep) = 4 \<and>
    (rpOK rep \<longleftrightarrow>
       (rAllowNegative (lRules l) \<or> (\<forall>a\<in>set (listedAccounts n (stData s)). 0 \<le> sint (aAvailable a))) \<and>
       (\<forall>c\<in>set (commissionsOf n (stData s)). accrual c \<longrightarrow>
          itemSum (cKey c) (cOrderItemID c) (stData s) \<le> sint (cBaseAmount c) * rMaxAllocatableBP (lRules l) div 10000) \<and>
       (\<forall>w\<in>set (withdrawalsOf n (stData s)). \<not> unstamped w))"
proof -
  let ?d = "stData s"
  note wf = moneyInv_parts(1) [OF inv]
  have base: "0 \<le> sint (cBaseAmount c)" if "c \<in> set (commissionsOf n ?d)" "accrual c" for c
    using allocSum_prefix [OF inv quota, of n "commissionsOf n ?d" "[]" c] that by simp
  obtain r1 where r1: "checkLedgerConservation l n ?d = okC r1"
    "irOK r1 \<longleftrightarrow> rAllowNegative (lRules l) \<or> (\<forall>a\<in>set (listedAccounts n ?d). 0 \<le> sint (aAvailable a))"
    using conservation_result [OF inv, of l n] by (auto simp: debt_counts newInvariant_def sless_sint not_less)
  obtain r2 where r2: "checkAllocationCap l n ?d = okC r2" "irOK r2 \<longleftrightarrow> (\<forall>c\<in>set (commissionsOf n ?d). accrual c \<longrightarrow>
       itemSum (cKey c) (cOrderItemID c) ?d \<le> sint (capOf l (cBaseAmount c)))"
    using allocation_result [OF inv links quota ids rate, of n] by blast
  obtain r3 where r3: "checkReversalReconciliation n ?d = okC r3" "irOK r3"
    using reversal_result [OF inv, of n] by (auto simp: cleanResult_def)
  obtain r4 where r4: "checkWithdrawalReconciliation n ?d = okC r4" "irOK r4 \<longleftrightarrow> (\<forall>w\<in>set (withdrawalsOf n ?d). \<not> unstamped w)"
    using withdrawal_result [OF inv links ids n] by (auto simp: stamp_counts checked_counts newInvariant_def)
  obtain counts where counts: "rdCountCommissionsByState n ?d = Inr counts" by (simp add: rdCountCommissionsByState_def)
  have reads: "selfCheckReads l n None ?d = okC (stateCounters counts, [r1, r2, r3, r4])"
    by (simp add: selfCheckReads_def counts r1(1) r2(1) r3(1) r4(1))
  let ?rep = "\<lparr>rpTenantID = n, rpOK = list_all irOK [r1, r2, r3, r4], rpStoreKind = StoreKind, rpSchemaIssues = [],
      rpInvariants = [r1, r2, r3, r4], rpCounters = stateCounters counts, rpReconciled = False\<rparr>"
  have "SelfCheck l memoryPorts n s = okC ?rep"
    using n open_ by (simp add: SelfCheck_def memoryPorts_def reads)
  then show ?thesis
    using r1(2) r2(2) r3(2) r4(2) cap_value [OF rate base] by (intro exI [of _ ?rep]) auto
qed

text \<open>
  C2. A self-check of a tenant in a reachable state always returns a report, with its four invariants,
  and the report is clean exactly when three conditions hold: no listed account is in debt, unless
  the rules allow debts; the accruals of every item stay within the cap of the rules the check runs
  with; and no paid withdrawal lacks its payment time. So the check never raises a false alarm about
  conservation, references, reversals or reservations on what the engine itself has written. The
  numbers of the records are assumed to fit int64, and the cap of the rules is a valid rate, as the
  construction of a ledger ensures.
\<close>

theorem self_check_decides:
  assumes "reachable s" "\<not> stClosed s" "0 \<le> n" "dNextID (stData s) < 2 ^ 63"
    and "rateValid (rMaxAllocatableBP (lRules l))"
  shows "\<exists>rep. SelfCheck l memoryPorts n s = Some (Inr rep) \<and> rpTenantID rep = n \<and> length (rpInvariants rep) = 4 \<and>
    (rpOK rep \<longleftrightarrow>
       (rAllowNegative (lRules l) \<or> (\<forall>a\<in>set (listedAccounts n (stData s)). 0 \<le> sint (aAvailable a))) \<and>
       (\<forall>c\<in>set (commissionsOf n (stData s)). 0 < sint (cAmount c) \<longrightarrow>
          itemSum (cKey c) (cOrderItemID c) (stData s) \<le> sint (cBaseAmount c) * rMaxAllocatableBP (lRules l) div 10000) \<and>
       (\<forall>w\<in>set (withdrawalsOf n (stData s)). wState w = WithdrawalPaid \<longrightarrow> wPaidAt w \<noteq> 0))"
proof -
  have "moneyInv (stData s)" "linksOk (stData s)" "quotaOk (stData s)"
    using linked_steps.reachable_holds [OF assms(1)] quota_steps.reachable_holds [OF assms(1)] by auto
  from self_check_result [OF this assms(4,2,3,5)] show ?thesis by (auto simp: okC_def accrual_def unstamped_def)
qed

text \<open>
  C31. The linkage and allocation check of a reachable state always ends without an error, has looked
  at every commission of the tenant, and reports nothing but groups of accruals above the cap of
  the rules it runs with; under rules that allow the whole base it reports nothing.
\<close>

theorem allocation_check_passes:
  assumes "reachable s" "dNextID (stData s) < 2 ^ 63" "rateValid (rMaxAllocatableBP (lRules l))"
  shows "\<exists>r. checkAllocationCap l n (stData s) = Some (Inr r) \<and> irChecked r = length (commissionsOf n (stData s)) \<and>
    (\<forall>v\<in>set (irViolations r). \<exists>k i a b c. v = CapExceeded k i a b c) \<and>
    (rMaxAllocatableBP (lRules l) = 10000 \<longrightarrow> irOK r)"
proof -
  have inv: "moneyInv (stData s)" and links: "linksOk (stData s)" and quota: "quotaOk (stData s)"
    using linked_steps.reachable_holds [OF assms(1)] quota_steps.reachable_holds [OF assms(1)] by auto
  obtain r where r: "checkAllocationCap l n (stData s) = okC r" "irChecked r = length (commissionsOf n (stData s))"
    "irOK r \<longleftrightarrow> (\<forall>c\<in>set (commissionsOf n (stData s)). accrual c \<longrightarrow>
       itemSum (cKey c) (cOrderItemID c) (stData s) \<le> sint (capOf l (cBaseAmount c)))"
    "\<forall>v\<in>set (irViolations r). \<exists>k i a b c. v = CapExceeded k i a b c"
    using allocation_result [OF inv links quota assms(2,3), of n] by blast
  have "irOK r" if bp: "rMaxAllocatableBP (lRules l) = 10000"
    unfolding r(3)
  proof (intro ballI impI)
    fix c assume c: "c \<in> set (commissionsOf n (stData s))" "accrual c"
    then have row: "dCommissions (stData s) (cID c) = Some c" using commissionsOf_rows [OF moneyInv_parts(1) [OF inv], of n] by auto
    have "0 \<le> sint (cBaseAmount c)"
      using allocSum_prefix [OF inv quota, of n "commissionsOf n (stData s)" "[]" c] c by simp
    then show "itemSum (cKey c) (cOrderItemID c) (stData s) \<le> sint (capOf l (cBaseAmount c))"
      using quotaOkD(1) [OF quota row c(2)] cap_value [OF assms(3)] bp by simp
  qed
  then show ?thesis using r by (auto simp: okC_def)
qed

subsection \<open>At the demonstration state\<close>

lemma demo_rate: "rMaxAllocatableBP (lRules (demoLedger t)) = 10000" "rateValid (rMaxAllocatableBP (lRules (demoLedger t)))"
  by (simp_all add: demoLedger_def demoRules_def DefaultRules_def rateValid_def MaxRateBP_def RateScale_def)

theorem allocation_check_passes_witness:
  "\<exists>r. checkAllocationCap (demoLedger 1) 1 (stData demo3) = Some (Inr r) \<and> irOK r"
  using allocation_check_passes [OF demo_reachable(3) demo_ids demo_rate(2), of 1 1] demo_rate(1) by blast

theorem self_check_decides_witness:
  "\<exists>rep. SelfCheck (demoLedger 1) memoryPorts 1 demo3 = Some (Inr rep) \<and> rpOK rep"
proof -
  have rows: "listedAccounts 1 (stData demo3) = [demoA\<lparr>aVersion := 1\<rparr>]" "withdrawalsOf 1 (stData demo3) = []"
    "commissionsOf 1 (stData demo3) = [demoC]" "dCommissions (stData demo3) = [1 \<mapsto> demoC]"
    by (simp_all add: listedAccounts_def accountsOf_def rowsAt_def demo3_def demoData3_def addLedger_def addAccount_def
        addCommission_def demoData2_def demoData1_def newData_def demoA_def zeroAccount_def insertAt_def lowerBound_def
        sortSearch_def searchFrom.simps withdrawalsOf_def commissionsOf_def demoC_def accrualRecord_def demoPaid_def epOrderKey_def)
  have c: "sint (cAmount demoC) = 500" "sint (cBaseAmount demoC) = 10000"
    by (simp_all add: demoC_def accrualRecord_def demoBase_def)
  have "\<not> stClosed demo3" by (simp add: demo3_def newStore_def)
  from self_check_decides [OF demo_reachable(3) this _ demo_ids demo_rate(2), of 1 1]
  show ?thesis by (auto simp: rows c demo_rate(1) itemSum_def mapSum_one onlyIf_def demoA_def zeroAccount_def split: if_splits)
qed

end
