(* ===== verification/Names.thy ===== *)
theory Names
  imports Events
begin

text \<open>
  The \<open>String\<close> methods of the enumerations of model.go and event.go, and that a name identifies
  its constant.
\<close>

subsection \<open>Names of constants\<close>

text \<open>A value outside the declared constants prints its number.\<close>

definition numbered :: "string \<Rightarrow> nat \<Rightarrow> string" where
  "numbered kind n = kind @ ''('' @ formatInt (int n) @ '')''"

definition joinTypeString :: "join_type \<Rightarrow> string" where
  "joinTypeString j = (case j of
      JoinFree \<Rightarrow> ''free'' | JoinReviewed \<Rightarrow> ''reviewed'' | JoinPaid \<Rightarrow> ''paid'' | JoinTypeRaw n \<Rightarrow> numbered ''JoinType'' n)"

definition bindSourceString :: "bind_source \<Rightarrow> string" where
  "bindSourceString s = (case s of
      SourceLink \<Rightarrow> ''link'' | SourceInviteCode \<Rightarrow> ''invite_code'' | SourceManual \<Rightarrow> ''manual''
    | SourceSalesperson \<Rightarrow> ''salesperson'' | BindSourceRaw n \<Rightarrow> numbered ''BindSource'' n)"

definition ledgerBizString :: "ledger_biz_type \<Rightarrow> string" where
  "ledgerBizString t = (case t of
      LedgerAccrue \<Rightarrow> ''accrue'' | LedgerSettle \<Rightarrow> ''settle'' | LedgerReverse \<Rightarrow> ''reverse'' | LedgerVoid \<Rightarrow> ''void''
    | LedgerWithdrawHold \<Rightarrow> ''withdraw_hold'' | LedgerWithdrawPaid \<Rightarrow> ''withdraw_paid''
    | LedgerWithdrawRefund \<Rightarrow> ''withdraw_refund'' | LedgerManualAdjust \<Rightarrow> ''manual_adjust''
    | LedgerBizRaw n \<Rightarrow> numbered ''LedgerBizType'' n)"

text \<open>The retired code and the default case have no constructor in the model: no code produces them.\<close>

definition skipCodeString :: "skip_code \<Rightarrow> string" where
  "skipCodeString c = (case c of
      SkipZeroAmount \<Rightarrow> ''zero_amount'' | SkipIneligible \<Rightarrow> ''ineligible'' | SkipNoParent \<Rightarrow> ''no_parent''
    | SkipCapExhausted \<Rightarrow> ''cap_exhausted'' | SkipAgentMissing \<Rightarrow> ''agent_missing'' | SkipFullyReversed \<Rightarrow> ''fully_reversed'')"

text \<open>A name identifies a declared constant, and no raw value prints like one.\<close>

lemma names_identify:
  "joinTypeValid j \<Longrightarrow> joinTypeString j = joinTypeString j' \<Longrightarrow> j = j'"
  "bindSourceValid b \<Longrightarrow> bindSourceString b = bindSourceString b' \<Longrightarrow> b = b'"
  "ledgerBizValid t \<Longrightarrow> ledgerBizString t = ledgerBizString t' \<Longrightarrow> t = t'"
  "agentStatusValid s \<Longrightarrow> agentStatusString s = agentStatusString s' \<Longrightarrow> s = s'"
  "skipCodeString c = skipCodeString c' \<Longrightarrow> c = c'"
proof -
  show "joinTypeValid j \<Longrightarrow> joinTypeString j = joinTypeString j' \<Longrightarrow> j = j'"
    by (cases j; cases j') (simp_all add: joinTypeString_def joinTypeValid_def numbered_def)
  show "bindSourceValid b \<Longrightarrow> bindSourceString b = bindSourceString b' \<Longrightarrow> b = b'"
    by (cases b; cases b') (simp_all add: bindSourceString_def bindSourceValid_def numbered_def)
  show "ledgerBizValid t \<Longrightarrow> ledgerBizString t = ledgerBizString t' \<Longrightarrow> t = t'"
    by (cases t; cases t') (simp_all add: ledgerBizString_def ledgerBizValid_def numbered_def)
  show "agentStatusValid s \<Longrightarrow> agentStatusString s = agentStatusString s' \<Longrightarrow> s = s'"
    by (cases s; cases s') (simp_all add: agentStatusString_def agentStatusValid_def)
  show "skipCodeString c = skipCodeString c' \<Longrightarrow> c = c'"
    by (cases c; cases c') (simp_all add: skipCodeString_def)
qed

end
