(* ===== verification/Clock.thy ===== *)
theory Clock
  imports Model
begin

text \<open>
  \<open>ManualClock\<close>: a settable time; an instant carries no location in the model, so \<open>UTC()\<close> does nothing,
  and the lock makes each method one step. The system clock is the environment.
\<close>

record manual_clock =
  mcNow :: gotime

definition NewManualClock :: "gotime \<Rightarrow> manual_clock" where
  "NewManualClock t = \<lparr>mcNow = t\<rparr>"

definition clockNow :: "manual_clock \<Rightarrow> gotime" where
  "clockNow c = mcNow c"

definition clockAdvance :: "int \<Rightarrow> manual_clock \<Rightarrow> manual_clock" where
  "clockAdvance d c = c\<lparr>mcNow := mcNow c + d\<rparr>"

definition clockSet :: "gotime \<Rightarrow> manual_clock \<Rightarrow> manual_clock" where
  "clockSet t c = c\<lparr>mcNow := t\<rparr>"

text \<open>After any run of advances the clock shows the start plus their sum, whatever their order.\<close>

lemma clock_run: "clockNow (fold clockAdvance ds (clockSet t c)) = t + sum_list ds"
proof -
  have "mcNow (fold clockAdvance ds c) = mcNow c + sum_list ds" for c
    by (induction ds arbitrary: c) (simp_all add: clockAdvance_def)
  then show ?thesis by (simp add: clockNow_def clockSet_def)
qed

end
