(* ===== verification/SqlDialect.thy ===== *)
theory SqlDialect
  imports Model
begin

text \<open>
  store/sql/dialect.go and the three dialect packages store/mysql, store/postgres and store/sqlite:
  the errors a database driver hands back and how they are classified without importing a driver,
  what differs between the databases, and the encoding of values that may be NULL. A driver is not
  part of the source: its errors are described by the shape the code inspects.
\<close>

subsection \<open>Values and errors\<close>

text \<open>A value that is bound to a parameter or read from a column.\<close>

datatype sqlval = SNull | SInt int | SText string

datatype column_kind = KindInt64 | KindString | KindBytes | KindInstant

text \<open>
  What \<open>errorCode\<close> looks at in an error value of a driver: its \<open>Number\<close> method, its \<open>SQLState\<close>
  method, its exported fields (none when the value is not a struct) and its text.
\<close>

datatype field_value = FUint nat | FInt int | FString string | FOther

record error_shape =
  shNumber :: "int option"
  shSQLState :: "string option"
  shFields :: "string \<rightharpoonup> field_value"
  shText :: string

text \<open>
  The errors of the SQL store: an error of the ledger, an error of the driver with the error it
  wraps, \<open>fmt.Errorf\<close> with and without \<open>%w\<close>, and \<open>sql.ErrNoRows\<close>.
\<close>

datatype dberr =
    Ledger gerror
  | Driver error_shape "dberr option"
  | Context string dberr
  | Plain string
  | NoRows

text \<open>The wrap chain, outermost first.\<close>

fun wrapChain :: "dberr \<Rightarrow> dberr list" where
  "wrapChain (Context p e) = Context p e # wrapChain e"
| "wrapChain (Driver s (Some e)) = Driver s (Some e) # wrapChain e"
| "wrapChain e = [e]"

text \<open>\<open>errors.Is\<close>: the target is in the chain.\<close>

definition errorsIs :: "dberr \<Rightarrow> dberr \<Rightarrow> bool" where
  "errorsIs target e \<longleftrightarrow> target \<in> set (wrapChain e)"

text \<open>The text of an error; \<open>say\<close> is the text of the ledger's own errors, whose prose is dropped.\<close>

fun errorText :: "(gerror \<Rightarrow> string) \<Rightarrow> dberr \<Rightarrow> string" where
  "errorText say (Ledger e) = say e"
| "errorText say (Driver s _) = shText s"
| "errorText say (Context p e) = p @ '': '' @ errorText say e"
| "errorText say (Plain s) = s"
| "errorText say NoRows = ''sql: no rows in result set''"

fun firstSome :: "('a \<Rightarrow> 'b option) \<Rightarrow> 'a list \<Rightarrow> 'b option" where
  "firstSome f [] = None"
| "firstSome f (x # xs) = (case f x of Some y \<Rightarrow> Some y | None \<Rightarrow> firstSome f xs)"

subsection \<open>Error codes\<close>

definition uint32 :: "int \<Rightarrow> int" where
  "uint32 n = n mod 4294967296"

text \<open>A code is a number and a text; one of them is empty.\<close>

fun fieldCode :: "field_value \<Rightarrow> (int \<times> string) option" where
  "fieldCode (FUint n) = Some (uint32 (int n), [])"
| "fieldCode (FInt i) = (if i \<ge> 0 then Some (uint32 i, []) else None)"
| "fieldCode (FString s) = (if s \<noteq> [] then Some (0, s) else None)"
| "fieldCode FOther = None"

fun errorFields :: "dberr \<Rightarrow> (int \<times> string) option" where
  "errorFields (Driver s _) =
     firstSome (\<lambda>name. case shFields s name of None \<Rightarrow> None | Some f \<Rightarrow> fieldCode f) [''Number'', ''Code'']"
| "errorFields _ = None"

fun numberMethod :: "dberr \<Rightarrow> int option" where
  "numberMethod (Driver s _) = shNumber s"
| "numberMethod _ = None"

fun stateMethod :: "dberr \<Rightarrow> string option" where
  "stateMethod (Driver s _) = shSQLState s"
| "stateMethod _ = None"

definition errorCode :: "dberr \<Rightarrow> (int \<times> string) option" where
  "errorCode e =
     (case firstSome numberMethod (wrapChain e) of Some n \<Rightarrow> Some (uint32 n, [])
      | None \<Rightarrow>
        (case firstSome stateMethod (wrapChain e) of
           Some s \<Rightarrow> if s \<noteq> [] then Some (0, s) else firstSome errorFields (wrapChain e)
         | None \<Rightarrow> firstSome errorFields (wrapChain e)))"

subsection \<open>Phrases\<close>

text \<open>\<open>strings.ToLower\<close> on the letters of ASCII; the phrases have no others.\<close>

definition lowerChar :: "char \<Rightarrow> char" where
  "lowerChar c = (let n = of_char c :: nat in if 65 \<le> n \<and> n \<le> 90 then char_of (n + 32) else c)"

fun containsText :: "string \<Rightarrow> string \<Rightarrow> bool" where
  "containsText p [] \<longleftrightarrow> p = []"
| "containsText p (c # s) \<longleftrightarrow> take (length p) (c # s) = p \<or> containsText p s"

definition duplicatePhrases :: "string list" where
  "duplicatePhrases = [''duplicate entry'', ''duplicate key value'', ''duplicate key'', ''unique constraint'',
     ''unique violation'', ''cannot insert duplicate key row'']"

definition retryablePhrases :: "string list" where
  "retryablePhrases = [''deadlock'', ''lock wait timeout'', ''could not serialize'', ''serialization failure'',
     ''database is locked'', ''try restarting transaction'']"

definition containsPhrase :: "(gerror \<Rightarrow> string) \<Rightarrow> dberr \<Rightarrow> string list \<Rightarrow> bool" where
  "containsPhrase say e phrases =
     (let msg = map lowerChar (errorText say e) in list_ex (\<lambda>p. containsText p msg) phrases)"

subsection \<open>Classification\<close>

definition numericDuplicate :: "dberr \<Rightarrow> bool" where
  "numericDuplicate e =
     (case errorCode e of None \<Rightarrow> False
      | Some (num, str) \<Rightarrow>
          if num = 1062 then True
          else if num = 2601 \<or> num = 2627 then True
          else if num = 19 then True
          else if str = ''23505'' then True
          else if str = ''23000'' then True
          else False)"

definition numericRetryable :: "dberr \<Rightarrow> bool" where
  "numericRetryable e =
     (case errorCode e of None \<Rightarrow> False
      | Some (num, str) \<Rightarrow>
          if num = 1213 \<or> num = 1205 then True
          else if num = 5 \<or> num = 6 then True
          else if str = ''40001'' \<or> str = ''40P01'' then True
          else False)"

definition duplicateKey :: "(gerror \<Rightarrow> string) \<Rightarrow> dberr \<Rightarrow> bool" where
  "duplicateKey say e =
     (if errorCode e \<noteq> None \<and> numericDuplicate e then True else containsPhrase say e duplicatePhrases)"

definition retryable :: "(gerror \<Rightarrow> string) \<Rightarrow> dberr \<Rightarrow> bool" where
  "retryable say e = (numericRetryable e \<or> containsPhrase say e retryablePhrases)"

definition alreadyExists :: "(gerror \<Rightarrow> string) \<Rightarrow> dberr \<Rightarrow> bool" where
  "alreadyExists say e =
     (case errorCode e of
        Some (num, str) \<Rightarrow>
          if num = 1050 \<or> num = 1061 then True
          else if str = ''42P07'' \<or> str = ''42710'' then True
          else containsPhrase say e [''already exists'', ''duplicate key name'']
      | None \<Rightarrow> containsPhrase say e [''already exists'', ''duplicate key name''])"

text \<open>A \<open>Classifier\<close>; the fallback is the structural detection above.\<close>

record classifier =
  clIsDuplicateKey :: "dberr \<Rightarrow> bool"
  clIsRetryable :: "dberr \<Rightarrow> bool"

definition fallbackClassifier :: "(gerror \<Rightarrow> string) \<Rightarrow> classifier" where
  "fallbackClassifier say = \<lparr>clIsDuplicateKey = duplicateKey say, clIsRetryable = retryable say\<rparr>"

subsection \<open>Dialects\<close>

datatype insert_id_strategy = InsertIDLastInsert | InsertIDReturning

record dialect =
  diName :: string
  diPlaceholder :: "nat \<Rightarrow> string"
  diQuote :: "string \<Rightarrow> string"
  diTypeName :: "column_kind \<Rightarrow> int \<Rightarrow> string"
  diTableSuffix :: string
  diIndexDDL :: "string \<Rightarrow> string \<Rightarrow> string list \<Rightarrow> bool \<Rightarrow> string"
  diIsDuplicateKey :: "dberr \<Rightarrow> bool"
  diIsRetryable :: "dberr \<Rightarrow> bool"
  diAutoIDColumn :: string
  diAutoIDIsPrimary :: bool
  diInsertID :: insert_id_strategy
  diInsertConflictClause :: string
  diIsAlreadyExists :: "dberr \<Rightarrow> bool"

text \<open>\<open>strings.Join\<close>, and \<open>strings.ReplaceAll\<close> that doubles one quoting character.\<close>

fun joinWith :: "string \<Rightarrow> string list \<Rightarrow> string" where
  "joinWith sep [] = []"
| "joinWith sep [x] = x"
| "joinWith sep (x # y # xs) = x @ sep @ joinWith sep (y # xs)"

definition doubleChar :: "char \<Rightarrow> string \<Rightarrow> string" where
  "doubleChar q s = concat (map (\<lambda>c. if c = q then [q, q] else [c]) s)"

definition varchar :: "int \<Rightarrow> string" where
  "varchar sz = ''VARCHAR('' @ formatInt (if sz \<le> 0 then 255 else sz) @ '')''"

definition indexText :: "string \<Rightarrow> (string \<Rightarrow> string) \<Rightarrow> string \<Rightarrow> string \<Rightarrow> string list \<Rightarrow> string" where
  "indexText kind q table index cols =
     kind @ q index @ '' ON '' @ q table @ '' ('' @ joinWith '', '' (map q cols) @ '')''"

definition mysqlQuote :: "string \<Rightarrow> string" where
  "mysqlQuote name = [CHR 0x60] @ doubleChar CHR 0x60 name @ [CHR 0x60]"

fun mysqlTypeName :: "column_kind \<Rightarrow> int \<Rightarrow> string" where
  "mysqlTypeName KindInt64 sz = ''BIGINT''"
| "mysqlTypeName KindString sz = varchar sz"
| "mysqlTypeName KindBytes sz = ''LONGBLOB''"
| "mysqlTypeName KindInstant sz = ''BIGINT''"

definition mysqlIndexDDL :: "string \<Rightarrow> string \<Rightarrow> string list \<Rightarrow> bool \<Rightarrow> string" where
  "mysqlIndexDDL table index cols unique =
     indexText (if unique then ''CREATE UNIQUE INDEX '' else ''CREATE INDEX '') mysqlQuote table index cols"

definition mysql :: "(gerror \<Rightarrow> string) \<Rightarrow> dialect" where
  "mysql say = \<lparr>diName = ''mysql'', diPlaceholder = (\<lambda>_. ''?''), diQuote = mysqlQuote, diTypeName = mysqlTypeName,
     diTableSuffix = '' ENGINE=InnoDB DEFAULT CHARSET=utf8mb4'', diIndexDDL = mysqlIndexDDL,
     diIsDuplicateKey = duplicateKey say, diIsRetryable = retryable say,
     diAutoIDColumn = ''BIGINT NOT NULL AUTO_INCREMENT'', diAutoIDIsPrimary = False,
     diInsertID = InsertIDLastInsert, diInsertConflictClause = [], diIsAlreadyExists = alreadyExists say\<rparr>"

definition postgresPlaceholder :: "nat \<Rightarrow> string" where
  "postgresPlaceholder n = ''$'' @ formatInt (int n)"

definition postgresQuote :: "string \<Rightarrow> string" where
  "postgresQuote name = [CHR 0x22] @ doubleChar CHR 0x22 name @ [CHR 0x22]"

fun postgresTypeName :: "column_kind \<Rightarrow> int \<Rightarrow> string" where
  "postgresTypeName KindInt64 sz = ''BIGINT''"
| "postgresTypeName KindString sz = varchar sz"
| "postgresTypeName KindBytes sz = ''BYTEA''"
| "postgresTypeName KindInstant sz = ''BIGINT''"

definition postgresIndexDDL :: "string \<Rightarrow> string \<Rightarrow> string list \<Rightarrow> bool \<Rightarrow> string" where
  "postgresIndexDDL table index cols unique =
     indexText (if unique then ''CREATE UNIQUE INDEX IF NOT EXISTS '' else ''CREATE INDEX IF NOT EXISTS '')
       postgresQuote table index cols"

definition postgres :: "(gerror \<Rightarrow> string) \<Rightarrow> dialect" where
  "postgres say = \<lparr>diName = ''postgres'', diPlaceholder = postgresPlaceholder, diQuote = postgresQuote,
     diTypeName = postgresTypeName, diTableSuffix = [], diIndexDDL = postgresIndexDDL,
     diIsDuplicateKey = duplicateKey say, diIsRetryable = retryable say,
     diAutoIDColumn = ''BIGINT GENERATED BY DEFAULT AS IDENTITY'', diAutoIDIsPrimary = False,
     diInsertID = InsertIDReturning, diInsertConflictClause = '' ON CONFLICT DO NOTHING'',
     diIsAlreadyExists = alreadyExists say\<rparr>"

definition sqliteQuote :: "string \<Rightarrow> string" where
  "sqliteQuote name = [CHR 0x22] @ doubleChar CHR 0x22 name @ [CHR 0x22]"

fun sqliteTypeName :: "column_kind \<Rightarrow> int \<Rightarrow> string" where
  "sqliteTypeName KindInt64 sz = ''INTEGER''"
| "sqliteTypeName KindInstant sz = ''INTEGER''"
| "sqliteTypeName KindString sz = varchar sz"
| "sqliteTypeName KindBytes sz = ''BLOB''"

definition sqliteIndexDDL :: "string \<Rightarrow> string \<Rightarrow> string list \<Rightarrow> bool \<Rightarrow> string" where
  "sqliteIndexDDL table index cols unique =
     indexText (if unique then ''CREATE UNIQUE INDEX IF NOT EXISTS '' else ''CREATE INDEX IF NOT EXISTS '')
       sqliteQuote table index cols"

definition sqlite :: "(gerror \<Rightarrow> string) \<Rightarrow> dialect" where
  "sqlite say = \<lparr>diName = ''sqlite'', diPlaceholder = (\<lambda>_. ''?''), diQuote = sqliteQuote, diTypeName = sqliteTypeName,
     diTableSuffix = [], diIndexDDL = sqliteIndexDDL,
     diIsDuplicateKey = duplicateKey say, diIsRetryable = retryable say,
     diAutoIDColumn = ''INTEGER PRIMARY KEY'', diAutoIDIsPrimary = True,
     diInsertID = InsertIDReturning, diInsertConflictClause = [], diIsAlreadyExists = alreadyExists say\<rparr>"

subsection \<open>Binding arguments\<close>

text \<open>
  The \<open>args\<close> builder: the values bound so far. \<open>add\<close> appends a value and returns its placeholder.
  A statement is a concatenation of literal texts and calls of \<open>add\<close>, which Go evaluates from left
  to right: a list of pieces, \<open>buildSQL\<close> being its evaluation.
\<close>

definition argsAdd :: "dialect \<Rightarrow> sqlval \<Rightarrow> sqlval list \<Rightarrow> string \<times> sqlval list" where
  "argsAdd d v vals = (let vals' = vals @ [v] in (diPlaceholder d (length vals'), vals'))"

datatype piece = Lit string | Bind sqlval

fun buildSQL :: "dialect \<Rightarrow> piece list \<Rightarrow> sqlval list \<Rightarrow> string \<times> sqlval list" where
  "buildSQL d [] vals = ([], vals)"
| "buildSQL d (Lit s # ps) vals = (let (t, vals') = buildSQL d ps vals in (s @ t, vals'))"
| "buildSQL d (Bind v # ps) vals =
     (let (p, vals1) = argsAdd d v vals; (t, vals') = buildSQL d ps vals1 in (p @ t, vals'))"

subsection \<open>Nullable values\<close>

text \<open>The Unix epoch in nanoseconds after the zero time; \<open>UnixNano\<close> wraps at int64.\<close>

definition unixEpoch :: int where "unixEpoch = 62135596800000000000"

definition unixNano :: "gotime \<Rightarrow> int" where
  "unixNano t = sint (word_of_int (t - unixEpoch) :: money)"

definition instantOrNull :: "gotime \<Rightarrow> sqlval" where
  "instantOrNull t = (if t = 0 then SNull else SInt (unixNano t))"

definition nullInstant :: "int option \<Rightarrow> gotime" where
  "nullInstant v = (case v of None \<Rightarrow> 0 | Some n \<Rightarrow> unixEpoch + n)"

definition nullableString :: "string \<Rightarrow> sqlval" where
  "nullableString s = (if s = [] then SNull else SText s)"

definition stringOrEmpty :: "string option \<Rightarrow> string" where
  "stringOrEmpty v = (case v of None \<Rightarrow> [] | Some s \<Rightarrow> s)"

definition boolInt :: "bool \<Rightarrow> int" where
  "boolInt v = (if v then 1 else 0)"

subsection \<open>Lemmas: instants\<close>

text \<open>The instants a column can hold: those whose nanoseconds since 1970 fit int64, and the zero time.\<close>

definition storable :: "gotime \<Rightarrow> bool" where
  "storable t \<longleftrightarrow> t = 0 \<or> in64 (t - unixEpoch)"

fun nullInt :: "sqlval \<Rightarrow> int option" where
  "nullInt (SInt i) = Some i"
| "nullInt _ = None"

lemma unixNano_storable: "storable t \<Longrightarrow> t \<noteq> 0 \<Longrightarrow> unixNano t = t - unixEpoch"
  using sint_word_of_int64 [of "t - unixEpoch"] by (simp only: storable_def unixNano_def simp_thms)

lemma nullInstant_instantOrNull [simp]: "storable t \<Longrightarrow> nullInstant (nullInt (instantOrNull t)) = t"
  using unixNano_storable [of t] by (simp add: instantOrNull_def nullInstant_def)

lemma instantOrNull_null [simp]: "instantOrNull t = SNull \<longleftrightarrow> t = 0"
  by (simp add: instantOrNull_def)

lemma instantOrNull_int [simp]: "instantOrNull t = SInt n \<longleftrightarrow> t \<noteq> 0 \<and> n = unixNano t"
  by (auto simp: instantOrNull_def)

lemma instantOrNull_text [simp]: "instantOrNull t \<noteq> SText s"
  by (simp add: instantOrNull_def)

lemma buildSQL_append: "buildSQL d (ps @ qs) vals =
    (let (s, v1) = buildSQL d ps vals; (t, v2) = buildSQL d qs v1 in (s @ t, v2))"
  by (induction d ps vals rule: buildSQL.induct) (auto split: prod.splits)

end
