(* ===== verification/SqlSchema.thy ===== *)
theory SqlSchema
  imports SqlDialect
begin

text \<open>
  store/sql/schema.go: the portable schema, a list of table definitions in column kinds, and the
  statements a dialect makes of it.
\<close>

subsection \<open>Definitions\<close>

datatype column_def = ColumnDef (cdName: string) (cdKind: column_kind) (cdSize: int) (cdNotNull: bool) (cdDefault: string)

record table_def =
  tdName :: string
  tdColumns :: "column_def list"
  tdPrimary :: "string list"
  tdUniques :: "string list list"
  tdIndexes :: "string list list"

definition tableAgent :: string where "tableAgent = ''dist_agent''"
definition tableBinding :: string where "tableBinding = ''dist_binding''"
definition tableAccount :: string where "tableAccount = ''dist_account''"
definition tableCommission :: string where "tableCommission = ''dist_commission''"
definition tableLedger :: string where "tableLedger = ''dist_ledger''"
definition tableWithdraw :: string where "tableWithdraw = ''dist_withdraw''"
definition tableRefund :: string where "tableRefund = ''dist_refund''"

definition sizeOrderID :: int where "sizeOrderID = 64"
definition sizeItemID :: int where "sizeItemID = 128"
definition sizeIdemKey :: int where "sizeIdemKey = 64"
definition sizeRemark :: int where "sizeRemark = 256"
definition sizeChannel :: int where "sizeChannel = 64"
definition sizeSourceRef :: int where "sizeSourceRef = 128"
definition sizeReason :: int where "sizeReason = 128"
definition sizeShortString :: int where "sizeShortString = 32"

text \<open>The default of a text column: two single quotes, an empty SQL literal.\<close>

definition emptyText :: string where "emptyText = [CHR 0x27, CHR 0x27]"

definition tableAgentDef :: table_def where
  "tableAgentDef = \<lparr>tdName = tableAgent,
     tdColumns = [ColumnDef ''tenant_id'' KindInt64 0 True [],
       ColumnDef ''user_id'' KindInt64 0 True [],
       ColumnDef ''parent_id'' KindInt64 0 True ''0'',
       ColumnDef ''depth'' KindInt64 0 True ''0'',
       ColumnDef ''status'' KindInt64 0 True ''0'',
       ColumnDef ''join_type'' KindInt64 0 True ''0'',
       ColumnDef ''rate_override_bp'' KindInt64 0 False [],
       ColumnDef ''created_at'' KindInstant 0 False [],
       ColumnDef ''updated_at'' KindInstant 0 False [],
       ColumnDef ''version'' KindInt64 0 True ''0''],
     tdPrimary = [''tenant_id'', ''user_id''],
     tdUniques = [],
     tdIndexes = [[''tenant_id'', ''parent_id'']]\<rparr>"

definition tableBindingDef :: table_def where
  "tableBindingDef = \<lparr>tdName = tableBinding,
     tdColumns = [ColumnDef ''tenant_id'' KindInt64 0 True [],
       ColumnDef ''buyer_user_id'' KindInt64 0 True [],
       ColumnDef ''agent_user_id'' KindInt64 0 True [],
       ColumnDef ''source'' KindInt64 0 True ''0'',
       ColumnDef ''source_ref'' KindString sizeSourceRef False [],
       ColumnDef ''bound_at'' KindInstant 0 False [],
       ColumnDef ''expire_at'' KindInstant 0 False [],
       ColumnDef ''active'' KindInt64 0 True ''0'',
       ColumnDef ''rebound_from'' KindInt64 0 True ''0'',
       ColumnDef ''version'' KindInt64 0 True ''0''],
     tdPrimary = [''tenant_id'', ''buyer_user_id''],
     tdUniques = [],
     tdIndexes = [[''tenant_id'', ''agent_user_id'']]\<rparr>"

definition tableAccountDef :: table_def where
  "tableAccountDef = \<lparr>tdName = tableAccount,
     tdColumns = [ColumnDef ''tenant_id'' KindInt64 0 True [],
       ColumnDef ''user_id'' KindInt64 0 True [],
       ColumnDef ''frozen'' KindInt64 0 True ''0'',
       ColumnDef ''available'' KindInt64 0 True ''0'',
       ColumnDef ''withdrawing'' KindInt64 0 True ''0'',
       ColumnDef ''withdrawn'' KindInt64 0 True ''0'',
       ColumnDef ''total_earned'' KindInt64 0 True ''0'',
       ColumnDef ''total_reversed'' KindInt64 0 True ''0'',
       ColumnDef ''version'' KindInt64 0 True ''0'',
       ColumnDef ''updated_at'' KindInstant 0 False []],
     tdPrimary = [''tenant_id'', ''user_id''],
     tdUniques = [],
     tdIndexes = []\<rparr>"

definition tableCommissionDef :: table_def where
  "tableCommissionDef = \<lparr>tdName = tableCommission,
     tdColumns = [ColumnDef ''id'' KindInt64 0 True [],
       ColumnDef ''tenant_id'' KindInt64 0 True [],
       ColumnDef ''order_id'' KindString sizeOrderID True [],
       ColumnDef ''order_item_id'' KindString sizeItemID True emptyText,
       ColumnDef ''idem_key'' KindString sizeIdemKey True [],
       ColumnDef ''buyer_user_id'' KindInt64 0 True ''0'',
       ColumnDef ''agent_user_id'' KindInt64 0 True [],
       ColumnDef ''layer'' KindInt64 0 True [],
       ColumnDef ''base_amount'' KindInt64 0 True ''0'',
       ColumnDef ''rate_bp'' KindInt64 0 True ''0'',
       ColumnDef ''amount'' KindInt64 0 True ''0'',
       ColumnDef ''reversed_amount'' KindInt64 0 True ''0'',
       ColumnDef ''state'' KindInt64 0 True ''0'',
       ColumnDef ''freeze_days'' KindInt64 0 True ''0'',
       ColumnDef ''available_at'' KindInstant 0 False [],
       ColumnDef ''settled_at'' KindInstant 0 False [],
       ColumnDef ''accrued_at'' KindInstant 0 False [],
       ColumnDef ''rule_version'' KindInt64 0 True ''0'',
       ColumnDef ''rule_snapshot'' KindString sizeRemark False [],
       ColumnDef ''reverse_of'' KindInt64 0 True ''0'',
       ColumnDef ''version'' KindInt64 0 True ''0''],
     tdPrimary = [''id''],
     tdUniques = [[''tenant_id'', ''idem_key'']],
     tdIndexes = [[''tenant_id'', ''id''], [''tenant_id'', ''order_id''], [''tenant_id'', ''agent_user_id'', ''id''], [''state'', ''tenant_id'', ''available_at'', ''id''], [''state'', ''available_at'', ''id'']]\<rparr>"

definition tableLedgerDef :: table_def where
  "tableLedgerDef = \<lparr>tdName = tableLedger,
     tdColumns = [ColumnDef ''id'' KindInt64 0 True [],
       ColumnDef ''tenant_id'' KindInt64 0 True [],
       ColumnDef ''user_id'' KindInt64 0 True [],
       ColumnDef ''biz_type'' KindInt64 0 True [],
       ColumnDef ''biz_id'' KindString sizeIdemKey True emptyText,
       ColumnDef ''delta_frozen'' KindInt64 0 True ''0'',
       ColumnDef ''delta_available'' KindInt64 0 True ''0'',
       ColumnDef ''delta_withdrawing'' KindInt64 0 True ''0'',
       ColumnDef ''delta_withdrawn'' KindInt64 0 True ''0'',
       ColumnDef ''after_frozen'' KindInt64 0 True ''0'',
       ColumnDef ''after_available'' KindInt64 0 True ''0'',
       ColumnDef ''after_withdrawing'' KindInt64 0 True ''0'',
       ColumnDef ''after_withdrawn'' KindInt64 0 True ''0'',
       ColumnDef ''remark'' KindString sizeRemark False [],
       ColumnDef ''created_at'' KindInstant 0 False []],
     tdPrimary = [''id''],
     tdUniques = [],
     tdIndexes = [[''tenant_id'', ''id''], [''tenant_id'', ''user_id'', ''id''], [''tenant_id'', ''biz_type'', ''biz_id'']]\<rparr>"

definition tableRefundDef :: table_def where
  "tableRefundDef = \<lparr>tdName = tableRefund,
     tdColumns = [ColumnDef ''id'' KindInt64 0 True [],
       ColumnDef ''tenant_id'' KindInt64 0 True [],
       ColumnDef ''order_id'' KindString sizeOrderID True [],
       ColumnDef ''item_id'' KindString sizeItemID True emptyText,
       ColumnDef ''idem_key'' KindString sizeIdemKey True [],
       ColumnDef ''amount'' KindInt64 0 True ''0'',
       ColumnDef ''cumulative'' KindInt64 0 True ''0'',
       ColumnDef ''refunded_at'' KindInstant 0 False []],
     tdPrimary = [''id''],
     tdUniques = [[''tenant_id'', ''idem_key'']],
     tdIndexes = [[''tenant_id'', ''order_id'']]\<rparr>"

definition tableWithdrawDef :: table_def where
  "tableWithdrawDef = \<lparr>tdName = tableWithdraw,
     tdColumns = [ColumnDef ''id'' KindInt64 0 True [],
       ColumnDef ''tenant_id'' KindInt64 0 True [],
       ColumnDef ''user_id'' KindInt64 0 True [],
       ColumnDef ''idem_key'' KindString sizeIdemKey True [],
       ColumnDef ''amount'' KindInt64 0 True [],
       ColumnDef ''fee'' KindInt64 0 True ''0'',
       ColumnDef ''real_amount'' KindInt64 0 True [],
       ColumnDef ''channel'' KindString sizeChannel True emptyText,
       ColumnDef ''account_info'' KindString sizeRemark True emptyText,
       ColumnDef ''state'' KindInt64 0 True ''0'',
       ColumnDef ''fail_reason'' KindString sizeRemark True emptyText,
       ColumnDef ''tax_amount'' KindInt64 0 True ''0'',
       ColumnDef ''invoice_no'' KindString sizeRemark True emptyText,
       ColumnDef ''operator'' KindString sizeRemark True emptyText,
       ColumnDef ''applied_at'' KindInstant 0 False [],
       ColumnDef ''audited_at'' KindInstant 0 False [],
       ColumnDef ''paid_at'' KindInstant 0 False [],
       ColumnDef ''version'' KindInt64 0 True ''1''],
     tdPrimary = [''id''],
     tdUniques = [[''tenant_id'', ''idem_key'']],
     tdIndexes = [[''tenant_id'', ''id''], [''state'', ''tenant_id'', ''id'']]\<rparr>"

definition schemaTables :: "table_def list" where
  "schemaTables = [tableAgentDef, tableBindingDef, tableAccountDef, tableCommissionDef, tableLedgerDef, tableRefundDef, tableWithdrawDef]"

text \<open>\<open>Schema\<close> copies the slices, which values of HOL need not.\<close>

definition Schema :: "table_def list" where
  "Schema = schemaTables"

subsection \<open>Statements\<close>

definition maxIdentifierLen :: nat where "maxIdentifierLen = 63"

definition truncateIdentifier :: "string \<Rightarrow> string" where
  "truncateIdentifier name = (if length name \<le> maxIdentifierLen then name else take maxIdentifierLen name)"

definition indexName :: "string \<Rightarrow> string \<Rightarrow> string list \<Rightarrow> string" where
  "indexName table kind cols =
     truncateIdentifier (table @ ''_'' @ kind @ concat (map (\<lambda>c. ''_'' @ c) cols))"

definition quoteList :: "dialect \<Rightarrow> string list \<Rightarrow> string" where
  "quoteList d cols = joinWith '', '' (map (diQuote d) cols)"

definition autoIDOnlyTable :: "dialect \<Rightarrow> table_def \<Rightarrow> bool" where
  "autoIDOnlyTable d t \<longleftrightarrow> diAutoIDIsPrimary d \<and> length (tdPrimary t) = 1 \<and> tdPrimary t ! 0 = ''id''"

definition columnText :: "dialect \<Rightarrow> column_def \<Rightarrow> string" where
  "columnText d c =
     diQuote d (cdName c) @ '' '' @
     (if cdName c = ''id'' then diAutoIDColumn d
      else diTypeName d (cdKind c) (cdSize c) @ (if cdNotNull c then '' NOT NULL'' else []) @
        (if cdDefault c \<noteq> [] then '' DEFAULT '' @ cdDefault c else []))"

definition createTable :: "dialect \<Rightarrow> table_def \<Rightarrow> string" where
  "createTable d t =
     ''CREATE TABLE IF NOT EXISTS '' @ diQuote d (tdName t) @ '' ('' @
     joinWith '', '' (map (columnText d) (tdColumns t)) @
     (if tdPrimary t \<noteq> [] \<and> \<not> autoIDOnlyTable d t then '', PRIMARY KEY ('' @ quoteList d (tdPrimary t) @ '')'' else []) @
     '')'' @ diTableSuffix d"

definition Statements :: "dialect \<Rightarrow> string list" where
  "Statements d = concat (map (\<lambda>t.
     createTable d t #
     map (\<lambda>cols. diIndexDDL d (tdName t) (indexName (tdName t) ''uniq'' cols) cols True) (tdUniques t) @
     map (\<lambda>cols. diIndexDDL d (tdName t) (indexName (tdName t) ''idx'' cols) cols False) (tdIndexes t)) schemaTables)"

end
