(* ===== verification/SqlTx.thy ===== *)
theory SqlTx
  imports SqlSchema
begin

text \<open>
  store/sql/store.go, the part below the queries: the store and its options, transactions with
  retries, and the helpers every statement goes through. The driver and the database behind it are
  a parameter, a record of the calls of database/sql the code makes; a call is a step on the
  connection's state. Time and logging are not modelled; that a context may end while the store waits is.
\<close>

subsection \<open>The driver\<close>

record exec_result =
  exRowsAffected :: "dberr + int"
  exLastInsertId :: "dberr + int"

type_synonym row = "sqlval list"

text \<open>
  \<open>drQuery\<close> yields the rows and what \<open>rows.Err()\<close> reports after the last one.
\<close>

record 'db driver =
  drBegin :: "bool \<Rightarrow> (dberr, 'db, unit) estep"
  drCommit :: "(dberr, 'db, unit) estep"
  drRollback :: "(dberr, 'db, unit) estep"
  drExec :: "string \<Rightarrow> sqlval list \<Rightarrow> (dberr, 'db, exec_result) estep"
  drQuery :: "string \<Rightarrow> sqlval list \<Rightarrow> (dberr, 'db, row list \<times> dberr option) estep"

subsection \<open>The store\<close>

record sql_store =
  ssDialect :: dialect
  ssClassifier :: classifier
  ssMaxRetries :: int
  ssRetryWait :: "64 word"

type_synonym sql_option = "sql_store \<Rightarrow> sql_store"

definition WithClassifier :: "classifier option \<Rightarrow> sql_option" where
  "WithClassifier c s = (case c of None \<Rightarrow> s | Some c' \<Rightarrow> s\<lparr>ssClassifier := c'\<rparr>)"

definition WithMaxRetries :: "int \<Rightarrow> sql_option" where
  "WithMaxRetries n s = (if n \<ge> 0 then s\<lparr>ssMaxRetries := n\<rparr> else s)"

definition WithRetryBackoff :: "64 word \<Rightarrow> sql_option" where
  "WithRetryBackoff d s = (if 0 <s d then s\<lparr>ssRetryWait := d\<rparr> else s)"

text \<open>\<open>hasDB\<close>: the handle is not nil.\<close>

definition sqlOpen :: "(gerror \<Rightarrow> string) \<Rightarrow> bool \<Rightarrow> dialect option \<Rightarrow> sql_option list \<Rightarrow> dberr + sql_store" where
  "sqlOpen say hasDB d opts =
     (if \<not> hasDB then Inl (Plain ''sqlstore: nil *sql.DB'')
      else case d of None \<Rightarrow> Inl (Plain ''sqlstore: nil Dialect'')
      | Some d' \<Rightarrow>
          Inr (fold (\<lambda>opt s. opt s) opts
            \<lparr>ssDialect = d', ssClassifier = fallbackClassifier say, ssMaxRetries = 5, ssRetryWait = 2000000\<rparr>))"

definition sqlStoreKind :: "sql_store \<Rightarrow> string" where
  "sqlStoreKind s = diName (ssDialect s)"

text \<open>The delay before a retry, in nanoseconds; the shift may overflow.\<close>

definition waitBeforeRetry :: "sql_store \<Rightarrow> nat \<Rightarrow> 64 word" where
  "waitBeforeRetry s attemptNo =
     (let d = push_bit (attemptNo - 1) (ssRetryWait s)
      in if 200000000 <s d \<or> d <=s 0 then 200000000 else d)"

subsection \<open>Transactions\<close>

definition rollbackWith :: "'db driver \<Rightarrow> dberr \<Rightarrow> (dberr, 'db, 'a) estep" where
  "rollbackWith v e = attempt (drRollback v) (\<lambda>_. throw e)"

definition runTx :: "'db driver \<Rightarrow> bool \<Rightarrow> (dberr, 'db, 'a) estep \<Rightarrow> (dberr, 'db, 'a) estep" where
  "runTx v readOnly fn =
     attempt (drBegin v readOnly) (\<lambda>b. case b of
        Inl e \<Rightarrow> throw (Context ''sqlstore: begin'' e)
      | Inr _ \<Rightarrow> attempt fn (\<lambda>r. case r of
          Inl e \<Rightarrow> rollbackWith v e
        | Inr x \<Rightarrow> attempt (drCommit v) (\<lambda>c. case c of
            Inl e \<Rightarrow> rollbackWith v (Context ''sqlstore: commit'' e)
          | Inr _ \<Rightarrow> ret x)))"

definition sqlView :: "'db driver \<Rightarrow> (dberr, 'db, 'a) estep \<Rightarrow> (dberr, 'db, 'a) estep" where
  "sqlView v fn = runTx v True fn"

text \<open>
  The loop of \<open>Update\<close>, at an attempt, with the last error. \<open>ended\<close> is what \<open>waitBeforeRetry\<close> returns
  before an attempt: the context's error when the context ends during the wait.
\<close>

function updateFrom ::
  "(int \<Rightarrow> dberr option) \<Rightarrow> sql_store \<Rightarrow> 'db driver \<Rightarrow> (dberr, 'db, 'a) estep \<Rightarrow> int \<Rightarrow> dberr option \<Rightarrow> (dberr, 'db, 'a) estep" where
  "updateFrom ended s v fn attemptNo lastErr =
     (if attemptNo \<le> ssMaxRetries s
      then (case (if attemptNo > 0 then ended attemptNo else None) of
          Some e \<Rightarrow> throw e
        | None \<Rightarrow> attempt (runTx v False fn) (\<lambda>r. case r of
             Inr x \<Rightarrow> ret x
           | Inl e \<Rightarrow> if \<not> clIsRetryable (ssClassifier s) e then throw e
                      else updateFrom ended s v fn (attemptNo + 1) (Some e)))
      else throw (Context (''sqlstore: transaction failed after '' @ formatInt (ssMaxRetries s) @ '' retries'')
                    (case lastErr of None \<Rightarrow> Plain ''%!w(<nil>)'' | Some e \<Rightarrow> e)))"
  by pat_completeness auto
termination
  by (relation "measure (\<lambda>(ended, s, v, fn, n, e). nat (ssMaxRetries s + 1 - n))") auto

declare updateFrom.simps [simp del]

definition sqlUpdate ::
  "(int \<Rightarrow> dberr option) \<Rightarrow> sql_store \<Rightarrow> 'db driver \<Rightarrow> (dberr, 'db, 'a) estep \<Rightarrow> (dberr, 'db, 'a) estep" where
  "sqlUpdate ended s v fn = updateFrom ended s v fn 0 None"

subsection \<open>Statement helpers\<close>

text \<open>The handle of a transaction: the store's settings and the connection.\<close>

record 'db tx_handle =
  txStore :: sql_store
  txDriver :: "'db driver"

definition hDialect :: "'db tx_handle \<Rightarrow> dialect" where
  "hDialect h = ssDialect (txStore h)"

definition cols :: "dialect \<Rightarrow> string list \<Rightarrow> string" where
  "cols d names = joinWith '', '' (map (diQuote d) names)"

definition tableName :: "dialect \<Rightarrow> string \<Rightarrow> string" where
  "tableName d name = diQuote d name"

definition qual :: "dialect \<Rightarrow> string \<Rightarrow> string \<Rightarrow> string" where
  "qual d alias col = diQuote d alias @ ''.'' @ diQuote d col"

text \<open>
  \<open>queryRows\<close>: the scan function folds a row into what the closure collects.
\<close>

definition queryRows ::
  "'db tx_handle \<Rightarrow> piece list \<Rightarrow> (row \<Rightarrow> 'acc \<Rightarrow> dberr + 'acc) \<Rightarrow> 'acc \<Rightarrow> (dberr, 'db, 'acc) estep" where
  "queryRows h stmt scan acc =
     (let (query, argv) = buildSQL (hDialect h) stmt [] in
      attempt (drQuery (txDriver h) query argv) (\<lambda>r. case r of
        Inl e \<Rightarrow> throw (Context ''sqlstore: query'' e)
      | Inr (rows, iterErr) \<Rightarrow> (case foldE scan rows acc of
            Inl e \<Rightarrow> throw e
          | Inr acc' \<Rightarrow> (case iterErr of
                Some e \<Rightarrow> throw (Context ''sqlstore: iterate'' e)
              | None \<Rightarrow> ret acc'))))"

definition queryOne ::
  "'db tx_handle \<Rightarrow> piece list \<Rightarrow> (row \<Rightarrow> 'acc \<Rightarrow> dberr + 'acc) \<Rightarrow> 'acc \<Rightarrow> (dberr, 'db, 'acc) estep" where
  "queryOne h stmt scan acc = queryRows h stmt scan acc"

text \<open>Closures that append the scanned row, and that keep the last one.\<close>

definition collect :: "(row \<Rightarrow> dberr + 'x) \<Rightarrow> row \<Rightarrow> 'x list \<Rightarrow> dberr + 'x list" where
  "collect scan row out = (case scan row of Inl e \<Rightarrow> Inl e | Inr x \<Rightarrow> Inr (out @ [x]))"

definition keepLast :: "(row \<Rightarrow> dberr + 'x) \<Rightarrow> row \<Rightarrow> 'x option \<Rightarrow> dberr + 'x option" where
  "keepLast scan row out = (case scan row of Inl e \<Rightarrow> Inl e | Inr x \<Rightarrow> Inr (Some x))"

definition foundOr :: "gerror \<Rightarrow> 'x option \<Rightarrow> (dberr, 'db, 'x) estep" where
  "foundOr e out = (case out of None \<Rightarrow> throw (Ledger e) | Some x \<Rightarrow> ret x)"

end
