(* ===== verification/SqlScan.thy ===== *)
theory SqlScan
  imports SqlTx
begin

text \<open>
  The column lists and the scan functions of store/sql/store.go and store/sql/withdraw.go. Each table
  has one column list, which every statement that reads it uses, and one function that turns a row in
  that order into the record of the ledger. \<open>scanRow\<close> is \<open>Rows.Scan\<close> of database/sql for the
  destination types that occur.
\<close>

subsection \<open>Rows.Scan\<close>

datatype dest = DInt | DText | DNullInt | DNullText

text \<open>
  The conversions of the standard library: text is parsed for an integer destination, an integer is
  printed for a text destination, NULL only fits a nullable destination.
\<close>

fun convertInt :: "sqlval \<Rightarrow> dberr + sqlval" where
  "convertInt (SInt i) = Inr (SInt i)"
| "convertInt (SText s) = (case parseInt s of None \<Rightarrow> Inl (Plain ''sql: Scan error'') | Some i \<Rightarrow> Inr (SInt i))"
| "convertInt SNull = Inl (Plain ''sql: Scan error'')"

fun convertText :: "sqlval \<Rightarrow> dberr + sqlval" where
  "convertText (SInt i) = Inr (SText (formatInt i))"
| "convertText (SText s) = Inr (SText s)"
| "convertText SNull = Inl (Plain ''sql: Scan error'')"

definition convertAssign :: "dest \<Rightarrow> sqlval \<Rightarrow> dberr + sqlval" where
  "convertAssign d v = (case d of
      DInt \<Rightarrow> convertInt v
    | DText \<Rightarrow> convertText v
    | DNullInt \<Rightarrow> if v = SNull then Inr SNull else convertInt v
    | DNullText \<Rightarrow> if v = SNull then Inr SNull else convertText v)"

fun scanRow :: "dest list \<Rightarrow> row \<Rightarrow> dberr + sqlval list" where
  "scanRow [] [] = Inr []"
| "scanRow (d # ds) (v # vs) =
     (case convertAssign d v of Inl e \<Rightarrow> Inl e
      | Inr x \<Rightarrow> (case scanRow ds vs of Inl e \<Rightarrow> Inl e | Inr xs \<Rightarrow> Inr (x # xs)))"
| "scanRow _ _ = Inl (Plain ''sql: expected other number of destination arguments in Scan'')"

fun intAt :: "sqlval \<Rightarrow> int" where
  "intAt (SInt i) = i"
| "intAt _ = 0"

fun textAt :: "sqlval \<Rightarrow> string" where
  "textAt (SText s) = s"
| "textAt _ = []"

fun nullText :: "sqlval \<Rightarrow> string option" where
  "nullText (SText s) = Some s"
| "nullText _ = None"

definition moneyAt :: "sqlval \<Rightarrow> money" where
  "moneyAt v = word_of_int (intAt v)"

subsection \<open>The small integer types\<close>

text \<open>The numbers of the constants; a conversion from int64 keeps the lowest byte.\<close>

definition lowByte :: "int \<Rightarrow> nat" where
  "lowByte i = nat (i mod 256)"

fun agentStatusCode :: "agent_status \<Rightarrow> int" where
  "agentStatusCode AgentInactive = 0" | "agentStatusCode AgentActive = 1" | "agentStatusCode AgentDisabled = 2"
| "agentStatusCode (AgentStatusRaw n) = int n"

definition agentStatusOf :: "int \<Rightarrow> agent_status" where
  "agentStatusOf i = (let n = lowByte i in
     if n = 0 then AgentInactive else if n = 1 then AgentActive else if n = 2 then AgentDisabled else AgentStatusRaw n)"

fun joinTypeCode :: "join_type \<Rightarrow> int" where
  "joinTypeCode JoinFree = 0" | "joinTypeCode JoinReviewed = 1" | "joinTypeCode JoinPaid = 2"
| "joinTypeCode (JoinTypeRaw n) = int n"

definition joinTypeOf :: "int \<Rightarrow> join_type" where
  "joinTypeOf i = (let n = lowByte i in
     if n = 0 then JoinFree else if n = 1 then JoinReviewed else if n = 2 then JoinPaid else JoinTypeRaw n)"

fun bindSourceCode :: "bind_source \<Rightarrow> int" where
  "bindSourceCode SourceLink = 1" | "bindSourceCode SourceInviteCode = 2" | "bindSourceCode SourceManual = 3"
| "bindSourceCode SourceSalesperson = 4" | "bindSourceCode (BindSourceRaw n) = int n"

definition bindSourceOf :: "int \<Rightarrow> bind_source" where
  "bindSourceOf i = (let n = lowByte i in
     if n = 1 then SourceLink else if n = 2 then SourceInviteCode else if n = 3 then SourceManual
     else if n = 4 then SourceSalesperson else BindSourceRaw n)"

definition commissionStateOf :: "int \<Rightarrow> commission_state" where
  "commissionStateOf i = (let n = lowByte i in
     if n = 0 then CommissionPending else if n = 1 then CommissionSettled else if n = 2 then CommissionRetired
     else if n = 3 then CommissionReversed else if n = 4 then CommissionFrozen else if n = 5 then CommissionVoid
     else CommissionRaw (n - 6))"

fun ledgerBizCode :: "ledger_biz_type \<Rightarrow> int" where
  "ledgerBizCode LedgerAccrue = 1" | "ledgerBizCode LedgerSettle = 2" | "ledgerBizCode LedgerReverse = 3"
| "ledgerBizCode LedgerVoid = 4" | "ledgerBizCode LedgerWithdrawHold = 5" | "ledgerBizCode LedgerWithdrawPaid = 6"
| "ledgerBizCode LedgerWithdrawRefund = 7" | "ledgerBizCode LedgerManualAdjust = 8"
| "ledgerBizCode (LedgerBizRaw n) = int n"

definition ledgerBizOf :: "int \<Rightarrow> ledger_biz_type" where
  "ledgerBizOf i = (let n = lowByte i in
     if n = 1 then LedgerAccrue else if n = 2 then LedgerSettle else if n = 3 then LedgerReverse
     else if n = 4 then LedgerVoid else if n = 5 then LedgerWithdrawHold else if n = 6 then LedgerWithdrawPaid
     else if n = 7 then LedgerWithdrawRefund else if n = 8 then LedgerManualAdjust else LedgerBizRaw n)"

definition withdrawalStateOf :: "int \<Rightarrow> withdrawal_state" where
  "withdrawalStateOf i = (let n = lowByte i in
     if n = 0 then WithdrawalApplied else if n = 1 then WithdrawalApproved else if n = 2 then WithdrawalRejected
     else if n = 3 then WithdrawalPayFailed else if n = 4 then WithdrawalPaid else WithdrawalRaw (n - 5))"

subsection \<open>Column lists\<close>

definition agentCols :: "string list" where
  "agentCols = [''tenant_id'', ''user_id'', ''parent_id'', ''depth'', ''status'', ''join_type'',
     ''rate_override_bp'', ''created_at'', ''updated_at'', ''version'']"

definition bindingCols :: "string list" where
  "bindingCols = [''tenant_id'', ''buyer_user_id'', ''agent_user_id'', ''source'', ''source_ref'',
     ''bound_at'', ''expire_at'', ''active'', ''rebound_from'', ''version'']"

definition accountCols :: "string list" where
  "accountCols = [''tenant_id'', ''user_id'', ''frozen'', ''available'', ''withdrawing'', ''withdrawn'',
     ''total_earned'', ''total_reversed'', ''version'', ''updated_at'']"

definition commissionCols :: "string list" where
  "commissionCols = [''id'', ''tenant_id'', ''order_id'', ''order_item_id'', ''idem_key'',
     ''buyer_user_id'', ''agent_user_id'', ''layer'', ''base_amount'', ''rate_bp'', ''amount'',
     ''reversed_amount'', ''state'', ''freeze_days'', ''available_at'', ''settled_at'', ''accrued_at'',
     ''rule_version'', ''rule_snapshot'', ''reverse_of'', ''version'']"

definition ledgerCols :: "string list" where
  "ledgerCols = [''id'', ''tenant_id'', ''user_id'', ''biz_type'', ''biz_id'',
     ''delta_frozen'', ''delta_available'', ''delta_withdrawing'', ''delta_withdrawn'',
     ''after_frozen'', ''after_available'', ''after_withdrawing'', ''after_withdrawn'',
     ''remark'', ''created_at'']"

definition refundCols :: "string list" where
  "refundCols = [''id'', ''tenant_id'', ''order_id'', ''item_id'', ''idem_key'',
     ''amount'', ''cumulative'', ''refunded_at'']"

definition withdrawalCols :: "string list" where
  "withdrawalCols = [''id'', ''tenant_id'', ''user_id'', ''idem_key'', ''amount'', ''fee'',
     ''real_amount'', ''channel'', ''account_info'', ''state'', ''fail_reason'',
     ''tax_amount'', ''invoice_no'', ''operator'', ''applied_at'', ''audited_at'',
     ''paid_at'', ''version'']"

subsection \<open>Scan functions\<close>

text \<open>A scan with its destinations in column order, and the record built from what was scanned.\<close>

definition scanWith :: "dest list \<Rightarrow> ((nat \<Rightarrow> sqlval) \<Rightarrow> 'x) \<Rightarrow> row \<Rightarrow> dberr + 'x" where
  "scanWith dests build row = (case scanRow dests row of Inl e \<Rightarrow> Inl e | Inr vs \<Rightarrow> Inr (build ((!) vs)))"

definition scanAgent :: "row \<Rightarrow> dberr + agent" where
  "scanAgent = scanWith [DInt, DInt, DInt, DInt, DInt, DInt, DNullInt, DNullInt, DNullInt, DInt]
     (\<lambda>v. \<lparr>agKey = UserKey (intAt (v 0)) (intAt (v 1)), agParentID = intAt (v 2), agDepth = intAt (v 3),
        agStatus = agentStatusOf (intAt (v 4)), agJoinType = joinTypeOf (intAt (v 5)),
        agRateOverrideBP = nullInt (v 6), agCreatedAt = nullInstant (nullInt (v 7)),
        agUpdatedAt = nullInstant (nullInt (v 8)), agVersion = intAt (v 9)\<rparr>)"

definition scanBinding :: "row \<Rightarrow> dberr + binding" where
  "scanBinding = scanWith [DInt, DInt, DInt, DInt, DNullText, DNullInt, DNullInt, DInt, DInt, DInt]
     (\<lambda>v. \<lparr>bID = 0, bBuyer = UserKey (intAt (v 0)) (intAt (v 1)), bAgentUserID = intAt (v 2),
        bSource = bindSourceOf (intAt (v 3)), bSourceRef = stringOrEmpty (nullText (v 4)),
        bBoundAt = nullInstant (nullInt (v 5)), bExpireAt = nullInstant (nullInt (v 6)),
        bActive = (intAt (v 7) \<noteq> 0), bReboundFrom = intAt (v 8), bVersion = intAt (v 9)\<rparr>)"

definition scanAccount :: "row \<Rightarrow> dberr + account" where
  "scanAccount = scanWith [DInt, DInt, DInt, DInt, DInt, DInt, DInt, DInt, DInt, DNullInt]
     (\<lambda>v. \<lparr>aKey = UserKey (intAt (v 0)) (intAt (v 1)), aFrozen = moneyAt (v 2), aAvailable = moneyAt (v 3),
        aWithdrawing = moneyAt (v 4), aWithdrawn = moneyAt (v 5), aTotalEarned = moneyAt (v 6),
        aTotalReversed = moneyAt (v 7), aVersion = intAt (v 8), aUpdatedAt = nullInstant (nullInt (v 9))\<rparr>)"

definition scanCommission :: "row \<Rightarrow> dberr + commission" where
  "scanCommission = scanWith [DInt, DInt, DText, DNullText, DText, DInt, DInt, DInt, DInt, DInt, DInt,
      DInt, DInt, DInt, DNullInt, DNullInt, DNullInt, DInt, DNullText, DInt, DInt]
     (\<lambda>v. \<lparr>cID = intAt (v 0), cKey = OrderKey (intAt (v 1)) (textAt (v 2)), cIdemKey = textAt (v 4),
        cOrderItemID = stringOrEmpty (nullText (v 3)), cBuyerUserID = intAt (v 5), cAgentUserID = intAt (v 6),
        cLayer = intAt (v 7), cBaseAmount = moneyAt (v 8), cRate = intAt (v 9), cAmount = moneyAt (v 10),
        cState = commissionStateOf (intAt (v 12)), cFreezeDays = intAt (v 13),
        cAvailableAt = nullInstant (nullInt (v 14)), cRuleVersion = intAt (v 17),
        cRuleSnapshot = stringOrEmpty (nullText (v 18)), cAccruedAt = nullInstant (nullInt (v 16)),
        cSettledAt = nullInstant (nullInt (v 15)), cReversedAmount = moneyAt (v 11),
        cReverseOf = intAt (v 19), cVersion = intAt (v 20)\<rparr>)"

definition scanLedger :: "row \<Rightarrow> dberr + ledger_entry" where
  "scanLedger = scanWith [DInt, DInt, DInt, DInt, DNullText, DInt, DInt, DInt, DInt, DInt, DInt, DInt, DInt,
      DNullText, DNullInt]
     (\<lambda>v. \<lparr>leID = intAt (v 0), leKey = UserKey (intAt (v 1)) (intAt (v 2)), leBizType = ledgerBizOf (intAt (v 3)),
        leBizID = stringOrEmpty (nullText (v 4)), leDeltaFrozen = moneyAt (v 5), leDeltaAvailable = moneyAt (v 6),
        leDeltaWithdrawing = moneyAt (v 7), leDeltaWithdrawn = moneyAt (v 8), leAfterFrozen = moneyAt (v 9),
        leAfterAvailable = moneyAt (v 10), leAfterWithdrawing = moneyAt (v 11), leAfterWithdrawn = moneyAt (v 12),
        leRemark = stringOrEmpty (nullText (v 13)), leCreatedAt = nullInstant (nullInt (v 14))\<rparr>)"

definition scanRefund :: "row \<Rightarrow> dberr + refund" where
  "scanRefund = scanWith [DInt, DInt, DText, DNullText, DText, DInt, DInt, DNullInt]
     (\<lambda>v. \<lparr>rfID = intAt (v 0), rfKey = OrderKey (intAt (v 1)) (textAt (v 2)),
        rfItemID = stringOrEmpty (nullText (v 3)), rfAmount = moneyAt (v 5), rfCumulative = moneyAt (v 6),
        rfIdemKey = textAt (v 4), rfRefundedAt = nullInstant (nullInt (v 7))\<rparr>)"

definition scanWithdrawal :: "row \<Rightarrow> dberr + withdrawal" where
  "scanWithdrawal = scanWith [DInt, DInt, DInt, DText, DInt, DInt, DInt, DText, DText, DInt, DText, DInt,
      DText, DText, DNullInt, DNullInt, DNullInt, DInt]
     (\<lambda>v. \<lparr>wID = intAt (v 0), wKey = UserKey (intAt (v 1)) (intAt (v 2)), wIdemKey = textAt (v 3),
        wAmount = moneyAt (v 4), wFee = moneyAt (v 5), wRealAmount = moneyAt (v 6), wChannel = textAt (v 7),
        wAccountInfo = textAt (v 8), wState = withdrawalStateOf (intAt (v 9)), wFailReason = textAt (v 10),
        wTaxAmount = moneyAt (v 11), wInvoiceNo = textAt (v 12), wOperator = textAt (v 13),
        wAppliedAt = nullInstant (nullInt (v 14)), wAuditedAt = nullInstant (nullInt (v 15)),
        wPaidAt = nullInstant (nullInt (v 16)), wVersion = intAt (v 17)\<rparr>)"

end
