(* ===== verification/SqlRead.thy ===== *)
theory SqlRead
  imports SqlScan MemReader
begin

text \<open>
  The queries of store/sql/store.go and store/sql/withdraw.go: the text of each statement with the
  values bound to it, as the code concatenates them, and the operations of the Reader that run them.
\<close>

subsection \<open>Texts\<close>

text \<open>\<open>t.cols(...)\<close>, \<open>t.table(...)\<close> and literal text as pieces of a statement.\<close>

abbreviation tenantIs :: "dialect \<Rightarrow> int \<Rightarrow> piece list" where
  "tenantIs d tenantID \<equiv> [Lit ('' WHERE '' @ cols d [''tenant_id''] @ '' = ''), Bind (SInt tenantID)]"

text \<open>Placeholders of a list of values, joined by commas.\<close>

fun bindList :: "sqlval list \<Rightarrow> piece list" where
  "bindList [] = []"
| "bindList [v] = [Bind v]"
| "bindList (v # w # vs) = Bind v # Lit '', '' # bindList (w # vs)"

definition selectFrom :: "dialect \<Rightarrow> string list \<Rightarrow> string \<Rightarrow> piece list" where
  "selectFrom d columns table = [Lit (''SELECT '' @ cols d columns @ '' FROM '' @ tableName d table)]"

definition agentQuery :: "dialect \<Rightarrow> user_key \<Rightarrow> piece list" where
  "agentQuery d key = selectFrom d agentCols ''dist_agent'' @ tenantIs d (ukTenantID key) @
     [Lit ('' AND '' @ cols d [''user_id''] @ '' = ''), Bind (SInt (ukUserID key))]"

definition bindingQuery :: "dialect \<Rightarrow> user_key \<Rightarrow> piece list" where
  "bindingQuery d buyer = selectFrom d bindingCols ''dist_binding'' @ tenantIs d (ukTenantID buyer) @
     [Lit ('' AND '' @ cols d [''buyer_user_id''] @ '' = ''), Bind (SInt (ukUserID buyer))]"

definition accountQuery :: "dialect \<Rightarrow> user_key \<Rightarrow> piece list" where
  "accountQuery d key = selectFrom d accountCols ''dist_account'' @ tenantIs d (ukTenantID key) @
     [Lit ('' AND '' @ cols d [''user_id''] @ '' = ''), Bind (SInt (ukUserID key))]"

definition commissionQuery :: "dialect \<Rightarrow> int \<Rightarrow> piece list" where
  "commissionQuery d rid = selectFrom d commissionCols ''dist_commission'' @
     [Lit ('' WHERE '' @ cols d [''id''] @ '' = ''), Bind (SInt rid)]"

definition commissionsByOrderQuery :: "dialect \<Rightarrow> order_key \<Rightarrow> piece list" where
  "commissionsByOrderQuery d key = selectFrom d commissionCols ''dist_commission'' @ tenantIs d (okTenantID key) @
     [Lit ('' AND '' @ cols d [''order_id''] @ '' = ''), Bind (SText (okOrderID key)),
      Lit ('' ORDER BY '' @ cols d [''id''])]"

definition refundsByOrderQuery :: "dialect \<Rightarrow> order_key \<Rightarrow> piece list" where
  "refundsByOrderQuery d key = selectFrom d refundCols ''dist_refund'' @ tenantIs d (okTenantID key) @
     [Lit ('' AND '' @ cols d [''order_id''] @ '' = ''), Bind (SText (okOrderID key)),
      Lit ('' ORDER BY '' @ cols d [''id''])]"

definition commissionsByAgentQuery :: "dialect \<Rightarrow> user_key \<Rightarrow> commission_query \<Rightarrow> piece list" where
  "commissionsByAgentQuery d key q = selectFrom d commissionCols ''dist_commission'' @ tenantIs d (ukTenantID key) @
     [Lit ('' AND '' @ cols d [''agent_user_id''] @ '' = ''), Bind (SInt (ukUserID key)),
      Lit ('' AND '' @ cols d [''id''] @ '' > ''), Bind (SInt (pgAfterID (cqPage q)))] @
     (if cqStates q \<noteq> []
      then [Lit ('' AND '' @ cols d [''state''] @ '' IN ('')] @
           bindList (map (\<lambda>st. SInt (commissionStateCode st)) (cqStates q)) @ [Lit '')'']
      else []) @
     [Lit ('' ORDER BY '' @ cols d [''id''] @ '' LIMIT ''), Bind (SInt (normalizeLimit (pgLimit (cqPage q))))]"

definition commissionsByTenantQuery :: "dialect \<Rightarrow> int \<Rightarrow> page \<Rightarrow> piece list" where
  "commissionsByTenantQuery d tenantID p = selectFrom d commissionCols ''dist_commission'' @ tenantIs d tenantID @
     [Lit ('' AND '' @ cols d [''id''] @ '' > ''), Bind (SInt (pgAfterID p)),
      Lit ('' ORDER BY '' @ cols d [''id''] @ '' LIMIT ''), Bind (SInt (normalizeLimit (pgLimit p)))]"

definition dueCommissionsQuery :: "dialect \<Rightarrow> int \<Rightarrow> gotime \<Rightarrow> int \<Rightarrow> piece list" where
  "dueCommissionsQuery d tenantID dueAt limit = selectFrom d commissionCols ''dist_commission'' @ tenantIs d tenantID @
     [Lit ('' AND '' @ cols d [''state''] @ '' = ''), Bind (SInt (commissionStateCode CommissionPending)),
      Lit ('' AND '' @ cols d [''available_at''] @ '' IS NOT NULL''),
      Lit ('' AND '' @ cols d [''available_at''] @ '' <= ''), Bind (instantOrNull dueAt),
      Lit ('' ORDER BY '' @ cols d [''available_at''] @ '', '' @ cols d [''id'']), Lit '' LIMIT '', Bind (SInt limit)]"

definition dueWorkQuery :: "dialect \<Rightarrow> gotime \<Rightarrow> int \<Rightarrow> piece list" where
  "dueWorkQuery d dueAt limit = selectFrom d commissionCols ''dist_commission'' @
     [Lit ('' WHERE '' @ cols d [''state''] @ '' = ''), Bind (SInt (commissionStateCode CommissionPending)),
      Lit ('' AND '' @ cols d [''available_at''] @ '' IS NOT NULL''),
      Lit ('' AND '' @ cols d [''available_at''] @ '' <= ''), Bind (instantOrNull dueAt),
      Lit ('' ORDER BY '' @ cols d [''available_at''] @ '', '' @ cols d [''id'']), Lit '' LIMIT '', Bind (SInt limit)]"

definition ledgerEntriesQuery :: "dialect \<Rightarrow> user_key \<Rightarrow> ledger_query \<Rightarrow> piece list" where
  "ledgerEntriesQuery d key q = selectFrom d ledgerCols ''dist_ledger'' @ tenantIs d (ukTenantID key) @
     [Lit ('' AND '' @ cols d [''user_id''] @ '' = ''), Bind (SInt (ukUserID key)),
      Lit ('' AND '' @ cols d [''id''] @ '' > ''), Bind (SInt (pgAfterID (lqPage q)))] @
     (case lqBizType q of None \<Rightarrow> []
      | Some t \<Rightarrow> [Lit ('' AND '' @ cols d [''biz_type''] @ '' = ''), Bind (SInt (ledgerBizCode t))]) @
     [Lit ('' ORDER BY '' @ cols d [''id''] @ '' LIMIT ''), Bind (SInt (normalizeLimit (pgLimit (lqPage q))))]"

definition ledgerByTenantQuery :: "dialect \<Rightarrow> int \<Rightarrow> page \<Rightarrow> piece list" where
  "ledgerByTenantQuery d tenantID p = selectFrom d ledgerCols ''dist_ledger'' @ tenantIs d tenantID @
     [Lit ('' AND '' @ cols d [''id''] @ '' > ''), Bind (SInt (pgAfterID p)),
      Lit ('' ORDER BY '' @ cols d [''id''] @ '' LIMIT ''), Bind (SInt (normalizeLimit (pgLimit p)))]"

definition accountsByTenantQuery :: "dialect \<Rightarrow> int \<Rightarrow> account_page \<Rightarrow> piece list" where
  "accountsByTenantQuery d tenantID p = selectFrom d accountCols ''dist_account'' @ tenantIs d tenantID @
     [Lit ('' AND '' @ cols d [''user_id''] @ '' > ''), Bind (SInt (apAfterUserID p)),
      Lit ('' ORDER BY '' @ cols d [''user_id''] @ '' LIMIT ''), Bind (SInt (normalizeLimit (apLimit p)))]"

definition countByStateQuery :: "dialect \<Rightarrow> string \<Rightarrow> int \<Rightarrow> piece list" where
  "countByStateQuery d table tenantID =
     [Lit (''SELECT '' @ cols d [''state''] @ '', COUNT(*) FROM '' @ tableName d table)] @ tenantIs d tenantID @
     [Lit ('' GROUP BY '' @ cols d [''state''])]"

definition withdrawalByIdemKeyQuery :: "dialect \<Rightarrow> int \<Rightarrow> string \<Rightarrow> piece list" where
  "withdrawalByIdemKeyQuery d tenantID idemKey = selectFrom d withdrawalCols tableWithdraw @ tenantIs d tenantID @
     [Lit ('' AND '' @ cols d [''idem_key''] @ '' = ''), Bind (SText idemKey)]"

definition withdrawalByIDQuery :: "dialect \<Rightarrow> int \<Rightarrow> piece list" where
  "withdrawalByIDQuery d rid = selectFrom d withdrawalCols tableWithdraw @
     [Lit ('' WHERE '' @ cols d [''id''] @ '' = ''), Bind (SInt rid)]"

definition withdrawalsByTenantQuery :: "dialect \<Rightarrow> int \<Rightarrow> page \<Rightarrow> piece list" where
  "withdrawalsByTenantQuery d tenantID p = selectFrom d withdrawalCols tableWithdraw @ tenantIs d tenantID @
     [Lit ('' AND '' @ cols d [''id''] @ '' > ''), Bind (SInt (pgAfterID p)),
      Lit ('' ORDER BY '' @ cols d [''id'']), Lit '' LIMIT '', Bind (SInt (normalizeLimit (pgLimit p)))]"

subsection \<open>Lookups\<close>

definition sqlAgent :: "'db tx_handle \<Rightarrow> user_key \<Rightarrow> (dberr, 'db, agent) estep" where
  "sqlAgent h key =
     andThen (queryOne h (agentQuery (hDialect h) key) (keepLast scanAgent) None) (foundOr ErrNotFound)"

definition sqlBinding :: "'db tx_handle \<Rightarrow> user_key \<Rightarrow> (dberr, 'db, binding) estep" where
  "sqlBinding h buyer =
     andThen (queryOne h (bindingQuery (hDialect h) buyer) (keepLast scanBinding) None) (foundOr ErrNotFound)"

text \<open>\<open>lookupAccount\<close> tells a missing account from a zero one; \<open>Account\<close> does not.\<close>

definition lookupAccount :: "'db tx_handle \<Rightarrow> user_key \<Rightarrow> (dberr, 'db, account option) estep" where
  "lookupAccount h key = queryOne h (accountQuery (hDialect h) key) (keepLast scanAccount) None"

definition sqlAccount :: "'db tx_handle \<Rightarrow> user_key \<Rightarrow> (dberr, 'db, account) estep" where
  "sqlAccount h key =
     andThen (queryOne h (accountQuery (hDialect h) key) (keepLast scanAccount) None)
       (\<lambda>out. ret (case out of None \<Rightarrow> zeroAccount | Some a \<Rightarrow> a))"

definition sqlCommission :: "'db tx_handle \<Rightarrow> int \<Rightarrow> (dberr, 'db, commission) estep" where
  "sqlCommission h rid =
     andThen (queryOne h (commissionQuery (hDialect h) rid) (keepLast scanCommission) None) (foundOr ErrNotFound)"

definition oneWithdrawal :: "'db tx_handle \<Rightarrow> piece list \<Rightarrow> (dberr, 'db, withdrawal) estep" where
  "oneWithdrawal h query = andThen (queryRows h query (keepLast scanWithdrawal) None) (foundOr ErrNotFound)"

definition sqlWithdrawalByIdemKey :: "'db tx_handle \<Rightarrow> int \<Rightarrow> string \<Rightarrow> (dberr, 'db, withdrawal) estep" where
  "sqlWithdrawalByIdemKey h tenantID idemKey =
     oneWithdrawal h (withdrawalByIdemKeyQuery (hDialect h) tenantID idemKey)"

definition sqlWithdrawalByID :: "'db tx_handle \<Rightarrow> int \<Rightarrow> (dberr, 'db, withdrawal) estep" where
  "sqlWithdrawalByID h rid = oneWithdrawal h (withdrawalByIDQuery (hDialect h) rid)"

subsection \<open>Lists\<close>

definition sqlCommissionsByOrder :: "'db tx_handle \<Rightarrow> order_key \<Rightarrow> (dberr, 'db, commission list) estep" where
  "sqlCommissionsByOrder h key =
     queryRows h (commissionsByOrderQuery (hDialect h) key) (collect scanCommission) []"

definition sqlRefundsByOrder :: "'db tx_handle \<Rightarrow> order_key \<Rightarrow> (dberr, 'db, refund list) estep" where
  "sqlRefundsByOrder h key = queryRows h (refundsByOrderQuery (hDialect h) key) (collect scanRefund) []"

definition sqlCommissionsByAgent ::
  "'db tx_handle \<Rightarrow> user_key \<Rightarrow> commission_query \<Rightarrow> (dberr, 'db, commission list) estep" where
  "sqlCommissionsByAgent h key q =
     queryRows h (commissionsByAgentQuery (hDialect h) key q) (collect scanCommission) []"

definition sqlCommissionsByTenant :: "'db tx_handle \<Rightarrow> int \<Rightarrow> page \<Rightarrow> (dberr, 'db, commission list) estep" where
  "sqlCommissionsByTenant h tenantID p =
     queryRows h (commissionsByTenantQuery (hDialect h) tenantID p) (collect scanCommission) []"

definition sqlDueCommissions :: "'db tx_handle \<Rightarrow> int \<Rightarrow> gotime \<Rightarrow> int \<Rightarrow> (dberr, 'db, commission list) estep" where
  "sqlDueCommissions h tenantID dueAt limit0 =
     (let limit = (if limit0 \<le> 0 then DefaultPageLimit else limit0) in
      queryRows h (dueCommissionsQuery (hDialect h) tenantID dueAt limit) (collect scanCommission) [])"

definition sqlDueWork :: "'db tx_handle \<Rightarrow> gotime \<Rightarrow> int \<Rightarrow> (dberr, 'db, commission list) estep" where
  "sqlDueWork h dueAt limit0 =
     (let limit = (if limit0 \<le> 0 then DefaultPageLimit else limit0) in
      queryRows h (dueWorkQuery (hDialect h) dueAt limit) (collect scanCommission) [])"

definition sqlLedgerEntries ::
  "'db tx_handle \<Rightarrow> user_key \<Rightarrow> ledger_query \<Rightarrow> (dberr, 'db, ledger_entry list) estep" where
  "sqlLedgerEntries h key q = queryRows h (ledgerEntriesQuery (hDialect h) key q) (collect scanLedger) []"

definition sqlLedgerByTenant :: "'db tx_handle \<Rightarrow> int \<Rightarrow> page \<Rightarrow> (dberr, 'db, ledger_entry list) estep" where
  "sqlLedgerByTenant h tenantID p =
     queryRows h (ledgerByTenantQuery (hDialect h) tenantID p) (collect scanLedger) []"

definition sqlAccountsByTenant :: "'db tx_handle \<Rightarrow> int \<Rightarrow> account_page \<Rightarrow> (dberr, 'db, account list) estep" where
  "sqlAccountsByTenant h tenantID p =
     queryRows h (accountsByTenantQuery (hDialect h) tenantID p) (collect scanAccount) []"

definition sqlWithdrawalsByTenant :: "'db tx_handle \<Rightarrow> int \<Rightarrow> page \<Rightarrow> (dberr, 'db, withdrawal list) estep" where
  "sqlWithdrawalsByTenant h tenantID p =
     queryRows h (withdrawalsByTenantQuery (hDialect h) tenantID p) (collect scanWithdrawal) []"

text \<open>The counts by state: one row per state, the last one wins.\<close>

definition countRow :: "(int \<Rightarrow> 'st) \<Rightarrow> row \<Rightarrow> ('st \<rightharpoonup> int) \<Rightarrow> dberr + ('st \<rightharpoonup> int)" where
  "countRow stateOf row out = (case scanRow [DInt, DInt] row of
      Inl e \<Rightarrow> Inl e
    | Inr vs \<Rightarrow> Inr (out(stateOf (intAt (vs ! 0)) \<mapsto> intAt (vs ! 1))))"

definition sqlCountCommissionsByState ::
  "'db tx_handle \<Rightarrow> int \<Rightarrow> (dberr, 'db, commission_state \<rightharpoonup> int) estep" where
  "sqlCountCommissionsByState h tenantID =
     queryRows h (countByStateQuery (hDialect h) ''dist_commission'' tenantID) (countRow commissionStateOf) Map.empty"

definition sqlCountWithdrawalsByState ::
  "'db tx_handle \<Rightarrow> int \<Rightarrow> (dberr, 'db, withdrawal_state \<rightharpoonup> int) estep" where
  "sqlCountWithdrawalsByState h tenantID =
     queryRows h (countByStateQuery (hDialect h) tableWithdraw tenantID) (countRow withdrawalStateOf) Map.empty"

end
