(* ===== verification/SqlWrite.thy ===== *)
theory SqlWrite
  imports SqlRead
begin

text \<open>
  store/sql/write.go and the write half of store/sql/withdraw.go: the version-checked updates, the
  inserts with a generated id, and the write operations of a transaction, statement by statement.
\<close>

subsection \<open>Running writes\<close>

definition updateVersioned :: "'db tx_handle \<Rightarrow> piece list \<Rightarrow> (dberr, 'db, int) estep" where
  "updateVersioned h stmt =
     (let (query, argv) = buildSQL (hDialect h) stmt [] in
      attempt (drExec (txDriver h) query argv) (\<lambda>r. case r of
        Inl e \<Rightarrow> throw (Context ''sqlstore: update'' e)
      | Inr res \<Rightarrow> (case exRowsAffected res of
            Inl e \<Rightarrow> throw (Context ''sqlstore: rows affected'' e)
          | Inr n \<Rightarrow> ret n)))"

text \<open>
  \<open>QueryRowContext(...).Scan(&id)\<close> of database/sql: the first row, or \<open>sql.ErrNoRows\<close>.
\<close>

definition queryRowID :: "'db driver \<Rightarrow> string \<Rightarrow> sqlval list \<Rightarrow> (dberr, 'db, int) estep" where
  "queryRowID v query argv =
     andThen (drQuery v query argv) (\<lambda>(rows, iterErr). case rows of
        [] \<Rightarrow> throw (case iterErr of Some e \<Rightarrow> e | None \<Rightarrow> NoRows)
      | row # _ \<Rightarrow> (case scanRow [DInt] row of Inl e \<Rightarrow> throw e | Inr vs \<Rightarrow> ret (intAt (vs ! 0))))"

text \<open>\<open>insertReturningID\<close>: the assigned id, or None when the row collided.\<close>

definition insertReturningID :: "'db tx_handle \<Rightarrow> string \<Rightarrow> sqlval list \<Rightarrow> (dberr, 'db, int option) estep" where
  "insertReturningID h query0 argv =
     (let d = hDialect h; query = query0 @ diInsertConflictClause d;
          isDup = clIsDuplicateKey (ssClassifier (txStore h)) in
      if diInsertID d = InsertIDReturning
      then attempt (queryRowID (txDriver h) (query @ '' RETURNING '' @ diQuote d ''id'') argv) (\<lambda>r. case r of
             Inl e \<Rightarrow>
               if errorsIs NoRows e then ret None
               else if isDup e then ret None
               else throw (Context ''sqlstore: insert'' e)
           | Inr rid \<Rightarrow> ret (Some rid))
      else attempt (drExec (txDriver h) query argv) (\<lambda>r. case r of
             Inl e \<Rightarrow> if isDup e then ret None else throw (Context ''sqlstore: insert'' e)
           | Inr res \<Rightarrow> (case exRowsAffected res of
                 Inl e \<Rightarrow> throw (Context ''sqlstore: rows affected'' e)
               | Inr n \<Rightarrow>
                   if n = 0 then ret None
                   else (case exLastInsertId res of
                       Inl e \<Rightarrow> throw (Context ''sqlstore: last insert id'' e)
                     | Inr rid \<Rightarrow> ret (Some rid)))))"

definition execInsert :: "'db tx_handle \<Rightarrow> piece list \<Rightarrow> (dberr, 'db, bool) estep" where
  "execInsert h stmt =
     (let (query, argv) = buildSQL (hDialect h) stmt [] in
      attempt (drExec (txDriver h) (query @ diInsertConflictClause (hDialect h)) argv) (\<lambda>r. case r of
        Inl e \<Rightarrow> if clIsDuplicateKey (ssClassifier (txStore h)) e then ret False
                 else throw (Context ''sqlstore: insert'' e)
      | Inr res \<Rightarrow> (case exRowsAffected res of
            Inl e \<Rightarrow> throw (Context ''sqlstore: rows affected'' e)
          | Inr n \<Rightarrow> ret (n > 0))))"

definition conflict :: "string \<Rightarrow> int \<Rightarrow> int \<Rightarrow> dberr" where
  "conflict kind expected actual = Ledger (ConflictError kind expected actual)"

text \<open>Column assignments and comparisons with a bound value.\<close>

definition setTo :: "dialect \<Rightarrow> string \<Rightarrow> sqlval \<Rightarrow> piece list" where
  "setTo d col v = [Lit (cols d [col] @ '' = ''), Bind v]"

definition bumpVersion :: "dialect \<Rightarrow> piece list" where
  "bumpVersion d = [Lit (cols d [''version''] @ '' = '' @ cols d [''version''] @ '' + 1'')]"

text \<open>Pieces separated by a text, and \<open>VALUES (...)\<close>.\<close>

fun sepBy :: "string \<Rightarrow> piece list list \<Rightarrow> piece list" where
  "sepBy sep [] = []"
| "sepBy sep [ps] = ps"
| "sepBy sep (ps # qs # rest) = ps @ Lit sep # sepBy sep (qs # rest)"

definition updateWhere :: "dialect \<Rightarrow> string \<Rightarrow> piece list list \<Rightarrow> piece list list \<Rightarrow> piece list" where
  "updateWhere d table sets conds =
     Lit (''UPDATE '' @ tableName d table @ '' SET '') # sepBy '', '' sets @ Lit '' WHERE '' # sepBy '' AND '' conds"

definition insertInto :: "dialect \<Rightarrow> string \<Rightarrow> string list \<Rightarrow> sqlval list \<Rightarrow> piece list" where
  "insertInto d table columns values =
     Lit (''INSERT INTO '' @ tableName d table @ '' ('' @ cols d columns @ '') VALUES ('') # bindList values @ [Lit '')'']"

subsection \<open>Agents\<close>

definition rateOverride :: "agent \<Rightarrow> sqlval" where
  "rateOverride a = (case agRateOverrideBP a of None \<Rightarrow> SNull | Some r \<Rightarrow> SInt r)"

definition agentUpdate :: "dialect \<Rightarrow> agent \<Rightarrow> piece list" where
  "agentUpdate d a = updateWhere d ''dist_agent''
     [setTo d ''parent_id'' (SInt (agParentID a)), setTo d ''depth'' (SInt (agDepth a)),
      setTo d ''status'' (SInt (agentStatusCode (agStatus a))), setTo d ''join_type'' (SInt (joinTypeCode (agJoinType a))),
      setTo d ''rate_override_bp'' (rateOverride a), setTo d ''created_at'' (instantOrNull (agCreatedAt a)),
      setTo d ''updated_at'' (instantOrNull (agUpdatedAt a)), bumpVersion d]
     [setTo d ''tenant_id'' (SInt (ukTenantID (agKey a))), setTo d ''user_id'' (SInt (ukUserID (agKey a))),
      setTo d ''version'' (SInt (agVersion a))]"

definition agentInsert :: "dialect \<Rightarrow> agent \<Rightarrow> piece list" where
  "agentInsert d a = insertInto d ''dist_agent'' agentCols
     [SInt (ukTenantID (agKey a)), SInt (ukUserID (agKey a)), SInt (agParentID a), SInt (agDepth a),
      SInt (agentStatusCode (agStatus a)), SInt (joinTypeCode (agJoinType a)), rateOverride a,
      instantOrNull (agCreatedAt a), instantOrNull (agUpdatedAt a), SInt 1]"

definition sqlPutAgent :: "'db tx_handle \<Rightarrow> agent \<Rightarrow> (dberr, 'db, agent) estep" where
  "sqlPutAgent h a =
     (case userKeyValidate (agKey a) of Some e \<Rightarrow> throw (Ledger e) | None \<Rightarrow>
      if agParentID a < 0 then throw (Ledger (FieldError ''parent_id''))
      else if agParentID a \<noteq> 0 \<and> agParentID a = ukUserID (agKey a) then throw (Ledger (FieldError ''parent_id''))
      else if \<not> agentStatusValid (agStatus a) then throw (Ledger (FieldError ''status''))
      else if \<not> joinTypeValid (agJoinType a) then throw (Ledger (FieldError ''join_type''))
      else andThen (updateVersioned h (agentUpdate (hDialect h) a)) (\<lambda>affected.
        if affected = 1 then ret (a\<lparr>agVersion := agVersion a + 1\<rparr>)
        else attempt (sqlAgent h (agKey a)) (\<lambda>r. case r of
          Inr cur \<Rightarrow> throw (conflict ''agent'' (agVersion a) (agVersion cur))
        | Inl e \<Rightarrow>
            if \<not> errorsIs (Ledger ErrNotFound) e then throw e
            else if agVersion a \<noteq> 0 then throw (conflict ''agent'' (agVersion a) 0)
            else attempt (execInsert h (agentInsert (hDialect h) a)) (\<lambda>i. case i of
                Inl e \<Rightarrow> throw (Context ''sqlstore: insert agent'' e)
              | Inr inserted \<Rightarrow>
                  if \<not> inserted then throw (conflict ''agent'' 0 0) else ret (a\<lparr>agVersion := 1\<rparr>)))))"

subsection \<open>Bindings\<close>

definition bindingUpdate :: "dialect \<Rightarrow> binding \<Rightarrow> piece list" where
  "bindingUpdate d b = updateWhere d ''dist_binding''
     [setTo d ''agent_user_id'' (SInt (bAgentUserID b)), setTo d ''source'' (SInt (bindSourceCode (bSource b))),
      setTo d ''source_ref'' (nullableString (bSourceRef b)), setTo d ''bound_at'' (instantOrNull (bBoundAt b)),
      setTo d ''expire_at'' (instantOrNull (bExpireAt b)), setTo d ''active'' (SInt (boolInt (bActive b))),
      setTo d ''rebound_from'' (SInt (bReboundFrom b)), bumpVersion d]
     [setTo d ''tenant_id'' (SInt (ukTenantID (bBuyer b))), setTo d ''buyer_user_id'' (SInt (ukUserID (bBuyer b))),
      setTo d ''version'' (SInt (bVersion b))]"

definition bindingInsert :: "dialect \<Rightarrow> binding \<Rightarrow> piece list" where
  "bindingInsert d b = insertInto d ''dist_binding'' bindingCols
     [SInt (ukTenantID (bBuyer b)), SInt (ukUserID (bBuyer b)), SInt (bAgentUserID b), SInt (bindSourceCode (bSource b)),
      nullableString (bSourceRef b), instantOrNull (bBoundAt b), instantOrNull (bExpireAt b),
      SInt (boolInt (bActive b)), SInt (bReboundFrom b), SInt 1]"

definition sqlPutBinding :: "'db tx_handle \<Rightarrow> binding \<Rightarrow> (dberr, 'db, binding) estep" where
  "sqlPutBinding h b =
     (case userKeyValidate (bBuyer b) of Some e \<Rightarrow> throw (Ledger e) | None \<Rightarrow>
      if bAgentUserID b \<le> 0 then throw (Ledger (FieldError ''agent_user_id''))
      else if \<not> bindSourceValid (bSource b) then throw (Ledger (FieldError ''source''))
      else andThen (updateVersioned h (bindingUpdate (hDialect h) b)) (\<lambda>affected.
        if affected = 1 then ret (b\<lparr>bVersion := bVersion b + 1\<rparr>)
        else attempt (sqlBinding h (bBuyer b)) (\<lambda>r. case r of
          Inr cur \<Rightarrow> throw (conflict ''binding'' (bVersion b) (bVersion cur))
        | Inl e \<Rightarrow>
            if \<not> errorsIs (Ledger ErrNotFound) e then throw e
            else if bVersion b \<noteq> 0 then throw (conflict ''binding'' (bVersion b) 0)
            else attempt (execInsert h (bindingInsert (hDialect h) b)) (\<lambda>i. case i of
                Inl e \<Rightarrow> throw (Context ''sqlstore: insert binding'' e)
              | Inr inserted \<Rightarrow>
                  if \<not> inserted then throw (conflict ''binding'' 0 0) else ret (b\<lparr>bVersion := 1\<rparr>)))))"

subsection \<open>Accounts\<close>

definition moneyVal :: "money \<Rightarrow> sqlval" where
  "moneyVal m = SInt (sint m)"

definition accountUpdate :: "dialect \<Rightarrow> account \<Rightarrow> piece list" where
  "accountUpdate d a = updateWhere d ''dist_account''
     [setTo d ''frozen'' (moneyVal (aFrozen a)), setTo d ''available'' (moneyVal (aAvailable a)),
      setTo d ''withdrawing'' (moneyVal (aWithdrawing a)), setTo d ''withdrawn'' (moneyVal (aWithdrawn a)),
      setTo d ''total_earned'' (moneyVal (aTotalEarned a)), setTo d ''total_reversed'' (moneyVal (aTotalReversed a)),
      setTo d ''updated_at'' (instantOrNull (aUpdatedAt a)), bumpVersion d]
     [setTo d ''tenant_id'' (SInt (ukTenantID (aKey a))), setTo d ''user_id'' (SInt (ukUserID (aKey a))),
      setTo d ''version'' (SInt (aVersion a))]"

text \<open>The insert of an account; \<open>at\<close> is the value of \<open>updated_at\<close>.\<close>

definition accountInsert :: "dialect \<Rightarrow> account \<Rightarrow> gotime \<Rightarrow> piece list" where
  "accountInsert d a at = insertInto d ''dist_account'' accountCols
     [SInt (ukTenantID (aKey a)), SInt (ukUserID (aKey a)), moneyVal (aFrozen a), moneyVal (aAvailable a),
      moneyVal (aWithdrawing a), moneyVal (aWithdrawn a), moneyVal (aTotalEarned a), moneyVal (aTotalReversed a),
      SInt 1, instantOrNull at]"

definition sqlPutAccount :: "'db tx_handle \<Rightarrow> account \<Rightarrow> (dberr, 'db, account) estep" where
  "sqlPutAccount h a =
     (case userKeyValidate (aKey a) of Some e \<Rightarrow> throw (Ledger e) | None \<Rightarrow>
      if \<not> Settleable a then throw (Ledger (FieldError ''account''))
      else andThen (updateVersioned h (accountUpdate (hDialect h) a)) (\<lambda>affected.
        if affected = 1 then ret (a\<lparr>aVersion := aVersion a + 1\<rparr>)
        else andThen (lookupAccount h (aKey a)) (\<lambda>found. case found of
          Some cur \<Rightarrow> throw (conflict ''account'' (aVersion a) (aVersion cur))
        | None \<Rightarrow>
            if aVersion a \<noteq> 0 then throw (conflict ''account'' (aVersion a) 0)
            else attempt (execInsert h (accountInsert (hDialect h) a (aUpdatedAt a))) (\<lambda>i. case i of
                Inl e \<Rightarrow> throw (Context ''sqlstore: insert account'' e)
              | Inr inserted \<Rightarrow>
                  if \<not> inserted then throw (conflict ''account'' 0 0) else ret (a\<lparr>aVersion := 1\<rparr>)))))"

definition addTo :: "dialect \<Rightarrow> string \<Rightarrow> money \<Rightarrow> piece list" where
  "addTo d col m = [Lit (cols d [col] @ '' = '' @ cols d [col] @ '' + ''), Bind (moneyVal m)]"

definition staysNonNegative :: "dialect \<Rightarrow> string \<Rightarrow> money \<Rightarrow> piece list" where
  "staysNonNegative d col m = [Lit (cols d [col] @ '' + ''), Bind (moneyVal m), Lit '' >= 0'']"

definition incrementUpdate :: "dialect \<Rightarrow> account_delta \<Rightarrow> piece list" where
  "incrementUpdate d delta = updateWhere d ''dist_account''
     [addTo d ''frozen'' (dFrozen delta), addTo d ''available'' (dAvailable delta),
      addTo d ''withdrawing'' (dWithdrawing delta), addTo d ''withdrawn'' (dWithdrawn delta),
      addTo d ''total_earned'' (dTotalEarned delta), addTo d ''total_reversed'' (dTotalReversed delta), bumpVersion d]
     ([setTo d ''tenant_id'' (SInt (ukTenantID (dKey delta))), setTo d ''user_id'' (SInt (ukUserID (dKey delta)))] @
      (if dRequireNonNegative delta
       then [staysNonNegative d ''frozen'' (dFrozen delta), staysNonNegative d ''available'' (dAvailable delta),
             staysNonNegative d ''withdrawing'' (dWithdrawing delta), staysNonNegative d ''withdrawn'' (dWithdrawn delta)]
       else []))"

text \<open>
  The loop of \<open>IncrementAccount\<close> at an attempt; \<open>now\<close> is what \<open>time.Now()\<close> reads there. The second
  attempt ends it on every path.
\<close>

function incrementFrom ::
  "'db tx_handle \<Rightarrow> gotime \<Rightarrow> account_delta \<Rightarrow> nat \<Rightarrow> (dberr, 'db, account) estep" where
  "incrementFrom h now delta attemptNo =
     andThen (updateVersioned h (incrementUpdate (hDialect h) delta)) (\<lambda>affected.
       if affected = 1
       then andThen (lookupAccount h (dKey delta)) (\<lambda>found. ret (case found of None \<Rightarrow> zeroAccount | Some a \<Rightarrow> a))
       else andThen (lookupAccount h (dKey delta)) (\<lambda>found. case found of
         Some acct \<Rightarrow> (case deltaApply delta acct of
             Inl e \<Rightarrow> throw (Ledger e)
           | Inr after \<Rightarrow>
               if dRequireNonNegative delta \<and> NegativeBuckets after \<noteq> [] then throw (Ledger ErrInsufficientBalance)
               else if attemptNo = 0 then incrementFrom h now delta (attemptNo + 1)
               else throw (conflict ''account'' (aVersion acct) (aVersion acct)))
       | None \<Rightarrow> (case deltaApply delta (zeroAccount\<lparr>aKey := dKey delta\<rparr>) of
             Inl e \<Rightarrow> throw (Ledger e)
           | Inr seed \<Rightarrow>
               if dRequireNonNegative delta \<and> NegativeBuckets seed \<noteq> [] then throw (Ledger ErrInsufficientBalance)
               else attempt (execInsert h (accountInsert (hDialect h) seed now)) (\<lambda>i. case i of
                   Inl e \<Rightarrow> throw (Context ''sqlstore: insert account'' e)
                 | Inr inserted \<Rightarrow>
                     if inserted then ret (seed\<lparr>aVersion := 1\<rparr>)
                     else if attemptNo = 0 then incrementFrom h now delta (attemptNo + 1)
                     else throw (conflict ''account'' 0 0)))))"
  by pat_completeness auto
termination
  by (relation "measure (\<lambda>(h, now, delta, n). 1 - n)") auto

declare incrementFrom.simps [simp del]

definition sqlIncrementAccount ::
  "'db tx_handle \<Rightarrow> gotime \<Rightarrow> account_delta \<Rightarrow> (dberr, 'db, account) estep" where
  "sqlIncrementAccount h now delta =
     (case userKeyValidate (dKey delta) of Some e \<Rightarrow> throw (Ledger e) | None \<Rightarrow>
      if deltaIsZero delta
      then andThen (lookupAccount h (dKey delta)) (\<lambda>found. ret (case found of None \<Rightarrow> zeroAccount | Some a \<Rightarrow> a))
      else incrementFrom h now delta 0)"

subsection \<open>Commissions\<close>

definition validateCommissionForWrite :: "commission \<Rightarrow> gerror option" where
  "validateCommissionForWrite c =
     (case orderKeyValidate (cKey c) of Some e \<Rightarrow> Some e | None \<Rightarrow>
      if cIdemKey c = [] then Some (FieldError ''idem_key'')
      else if cAgentUserID c \<le> 0 then Some (FieldError ''agent_user_id'')
      else if cLayer c < 1 \<or> cLayer c > MaxLevels then Some (FieldError ''layer'')
      else if \<not> commissionStateValid (cState c) then Some (FieldError ''state'')
      else if cReversedAmount c <s 0 \<or> MaxReversible c <s cReversedAmount c then Some (FieldError ''reversed_amount'')
      else if cReverseOf c < 0 then Some (FieldError ''reverse_of'')
      else if cAmount c = 0 then Some (FieldError ''amount'')
      else if cAmount c <s 0 \<and> cReverseOf c \<le> 0 then Some (FieldError ''reverse_of'')
      else if 0 <s cAmount c \<and> cReverseOf c \<noteq> 0 then Some (FieldError ''reverse_of'')
      else None)"

text \<open>\<open>strings.Replace(s, old, new, 1)\<close>: the first occurrence of a non-empty text.\<close>

fun replaceFirst :: "string \<Rightarrow> string \<Rightarrow> string \<Rightarrow> string" where
  "replaceFirst old new [] = []"
| "replaceFirst old new (c # s) =
     (if take (length old) (c # s) = old then new @ drop (length old) (c # s) else c # replaceFirst old new s)"

definition commissionValues :: "commission \<Rightarrow> sqlval list" where
  "commissionValues c =
     [SInt (okTenantID (cKey c)), SText (okOrderID (cKey c)), SText (cOrderItemID c), SText (cIdemKey c),
      SInt (cBuyerUserID c), SInt (cAgentUserID c), SInt (cLayer c), moneyVal (cBaseAmount c), SInt (cRate c),
      moneyVal (cAmount c), moneyVal (cReversedAmount c), SInt (commissionStateCode (cState c)), SInt (cFreezeDays c),
      instantOrNull (cAvailableAt c), instantOrNull (cSettledAt c), instantOrNull (cAccruedAt c),
      SInt (cRuleVersion c), nullableString (cRuleSnapshot c), SInt (cReverseOf c), SInt 1]"

definition sqlAppendCommission :: "'db tx_handle \<Rightarrow> commission \<Rightarrow> (dberr, 'db, commission) estep" where
  "sqlAppendCommission h c =
     (case validateCommissionForWrite c of Some e \<Rightarrow> throw (Ledger e) | None \<Rightarrow>
      let d = hDialect h;
          (query0, argv) = buildSQL d (insertInto d ''dist_commission'' commissionCols (commissionValues c)) [];
          query = replaceFirst (cols d [''id''] @ '', '') [] query0 in
      attempt (insertReturningID h query argv) (\<lambda>r. case r of
        Inl e \<Rightarrow> throw (Context ''sqlstore: insert commission'' e)
      | Inr None \<Rightarrow> throw (Ledger ErrDuplicate)
      | Inr (Some rid) \<Rightarrow> ret (c\<lparr>cID := rid, cVersion := 1\<rparr>)))"

definition availableAtUpdate :: "dialect \<Rightarrow> int \<Rightarrow> gotime \<Rightarrow> int \<Rightarrow> piece list" where
  "availableAtUpdate d rid at expectedVersion = updateWhere d ''dist_commission''
     [setTo d ''available_at'' (instantOrNull at), bumpVersion d]
     [setTo d ''id'' (SInt rid), [Lit (cols d [''available_at''] @ '' IS NULL'')],
      setTo d ''version'' (SInt expectedVersion)]"

definition sqlSetCommissionAvailableAt ::
  "'db tx_handle \<Rightarrow> int \<Rightarrow> gotime \<Rightarrow> int \<Rightarrow> (dberr, 'db, commission) estep" where
  "sqlSetCommissionAvailableAt h rid at expectedVersion =
     andThen (updateVersioned h (availableAtUpdate (hDialect h) rid at expectedVersion)) (\<lambda>affected.
       if affected = 1 then sqlCommission h rid
       else andThen (sqlCommission h rid) (\<lambda>cur.
         if cAvailableAt cur \<noteq> 0 then ret cur
         else throw (conflict ''commission'' expectedVersion (cVersion cur))))"

definition reversedAmountUpdate :: "dialect \<Rightarrow> int \<Rightarrow> money \<Rightarrow> int \<Rightarrow> piece list" where
  "reversedAmountUpdate d rid reversed expectedVersion = updateWhere d ''dist_commission''
     [setTo d ''reversed_amount'' (moneyVal reversed), bumpVersion d]
     [setTo d ''id'' (SInt rid), setTo d ''version'' (SInt expectedVersion),
      [Lit (cols d [''amount''] @ '' >= ''), Bind (moneyVal reversed)]]"

definition sqlSetCommissionReversedAmount ::
  "'db tx_handle \<Rightarrow> int \<Rightarrow> money \<Rightarrow> int \<Rightarrow> (dberr, 'db, commission) estep" where
  "sqlSetCommissionReversedAmount h rid reversed expectedVersion =
     (if reversed <s 0 then throw (Ledger (FieldError ''reversed_amount''))
      else andThen (updateVersioned h (reversedAmountUpdate (hDialect h) rid reversed expectedVersion)) (\<lambda>affected.
        if affected = 1 then sqlCommission h rid
        else andThen (sqlCommission h rid) (\<lambda>cur.
          if reversed <s 0 \<or> MaxReversible cur <s reversed then throw (Ledger (FieldError ''reversed_amount''))
          else if cReversedAmount cur = reversed then ret cur
          else throw (conflict ''commission'' expectedVersion (cVersion cur)))))"

definition transitionUpdate :: "dialect \<Rightarrow> int \<Rightarrow> commission_state \<Rightarrow> commission_state \<Rightarrow> int \<Rightarrow> piece list" where
  "transitionUpdate d rid from to expectedVersion = updateWhere d ''dist_commission''
     [setTo d ''state'' (SInt (commissionStateCode to)),
      [Lit (cols d [''settled_at''] @ '' = '' @ cols d [''settled_at''])], bumpVersion d]
     [setTo d ''id'' (SInt rid), setTo d ''state'' (SInt (commissionStateCode from)),
      setTo d ''version'' (SInt expectedVersion)]"

definition settledStamp :: "dialect \<Rightarrow> int \<Rightarrow> gotime \<Rightarrow> piece list" where
  "settledStamp d rid now = updateWhere d ''dist_commission''
     [setTo d ''settled_at'' (instantOrNull now)]
     [setTo d ''id'' (SInt rid), [Lit (cols d [''settled_at''] @ '' IS NULL'')]]"

definition sqlTransitionCommission ::
  "'db tx_handle \<Rightarrow> gotime \<Rightarrow> int \<Rightarrow> commission_state \<Rightarrow> commission_state \<Rightarrow> int \<Rightarrow> (dberr, 'db, commission) estep" where
  "sqlTransitionCommission h now rid from to expectedVersion =
     andThen (updateVersioned h (transitionUpdate (hDialect h) rid from to expectedVersion)) (\<lambda>affected.
       case (if affected = 1 then ValidateCommissionTransition from to else None) of
         Some e \<Rightarrow> throw (Ledger e)
       | None \<Rightarrow> andThen (sqlCommission h rid) (\<lambda>cur.
           if affected = 1
           then if to = CommissionSettled \<and> cSettledAt cur = 0
                then andThen (updateVersioned h (settledStamp (hDialect h) rid now)) (\<lambda>_. sqlCommission h rid)
                else ret cur
           else if cState cur \<noteq> from
                then throw (conflict ''commission state'' (commissionStateCode from) (commissionStateCode (cState cur)))
           else throw (conflict ''commission'' expectedVersion (cVersion cur))))"

subsection \<open>Refund vouchers and ledger entries\<close>

definition refundInsert :: "dialect \<Rightarrow> refund \<Rightarrow> piece list" where
  "refundInsert d r = insertInto d ''dist_refund''
     [''tenant_id'', ''order_id'', ''item_id'', ''idem_key'', ''amount'', ''cumulative'', ''refunded_at'']
     [SInt (okTenantID (rfKey r)), SText (okOrderID (rfKey r)), SText (rfItemID r), SText (rfIdemKey r),
      moneyVal (rfAmount r), moneyVal (rfCumulative r), instantOrNull (rfRefundedAt r)]"

definition sqlAppendRefund :: "'db tx_handle \<Rightarrow> refund \<Rightarrow> (dberr, 'db, refund) estep" where
  "sqlAppendRefund h r =
     (case orderKeyValidate (rfKey r) of Some e \<Rightarrow> throw (Ledger e) | None \<Rightarrow>
      if rfIdemKey r = [] then throw (Ledger (FieldError ''idem_key''))
      else if rfAmount r <=s 0 then throw (Ledger (FieldError ''amount''))
      else if rfCumulative r <s rfAmount r then throw (Ledger (FieldError ''cumulative''))
      else let (query, argv) = buildSQL (hDialect h) (refundInsert (hDialect h) r) [] in
        attempt (insertReturningID h query argv) (\<lambda>i. case i of
          Inl e \<Rightarrow> throw (Context ''sqlstore: insert refund'' e)
        | Inr None \<Rightarrow> throw (Ledger ErrDuplicate)
        | Inr (Some rid) \<Rightarrow> ret (r\<lparr>rfID := rid\<rparr>)))"

definition ledgerInsert :: "dialect \<Rightarrow> ledger_entry \<Rightarrow> piece list" where
  "ledgerInsert d e = insertInto d ''dist_ledger''
     [''tenant_id'', ''user_id'', ''biz_type'', ''biz_id'',
      ''delta_frozen'', ''delta_available'', ''delta_withdrawing'', ''delta_withdrawn'',
      ''after_frozen'', ''after_available'', ''after_withdrawing'', ''after_withdrawn'',
      ''remark'', ''created_at'']
     [SInt (ukTenantID (leKey e)), SInt (ukUserID (leKey e)), SInt (ledgerBizCode (leBizType e)), SText (leBizID e),
      moneyVal (leDeltaFrozen e), moneyVal (leDeltaAvailable e), moneyVal (leDeltaWithdrawing e),
      moneyVal (leDeltaWithdrawn e), moneyVal (leAfterFrozen e), moneyVal (leAfterAvailable e),
      moneyVal (leAfterWithdrawing e), moneyVal (leAfterWithdrawn e),
      nullableString (leRemark e), instantOrNull (leCreatedAt e)]"

definition sqlAppendLedger :: "'db tx_handle \<Rightarrow> ledger_entry \<Rightarrow> (dberr, 'db, ledger_entry) estep" where
  "sqlAppendLedger h e =
     (case userKeyValidate (leKey e) of Some er \<Rightarrow> throw (Ledger er) | None \<Rightarrow>
      if \<not> ledgerBizValid (leBizType e) then throw (Ledger (FieldError ''biz_type''))
      else if length (leRemark e) > MaxRemarkLen then throw (Ledger (FieldError ''remark''))
      else let (query, argv) = buildSQL (hDialect h) (ledgerInsert (hDialect h) e) [] in
        attempt (insertReturningID h query argv) (\<lambda>i. case i of
          Inl er \<Rightarrow> throw (Context ''sqlstore: insert ledger'' er)
        | Inr None \<Rightarrow> throw (Plain ''sqlstore: ledger entry was not inserted'')
        | Inr (Some rid) \<Rightarrow> ret (e\<lparr>leID := rid\<rparr>)))"

subsection \<open>Withdrawals\<close>

definition withdrawalInsert :: "dialect \<Rightarrow> withdrawal \<Rightarrow> piece list" where
  "withdrawalInsert d w = insertInto d tableWithdraw
     [''tenant_id'', ''user_id'', ''idem_key'', ''amount'', ''fee'', ''real_amount'',
      ''channel'', ''account_info'', ''state'', ''fail_reason'', ''tax_amount'',
      ''invoice_no'', ''operator'', ''applied_at'', ''audited_at'', ''paid_at'', ''version'']
     [SInt (ukTenantID (wKey w)), SInt (ukUserID (wKey w)), SText (wIdemKey w), moneyVal (wAmount w), moneyVal (wFee w),
      moneyVal (wRealAmount w), SText (wChannel w), SText (wAccountInfo w), SInt (withdrawalStateCode (wState w)),
      SText (wFailReason w), moneyVal (wTaxAmount w), SText (wInvoiceNo w), SText (wOperator w),
      instantOrNull (wAppliedAt w), instantOrNull (wAuditedAt w), instantOrNull (wPaidAt w), SInt 1]"

definition sqlAppendWithdrawal :: "'db tx_handle \<Rightarrow> withdrawal \<Rightarrow> (dberr, 'db, withdrawal) estep" where
  "sqlAppendWithdrawal h w =
     (case withdrawalValidate w of Some e \<Rightarrow> throw (Ledger e) | None \<Rightarrow>
      let (query, argv) = buildSQL (hDialect h) (withdrawalInsert (hDialect h) w) [] in
      attempt (insertReturningID h query argv) (\<lambda>i. case i of
        Inl e \<Rightarrow> throw (Context ''sqlstore: insert withdrawal'' e)
      | Inr None \<Rightarrow> throw (Ledger ErrDuplicate)
      | Inr (Some rid) \<Rightarrow> ret (w\<lparr>wID := rid, wVersion := 1\<rparr>)))"

definition withdrawalUpdate ::
  "dialect \<Rightarrow> int \<Rightarrow> withdrawal_state \<Rightarrow> withdrawal_state \<Rightarrow> int \<Rightarrow> withdrawal_transition \<Rightarrow> piece list" where
  "withdrawalUpdate d rid from to expectedVersion tr = updateWhere d tableWithdraw
     ([setTo d ''state'' (SInt (withdrawalStateCode to)), bumpVersion d] @
      (if wtFailReason tr \<noteq> [] then [setTo d ''fail_reason'' (SText (wtFailReason tr))] else []) @
      (if wtInvoiceNo tr \<noteq> [] then [setTo d ''invoice_no'' (SText (wtInvoiceNo tr))] else []) @
      (if wtOperator tr \<noteq> [] then [setTo d ''operator'' (SText (wtOperator tr))] else []) @
      (if wtAuditedAt tr \<noteq> 0 then [setTo d ''audited_at'' (instantOrNull (wtAuditedAt tr))] else []) @
      (if wtPaidAt tr \<noteq> 0 then [setTo d ''paid_at'' (instantOrNull (wtPaidAt tr))] else []))
     [setTo d ''id'' (SInt rid), setTo d ''state'' (SInt (withdrawalStateCode from)),
      setTo d ''version'' (SInt expectedVersion)]"

definition sqlTransitionWithdrawal ::
  "'db tx_handle \<Rightarrow> int \<Rightarrow> withdrawal_state \<Rightarrow> withdrawal_state \<Rightarrow> int \<Rightarrow> withdrawal_transition \<Rightarrow>
   (dberr, 'db, withdrawal) estep" where
  "sqlTransitionWithdrawal h rid from to expectedVersion tr =
     (if \<not> withdrawalStateValid from \<or> \<not> withdrawalStateValid to then throw (Ledger (FieldError ''state''))
      else andThen (sqlWithdrawalByID h rid) (\<lambda>current.
        if wState current \<noteq> from \<or> wVersion current \<noteq> expectedVersion
        then throw (conflict ''withdrawal'' expectedVersion (wVersion current))
        else if \<not> CanTransitionWithdrawal from to
        then throw (Ledger (TransitionError ''withdrawal'' (withdrawalStateString from) (withdrawalStateString to)))
        else andThen (updateVersioned h (withdrawalUpdate (hDialect h) rid from to expectedVersion tr)) (\<lambda>affected.
          if affected \<noteq> 1 then throw (conflict ''withdrawal'' expectedVersion (expectedVersion + 1))
          else sqlWithdrawalByID h rid)))"

end
