(* ===== verification/SqlSemantics.thy ===== *)
theory SqlSemantics
  imports SqlWrite Tables
begin

text \<open>
  What the store relies on of a database, as an interpreter of the statements it sends: tables are
  lists of rows, a row gives each column a value, and a comparison with NULL holds for no row. The
  interpreter is not a model of any database; \<open>answers\<close> says of a driver that it answers the given
  statements as the interpreter does, and is a hypothesis of the theorems on the SQL store.
\<close>

subsection \<open>Statements\<close>

type_synonym trow = "string \<Rightarrow> sqlval"
type_synonym tables = "string \<Rightarrow> trow list"

datatype cond =
    CondEq string sqlval
  | CondGt string sqlval
  | CondGe string sqlval
  | CondNull string
  | CondSumNonneg string money

datatype assign =
    SetVal string sqlval
  | SetSum string money
  | SetNext string
  | SetSame string

datatype stmt =
    SelectS "string list" string "cond list"
  | UpdateS string "assign list" "cond list"
  | InsertS string "string list" "sqlval list"

subsection \<open>Their texts\<close>

fun condPieces :: "dialect \<Rightarrow> cond \<Rightarrow> piece list" where
  "condPieces d (CondEq c v) = setTo d c v"
| "condPieces d (CondGt c v) = [Lit (cols d [c] @ '' > ''), Bind v]"
| "condPieces d (CondGe c v) = [Lit (cols d [c] @ '' >= ''), Bind v]"
| "condPieces d (CondNull c) = [Lit (cols d [c] @ '' IS NULL'')]"
| "condPieces d (CondSumNonneg c m) = staysNonNegative d c m"

fun assignPieces :: "dialect \<Rightarrow> assign \<Rightarrow> piece list" where
  "assignPieces d (SetVal c v) = setTo d c v"
| "assignPieces d (SetSum c m) = addTo d c m"
| "assignPieces d (SetNext c) = [Lit (cols d [c] @ '' = '' @ cols d [c] @ '' + 1'')]"
| "assignPieces d (SetSame c) = [Lit (cols d [c] @ '' = '' @ cols d [c])]"

fun stmtPieces :: "dialect \<Rightarrow> stmt \<Rightarrow> piece list" where
  "stmtPieces d (SelectS columns table cs) =
     selectFrom d columns table @ Lit '' WHERE '' # sepBy '' AND '' (map (condPieces d) cs)"
| "stmtPieces d (UpdateS table as cs) = updateWhere d table (map (assignPieces d) as) (map (condPieces d) cs)"
| "stmtPieces d (InsertS table columns vals) = insertInto d table columns vals"

definition stmtSQL :: "dialect \<Rightarrow> stmt \<Rightarrow> string \<times> sqlval list" where
  "stmtSQL d st = buildSQL d (stmtPieces d st) []"

subsection \<open>Their effect\<close>

fun condHolds :: "trow \<Rightarrow> cond \<Rightarrow> bool" where
  "condHolds r (CondEq c v) \<longleftrightarrow> r c = v \<and> v \<noteq> SNull"
| "condHolds r (CondGt c v) \<longleftrightarrow> (\<exists>i j. r c = SInt i \<and> v = SInt j \<and> i > j)"
| "condHolds r (CondGe c v) \<longleftrightarrow> (\<exists>i j. r c = SInt i \<and> v = SInt j \<and> i \<ge> j)"
| "condHolds r (CondNull c) \<longleftrightarrow> r c = SNull"
| "condHolds r (CondSumNonneg c m) \<longleftrightarrow> (\<exists>i. r c = SInt i \<and> i + sint m \<ge> 0)"

definition matches :: "cond list \<Rightarrow> trow \<Rightarrow> bool" where
  "matches cs r \<longleftrightarrow> list_all (condHolds r) cs"

fun addInt :: "sqlval \<Rightarrow> int \<Rightarrow> sqlval" where
  "addInt (SInt i) j = SInt (i + j)"
| "addInt v _ = v"

fun assigned :: "trow \<Rightarrow> assign \<Rightarrow> trow \<Rightarrow> trow" where
  "assigned old (SetVal c v) r = r(c := v)"
| "assigned old (SetSum c m) r = r(c := addInt (old c) (sint m))"
| "assigned old (SetNext c) r = r(c := addInt (old c) 1)"
| "assigned old (SetSame c) r = r(c := old c)"

definition updateRow :: "assign list \<Rightarrow> trow \<Rightarrow> trow" where
  "updateRow as r = fold (assigned r) as r"

text \<open>
  A value fits a column when it has the column's kind, is in the range of 64 bits or within the declared
  length, and is not NULL where the column forbids it. The generated id is the database's own.
\<close>

definition valueFits :: "column_def \<Rightarrow> sqlval \<Rightarrow> bool" where
  "valueFits c v = (case v of
      SNull \<Rightarrow> \<not> cdNotNull c
    | SInt i \<Rightarrow> (cdKind c = KindInt64 \<or> cdKind c = KindInstant) \<and> in64 i
    | SText s \<Rightarrow> cdKind c = KindString \<and> int (length s) \<le> cdSize c)"

definition columnsOf :: "string \<Rightarrow> column_def list" where
  "columnsOf table = concat (map (\<lambda>t. if tdName t = table then tdColumns t else []) schemaTables)"

definition fitsTable :: "string \<Rightarrow> trow \<Rightarrow> bool" where
  "fitsTable table r \<longleftrightarrow> list_all (\<lambda>c. cdName c = ''id'' \<or> valueFits c (r (cdName c))) (columnsOf table)"

text \<open>
  The unique keys of the schema: the primary key and the unique constraints of a table. A generated
  id is not among the inserted columns and never collides.
\<close>

definition uniqueKeys :: "string \<Rightarrow> string list list" where
  "uniqueKeys table = concat (map (\<lambda>t. if tdName t = table then tdPrimary t # tdUniques t else []) schemaTables)"

definition collides :: "string \<Rightarrow> trow \<Rightarrow> trow \<Rightarrow> bool" where
  "collides table r q \<longleftrightarrow> list_ex (\<lambda>key. list_all (\<lambda>c. r c = q c \<and> r c \<noteq> SNull) key) (uniqueKeys table)"

definition rowFrom :: "string list \<Rightarrow> sqlval list \<Rightarrow> trow" where
  "rowFrom columns vals = (\<lambda>c. case map_of (zip columns vals) c of Some v \<Rightarrow> v | None \<Rightarrow> SNull)"

subsection \<open>Drivers that answer statements\<close>

text \<open>
  A query returns the selected columns of the matching rows; an update whose rows fit the table changes
  every matching row and counts them; an insert of a fitting row adds it, or, when the row collides, adds nothing and reports it the way
  the dialect is documented to: as an error the classifier recognises or as no affected row.
\<close>

definition answersSelect :: "'db tx_handle \<Rightarrow> ('db \<Rightarrow> tables) \<Rightarrow> stmt \<Rightarrow> bool" where
  "answersSelect h tabs st \<longleftrightarrow> (case st of
     SelectS columns table cs \<Rightarrow> (\<forall>db. case stmtSQL (hDialect h) st of (query, argv) \<Rightarrow>
       drQuery (txDriver h) query argv db = (Inr (map (\<lambda>r. map r columns) (filter (matches cs) (tabs db table)), None), db))
   | _ \<Rightarrow> True)"

definition answersUpdate :: "'db tx_handle \<Rightarrow> ('db \<Rightarrow> tables) \<Rightarrow> stmt \<Rightarrow> bool" where
  "answersUpdate h tabs st \<longleftrightarrow> (case st of
     UpdateS table as cs \<Rightarrow> (\<forall>db. list_all (\<lambda>r. matches cs r \<longrightarrow> fitsTable table (updateRow as r)) (tabs db table) \<longrightarrow>
       (case stmtSQL (hDialect h) st of (query, argv) \<Rightarrow>
         \<exists>res db'. drExec (txDriver h) query argv db = (Inr res, db') \<and>
           exRowsAffected res = Inr (int (length (filter (matches cs) (tabs db table)))) \<and>
           tabs db' = (tabs db)(table := map (\<lambda>r. if matches cs r then updateRow as r else r) (tabs db table))))
   | _ \<Rightarrow> True)"

definition answersInsert :: "'db tx_handle \<Rightarrow> ('db \<Rightarrow> tables) \<Rightarrow> stmt \<Rightarrow> bool" where
  "answersInsert h tabs st \<longleftrightarrow> (case st of
     InsertS table columns vals \<Rightarrow> (\<forall>db. case stmtSQL (hDialect h) st of (query, argv) \<Rightarrow>
       let new = rowFrom columns vals; sql = query @ diInsertConflictClause (hDialect h) in
       fitsTable table new \<longrightarrow>
       (if list_ex (collides table new) (tabs db table)
       then \<exists>r. drExec (txDriver h) sql argv db = (r, db) \<and>
         (case r of Inl e \<Rightarrow> clIsDuplicateKey (ssClassifier (txStore h)) e | Inr res \<Rightarrow> exRowsAffected res = Inr 0)
       else \<exists>res db'. drExec (txDriver h) sql argv db = (Inr res, db') \<and> exRowsAffected res = Inr 1 \<and>
         tabs db' = (tabs db)(table := tabs db table @ [new])))
   | _ \<Rightarrow> True)"

definition answers :: "'db tx_handle \<Rightarrow> ('db \<Rightarrow> tables) \<Rightarrow> stmt list \<Rightarrow> bool" where
  "answers h tabs sts \<longleftrightarrow> list_all (\<lambda>st. answersSelect h tabs st \<and> answersUpdate h tabs st \<and> answersInsert h tabs st) sts"

text \<open>
  An insert with a generated id: the row gets an id no row of the table has, which the dialect reports
  through \<open>RETURNING\<close> or through \<open>LastInsertId\<close>.
\<close>

definition collisionReported :: "'db tx_handle \<Rightarrow> dberr + 'r \<Rightarrow> ('r \<Rightarrow> bool) \<Rightarrow> bool" where
  "collisionReported h r nothing \<longleftrightarrow>
     (case r of Inl e \<Rightarrow> e \<noteq> NoRows \<and> clIsDuplicateKey (ssClassifier (txStore h)) e | Inr x \<Rightarrow> nothing x)"

definition answersInsertID :: "'db tx_handle \<Rightarrow> ('db \<Rightarrow> tables) \<Rightarrow> string \<Rightarrow> string list \<Rightarrow> sqlval list \<Rightarrow> bool" where
  "answersInsertID h tabs table columns vals \<longleftrightarrow>
     (\<forall>db. case stmtSQL (hDialect h) (InsertS table columns vals) of (query, argv) \<Rightarrow>
       let new = rowFrom columns vals; sql = query @ diInsertConflictClause (hDialect h);
           returning = sql @ '' RETURNING '' @ diQuote (hDialect h) ''id'' in
       fitsTable table new \<longrightarrow>
       (if list_ex (collides table new) (tabs db table)
        then if diInsertID (hDialect h) = InsertIDReturning
             then \<exists>r. drQuery (txDriver h) returning argv db = (r, db) \<and> collisionReported h r (\<lambda>x. x = ([], None))
             else \<exists>r. drExec (txDriver h) sql argv db = (r, db) \<and> collisionReported h r (\<lambda>x. exRowsAffected x = Inr 0)
        else \<exists>rid db'. list_all (\<lambda>q. q ''id'' \<noteq> SInt rid) (tabs db table) \<and>
          tabs db' = (tabs db)(table := tabs db table @ [new(''id'' := SInt rid)]) \<and>
          (if diInsertID (hDialect h) = InsertIDReturning
           then drQuery (txDriver h) returning argv db = (Inr ([[SInt rid]], None), db')
           else \<exists>res. drExec (txDriver h) sql argv db = (Inr res, db') \<and> exRowsAffected res = Inr 1 \<and>
             exLastInsertId res = Inr rid)))"

subsection \<open>Running answered statements\<close>

lemma updateVersioned_answered:
  assumes "answersUpdate h tabs (UpdateS table as cs)"
    and "\<And>r. r \<in> set (tabs db table) \<Longrightarrow> matches cs r \<Longrightarrow> fitsTable table (updateRow as r)"
  obtains db' where
    "updateVersioned h (stmtPieces (hDialect h) (UpdateS table as cs)) db =
       (Inr (int (length (filter (matches cs) (tabs db table)))), db')"
    "tabs db' = (tabs db)(table := map (\<lambda>r. if matches cs r then updateRow as r else r) (tabs db table))"
proof -
  obtain query argv where q: "buildSQL (hDialect h) (stmtPieces (hDialect h) (UpdateS table as cs)) [] = (query, argv)"
    by (cases "buildSQL (hDialect h) (stmtPieces (hDialect h) (UpdateS table as cs)) []")
  have fits: "list_all (\<lambda>r. matches cs r \<longrightarrow> fitsTable table (updateRow as r)) (tabs db table)"
    using assms(2) by (simp add: list_all_iff)
  obtain res db' where "drExec (txDriver h) query argv db = (Inr res, db')"
    "exRowsAffected res = Inr (int (length (filter (matches cs) (tabs db table))))"
    "tabs db' = (tabs db)(table := map (\<lambda>r. if matches cs r then updateRow as r else r) (tabs db table))"
    using assms(1) fits q unfolding answersUpdate_def stmtSQL_def by fastforce
  then show thesis using q by (intro that [of db']) (simp_all add: updateVersioned_def step_simps)
qed

lemma queryOne_answered:
  assumes "answersSelect h tabs (SelectS columns table cs)"
    and "buildSQL (hDialect h) ps [] = stmtSQL (hDialect h) (SelectS columns table cs)"
  shows "queryOne h ps scan acc db =
    (foldE scan (map (\<lambda>r. map r columns) (filter (matches cs) (tabs db table))) acc, db)"
proof -
  obtain query argv where q: "stmtSQL (hDialect h) (SelectS columns table cs) = (query, argv)"
    by (cases "stmtSQL (hDialect h) (SelectS columns table cs)")
  then have "drQuery (txDriver h) query argv db =
      (Inr (map (\<lambda>r. map r columns) (filter (matches cs) (tabs db table)), None), db)"
    using assms(1) by (simp add: answersSelect_def)
  then show ?thesis using assms(2) q
    by (simp add: queryOne_def queryRows_def step_simps split: sum.split)
qed

lemma execInsert_answered:
  assumes "answersInsert h tabs (InsertS table columns vals)" "fitsTable table (rowFrom columns vals)"
    and "\<And>q. q \<in> set (tabs db table) \<Longrightarrow> \<not> collides table (rowFrom columns vals) q"
  obtains db' where
    "execInsert h (insertInto (hDialect h) table columns vals) db = (Inr True, db')"
    "tabs db' = (tabs db)(table := tabs db table @ [rowFrom columns vals])"
proof -
  obtain query argv where q: "buildSQL (hDialect h) (insertInto (hDialect h) table columns vals) [] = (query, argv)"
    by (cases "buildSQL (hDialect h) (insertInto (hDialect h) table columns vals) []")
  have free: "\<not> list_ex (collides table (rowFrom columns vals)) (tabs db table)"
    using assms(3) by (auto simp: list_ex_iff)
  have "\<exists>res db'. drExec (txDriver h) (query @ diInsertConflictClause (hDialect h)) argv db = (Inr res, db') \<and>
      exRowsAffected res = Inr 1 \<and> tabs db' = (tabs db)(table := tabs db table @ [rowFrom columns vals])"
    using assms(1) [unfolded answersInsert_def stmt.case, THEN spec [of _ db]] assms(2) free q
    by (simp add: stmtSQL_def)
  then obtain res db' where "drExec (txDriver h) (query @ diInsertConflictClause (hDialect h)) argv db = (Inr res, db')"
    "exRowsAffected res = Inr 1" "tabs db' = (tabs db)(table := tabs db table @ [rowFrom columns vals])"
    by blast
  then show thesis using q by (intro that [of db']) (simp_all add: execInsert_def step_simps)
qed

lemma insertReturningID_answered:
  assumes "answersInsertID h tabs table columns vals" "fitsTable table (rowFrom columns vals)"
    and "stmtSQL (hDialect h) (InsertS table columns vals) = (query, argv)"
  shows "if list_ex (collides table (rowFrom columns vals)) (tabs db table)
    then insertReturningID h query argv db = (Inr None, db)
    else \<exists>rid db'. insertReturningID h query argv db = (Inr (Some rid), db') \<and>
      list_all (\<lambda>q. q ''id'' \<noteq> SInt rid) (tabs db table) \<and>
      tabs db' = (tabs db)(table := tabs db table @ [(rowFrom columns vals)(''id'' := SInt rid)])"
proof -
  let ?new = "rowFrom columns vals" and ?sql = "query @ diInsertConflictClause (hDialect h)"
  let ?returning = "?sql @ '' RETURNING '' @ diQuote (hDialect h) ''id''"
  let ?returns = "diInsertID (hDialect h) = InsertIDReturning" and ?hit = "list_ex (collides table ?new) (tabs db table)"
  have ans: "if ?hit
      then if ?returns
           then \<exists>r. drQuery (txDriver h) ?returning argv db = (r, db) \<and> collisionReported h r (\<lambda>x. x = ([], None))
           else \<exists>r. drExec (txDriver h) ?sql argv db = (r, db) \<and> collisionReported h r (\<lambda>x. exRowsAffected x = Inr 0)
      else \<exists>rid db'. list_all (\<lambda>q. q ''id'' \<noteq> SInt rid) (tabs db table) \<and>
        tabs db' = (tabs db)(table := tabs db table @ [?new(''id'' := SInt rid)]) \<and>
        (if ?returns then drQuery (txDriver h) ?returning argv db = (Inr ([[SInt rid]], None), db')
         else \<exists>res. drExec (txDriver h) ?sql argv db = (Inr res, db') \<and> exRowsAffected res = Inr 1 \<and> exLastInsertId res = Inr rid)"
    using assms(1) [unfolded answersInsertID_def Let_def, THEN spec [of _ db], unfolded assms(3) prod.case, THEN mp, OF assms(2)]
    by (simp only: append_assoc)
  consider (hit_returning) "?hit" "?returns" | (hit_last) "?hit" "\<not> ?returns"
    | (new_returning) "\<not> ?hit" "?returns" | (new_last) "\<not> ?hit" "\<not> ?returns" by blast
  then show ?thesis
  proof cases
    case hit_returning
    then obtain r where r: "drQuery (txDriver h) ?returning argv db = (r, db)" "collisionReported h r (\<lambda>x. x = ([], None))"
      using ans by auto
    then show ?thesis using hit_returning
      by (cases r) (auto simp: insertReturningID_def Let_def queryRowID_def collisionReported_def step_simps errorsIs_def)
  next
    case hit_last
    then obtain r where r: "drExec (txDriver h) ?sql argv db = (r, db)" "collisionReported h r (\<lambda>x. exRowsAffected x = Inr 0)"
      using ans by auto
    then show ?thesis using hit_last
      by (cases r) (auto simp: insertReturningID_def Let_def collisionReported_def step_simps)
  next
    case new_returning
    then obtain rid db' where "list_all (\<lambda>q. q ''id'' \<noteq> SInt rid) (tabs db table)"
      "tabs db' = (tabs db)(table := tabs db table @ [?new(''id'' := SInt rid)])"
      "drQuery (txDriver h) ?returning argv db = (Inr ([[SInt rid]], None), db')" using ans by auto
    then show ?thesis using new_returning
      by (auto simp: insertReturningID_def Let_def queryRowID_def step_simps convertAssign_def)
  next
    case new_last
    then obtain rid db' res where "list_all (\<lambda>q. q ''id'' \<noteq> SInt rid) (tabs db table)"
      "tabs db' = (tabs db)(table := tabs db table @ [?new(''id'' := SInt rid)])"
      "drExec (txDriver h) ?sql argv db = (Inr res, db')" "exRowsAffected res = Inr 1" "exLastInsertId res = Inr rid"
      using ans by auto
    then show ?thesis using new_last by (auto simp: insertReturningID_def Let_def step_simps)
  qed
qed

subsection \<open>Tables that hold a map\<close>

text \<open>
  The rows are the entries of the map, one each, in some order; \<open>R k v r\<close> says that row \<open>r\<close> holds the
  entry of \<open>k\<close> with value \<open>v\<close>.
\<close>

definition holdsMap :: "('k \<Rightarrow> 'v \<Rightarrow> trow \<Rightarrow> bool) \<Rightarrow> ('k \<rightharpoonup> 'v) \<Rightarrow> trow list \<Rightarrow> bool" where
  "holdsMap R m rows \<longleftrightarrow>
     (\<exists>ks. distinct ks \<and> set ks = dom m \<and> list_all2 (\<lambda>k r. \<exists>v. m k = Some v \<and> R k v r) ks rows)"

lemma holdsMap_row: "holdsMap R m rows \<Longrightarrow> r \<in> set rows \<Longrightarrow> \<exists>k v. m k = Some v \<and> R k v r"
  by (fastforce simp: holdsMap_def list_all2_conv_all_nth in_set_conv_nth)

lemma holdsMap_entry: "holdsMap R m rows \<Longrightarrow> m k = Some v \<Longrightarrow> \<exists>r\<in>set rows. R k v r"
proof -
  assume a: "holdsMap R m rows" "m k = Some v"
  then obtain ks where ks: "set ks = dom m" "list_all2 (\<lambda>k r. \<exists>v. m k = Some v \<and> R k v r) ks rows"
    by (auto simp: holdsMap_def)
  have "k \<in> set ks" using ks(1) a(2) by auto
  then obtain i where i: "i < length ks" "ks ! i = k" by (auto simp: in_set_conv_nth)
  then have "R k v (rows ! i)" "i < length rows"
    using list_all2_nthD [OF ks(2) i(1)] list_all2_lengthD [OF ks(2)] a(2) by auto
  then show ?thesis by auto
qed

lemma holdsMap_filter:
  fixes R :: "'k \<Rightarrow> 'v \<Rightarrow> trow \<Rightarrow> bool"
  assumes held: "holdsMap R m rows" and P: "\<And>j v r. m j = Some v \<Longrightarrow> R j v r \<Longrightarrow> P r \<longleftrightarrow> j = k \<and> Q v"
  shows "case m k of
      None \<Rightarrow> filter P rows = []
    | Some v \<Rightarrow> if Q v then \<exists>r. filter P rows = [r] \<and> R k v r else filter P rows = []"
proof -
  obtain ks where ks: "distinct ks" "set ks = dom m" "list_all2 (\<lambda>k r. \<exists>v. m k = Some v \<and> R k v r) ks rows"
    using held by (auto simp: holdsMap_def)
  have "case (if k \<in> set ks then m k else None) of
      None \<Rightarrow> filter P rows = []
    | Some v \<Rightarrow> if Q v then \<exists>r. filter P rows = [r] \<and> R k v r else filter P rows = []"
    using ks(3,1)
  proof (induction rule: list_all2_induct)
    case Nil
    show ?case by simp
  next
    case (Cons j js r rs)
    then obtain v where v: "m j = Some v" "R j v r" by auto
    note p = P [OF v]
    show ?case
    proof (cases "j = k")
      case True
      then have "k \<notin> set js" using Cons.prems by simp
      then have "filter P rs = []" using Cons by simp
      then show ?thesis using v p True by simp
    next
      case False
      then have same: "filter P (r # rs) = filter P rs" "k \<in> set (j # js) \<longleftrightarrow> k \<in> set js" using p by auto
      show ?thesis unfolding same by (rule Cons.IH) (use Cons.prems in simp)
    qed
  qed
  moreover have "(if k \<in> set ks then m k else None) = m k" using ks(2) by (auto simp: domIff)
  ultimately show ?thesis by simp
qed

lemma holdsMap_update:
  assumes held: "holdsMap R m rows" and P: "\<And>j v r. m j = Some v \<Longrightarrow> R j v r \<Longrightarrow> P r \<longleftrightarrow> j = k \<and> Q v"
    and k: "m k = Some v" and new: "\<And>r. R k v r \<Longrightarrow> Q v \<Longrightarrow> R k w (f r)"
  shows "holdsMap R (if Q v then m(k \<mapsto> w) else m) (map (\<lambda>r. if P r then f r else r) rows)"
proof -
  obtain ks where ks: "distinct ks" "set ks = dom m" "list_all2 (\<lambda>k r. \<exists>v. m k = Some v \<and> R k v r) ks rows"
    using held by (auto simp: holdsMap_def)
  let ?m = "if Q v then m(k \<mapsto> w) else m"
  have "list_all2 (\<lambda>j r. \<exists>v. ?m j = Some v \<and> R j v r) ks (map (\<lambda>r. if P r then f r else r) rows)"
    unfolding list_all2_map2
  proof (rule list_all2_mono [OF ks(3)])
    fix j r assume "\<exists>v. m j = Some v \<and> R j v r"
    then obtain u where u: "m j = Some u" "R j u r" by blast
    show "\<exists>v. ?m j = Some v \<and> R j v (if P r then f r else r)"
      using P [OF u] u k new by auto
  qed
  moreover have "set ks = dom ?m" using ks(2) k by auto
  ultimately show ?thesis using ks(1) by (auto simp: holdsMap_def)
qed

lemma holdsMap_insert:
  assumes "holdsMap R m rows" "m k = None" "R k v r"
  shows "holdsMap R (m(k \<mapsto> v)) (rows @ [r])"
proof -
  obtain ks where ks: "distinct ks" "set ks = dom m" "list_all2 (\<lambda>k r. \<exists>v. m k = Some v \<and> R k v r) ks rows"
    using assms(1) by (auto simp: holdsMap_def)
  have new: "k \<notin> set ks" using ks(2) assms(2) by auto
  have "list_all2 (\<lambda>j r. \<exists>w. (m(k \<mapsto> v)) j = Some w \<and> R j w r) ks rows"
    using ks(3) new by (auto simp: list_all2_conv_all_nth dest: nth_mem)
  then have "list_all2 (\<lambda>j r. \<exists>w. (m(k \<mapsto> v)) j = Some w \<and> R j w r) (ks @ [k]) (rows @ [r])"
    using assms(3) by (intro list_all2_appendI) simp_all
  then show ?thesis using ks(1,2) new by (intro exI [of _ "ks @ [k]"] conjI holdsMap_def [THEN iffD2]) auto
qed

subsection \<open>Keyed tables\<close>

text \<open>
  A table whose rows are found by a key: the conditions on the key select the row of that key. What the
  statements of the store do to such a table follows from this alone.
\<close>

locale keyed_table =
  fixes T :: string
    and R :: "'k \<Rightarrow> 'v \<Rightarrow> trow \<Rightarrow> bool"
    and keyConds :: "'k \<Rightarrow> cond list"
  assumes key_row: "R j v r \<Longrightarrow> matches (keyConds k) r \<longleftrightarrow> j = k"
begin

lemma lookup_rows:
  assumes "holdsMap R m rows"
  shows "case m k of None \<Rightarrow> filter (matches (keyConds k)) rows = []
    | Some v \<Rightarrow> \<exists>r. filter (matches (keyConds k)) rows = [r] \<and> R k v r"
proof -
  have "case m k of None \<Rightarrow> filter (matches (keyConds k)) rows = []
    | Some v \<Rightarrow> if True then \<exists>r. filter (matches (keyConds k)) rows = [r] \<and> R k v r else filter (matches (keyConds k)) rows = []"
    by (rule holdsMap_filter [OF assms]) (simp add: key_row)
  then show ?thesis by (simp split: option.splits)
qed

lemma guarded_update:
  fixes h :: "'db tx_handle"
  assumes held: "holdsMap R m (tabs db T)"
    and answered: "answersUpdate h tabs (UpdateS T as (keyConds k @ guard))"
    and guard: "\<And>v r. m k = Some v \<Longrightarrow> R k v r \<Longrightarrow> matches guard r \<longleftrightarrow> Q v"
    and new: "\<And>v r. m k = Some v \<Longrightarrow> R k v r \<Longrightarrow> Q v \<Longrightarrow> R k (upd v) (updateRow as r) \<and> fitsTable T (updateRow as r)"
  obtains db' where
    "updateVersioned h (stmtPieces (hDialect h) (UpdateS T as (keyConds k @ guard))) db =
       (Inr (if \<exists>v. m k = Some v \<and> Q v then 1 else 0), db')"
    "\<And>n. n \<noteq> T \<Longrightarrow> tabs db' n = tabs db n"
    "holdsMap R (case m k of Some v \<Rightarrow> if Q v then m(k \<mapsto> upd v) else m | None \<Rightarrow> m) (tabs db' T)"
proof -
  let ?P = "matches (keyConds k @ guard)"
  have P: "?P r \<longleftrightarrow> j = k \<and> Q v" if "m j = Some v" "R j v r" for j v r
    using guard that key_row [OF that(2), of k] by (auto simp: matches_def)
  have fits: "fitsTable T (updateRow as r)" if r: "r \<in> set (tabs db T)" "?P r" for r
  proof -
    obtain j v where row: "m j = Some v" "R j v r" using holdsMap_row [OF held r(1)] by blast
    then show ?thesis using P [OF row] new r(2) by blast
  qed
  obtain db' where db': "updateVersioned h (stmtPieces (hDialect h) (UpdateS T as (keyConds k @ guard))) db =
      (Inr (int (length (filter ?P (tabs db T)))), db')"
    "tabs db' = (tabs db)(T := map (\<lambda>r. if ?P r then updateRow as r else r) (tabs db T))"
    using updateVersioned_answered [OF answered fits] by blast
  have found: "case m k of None \<Rightarrow> filter ?P (tabs db T) = []
    | Some v \<Rightarrow> if Q v then \<exists>r. filter ?P (tabs db T) = [r] \<and> R k v r else filter ?P (tabs db T) = []"
    by (rule holdsMap_filter [OF held]) (rule P)
  then have count: "length (filter ?P (tabs db T)) = (if \<exists>v. m k = Some v \<and> Q v then 1 else 0)"
    by (auto split: option.splits if_splits)
  have "holdsMap R (case m k of Some v \<Rightarrow> if Q v then m(k \<mapsto> upd v) else m | None \<Rightarrow> m) (tabs db' T)"
  proof (cases "m k")
    case None
    have "filter ?P (tabs db T) = []" using found None by simp
    then have "map (\<lambda>r. if ?P r then updateRow as r else r) (tabs db T) = tabs db T"
      by (simp add: filter_empty_conv map_idI)
    then show ?thesis using None held db'(2) by simp
  next
    case (Some v)
    have "holdsMap R (if Q v then m(k \<mapsto> upd v) else m) (map (\<lambda>r. if ?P r then updateRow as r else r) (tabs db T))"
      by (rule holdsMap_update [OF held _ Some]) (use P new [OF Some] in blast)+
    then show ?thesis using Some db'(2) by simp
  qed
  then show thesis using that [of db'] db' count by (simp split: if_splits)
qed

text \<open>An update that changes nothing of what the rows hold.\<close>

lemma harmless_update:
  fixes h :: "'db tx_handle"
  assumes held: "holdsMap R m (tabs db T)" and answered: "answersUpdate h tabs (UpdateS T as (keyConds k @ guard))"
    and new: "\<And>v r. m k = Some v \<Longrightarrow> R k v r \<Longrightarrow> R k v (updateRow as r) \<and> fitsTable T (updateRow as r)"
  obtains i db' where
    "updateVersioned h (stmtPieces (hDialect h) (UpdateS T as (keyConds k @ guard))) db = (Inr i, db')"
    "\<And>n. n \<noteq> T \<Longrightarrow> tabs db' n = tabs db n" "holdsMap R m (tabs db' T)"
proof -
  let ?P = "matches (keyConds k @ guard)"
  have key: "j = k" if "R j v r" "?P r" for j v r
    using that key_row [OF that(1), of k] by (simp add: matches_def)
  have "fitsTable T (updateRow as r)" if r: "r \<in> set (tabs db T)" "?P r" for r
    using holdsMap_row [OF held r(1)] key [OF _ r(2)] new by blast
  from updateVersioned_answered [OF answered this] obtain i db' where u:
    "updateVersioned h (stmtPieces (hDialect h) (UpdateS T as (keyConds k @ guard))) db = (Inr i, db')"
    "tabs db' = (tabs db)(T := map (\<lambda>r. if ?P r then updateRow as r else r) (tabs db T))" by blast
  obtain ks where ks: "distinct ks" "set ks = dom m" "list_all2 (\<lambda>k r. \<exists>v. m k = Some v \<and> R k v r) ks (tabs db T)"
    using held by (auto simp: holdsMap_def)
  have "list_all2 (\<lambda>k r. \<exists>v. m k = Some v \<and> R k v r) ks (map (\<lambda>r. if ?P r then updateRow as r else r) (tabs db T))"
    unfolding list_all2_map2 by (rule list_all2_mono [OF ks(3)]) (use key new in fastforce)
  then have "holdsMap R m (tabs db' T)" using ks(1,2) u(2) by (auto simp: holdsMap_def)
  then show thesis using u by (intro that [of i db']) auto
qed

end

text \<open>Where the key is also what the table's unique keys compare, an insert of a new key is accepted.\<close>

locale keyed_insert = keyed_table +
  assumes collides_key: "R j v r \<Longrightarrow> R k w q \<Longrightarrow> collides T q r \<Longrightarrow> j = k"
begin

lemma insert_row:
  fixes h :: "'db tx_handle"
  assumes held: "holdsMap R m (tabs db T)"
    and answered: "answersInsert h tabs (InsertS T columns vals)"
    and row: "R k v (rowFrom columns vals)" "fitsTable T (rowFrom columns vals)" and fresh: "m k = None"
  obtains db' where
    "execInsert h (insertInto (hDialect h) T columns vals) db = (Inr True, db')"
    "\<And>n. n \<noteq> T \<Longrightarrow> tabs db' n = tabs db n"
    "holdsMap R (m(k \<mapsto> v)) (tabs db' T)"
proof -
  have "\<not> collides T (rowFrom columns vals) q" if "q \<in> set (tabs db T)" for q
    using holdsMap_row [OF held that] collides_key [OF _ row(1)] fresh by (metis option.distinct(1))
  from execInsert_answered [OF answered row(2) this] obtain db' where
    "execInsert h (insertInto (hDialect h) T columns vals) db = (Inr True, db')"
    "tabs db' = (tabs db)(T := tabs db T @ [rowFrom columns vals])" by blast
  then show thesis using holdsMap_insert [OF held fresh row(1)] by (intro that [of db']) auto
qed

end

end
