(* ===== verification/SqlRows.thy ===== *)
theory SqlRows
  imports SqlSemantics
begin

text \<open>
  The rows of the SQL store: for every kind of record the values of its row in column order, the
  conditions under which the row can hold the record, and that the scan function reads back exactly
  the record that was written.
\<close>

subsection \<open>Rows of records\<close>

definition agentValues :: "agent \<Rightarrow> sqlval list" where
  "agentValues a =
     [SInt (ukTenantID (agKey a)), SInt (ukUserID (agKey a)), SInt (agParentID a), SInt (agDepth a),
      SInt (agentStatusCode (agStatus a)), SInt (joinTypeCode (agJoinType a)), rateOverride a,
      instantOrNull (agCreatedAt a), instantOrNull (agUpdatedAt a), SInt (agVersion a)]"

definition bindingValues :: "binding \<Rightarrow> sqlval list" where
  "bindingValues b =
     [SInt (ukTenantID (bBuyer b)), SInt (ukUserID (bBuyer b)), SInt (bAgentUserID b), SInt (bindSourceCode (bSource b)),
      nullableString (bSourceRef b), instantOrNull (bBoundAt b), instantOrNull (bExpireAt b),
      SInt (boolInt (bActive b)), SInt (bReboundFrom b), SInt (bVersion b)]"

definition accountValues :: "account \<Rightarrow> sqlval list" where
  "accountValues a =
     [SInt (ukTenantID (aKey a)), SInt (ukUserID (aKey a)), moneyVal (aFrozen a), moneyVal (aAvailable a),
      moneyVal (aWithdrawing a), moneyVal (aWithdrawn a), moneyVal (aTotalEarned a), moneyVal (aTotalReversed a),
      SInt (aVersion a), instantOrNull (aUpdatedAt a)]"

definition commissionRowValues :: "commission \<Rightarrow> sqlval list" where
  "commissionRowValues c =
     [SInt (cID c), SInt (okTenantID (cKey c)), SText (okOrderID (cKey c)), SText (cOrderItemID c), SText (cIdemKey c),
      SInt (cBuyerUserID c), SInt (cAgentUserID c), SInt (cLayer c), moneyVal (cBaseAmount c), SInt (cRate c),
      moneyVal (cAmount c), moneyVal (cReversedAmount c), SInt (commissionStateCode (cState c)), SInt (cFreezeDays c),
      instantOrNull (cAvailableAt c), instantOrNull (cSettledAt c), instantOrNull (cAccruedAt c),
      SInt (cRuleVersion c), nullableString (cRuleSnapshot c), SInt (cReverseOf c), SInt (cVersion c)]"

definition ledgerValues :: "ledger_entry \<Rightarrow> sqlval list" where
  "ledgerValues e =
     [SInt (leID e), SInt (ukTenantID (leKey e)), SInt (ukUserID (leKey e)), SInt (ledgerBizCode (leBizType e)),
      SText (leBizID e), moneyVal (leDeltaFrozen e), moneyVal (leDeltaAvailable e), moneyVal (leDeltaWithdrawing e),
      moneyVal (leDeltaWithdrawn e), moneyVal (leAfterFrozen e), moneyVal (leAfterAvailable e),
      moneyVal (leAfterWithdrawing e), moneyVal (leAfterWithdrawn e),
      nullableString (leRemark e), instantOrNull (leCreatedAt e)]"

definition refundValues :: "refund \<Rightarrow> sqlval list" where
  "refundValues r =
     [SInt (rfID r), SInt (okTenantID (rfKey r)), SText (okOrderID (rfKey r)), SText (rfItemID r), SText (rfIdemKey r),
      moneyVal (rfAmount r), moneyVal (rfCumulative r), instantOrNull (rfRefundedAt r)]"

definition withdrawalValues :: "withdrawal \<Rightarrow> sqlval list" where
  "withdrawalValues w =
     [SInt (wID w), SInt (ukTenantID (wKey w)), SInt (ukUserID (wKey w)), SText (wIdemKey w), moneyVal (wAmount w),
      moneyVal (wFee w), moneyVal (wRealAmount w), SText (wChannel w), SText (wAccountInfo w),
      SInt (withdrawalStateCode (wState w)), SText (wFailReason w), moneyVal (wTaxAmount w), SText (wInvoiceNo w),
      SText (wOperator w), instantOrNull (wAppliedAt w), instantOrNull (wAuditedAt w), instantOrNull (wPaidAt w),
      SInt (wVersion w)]"

lemma all_buckets: "(\<forall>b. P b) \<longleftrightarrow> P BucketFrozen \<and> P BucketAvailable \<and> P BucketWithdrawing \<and> P BucketWithdrawn"
  by (metis bucket.exhaust)

subsection \<open>Codes\<close>

text \<open>A constant that fits a byte is read back from its number.\<close>

lemma lowByte_small: "0 \<le> i \<Longrightarrow> i < 256 \<Longrightarrow> lowByte i = nat i"
  by (simp add: lowByte_def)

lemma code_roundtrips:
  "agentStatusValid s \<Longrightarrow> agentStatusOf (agentStatusCode s) = s"
  "joinTypeValid j \<Longrightarrow> joinTypeOf (joinTypeCode j) = j"
  "bindSourceValid b \<Longrightarrow> bindSourceOf (bindSourceCode b) = b"
  "ledgerBizValid t \<Longrightarrow> ledgerBizOf (ledgerBizCode t) = t"
  "commissionStateCode c < 256 \<Longrightarrow> commissionStateOf (commissionStateCode c) = c"
  "withdrawalStateCode w < 256 \<Longrightarrow> withdrawalStateOf (withdrawalStateCode w) = w"
proof -
  show "agentStatusValid s \<Longrightarrow> agentStatusOf (agentStatusCode s) = s"
    by (cases s) (simp_all add: agentStatusValid_def agentStatusOf_def lowByte_def)
  show "joinTypeValid j \<Longrightarrow> joinTypeOf (joinTypeCode j) = j"
    by (cases j) (simp_all add: joinTypeValid_def joinTypeOf_def lowByte_def)
  show "bindSourceValid b \<Longrightarrow> bindSourceOf (bindSourceCode b) = b"
    by (cases b) (simp_all add: bindSourceValid_def bindSourceOf_def lowByte_def)
  show "ledgerBizValid t \<Longrightarrow> ledgerBizOf (ledgerBizCode t) = t"
    by (cases t) (simp_all add: ledgerBizValid_def ledgerBizOf_def lowByte_def)
  show "commissionStateCode c < 256 \<Longrightarrow> commissionStateOf (commissionStateCode c) = c"
    by (cases c) (simp_all add: commissionStateOf_def lowByte_small Let_def nat_add_distrib)
  show "withdrawalStateCode w < 256 \<Longrightarrow> withdrawalStateOf (withdrawalStateCode w) = w"
    by (cases w) (simp_all add: withdrawalStateOf_def lowByte_small Let_def nat_add_distrib)
qed

subsection \<open>Scanning a row\<close>

named_theorems scan_simps "evaluation of a scan on the values of a record"

lemma convert_simps [scan_simps]:
  "convertAssign DInt (SInt i) = Inr (SInt i)" "convertAssign DText (SText s) = Inr (SText s)"
  "convertAssign DNullText (SText s) = Inr (SText s)"
  "convertAssign DInt (moneyVal m) = Inr (moneyVal m)"
  "convertAssign DNullInt (instantOrNull t) = Inr (instantOrNull t)"
  "convertAssign DNullText (nullableString s) = Inr (nullableString s)"
  "convertAssign DNullInt (rateOverride a) = Inr (rateOverride a)"
  by (auto simp: convertAssign_def moneyVal_def instantOrNull_def nullableString_def rateOverride_def split: option.split)

lemma read_simps [scan_simps]:
  "moneyAt (moneyVal m) = m" "stringOrEmpty (nullText (nullableString s)) = s" "stringOrEmpty (Some s) = s"
  "nullInt (rateOverride a) = agRateOverrideBP a" "boolInt b \<noteq> 0 \<longleftrightarrow> b"
  by (auto simp: moneyAt_def moneyVal_def nullableString_def stringOrEmpty_def rateOverride_def boolInt_def split: option.split)

lemma scanWith_Cons [scan_simps]:
  "scanRow (d # ds) (v # vs) = (case convertAssign d v of Inl e \<Rightarrow> Inl e
     | Inr x \<Rightarrow> (case scanRow ds vs of Inl e \<Rightarrow> Inl e | Inr xs \<Rightarrow> Inr (x # xs)))"
  "scanRow [] [] = Inr []"
  by simp_all

lemma nth_numeral_simps [scan_simps]: "(x # xs) ! numeral n = xs ! pred_numeral n" "(x # xs) ! Suc m = xs ! m" "(x # xs) ! 0 = x"
  by simp_all

text \<open>What the row of a record must satisfy for the record to be read back.\<close>

definition agentHeld :: "agent \<Rightarrow> bool" where
  "agentHeld a \<longleftrightarrow> agentStatusValid (agStatus a) \<and> joinTypeValid (agJoinType a) \<and>
     storable (agCreatedAt a) \<and> storable (agUpdatedAt a)"

definition bindingHeld :: "binding \<Rightarrow> bool" where
  "bindingHeld b \<longleftrightarrow> bID b = 0 \<and> bindSourceValid (bSource b) \<and> storable (bBoundAt b) \<and> storable (bExpireAt b)"

definition commissionHeld :: "commission \<Rightarrow> bool" where
  "commissionHeld c \<longleftrightarrow> commissionStateCode (cState c) < 256 \<and> storable (cAvailableAt c) \<and>
     storable (cSettledAt c) \<and> storable (cAccruedAt c)"

definition withdrawalHeld :: "withdrawal \<Rightarrow> bool" where
  "withdrawalHeld w \<longleftrightarrow> withdrawalStateCode (wState w) < 256 \<and> storable (wAppliedAt w) \<and>
     storable (wAuditedAt w) \<and> storable (wPaidAt w)"

lemma scan_agent: "agentHeld a \<Longrightarrow> scanAgent (agentValues a) = Inr a"
  by (simp add: scanAgent_def scanWith_def agentValues_def agentHeld_def scan_simps code_roundtrips)

lemma scan_binding: "bindingHeld b \<Longrightarrow> scanBinding (bindingValues b) = Inr b"
  by (simp add: scanBinding_def scanWith_def bindingValues_def bindingHeld_def scan_simps code_roundtrips)

lemma scan_account: "storable (aUpdatedAt a) \<Longrightarrow> scanAccount (accountValues a) = Inr a"
  by (simp add: scanAccount_def scanWith_def accountValues_def scan_simps)

lemma scan_commission: "commissionHeld c \<Longrightarrow> scanCommission (commissionRowValues c) = Inr c"
  by (simp add: scanCommission_def scanWith_def commissionRowValues_def commissionHeld_def scan_simps code_roundtrips)

lemma scan_ledger: "ledgerBizValid (leBizType e) \<Longrightarrow> storable (leCreatedAt e) \<Longrightarrow> scanLedger (ledgerValues e) = Inr e"
  by (simp add: scanLedger_def scanWith_def ledgerValues_def scan_simps code_roundtrips)

lemma scan_refund: "storable (rfRefundedAt r) \<Longrightarrow> scanRefund (refundValues r) = Inr r"
  by (simp add: scanRefund_def scanWith_def refundValues_def scan_simps)

lemma scan_withdrawal: "withdrawalHeld w \<Longrightarrow> scanWithdrawal (withdrawalValues w) = Inr w"
  by (simp add: scanWithdrawal_def scanWith_def withdrawalValues_def withdrawalHeld_def scan_simps code_roundtrips)

end
