(* ===== verification/SqlReference.thy ===== *)
theory SqlReference
  imports SqlSemantics
begin

text \<open>
  A driver that answers the statements of one operation: it recognises a statement by its text and its
  bound values and runs it on the tables, so the connection's state is the tables themselves. It shows
  that the hypothesis \<open>answers\<close> can hold.
\<close>

definition runUpdate :: "string \<Rightarrow> assign list \<Rightarrow> cond list \<Rightarrow> (dberr, tables, exec_result) estep" where
  "runUpdate table as cs tabs =
     (Inr \<lparr>exRowsAffected = Inr (int (length (filter (matches cs) (tabs table)))), exLastInsertId = Inr 0\<rparr>,
      tabs(table := map (\<lambda>r. if matches cs r then updateRow as r else r) (tabs table)))"

definition runInsert :: "string \<Rightarrow> string list \<Rightarrow> sqlval list \<Rightarrow> (dberr, tables, exec_result) estep" where
  "runInsert table columns vals tabs =
     (let new = rowFrom columns vals in
      if list_ex (collides table new) (tabs table)
      then (Inr \<lparr>exRowsAffected = Inr 0, exLastInsertId = Inr 0\<rparr>, tabs)
      else (Inr \<lparr>exRowsAffected = Inr 1, exLastInsertId = Inr 0\<rparr>, tabs(table := tabs table @ [new])))"

definition runSelect :: "string list \<Rightarrow> string \<Rightarrow> cond list \<Rightarrow> (dberr, tables, row list \<times> dberr option) estep" where
  "runSelect columns table cs tabs = (Inr (map (\<lambda>r. map r columns) (filter (matches cs) (tabs table)), None), tabs)"

definition referenceDriver :: "dialect \<Rightarrow> stmt list \<Rightarrow> tables driver" where
  "referenceDriver d sts =
     \<lparr>drBegin = (\<lambda>_. ret ()), drCommit = ret (), drRollback = ret (),
      drExec = (\<lambda>query argv.
        case find (\<lambda>st. case st of
            UpdateS _ _ _ \<Rightarrow> stmtSQL d st = (query, argv)
          | InsertS _ _ _ \<Rightarrow> (case stmtSQL d st of (q, vs) \<Rightarrow> (q @ diInsertConflictClause d, vs)) = (query, argv)
          | SelectS _ _ _ \<Rightarrow> False) sts of
          Some (UpdateS table as cs) \<Rightarrow> runUpdate table as cs
        | Some (InsertS table columns vals) \<Rightarrow> runInsert table columns vals
        | _ \<Rightarrow> throw (Plain ''unknown statement'')),
      drQuery = (\<lambda>query argv.
        case find (\<lambda>st. case st of SelectS _ _ _ \<Rightarrow> stmtSQL d st = (query, argv) | _ \<Rightarrow> False) sts of
          Some (SelectS columns table cs) \<Rightarrow> runSelect columns table cs
        | _ \<Rightarrow> throw (Plain ''unknown statement''))\<rparr>"

definition referenceHandle :: "dialect \<Rightarrow> stmt list \<Rightarrow> tables tx_handle" where
  "referenceHandle d sts =
     \<lparr>txStore = \<lparr>ssDialect = d, ssClassifier = fallbackClassifier (\<lambda>_. []), ssMaxRetries = 5, ssRetryWait = 2000000\<rparr>,
      txDriver = referenceDriver d sts\<rparr>"

lemma referenceHandle_simps [simp]:
  "hDialect (referenceHandle d sts) = d" "txDriver (referenceHandle d sts) = referenceDriver d sts"
  by (simp_all add: referenceHandle_def hDialect_def)

text \<open>The text of an update and of an insert differ in their first letter.\<close>

lemma buildSQL_Lit: "\<exists>s vs. buildSQL d (Lit t # ps) [] = (t @ s, vs)"
  by (simp split: prod.splits)

lemma stmt_letters:
  "\<exists>s vs. stmtSQL d (UpdateS table as cs) = (CHR ''U'' # s, vs)"
  "\<exists>s vs. stmtSQL d (InsertS table columns vals) = (CHR ''I'' # s, vs)"
proof -
  have "\<exists>s vs. stmtSQL d (UpdateS table as cs) = ((''UPDATE '' @ tableName d table @ '' SET '') @ s, vs)"
    using buildSQL_Lit [of d "''UPDATE '' @ tableName d table @ '' SET ''"]
    unfolding stmtSQL_def stmtPieces.simps updateWhere_def append_Cons by blast
  then show "\<exists>s vs. stmtSQL d (UpdateS table as cs) = (CHR ''U'' # s, vs)" by auto
  have "\<exists>s vs. stmtSQL d (InsertS table columns vals) =
      ((''INSERT INTO '' @ tableName d table @ '' ('' @ cols d columns @ '') VALUES ('') @ s, vs)"
    using buildSQL_Lit [of d "''INSERT INTO '' @ tableName d table @ '' ('' @ cols d columns @ '') VALUES (''"]
    unfolding stmtSQL_def stmtPieces.simps insertInto_def append_Cons by blast
  then show "\<exists>s vs. stmtSQL d (InsertS table columns vals) = (CHR ''I'' # s, vs)" by auto
qed

text \<open>The statements of a write: an update, a lookup and an insert.\<close>

lemma reference_answers:
  "answers (referenceHandle d [UpdateS t1 as c1, SelectS cl t2 c2, InsertS t3 columns vals]) (\<lambda>db. db)
     [UpdateS t1 as c1, SelectS cl t2 c2, InsertS t3 columns vals]"
proof -
  obtain s vs where u: "stmtSQL d (UpdateS t1 as c1) = (CHR ''U'' # s, vs)" using stmt_letters(1) by blast
  obtain s' vs' where i: "stmtSQL d (InsertS t3 columns vals) = (CHR ''I'' # s', vs')" using stmt_letters(2) by blast
  show ?thesis
    by (simp add: answers_def answersSelect_def answersUpdate_def answersInsert_def u i referenceDriver_def
        runUpdate_def runInsert_def runSelect_def Let_def split: prod.split)
qed

text \<open>Two different updates and a lookup.\<close>

lemma reference_answers_updates:
  assumes "stmtSQL d (UpdateS t1 as1 c1) \<noteq> stmtSQL d (UpdateS t3 as3 c3)"
  shows "answers (referenceHandle d [UpdateS t1 as1 c1, SelectS cl t2 c2, UpdateS t3 as3 c3]) (\<lambda>db. db)
     [UpdateS t1 as1 c1, SelectS cl t2 c2, UpdateS t3 as3 c3]"
  using assms
  by (simp add: answers_def answersSelect_def answersUpdate_def answersInsert_def referenceDriver_def
      runUpdate_def runSelect_def split: prod.split)

subsection \<open>Generated ids\<close>

text \<open>A driver that answers inserts with the next free id, through either channel.\<close>

definition freshID :: "trow list \<Rightarrow> int" where
  "freshID rows = foldr (\<lambda>r n. case r ''id'' of SInt i \<Rightarrow> max n (i + 1) | _ \<Rightarrow> n) rows 1"

lemma freshID_above: "r \<in> set rows \<Longrightarrow> r ''id'' = SInt i \<Longrightarrow> i < freshID rows"
  by (induction rows) (auto simp: freshID_def split: sqlval.splits)

type_synonym insert_stmt = "string \<times> string list \<times> sqlval list"

definition generate :: "insert_stmt \<Rightarrow> tables \<Rightarrow> int option \<times> tables" where
  "generate st tabs = (case st of (table, columns, vals) \<Rightarrow>
     let new = rowFrom columns vals; rid = freshID (tabs table) in
     if list_ex (collides table new) (tabs table) then (None, tabs)
     else (Some rid, tabs(table := tabs table @ [new(''id'' := SInt rid)])))"

definition insertText :: "dialect \<Rightarrow> insert_stmt \<Rightarrow> string \<times> sqlval list" where
  "insertText d st = (case st of (table, columns, vals) \<Rightarrow> stmtSQL d (InsertS table columns vals))"

definition generatingDriver :: "dialect \<Rightarrow> insert_stmt list \<Rightarrow> tables driver" where
  "generatingDriver d sts =
     \<lparr>drBegin = (\<lambda>_. ret ()), drCommit = ret (), drRollback = ret (),
      drExec = (\<lambda>query argv tabs.
        case find (\<lambda>st. (fst (insertText d st) @ diInsertConflictClause d, snd (insertText d st)) = (query, argv)) sts of
          Some st \<Rightarrow> (case generate st tabs of
              (None, tabs') \<Rightarrow> (Inr \<lparr>exRowsAffected = Inr 0, exLastInsertId = Inr 0\<rparr>, tabs')
            | (Some rid, tabs') \<Rightarrow> (Inr \<lparr>exRowsAffected = Inr 1, exLastInsertId = Inr rid\<rparr>, tabs'))
        | None \<Rightarrow> (Inl (Plain ''unknown statement''), tabs)),
      drQuery = (\<lambda>query argv tabs.
        case find (\<lambda>st. (fst (insertText d st) @ diInsertConflictClause d @ '' RETURNING '' @ diQuote d ''id'',
            snd (insertText d st)) = (query, argv)) sts of
          Some st \<Rightarrow> (case generate st tabs of
              (None, tabs') \<Rightarrow> (Inr ([], None), tabs')
            | (Some rid, tabs') \<Rightarrow> (Inr ([[SInt rid]], None), tabs'))
        | None \<Rightarrow> (Inl (Plain ''unknown statement''), tabs))\<rparr>"

definition generatingHandle :: "dialect \<Rightarrow> insert_stmt list \<Rightarrow> tables tx_handle" where
  "generatingHandle d sts =
     \<lparr>txStore = \<lparr>ssDialect = d, ssClassifier = fallbackClassifier (\<lambda>_. []), ssMaxRetries = 5, ssRetryWait = 2000000\<rparr>,
      txDriver = generatingDriver d sts\<rparr>"

lemma hDialect_generating [simp]: "hDialect (generatingHandle d sts) = d"
  by (simp add: generatingHandle_def hDialect_def)

lemma find_text:
  assumes "distinct (map (insertText d) sts)" "st \<in> set sts"
  shows "find (\<lambda>s. (fst (insertText d s) @ tail, snd (insertText d s)) = (fst (insertText d st) @ tail, snd (insertText d st))) sts = Some st"
  using assms
proof (induction sts)
  case (Cons s sts)
  show ?case
  proof (cases "s = st")
    case False
    then have "st \<in> set sts" using Cons.prems(2) by simp
    then have "insertText d st \<noteq> insertText d s" using Cons.prems(1) by (force simp: image_iff)
    then have "\<not> (fst (insertText d s) = fst (insertText d st) \<and> snd (insertText d s) = snd (insertText d st))"
      by (metis prod.expand)
    then show ?thesis using Cons.IH Cons.prems(1) \<open>st \<in> set sts\<close> by auto
  qed simp
qed simp

lemma generating_answers:
  assumes "distinct (map (insertText d) sts)" "(table, columns, vals) \<in> set sts"
  shows "answersInsertID (generatingHandle d sts) (\<lambda>db. db) table columns vals"
proof -
  let ?st = "(table, columns, vals)"
  obtain query argv where q: "stmtSQL d (InsertS table columns vals) = (query, argv)"
    by (cases "stmtSQL d (InsertS table columns vals)")
  then have text_: "insertText d ?st = (query, argv)" by (simp add: insertText_def)
  note found = find_text [OF assms, unfolded text_ fst_conv snd_conv]
  have fresh: "list_all (\<lambda>r. r ''id'' \<noteq> SInt (freshID rows)) rows" for rows
    using freshID_above [of _ rows "freshID rows"] by (auto simp: list_all_iff)
  have exec: "drExec (generatingDriver d sts) (query @ diInsertConflictClause d) argv tabs = (case generate ?st tabs of
      (None, tabs') \<Rightarrow> (Inr \<lparr>exRowsAffected = Inr 0, exLastInsertId = Inr 0\<rparr>, tabs')
    | (Some rid, tabs') \<Rightarrow> (Inr \<lparr>exRowsAffected = Inr 1, exLastInsertId = Inr rid\<rparr>, tabs'))" for tabs
    using found [of "diInsertConflictClause d"] by (simp add: generatingDriver_def)
  have returning: "drQuery (generatingDriver d sts) (query @ diInsertConflictClause d @ '' RETURNING '' @ diQuote d ''id'') argv tabs =
    (case generate ?st tabs of (None, tabs') \<Rightarrow> (Inr ([], None), tabs')
      | (Some rid, tabs') \<Rightarrow> (Inr ([[SInt rid]], None), tabs'))" for tabs
    using found [of "diInsertConflictClause d @ '' RETURNING '' @ diQuote d ''id''"] by (simp add: generatingDriver_def)
  have "txDriver (generatingHandle d sts) = generatingDriver d sts" by (simp add: generatingHandle_def)
  then show ?thesis
    unfolding answersInsertID_def hDialect_generating q prod.case Let_def append_assoc exec returning
    using fresh by (auto simp: exec returning [simplified] generate_def Let_def collisionReported_def)
qed

end
