(* ===== verification/SqlAgrees.thy ===== *)
theory SqlAgrees
  imports SqlRows SqlReference
begin

text \<open>
  The two stores agree: on tables that hold the maps of the in-memory store, the version-checked writes
  of the SQL store return what the in-memory ones return and leave tables that hold the new maps.
\<close>

subsection \<open>Rows and columns\<close>

text \<open>A table's row in column order, and the fit of its values.\<close>

definition fitsValues :: "string \<Rightarrow> sqlval list \<Rightarrow> bool" where
  "fitsValues table vals \<longleftrightarrow> list_all2 (\<lambda>c v. cdName c = ''id'' \<or> valueFits c v) (columnsOf table) vals"

lemma fitsTable_values:
  "map r (map cdName (columnsOf table)) = vals \<Longrightarrow> fitsTable table r \<longleftrightarrow> fitsValues table vals"
  by (auto simp: fitsTable_def fitsValues_def list_all2_conv_all_nth list_all_length)

lemma map_rowFrom: "distinct cs \<Longrightarrow> length cs = length vals \<Longrightarrow> map (rowFrom cs vals) cs = vals"
proof -
  assume a: "distinct cs" "length cs = length vals"
  have "rowFrom cs vals (cs ! i) = vals ! i" if "i < length cs" for i
    using map_of_zip_nth [OF a(2,1)] that a(2) by (simp add: rowFrom_def)
  then show ?thesis using a(2) by (intro nth_equalityI) simp_all
qed

named_theorems schema_simps "the columns and keys of the schema"

lemma table_names [schema_simps]:
  "tableAgent = ''dist_agent''" "tableBinding = ''dist_binding''" "tableAccount = ''dist_account''"
  "tableCommission = ''dist_commission''" "tableLedger = ''dist_ledger''" "tableRefund = ''dist_refund''"
  "tableWithdraw = ''dist_withdraw''"
  by (simp_all add: tableAgent_def tableBinding_def tableAccount_def tableCommission_def tableLedger_def tableRefund_def
      tableWithdraw_def)

lemma columns_of:
  "map cdName (columnsOf ''dist_agent'') = agentCols" "map cdName (columnsOf ''dist_binding'') = bindingCols"
  "map cdName (columnsOf ''dist_account'') = accountCols" "map cdName (columnsOf ''dist_commission'') = commissionCols"
  "map cdName (columnsOf ''dist_ledger'') = ledgerCols" "map cdName (columnsOf ''dist_refund'') = refundCols"
  "map cdName (columnsOf ''dist_withdraw'') = withdrawalCols"
  by (simp_all add: columnsOf_def schemaTables_def tableAgentDef_def tableBindingDef_def tableAccountDef_def
      tableCommissionDef_def tableLedgerDef_def tableRefundDef_def tableWithdrawDef_def schema_simps
      agentCols_def bindingCols_def accountCols_def commissionCols_def ledgerCols_def refundCols_def withdrawalCols_def)

lemma unique_keys:
  "uniqueKeys ''dist_agent'' = [[''tenant_id'', ''user_id'']]"
  "uniqueKeys ''dist_binding'' = [[''tenant_id'', ''buyer_user_id'']]"
  "uniqueKeys ''dist_account'' = [[''tenant_id'', ''user_id'']]"
  "uniqueKeys ''dist_commission'' = [[''id''], [''tenant_id'', ''idem_key'']]"
  "uniqueKeys ''dist_refund'' = [[''id''], [''tenant_id'', ''idem_key'']]"
  "uniqueKeys ''dist_ledger'' = [[''id'']]"
  "uniqueKeys ''dist_withdraw'' = [[''id''], [''tenant_id'', ''idem_key'']]"
  by (simp_all add: uniqueKeys_def schemaTables_def tableAgentDef_def tableBindingDef_def tableAccountDef_def
      tableCommissionDef_def tableLedgerDef_def tableRefundDef_def tableWithdrawDef_def schema_simps)

lemma agent_columns: "columnsOf ''dist_agent'' = tdColumns tableAgentDef"
  and account_columns: "columnsOf ''dist_account'' = tdColumns tableAccountDef"
  by (simp_all add: columnsOf_def schemaTables_def tableAgentDef_def tableBindingDef_def tableAccountDef_def
      tableCommissionDef_def tableLedgerDef_def tableRefundDef_def tableWithdrawDef_def schema_simps)

lemma table_columns:
  "columnsOf ''dist_binding'' = tdColumns tableBindingDef" "columnsOf ''dist_commission'' = tdColumns tableCommissionDef"
  "columnsOf ''dist_ledger'' = tdColumns tableLedgerDef" "columnsOf ''dist_refund'' = tdColumns tableRefundDef"
  "columnsOf ''dist_withdraw'' = tdColumns tableWithdrawDef"
  by (simp_all add: columnsOf_def schemaTables_def tableAgentDef_def tableBindingDef_def tableAccountDef_def
      tableCommissionDef_def tableLedgerDef_def tableRefundDef_def tableWithdrawDef_def schema_simps)

text \<open>An error of the ledger as the SQL store returns it.\<close>

definition asLedger :: "gerror + 'a \<Rightarrow> dberr + 'a" where
  "asLedger r = (case r of Inl e \<Rightarrow> Inl (Ledger e) | Inr x \<Rightarrow> Inr x)"

lemma asLedger_simps [simp]: "asLedger (Inl e) = Inl (Ledger e)" "asLedger (Inr x) = Inr x"
  by (simp_all add: asLedger_def)

text \<open>Conflicts without the two numbers they name.\<close>

definition blindConflict :: "gerror \<Rightarrow> gerror" where
  "blindConflict e = (case e of ConflictError kind _ _ \<Rightarrow> ConflictError kind 0 0 | _ \<Rightarrow> e)"

subsection \<open>The write pattern\<close>

text \<open>
  The pattern that \<open>PutAgent\<close>, \<open>PutBinding\<close> and \<open>PutAccount\<close> repeat: a version-checked update; where no
  row changed, the current version decides between a conflict and an insert.
\<close>

definition putVersioned ::
  "'db tx_handle \<Rightarrow> string \<Rightarrow> piece list \<Rightarrow> (dberr, 'db, int option) estep \<Rightarrow> piece list \<Rightarrow> int \<Rightarrow> string \<Rightarrow> 'v \<Rightarrow> 'v \<Rightarrow>
   (dberr, 'db, 'v) estep" where
  "putVersioned h kind upd lookup ins n failed bumped created =
     andThen (updateVersioned h upd) (\<lambda>affected.
       if affected = 1 then ret bumped
       else andThen lookup (\<lambda>found. case found of
         Some actual \<Rightarrow> throw (conflict kind n actual)
       | None \<Rightarrow>
           if n \<noteq> 0 then throw (conflict kind n 0)
           else attempt (execInsert h ins) (\<lambda>i. case i of
               Inl e \<Rightarrow> throw (Context failed e)
             | Inr inserted \<Rightarrow> if \<not> inserted then throw (conflict kind 0 0) else ret created)))"

text \<open>
  On a table that holds a map it is the in-memory write: the version check of the in-memory store
  decides, and the new entry is stored when it passes.
\<close>

context keyed_insert
begin

lemma put_agrees:
  fixes h :: "'db tx_handle"
  assumes held: "holdsMap R m (tabs db T)"
    and upd: "answersUpdate h tabs (UpdateS T as (keyConds k @ [CondEq ''version'' (SInt n)]))"
    and ins: "answersInsert h tabs (InsertS T columns vals)"
    and version: "\<And>v r. R k v r \<Longrightarrow> r ''version'' = SInt (ver v)"
    and new: "\<And>v r. R k v r \<Longrightarrow> ver v = n \<Longrightarrow> R k bumped (updateRow as r) \<and> fitsTable T (updateRow as r)"
    and created: "n = 0 \<Longrightarrow> R k bumped (rowFrom columns vals) \<and> fitsTable T (rowFrom columns vals) \<and> created = bumped"
    and lookup: "\<And>db'. holdsMap R m (tabs db' T) \<Longrightarrow> lookup db' = (Inr (map_option ver (m k)), db')"
  shows "\<exists>db'. putVersioned h kind (stmtPieces (hDialect h) (UpdateS T as (keyConds k @ [CondEq ''version'' (SInt n)])))
        lookup (insertInto (hDialect h) T columns vals) n failed bumped created db =
      (case checkVersion kind n (case m k of None \<Rightarrow> 0 | Some v \<Rightarrow> ver v) (m k \<noteq> None) of
         Some e \<Rightarrow> Inl (Ledger e) | None \<Rightarrow> Inr bumped, db') \<and>
    holdsMap R (case checkVersion kind n (case m k of None \<Rightarrow> 0 | Some v \<Rightarrow> ver v) (m k \<noteq> None) of
         Some e \<Rightarrow> m | None \<Rightarrow> m(k \<mapsto> bumped)) (tabs db' T) \<and>
    (\<forall>x. x \<noteq> T \<longrightarrow> tabs db' x = tabs db x)"
proof -
  have guard: "matches [CondEq ''version'' (SInt n)] r \<longleftrightarrow> ver v = n" if "R k v r" for v r
    using version [OF that] by (simp add: matches_def)
  obtain db1 where u: "updateVersioned h (stmtPieces (hDialect h) (UpdateS T as (keyConds k @ [CondEq ''version'' (SInt n)]))) db =
        (Inr (if \<exists>v. m k = Some v \<and> ver v = n then 1 else 0), db1)"
      "\<And>x. x \<noteq> T \<Longrightarrow> tabs db1 x = tabs db x"
      "holdsMap R (case m k of Some v \<Rightarrow> if ver v = n then m(k \<mapsto> bumped) else m | None \<Rightarrow> m) (tabs db1 T)"
    by (rule guarded_update [OF held upd, of "\<lambda>v. ver v = n" "\<lambda>_. bumped"]) (use guard new in blast)+
  show ?thesis
  proof (cases "m k")
    case None
    have look: "lookup db1 = (Inr None, db1)" using lookup [of db1] u(3) None by simp
    show ?thesis
    proof (cases "n = 0")
      case True
      obtain db2 where "execInsert h (insertInto (hDialect h) T columns vals) db1 = (Inr True, db2)"
        "\<And>x. x \<noteq> T \<Longrightarrow> tabs db2 x = tabs db1 x" "holdsMap R (m(k \<mapsto> bumped)) (tabs db2 T)"
        by (rule insert_row [of m tabs db1 h columns vals k bumped]) (use u(3) None ins created [OF True] in simp_all)
      then show ?thesis using u look None True created
        by (auto simp: putVersioned_def step_simps checkVersion_def)
    next
      case False
      then show ?thesis using u look None by (auto simp: putVersioned_def step_simps checkVersion_def conflict_def)
    qed
  next
    case (Some v)
    show ?thesis
    proof (cases "ver v = n")
      case True
      then show ?thesis using u Some by (auto simp: putVersioned_def step_simps checkVersion_def)
    next
      case False
      then have "lookup db1 = (Inr (Some (ver v)), db1)" using lookup [of db1] u(3) Some by simp
      then show ?thesis using u Some False by (auto simp: putVersioned_def step_simps checkVersion_def conflict_def)
    qed
  qed
qed

end

text \<open>A lookup by the key returns the entry of the map.\<close>

context keyed_table
begin

lemma found_or:
  assumes held: "holdsMap R m (tabs db T)" and sel: "answersSelect h tabs (SelectS columns T (keyConds k))"
    and text_: "buildSQL (hDialect h) ps [] = stmtSQL (hDialect h) (SelectS columns T (keyConds k))"
    and scans: "\<And>v r. R k v r \<Longrightarrow> scan (map r columns) = Inr v"
  shows "andThen (queryOne h ps (keepLast scan) None) (foundOr ErrNotFound) db =
    (case m k of None \<Rightarrow> Inl (Ledger ErrNotFound) | Some v \<Rightarrow> Inr v, db)"
proof (cases "m k")
  case None
  then show ?thesis using lookup_rows [OF held, of k] queryOne_answered [OF sel text_, of "keepLast scan" None db]
    by (simp add: andThen_run foundOr_def step_simps)
next
  case (Some v)
  then obtain r where "filter (matches (keyConds k)) (tabs db T) = [r]" "R k v r" using lookup_rows [OF held, of k] by auto
  then show ?thesis using Some queryOne_answered [OF sel text_, of "keepLast scan" None db] scans
    by (simp add: andThen_run foundOr_def step_simps keepLast_def)
qed

end

subsection \<open>Agents\<close>

definition agentRow :: "user_key \<Rightarrow> agent \<Rightarrow> trow \<Rightarrow> bool" where
  "agentRow k a r \<longleftrightarrow> k = agKey a \<and> map r agentCols = agentValues a \<and> agentHeld a"

definition idIs :: "int \<Rightarrow> cond list" where
  "idIs k = [CondEq ''id'' (SInt k)]"

definition userConds :: "string \<Rightarrow> user_key \<Rightarrow> cond list" where
  "userConds col k = [CondEq ''tenant_id'' (SInt (ukTenantID k)), CondEq col (SInt (ukUserID k))]"

lemma user_key_eq: "ukTenantID j = ukTenantID k \<and> ukUserID j = ukUserID k \<longleftrightarrow> j = k"
  by (auto intro: user_key.expand)

lemma agentRow_cols:
  "agentRow k a r \<Longrightarrow> r ''tenant_id'' = SInt (ukTenantID k) \<and> r ''user_id'' = SInt (ukUserID k) \<and> r ''version'' = SInt (agVersion a)"
  by (simp add: agentRow_def agentCols_def agentValues_def)

interpretation agent_table: keyed_insert "''dist_agent''" agentRow "userConds ''user_id''"
proof
  show "agentRow j v r \<Longrightarrow> matches (userConds ''user_id'' k) r \<longleftrightarrow> j = k" for j v r k
    using agentRow_cols [of j v r] user_key_eq [of j k] by (auto simp: matches_def userConds_def)
  show "agentRow j v r \<Longrightarrow> agentRow k w q \<Longrightarrow> collides ''dist_agent'' q r \<Longrightarrow> j = k" for j v r k w q
    using agentRow_cols [of j v r] agentRow_cols [of k w q] user_key_eq [of j k] by (auto simp: collides_def unique_keys)
qed

definition agentUpdateS :: "agent \<Rightarrow> stmt" where
  "agentUpdateS a = UpdateS ''dist_agent''
     [SetVal ''parent_id'' (SInt (agParentID a)), SetVal ''depth'' (SInt (agDepth a)),
      SetVal ''status'' (SInt (agentStatusCode (agStatus a))), SetVal ''join_type'' (SInt (joinTypeCode (agJoinType a))),
      SetVal ''rate_override_bp'' (rateOverride a), SetVal ''created_at'' (instantOrNull (agCreatedAt a)),
      SetVal ''updated_at'' (instantOrNull (agUpdatedAt a)), SetNext ''version'']
     (userConds ''user_id'' (agKey a) @ [CondEq ''version'' (SInt (agVersion a))])"

definition agentSelectS :: "user_key \<Rightarrow> stmt" where
  "agentSelectS k = SelectS agentCols ''dist_agent'' (userConds ''user_id'' k)"

definition agentInsertS :: "agent \<Rightarrow> stmt" where
  "agentInsertS a = InsertS ''dist_agent'' agentCols (agentValues (a\<lparr>agVersion := 1\<rparr>))"

lemma agent_texts:
  "agentUpdate d a = stmtPieces d (agentUpdateS a)" "buildSQL d (agentQuery d k) [] = stmtSQL d (agentSelectS k)"
  "agentInsert d a = insertInto d ''dist_agent'' agentCols (agentValues (a\<lparr>agVersion := 1\<rparr>))"
  by (simp_all add: agentUpdate_def agentUpdateS_def userConds_def bumpVersion_def agentQuery_def agentSelectS_def
      stmtSQL_def selectFrom_def setTo_def agentInsert_def agentValues_def rateOverride_def argsAdd_def)

lemma agent_lookup:
  assumes "holdsMap agentRow m (tabs db ''dist_agent'')" "answersSelect h tabs (agentSelectS k)"
  shows "sqlAgent h k db = (case m k of None \<Rightarrow> Inl (Ledger ErrNotFound) | Some a \<Rightarrow> Inr a, db)"
proof -
  have "sqlAgent h k db = andThen (queryOne h (agentQuery (hDialect h) k) (keepLast scanAgent) None) (foundOr ErrNotFound) db"
    by (simp add: sqlAgent_def)
  also have "\<dots> = (case m k of None \<Rightarrow> Inl (Ledger ErrNotFound) | Some a \<Rightarrow> Inr a, db)"
    by (rule agent_table.found_or [where m = m and tabs = tabs and columns = agentCols])
      (use assms in \<open>simp_all add: agent_texts agentSelectS_def agentRow_def scan_agent\<close>)
  finally show ?thesis .
qed

text \<open>\<open>t.Agent\<close> as the version of a row that may be missing.\<close>

definition versionOr :: "(dberr, 'db, 'v) estep \<Rightarrow> ('v \<Rightarrow> int) \<Rightarrow> (dberr, 'db, int option) estep" where
  "versionOr look ver = attempt look (\<lambda>r. case r of
      Inr cur \<Rightarrow> ret (Some (ver cur))
    | Inl e \<Rightarrow> if errorsIs (Ledger ErrNotFound) e then ret None else throw e)"

lemma versionOr_found:
  "look db = (case m k of None \<Rightarrow> Inl (Ledger ErrNotFound) | Some a \<Rightarrow> Inr a, db) \<Longrightarrow>
   versionOr look ver db = (Inr (map_option ver (m k)), db)"
  by (simp add: versionOr_def step_simps errorsIs_def split: option.splits)

lemma agent_version:
  "holdsMap agentRow m (tabs db ''dist_agent'') \<Longrightarrow> answersSelect h tabs (agentSelectS k) \<Longrightarrow>
   versionOr (sqlAgent h k) agVersion db = (Inr (map_option agVersion (m k)), db)"
  by (rule versionOr_found) (rule agent_lookup)

definition agentGuards :: "agent \<Rightarrow> bool" where
  "agentGuards a \<longleftrightarrow> userKeyValidate (agKey a) = None \<and> \<not> agParentID a < 0 \<and>
     \<not> (agParentID a \<noteq> 0 \<and> agParentID a = ukUserID (agKey a)) \<and> agentStatusValid (agStatus a) \<and> joinTypeValid (agJoinType a)"

lemma sqlPutAgent_pattern:
  "agentGuards a \<Longrightarrow> sqlPutAgent h a = putVersioned h ''agent'' (agentUpdate (hDialect h) a)
     (versionOr (sqlAgent h (agKey a)) agVersion) (agentInsert (hDialect h) a) (agVersion a) ''sqlstore: insert agent''
     (a\<lparr>agVersion := agVersion a + 1\<rparr>) (a\<lparr>agVersion := 1\<rparr>)"
  by (rule ext) (auto simp: sqlPutAgent_def putVersioned_def versionOr_def agentGuards_def step_simps split: sum.split)

text \<open>The write of an agent that passes the checks, on a table that holds the agents \<open>m\<close>.\<close>

definition storableAgent :: "agent \<Rightarrow> bool" where
  "storableAgent a \<longleftrightarrow> storable (agCreatedAt a) \<and> storable (agUpdatedAt a) \<and>
     fitsValues ''dist_agent'' (agentValues (a\<lparr>agVersion := agVersion a + 1\<rparr>))"

lemma agent_put:
  fixes h :: "'db tx_handle"
  assumes held: "holdsMap agentRow m (tabs db ''dist_agent'')"
    and answered: "answers h tabs [agentUpdateS a, agentSelectS (agKey a), agentInsertS a]"
    and ok: "agentGuards a" "storableAgent a"
  shows "\<exists>db'. sqlPutAgent h a db =
      (case checkVersion ''agent'' (agVersion a) (case m (agKey a) of None \<Rightarrow> 0 | Some v \<Rightarrow> agVersion v) (m (agKey a) \<noteq> None) of
         Some e \<Rightarrow> Inl (Ledger e) | None \<Rightarrow> Inr (a\<lparr>agVersion := agVersion a + 1\<rparr>), db') \<and>
    holdsMap agentRow
      (case checkVersion ''agent'' (agVersion a) (case m (agKey a) of None \<Rightarrow> 0 | Some v \<Rightarrow> agVersion v) (m (agKey a) \<noteq> None) of
         Some e \<Rightarrow> m | None \<Rightarrow> m(agKey a \<mapsto> a\<lparr>agVersion := agVersion a + 1\<rparr>)) (tabs db' ''dist_agent'') \<and>
    (\<forall>x. x \<noteq> ''dist_agent'' \<longrightarrow> tabs db' x = tabs db x)"
proof -
  let ?k = "agKey a" and ?new = "a\<lparr>agVersion := agVersion a + 1\<rparr>"
  have row: "agentRow ?k ?new r \<and> fitsTable ''dist_agent'' r" if "map r agentCols = agentValues ?new" for r
    using that ok fitsTable_values [of r "''dist_agent''"]
    by (simp add: agentRow_def agentHeld_def agentGuards_def storableAgent_def columns_of)
  have vals: "map (updateRow as r) agentCols = agentValues ?new"
    if "agentRow ?k v r" "agVersion v = agVersion a" "agentUpdateS a = UpdateS T as cs" for v r T as cs
    using that agentRow_cols [OF that(1)] by (auto simp: agentUpdateS_def updateRow_def agentCols_def agentValues_def rateOverride_def)
  obtain as where as: "agentUpdateS a = UpdateS ''dist_agent'' as (userConds ''user_id'' ?k @ [CondEq ''version'' (SInt (agVersion a))])"
    by (simp add: agentUpdateS_def)
  have "map (rowFrom agentCols (agentValues (a\<lparr>agVersion := 1\<rparr>))) agentCols = agentValues (a\<lparr>agVersion := 1\<rparr>)"
    by (rule map_rowFrom) (simp_all add: agentCols_def agentValues_def)
  then show ?thesis
    unfolding sqlPutAgent_pattern [OF ok(1)] agent_texts as
    using held answered agentRow_cols row vals [OF _ _ as] agent_version
    by (intro agent_table.put_agrees [where m = m and tabs = tabs]) (auto simp: answers_def as agentInsertS_def)
qed

text \<open>The checks themselves are those of the in-memory store.\<close>

lemma agent_refused:
  "\<not> agentGuards a \<Longrightarrow> \<exists>e. sqlPutAgent h a db = (Inl (Ledger e), db) \<and> PutAgent a t = (Inl e, t)"
  by (auto simp: sqlPutAgent_def PutAgent_def agentGuards_def step_simps split: option.split)

lemma PutAgent_run:
  "agentGuards a \<Longrightarrow> fst (PutAgent a t) = (case checkVersion ''agent'' (agVersion a)
       (case dAgents (txD t) (agKey a) of None \<Rightarrow> 0 | Some v \<Rightarrow> agVersion v) (dAgents (txD t) (agKey a) \<noteq> None) of
     Some e \<Rightarrow> Inl e | None \<Rightarrow> Inr (a\<lparr>agVersion := agVersion a + 1\<rparr>))"
  "agentGuards a \<Longrightarrow> dAgents (txD (snd (PutAgent a t))) = (case checkVersion ''agent'' (agVersion a)
       (case dAgents (txD t) (agKey a) of None \<Rightarrow> 0 | Some v \<Rightarrow> agVersion v) (dAgents (txD t) (agKey a) \<noteq> None) of
     Some e \<Rightarrow> dAgents (txD t) | None \<Rightarrow> (dAgents (txD t))(agKey a \<mapsto> a\<lparr>agVersion := agVersion a + 1\<rparr>))"
  by (auto simp: PutAgent_def agentGuards_def Let_def change_def split: option.splits)

text \<open>
  Writing an agent through the SQL store agrees with the in-memory store: on an agent table that holds
  the agents of the in-memory transaction, and for a database that answers the three statements of the write
  as SQL prescribes, \<open>PutAgent\<close> of store/sql returns exactly what \<open>PutAgent\<close> of store/memory returns
  (the same guard errors, the same version conflicts, the same stored agent with its next version), leaves a
  table that holds the agents of the in-memory store afterwards, and touches no other table.
\<close>

theorem put_agent_agrees:
  assumes held: "holdsMap agentRow (dAgents (txD t)) (tabs db ''dist_agent'')"
    and answered: "answers h tabs [agentUpdateS a, agentSelectS (agKey a), agentInsertS a]"
    and ok: "storableAgent a"
  shows "\<exists>db'. sqlPutAgent h a db = (asLedger (fst (PutAgent a t)), db') \<and>
    holdsMap agentRow (dAgents (txD (snd (PutAgent a t)))) (tabs db' ''dist_agent'') \<and>
    (\<forall>n. n \<noteq> ''dist_agent'' \<longrightarrow> tabs db' n = tabs db n)"
proof (cases "agentGuards a")
  case False
  then show ?thesis using agent_refused [of a h db t] held by auto
next
  case True
  obtain db' where "sqlPutAgent h a db = (asLedger (fst (PutAgent a t)), db')"
    "holdsMap agentRow (dAgents (txD (snd (PutAgent a t)))) (tabs db' ''dist_agent'')"
    "\<forall>n. n \<noteq> ''dist_agent'' \<longrightarrow> tabs db' n = tabs db n"
    using agent_put [OF held answered True ok] by (auto simp: PutAgent_run [OF True] split: option.splits)
  then show ?thesis by blast
qed

definition heldAgent :: agent where
  "heldAgent = \<lparr>agKey = UserKey 1 10, agParentID = 0, agDepth = 1, agStatus = AgentActive, agJoinType = JoinFree,
     agRateOverrideBP = Some 250, agCreatedAt = unixEpoch + 1000, agUpdatedAt = 0, agVersion = 3\<rparr>"

definition heldTx :: txn where
  "heldTx = \<lparr>txD = newData\<lparr>dAgents := [UserKey 1 10 \<mapsto> heldAgent]\<rparr>, txU = newUndo newData\<rparr>"

definition heldTables :: tables where
  "heldTables = (\<lambda>_. [])(''dist_agent'' := [rowFrom agentCols (agentValues heldAgent)])"

lemma heldTables_agents: "holdsMap agentRow (dAgents (txD heldTx)) (heldTables ''dist_agent'')"
proof -
  have "map (rowFrom agentCols (agentValues heldAgent)) agentCols = agentValues heldAgent"
    by (rule map_rowFrom) (simp_all add: agentCols_def agentValues_def)
  then have "agentRow (UserKey 1 10) heldAgent (rowFrom agentCols (agentValues heldAgent))"
    by (simp add: agentRow_def agentHeld_def heldAgent_def agentStatusValid_def joinTypeValid_def storable_def in64_def)
  then show ?thesis by (auto simp: holdsMap_def heldTx_def heldTables_def intro!: exI [of _ "[UserKey 1 10]"])
qed

theorem put_agent_agrees_witness:
  "let a = heldAgent\<lparr>agStatus := AgentDisabled\<rparr>;
       h = referenceHandle (postgres (\<lambda>_. [])) [agentUpdateS a, agentSelectS (agKey a), agentInsertS a] in
   \<exists>db'. sqlPutAgent h a heldTables = (asLedger (fst (PutAgent a heldTx)), db') \<and>
     holdsMap agentRow (dAgents (txD (snd (PutAgent a heldTx)))) (db' ''dist_agent'') \<and>
     (\<forall>n. n \<noteq> ''dist_agent'' \<longrightarrow> db' n = heldTables n)"
  unfolding Let_def
proof (rule put_agent_agrees [where tabs = "\<lambda>db. db" and t = heldTx])
  let ?a = "heldAgent\<lparr>agStatus := AgentDisabled\<rparr>"
  show "holdsMap agentRow (dAgents (txD heldTx)) (heldTables ''dist_agent'')" by (rule heldTables_agents)
  show "answers (referenceHandle (postgres (\<lambda>_. [])) [agentUpdateS ?a, agentSelectS (agKey ?a), agentInsertS ?a]) (\<lambda>db. db)
      [agentUpdateS ?a, agentSelectS (agKey ?a), agentInsertS ?a]"
    unfolding agentUpdateS_def agentSelectS_def agentInsertS_def by (rule reference_answers)
  show "storableAgent ?a"
    by (simp add: storableAgent_def storable_def fitsValues_def agentValues_def agent_columns tableAgentDef_def heldAgent_def valueFits_def in64_def
        rateOverride_def instantOrNull_def unixNano_def)
qed

subsection \<open>Bindings\<close>

definition bindingRow :: "user_key \<Rightarrow> binding \<Rightarrow> trow \<Rightarrow> bool" where
  "bindingRow k b r \<longleftrightarrow> k = bBuyer b \<and> map r bindingCols = bindingValues b \<and> bindingHeld b"

lemma bindingRow_cols:
  "bindingRow k b r \<Longrightarrow> r ''tenant_id'' = SInt (ukTenantID k) \<and> r ''buyer_user_id'' = SInt (ukUserID k) \<and> r ''version'' = SInt (bVersion b)"
  by (simp add: bindingRow_def bindingCols_def bindingValues_def)

interpretation binding_table: keyed_insert "''dist_binding''" bindingRow "userConds ''buyer_user_id''"
proof
  show "bindingRow j v r \<Longrightarrow> matches (userConds ''buyer_user_id'' k) r \<longleftrightarrow> j = k" for j v r k
    using bindingRow_cols [of j v r] user_key_eq [of j k] by (auto simp: matches_def userConds_def)
  show "bindingRow j v r \<Longrightarrow> bindingRow k w q \<Longrightarrow> collides ''dist_binding'' q r \<Longrightarrow> j = k" for j v r k w q
    using bindingRow_cols [of j v r] bindingRow_cols [of k w q] user_key_eq [of j k] by (auto simp: collides_def unique_keys)
qed

definition bindingUpdateS :: "binding \<Rightarrow> stmt" where
  "bindingUpdateS b = UpdateS ''dist_binding''
     [SetVal ''agent_user_id'' (SInt (bAgentUserID b)), SetVal ''source'' (SInt (bindSourceCode (bSource b))),
      SetVal ''source_ref'' (nullableString (bSourceRef b)), SetVal ''bound_at'' (instantOrNull (bBoundAt b)),
      SetVal ''expire_at'' (instantOrNull (bExpireAt b)), SetVal ''active'' (SInt (boolInt (bActive b))),
      SetVal ''rebound_from'' (SInt (bReboundFrom b)), SetNext ''version'']
     (userConds ''buyer_user_id'' (bBuyer b) @ [CondEq ''version'' (SInt (bVersion b))])"

definition bindingSelectS :: "user_key \<Rightarrow> stmt" where
  "bindingSelectS k = SelectS bindingCols ''dist_binding'' (userConds ''buyer_user_id'' k)"

definition bindingInsertS :: "binding \<Rightarrow> stmt" where
  "bindingInsertS b = InsertS ''dist_binding'' bindingCols (bindingValues (b\<lparr>bVersion := 1\<rparr>))"

lemma binding_texts:
  "bindingUpdate d b = stmtPieces d (bindingUpdateS b)" "buildSQL d (bindingQuery d k) [] = stmtSQL d (bindingSelectS k)"
  "bindingInsert d b = insertInto d ''dist_binding'' bindingCols (bindingValues (b\<lparr>bVersion := 1\<rparr>))"
  by (simp_all add: bindingUpdate_def bindingUpdateS_def userConds_def bumpVersion_def bindingQuery_def bindingSelectS_def
      stmtSQL_def selectFrom_def setTo_def bindingInsert_def bindingValues_def argsAdd_def)

lemma binding_lookup:
  assumes "holdsMap bindingRow m (tabs db ''dist_binding'')" "answersSelect h tabs (bindingSelectS k)"
  shows "sqlBinding h k db = (case m k of None \<Rightarrow> Inl (Ledger ErrNotFound) | Some b \<Rightarrow> Inr b, db)"
proof -
  have "sqlBinding h k db = andThen (queryOne h (bindingQuery (hDialect h) k) (keepLast scanBinding) None) (foundOr ErrNotFound) db"
    by (simp add: sqlBinding_def)
  also have "\<dots> = (case m k of None \<Rightarrow> Inl (Ledger ErrNotFound) | Some b \<Rightarrow> Inr b, db)"
    by (rule binding_table.found_or [where m = m and tabs = tabs and columns = bindingCols])
      (use assms in \<open>simp_all add: binding_texts bindingSelectS_def bindingRow_def scan_binding\<close>)
  finally show ?thesis .
qed

lemma binding_version:
  "holdsMap bindingRow m (tabs db ''dist_binding'') \<Longrightarrow> answersSelect h tabs (bindingSelectS k) \<Longrightarrow>
   versionOr (sqlBinding h k) bVersion db = (Inr (map_option bVersion (m k)), db)"
  by (rule versionOr_found) (rule binding_lookup)

definition bindingGuards :: "binding \<Rightarrow> bool" where
  "bindingGuards b \<longleftrightarrow> userKeyValidate (bBuyer b) = None \<and> \<not> bAgentUserID b \<le> 0 \<and> bindSourceValid (bSource b)"

lemma sqlPutBinding_pattern:
  "bindingGuards b \<Longrightarrow> sqlPutBinding h b = putVersioned h ''binding'' (bindingUpdate (hDialect h) b)
     (versionOr (sqlBinding h (bBuyer b)) bVersion) (bindingInsert (hDialect h) b) (bVersion b) ''sqlstore: insert binding''
     (b\<lparr>bVersion := bVersion b + 1\<rparr>) (b\<lparr>bVersion := 1\<rparr>)"
  by (rule ext) (auto simp: sqlPutBinding_def putVersioned_def versionOr_def bindingGuards_def step_simps split: sum.split)

theorem put_binding_agrees:
  assumes held: "holdsMap bindingRow (dBindings (txD t)) (tabs db ''dist_binding'')"
    and answered: "answers h tabs [bindingUpdateS b, bindingSelectS (bBuyer b), bindingInsertS b]"
    and storable: "bID b = 0" "storable (bBoundAt b)" "storable (bExpireAt b)"
    and fits: "fitsValues ''dist_binding'' (bindingValues (b\<lparr>bVersion := bVersion b + 1\<rparr>))"
  shows "\<exists>db'. sqlPutBinding h b db = (asLedger (fst (PutBinding b t)), db') \<and>
    holdsMap bindingRow (dBindings (txD (snd (PutBinding b t)))) (tabs db' ''dist_binding'') \<and>
    (\<forall>n. n \<noteq> ''dist_binding'' \<longrightarrow> tabs db' n = tabs db n)"
proof (cases "bindingGuards b")
  case False
  then show ?thesis using held by (auto simp: sqlPutBinding_def PutBinding_def bindingGuards_def step_simps split: option.split)
next
  case True
  let ?k = "bBuyer b" and ?new = "b\<lparr>bVersion := bVersion b + 1\<rparr>"
  have row: "bindingRow ?k ?new r \<and> fitsTable ''dist_binding'' r" if "map r bindingCols = bindingValues ?new" for r
    using that True storable fits fitsTable_values [of r "''dist_binding''"]
    by (simp add: bindingRow_def bindingHeld_def bindingGuards_def columns_of)
  have vals: "map (updateRow as r) bindingCols = bindingValues ?new"
    if "bindingRow ?k v r" "bVersion v = bVersion b" "bindingUpdateS b = UpdateS T as cs" for v r T as cs
    using that bindingRow_cols [OF that(1)] by (auto simp: bindingUpdateS_def updateRow_def bindingCols_def bindingValues_def)
  obtain as where as: "bindingUpdateS b = UpdateS ''dist_binding'' as (userConds ''buyer_user_id'' ?k @ [CondEq ''version'' (SInt (bVersion b))])"
    by (simp add: bindingUpdateS_def)
  have "map (rowFrom bindingCols (bindingValues (b\<lparr>bVersion := 1\<rparr>))) bindingCols = bindingValues (b\<lparr>bVersion := 1\<rparr>)"
    by (rule map_rowFrom) (simp_all add: bindingCols_def bindingValues_def)
  then have "\<exists>db'. putVersioned h ''binding'' (stmtPieces (hDialect h) (bindingUpdateS b)) (versionOr (sqlBinding h ?k) bVersion)
        (insertInto (hDialect h) ''dist_binding'' bindingCols (bindingValues (b\<lparr>bVersion := 1\<rparr>))) (bVersion b)
        ''sqlstore: insert binding'' ?new (b\<lparr>bVersion := 1\<rparr>) db =
      (case checkVersion ''binding'' (bVersion b) (case dBindings (txD t) ?k of None \<Rightarrow> 0 | Some v \<Rightarrow> bVersion v) (dBindings (txD t) ?k \<noteq> None) of
         Some e \<Rightarrow> Inl (Ledger e) | None \<Rightarrow> Inr ?new, db') \<and>
    holdsMap bindingRow (case checkVersion ''binding'' (bVersion b) (case dBindings (txD t) ?k of None \<Rightarrow> 0 | Some v \<Rightarrow> bVersion v)
        (dBindings (txD t) ?k \<noteq> None) of Some e \<Rightarrow> dBindings (txD t) | None \<Rightarrow> (dBindings (txD t))(?k \<mapsto> ?new)) (tabs db' ''dist_binding'') \<and>
    (\<forall>x. x \<noteq> ''dist_binding'' \<longrightarrow> tabs db' x = tabs db x)"
    unfolding as
    using held answered bindingRow_cols row vals [OF _ _ as] binding_version
    by (intro binding_table.put_agrees [where m = "dBindings (txD t)" and tabs = tabs]) (auto simp: answers_def as bindingInsertS_def)
  then show ?thesis using True
    by (auto simp: sqlPutBinding_pattern binding_texts PutBinding_def bindingGuards_def Let_def change_def split: option.splits)
qed

end
