(* ===== verification/SqlAccounts.thy ===== *)
theory SqlAccounts
  imports SqlAgrees
begin

text \<open>
  Accounts in the two stores: \<open>IncrementAccount\<close> of the SQL store adds the delta in the database,
  under a guard on the buckets, and the in-memory store computes the new account; both return the same
  account and leave the same account behind.
\<close>

subsection \<open>Accounts\<close>

text \<open>
  The rows of accounts, up to \<open>updated_at\<close>: \<open>IncrementAccount\<close> stamps a new row with the clock of the
  SQL store, which the in-memory store does not do.
\<close>

definition accountRow :: "user_key \<Rightarrow> account \<Rightarrow> trow \<Rightarrow> bool" where
  "accountRow k a r \<longleftrightarrow> k = aKey a \<and> (\<exists>u. storable u \<and> map r accountCols = accountValues (a\<lparr>aUpdatedAt := u\<rparr>))"

lemma accountRow_cols:
  "accountRow k a r \<Longrightarrow> r ''tenant_id'' = SInt (ukTenantID k) \<and> r ''user_id'' = SInt (ukUserID k) \<and>
    r ''frozen'' = moneyVal (aFrozen a) \<and> r ''available'' = moneyVal (aAvailable a) \<and>
    r ''withdrawing'' = moneyVal (aWithdrawing a) \<and> r ''withdrawn'' = moneyVal (aWithdrawn a) \<and>
    r ''total_earned'' = moneyVal (aTotalEarned a) \<and> r ''total_reversed'' = moneyVal (aTotalReversed a) \<and>
    r ''version'' = SInt (aVersion a) \<and> (\<exists>u. storable u \<and> r ''updated_at'' = instantOrNull u)"
  by (auto simp: accountRow_def accountCols_def accountValues_def)

interpretation account_table: keyed_insert "''dist_account''" accountRow "userConds ''user_id''"
proof
  show "accountRow j v r \<Longrightarrow> matches (userConds ''user_id'' k) r \<longleftrightarrow> j = k" for j v r k
    using accountRow_cols [of j v r] user_key_eq [of j k] by (auto simp: matches_def userConds_def)
  show "accountRow j v r \<Longrightarrow> accountRow k w q \<Longrightarrow> collides ''dist_account'' q r \<Longrightarrow> j = k" for j v r k w q
    using accountRow_cols [of j v r] accountRow_cols [of k w q] user_key_eq [of j k] by (auto simp: collides_def unique_keys)
qed

definition accountSelectS :: "user_key \<Rightarrow> stmt" where
  "accountSelectS k = SelectS accountCols ''dist_account'' (userConds ''user_id'' k)"

definition accountInsertS :: "account \<Rightarrow> stmt" where
  "accountInsertS a = InsertS ''dist_account'' accountCols (accountValues (a\<lparr>aVersion := 1\<rparr>))"

definition incrementUpdateS :: "account_delta \<Rightarrow> stmt" where
  "incrementUpdateS delta = UpdateS ''dist_account''
     [SetSum ''frozen'' (dFrozen delta), SetSum ''available'' (dAvailable delta),
      SetSum ''withdrawing'' (dWithdrawing delta), SetSum ''withdrawn'' (dWithdrawn delta),
      SetSum ''total_earned'' (dTotalEarned delta), SetSum ''total_reversed'' (dTotalReversed delta), SetNext ''version'']
     (userConds ''user_id'' (dKey delta) @
      (if dRequireNonNegative delta
       then [CondSumNonneg ''frozen'' (dFrozen delta), CondSumNonneg ''available'' (dAvailable delta),
             CondSumNonneg ''withdrawing'' (dWithdrawing delta), CondSumNonneg ''withdrawn'' (dWithdrawn delta)]
       else []))"

lemma account_texts:
  "buildSQL d (accountQuery d k) [] = stmtSQL d (accountSelectS k)"
  "accountInsert d a at = insertInto d ''dist_account'' accountCols (accountValues (a\<lparr>aVersion := 1, aUpdatedAt := at\<rparr>))"
  "incrementUpdate d delta = stmtPieces d (incrementUpdateS delta)"
  by (simp_all add: accountQuery_def accountSelectS_def userConds_def stmtSQL_def selectFrom_def setTo_def argsAdd_def
      accountInsert_def accountValues_def incrementUpdate_def incrementUpdateS_def bumpVersion_def)

text \<open>An account read from the table is the one of the map, up to its last stamp.\<close>

definition sameAccount :: "account \<Rightarrow> account \<Rightarrow> bool" where
  "sameAccount a b \<longleftrightarrow> a\<lparr>aUpdatedAt := 0\<rparr> = b\<lparr>aUpdatedAt := 0\<rparr>"

lemma account_lookup:
  assumes held: "holdsMap accountRow m (tabs db ''dist_account'')" and sel: "answersSelect h tabs (accountSelectS k)"
  shows "case m k of None \<Rightarrow> lookupAccount h k db = (Inr None, db)
    | Some a \<Rightarrow> \<exists>u. lookupAccount h k db = (Inr (Some (a\<lparr>aUpdatedAt := u\<rparr>)), db)"
proof -
  have q: "queryOne h (accountQuery (hDialect h) k) (keepLast scanAccount) None db =
      (foldE (keepLast scanAccount) (map (\<lambda>r. map r accountCols) (filter (matches (userConds ''user_id'' k)) (tabs db ''dist_account''))) None, db)"
    by (rule queryOne_answered) (use sel in \<open>simp_all add: accountSelectS_def account_texts\<close>)
  show ?thesis
  proof (cases "m k")
    case None
    then show ?thesis using account_table.lookup_rows [OF held, of k] q by (simp add: lookupAccount_def)
  next
    case (Some a)
    then obtain r where r: "filter (matches (userConds ''user_id'' k)) (tabs db ''dist_account'') = [r]" "accountRow k a r"
      using account_table.lookup_rows [OF held, of k] by auto
    then obtain u where "storable u" "map r accountCols = accountValues (a\<lparr>aUpdatedAt := u\<rparr>)" by (auto simp: accountRow_def)
    then show ?thesis using Some q r(1) by (auto simp: lookupAccount_def keepLast_def scan_account)
  qed
qed

lemma fits_instant: "cdKind c = KindInstant \<Longrightarrow> \<not> cdNotNull c \<Longrightarrow> valueFits c (instantOrNull u)"
  by (simp add: valueFits_def instantOrNull_def unixNano_def)

lemma fits_stamp:
  "fitsValues ''dist_account'' (accountValues (a\<lparr>aUpdatedAt := u\<rparr>)) \<longleftrightarrow>
   fitsValues ''dist_account'' (accountValues (a\<lparr>aUpdatedAt := u'\<rparr>))"
  by (simp add: fitsValues_def accountValues_def account_columns tableAccountDef_def fits_instant)

text \<open>What an increment does to a row, and what its guard asks of it.\<close>

lemma increment_row:
  assumes row: "accountRow k v r" and applied: "deltaApply delta v = Inr a" and as: "incrementUpdateS delta = UpdateS T as cs"
    and fits: "fitsValues ''dist_account'' (accountValues (a\<lparr>aVersion := aVersion v + 1, aUpdatedAt := 0\<rparr>))"
  shows "accountRow k (a\<lparr>aVersion := aVersion v + 1\<rparr>) (updateRow as r) \<and> fitsTable ''dist_account'' (updateRow as r)"
proof -
  note d = deltaApply_InrD [OF applied]
  obtain u where u: "storable u" "r ''updated_at'' = instantOrNull u" using accountRow_cols [OF row] by blast
  have vals: "map (updateRow as r) accountCols = accountValues (a\<lparr>aVersion := aVersion v + 1, aUpdatedAt := u\<rparr>)"
    using accountRow_cols [OF row] as u(2) row d(7) d(2) [of BucketFrozen] d(2) [of BucketAvailable] d(2) [of BucketWithdrawing]
      d(2) [of BucketWithdrawn] d(3,4)
    by (auto simp: incrementUpdateS_def updateRow_def accountCols_def accountValues_def moneyVal_def accountRow_def)
  have "fitsValues ''dist_account'' (accountValues (a\<lparr>aVersion := aVersion v + 1, aUpdatedAt := u\<rparr>))"
    using fits by (simp add: fits_stamp [where u = u and u' = 0])
  then show ?thesis using vals u(1) fitsTable_values [of "updateRow as r" "''dist_account''"] row d(7)
    by (auto simp: accountRow_def columns_of)
qed

lemma increment_guard:
  assumes row: "accountRow k v r" and applied: "deltaApply delta v = Inr a"
    and guard: "incrementUpdateS delta = UpdateS T as (userConds ''user_id'' (dKey delta) @ guard)"
  shows "matches guard r \<longleftrightarrow> \<not> (dRequireNonNegative delta \<and> NegativeBuckets a \<noteq> [])"
proof -
  have "matches guard r \<longleftrightarrow> (dRequireNonNegative delta \<longrightarrow> (\<forall>b. 0 \<le> sint (bucketValue b v) + sint (deltaOf b delta)))"
    using accountRow_cols [OF row] guard
    by (auto simp: incrementUpdateS_def userConds_def matches_def moneyVal_def all_buckets split: if_splits)
  then show ?thesis using deltaApply_InrD(2) [OF applied] NegativeBuckets_Nil [of a] by simp
qed

lemma deltaApply_stamp:
  "deltaApply delta (a\<lparr>aUpdatedAt := u\<rparr>) =
     (case deltaApply delta a of Inl e \<Rightarrow> Inl e | Inr x \<Rightarrow> Inr (x\<lparr>aUpdatedAt := u\<rparr>))"
  by (auto simp: deltaApply_def split: sum.splits)

lemma NegativeBuckets_stamp: "NegativeBuckets (a\<lparr>aUpdatedAt := u\<rparr>) = NegativeBuckets a"
proof -
  have "bucketValue b (a\<lparr>aUpdatedAt := u\<rparr>) = bucketValue b a" for b by (cases b) simp_all
  then show ?thesis by (simp add: NegativeBuckets_def)
qed

lemma NegativeBuckets_version: "NegativeBuckets (a\<lparr>aVersion := n\<rparr>) = NegativeBuckets a"
proof -
  have "bucketValue b (a\<lparr>aVersion := n\<rparr>) = bucketValue b a" for b by (cases b) simp_all
  then show ?thesis by (simp add: NegativeBuckets_def)
qed

text \<open>An increment of an account that has a row.\<close>

lemma increment_found:
  fixes h :: "'db tx_handle"
  assumes held: "holdsMap accountRow m (tabs db ''dist_account'')" and acct: "m (dKey delta) = Some v"
    and applied: "deltaApply delta v = Inr a"
    and upd: "answersUpdate h tabs (incrementUpdateS delta)" and sel: "answersSelect h tabs (accountSelectS (dKey delta))"
    and fits: "fitsValues ''dist_account'' (accountValues (a\<lparr>aVersion := aVersion v + 1, aUpdatedAt := 0\<rparr>))"
  shows "\<exists>db' u. incrementFrom h now delta 0 db =
      (if dRequireNonNegative delta \<and> NegativeBuckets a \<noteq> [] then Inl (Ledger ErrInsufficientBalance)
       else Inr (a\<lparr>aVersion := aVersion v + 1, aUpdatedAt := u\<rparr>), db') \<and>
    holdsMap accountRow (if dRequireNonNegative delta \<and> NegativeBuckets a \<noteq> [] then m
       else m(dKey delta \<mapsto> a\<lparr>aVersion := aVersion v + 1\<rparr>)) (tabs db' ''dist_account'') \<and>
    (\<forall>n. n \<noteq> ''dist_account'' \<longrightarrow> tabs db' n = tabs db n)"
proof -
  let ?k = "dKey delta" and ?new = "a\<lparr>aVersion := aVersion v + 1\<rparr>"
  let ?Q = "\<not> (dRequireNonNegative delta \<and> NegativeBuckets a \<noteq> [])"
  obtain as guard where as: "incrementUpdateS delta = UpdateS ''dist_account'' as (userConds ''user_id'' ?k @ guard)"
    by (simp add: incrementUpdateS_def)
  obtain db1 where u: "updateVersioned h (stmtPieces (hDialect h) (UpdateS ''dist_account'' as (userConds ''user_id'' ?k @ guard))) db =
      (Inr (if \<exists>w. m ?k = Some w \<and> ?Q then 1 else 0), db1)"
    "\<And>n. n \<noteq> ''dist_account'' \<Longrightarrow> tabs db1 n = tabs db n"
    "holdsMap accountRow (case m ?k of Some w \<Rightarrow> if ?Q then m(?k \<mapsto> ?new) else m | None \<Rightarrow> m) (tabs db1 ''dist_account'')"
    by (rule account_table.guarded_update [where m = m and tabs = tabs and db = db and h = h and as = as and k = ?k
          and guard = guard and Q = "\<lambda>_. ?Q" and upd = "\<lambda>_. ?new"])
      (use held upd as acct increment_row [OF _ applied as fits] increment_guard [OF _ applied as] in auto)
  have look: "case (if ?Q then Some ?new else Some v) of None \<Rightarrow> lookupAccount h ?k db1 = (Inr None, db1)
    | Some x \<Rightarrow> \<exists>u. lookupAccount h ?k db1 = (Inr (Some (x\<lparr>aUpdatedAt := u\<rparr>)), db1)"
    using account_lookup [OF u(3) sel] acct by (cases ?Q) simp_all
  show ?thesis
  proof (cases ?Q)
    case True
    obtain w where "lookupAccount h ?k db1 = (Inr (Some (?new\<lparr>aUpdatedAt := w\<rparr>)), db1)" using look True by auto
    then have "incrementFrom h now delta 0 db = (Inr (?new\<lparr>aUpdatedAt := w\<rparr>), db1)"
      using u(1) acct True by (subst incrementFrom.simps) (simp add: account_texts as step_simps)
    then show ?thesis using u(2,3) acct True by (intro exI [of _ db1] exI [of _ w]) auto
  next
    case False
    then obtain w where "lookupAccount h ?k db1 = (Inr (Some (v\<lparr>aUpdatedAt := w\<rparr>)), db1)" using look by auto
    then have "incrementFrom h now delta 0 db = (Inl (Ledger ErrInsufficientBalance), db1)"
      using u(1) acct False applied
      by (subst incrementFrom.simps) (simp add: account_texts as step_simps deltaApply_stamp NegativeBuckets_stamp)
    then show ?thesis using u(2,3) acct False by (intro exI [of _ db1]) auto
  qed
qed

text \<open>An increment of an account that has none.\<close>

lemma increment_missing:
  fixes h :: "'db tx_handle"
  assumes held: "holdsMap accountRow m (tabs db ''dist_account'')" and acct: "m (dKey delta) = None"
    and applied: "deltaApply delta (zeroAccount\<lparr>aKey := dKey delta\<rparr>) = Inr a"
    and upd: "answersUpdate h tabs (incrementUpdateS delta)" and sel: "answersSelect h tabs (accountSelectS (dKey delta))"
    and ins: "answersInsert h tabs (accountInsertS (a\<lparr>aUpdatedAt := now\<rparr>))" and now: "storable now"
    and fits: "fitsValues ''dist_account'' (accountValues (a\<lparr>aVersion := 1, aUpdatedAt := 0\<rparr>))"
  shows "\<exists>db'. incrementFrom h now delta 0 db =
      (if dRequireNonNegative delta \<and> NegativeBuckets a \<noteq> [] then Inl (Ledger ErrInsufficientBalance)
       else Inr (a\<lparr>aVersion := 1\<rparr>), db') \<and>
    holdsMap accountRow (if dRequireNonNegative delta \<and> NegativeBuckets a \<noteq> [] then m
       else m(dKey delta \<mapsto> a\<lparr>aVersion := 1\<rparr>)) (tabs db' ''dist_account'') \<and>
    (\<forall>n. n \<noteq> ''dist_account'' \<longrightarrow> tabs db' n = tabs db n)"
proof -
  let ?k = "dKey delta" and ?vals = "accountValues (a\<lparr>aVersion := 1, aUpdatedAt := now\<rparr>)"
  obtain as guard where as: "incrementUpdateS delta = UpdateS ''dist_account'' as (userConds ''user_id'' ?k @ guard)"
    by (simp add: incrementUpdateS_def)
  obtain db1 where u: "updateVersioned h (stmtPieces (hDialect h) (UpdateS ''dist_account'' as (userConds ''user_id'' ?k @ guard))) db =
      (Inr (if \<exists>w. m ?k = Some w \<and> False then 1 else 0), db1)"
    "\<And>n. n \<noteq> ''dist_account'' \<Longrightarrow> tabs db1 n = tabs db n"
    "holdsMap accountRow (case m ?k of Some w \<Rightarrow> if False then m(?k \<mapsto> w) else m | None \<Rightarrow> m) (tabs db1 ''dist_account'')"
    by (rule account_table.guarded_update [where m = m and tabs = tabs and db = db and h = h and as = as and k = ?k
          and guard = guard and Q = "\<lambda>_. False" and upd = "\<lambda>w. w"]) (use held upd as acct in auto)
  have look: "lookupAccount h ?k db1 = (Inr None, db1)"
    using account_lookup [where m = m and tabs = tabs and db = db1, OF _ sel] u(3) acct by simp
  show ?thesis
  proof (cases "dRequireNonNegative delta \<and> NegativeBuckets a \<noteq> []")
    case True
    then have "incrementFrom h now delta 0 db = (Inl (Ledger ErrInsufficientBalance), db1)"
      using u(1) acct look applied by (subst incrementFrom.simps) (simp add: account_texts as step_simps)
    then show ?thesis using u(2,3) acct True by (intro exI [of _ db1]) auto
  next
    case False
    have row: "map (rowFrom accountCols ?vals) accountCols = ?vals"
      by (rule map_rowFrom) (simp_all add: accountCols_def accountValues_def)
    have new: "accountRow ?k (a\<lparr>aVersion := 1\<rparr>) (rowFrom accountCols ?vals)"
      using row now deltaApply_InrD(7) [OF applied] by (auto simp: accountRow_def intro!: exI [of _ now])
    have fit: "fitsTable ''dist_account'' (rowFrom accountCols ?vals)"
      using row fits by (simp add: fitsTable_values columns_of fits_stamp [where u = now and u' = 0])
    have ins': "answersInsert h tabs (InsertS ''dist_account'' accountCols ?vals)"
      using ins by (simp add: accountInsertS_def accountValues_def)
    obtain db2 where stored: "execInsert h (insertInto (hDialect h) ''dist_account'' accountCols ?vals) db1 = (Inr True, db2)"
      "\<And>n. n \<noteq> ''dist_account'' \<Longrightarrow> tabs db2 n = tabs db1 n"
      "holdsMap accountRow (m(?k \<mapsto> a\<lparr>aVersion := 1\<rparr>)) (tabs db2 ''dist_account'')"
      by (rule account_table.insert_row [where m = m and tabs = tabs and db = db1 and h = h and columns = accountCols
            and vals = ?vals and k = ?k and v = "a\<lparr>aVersion := 1\<rparr>"])
        (use u(3) acct ins' new fit in simp_all)
    have "incrementFrom h now delta 0 db = (Inr (a\<lparr>aVersion := 1\<rparr>), db2)"
      using u(1) acct look applied False stored(1)
      by (subst incrementFrom.simps) (simp add: account_texts as step_simps)
    then show ?thesis using u(2) stored(2,3) False by (intro exI [of _ db2]) auto
  qed
qed

text \<open>Both at once: the account before the increment is the stored one or a zero account.\<close>

definition accountBefore :: "(user_key \<rightharpoonup> account) \<Rightarrow> user_key \<Rightarrow> account" where
  "accountBefore m k = (case m k of None \<Rightarrow> zeroAccount\<lparr>aKey := k\<rparr> | Some v \<Rightarrow> v)"

lemma increment_run:
  fixes h :: "'db tx_handle"
  assumes held: "holdsMap accountRow m (tabs db ''dist_account'')"
    and applied: "deltaApply delta (accountBefore m (dKey delta)) = Inr a"
    and answered: "answers h tabs [incrementUpdateS delta, accountSelectS (dKey delta), accountInsertS (a\<lparr>aUpdatedAt := now\<rparr>)]"
    and now: "storable now"
    and fits: "fitsValues ''dist_account'' (accountValues (a\<lparr>aVersion := aVersion a + 1, aUpdatedAt := 0\<rparr>))"
  shows "\<exists>db' u. incrementFrom h now delta 0 db =
      (if dRequireNonNegative delta \<and> NegativeBuckets a \<noteq> [] then Inl (Ledger ErrInsufficientBalance)
       else Inr (a\<lparr>aVersion := aVersion a + 1, aUpdatedAt := u\<rparr>), db') \<and>
    holdsMap accountRow (if dRequireNonNegative delta \<and> NegativeBuckets a \<noteq> [] then m
       else m(dKey delta \<mapsto> a\<lparr>aVersion := aVersion a + 1\<rparr>)) (tabs db' ''dist_account'') \<and>
    (\<forall>n. n \<noteq> ''dist_account'' \<longrightarrow> tabs db' n = tabs db n)"
proof -
  have ans: "answersUpdate h tabs (incrementUpdateS delta)" "answersSelect h tabs (accountSelectS (dKey delta))"
    "answersInsert h tabs (accountInsertS (a\<lparr>aUpdatedAt := now\<rparr>))" using answered by (simp_all add: answers_def)
  have version: "aVersion a = aVersion (accountBefore m (dKey delta))" by (rule deltaApply_InrD(8) [OF applied])
  show ?thesis
  proof (cases "m (dKey delta)")
    case (Some v)
    have v: "deltaApply delta v = Inr a" using applied Some by (simp add: accountBefore_def)
    have ver: "aVersion a = aVersion v" by (rule deltaApply_InrD(8) [OF v])
    show ?thesis
      using increment_found [where m = m and tabs = tabs and db = db and h = h and v = v and a = a and delta = delta and now = now,
          OF held Some v ans(1,2) fits [unfolded ver]]
      unfolding ver .
  next
    case None
    then have a: "deltaApply delta (zeroAccount\<lparr>aKey := dKey delta\<rparr>) = Inr a" using applied by (simp add: accountBefore_def)
    have ver: "aVersion a = 0" using deltaApply_InrD(8) [OF a] by (simp add: zeroAccount_def)
    have fits0: "fitsValues ''dist_account'' (accountValues (a\<lparr>aVersion := 1, aUpdatedAt := 0\<rparr>))" using fits ver by simp
    have same: "a\<lparr>aVersion := 1, aUpdatedAt := aUpdatedAt a\<rparr> = a\<lparr>aVersion := 1\<rparr>" by simp
    from increment_missing [where m = m and tabs = tabs and db = db and h = h and a = a and delta = delta and now = now,
        OF held None a ans now fits0]
    show ?thesis
      unfolding ver add_0
    proof (elim exE conjE, goal_cases)
      case (1 db')
      show ?case
        by (rule exI [of _ db'], rule exI [of _ "aUpdatedAt a"], unfold same, intro conjI) (fact 1)+
    qed
  qed
qed

text \<open>The increment of the in-memory store.\<close>

lemma IncrementAccount_run:
  assumes "userKeyValidate (dKey delta) = None" "deltaApply delta ((accountOf (txD t) (dKey delta))\<lparr>aKey := dKey delta\<rparr>) = Inr a"
  shows "fst (IncrementAccount delta t) = (if dRequireNonNegative delta \<and> NegativeBuckets a \<noteq> []
       then Inl ErrInsufficientBalance else Inr (a\<lparr>aVersion := aVersion a + 1\<rparr>))"
    "dAccounts (txD (snd (IncrementAccount delta t))) = (if dRequireNonNegative delta \<and> NegativeBuckets a \<noteq> []
       then dAccounts (txD t) else (dAccounts (txD t))(dKey delta \<mapsto> a\<lparr>aVersion := aVersion a + 1\<rparr>))"
proof -
  have "aKey a = dKey delta" using deltaApply_InrD(7) [OF assms(2)] by simp
  then show "fst (IncrementAccount delta t) = (if dRequireNonNegative delta \<and> NegativeBuckets a \<noteq> []
       then Inl ErrInsufficientBalance else Inr (a\<lparr>aVersion := aVersion a + 1\<rparr>))"
    "dAccounts (txD (snd (IncrementAccount delta t))) = (if dRequireNonNegative delta \<and> NegativeBuckets a \<noteq> []
       then dAccounts (txD t) else (dAccounts (txD t))(dKey delta \<mapsto> a\<lparr>aVersion := aVersion a + 1\<rparr>))"
    using assms by (auto simp: IncrementAccount_def storeAccount_def Let_def insertAccountID_def change_def)
qed

lemma account_before:
  assumes "holdsMap accountRow (dAccounts d) rows"
  shows "(accountOf d k)\<lparr>aKey := k\<rparr> = accountBefore (dAccounts d) k"
proof -
  have "aKey v = k" if "dAccounts d k = Some v" for v
    using holdsMap_entry [OF assms that] by (auto simp: accountRow_def)
  then show ?thesis by (auto simp: accountOf_def accountBefore_def split: option.split)
qed

text \<open>Results that agree up to the last stamp of an account.\<close>

definition sameResult :: "dberr + account \<Rightarrow> dberr + account \<Rightarrow> bool" where
  "sameResult r s \<longleftrightarrow> (case (r, s) of
      (Inr a, Inr b) \<Rightarrow> sameAccount a b
    | (Inl e, Inl f) \<Rightarrow> e = f
    | _ \<Rightarrow> False)"


definition heldDelta :: account_delta where
  "heldDelta = zeroDelta\<lparr>dKey := UserKey 1 10, dAvailable := 500, dTotalEarned := 500, dRequireNonNegative := True\<rparr>"

definition heldSeed :: account where
  "heldSeed = zeroAccount\<lparr>aKey := UserKey 1 10, aAvailable := 500, aTotalEarned := 500\<rparr>"


end
