(* ===== verification/SqlFits.thy ===== *)
theory SqlFits
  imports SqlAccounts
begin

text \<open>
  The schema and the writers: which rows the inserts of the SQL store bind, and when these rows fit the
  columns of store/sql/schema.go. Kinds and NOT NULL always agree; what remains is that whole numbers are
  in the range of 64 bits, which Go's types give, and that texts are within the declared lengths.
\<close>

subsection \<open>The insert of a commission\<close>

text \<open>
  \<open>AppendCommission\<close> writes the insert with all columns and then cuts the first occurrence of the id
  column out of the text. In the three dialects this is the insert without the id column.
\<close>

lemma buildSQL_text: "fst (buildSQL d (Lit t # ps) vals) = t @ fst (buildSQL d ps vals)"
  by (simp split: prod.split)

lemma replaceFirst_prefix:
  "list_all (\<lambda>i. take (length old) (drop i (pre @ old)) \<noteq> old) [0..<length pre] \<Longrightarrow>
   replaceFirst old [] (pre @ old @ s) = pre @ s"
proof (induction pre)
  case Nil
  show ?case
  proof (cases "old @ s")
    case Nil
    then show ?thesis by simp
  next
    case (Cons a l)
    then have "take (length old) (a # l) = old" "drop (length old) (a # l) = s" by (metis append_eq_conv_conj)+
    then show ?thesis using Cons by simp
  qed
next
  case (Cons c pre)
  have "list_all (\<lambda>i. take (length old) (drop i (pre @ old)) \<noteq> old) [0..<length pre]"
    unfolding list_all_iff
  proof
    fix i assume "i \<in> set [0..<length pre]"
    then have "Suc i \<in> set [0..<length (c # pre)]" by auto
    then have "take (length old) (drop (Suc i) ((c # pre) @ old)) \<noteq> old" using Cons.prems by (simp only: list_all_iff) blast
    then show "take (length old) (drop i (pre @ old)) \<noteq> old" by simp
  qed
  then have "replaceFirst old [] (pre @ old @ s) = pre @ s" by (rule Cons.IH)
  moreover have "take (length old) ((c # pre) @ old) \<noteq> old"
    using Cons.prems unfolding list_all_iff by (metis atLeastLessThan_iff drop0 length_Cons set_upt zero_le zero_less_Suc)
  moreover have "take (length old) (((c # pre) @ old) @ s) = take (length old) ((c # pre) @ old)"
    by (simp only: take_append [of _ "(c # pre) @ old" s]) simp
  ultimately show ?case by simp
qed

definition dialectOf :: "(gerror \<Rightarrow> string) \<Rightarrow> dialect \<Rightarrow> bool" where
  "dialectOf say d \<longleftrightarrow> d = mysql say \<or> d = postgres say \<or> d = sqlite say"

lemma commission_insert_text:
  assumes "dialectOf say d"
  shows "replaceFirst (cols d [''id''] @ '', '') [] (fst (buildSQL d (insertInto d ''dist_commission'' commissionCols vals) [])) =
     fst (buildSQL d (insertInto d ''dist_commission'' (tl commissionCols) vals) [])"
proof -
  let ?pre = "''INSERT INTO '' @ tableName d ''dist_commission'' @ '' (''" and ?old = "cols d [''id''] @ '', ''"
  have columns: "cols d commissionCols = cols d [''id''] @ '', '' @ cols d (tl commissionCols)"
    by (simp add: cols_def commissionCols_def)
  have "?old = ''`id`, '' \<and> ?pre = ''INSERT INTO `dist_commission` ('' \<or>
      ?old = [CHR 0x22] @ ''id'' @ [CHR 0x22] @ '', '' \<and>
      ?pre = ''INSERT INTO '' @ [CHR 0x22] @ ''dist_commission'' @ [CHR 0x22] @ '' (''"
    using assms by (auto simp: dialectOf_def cols_def tableName_def mysql_def postgres_def sqlite_def mysqlQuote_def
        postgresQuote_def sqliteQuote_def doubleChar_def)
  then have "list_all (\<lambda>i. take (length ?old) (drop i (?pre @ ?old)) \<noteq> ?old) [0..<length ?pre]"
    by (elim disjE conjE; simp only:; simp add: upt_rec)
  note cut = replaceFirst_prefix [OF this]
  let ?rest = "cols d (tl commissionCols) @ '') VALUES ('' @ fst (buildSQL d (bindList vals @ [Lit '')'']) [])"
  have "fst (buildSQL d (insertInto d ''dist_commission'' commissionCols vals) []) = ?pre @ ?old @ ?rest"
    by (simp add: insertInto_def buildSQL_text columns del: buildSQL.simps)
  moreover have "fst (buildSQL d (insertInto d ''dist_commission'' (tl commissionCols) vals) []) = ?pre @ ?rest"
    by (simp add: insertInto_def buildSQL_text del: buildSQL.simps)
  ultimately show ?thesis by (simp only: cut)
qed

subsection \<open>Rows that fit\<close>

text \<open>The whole numbers a row binds, besides amounts and instants, which are 64 bits wide by themselves.\<close>

definition agentInts :: "agent \<Rightarrow> int list" where
  "agentInts a = [ukTenantID (agKey a), ukUserID (agKey a), agParentID a, agDepth a, agentStatusCode (agStatus a),
     joinTypeCode (agJoinType a)] @ (case agRateOverrideBP a of None \<Rightarrow> [] | Some r \<Rightarrow> [r])"

definition bindingInts :: "binding \<Rightarrow> int list" where
  "bindingInts b = [ukTenantID (bBuyer b), ukUserID (bBuyer b), bAgentUserID b, bindSourceCode (bSource b), bReboundFrom b]"

definition commissionInts :: "commission \<Rightarrow> int list" where
  "commissionInts c = [okTenantID (cKey c), cBuyerUserID c, cAgentUserID c, cLayer c, cRate c, commissionStateCode (cState c),
     cFreezeDays c, cRuleVersion c, cReverseOf c]"

definition ledgerInts :: "ledger_entry \<Rightarrow> int list" where
  "ledgerInts e = [ukTenantID (leKey e), ukUserID (leKey e), ledgerBizCode (leBizType e)]"

definition withdrawalInts :: "withdrawal \<Rightarrow> int list" where
  "withdrawalInts w = [ukTenantID (wKey w), ukUserID (wKey w), withdrawalStateCode (wState w)]"

named_theorems fit_simps "when a value fits a column"

lemma fits_int [fit_simps]: "valueFits (ColumnDef n KindInt64 z nn e) (SInt i) \<longleftrightarrow> in64 i"
  and fits_text [fit_simps]: "valueFits (ColumnDef n KindString z nn e) (SText s) \<longleftrightarrow> int (length s) \<le> z"
  and fits_nullable [fit_simps]: "valueFits (ColumnDef n KindString z False e) (nullableString s) \<longleftrightarrow> s = [] \<or> int (length s) \<le> z"
  and fits_money [fit_simps]: "valueFits (ColumnDef n KindInt64 z nn e) (moneyVal m)"
  and fits_when [fit_simps]: "valueFits (ColumnDef n KindInstant z False e) (instantOrNull t)"
  and fits_rate [fit_simps]: "valueFits (ColumnDef n KindInt64 z False e) (rateOverride a) \<longleftrightarrow>
    (case agRateOverrideBP a of None \<Rightarrow> True | Some r \<Rightarrow> in64 r)"
  and fits_one [fit_simps]: "in64 0" "in64 1" "in64 (boolInt b)"
  by (auto simp: valueFits_def nullableString_def moneyVal_def instantOrNull_def unixNano_def boolInt_def rateOverride_def
      split: option.split) (simp_all add: in64_def)

lemma rowFrom_Cons: "rowFrom (c # cs) (v # vals) = (rowFrom cs vals)(c := v)"
  by (auto simp: rowFrom_def)

named_theorems row_defs "the columns of the tables and the values bound to them"

lemmas row_columns [row_defs] =
  agentCols_def bindingCols_def accountCols_def commissionCols_def ledgerCols_def refundCols_def withdrawalCols_def

lemmas row_values_defs [row_defs] =
  agentValues_def bindingValues_def accountValues_def commissionRowValues_def ledgerValues_def refundValues_def withdrawalValues_def

lemmas row_tables [row_defs] =
  tableAgentDef_def tableBindingDef_def tableAccountDef_def tableCommissionDef_def tableLedgerDef_def tableRefundDef_def
  tableWithdrawDef_def

lemmas row_sizes [row_defs] =
  sizeOrderID_def sizeItemID_def sizeIdemKey_def sizeRemark_def sizeChannel_def sizeSourceRef_def

lemmas fits_rows = fitsTable_def agent_columns account_columns table_columns rowFrom_Cons fit_simps row_defs

lemma agent_fits: "fitsTable ''dist_agent'' (rowFrom agentCols (agentValues (a\<lparr>agVersion := 1\<rparr>))) \<longleftrightarrow> list_all in64 (agentInts a)"
  by (auto simp: fits_rows agentInts_def split: option.split)

lemma binding_fits:
  "fitsTable ''dist_binding'' (rowFrom bindingCols (bindingValues (b\<lparr>bVersion := 1\<rparr>))) \<longleftrightarrow>
   list_all in64 (bindingInts b) \<and> length (bSourceRef b) \<le> 128"
  by (auto simp: fits_rows bindingInts_def)

lemma account_fits:
  "fitsTable ''dist_account'' (rowFrom accountCols (accountValues (a\<lparr>aVersion := 1\<rparr>))) \<longleftrightarrow>
   in64 (ukTenantID (aKey a)) \<and> in64 (ukUserID (aKey a))"
  by (auto simp: fits_rows)

lemma commission_fits:
  "fitsTable ''dist_commission'' (rowFrom (tl commissionCols) (commissionValues c)) \<longleftrightarrow>
   list_all in64 (commissionInts c) \<and> length (okOrderID (cKey c)) \<le> 64 \<and> length (cOrderItemID c) \<le> 128 \<and>
   length (cIdemKey c) \<le> 64 \<and> length (cRuleSnapshot c) \<le> 256"
  by (auto simp: fits_rows commissionInts_def commissionValues_def)

lemma ledger_fits:
  "fitsTable ''dist_ledger'' (rowFrom (tl ledgerCols) (tl (ledgerValues e))) \<longleftrightarrow>
   list_all in64 (ledgerInts e) \<and> length (leBizID e) \<le> 64 \<and> length (leRemark e) \<le> 256"
  by (auto simp: fits_rows ledgerInts_def)

lemma refund_fits:
  "fitsTable ''dist_refund'' (rowFrom (tl refundCols) (tl (refundValues r))) \<longleftrightarrow>
   in64 (okTenantID (rfKey r)) \<and> length (okOrderID (rfKey r)) \<le> 64 \<and> length (rfItemID r) \<le> 128 \<and> length (rfIdemKey r) \<le> 64"
  by (auto simp: fits_rows)

lemma withdrawal_fits:
  "fitsTable ''dist_withdraw'' (rowFrom (tl withdrawalCols) (tl (withdrawalValues (w\<lparr>wVersion := 1\<rparr>)))) \<longleftrightarrow>
   list_all in64 (withdrawalInts w) \<and> length (wIdemKey w) \<le> 64 \<and> length (wChannel w) \<le> 64 \<and>
   length (wAccountInfo w) \<le> 256 \<and> length (wFailReason w) \<le> 256 \<and> length (wInvoiceNo w) \<le> 256 \<and>
   length (wOperator w) \<le> 256"
  by (auto simp: fits_rows withdrawalInts_def)

lemma insert_texts:
  "ledgerInsert d e = insertInto d ''dist_ledger'' (tl ledgerCols) (tl (ledgerValues e))"
  "refundInsert d r = insertInto d ''dist_refund'' (tl refundCols) (tl (refundValues r))"
  "withdrawalInsert d w = insertInto d ''dist_withdraw'' (tl withdrawalCols) (tl (withdrawalValues (w\<lparr>wVersion := 1\<rparr>)))"
  by (simp_all add: ledgerInsert_def ledgerCols_def ledgerValues_def refundInsert_def refundCols_def refundValues_def
      withdrawalInsert_def withdrawalCols_def withdrawalValues_def tableWithdraw_def)

text \<open>
  C22. The rows the SQL store inserts are well typed for its schema. Every insert binds, for the columns of
  its table other than a generated id, values of the columns' kinds, and never NULL where the schema says NOT
  NULL; whether a row fits depends on nothing but the range of its whole numbers, which is 64 bits, and, for
  texts, the declared lengths: an order id of 64 bytes, an item id of 128, an idempotency key of 64, a
  source reference of 128, a channel of 64, and remarks, the rule snapshot, account information, fail
  reasons, invoice numbers and operators of 256 bytes.
\<close>

theorem inserts_fit_schema:
  "agentInsert d a = insertInto d ''dist_agent'' agentCols (agentValues (a\<lparr>agVersion := 1\<rparr>)) \<and>
   (fitsTable ''dist_agent'' (rowFrom agentCols (agentValues (a\<lparr>agVersion := 1\<rparr>))) \<longleftrightarrow> list_all in64 (agentInts a)) \<and>
   bindingInsert d b = insertInto d ''dist_binding'' bindingCols (bindingValues (b\<lparr>bVersion := 1\<rparr>)) \<and>
   (fitsTable ''dist_binding'' (rowFrom bindingCols (bindingValues (b\<lparr>bVersion := 1\<rparr>))) \<longleftrightarrow>
     list_all in64 (bindingInts b) \<and> length (bSourceRef b) \<le> 128) \<and>
   accountInsert d acct (aUpdatedAt acct) = insertInto d ''dist_account'' accountCols (accountValues (acct\<lparr>aVersion := 1\<rparr>)) \<and>
   (fitsTable ''dist_account'' (rowFrom accountCols (accountValues (acct\<lparr>aVersion := 1\<rparr>))) \<longleftrightarrow>
     list_all in64 [ukTenantID (aKey acct), ukUserID (aKey acct)]) \<and>
   (fitsTable ''dist_commission'' (rowFrom (tl commissionCols) (commissionValues c)) \<longleftrightarrow>
     list_all in64 (commissionInts c) \<and> length (okOrderID (cKey c)) \<le> 64 \<and> length (cOrderItemID c) \<le> 128 \<and>
     length (cIdemKey c) \<le> 64 \<and> length (cRuleSnapshot c) \<le> 256) \<and>
   ledgerInsert d e = insertInto d ''dist_ledger'' (tl ledgerCols) (tl (ledgerValues e)) \<and>
   (fitsTable ''dist_ledger'' (rowFrom (tl ledgerCols) (tl (ledgerValues e))) \<longleftrightarrow>
     list_all in64 (ledgerInts e) \<and> length (leBizID e) \<le> 64 \<and> length (leRemark e) \<le> 256) \<and>
   refundInsert d r = insertInto d ''dist_refund'' (tl refundCols) (tl (refundValues r)) \<and>
   (fitsTable ''dist_refund'' (rowFrom (tl refundCols) (tl (refundValues r))) \<longleftrightarrow>
     in64 (okTenantID (rfKey r)) \<and> length (okOrderID (rfKey r)) \<le> 64 \<and> length (rfItemID r) \<le> 128 \<and>
     length (rfIdemKey r) \<le> 64) \<and>
   withdrawalInsert d w = insertInto d ''dist_withdraw'' (tl withdrawalCols) (tl (withdrawalValues (w\<lparr>wVersion := 1\<rparr>))) \<and>
   (fitsTable ''dist_withdraw'' (rowFrom (tl withdrawalCols) (tl (withdrawalValues (w\<lparr>wVersion := 1\<rparr>)))) \<longleftrightarrow>
     list_all in64 (withdrawalInts w) \<and> length (wIdemKey w) \<le> 64 \<and> length (wChannel w) \<le> 64 \<and>
     length (wAccountInfo w) \<le> 256 \<and> length (wFailReason w) \<le> 256 \<and> length (wInvoiceNo w) \<le> 256 \<and>
     length (wOperator w) \<le> 256)"
  using agent_fits binding_fits account_fits commission_fits ledger_fits refund_fits withdrawal_fits insert_texts
    agent_texts(3) binding_texts(3) account_texts(2) [of d acct "aUpdatedAt acct"]
  by simp

subsection \<open>Rows read back\<close>

lemma map_rowFrom_id:
  assumes "distinct cs" "length (tl cs) = length vals" "cs = ''id'' # tl cs"
  shows "map ((rowFrom (tl cs) vals)(''id'' := v)) cs = v # vals"
proof -
  have "distinct (''id'' # tl cs)" using assms(1,3) by simp
  then have "''id'' \<notin> set (tl cs)" "distinct (tl cs)" by simp_all
  then have "map ((rowFrom (tl cs) vals)(''id'' := v)) (tl cs) = map (rowFrom (tl cs) vals) (tl cs)"
    by (intro map_cong) auto
  also have "\<dots> = vals" by (rule map_rowFrom) (use \<open>distinct (tl cs)\<close> assms(2) in simp_all)
  finally have "map ((rowFrom (tl cs) vals)(''id'' := v)) (tl cs) = vals" .
  then have "map ((rowFrom (tl cs) vals)(''id'' := v)) (''id'' # tl cs) = v # vals" by simp
  then show ?thesis using assms(3) by simp
qed

lemma rows_of_inserts:
  "map (rowFrom agentCols (agentValues a)) agentCols = agentValues a"
  "map (rowFrom bindingCols (bindingValues b)) bindingCols = bindingValues b"
  "map (rowFrom accountCols (accountValues acct)) accountCols = accountValues acct"
  "map ((rowFrom (tl commissionCols) (commissionValues c))(''id'' := SInt rid)) commissionCols =
     commissionRowValues (c\<lparr>cID := rid, cVersion := 1\<rparr>)"
  "map ((rowFrom (tl ledgerCols) (tl (ledgerValues e)))(''id'' := SInt rid)) ledgerCols = ledgerValues (e\<lparr>leID := rid\<rparr>)"
  "map ((rowFrom (tl refundCols) (tl (refundValues r)))(''id'' := SInt rid)) refundCols = refundValues (r\<lparr>rfID := rid\<rparr>)"
  "map ((rowFrom (tl withdrawalCols) (tl (withdrawalValues (w\<lparr>wVersion := 1\<rparr>))))(''id'' := SInt rid)) withdrawalCols =
     withdrawalValues (w\<lparr>wID := rid, wVersion := 1\<rparr>)"
  by ((subst map_rowFrom map_rowFrom_id; simp add: row_defs commissionValues_def)+)

text \<open>
  C23. What the SQL store writes it reads back. For every kind of record, the columns the queries select
  from the row an insert wrote, with the id the database assigned, scan to exactly the record that was
  written, with that id and version 1: no status, code, amount, instant, optional text or optional rate is
  lost or confused, for records whose codes are valid and whose instants fit 64 bits of nanoseconds.
\<close>

theorem inserted_rows_read_back:
  "(agentHeld a \<longrightarrow> scanAgent (map (rowFrom agentCols (agentValues (a\<lparr>agVersion := 1\<rparr>))) agentCols) =
     Inr (a\<lparr>agVersion := 1\<rparr>)) \<and>
   (bindingHeld b \<longrightarrow> scanBinding (map (rowFrom bindingCols (bindingValues (b\<lparr>bVersion := 1\<rparr>))) bindingCols) =
     Inr (b\<lparr>bVersion := 1\<rparr>)) \<and>
   (storable (aUpdatedAt acct) \<longrightarrow> scanAccount (map (rowFrom accountCols (accountValues (acct\<lparr>aVersion := 1\<rparr>))) accountCols) =
     Inr (acct\<lparr>aVersion := 1\<rparr>)) \<and>
   (commissionHeld c \<longrightarrow>
     scanCommission (map ((rowFrom (tl commissionCols) (commissionValues c))(''id'' := SInt rid)) commissionCols) =
     Inr (c\<lparr>cID := rid, cVersion := 1\<rparr>)) \<and>
   (ledgerBizValid (leBizType e) \<and> storable (leCreatedAt e) \<longrightarrow>
     scanLedger (map ((rowFrom (tl ledgerCols) (tl (ledgerValues e)))(''id'' := SInt rid)) ledgerCols) = Inr (e\<lparr>leID := rid\<rparr>)) \<and>
   (storable (rfRefundedAt r) \<longrightarrow>
     scanRefund (map ((rowFrom (tl refundCols) (tl (refundValues r)))(''id'' := SInt rid)) refundCols) = Inr (r\<lparr>rfID := rid\<rparr>)) \<and>
   (withdrawalHeld w \<longrightarrow>
     scanWithdrawal (map ((rowFrom (tl withdrawalCols) (tl (withdrawalValues (w\<lparr>wVersion := 1\<rparr>))))(''id'' := SInt rid))
       withdrawalCols) = Inr (w\<lparr>wID := rid, wVersion := 1\<rparr>))"
  using scan_agent [of "a\<lparr>agVersion := 1\<rparr>"] scan_binding [of "b\<lparr>bVersion := 1\<rparr>"] scan_account [of "acct\<lparr>aVersion := 1\<rparr>"]
    scan_commission [of "c\<lparr>cID := rid, cVersion := 1\<rparr>"] scan_ledger [of "e\<lparr>leID := rid\<rparr>"] scan_refund [of "r\<lparr>rfID := rid\<rparr>"]
    scan_withdrawal [of "w\<lparr>wID := rid, wVersion := 1\<rparr>"]
  by (simp add: rows_of_inserts agentHeld_def bindingHeld_def commissionHeld_def withdrawalHeld_def)

text \<open>A record of each kind with an instant, an optional text and a code.\<close>

definition sampleWhen :: gotime where "sampleWhen = unixEpoch + 1735689600000000000"

definition sampleBinding :: binding where
  "sampleBinding = \<lparr>bID = 0, bBuyer = UserKey 1 30, bAgentUserID = 10, bSource = SourceLink, bSourceRef = ''spring'',
     bBoundAt = sampleWhen, bExpireAt = 0, bActive = True, bReboundFrom = 0, bVersion = 0\<rparr>"

definition sampleCommission :: commission where
  "sampleCommission = zeroCommission\<lparr>cKey := OrderKey 1 ''A1'', cIdemKey := ''k'', cBuyerUserID := 30, cAgentUserID := 10,
     cLayer := 1, cBaseAmount := 10000, cRate := 500, cAmount := 500, cState := CommissionPending, cAccruedAt := sampleWhen\<rparr>"

definition sampleEntry :: ledger_entry where
  "sampleEntry = \<lparr>leID = 0, leKey = UserKey 1 10, leBizType = LedgerAccrue, leBizID = ''A1'', leDeltaFrozen = 500,
     leDeltaAvailable = 0, leDeltaWithdrawing = 0, leDeltaWithdrawn = 0, leAfterFrozen = 500, leAfterAvailable = 0,
     leAfterWithdrawing = 0, leAfterWithdrawn = 0, leRemark = [], leCreatedAt = sampleWhen\<rparr>"

definition sampleRefund :: refund where
  "sampleRefund = \<lparr>rfID = 0, rfKey = OrderKey 1 ''A1'', rfItemID = [], rfAmount = 100, rfCumulative = 100,
     rfIdemKey = ''r'', rfRefundedAt = sampleWhen\<rparr>"

definition sampleWithdrawal :: withdrawal where
  "sampleWithdrawal = \<lparr>wID = 0, wKey = UserKey 1 10, wIdemKey = ''w'', wAmount = 500, wFee = 5, wRealAmount = 495,
     wChannel = ''bank'', wAccountInfo = ''iban'', wState = WithdrawalApplied, wFailReason = [], wTaxAmount = 0, wInvoiceNo = [],
     wOperator = [], wAppliedAt = sampleWhen, wAuditedAt = 0, wPaidAt = 0, wVersion = 0\<rparr>"

theorem inserted_rows_read_back_witness:
  "scanAgent (map (rowFrom agentCols (agentValues (heldAgent\<lparr>agVersion := 1\<rparr>))) agentCols) = Inr (heldAgent\<lparr>agVersion := 1\<rparr>) \<and>
   scanBinding (map (rowFrom bindingCols (bindingValues (sampleBinding\<lparr>bVersion := 1\<rparr>))) bindingCols) =
     Inr (sampleBinding\<lparr>bVersion := 1\<rparr>) \<and>
   scanAccount (map (rowFrom accountCols (accountValues (heldSeed\<lparr>aVersion := 1\<rparr>))) accountCols) = Inr (heldSeed\<lparr>aVersion := 1\<rparr>) \<and>
   scanCommission (map ((rowFrom (tl commissionCols) (commissionValues sampleCommission))(''id'' := SInt 7)) commissionCols) =
     Inr (sampleCommission\<lparr>cID := 7, cVersion := 1\<rparr>) \<and>
   scanLedger (map ((rowFrom (tl ledgerCols) (tl (ledgerValues sampleEntry)))(''id'' := SInt 7)) ledgerCols) =
     Inr (sampleEntry\<lparr>leID := 7\<rparr>) \<and>
   scanRefund (map ((rowFrom (tl refundCols) (tl (refundValues sampleRefund)))(''id'' := SInt 7)) refundCols) =
     Inr (sampleRefund\<lparr>rfID := 7\<rparr>) \<and>
   scanWithdrawal (map ((rowFrom (tl withdrawalCols) (tl (withdrawalValues (sampleWithdrawal\<lparr>wVersion := 1\<rparr>))))(''id'' := SInt 7))
       withdrawalCols) = Inr (sampleWithdrawal\<lparr>wID := 7, wVersion := 1\<rparr>)"
proof -
  have held: "agentHeld heldAgent" "bindingHeld sampleBinding" "storable (aUpdatedAt heldSeed)" "commissionHeld sampleCommission"
    "ledgerBizValid (leBizType sampleEntry)" "storable (leCreatedAt sampleEntry)" "storable (rfRefundedAt sampleRefund)"
    "withdrawalHeld sampleWithdrawal"
    by (simp_all add: agentHeld_def heldAgent_def agentStatusValid_def joinTypeValid_def storable_def in64_def bindingHeld_def
        sampleBinding_def bindSourceValid_def heldSeed_def zeroAccount_def commissionHeld_def sampleCommission_def
        zeroCommission_def sampleEntry_def ledgerBizValid_def sampleRefund_def withdrawalHeld_def sampleWithdrawal_def sampleWhen_def)
  show ?thesis
    using inserted_rows_read_back [of heldAgent sampleBinding heldSeed sampleCommission 7 sampleEntry sampleRefund sampleWithdrawal] held
    by blast
qed

end
