(* ===== verification/SqlAppend.thy ===== *)
theory SqlAppend
  imports SqlFits
begin

text \<open>
  The appends of the SQL store, which the unique keys of the schema make idempotent: a second record with
  the same tenant and idempotency key is reported as a duplicate and changes nothing.
\<close>

subsection \<open>An append\<close>

text \<open>
  What an append promises of a table: the duplicate is refused, a new record gets an id no row has and
  its row is added.
\<close>

definition appendsOnce ::
  "('db \<Rightarrow> tables) \<Rightarrow> string \<Rightarrow> trow \<Rightarrow> (int \<Rightarrow> 'x) \<Rightarrow> (dberr, 'db, 'x) estep \<Rightarrow> 'db \<Rightarrow> bool" where
  "appendsOnce tabs table new made m db \<longleftrightarrow>
     (if list_ex (\<lambda>q. q ''tenant_id'' = new ''tenant_id'' \<and> q ''idem_key'' = new ''idem_key'') (tabs db table)
      then m db = (Inl (Ledger ErrDuplicate), db)
      else \<exists>rid db'. m db = (Inr (made rid), db') \<and> list_all (\<lambda>q. q ''id'' \<noteq> SInt rid) (tabs db table) \<and>
        tabs db' = (tabs db)(table := tabs db table @ [new(''id'' := SInt rid)]))"

definition runAppend :: "'db tx_handle \<Rightarrow> string \<Rightarrow> sqlval list \<Rightarrow> string \<Rightarrow> (int \<Rightarrow> 'x) \<Rightarrow> (dberr, 'db, 'x) estep" where
  "runAppend h query argv failed made =
     attempt (insertReturningID h query argv) (\<lambda>r. case r of
        Inl e \<Rightarrow> throw (Context failed e)
      | Inr None \<Rightarrow> throw (Ledger ErrDuplicate)
      | Inr (Some rid) \<Rightarrow> ret (made rid))"

lemma runAppend_once:
  assumes ans: "answersInsertID h tabs table columns vals" and fits: "fitsTable table (rowFrom columns vals)"
    and text_: "stmtSQL (hDialect h) (InsertS table columns vals) = (query, argv)"
    and keys: "uniqueKeys table = [[''id''], [''tenant_id'', ''idem_key'']]"
    and new: "rowFrom columns vals ''id'' = SNull" "rowFrom columns vals ''tenant_id'' \<noteq> SNull"
      "rowFrom columns vals ''idem_key'' \<noteq> SNull"
  shows "appendsOnce tabs table (rowFrom columns vals) made (runAppend h query argv failed made) db"
proof -
  have hit: "list_ex (collides table (rowFrom columns vals)) rows \<longleftrightarrow>
      list_ex (\<lambda>q. q ''tenant_id'' = rowFrom columns vals ''tenant_id'' \<and> q ''idem_key'' = rowFrom columns vals ''idem_key'') rows" for rows
    using new by (simp add: list_ex_iff collides_def keys eq_commute [of "rowFrom columns vals _"])
  show ?thesis
    using insertReturningID_answered [OF ans fits text_, of db]
    by (auto simp: appendsOnce_def runAppend_def step_simps hit split: if_splits)
qed

subsection \<open>Commissions\<close>

lemma sqlAppendCommission_run:
  assumes "dialectOf say (hDialect h)" "validateCommissionForWrite c = None"
    and "stmtSQL (hDialect h) (InsertS ''dist_commission'' (tl commissionCols) (commissionValues c)) = (query, argv)"
  shows "sqlAppendCommission h c =
    runAppend h query argv ''sqlstore: insert commission'' (\<lambda>rid. c\<lparr>cID := rid, cVersion := 1\<rparr>)"
proof -
  let ?ins = "\<lambda>columns. buildSQL (hDialect h) (insertInto (hDialect h) ''dist_commission'' columns (commissionValues c)) []"
  have "?ins (tl commissionCols) = (query, argv)" using assms(3) by (simp add: stmtSQL_def)
  moreover have "snd (?ins commissionCols) = snd (?ins (tl commissionCols))"
    by (simp add: insertInto_def split: prod.split)
  moreover have "replaceFirst (cols (hDialect h) [''id''] @ '', '') [] (fst (?ins commissionCols)) = fst (?ins (tl commissionCols))"
    by (rule commission_insert_text [OF assms(1)])
  ultimately show ?thesis using assms(2)
    by (intro ext) (cases "?ins commissionCols", simp add: sqlAppendCommission_def runAppend_def Let_def del: buildSQL.simps)
qed

subsection \<open>Refund vouchers and withdrawals\<close>

definition refundGuards :: "refund \<Rightarrow> bool" where
  "refundGuards r \<longleftrightarrow> orderKeyValidate (rfKey r) = None \<and> rfIdemKey r \<noteq> [] \<and> \<not> rfAmount r <=s 0 \<and> \<not> rfCumulative r <s rfAmount r"

lemma sqlAppendRefund_run:
  assumes "refundGuards r"
    and "stmtSQL (hDialect h) (InsertS ''dist_refund'' (tl refundCols) (tl (refundValues r))) = (query, argv)"
  shows "sqlAppendRefund h r = runAppend h query argv ''sqlstore: insert refund'' (\<lambda>rid. r\<lparr>rfID := rid\<rparr>)"
  using assms
  by (intro ext) (simp add: sqlAppendRefund_def runAppend_def refundGuards_def insert_texts stmtSQL_def del: buildSQL.simps)

lemma sqlAppendWithdrawal_run:
  assumes "withdrawalValidate w = None"
    and "stmtSQL (hDialect h) (InsertS ''dist_withdraw'' (tl withdrawalCols) (tl (withdrawalValues (w\<lparr>wVersion := 1\<rparr>)))) = (query, argv)"
  shows "sqlAppendWithdrawal h w =
    runAppend h query argv ''sqlstore: insert withdrawal'' (\<lambda>rid. w\<lparr>wID := rid, wVersion := 1\<rparr>)"
  using assms
  by (intro ext) (simp add: sqlAppendWithdrawal_def runAppend_def insert_texts stmtSQL_def del: buildSQL.simps)


definition sampleInserts :: "insert_stmt list" where
  "sampleInserts = [(''dist_commission'', tl commissionCols, commissionValues sampleCommission),
     (''dist_refund'', tl refundCols, tl (refundValues sampleRefund)),
     (''dist_withdraw'', tl withdrawalCols, tl (withdrawalValues (sampleWithdrawal\<lparr>wVersion := 1\<rparr>)))]"


end
