(* ===== verification/SqlWithdrawals.thy ===== *)
theory SqlWithdrawals
  imports SqlAgrees
begin

text \<open>
  Withdrawals in the two stores: \<open>TransitionWithdrawal\<close> of the SQL store reads the row, judges the
  transition, updates the row under its state and version, and reads it again; the in-memory store does
  it in one step.
\<close>

subsection \<open>Rows\<close>

definition withdrawalIn :: "int \<Rightarrow> withdrawal \<Rightarrow> trow \<Rightarrow> bool" where
  "withdrawalIn k w r \<longleftrightarrow> k = wID w \<and> map r withdrawalCols = withdrawalValues w \<and> withdrawalHeld w"

lemma withdrawalIn_cols:
  "withdrawalIn k w r \<Longrightarrow> r ''id'' = SInt k \<and> r ''state'' = SInt (withdrawalStateCode (wState w)) \<and> r ''version'' = SInt (wVersion w)"
  by (simp add: withdrawalIn_def withdrawalCols_def withdrawalValues_def)

interpretation withdrawal_table: keyed_table "''dist_withdraw''" withdrawalIn idIs
  by unfold_locales (auto simp: matches_def idIs_def dest: withdrawalIn_cols)

lemma withdrawal_code_inj: "withdrawalStateCode s = withdrawalStateCode s' \<longleftrightarrow> s = s'"
  by (cases s; cases s') simp_all

subsection \<open>Statements\<close>

definition withdrawalSelectS :: "int \<Rightarrow> stmt" where
  "withdrawalSelectS k = SelectS withdrawalCols ''dist_withdraw'' (idIs k)"

definition withdrawalSets :: "withdrawal_state \<Rightarrow> withdrawal_transition \<Rightarrow> assign list" where
  "withdrawalSets to tr =
     [SetVal ''state'' (SInt (withdrawalStateCode to)), SetNext ''version''] @
     (if wtFailReason tr \<noteq> [] then [SetVal ''fail_reason'' (SText (wtFailReason tr))] else []) @
     (if wtInvoiceNo tr \<noteq> [] then [SetVal ''invoice_no'' (SText (wtInvoiceNo tr))] else []) @
     (if wtOperator tr \<noteq> [] then [SetVal ''operator'' (SText (wtOperator tr))] else []) @
     (if wtAuditedAt tr \<noteq> 0 then [SetVal ''audited_at'' (instantOrNull (wtAuditedAt tr))] else []) @
     (if wtPaidAt tr \<noteq> 0 then [SetVal ''paid_at'' (instantOrNull (wtPaidAt tr))] else [])"

definition withdrawalUpdateS :: "int \<Rightarrow> withdrawal_state \<Rightarrow> withdrawal_state \<Rightarrow> int \<Rightarrow> withdrawal_transition \<Rightarrow> stmt" where
  "withdrawalUpdateS k from to n tr = UpdateS ''dist_withdraw'' (withdrawalSets to tr)
     (idIs k @ [CondEq ''state'' (SInt (withdrawalStateCode from)), CondEq ''version'' (SInt n)])"

lemma withdrawal_texts:
  "withdrawalUpdate d k from to n tr = stmtPieces d (withdrawalUpdateS k from to n tr)"
  "buildSQL d (withdrawalByIDQuery d k) [] = stmtSQL d (withdrawalSelectS k)"
  by (simp_all add: withdrawalUpdate_def withdrawalUpdateS_def withdrawalSets_def idIs_def bumpVersion_def schema_simps
      withdrawalByIDQuery_def withdrawalSelectS_def stmtSQL_def selectFrom_def setTo_def argsAdd_def)

lemma withdrawal_lookup:
  assumes "holdsMap withdrawalIn m (tabs db ''dist_withdraw'')" "answersSelect h tabs (withdrawalSelectS k)"
  shows "sqlWithdrawalByID h k db = (case m k of None \<Rightarrow> Inl (Ledger ErrNotFound) | Some w \<Rightarrow> Inr w, db)"
proof -
  have "sqlWithdrawalByID h k db =
      andThen (queryOne h (withdrawalByIDQuery (hDialect h) k) (keepLast scanWithdrawal) None) (foundOr ErrNotFound) db"
    by (simp add: sqlWithdrawalByID_def oneWithdrawal_def queryOne_def)
  also have "\<dots> = (case m k of None \<Rightarrow> Inl (Ledger ErrNotFound) | Some w \<Rightarrow> Inr w, db)"
    by (rule withdrawal_table.found_or [where m = m and tabs = tabs and columns = withdrawalCols])
      (use assms in \<open>simp_all add: withdrawal_texts withdrawalSelectS_def withdrawalIn_def scan_withdrawal\<close>)
  finally show ?thesis .
qed

subsection \<open>The update\<close>

definition withdrawalMoved :: "withdrawal_state \<Rightarrow> withdrawal_transition \<Rightarrow> withdrawal \<Rightarrow> withdrawal" where
  "withdrawalMoved to tr w = withdrawalPatch tr (w\<lparr>wState := to, wVersion := wVersion w + 1\<rparr>)"

lemma withdrawalMoved_row:
  assumes row: "withdrawalIn k w r" and valid: "withdrawalStateValid to"
    and storable: "storable (wtAuditedAt tr)" "storable (wtPaidAt tr)"
    and fits: "fitsValues ''dist_withdraw'' (withdrawalValues (withdrawalMoved to tr w))"
  shows "withdrawalIn k (withdrawalMoved to tr w) (updateRow (withdrawalSets to tr) r) \<and>
    fitsTable ''dist_withdraw'' (updateRow (withdrawalSets to tr) r)"
proof -
  have vals: "map (updateRow (withdrawalSets to tr) r) withdrawalCols = withdrawalValues (withdrawalMoved to tr w)"
    using row
    by (simp add: withdrawalIn_def withdrawalCols_def withdrawalValues_def updateRow_def withdrawalSets_def
        withdrawalMoved_def withdrawalPatch_def Let_def)
  have code: "withdrawalStateCode to < 256"
    using valid by (cases to) (simp_all add: withdrawalStateValid_def)
  have "withdrawalHeld (withdrawalMoved to tr w)" "wID (withdrawalMoved to tr w) = wID w"
    using row storable code by (simp_all add: withdrawalIn_def withdrawalHeld_def withdrawalMoved_def withdrawalPatch_def Let_def)
  then show ?thesis using vals row fits fitsTable_values [of "updateRow (withdrawalSets to tr) r" "''dist_withdraw''"]
    by (simp add: withdrawalIn_def columns_of)
qed

subsection \<open>The transition\<close>

text \<open>
  Outcomes of the two stores: equal, but that a conflict is the same conflict whatever two numbers it
  names (where the state differs the in-memory store names the states, the SQL store the versions).
\<close>

definition conflictBlind :: "dberr + 'a \<Rightarrow> dberr + 'a" where
  "conflictBlind r = (case r of Inl (Ledger e) \<Rightarrow> Inl (Ledger (blindConflict e)) | _ \<Rightarrow> r)"

text \<open>The transition on a table that holds the withdrawals \<open>m\<close>, case by case.\<close>

lemma withdrawal_transition:
  fixes h :: "'db tx_handle"
  assumes held: "holdsMap withdrawalIn m (tabs db ''dist_withdraw'')"
    and answered: "answers h tabs [withdrawalUpdateS k from to n tr, withdrawalSelectS k]"
    and storable: "storable (wtAuditedAt tr)" "storable (wtPaidAt tr)"
    and fits: "\<forall>w. m k = Some w \<longrightarrow> fitsValues ''dist_withdraw'' (withdrawalValues (withdrawalMoved to tr w))"
  shows "\<exists>db'. sqlTransitionWithdrawal h k from to n tr db =
      (if \<not> withdrawalStateValid from \<or> \<not> withdrawalStateValid to then Inl (Ledger (FieldError ''state''))
       else case m k of
         None \<Rightarrow> Inl (Ledger ErrNotFound)
       | Some w \<Rightarrow>
           if wState w \<noteq> from \<or> wVersion w \<noteq> n then Inl (conflict ''withdrawal'' n (wVersion w))
           else if \<not> CanTransitionWithdrawal from to
           then Inl (Ledger (TransitionError ''withdrawal'' (withdrawalStateString from) (withdrawalStateString to)))
           else Inr (withdrawalMoved to tr w), db') \<and>
    holdsMap withdrawalIn (case m k of None \<Rightarrow> m | Some w \<Rightarrow>
        if withdrawalStateValid from \<and> withdrawalStateValid to \<and> wState w = from \<and> wVersion w = n \<and> CanTransitionWithdrawal from to
        then m(k \<mapsto> withdrawalMoved to tr w) else m) (tabs db' ''dist_withdraw'') \<and>
    (\<forall>x. x \<noteq> ''dist_withdraw'' \<longrightarrow> tabs db' x = tabs db x)"
proof -
  have look: "sqlWithdrawalByID h k db' = (case m' k of None \<Rightarrow> Inl (Ledger ErrNotFound) | Some w \<Rightarrow> Inr w, db')"
    if "holdsMap withdrawalIn m' (tabs db' ''dist_withdraw'')" for m' db'
    by (rule withdrawal_lookup [where m = m' and tabs = tabs]) (use that answered in \<open>simp_all add: answers_def\<close>)
  show ?thesis
  proof (cases "\<exists>w. m k = Some w \<and> withdrawalStateValid from \<and> withdrawalStateValid to \<and>
      wState w = from \<and> wVersion w = n \<and> CanTransitionWithdrawal from to")
    case False
    then show ?thesis using held look [OF held]
      by (intro exI [of _ db]) (auto simp: sqlTransitionWithdrawal_def step_simps split: option.split)
  next
    case True
    then obtain w where w: "m k = Some w" "wState w = from" "wVersion w = n"
      and legal: "withdrawalStateValid from" "withdrawalStateValid to" "CanTransitionWithdrawal from to" by blast
    let ?guard = "[CondEq ''state'' (SInt (withdrawalStateCode from)), CondEq ''version'' (SInt n)]"
    have upd: "answersUpdate h tabs (UpdateS ''dist_withdraw'' (withdrawalSets to tr) (idIs k @ ?guard))"
      using answered by (simp add: answers_def withdrawalUpdateS_def)
    have "matches ?guard r" if "withdrawalIn k w r" for r
      using withdrawalIn_cols [OF that] w by (simp add: matches_def)
    then obtain db1 where u:
      "updateVersioned h (stmtPieces (hDialect h) (UpdateS ''dist_withdraw'' (withdrawalSets to tr) (idIs k @ ?guard))) db = (Inr 1, db1)"
      "\<And>x. x \<noteq> ''dist_withdraw'' \<Longrightarrow> tabs db1 x = tabs db x"
      "holdsMap withdrawalIn (m(k \<mapsto> withdrawalMoved to tr w)) (tabs db1 ''dist_withdraw'')"
      using withdrawal_table.guarded_update [OF held upd, where Q = "\<lambda>_. True" and upd = "withdrawalMoved to tr" and thesis = thesis]
        withdrawalMoved_row [OF _ legal(2) storable] fits w(1)
      by (fastforce split: option.splits)
    then show ?thesis using w legal look [OF held] look [OF u(3)]
      by (intro exI [of _ db1]) (auto simp: sqlTransitionWithdrawal_def step_simps withdrawal_texts withdrawalUpdateS_def)
  qed
qed

text \<open>The same in the in-memory store.\<close>

lemma TransitionWithdrawal_run:
  "fst (TransitionWithdrawal k from to n tr t) =
      (if \<not> withdrawalStateValid from \<or> \<not> withdrawalStateValid to then Inl (FieldError ''state'')
       else case dWithdrawals (txD t) k of
         None \<Rightarrow> Inl ErrNotFound
       | Some w \<Rightarrow>
           if wState w \<noteq> from
           then Inl (ConflictError ''withdrawal'' (withdrawalStateCode from) (withdrawalStateCode (wState w)))
           else if wVersion w \<noteq> n then Inl (ConflictError ''withdrawal'' n (wVersion w))
           else if \<not> CanTransitionWithdrawal from to
           then Inl (TransitionError ''withdrawal'' (withdrawalStateString from) (withdrawalStateString to))
           else Inr (withdrawalMoved to tr w))"
  "dWithdrawals (txD (snd (TransitionWithdrawal k from to n tr t))) = (case dWithdrawals (txD t) k of
       None \<Rightarrow> dWithdrawals (txD t)
     | Some w \<Rightarrow>
        if withdrawalStateValid from \<and> withdrawalStateValid to \<and> wState w = from \<and> wVersion w = n \<and> CanTransitionWithdrawal from to
        then (dWithdrawals (txD t))(k \<mapsto> withdrawalMoved to tr w) else dWithdrawals (txD t))"
  by (auto simp: TransitionWithdrawal_def Let_def withdrawalMoved_def change_def split: option.split)

text \<open>
  A withdrawal moves through the SQL store as through the in-memory store: on a table that holds the
  withdrawals of the in-memory transaction, and for a database that answers the update and the lookup as SQL
  prescribes, \<open>TransitionWithdrawal\<close> of store/sql returns what \<open>TransitionWithdrawal\<close> of store/memory
  returns (the moved withdrawal, or the same kind of error: unknown state, not found, conflict, illegal
  transition), leaves a table that holds the withdrawals of the in-memory store afterwards, and touches no
  other table.
\<close>

theorem transition_withdrawal_agrees:
  assumes held: "holdsMap withdrawalIn (dWithdrawals (txD t)) (tabs db ''dist_withdraw'')"
    and answered: "answers h tabs [withdrawalUpdateS k from to n tr, withdrawalSelectS k]"
    and storable: "storable (wtAuditedAt tr)" "storable (wtPaidAt tr)"
    and fits: "\<And>w. dWithdrawals (txD t) k = Some w \<Longrightarrow>
      fitsValues ''dist_withdraw'' (withdrawalValues (withdrawalMoved to tr w))"
  shows "\<exists>r db'. sqlTransitionWithdrawal h k from to n tr db = (r, db') \<and>
    conflictBlind r = conflictBlind (asLedger (fst (TransitionWithdrawal k from to n tr t))) \<and>
    holdsMap withdrawalIn (dWithdrawals (txD (snd (TransitionWithdrawal k from to n tr t)))) (tabs db' ''dist_withdraw'') \<and>
    (\<forall>x. x \<noteq> ''dist_withdraw'' \<longrightarrow> tabs db' x = tabs db x)"
proof -
  have "\<forall>w. dWithdrawals (txD t) k = Some w \<longrightarrow> fitsValues ''dist_withdraw'' (withdrawalValues (withdrawalMoved to tr w))"
    using fits by blast
  from withdrawal_transition [where m = "dWithdrawals (txD t)" and tabs = tabs and db = db and h = h and k = k and n = n
      and tr = tr, OF held answered storable this]
  show ?thesis
  proof (elim exE conjE, goal_cases)
    case (1 db')
    show ?case
      by (intro exI conjI, rule 1(1))
        (use 1(2,3) in \<open>auto simp: TransitionWithdrawal_run conflictBlind_def blindConflict_def conflict_def split: option.splits\<close>)
  qed
qed

definition heldWithdrawal :: withdrawal where
  "heldWithdrawal = \<lparr>wID = 7, wKey = UserKey 1 10, wIdemKey = ''w'', wAmount = 500, wFee = 5, wRealAmount = 495,
     wChannel = ''bank'', wAccountInfo = ''iban'', wState = WithdrawalApplied, wFailReason = [], wTaxAmount = 0, wInvoiceNo = [],
     wOperator = [], wAppliedAt = unixEpoch + 1000, wAuditedAt = 0, wPaidAt = 0, wVersion = 3\<rparr>"

definition approval :: withdrawal_transition where
  "approval = \<lparr>wtFailReason = [], wtInvoiceNo = [], wtOperator = ''root'', wtAuditedAt = unixEpoch + 2000, wtPaidAt = 0\<rparr>"

definition withdrawalTx :: txn where
  "withdrawalTx = \<lparr>txD = newData\<lparr>dWithdrawals := [7 \<mapsto> heldWithdrawal]\<rparr>, txU = newUndo newData\<rparr>"

definition withdrawalTables :: tables where
  "withdrawalTables = (\<lambda>_. [])(''dist_withdraw'' := [rowFrom withdrawalCols (withdrawalValues heldWithdrawal)])"

lemma withdrawalTables_held: "holdsMap withdrawalIn (dWithdrawals (txD withdrawalTx)) (withdrawalTables ''dist_withdraw'')"
proof -
  have "map (rowFrom withdrawalCols (withdrawalValues heldWithdrawal)) withdrawalCols = withdrawalValues heldWithdrawal"
    by (rule map_rowFrom) (simp_all add: withdrawalCols_def withdrawalValues_def)
  then have "withdrawalIn 7 heldWithdrawal (rowFrom withdrawalCols (withdrawalValues heldWithdrawal))"
    by (simp add: withdrawalIn_def withdrawalHeld_def heldWithdrawal_def storable_def in64_def)
  then show ?thesis by (auto simp: holdsMap_def withdrawalTx_def withdrawalTables_def intro!: exI [of _ "[7]"])
qed

theorem transition_withdrawal_agrees_witness:
  "let upd = withdrawalUpdateS 7 WithdrawalApplied WithdrawalApproved 3 approval;
       h = referenceHandle (postgres (\<lambda>_. [])) [upd, withdrawalSelectS 7, InsertS ''dist_withdraw'' [] []] in
   \<exists>r db'. sqlTransitionWithdrawal h 7 WithdrawalApplied WithdrawalApproved 3 approval withdrawalTables = (r, db') \<and>
     conflictBlind r = conflictBlind (asLedger (fst (TransitionWithdrawal 7 WithdrawalApplied WithdrawalApproved 3 approval withdrawalTx))) \<and>
     holdsMap withdrawalIn (dWithdrawals (txD (snd (TransitionWithdrawal 7 WithdrawalApplied WithdrawalApproved 3 approval withdrawalTx))))
       (db' ''dist_withdraw'') \<and>
     (\<forall>x. x \<noteq> ''dist_withdraw'' \<longrightarrow> db' x = withdrawalTables x)"
  unfolding Let_def
proof (rule transition_withdrawal_agrees [where tabs = "\<lambda>db. db" and t = withdrawalTx])
  let ?sts = "[withdrawalUpdateS 7 WithdrawalApplied WithdrawalApproved 3 approval, withdrawalSelectS 7]"
  show "holdsMap withdrawalIn (dWithdrawals (txD withdrawalTx)) (withdrawalTables ''dist_withdraw'')" by (rule withdrawalTables_held)
  have "answers (referenceHandle (postgres (\<lambda>_. [])) (?sts @ [InsertS ''dist_withdraw'' [] []])) (\<lambda>db. db)
      (?sts @ [InsertS ''dist_withdraw'' [] []])"
    unfolding withdrawalUpdateS_def withdrawalSelectS_def append.simps by (rule reference_answers)
  then show "answers (referenceHandle (postgres (\<lambda>_. [])) [withdrawalUpdateS 7 WithdrawalApplied WithdrawalApproved 3 approval,
      withdrawalSelectS 7, InsertS ''dist_withdraw'' [] []]) (\<lambda>db. db) ?sts" by (simp add: answers_def)
  show "storable (wtAuditedAt approval)" "storable (wtPaidAt approval)" by (simp_all add: approval_def storable_def in64_def)
  show "fitsValues ''dist_withdraw'' (withdrawalValues (withdrawalMoved WithdrawalApproved approval w))"
    if "dWithdrawals (txD withdrawalTx) 7 = Some w" for w
  proof -
    have "w = heldWithdrawal" using that by (simp add: withdrawalTx_def)
    then have "withdrawalMoved WithdrawalApproved approval w = heldWithdrawal\<lparr>wState := WithdrawalApproved, wVersion := 4,
        wOperator := ''root'', wAuditedAt := unixEpoch + 2000\<rparr>"
      by (simp add: withdrawalMoved_def withdrawalPatch_def approval_def heldWithdrawal_def unixEpoch_def)
    then show ?thesis
      by (simp add: fitsValues_def withdrawalValues_def table_columns tableWithdrawDef_def heldWithdrawal_def valueFits_def
          in64_def moneyVal_def instantOrNull_def unixNano_def sizeIdemKey_def sizeRemark_def sizeChannel_def)
  qed
qed

end
