(* ===== verification/SqlCommissions.thy ===== *)
theory SqlCommissions
  imports SqlAgrees
begin

text \<open>
  Commissions in the two stores: the release time and the state of a commission change through the SQL
  store as through the in-memory store, up to the settlement stamp that only the SQL store sets.
\<close>

subsection \<open>Rows\<close>

definition commissionIn :: "int \<Rightarrow> commission \<Rightarrow> trow \<Rightarrow> bool" where
  "commissionIn k c r \<longleftrightarrow> k = cID c \<and>
     (\<exists>s. commissionHeld (c\<lparr>cSettledAt := s\<rparr>) \<and> map r commissionCols = commissionRowValues (c\<lparr>cSettledAt := s\<rparr>))"

lemma commissionIn_cols:
  "commissionIn k c r \<Longrightarrow> r ''id'' = SInt k \<and> r ''state'' = SInt (commissionStateCode (cState c)) \<and>
    r ''available_at'' = instantOrNull (cAvailableAt c) \<and> r ''version'' = SInt (cVersion c)"
  by (auto simp: commissionIn_def commissionCols_def commissionRowValues_def)

interpretation commission_table: keyed_table "''dist_commission''" commissionIn idIs
  by unfold_locales (auto simp: matches_def idIs_def dest: commissionIn_cols)

lemma commission_code_inj: "commissionStateCode s = commissionStateCode s' \<longleftrightarrow> s = s'"
  by (cases s; cases s') simp_all

lemma instantOrNull_Null: "instantOrNull t = SNull \<longleftrightarrow> t = 0"
  by (simp add: instantOrNull_def)

subsection \<open>Statements\<close>

definition commissionSelectS :: "int \<Rightarrow> stmt" where
  "commissionSelectS k = SelectS commissionCols ''dist_commission'' (idIs k)"

definition availableAtUpdateS :: "int \<Rightarrow> gotime \<Rightarrow> int \<Rightarrow> stmt" where
  "availableAtUpdateS k at n = UpdateS ''dist_commission''
     [SetVal ''available_at'' (instantOrNull at), SetNext ''version'']
     (idIs k @ [CondNull ''available_at'', CondEq ''version'' (SInt n)])"

definition commissionUpdateS :: "int \<Rightarrow> commission_state \<Rightarrow> commission_state \<Rightarrow> int \<Rightarrow> stmt" where
  "commissionUpdateS k from to n = UpdateS ''dist_commission''
     [SetVal ''state'' (SInt (commissionStateCode to)), SetSame ''settled_at'', SetNext ''version'']
     (idIs k @ [CondEq ''state'' (SInt (commissionStateCode from)), CondEq ''version'' (SInt n)])"

definition settledStampS :: "int \<Rightarrow> gotime \<Rightarrow> stmt" where
  "settledStampS k now = UpdateS ''dist_commission'' [SetVal ''settled_at'' (instantOrNull now)]
     (idIs k @ [CondNull ''settled_at''])"

lemma commission_texts:
  "availableAtUpdate d k at n = stmtPieces d (availableAtUpdateS k at n)"
  "transitionUpdate d k from to n = stmtPieces d (commissionUpdateS k from to n)"
  "settledStamp d k now = stmtPieces d (settledStampS k now)"
  "buildSQL d (commissionQuery d k) [] = stmtSQL d (commissionSelectS k)"
  by (simp_all add: availableAtUpdate_def availableAtUpdateS_def transitionUpdate_def commissionUpdateS_def
      settledStamp_def settledStampS_def idIs_def bumpVersion_def
      commissionQuery_def commissionSelectS_def stmtSQL_def selectFrom_def setTo_def argsAdd_def)

text \<open>A commission read from the table is the one of the map, up to its settlement stamp.\<close>

lemma commission_lookup:
  assumes held: "holdsMap commissionIn m (tabs db ''dist_commission'')" and sel: "answersSelect h tabs (commissionSelectS k)"
  shows "case m k of None \<Rightarrow> sqlCommission h k db = (Inl (Ledger ErrNotFound), db)
    | Some c \<Rightarrow> \<exists>s. sqlCommission h k db = (Inr (c\<lparr>cSettledAt := s\<rparr>), db)"
proof -
  have q: "queryOne h (commissionQuery (hDialect h) k) (keepLast scanCommission) None db =
      (foldE (keepLast scanCommission)
         (map (\<lambda>r. map r commissionCols) (filter (matches (idIs k)) (tabs db ''dist_commission''))) None, db)"
    by (rule queryOne_answered) (use sel in \<open>simp_all add: commissionSelectS_def commission_texts\<close>)
  show ?thesis
  proof (cases "m k")
    case None
    then show ?thesis using commission_table.lookup_rows [OF held, of k] q
      by (simp add: sqlCommission_def andThen_run foundOr_def step_simps)
  next
    case (Some c)
    then obtain r where r: "filter (matches (idIs k)) (tabs db ''dist_commission'') = [r]" "commissionIn k c r"
      using commission_table.lookup_rows [OF held, of k] by auto
    then obtain s where "commissionHeld (c\<lparr>cSettledAt := s\<rparr>)" "map r commissionCols = commissionRowValues (c\<lparr>cSettledAt := s\<rparr>)"
      by (auto simp: commissionIn_def)
    then show ?thesis using Some q r(1)
      by (auto simp: sqlCommission_def keepLast_def scan_commission andThen_run foundOr_def step_simps)
  qed
qed

lemma fits_settled:
  "fitsValues ''dist_commission'' (commissionRowValues (c\<lparr>cSettledAt := s\<rparr>)) \<longleftrightarrow>
   fitsValues ''dist_commission'' (commissionRowValues c)"
  by (simp add: fitsValues_def commissionRowValues_def table_columns tableCommissionDef_def valueFits_def instantOrNull_def unixNano_def)

text \<open>What the updates make of a row.\<close>

lemma moved_row:
  assumes row: "commissionIn k c r" and fits: "fitsValues ''dist_commission'' (commissionRowValues c')"
    and vals: "\<And>s. map r commissionCols = commissionRowValues (c\<lparr>cSettledAt := s\<rparr>) \<Longrightarrow>
      map (updateRow as r) commissionCols = commissionRowValues (c'\<lparr>cSettledAt := f s\<rparr>)"
    and ok: "\<And>s. commissionHeld (c\<lparr>cSettledAt := s\<rparr>) \<Longrightarrow> commissionHeld (c'\<lparr>cSettledAt := f s\<rparr>)" "cID c' = cID c"
  shows "commissionIn k c' (updateRow as r) \<and> fitsTable ''dist_commission'' (updateRow as r)"
proof -
  obtain s where s: "commissionHeld (c\<lparr>cSettledAt := s\<rparr>)" "map r commissionCols = commissionRowValues (c\<lparr>cSettledAt := s\<rparr>)"
    using row by (auto simp: commissionIn_def)
  then show ?thesis using row ok(1) [OF s(1)] ok(2) vals [OF s(2)] fits fits_settled [where c = c' and s = "f s"]
      fitsTable_values [of "updateRow as r" "''dist_commission''"]
    by (auto simp: commissionIn_def columns_of)
qed

subsection \<open>Release times\<close>

text \<open>Outcomes up to the settlement stamp.\<close>

definition unstampedResult :: "dberr + commission \<Rightarrow> dberr + commission" where
  "unstampedResult = map_sum id (\<lambda>c. c\<lparr>cSettledAt := 0\<rparr>)"

theorem set_available_at_agrees:
  assumes held: "holdsMap commissionIn (dCommissions (txD t)) (tabs db ''dist_commission'')"
    and answered: "answers h tabs [availableAtUpdateS k at n, commissionSelectS k]"
    and storable: "storable at"
    and fits: "\<And>c. dCommissions (txD t) k = Some c \<Longrightarrow>
      fitsValues ''dist_commission'' (commissionRowValues (c\<lparr>cAvailableAt := at, cVersion := cVersion c + 1\<rparr>))"
  shows "\<exists>r db'. sqlSetCommissionAvailableAt h k at n db = (r, db') \<and>
    unstampedResult r = unstampedResult (asLedger (fst (SetCommissionAvailableAt k at n t))) \<and>
    holdsMap commissionIn (dCommissions (txD (snd (SetCommissionAvailableAt k at n t)))) (tabs db' ''dist_commission'') \<and>
    (\<forall>x. x \<noteq> ''dist_commission'' \<longrightarrow> tabs db' x = tabs db x)"
proof -
  let ?m = "dCommissions (txD t)" and ?Q = "\<lambda>c. cAvailableAt c = 0 \<and> cVersion c = n"
  let ?new = "\<lambda>c. c\<lparr>cAvailableAt := at, cVersion := cVersion c + 1\<rparr>"
  let ?as = "[SetVal ''available_at'' (instantOrNull at), SetNext ''version'']"
  let ?guard = "[CondNull ''available_at'', CondEq ''version'' (SInt n)]"
  let ?m' = "case ?m k of Some c \<Rightarrow> if ?Q c then ?m(k \<mapsto> ?new c) else ?m | None \<Rightarrow> ?m"
  have guard: "matches ?guard r \<longleftrightarrow> ?Q c" if "commissionIn k c r" for c r
    using commissionIn_cols [OF that] by (simp add: matches_def instantOrNull_Null)
  have new: "commissionIn k (?new c) (updateRow ?as r) \<and> fitsTable ''dist_commission'' (updateRow ?as r)"
    if "?m k = Some c" "commissionIn k c r" for c r
    by (rule moved_row [OF that(2) fits [OF that(1)], of _ "\<lambda>s. s"])
      (use storable in \<open>simp_all add: commissionHeld_def commissionCols_def commissionRowValues_def updateRow_def\<close>)
  have upd: "answersUpdate h tabs (UpdateS ''dist_commission'' ?as (idIs k @ ?guard))"
    and sel: "answersSelect h tabs (commissionSelectS k)"
    using answered by (simp_all add: answers_def availableAtUpdateS_def)
  obtain db1 where u:
    "updateVersioned h (stmtPieces (hDialect h) (UpdateS ''dist_commission'' ?as (idIs k @ ?guard))) db =
       (Inr (if \<exists>c. ?m k = Some c \<and> ?Q c then 1 else 0), db1)"
    "\<And>x. x \<noteq> ''dist_commission'' \<Longrightarrow> tabs db1 x = tabs db x" "holdsMap commissionIn ?m' (tabs db1 ''dist_commission'')"
    by (rule commission_table.guarded_update [OF held upd, where Q = ?Q and upd = ?new]) (use guard new in blast)+
  note look = commission_lookup [OF u(3) sel]
  show ?thesis
  proof (cases "?m k")
    case None
    then show ?thesis using u look
      by (auto simp: sqlSetCommissionAvailableAt_def SetCommissionAvailableAt_def commission_texts availableAtUpdateS_def
          step_simps unstampedResult_def)
  next
    case (Some c)
    then obtain s where "sqlCommission h k db1 = (Inr ((if ?Q c then ?new c else c)\<lparr>cSettledAt := s\<rparr>), db1)"
      using look by (auto split: if_splits)
    then show ?thesis using u Some
      by (auto simp: sqlSetCommissionAvailableAt_def SetCommissionAvailableAt_def commission_texts availableAtUpdateS_def
          step_simps unstampedResult_def conflict_def Let_def storeCommission_def change_def insertDue_data)
  qed
qed

subsection \<open>The transition\<close>

definition commissionMoved :: "commission_state \<Rightarrow> commission \<Rightarrow> commission" where
  "commissionMoved to c = c\<lparr>cState := to, cVersion := cVersion c + 1\<rparr>"

text \<open>The update is made before the transition is judged, so it is described for any two states.\<close>

lemma transition_update:
  fixes h :: "'db tx_handle"
  assumes held: "holdsMap commissionIn m (tabs db ''dist_commission'')"
    and upd: "answersUpdate h tabs (commissionUpdateS k from to n)" and code: "commissionStateCode to < 256"
    and fits: "\<And>c. m k = Some c \<Longrightarrow> fitsValues ''dist_commission'' (commissionRowValues (commissionMoved to c))"
  obtains db' where
    "updateVersioned h (transitionUpdate (hDialect h) k from to n) db =
       (Inr (if \<exists>c. m k = Some c \<and> cState c = from \<and> cVersion c = n then 1 else 0), db')"
    "\<And>x. x \<noteq> ''dist_commission'' \<Longrightarrow> tabs db' x = tabs db x"
    "holdsMap commissionIn (case m k of Some c \<Rightarrow> if cState c = from \<and> cVersion c = n then m(k \<mapsto> commissionMoved to c) else m
       | None \<Rightarrow> m) (tabs db' ''dist_commission'')"
proof -
  let ?Q = "\<lambda>c. cState c = from \<and> cVersion c = n"
  let ?as = "[SetVal ''state'' (SInt (commissionStateCode to)), SetSame ''settled_at'', SetNext ''version'']"
  let ?guard = "[CondEq ''state'' (SInt (commissionStateCode from)), CondEq ''version'' (SInt n)]"
  have guard: "matches ?guard r \<longleftrightarrow> ?Q c" if "commissionIn k c r" for c r
    using commissionIn_cols [OF that] by (simp add: matches_def commission_code_inj)
  have new: "commissionIn k (commissionMoved to c) (updateRow ?as r) \<and> fitsTable ''dist_commission'' (updateRow ?as r)"
    if "m k = Some c" "commissionIn k c r" for c r
    by (rule moved_row [OF that(2) fits [OF that(1)], of _ "\<lambda>s. s"])
      (use code in \<open>simp_all add: commissionHeld_def commissionCols_def commissionRowValues_def updateRow_def commissionMoved_def\<close>)
  have ans: "answersUpdate h tabs (UpdateS ''dist_commission'' ?as (idIs k @ ?guard))"
    using upd by (simp add: commissionUpdateS_def)
  obtain db1 where
    "updateVersioned h (stmtPieces (hDialect h) (UpdateS ''dist_commission'' ?as (idIs k @ ?guard))) db =
       (Inr (if \<exists>c. m k = Some c \<and> ?Q c then 1 else 0), db1)"
    "\<And>x. x \<noteq> ''dist_commission'' \<Longrightarrow> tabs db1 x = tabs db x"
    "holdsMap commissionIn (case m k of Some c \<Rightarrow> if ?Q c then m(k \<mapsto> commissionMoved to c) else m | None \<Rightarrow> m)
       (tabs db1 ''dist_commission'')"
    by (rule commission_table.guarded_update [OF held ans, where Q = ?Q and upd = "commissionMoved to"]) (use guard new in blast)+
  then show thesis using that [of db1] by (simp add: commission_texts commissionUpdateS_def)
qed

text \<open>The settlement stamp changes nothing that the in-memory store holds.\<close>

lemma stamp_update:
  fixes h :: "'db tx_handle"
  assumes held: "holdsMap commissionIn m (tabs db ''dist_commission'')"
    and upd: "answersUpdate h tabs (settledStampS k now)" and now: "storable now"
    and fits: "\<And>c. m k = Some c \<Longrightarrow> fitsValues ''dist_commission'' (commissionRowValues c)"
  obtains i db' where "updateVersioned h (settledStamp (hDialect h) k now) db = (Inr i, db')"
    "\<And>x. x \<noteq> ''dist_commission'' \<Longrightarrow> tabs db' x = tabs db x" "holdsMap commissionIn m (tabs db' ''dist_commission'')"
proof -
  let ?as = "[SetVal ''settled_at'' (instantOrNull now)]" and ?guard = "[CondNull ''settled_at'']"
  have new: "commissionIn k c (updateRow ?as r) \<and> fitsTable ''dist_commission'' (updateRow ?as r)"
    if "m k = Some c" "commissionIn k c r" for c r
    by (rule moved_row [OF that(2) fits [OF that(1)], of _ "\<lambda>_. now"])
      (use now in \<open>simp_all add: commissionHeld_def commissionCols_def commissionRowValues_def updateRow_def\<close>)
  have ans: "answersUpdate h tabs (UpdateS ''dist_commission'' ?as (idIs k @ ?guard))"
    using upd by (simp add: settledStampS_def)
  obtain i db1 where "updateVersioned h (stmtPieces (hDialect h) (UpdateS ''dist_commission'' ?as (idIs k @ ?guard))) db = (Inr i, db1)"
    "\<And>x. x \<noteq> ''dist_commission'' \<Longrightarrow> tabs db1 x = tabs db x" "holdsMap commissionIn m (tabs db1 ''dist_commission'')"
    by (rule commission_table.harmless_update [OF held ans]) (use new in blast)+
  then show thesis using that [of i db1] by (simp add: commission_texts settledStampS_def)
qed

text \<open>After the update of a legal transition the row is read, and stamped and read again when it is settled first.\<close>

lemma moved_read:
  fixes h :: "'db tx_handle"
  assumes held: "holdsMap commissionIn m (tabs db ''dist_commission'')" and entry: "m k = Some c"
    and sel: "answersSelect h tabs (commissionSelectS k)" and upd: "answersUpdate h tabs (settledStampS k now)"
    and now: "storable now" and fits: "fitsValues ''dist_commission'' (commissionRowValues c)"
  shows "\<exists>s db'. andThen (sqlCommission h k) (\<lambda>cur.
        if to = CommissionSettled \<and> cSettledAt cur = 0
        then andThen (updateVersioned h (settledStamp (hDialect h) k now)) (\<lambda>_. sqlCommission h k)
        else ret cur) db = (Inr (c\<lparr>cSettledAt := s\<rparr>), db') \<and>
    holdsMap commissionIn m (tabs db' ''dist_commission'') \<and> (\<forall>x. x \<noteq> ''dist_commission'' \<longrightarrow> tabs db' x = tabs db x)"
proof -
  obtain s where s: "sqlCommission h k db = (Inr (c\<lparr>cSettledAt := s\<rparr>), db)"
    using commission_lookup [OF held sel] entry by auto
  obtain i db2 where st: "updateVersioned h (settledStamp (hDialect h) k now) db = (Inr i, db2)"
    "\<And>x. x \<noteq> ''dist_commission'' \<Longrightarrow> tabs db2 x = tabs db x" "holdsMap commissionIn m (tabs db2 ''dist_commission'')"
    by (rule stamp_update [OF held upd now]) (use fits entry in auto)
  obtain s' where s': "sqlCommission h k db2 = (Inr (c\<lparr>cSettledAt := s'\<rparr>), db2)"
    using commission_lookup [OF st(3) sel] entry by auto
  show ?thesis
  proof (cases "to = CommissionSettled \<and> s = 0")
    case True
    then show ?thesis using st(2,3) by (intro exI [of _ s'] exI [of _ db2]) (simp add: s s' st(1) step_simps)
  next
    case False
    then show ?thesis using held by (intro exI [of _ s] exI [of _ db]) (auto simp: s step_simps)
  qed
qed

text \<open>The transition on a table that holds the commissions \<open>m\<close>, case by case.\<close>

lemma commission_transition:
  fixes h :: "'db tx_handle"
  assumes held: "holdsMap commissionIn m (tabs db ''dist_commission'')"
    and answered: "answers h tabs [commissionUpdateS k from to n, commissionSelectS k, settledStampS k now]"
    and stored: "storable now" "commissionStateCode to < 256"
    and fits: "\<forall>c. m k = Some c \<longrightarrow> fitsValues ''dist_commission'' (commissionRowValues (commissionMoved to c))"
  shows "\<exists>s db'. sqlTransitionCommission h now k from to n db =
      (case m k of
         None \<Rightarrow> Inl (Ledger ErrNotFound)
       | Some c \<Rightarrow>
           if cState c \<noteq> from
           then Inl (conflict ''commission state'' (commissionStateCode from) (commissionStateCode (cState c)))
           else if cVersion c \<noteq> n then Inl (conflict ''commission'' n (cVersion c))
           else (case ValidateCommissionTransition from to of
               Some e \<Rightarrow> Inl (Ledger e) | None \<Rightarrow> Inr ((commissionMoved to c)\<lparr>cSettledAt := s\<rparr>)), db') \<and>
    holdsMap commissionIn (case m k of None \<Rightarrow> m | Some c \<Rightarrow>
        if cState c = from \<and> cVersion c = n then m(k \<mapsto> commissionMoved to c) else m) (tabs db' ''dist_commission'') \<and>
    (\<forall>x. x \<noteq> ''dist_commission'' \<longrightarrow> tabs db' x = tabs db x)"
proof -
  have ans: "answersUpdate h tabs (commissionUpdateS k from to n)" "answersSelect h tabs (commissionSelectS k)"
    "answersUpdate h tabs (settledStampS k now)" using answered by (simp_all add: answers_def)
  obtain db1 where u: "updateVersioned h (transitionUpdate (hDialect h) k from to n) db =
       (Inr (if \<exists>c. m k = Some c \<and> cState c = from \<and> cVersion c = n then 1 else 0), db1)"
    "\<And>x. x \<noteq> ''dist_commission'' \<Longrightarrow> tabs db1 x = tabs db x"
    "holdsMap commissionIn (case m k of Some c \<Rightarrow> if cState c = from \<and> cVersion c = n then m(k \<mapsto> commissionMoved to c) else m
       | None \<Rightarrow> m) (tabs db1 ''dist_commission'')"
    by (rule transition_update [OF held ans(1) stored(2)]) (use fits in auto)
  note look = commission_lookup [OF u(3) ans(2)]
  show ?thesis
  proof (cases "\<exists>c. m k = Some c \<and> cState c = from \<and> cVersion c = n")
    case False
    then show ?thesis using u look by (auto simp: sqlTransitionCommission_def step_simps split: option.splits)
  next
    case True
    then obtain c where c: "m k = Some c" "cState c = from" "cVersion c = n" by blast
    show ?thesis
    proof (cases "ValidateCommissionTransition from to")
      case (Some e)
      then show ?thesis using u c by (auto simp: sqlTransitionCommission_def step_simps)
    next
      case None
      have "holdsMap commissionIn (m(k \<mapsto> commissionMoved to c)) (tabs db1 ''dist_commission'')" using u(3) c by simp
      from moved_read [OF this _ ans(2,3) stored(1), of "commissionMoved to c" "to"]
      show ?thesis using u c None fits by (auto simp: sqlTransitionCommission_def andThen_run)
    qed
  qed
qed

text \<open>The same in the in-memory store.\<close>

lemma TransitionCommission_run:
  "fst (TransitionCommission k from to n t) = (case dCommissions (txD t) k of
       None \<Rightarrow> Inl ErrNotFound
     | Some c \<Rightarrow>
         if cState c \<noteq> from
         then Inl (ConflictError ''commission state'' (commissionStateCode from) (commissionStateCode (cState c)))
         else if cVersion c \<noteq> n then Inl (ConflictError ''commission'' n (cVersion c))
         else (case ValidateCommissionTransition from to of Some e \<Rightarrow> Inl e | None \<Rightarrow> Inr (commissionMoved to c)))"
  "dCommissions (txD (snd (TransitionCommission k from to n t))) = (case dCommissions (txD t) k of
       None \<Rightarrow> dCommissions (txD t)
     | Some c \<Rightarrow> if cState c = from \<and> cVersion c = n \<and> CanTransitionCommission from to
         then (dCommissions (txD t))(k \<mapsto> commissionMoved to c) else dCommissions (txD t))"
  by (auto simp: TransitionCommission_def Let_def commissionMoved_def storeCommission_def change_def removeDue_data
      ValidateCommissionTransition_None [symmetric] split: option.split)

text \<open>
  A commission changes its state through the SQL store as through the in-memory store: on a table that
  holds the commissions of the in-memory transaction, and for a database that answers the update, the lookup
  and the settlement stamp as SQL prescribes, \<open>TransitionCommission\<close> of store/sql returns what
  \<open>TransitionCommission\<close> of store/memory returns, the settlement stamp apart (the moved commission, or
  exactly the same error: not found, the conflict on the state or on the version, the illegal transition),
  and touches no other table. Unless the transition is illegal the table then holds the commissions of the
  in-memory store; where it is, the row was already updated, and it is the rollback that undoes it.
\<close>

theorem transition_commission_agrees:
  assumes held: "holdsMap commissionIn (dCommissions (txD t)) (tabs db ''dist_commission'')"
    and answered: "answers h tabs [commissionUpdateS k from to n, commissionSelectS k, settledStampS k now]"
    and stored: "storable now" "commissionStateCode to < 256"
    and fits: "\<And>c. dCommissions (txD t) k = Some c \<Longrightarrow> fitsValues ''dist_commission'' (commissionRowValues (commissionMoved to c))"
  shows "\<exists>r db'. sqlTransitionCommission h now k from to n db = (r, db') \<and>
    unstampedResult r = unstampedResult (asLedger (fst (TransitionCommission k from to n t))) \<and>
    (\<forall>x. x \<noteq> ''dist_commission'' \<longrightarrow> tabs db' x = tabs db x) \<and>
    (CanTransitionCommission from to \<longrightarrow>
      holdsMap commissionIn (dCommissions (txD (snd (TransitionCommission k from to n t)))) (tabs db' ''dist_commission''))"
proof -
  have "\<forall>c. dCommissions (txD t) k = Some c \<longrightarrow> fitsValues ''dist_commission'' (commissionRowValues (commissionMoved to c))"
    using fits by blast
  note run = commission_transition [where m = "dCommissions (txD t)" and tabs = tabs and db = db and h = h and k = k and n = n
      and now = now, OF held answered stored this]
  from run show ?thesis
  proof (elim exE conjE, goal_cases)
    case (1 s db')
    show ?case
      by (intro exI conjI, rule 1(1))
        (use 1(2,3) in \<open>auto simp: TransitionCommission_run unstampedResult_def conflict_def
            ValidateCommissionTransition_None [symmetric] split: option.splits\<close>)
  qed
qed

definition heldCommission :: commission where
  "heldCommission = zeroCommission\<lparr>cID := 5, cKey := OrderKey 1 ''A1'', cIdemKey := ''k'', cBuyerUserID := 30, cAgentUserID := 10,
     cLayer := 1, cBaseAmount := 10000, cRate := 500, cAmount := 500, cState := CommissionPending,
     cAvailableAt := unixEpoch + 1000, cAccruedAt := unixEpoch, cVersion := 2\<rparr>"

definition commissionTx :: txn where
  "commissionTx = \<lparr>txD = newData\<lparr>dCommissions := [5 \<mapsto> heldCommission]\<rparr>, txU = newUndo newData\<rparr>"

definition commissionTables :: tables where
  "commissionTables = (\<lambda>_. [])(''dist_commission'' := [rowFrom commissionCols (commissionRowValues heldCommission)])"

lemma commissionTables_held: "holdsMap commissionIn (dCommissions (txD commissionTx)) (commissionTables ''dist_commission'')"
proof -
  have "map (rowFrom commissionCols (commissionRowValues heldCommission)) commissionCols = commissionRowValues heldCommission"
    by (rule map_rowFrom) (simp_all add: commissionCols_def commissionRowValues_def)
  then have "commissionIn 5 heldCommission (rowFrom commissionCols (commissionRowValues heldCommission))"
    by (auto simp: commissionIn_def commissionHeld_def heldCommission_def zeroCommission_def storable_def in64_def intro!: exI [of _ 0])
  then show ?thesis by (auto simp: holdsMap_def commissionTx_def commissionTables_def intro!: exI [of _ "[5]"])
qed

text \<open>A driver for the three statements of a transition: it answers two updates and a lookup.\<close>

definition settlingHandle :: "dialect \<Rightarrow> tables tx_handle" where
  "settlingHandle d = referenceHandle d
     [commissionUpdateS 5 CommissionPending CommissionSettled 2, commissionSelectS 5, settledStampS 5 (unixEpoch + 2000)]"

lemma settlingHandle_answers:
  "answers (settlingHandle d) (\<lambda>db. db)
     [commissionUpdateS 5 CommissionPending CommissionSettled 2, commissionSelectS 5, settledStampS 5 (unixEpoch + 2000)]"
proof -
  have "length (snd (stmtSQL d (commissionUpdateS 5 CommissionPending CommissionSettled 2))) = 4"
    "length (snd (stmtSQL d (settledStampS 5 (unixEpoch + 2000)))) = 2"
    by (simp_all add: stmtSQL_def commissionUpdateS_def settledStampS_def updateWhere_def setTo_def idIs_def argsAdd_def
        split: prod.split)
  then have "stmtSQL d (commissionUpdateS 5 CommissionPending CommissionSettled 2) \<noteq> stmtSQL d (settledStampS 5 (unixEpoch + 2000))"
    by auto
  then show ?thesis
    unfolding settlingHandle_def commissionUpdateS_def settledStampS_def commissionSelectS_def by (rule reference_answers_updates)
qed

theorem transition_commission_agrees_witness:
  "\<exists>r db'. sqlTransitionCommission (settlingHandle (mysql (\<lambda>_. []))) (unixEpoch + 2000) 5 CommissionPending CommissionSettled 2
       commissionTables = (r, db') \<and>
     unstampedResult r = unstampedResult (asLedger (fst (TransitionCommission 5 CommissionPending CommissionSettled 2 commissionTx))) \<and>
     (\<forall>x. x \<noteq> ''dist_commission'' \<longrightarrow> db' x = commissionTables x) \<and>
     holdsMap commissionIn (dCommissions (txD (snd (TransitionCommission 5 CommissionPending CommissionSettled 2 commissionTx))))
       (db' ''dist_commission'')"
proof -
  have can: "CanTransitionCommission CommissionPending CommissionSettled" by (simp add: CanTransitionCommission_def commissionStateValid_def)
  have "\<exists>r db'. sqlTransitionCommission (settlingHandle (mysql (\<lambda>_. []))) (unixEpoch + 2000) 5 CommissionPending CommissionSettled 2
       commissionTables = (r, db') \<and>
     unstampedResult r = unstampedResult (asLedger (fst (TransitionCommission 5 CommissionPending CommissionSettled 2 commissionTx))) \<and>
     (\<forall>x. x \<noteq> ''dist_commission'' \<longrightarrow> db' x = commissionTables x) \<and>
     (CanTransitionCommission CommissionPending CommissionSettled \<longrightarrow>
       holdsMap commissionIn (dCommissions (txD (snd (TransitionCommission 5 CommissionPending CommissionSettled 2 commissionTx))))
         (db' ''dist_commission''))"
  proof (rule transition_commission_agrees [where tabs = "\<lambda>db. db" and t = commissionTx])
    show "holdsMap commissionIn (dCommissions (txD commissionTx)) (commissionTables ''dist_commission'')" by (rule commissionTables_held)
    show "answers (settlingHandle (mysql (\<lambda>_. []))) (\<lambda>db. db)
       [commissionUpdateS 5 CommissionPending CommissionSettled 2, commissionSelectS 5, settledStampS 5 (unixEpoch + 2000)]"
      by (rule settlingHandle_answers)
    show "storable (unixEpoch + 2000)" "commissionStateCode CommissionSettled < 256" by (simp_all add: storable_def in64_def)
    show "fitsValues ''dist_commission'' (commissionRowValues (commissionMoved CommissionSettled c))"
      if "dCommissions (txD commissionTx) 5 = Some c" for c
    proof -
      have "c = heldCommission" using that by (simp add: commissionTx_def)
      then show ?thesis
        by (simp add: commissionMoved_def fitsValues_def commissionRowValues_def table_columns tableCommissionDef_def
            heldCommission_def zeroCommission_def valueFits_def in64_def moneyVal_def instantOrNull_def unixNano_def
            nullableString_def sizeIdemKey_def sizeOrderID_def sizeItemID_def)
    qed
  qed
  then show ?thesis using can by blast
qed

subsection \<open>Reversed amounts\<close>

text \<open>
  Where the stores differ is excluded here: a negative amount (which the SQL store refuses before it looks
  for the row) and the amount the row already has.
\<close>

definition reversedAmountUpdateS :: "int \<Rightarrow> money \<Rightarrow> int \<Rightarrow> stmt" where
  "reversedAmountUpdateS k reversed n = UpdateS ''dist_commission''
     [SetVal ''reversed_amount'' (moneyVal reversed), SetNext ''version'']
     (idIs k @ [CondEq ''version'' (SInt n), CondGe ''amount'' (moneyVal reversed)])"

lemma reversed_text: "reversedAmountUpdate d k reversed n = stmtPieces d (reversedAmountUpdateS k reversed n)"
  by (simp add: reversedAmountUpdate_def reversedAmountUpdateS_def idIs_def bumpVersion_def setTo_def)

theorem set_reversed_amount_agrees:
  assumes held: "holdsMap commissionIn (dCommissions (txD t)) (tabs db ''dist_commission'')"
    and answered: "answers h tabs [reversedAmountUpdateS k reversed n, commissionSelectS k]"
    and amount: "0 \<le> sint reversed" "\<And>c. dCommissions (txD t) k = Some c \<Longrightarrow> 0 \<le> sint (cAmount c) \<and> cReversedAmount c \<noteq> reversed"
    and fits: "\<And>c. dCommissions (txD t) k = Some c \<Longrightarrow>
      fitsValues ''dist_commission'' (commissionRowValues (c\<lparr>cReversedAmount := reversed, cVersion := cVersion c + 1\<rparr>))"
  shows "\<exists>r db'. sqlSetCommissionReversedAmount h k reversed n db = (r, db') \<and>
    unstampedResult r = unstampedResult (asLedger (fst (SetCommissionReversedAmount k reversed n t))) \<and>
    holdsMap commissionIn (dCommissions (txD (snd (SetCommissionReversedAmount k reversed n t)))) (tabs db' ''dist_commission'') \<and>
    (\<forall>x. x \<noteq> ''dist_commission'' \<longrightarrow> tabs db' x = tabs db x)"
proof -
  let ?m = "dCommissions (txD t)" and ?Q = "\<lambda>c. cVersion c = n \<and> sint reversed \<le> sint (cAmount c)"
  let ?new = "\<lambda>c. c\<lparr>cReversedAmount := reversed, cVersion := cVersion c + 1\<rparr>"
  let ?as = "[SetVal ''reversed_amount'' (moneyVal reversed), SetNext ''version'']"
  let ?guard = "[CondEq ''version'' (SInt n), CondGe ''amount'' (moneyVal reversed)]"
  let ?m' = "case ?m k of Some c \<Rightarrow> if ?Q c then ?m(k \<mapsto> ?new c) else ?m | None \<Rightarrow> ?m"
  have guard: "matches ?guard r \<longleftrightarrow> ?Q c" if "commissionIn k c r" for c r
    using that by (auto simp: commissionIn_def commissionCols_def commissionRowValues_def matches_def moneyVal_def)
  have new: "commissionIn k (?new c) (updateRow ?as r) \<and> fitsTable ''dist_commission'' (updateRow ?as r)"
    if "?m k = Some c" "commissionIn k c r" for c r
    by (rule moved_row [OF that(2) fits [OF that(1)], of _ "\<lambda>s. s"])
      (simp_all add: commissionHeld_def commissionCols_def commissionRowValues_def updateRow_def)
  have upd: "answersUpdate h tabs (UpdateS ''dist_commission'' ?as (idIs k @ ?guard))"
    and sel: "answersSelect h tabs (commissionSelectS k)"
    using answered by (simp_all add: answers_def reversedAmountUpdateS_def)
  obtain db1 where u:
    "updateVersioned h (stmtPieces (hDialect h) (UpdateS ''dist_commission'' ?as (idIs k @ ?guard))) db =
       (Inr (if \<exists>c. ?m k = Some c \<and> ?Q c then 1 else 0), db1)"
    "\<And>x. x \<noteq> ''dist_commission'' \<Longrightarrow> tabs db1 x = tabs db x" "holdsMap commissionIn ?m' (tabs db1 ''dist_commission'')"
    by (rule commission_table.guarded_update [OF held upd, where Q = ?Q and upd = ?new]) (use guard new in blast)+
  note look = commission_lookup [OF u(3) sel]
  have pos: "\<not> reversed <s 0" using amount(1) by (simp add: word_sless_alt)
  show ?thesis
  proof (cases "?m k")
    case None
    then show ?thesis using u look pos
      by (auto simp: sqlSetCommissionReversedAmount_def SetCommissionReversedAmount_def reversed_text reversedAmountUpdateS_def
          step_simps unstampedResult_def)
  next
    case (Some c)
    have max: "MaxReversible c <s reversed \<longleftrightarrow> \<not> sint reversed \<le> sint (cAmount c)"
      using amount Some by (auto simp: MaxReversible_def word_sless_alt word_sle_eq)
    obtain s where "sqlCommission h k db1 = (Inr ((if ?Q c then ?new c else c)\<lparr>cSettledAt := s\<rparr>), db1)"
      using look Some by (auto split: if_splits)
    moreover have "MaxReversible (c\<lparr>cSettledAt := s\<rparr>) = MaxReversible c" for s by (simp add: MaxReversible_def)
    ultimately show ?thesis using u Some pos max amount(2)
      by (auto simp: sqlSetCommissionReversedAmount_def SetCommissionReversedAmount_def reversed_text reversedAmountUpdateS_def
          step_simps unstampedResult_def conflict_def Let_def storeCommission_def change_def)
  qed
qed

end
