(* ===== verification/SqlRetry.thy ===== *)
theory SqlRetry
  imports SqlReference
begin

text \<open>
  The transactions of the SQL store: which attempts \<open>Update\<close> makes and what it returns, how long it waits
  between them, and that a transaction is committed as a whole or not at all.
\<close>

subsection \<open>Retries\<close>

text \<open>The connection after a number of failed attempts, and whether an attempt ends the loop.\<close>

primrec failedRuns :: "'db driver \<Rightarrow> (dberr, 'db, 'a) estep \<Rightarrow> nat \<Rightarrow> 'db \<Rightarrow> 'db" where
  "failedRuns v fn 0 db = db"
| "failedRuns v fn (Suc k) db = snd (runTx v False fn (failedRuns v fn k db))"

definition waitEnded :: "(int \<Rightarrow> dberr option) \<Rightarrow> nat \<Rightarrow> dberr option" where
  "waitEnded ended k = (if k > 0 then ended (int k) else None)"

definition attemptEnds ::
  "(int \<Rightarrow> dberr option) \<Rightarrow> sql_store \<Rightarrow> 'db driver \<Rightarrow> (dberr, 'db, 'a) estep \<Rightarrow> 'db \<Rightarrow> nat \<Rightarrow> bool" where
  "attemptEnds ended s v fn db k \<longleftrightarrow> waitEnded ended k \<noteq> None \<or>
     (case fst (runTx v False fn (failedRuns v fn k db)) of Inr _ \<Rightarrow> True | Inl e \<Rightarrow> \<not> clIsRetryable (ssClassifier s) e)"

definition attemptResult ::
  "(int \<Rightarrow> dberr option) \<Rightarrow> 'db driver \<Rightarrow> (dberr, 'db, 'a) estep \<Rightarrow> 'db \<Rightarrow> nat \<Rightarrow> (dberr + 'a) \<times> 'db" where
  "attemptResult ended v fn db k = (case waitEnded ended k of
      Some e \<Rightarrow> (Inl e, failedRuns v fn k db)
    | None \<Rightarrow> runTx v False fn (failedRuns v fn k db))"

definition gaveUp :: "sql_store \<Rightarrow> dberr option \<Rightarrow> dberr" where
  "gaveUp s lastErr = Context (''sqlstore: transaction failed after '' @ formatInt (ssMaxRetries s) @ '' retries'')
     (case lastErr of None \<Rightarrow> Plain ''%!w(<nil>)'' | Some e \<Rightarrow> e)"

definition errorOf :: "'e + 'a \<Rightarrow> 'e option" where
  "errorOf r = (case r of Inl e \<Rightarrow> Some e | Inr _ \<Rightarrow> None)"

lemma updateFrom_find:
  assumes "ssMaxRetries s = int m" "n \<le> Suc m" "n = 0 \<Longrightarrow> lastErr = None"
    "n > 0 \<Longrightarrow> lastErr = errorOf (fst (runTx v False fn (failedRuns v fn (n - 1) db)))"
  shows "updateFrom ended s v fn (int n) lastErr (failedRuns v fn n db) =
    (case find (attemptEnds ended s v fn db) [n..<Suc m] of
       Some k \<Rightarrow> attemptResult ended v fn db k
     | None \<Rightarrow> (Inl (gaveUp s (errorOf (fst (runTx v False fn (failedRuns v fn m db))))), failedRuns v fn (Suc m) db))"
  using assms(2-)
proof (induction "Suc m - n" arbitrary: n lastErr)
  case 0
  then have n: "n = Suc m" by simp
  then have "updateFrom ended s v fn (int n) lastErr = throw (gaveUp s lastErr)"
    using assms(1) by (subst updateFrom.simps) (simp add: gaveUp_def)
  then show ?case using 0 n by (simp add: step_simps)
next
  case (Suc j)
  have "n \<le> m" using Suc.hyps(2) by arith
  then have n: "n \<le> m" "[n..<Suc m] = n # [Suc n..<Suc m]" by (simp_all add: upt_conv_Cons del: upt_Suc)
  let ?run = "runTx v False fn (failedRuns v fn n db)"
  show ?case
  proof (cases "attemptEnds ended s v fn db n")
    case True
    then show ?thesis using n assms(1)
      by (subst updateFrom.simps)
        (auto simp: attemptEnds_def attemptResult_def waitEnded_def step_simps prod_eq_iff split: option.splits sum.splits)
  next
    case False
    then obtain e where e: "fst ?run = Inl e" "clIsRetryable (ssClassifier s) e" "waitEnded ended n = None"
      by (auto simp: attemptEnds_def split: sum.splits)
    have next_run: "updateFrom ended s v fn (int (Suc n)) (Some e) (failedRuns v fn (Suc n) db) =
      (case find (attemptEnds ended s v fn db) [Suc n..<Suc m] of
         Some k \<Rightarrow> attemptResult ended v fn db k
       | None \<Rightarrow> (Inl (gaveUp s (errorOf (fst (runTx v False fn (failedRuns v fn m db))))), failedRuns v fn (Suc m) db))"
      by (rule Suc.hyps(1)) (use Suc.hyps(2) n e in \<open>auto simp: errorOf_def\<close>)
    have "updateFrom ended s v fn (int n) lastErr (failedRuns v fn n db) =
        updateFrom ended s v fn (int (Suc n)) (Some e) (failedRuns v fn (Suc n) db)"
      using n(1) e assms(1) by (subst updateFrom.simps) (simp add: waitEnded_def step_simps add.commute)
    then show ?thesis using next_run n(2) False by simp
  qed
qed

text \<open>
  C21. \<open>Update\<close> of the SQL store ends after at most \<open>maxRetries + 1\<close> attempts, and returns what the first
  attempt returns that succeeds or fails with an error the classifier does not call retryable; an attempt
  before which the context ends returns the context's error without running. When every attempt fails
  with a retryable error, \<open>Update\<close> returns the last of them, wrapped with the number of retries.
\<close>

theorem update_retries:
  assumes "ssMaxRetries s = int m"
  shows "sqlUpdate ended s v fn db =
    (case find (attemptEnds ended s v fn db) [0..<Suc m] of
       Some k \<Rightarrow> attemptResult ended v fn db k
     | None \<Rightarrow> (Inl (gaveUp s (errorOf (fst (runTx v False fn (failedRuns v fn m db))))), failedRuns v fn (Suc m) db))"
  using updateFrom_find [of s m 0 None v fn db ended] assms by (simp add: sqlUpdate_def del: upt_Suc)

text \<open>A driver whose first two commits meet a deadlock; its state counts the commits.\<close>

definition deadlockError :: dberr where
  "deadlockError = Driver \<lparr>shNumber = Some 1213, shSQLState = None, shFields = Map.empty, shText = ''deadlock found''\<rparr> None"

definition contendedDriver :: "nat driver" where
  "contendedDriver =
     \<lparr>drBegin = (\<lambda>_. ret ()), drCommit = (\<lambda>n. (if n < 2 then Inl deadlockError else Inr (), n + 1)), drRollback = ret (),
      drExec = (\<lambda>_ _. throw NoRows), drQuery = (\<lambda>_ _. throw NoRows)\<rparr>"

definition contendedStore :: "int \<Rightarrow> sql_store" where
  "contendedStore m = \<lparr>ssDialect = mysql (\<lambda>_. []), ssClassifier = fallbackClassifier (\<lambda>_. []), ssMaxRetries = m, ssRetryWait = 2000000\<rparr>"

lemma contended_runs:
  "runTx contendedDriver False (ret ()) n = (if n < 2 then (Inl (Context ''sqlstore: commit'' deadlockError), n + 1) else (Inr (), n + 1))"
  by (simp add: runTx_def rollbackWith_def contendedDriver_def step_simps)

lemma deadlock_retryable: "clIsRetryable (ssClassifier (contendedStore m)) (Context ''sqlstore: commit'' deadlockError)"
  by (simp add: contendedStore_def fallbackClassifier_def retryable_def numericRetryable_def errorCode_def deadlockError_def uint32_def)

text \<open>The third attempt succeeds within five retries, and one retry is not enough.\<close>

theorem update_retries_witness:
  "sqlUpdate (\<lambda>_. None) (contendedStore 5) contendedDriver (ret ()) 0 = (Inr (), 3) \<and>
   sqlUpdate (\<lambda>_. None) (contendedStore 1) contendedDriver (ret ()) 0 =
     (Inl (Context ''sqlstore: transaction failed after 1 retries'' (Context ''sqlstore: commit'' deadlockError)), 2)"
proof -
  have runs: "failedRuns contendedDriver (ret ()) k 0 = k" for k
    by (induction k) (simp_all add: contended_runs)
  have ends: "attemptEnds (\<lambda>_. None) (contendedStore m) contendedDriver (ret ()) 0 k \<longleftrightarrow> k \<ge> 2" for m k
    by (simp add: attemptEnds_def waitEnded_def runs contended_runs deadlock_retryable)
  have one: "formatInt 1 = ''1''" by code_simp
  have retries: "ssMaxRetries (contendedStore m) = m" for m by (simp add: contendedStore_def)
  have "ssMaxRetries (contendedStore 5) = int 5" "ssMaxRetries (contendedStore 1) = int 1" by (simp_all add: retries)
  from this [THEN update_retries [where ended = "\<lambda>_. None" and v = contendedDriver and fn = "ret ()" and db = 0]]
  show ?thesis
    by (simp add: ends attemptResult_def waitEnded_def runs contended_runs gaveUp_def errorOf_def upt_rec retries
        one)
qed

subsection \<open>The wait before a retry\<close>

text \<open>
  The wait before a retry is positive and at most 200ms, whatever the base delay and the number of the
  attempt, also where the shift overflows; and where it does not overflow, the wait is the base delay
  doubled with every attempt, capped at 200ms.
\<close>

theorem retry_wait_bounded:
  "0 < sint (waitBeforeRetry s k) \<and> sint (waitBeforeRetry s k) \<le> 200000000 \<and>
   (0 < sint (ssRetryWait s) \<and> sint (ssRetryWait s) * 2 ^ (k - 1) < 2 ^ 63 \<longrightarrow>
     sint (waitBeforeRetry s k) = min 200000000 (sint (ssRetryWait s) * 2 ^ (k - 1)))"
proof (intro conjI impI)
  show "0 < sint (waitBeforeRetry s k)" "sint (waitBeforeRetry s k) \<le> 200000000"
    by (auto simp: waitBeforeRetry_def Let_def sless_sint word_sle_eq)
next
  let ?d = "ssRetryWait s"
  assume a: "0 < sint ?d \<and> sint ?d * 2 ^ (k - 1) < 2 ^ 63"
  have "push_bit (k - 1) ?d = word_of_int (sint ?d * 2 ^ (k - 1))"
    by (simp add: push_bit_eq_mult mult.commute)
  moreover have "in64 (sint ?d * 2 ^ (k - 1))"
    using a by (simp add: in64_def) (smt (verit) zero_less_mult_iff zero_less_power)
  ultimately have "sint (push_bit (k - 1) ?d) = sint ?d * 2 ^ (k - 1)"
    using sint_word_of_int64 by metis
  then show "sint (waitBeforeRetry s k) = min 200000000 (sint ?d * 2 ^ (k - 1))"
    using a mult_pos_pos [of "sint ?d" "2 ^ (k - 1)"]
    by (auto simp: waitBeforeRetry_def Let_def sless_sint word_sle_eq min_def simp del: mult_pos_pos zero_less_mult_iff)
qed

theorem retry_wait_bounded_witness:
  "sint (waitBeforeRetry (contendedStore 5) 3) = 8000000 \<and> sint (waitBeforeRetry (contendedStore 5) 9) = 200000000"
  using retry_wait_bounded [of "contendedStore 5" 3] retry_wait_bounded [of "contendedStore 5" 9]
  by (simp add: contendedStore_def)

subsection \<open>Transactions\<close>

text \<open>
  What database/sql and the databases promise of a transaction, for a reading \<open>committed\<close> of the
  connection's state: only a commit that succeeds changes what is committed.
\<close>

definition transactional :: "'db driver \<Rightarrow> ('db \<Rightarrow> 'c) \<Rightarrow> bool" where
  "transactional v committed \<longleftrightarrow>
     (\<forall>db. (\<forall>ro. committed (snd (drBegin v ro db)) = committed db) \<and> committed (snd (drRollback v db)) = committed db \<and>
       (\<forall>q a. committed (snd (drExec v q a db)) = committed db) \<and> (\<forall>q a. committed (snd (drQuery v q a db)) = committed db) \<and>
       (\<forall>e. fst (drCommit v db) = Inl e \<longrightarrow> committed (snd (drCommit v db)) = committed db))"

abbreviation uncommitted :: "('db \<Rightarrow> 'c) \<Rightarrow> 'c \<Rightarrow> (dberr, 'db, 'a) estep \<Rightarrow> bool" where
  "uncommitted committed c \<equiv> keeps (\<lambda>db. committed db = c)"

lemma driver_keeps:
  assumes "transactional v committed"
  shows "uncommitted committed c (drBegin v ro)" "uncommitted committed c (drRollback v)"
    "uncommitted committed c (drExec v q a)" "uncommitted committed c (drQuery v q a)"
  using assms by (simp_all add: transactional_def keeps_def)

text \<open>No statement of the store commits anything: the operations of a transaction handle, one by one.\<close>

lemma queryRows_keeps [hoare_rules]:
  "transactional (txDriver h) committed \<Longrightarrow> uncommitted committed c (queryRows h stmt scan acc)"
  by (auto simp: queryRows_def Let_def intro!: hoare_rules driver_keeps split: prod.split)

lemma queryOne_keeps [hoare_rules]:
  "transactional (txDriver h) committed \<Longrightarrow> uncommitted committed c (queryOne h stmt scan acc)"
  by (simp add: queryOne_def queryRows_keeps)

lemma foundOr_keeps [hoare_rules]: "keeps P (foundOr e out)"
  by (auto simp: foundOr_def intro!: hoare_rules)

lemma updateVersioned_keeps [hoare_rules]:
  "transactional (txDriver h) committed \<Longrightarrow> uncommitted committed c (updateVersioned h stmt)"
  by (auto simp: updateVersioned_def Let_def intro!: hoare_rules driver_keeps split: prod.split)

lemma execInsert_keeps [hoare_rules]:
  "transactional (txDriver h) committed \<Longrightarrow> uncommitted committed c (execInsert h stmt)"
  by (auto simp: execInsert_def Let_def intro!: hoare_rules driver_keeps split: prod.split)

lemma insertReturningID_keeps [hoare_rules]:
  "transactional (txDriver h) committed \<Longrightarrow> uncommitted committed c (insertReturningID h query argv)"
  by (auto simp: insertReturningID_def queryRowID_def Let_def intro!: hoare_rules driver_keeps split: list.split)

lemma reads_keep [hoare_rules]:
  assumes "transactional (txDriver h) committed"
  shows "uncommitted committed c (sqlAgent h k)" "uncommitted committed c (sqlBinding h k)"
    "uncommitted committed c (lookupAccount h k)" "uncommitted committed c (sqlCommission h rid)"
    "uncommitted committed c (sqlWithdrawalByID h rid)"
  using assms
  by (auto simp: sqlAgent_def sqlBinding_def lookupAccount_def sqlCommission_def sqlWithdrawalByID_def oneWithdrawal_def intro!: hoare_rules)

lemma incrementFrom_keeps:
  "transactional (txDriver h) committed \<Longrightarrow> uncommitted committed c (incrementFrom h now delta n)"
proof -
  assume t: "transactional (txDriver h) committed"
  have last: "uncommitted committed c (incrementFrom h now delta (Suc k))" for k
    by (subst incrementFrom.simps) (auto intro!: hoare_rules t)
  show ?thesis
  proof (cases n)
    case 0
    show ?thesis unfolding 0 by (subst incrementFrom.simps) (auto intro!: hoare_rules t last)
  qed (simp add: last)
qed

lemma writes_keep:
  assumes "transactional (txDriver h) committed"
  shows "uncommitted committed c (sqlPutAgent h a)" "uncommitted committed c (sqlPutBinding h b)"
    "uncommitted committed c (sqlPutAccount h acct)" "uncommitted committed c (sqlIncrementAccount h now delta)"
    "uncommitted committed c (sqlAppendCommission h com)" "uncommitted committed c (sqlSetCommissionAvailableAt h rid at n)"
    "uncommitted committed c (sqlSetCommissionReversedAmount h rid amount n)"
    "uncommitted committed c (sqlTransitionCommission h now rid from to n)" "uncommitted committed c (sqlAppendRefund h r)"
    "uncommitted committed c (sqlAppendLedger h e)" "uncommitted committed c (sqlAppendWithdrawal h w)"
    "uncommitted committed c (sqlTransitionWithdrawal h rid wfrom wto n tr)"
proof -
  note rules = hoare_rules assms incrementFrom_keeps [OF assms]
  show "uncommitted committed c (sqlPutAgent h a)" by (auto simp: sqlPutAgent_def intro!: rules)
  show "uncommitted committed c (sqlPutBinding h b)" by (auto simp: sqlPutBinding_def intro!: rules)
  show "uncommitted committed c (sqlPutAccount h acct)" by (auto simp: sqlPutAccount_def intro!: rules)
  show "uncommitted committed c (sqlIncrementAccount h now delta)" by (auto simp: sqlIncrementAccount_def intro!: rules)
  show "uncommitted committed c (sqlAppendCommission h com)"
    by (auto simp: sqlAppendCommission_def Let_def intro!: rules split: prod.split option.split)
  show "uncommitted committed c (sqlSetCommissionAvailableAt h rid at n)"
    by (auto simp: sqlSetCommissionAvailableAt_def intro!: rules)
  show "uncommitted committed c (sqlSetCommissionReversedAmount h rid amount n)"
    by (auto simp: sqlSetCommissionReversedAmount_def intro!: rules)
  show "uncommitted committed c (sqlTransitionCommission h now rid from to n)"
    by (auto simp: sqlTransitionCommission_def intro!: rules split: option.split)
  show "uncommitted committed c (sqlAppendRefund h r)"
    by (auto simp: sqlAppendRefund_def Let_def intro!: rules split: prod.split option.split)
  show "uncommitted committed c (sqlAppendLedger h e)"
    by (auto simp: sqlAppendLedger_def Let_def intro!: rules split: prod.split option.split)
  show "uncommitted committed c (sqlAppendWithdrawal h w)"
    by (auto simp: sqlAppendWithdrawal_def Let_def intro!: rules split: prod.split option.split)
  show "uncommitted committed c (sqlTransitionWithdrawal h rid wfrom wto n tr)"
    by (auto simp: sqlTransitionWithdrawal_def intro!: rules)
qed

lemma runTx_atomic:
  assumes t: "transactional v committed" and fn: "\<And>c. uncommitted committed c fn"
  shows "case runTx v ro fn db of
      (Inl e, db') \<Rightarrow> committed db' = committed db
    | (Inr x, db') \<Rightarrow> \<exists>begun written. committed begun = committed db \<and> fn begun = (Inr x, written) \<and> drCommit v written = (Inr (), db')"
proof -
  have begin_: "committed (snd (drBegin v ro db')) = committed db'" for db' using t by (simp add: transactional_def)
  have run: "committed (snd (fn db')) = committed db'" for db' using keepsD [OF fn] by blast
  have undone: "committed (snd (drRollback v db')) = committed db'" for db' using t by (simp add: transactional_def)
  have failed: "committed (snd (drCommit v db')) = committed db'" if "fst (drCommit v db') = Inl e" for db' e
    using t that by (auto simp: transactional_def)
  let ?b = "snd (drBegin v ro db)" and ?w = "snd (fn (snd (drBegin v ro db)))"
  show ?thesis
  proof (cases "fst (drBegin v ro db)")
    case (Inl e)
    then show ?thesis by (simp add: runTx_def step_simps begin_)
  next
    case begun: (Inr u)
    show ?thesis
    proof (cases "fst (fn ?b)")
      case (Inl e)
      then show ?thesis using begun by (simp add: runTx_def step_simps rollbackWith_def undone run begin_)
    next
      case (Inr x)
      show ?thesis
      proof (cases "fst (drCommit v ?w)")
        case (Inl e)
        then show ?thesis using begun Inr failed [OF Inl]
          by (simp add: runTx_def step_simps rollbackWith_def undone run begin_)
      next
        case done_: (Inr u')
        then have "drCommit v ?w = (Inr (), snd (drCommit v ?w))" by (cases "drCommit v ?w") simp
        moreover have "fn ?b = (Inr x, ?w)" using Inr by (cases "fn ?b") simp
        moreover have "runTx v ro fn db = (Inr x, snd (drCommit v ?w))"
          using begun Inr done_ by (simp add: runTx_def step_simps)
        ultimately show ?thesis using begin_ [of db] by auto
      qed
    qed
  qed
qed

text \<open>
  C18. Transactions of the SQL store are all or nothing. For a driver where only a successful commit changes
  what is committed, and a function made of the store's own operations, \<open>Update\<close> that returns an error, after
  however many attempts, leaves what is committed as it was; and when it returns a result, exactly one run
  of the function was committed: one that started from the committed state and returned that result. What
  failed attempts wrote before is not committed. Every write of the store commits nothing by itself.
\<close>

theorem update_atomic:
  assumes "transactional v committed" "\<And>c. uncommitted committed c fn"
  shows "case sqlUpdate ended s v fn db of
      (Inl e, db') \<Rightarrow> committed db' = committed db
    | (Inr x, db') \<Rightarrow> \<exists>begun written. committed begun = committed db \<and> fn begun = (Inr x, written) \<and> drCommit v written = (Inr (), db')"
proof -
  have "case updateFrom ended s v fn n lastErr cur of
      (Inl e, db') \<Rightarrow> committed db' = committed cur
    | (Inr x, db') \<Rightarrow> \<exists>begun written. committed begun = committed cur \<and> fn begun = (Inr x, written) \<and> drCommit v written = (Inr (), db')"
    for n lastErr cur
  proof (induction "nat (ssMaxRetries s + 1 - n)" arbitrary: n lastErr cur)
    case 0
    then show ?case by (subst updateFrom.simps) (simp add: step_simps)
  next
    case (Suc j)
    have le: "n \<le> ssMaxRetries s" and j: "j = nat (ssMaxRetries s + 1 - (n + 1))" using Suc.hyps(2) by arith+
    note once = runTx_atomic [OF assms, where ro = False and db = cur]
    show ?case
    proof (cases "(if n > 0 then ended n else None) = None \<and> (\<exists>e. fst (runTx v False fn cur) = Inl e \<and> clIsRetryable (ssClassifier s) e)")
      case True
      then obtain e where e: "fst (runTx v False fn cur) = Inl e" "clIsRetryable (ssClassifier s) e" by blast
      have "updateFrom ended s v fn n lastErr cur = updateFrom ended s v fn (n + 1) (Some e) (snd (runTx v False fn cur))"
        using True e le by (subst updateFrom.simps) (simp add: step_simps)
      moreover have "committed (snd (runTx v False fn cur)) = committed cur"
        using once e(1) by (cases "runTx v False fn cur") auto
      ultimately show ?thesis using Suc.hyps(1) [where n = "n + 1" and lastErr = "Some e" and cur = "snd (runTx v False fn cur)"] j
        by (auto split: prod.splits sum.splits)
    next
      case False
      then show ?thesis using once le
        by (subst updateFrom.simps)
          (cases "runTx v False fn cur", auto simp: step_simps split: sum.splits option.splits if_splits)
    qed
  qed
  then show ?thesis unfolding sqlUpdate_def .
qed

text \<open>A transaction on tables: a working copy, and the committed tables.\<close>

definition onWorking :: "(dberr, tables, 'x) estep \<Rightarrow> (dberr, tables \<times> tables, 'x) estep" where
  "onWorking m s = (case m (fst s) of (r, working) \<Rightarrow> (r, (working, snd s)))"

definition transactionDriver :: "tables driver \<Rightarrow> (tables \<times> tables) driver" where
  "transactionDriver v =
     \<lparr>drBegin = (\<lambda>_ s. (Inr (), (snd s, snd s))), drCommit = (\<lambda>s. (Inr (), (fst s, fst s))),
      drRollback = (\<lambda>s. (Inr (), (snd s, snd s))),
      drExec = (\<lambda>q a. onWorking (drExec v q a)), drQuery = (\<lambda>q a. onWorking (drQuery v q a))\<rparr>"

lemma transactionDriver_transactional: "transactional (transactionDriver v) snd"
  by (simp add: transactional_def transactionDriver_def onWorking_def split: prod.split)

definition stopped :: dberr where "stopped = Ledger ErrInsufficientBalance"

definition heldBefore :: tables where
  "heldBefore = (\<lambda>_. [])(''dist_account'' := [\<lambda>_. SInt 1])"

text \<open>A write followed by an error leaves the committed tables alone.\<close>

theorem update_atomic_witness:
  "let h = \<lparr>txStore = contendedStore 5, txDriver = transactionDriver (referenceDriver (mysql (\<lambda>_. [])) [])\<rparr>;
       fn = andThen (sqlIncrementAccount h 5 (zeroDelta\<lparr>dKey := UserKey 1 10, dAvailable := 5\<rparr>)) (\<lambda>_. throw stopped);
       s = (\<lambda>_. [], heldBefore) in
   (case sqlUpdate (\<lambda>_. None) (contendedStore 5) (txDriver h) (fn :: (dberr, tables \<times> tables, unit) estep) s of
      (Inl e, db') \<Rightarrow> snd db' = snd s
    | (Inr x, db') \<Rightarrow> \<exists>begun written. snd begun = snd s \<and> fn begun = (Inr x, written) \<and> drCommit (txDriver h) written = (Inr (), db'))"
  unfolding Let_def
  by (rule update_atomic [where committed = snd]) (auto intro!: hoare_rules writes_keep transactionDriver_transactional)

end
