(* ===== verification/SqlErrors.thy ===== *)
theory SqlErrors
  imports SqlDialect
begin

text \<open>
  The classification of driver errors: wrapping an error, which the store does at every step, never hides
  what it is, and a number that marks a duplicate never marks a transient fault.
\<close>

lemma errorCode_Context: "errorCode (Context p e) = errorCode e"
proof -
  have none: "numberMethod (Context p e) = None" "stateMethod (Context p e) = None" "errorFields (Context p e) = None"
    "wrapChain (Context p e) = Context p e # wrapChain e" by simp_all
  show ?thesis by (simp only: errorCode_def none firstSome.simps option.case)
qed

lemma containsText_append: "containsText p t \<Longrightarrow> containsText p (s @ t)"
  by (induction s) auto

lemma containsPhrase_Context:
  assumes "containsPhrase say e ps"
  shows "containsPhrase say (Context p e) ps"
proof -
  have "map lowerChar (errorText say (Context p e)) = map lowerChar (p @ '': '') @ map lowerChar (errorText say e)" by simp
  then show ?thesis using assms containsText_append unfolding containsPhrase_def Let_def list_ex_iff by metis
qed

text \<open>A code is a number or a text, never both.\<close>

lemma firstSome_SomeD: "firstSome f xs = Some y \<Longrightarrow> \<exists>x\<in>set xs. f x = Some y"
  by (induction xs) (auto split: option.splits)

lemma fieldCode_one: "fieldCode f = Some (n, s) \<Longrightarrow> n = 0 \<or> s = []"
  by (cases f) (auto split: if_splits)

lemma errorFields_one: "errorFields e = Some (n, s) \<Longrightarrow> n = 0 \<or> s = []"
  by (cases e) (auto split: option.splits dest: fieldCode_one)

lemma errorCode_one: "errorCode e = Some (n, s) \<Longrightarrow> n = 0 \<or> s = []"
  by (auto simp: errorCode_def split: option.splits if_splits dest!: firstSome_SomeD [of errorFields] dest: errorFields_one)

lemma classes_disjoint: "numericDuplicate e \<Longrightarrow> \<not> numericRetryable e"
  using errorCode_one [of e]
  by (auto simp: numericDuplicate_def numericRetryable_def split: option.splits prod.splits if_splits)

text \<open>The text of an error after any number of wraps.\<close>

fun wrappedBy :: "string list \<Rightarrow> dberr \<Rightarrow> dberr" where
  "wrappedBy [] e = e"
| "wrappedBy (p # ps) e = Context p (wrappedBy ps e)"

text \<open>
  C25. The classification of an error survives wrapping: an error that counts as a duplicate key, as a
  retryable fault or as an existing object counts as the same however many times \<open>fmt.Errorf\<close> with \<open>%w\<close>
  wrapped it, whether it was recognised by its number, its SQLSTATE, a field of its struct or a phrase of its
  text, and has the same code. No code is both a duplicate and a transient fault, so a duplicate
  recognised by its code is not retried on account of it.
\<close>

theorem classification_survives_wrapping:
  "errorCode (wrappedBy ps e) = errorCode e \<and>
   (duplicateKey say e \<longrightarrow> duplicateKey say (wrappedBy ps e)) \<and>
   (retryable say e \<longrightarrow> retryable say (wrappedBy ps e)) \<and>
   (alreadyExists say e \<longrightarrow> alreadyExists say (wrappedBy ps e)) \<and>
   \<not> (numericDuplicate e \<and> numericRetryable e)"
proof -
  have "errorCode (wrappedBy ps e) = errorCode e" by (induction ps) (simp_all add: errorCode_Context)
  moreover have phrases: "containsPhrase say e phrases \<Longrightarrow> containsPhrase say (wrappedBy ps e) phrases" for phrases
    by (induction ps) (simp_all add: containsPhrase_Context)
  ultimately show ?thesis
    using classes_disjoint [of e]
    by (auto simp: duplicateKey_def retryable_def alreadyExists_def numericDuplicate_def numericRetryable_def
        split: option.splits prod.splits if_splits)
qed

text \<open>MySQL error 1062 as its driver reports it, and a lock conflict of SQLite known by its text.\<close>

definition duplicateEntry :: dberr where
  "duplicateEntry = Driver \<lparr>shNumber = None, shSQLState = None, shFields = [''Number'' \<mapsto> FUint 1062], shText = []\<rparr> None"

definition lockedDatabase :: dberr where
  "lockedDatabase = Driver \<lparr>shNumber = None, shSQLState = None, shFields = Map.empty, shText = ''database is locked''\<rparr> None"

theorem classification_survives_wrapping_witness:
  "duplicateKey (\<lambda>_. []) (wrappedBy [''sqlstore: insert agent'', ''sqlstore: insert''] duplicateEntry) \<and>
   retryable (\<lambda>_. []) (wrappedBy [''sqlstore: commit''] lockedDatabase)"
proof -
  have "duplicateKey (\<lambda>_. []) duplicateEntry"
    by (simp add: duplicateKey_def numericDuplicate_def errorCode_def duplicateEntry_def uint32_def)
  moreover have "retryable (\<lambda>_. []) lockedDatabase" by code_simp
  ultimately show ?thesis
    using classification_survives_wrapping [of "[''sqlstore: insert agent'', ''sqlstore: insert'']" duplicateEntry "\<lambda>_. []"]
      classification_survives_wrapping [of "[''sqlstore: commit'']" lockedDatabase "\<lambda>_. []"] by blast
qed

end
