(* ===== verification/SqlText.thy ===== *)
theory SqlText
  imports SqlWrite
begin

text \<open>
  The texts of the statements: what is bound, in which order, and that no value a caller passes reaches the
  text of a statement.
\<close>

subsection \<open>Placeholders\<close>

text \<open>The values bound by the pieces of a statement, and its text with the placeholders numbered from \<open>n\<close>.\<close>

fun boundValues :: "piece list \<Rightarrow> sqlval list" where
  "boundValues [] = []"
| "boundValues (Lit s # ps) = boundValues ps"
| "boundValues (Bind v # ps) = v # boundValues ps"

fun numberedText :: "dialect \<Rightarrow> nat \<Rightarrow> piece list \<Rightarrow> string" where
  "numberedText d n [] = []"
| "numberedText d n (Lit s # ps) = s @ numberedText d n ps"
| "numberedText d n (Bind v # ps) = diPlaceholder d n @ numberedText d (n + 1) ps"

lemma buildSQL_numbered: "buildSQL d ps vals = (numberedText d (length vals + 1) ps, vals @ boundValues ps)"
  by (induction d ps vals rule: buildSQL.induct) (simp_all add: argsAdd_def)

lemma boundValues_append [simp]: "boundValues (ps @ qs) = boundValues ps @ boundValues qs"
  by (induction ps rule: boundValues.induct) simp_all

fun shapeOf :: "piece \<Rightarrow> string option" where
  "shapeOf (Lit s) = Some s"
| "shapeOf (Bind v) = None"

lemma numberedText_shape: "map shapeOf ps = map shapeOf qs \<Longrightarrow> numberedText d n ps = numberedText d n qs"
proof (induction ps arbitrary: qs n)
  case (Cons p ps)
  then obtain q qs' where "qs = q # qs'" "shapeOf p = shapeOf q" "map shapeOf ps = map shapeOf qs'" by (cases qs) auto
  then show ?case using Cons.IH by (cases p; cases q) auto
qed simp

definition textOf :: "dialect \<Rightarrow> piece list \<Rightarrow> string" where
  "textOf d ps = fst (buildSQL d ps [])"

lemma same_text: "map shapeOf ps = map shapeOf qs \<Longrightarrow> textOf d ps = textOf d qs"
  by (simp add: textOf_def buildSQL_numbered numberedText_shape [of ps qs])

named_theorems text_defs "the statements of the store as pieces"

lemmas write_texts [text_defs] =
  agentUpdate_def agentInsert_def bindingUpdate_def bindingInsert_def accountUpdate_def accountInsert_def incrementUpdate_def
  availableAtUpdate_def reversedAmountUpdate_def transitionUpdate_def settledStamp_def refundInsert_def ledgerInsert_def
  withdrawalInsert_def updateWhere_def insertInto_def setTo_def addTo_def staysNonNegative_def bumpVersion_def commissionValues_def

lemmas read_texts [text_defs] =
  agentQuery_def bindingQuery_def accountQuery_def commissionQuery_def commissionsByOrderQuery_def refundsByOrderQuery_def
  commissionsByTenantQuery_def dueCommissionsQuery_def dueWorkQuery_def ledgerEntriesQuery_def ledgerByTenantQuery_def
  accountsByTenantQuery_def withdrawalByIdemKeyQuery_def withdrawalByIDQuery_def withdrawalsByTenantQuery_def selectFrom_def


end
