(* ===== verification/SqlReconcile.thy ===== *)
theory SqlReconcile
  imports SqlRead SelfCheck
begin

text \<open>
  store/sql/reconcile.go: the conservation check as one grouped query. Its texts are generated from
  the list of buckets; a row is a candidate account with its sums and the running totals of its last
  entry, which the self-check then judges as it judges an account it has summed itself.
\<close>

subsection \<open>Bucket columns\<close>

record bucket_col =
  bcValue :: string
  bcDelta :: string
  bcAfter :: string

fun bucketColumns :: "bucket \<Rightarrow> bucket_col option" where
  "bucketColumns BucketFrozen = Some \<lparr>bcValue = ''frozen'', bcDelta = ''delta_frozen'', bcAfter = ''after_frozen''\<rparr>"
| "bucketColumns BucketAvailable =
     Some \<lparr>bcValue = ''available'', bcDelta = ''delta_available'', bcAfter = ''after_available''\<rparr>"
| "bucketColumns BucketWithdrawing =
     Some \<lparr>bcValue = ''withdrawing'', bcDelta = ''delta_withdrawing'', bcAfter = ''after_withdrawing''\<rparr>"
| "bucketColumns BucketWithdrawn =
     Some \<lparr>bcValue = ''withdrawn'', bcDelta = ''delta_withdrawn'', bcAfter = ''after_withdrawn''\<rparr>"

definition resolveBucketColumns :: "dberr + bucket_col list" where
  "resolveBucketColumns = foldE (\<lambda>b out. case bucketColumns b of
      None \<Rightarrow> Inl (Plain ''sqlstore: bucket has no column mapping; reconciliation would silently skip it'')
    | Some c \<Rightarrow> Inr (out @ [c])) AllBuckets []"

definition aggAlias :: "nat \<Rightarrow> string" where
  "aggAlias i = ''s'' @ formatInt (int i)"

subsection \<open>The query\<close>

definition enum0 :: "'a list \<Rightarrow> (nat \<times> 'a) list" where
  "enum0 xs = zip [0..<length xs] xs"

definition aggregateQuery :: "dialect \<Rightarrow> bucket_col list \<Rightarrow> int \<Rightarrow> piece list" where
  "aggregateQuery d bcs tenantID =
     (let aggSel = [qual d ''l'' ''user_id'', ''COUNT(*) AS '' @ tableName d ''n'',
                    ''MAX('' @ qual d ''l'' ''id'' @ '') AS '' @ tableName d ''tail_id''] @
                   map (\<lambda>(i, c). ''SUM('' @ qual d ''l'' (bcDelta c) @ '') AS '' @ tableName d (aggAlias i)) (enum0 bcs)
      in [Lit (''SELECT '' @ joinWith '', '' aggSel @ '' FROM '' @ tableName d tableLedger @ '' AS '' @ tableName d ''l'' @
            '' WHERE '' @ qual d ''l'' ''tenant_id'' @ '' = ''), Bind (SInt tenantID),
          Lit ('' GROUP BY '' @ qual d ''l'' ''user_id'')])"

text \<open>
  The arguments are bound in the order of the statement text; the aggregate's piece list stands where
  the code splices the text it built first, so both number the same.
\<close>

definition reconcileQuery :: "dialect \<Rightarrow> bucket_col list \<Rightarrow> int \<Rightarrow> int \<Rightarrow> piece list" where
  "reconcileQuery d bcs tenantID limit =
     (let sel = [qual d ''a'' ''user_id''] @ map (\<lambda>c. qual d ''a'' (bcValue c)) bcs @
                [qual d ''g'' ''n'', qual d ''g'' ''tail_id''] @
                map (\<lambda>(i, _). qual d ''g'' (aggAlias i)) (enum0 bcs) @ map (\<lambda>c. qual d ''tl'' (bcAfter c)) bcs;
          conds = map (\<lambda>(i, c). qual d ''a'' (bcValue c) @ '' <> COALESCE('' @ qual d ''g'' (aggAlias i) @ '', 0)'') (enum0 bcs) @
                  map (\<lambda>c. qual d ''tl'' (bcAfter c) @ '' <> '' @ qual d ''a'' (bcValue c)) bcs @
                  map (\<lambda>c. qual d ''a'' (bcValue c) @ '' < 0'') bcs
      in [Lit (''SELECT '' @ joinWith '', '' sel @ '' FROM '' @ tableName d tableAccount @ '' AS '' @ tableName d ''a'' @
            '' LEFT JOIN ('')] @ aggregateQuery d bcs tenantID @
         [Lit ('') AS '' @ tableName d ''g'' @ '' ON '' @ qual d ''g'' ''user_id'' @ '' = '' @ qual d ''a'' ''user_id'' @
            '' LEFT JOIN '' @ tableName d tableLedger @ '' AS '' @ tableName d ''tl'' @
            '' ON '' @ qual d ''tl'' ''tenant_id'' @ '' = '' @ qual d ''a'' ''tenant_id'' @
            '' AND '' @ qual d ''tl'' ''id'' @ '' = '' @ qual d ''g'' ''tail_id'' @
            '' WHERE '' @ qual d ''a'' ''tenant_id'' @ '' = ''), Bind (SInt tenantID),
          Lit ('' AND ('' @ joinWith '' OR '' conds @ '')'' @ '' ORDER BY '' @ qual d ''a'' ''user_id'' @ '' LIMIT ''),
          Bind (SInt limit)])"

subsection \<open>Rows\<close>

definition emptyEntry :: ledger_entry where
  "emptyEntry = \<lparr>leID = 0, leKey = UserKey 0 0, leBizType = LedgerBizRaw 0, leBizID = [],
     leDeltaFrozen = 0, leDeltaAvailable = 0, leDeltaWithdrawing = 0, leDeltaWithdrawn = 0,
     leAfterFrozen = 0, leAfterAvailable = 0, leAfterWithdrawing = 0, leAfterWithdrawn = 0,
     leRemark = [], leCreatedAt = 0\<rparr>"

text \<open>A nullable sum or running total reads as zero when it is NULL.\<close>

definition moneyOrZero :: "sqlval \<Rightarrow> money" where
  "moneyOrZero v = (case nullInt v of None \<Rightarrow> 0 | Some i \<Rightarrow> word_of_int i)"

text \<open>
  The destinations for \<open>n\<close> buckets, and the record of a candidate. Its keys carry the user only; the
  flag \<open>HasTail\<close> decides whether the tail is there.
\<close>

definition scanReconciliation :: "nat \<Rightarrow> row \<Rightarrow> dberr + account_reconciliation" where
  "scanReconciliation n row =
     (case scanRow ([DInt] @ replicate n DInt @ [DNullInt, DNullInt] @ replicate n DNullInt @ replicate n DNullInt) row of
        Inl e \<Rightarrow> Inl e
      | Inr vs \<Rightarrow>
          let key = UserKey 0 (intAt (vs ! 0));
              stored = fold (\<lambda>(i, b) a. bucketSet b (moneyAt (vs ! (1 + i))) a) (enum0 AllBuckets) (zeroAccount\<lparr>aKey := key\<rparr>);
              summed = fold (\<lambda>(i, b) a. bucketSet b (moneyOrZero (vs ! (3 + n + i))) a) (enum0 AllBuckets) (zeroAccount\<lparr>aKey := key\<rparr>);
              tail1 = fold (\<lambda>(i, b) e. bucketSetAfter b (moneyOrZero (vs ! (3 + 2 * n + i))) e) (enum0 AllBuckets) emptyEntry;
              hasTail = (case nullInt (vs ! (1 + n)) of None \<Rightarrow> False | Some c \<Rightarrow> c > 0);
              tail2 = (case nullInt (vs ! (2 + n)) of None \<Rightarrow> tail1 | Some i \<Rightarrow> tail1\<lparr>leID := i\<rparr>)
          in Inr \<lparr>arcKey = key, arcStored = stored, arcSummed = summed, arcTail = (if hasTail then Some tail2 else None)\<rparr>)"

subsection \<open>ReconcileAccounts\<close>

definition countAccounts :: "'db tx_handle \<Rightarrow> int \<Rightarrow> (dberr, 'db, int) estep" where
  "countAccounts h tenantID =
     queryRows h ([Lit (''SELECT COUNT(*) FROM '' @ tableName (hDialect h) tableAccount)] @ tenantIs (hDialect h) tenantID)
       (\<lambda>row n. case scanRow [DInt] row of Inl e \<Rightarrow> Inl e | Inr vs \<Rightarrow> Inr (intAt (vs ! 0))) 0"

text \<open>The callback is a fold over what the caller collects; it may stop with an error.\<close>

definition reconcileAccountsTx ::
  "'db tx_handle \<Rightarrow> int \<Rightarrow> int \<Rightarrow> (account_reconciliation \<Rightarrow> 'acc \<Rightarrow> dberr + 'acc) \<Rightarrow> 'acc \<Rightarrow>
   (dberr, 'db, int \<times> 'acc) estep" where
  "reconcileAccountsTx h tenantID limit0 fn acc =
     (if tenantID < 0 then throw (Plain (''sqlstore: tenant id must be >= 0, got '' @ formatInt tenantID))
      else let limit = (if limit0 \<le> 0 then DefaultPageLimit else limit0) in
      case resolveBucketColumns of Inl e \<Rightarrow> throw e | Inr bcs \<Rightarrow>
      andThen (countAccounts h tenantID) (\<lambda>examined.
        andThen (queryRows h (reconcileQuery (hDialect h) bcs tenantID limit)
            (\<lambda>row acc. case scanReconciliation (length bcs) row of Inl e \<Rightarrow> Inl e | Inr m \<Rightarrow> fn m acc) acc)
          (\<lambda>acc'. ret (examined, acc'))))"

definition ReconcileAccounts ::
  "'db tx_handle \<Rightarrow> int \<Rightarrow> int \<Rightarrow> (account_reconciliation \<Rightarrow> 'acc \<Rightarrow> dberr + 'acc) \<Rightarrow> 'acc \<Rightarrow>
   (dberr, 'db, int \<times> 'acc) estep" where
  "ReconcileAccounts h tenantID limit fn acc = sqlView (txDriver h) (reconcileAccountsTx h tenantID limit fn acc)"

end
