(* ===== verification/SqlReconciled.thy ===== *)
theory SqlReconciled
  imports SqlRows SqlText SqlReconcile Conservation
begin

text \<open>
  The two conservation checks compared: the self-check that pages through every account and sums its
  journal, and the one that asks the SQL store's reconciling query for the accounts it cannot confirm.
\<close>

subsection \<open>What the query answers\<close>

text \<open>
  On the accounts and the journal of \<open>d\<close>: the count of an account's entries, the id of the last of them,
  their sums and the running totals of the last one; NULL, by the left joins, where there are none.
\<close>

definition journalSum :: "data \<Rightarrow> account \<Rightarrow> bucket \<Rightarrow> int" where
  "journalSum d a b = (\<Sum>e\<leftarrow>entriesOf (aKey a) d. sint (bucketDelta b e))"

definition suspicious :: "data \<Rightarrow> account \<Rightarrow> bool" where
  "suspicious d a \<longleftrightarrow> list_ex (\<lambda>b. sint (bucketValue b a) \<noteq> journalSum d a b \<or>
     (entriesOf (aKey a) d \<noteq> [] \<and> bucketAfter b (last (entriesOf (aKey a) d)) \<noteq> bucketValue b a) \<or>
     bucketValue b a <s 0) AllBuckets"

definition reconcileRow :: "data \<Rightarrow> account \<Rightarrow> row" where
  "reconcileRow d a =
     (let es = entriesOf (aKey a) d; joined = (\<lambda>v. if es = [] then SNull else v) in
      SInt (ukUserID (aKey a)) # map (\<lambda>b. moneyVal (bucketValue b a)) AllBuckets @
      [joined (SInt (int (length es))), joined (SInt (leID (last es)))] @
      map (\<lambda>b. joined (SInt (journalSum d a b))) AllBuckets @
      map (\<lambda>b. joined (moneyVal (bucketAfter b (last es)))) AllBuckets)"

definition answersReconcile :: "'db tx_handle \<Rightarrow> data \<Rightarrow> int \<Rightarrow> int \<Rightarrow> 'db \<Rightarrow> bool" where
  "answersReconcile h d tenantID limit db \<longleftrightarrow>
     (case buildSQL (hDialect h) ([Lit (''SELECT COUNT(*) FROM '' @ tableName (hDialect h) tableAccount)] @ tenantIs (hDialect h) tenantID) []
        of (query, argv) \<Rightarrow>
        drQuery (txDriver h) query argv db = (Inr ([[SInt (int (length (accountsOf tenantID d)))]], None), db)) \<and>
     (case resolveBucketColumns of Inl e \<Rightarrow> False | Inr bcs \<Rightarrow>
       (case buildSQL (hDialect h) (reconcileQuery (hDialect h) bcs tenantID limit) [] of (query, argv) \<Rightarrow>
        drQuery (txDriver h) query argv db =
          (Inr (map (reconcileRow d) (take (nat limit) (filter (suspicious d) (accountsOf tenantID d))), None), db)))"

subsection \<open>Its rows\<close>

definition keyless :: "user_key \<Rightarrow> user_key" where
  "keyless k = UserKey 0 (ukUserID k)"

text \<open>The candidate that is scanned from the row of an account.\<close>

lemma scan_reconciled:
  obtains m where "scanReconciliation 4 (reconcileRow d a) = Inr m" "arcKey m = keyless (aKey a)" "aKey (arcStored m) = keyless (aKey a)"
    "\<forall>b. bucketValue b (arcStored m) = bucketValue b a"
    "\<forall>b. bucketValue b (arcSummed m) = word_of_int (journalSum d a b)"
    "entriesFromTail m = 0 \<longleftrightarrow> entriesOf (aKey a) d = []"
    "entriesOf (aKey a) d \<noteq> [] \<longrightarrow> (\<forall>b. bucketAfter b (the (arcTail m)) = bucketAfter b (last (entriesOf (aKey a) d))) \<and>
      leID (the (arcTail m)) = leID (last (entriesOf (aKey a) d))"
proof -
  let ?es = "entriesOf (aKey a) d"
  note row_defs = scanReconciliation_def reconcileRow_def Let_def AllBuckets_def enum0_def scan_simps convertAssign_def moneyVal_def
    moneyAt_def moneyOrZero_def keyless_def entriesFromTail_def zeroAccount_def numeral_eq_Suc upt_rec all_buckets emptyEntry_def
  show thesis
  proof (cases "?es = []")
    case True
    have none: "journalSum d a b = 0" for b using True by (simp add: journalSum_def)
    show ?thesis
      by (rule that [of "case scanReconciliation 4 (reconcileRow d a) of Inr m \<Rightarrow> m"]) (use True none in \<open>simp_all add: row_defs\<close>)
  next
    case False
    show ?thesis
      by (rule that [of "case scanReconciliation 4 (reconcileRow d a) of Inr m \<Rightarrow> m"]) (use False in \<open>simp_all add: row_defs\<close>)
  qed
qed

subsection \<open>Reports up to the tenant of their keys\<close>

text \<open>
  The reconciling store leaves the tenant out of the keys of its candidates, so its report names users
  of tenant 0.
\<close>

fun keylessViolation :: "violation \<Rightarrow> violation" where
  "keylessViolation (NegativeBucketOf k b m) = NegativeBucketOf (keyless k) b m"
| "keylessViolation (BalanceWithoutEntries k b m) = BalanceWithoutEntries (keyless k) b m"
| "keylessViolation (DeltaSumMismatch k b m n) = DeltaSumMismatch (keyless k) b m n"
| "keylessViolation (TailMismatch k b i m n) = TailMismatch (keyless k) b i m n"
| "keylessViolation v = v"

fun keylessNote :: "observation \<Rightarrow> observation" where
  "keylessNote (DebtCarried k m b) = DebtCarried (keyless k) m b"

definition keylessReport :: "invariant_result \<Rightarrow> invariant_result" where
  "keylessReport r = r\<lparr>irViolations := map keylessViolation (irViolations r), irNotes := map keylessNote (irNotes r)\<rparr>"

lemma keylessReport_simps:
  "keylessReport (addViolation v r) = addViolation (keylessViolation v) (keylessReport r)"
  "keylessReport (addNote x r) = addNote (keylessNote x) (keylessReport r)"
  "keylessReport (flagIf c v r) = flagIf c (keylessViolation v) (keylessReport r)"
  "keylessReport (if c then r else r') = (if c then keylessReport r else keylessReport r')"
  by (simp_all add: keylessReport_def addViolation_def addNote_def flagIf_def)

lemma keylessReport_checked: "keylessReport (r\<lparr>irChecked := k\<rparr>) = (keylessReport r)\<lparr>irChecked := k\<rparr>"
  by (simp add: keylessReport_def)

lemma judge_keyless:
  assumes "aKey a' = keyless (aKey a)" "\<forall>b. bucketValue b a' = bucketValue b a" "\<forall>b. bucketValue b sums' = bucketValue b sums"
    and "entries' = 0 \<longleftrightarrow> entries = 0"
    and "entries \<noteq> 0 \<Longrightarrow> (\<forall>b. bucketAfter b (the tail') = bucketAfter b (the tail)) \<and> leID (the tail') = leID (the tail)"
  shows "accountConservationViolations a' sums' tail' entries' allow (keylessReport r) =
    keylessReport (accountConservationViolations a sums tail entries allow r)"
proof -
  have settle: "Settleable a' \<longleftrightarrow> Settleable a" using assms(2) by (simp add: Settleable_def)
  show ?thesis
  proof (cases "entries = 0")
    case True
    then show ?thesis using assms settle
      by (simp add: accountConservationViolations_def Let_def AllBuckets_def keylessReport_simps del: bucketValue.simps)
  next
    case False
    then show ?thesis using assms settle
      by (simp add: accountConservationViolations_def Let_def AllBuckets_def keylessReport_simps del: bucketValue.simps bucketAfter.simps)
  qed
qed

lemma judge_cong:
  assumes "\<forall>b. bucketValue b sums' = bucketValue b sums"
  shows "accountConservationViolations a sums' tail entries allow r = accountConservationViolations a sums tail entries allow r"
  using assms by (simp add: accountConservationViolations_def Let_def AllBuckets_def del: bucketValue.simps bucketAfter.simps)

subsection \<open>The two checks as folds\<close>

definition accountWith :: "(bucket \<Rightarrow> money) \<Rightarrow> account" where
  "accountWith f = zeroAccount\<lparr>aFrozen := f BucketFrozen, aAvailable := f BucketAvailable, aWithdrawing := f BucketWithdrawing,
     aWithdrawn := f BucketWithdrawn\<rparr>"

lemma bucketValue_accountWith [simp]: "bucketValue b (accountWith f) = f b"
  by (cases b) (simp_all add: accountWith_def)

definition judgedBy :: "data \<Rightarrow> bool \<Rightarrow> account \<Rightarrow> invariant_result \<Rightarrow> invariant_result" where
  "judgedBy d allow a = (let es = entriesOf (aKey a) d in
     accountConservationViolations a (accountWith (\<lambda>b. word_of_int (journalSum d a b)))
       (if es = [] then None else Some (last es)) (length es) allow)"

lemma judged_unsuspicious:
  assumes "\<not> suspicious d a"
  shows "judgedBy d allow a r = r"
proof -
  let ?es = "entriesOf (aKey a) d"
  have fine: "sint (bucketValue b a) = journalSum d a b" "?es \<noteq> [] \<Longrightarrow> bucketAfter b (last ?es) = bucketValue b a"
    "\<not> bucketValue b a <s 0" for b
    using assms by (cases b; simp add: suspicious_def AllBuckets_def del: bucketValue.simps bucketAfter.simps; fail)+
  have "word_of_int (journalSum d a b) = bucketValue b a" for b
    using fine(1) [of b, symmetric] by simp
  moreover have "bucketValue b a = 0" if "?es = []" for b
    using fine(1) [of b] that by (intro sint_eqD) (simp add: journalSum_def)
  moreover have "\<not> aFrozen a <s 0" "\<not> aWithdrawing a <s 0" "\<not> aWithdrawn a <s 0" "\<not> aAvailable a <s 0"
    using fine(3) [of BucketFrozen] fine(3) [of BucketWithdrawing] fine(3) [of BucketWithdrawn] fine(3) [of BucketAvailable] by simp_all
  ultimately show ?thesis unfolding judgedBy_def Let_def
    by (subst judge_agreeing) (use fine(2) in \<open>auto simp: debtOnly_def\<close>)
qed

lemma checked_simps:
  "addViolation v (r\<lparr>irChecked := k\<rparr>) = (addViolation v r)\<lparr>irChecked := k\<rparr>"
  "addNote x (r\<lparr>irChecked := k\<rparr>) = (addNote x r)\<lparr>irChecked := k\<rparr>"
  "flagIf c v (r\<lparr>irChecked := k\<rparr>) = (flagIf c v r)\<lparr>irChecked := k\<rparr>"
  "(if c then r\<lparr>irChecked := k\<rparr> else r'\<lparr>irChecked := k\<rparr>) = (if c then r else r')\<lparr>irChecked := k\<rparr>"
  by (simp_all add: addViolation_def addNote_def flagIf_def)

lemma judged_checked: "judgedBy d allow a (r\<lparr>irChecked := k\<rparr>) = (judgedBy d allow a r)\<lparr>irChecked := k\<rparr>"
  by (simp add: judgedBy_def accountConservationViolations_def Let_def AllBuckets_def checked_simps del: bucketValue.simps bucketAfter.simps)

lemma judged_count: "irChecked (judgedBy d allow a r) = irChecked r"
  using judged_checked [where d = d and allow = allow and a = a and r = r and k = "irChecked r"] by (metis invariant_result.select_convs(3) invariant_result.surjective invariant_result.update_convs(3))

lemma fold_judged_checked: "fold (judgedBy d allow) as (r\<lparr>irChecked := k\<rparr>) = (fold (judgedBy d allow) as r)\<lparr>irChecked := k\<rparr>"
  by (induction as arbitrary: r) (simp_all add: judged_checked)

lemma fold_suspicious:
  "fold (\<lambda>a r. judgedBy d allow a (checkedOne r)) as r =
     (fold (judgedBy d allow) (filter (suspicious d) as) r)\<lparr>irChecked := irChecked r + length as\<rparr>"
proof (induction as arbitrary: r)
  case Nil
  show ?case by simp
next
  case (Cons a as)
  have "judgedBy d allow a (checkedOne r) = (judgedBy d allow a r)\<lparr>irChecked := irChecked r + 1\<rparr>"
    by (simp add: checkedOne_def judged_checked)
  then show ?case using Cons.IH [of "judgedBy d allow a (checkedOne r)"]
    by (simp add: fold_judged_checked judged_unsuspicious)
qed

text \<open>No prefix of an account's journal overflows its sums.\<close>

definition sumsFit :: "int \<Rightarrow> data \<Rightarrow> bool" where
  "sumsFit n d \<longleftrightarrow> (\<forall>a\<in>set (accountsOf n d). 0 < ukUserID (aKey a) \<and>
     (\<forall>m\<le>length (entriesOf (aKey a) d). \<forall>b. in64 (\<Sum>e\<leftarrow>take m (entriesOf (aKey a) d). sint (bucketDelta b e))))"

lemma rowwise_result:
  assumes wf: "storeWf d" and fits: "sumsFit n d"
  shows "checkLedgerConservation l n d = okC (fold (\<lambda>a r. judgedBy d (rAllowNegative (lRules l)) a (checkedOne r)) (accountsOf n d)
    (newInvariant ''I1: account balance equals sum of ledger deltas''))"
proof -
  have body: "bindC (foldC addEntry (entriesOf (aKey a) d) (zeroAccount, None, 0))
      (\<lambda>(sums, tail, entries). okC (accountConservationViolations a sums tail entries (rAllowNegative (lRules l)) (checkedOne r))) =
      okC (judgedBy d (rAllowNegative (lRules l)) a (checkedOne r))" if a: "a \<in> set (accountsOf n d)" for a r
  proof -
    let ?es = "entriesOf (aKey a) d"
    have "in64 (\<Sum>x\<leftarrow>p. sint (bucketDelta b x))" if "?es = p @ q" for p q b
      using fits a that by (auto simp: sumsFit_def dest!: bspec spec [of _ "length p"])
    then obtain sums where run: "foldC addEntry ?es (zeroAccount, None, 0) = okC (sums, if ?es = [] then None else Some (last ?es), length ?es)"
      and sums: "\<And>b. sint (bucketValue b sums) = (\<Sum>x\<leftarrow>?es. sint (bucketDelta b x))"
      using addEntries [of ?es] by blast
    have "\<forall>b. bucketValue b sums = bucketValue b (accountWith (\<lambda>b. word_of_int (journalSum d a b)))"
      unfolding bucketValue_accountWith journalSum_def sums [symmetric] by simp
    then show ?thesis using run by (simp add: bindC_def okC_def judgedBy_def Let_def judge_cong)
  qed
  have "filter (\<lambda>a. 0 < ukUserID (aKey a)) (accountsOf n d) = accountsOf n d"
    using fits by (simp add: filter_id_conv sumsFit_def)
  then show ?thesis
    unfolding checkLedgerConservation_def entries_loop [OF wf] accounts_loop [OF wf] by (simp add: foldC_ok body)
qed

text \<open>The candidate of an account, judged.\<close>

definition candidateOf :: "data \<Rightarrow> account \<Rightarrow> account_reconciliation" where
  "candidateOf d a = (case scanReconciliation 4 (reconcileRow d a) of Inr m \<Rightarrow> m)"

lemma judge_candidate:
  "accountConservationViolations (arcStored (candidateOf d a)) (arcSummed (candidateOf d a)) (arcTail (candidateOf d a))
     (entriesFromTail (candidateOf d a)) allow (keylessReport r) = keylessReport (judgedBy d allow a r)"
proof -
  obtain m where m: "scanReconciliation 4 (reconcileRow d a) = Inr m" "arcKey m = keyless (aKey a)" "aKey (arcStored m) = keyless (aKey a)"
    "\<forall>b. bucketValue b (arcStored m) = bucketValue b a"
    "\<forall>b. bucketValue b (arcSummed m) = word_of_int (journalSum d a b)"
    "entriesFromTail m = 0 \<longleftrightarrow> entriesOf (aKey a) d = []"
    "entriesOf (aKey a) d \<noteq> [] \<longrightarrow> (\<forall>b. bucketAfter b (the (arcTail m)) = bucketAfter b (last (entriesOf (aKey a) d))) \<and>
      leID (the (arcTail m)) = leID (last (entriesOf (aKey a) d))"
    using scan_reconciled [of d a] by blast
  then have "candidateOf d a = m" by (simp add: candidateOf_def)
  then show ?thesis unfolding judgedBy_def Let_def
    by (simp only:) (rule judge_keyless, use m in auto)
qed

subsection \<open>The two checks agree\<close>

lemma collect_candidates:
  "foldE (\<lambda>row acc. case scanReconciliation 4 row of Inl e \<Rightarrow> Inl e | Inr m \<Rightarrow> Inr (acc @ [m])) (map (reconcileRow d) as) acc =
     Inr (acc @ map (candidateOf d) as)"
proof (induction as arbitrary: acc)
  case (Cons a as)
  obtain m where m: "scanReconciliation 4 (reconcileRow d a) = Inr m"
    by (rule scan_reconciled [where d = d and a = a]) (rule that, assumption)
  then have "candidateOf d a = m" by (simp add: candidateOf_def)
  then show ?case using Cons.IH [of "acc @ [m]"] m by simp
qed simp

lemma reconciled_run:
  assumes "answersReconcile h d n limit db" "0 \<le> n" "0 < limit"
  shows "reconcileAccountsTx h n limit (\<lambda>m acc. Inr (acc @ [m])) [] db =
    (Inr (int (length (accountsOf n d)), map (candidateOf d) (take (nat limit) (filter (suspicious d) (accountsOf n d)))), db)"
proof -
  obtain bcs where bcs: "resolveBucketColumns = Inr bcs" "length bcs = 4" by (simp add: resolveBucketColumns_def AllBuckets_def)
  have count: "countAccounts h n db = (Inr (int (length (accountsOf n d))), db)"
    using assms(1) by (auto simp: answersReconcile_def countAccounts_def queryRows_def step_simps convertAssign_def split: prod.splits)
  have rows: "queryRows h (reconcileQuery (hDialect h) bcs n limit)
      (\<lambda>row acc. case scanReconciliation (length bcs) row of Inl e \<Rightarrow> Inl e | Inr m \<Rightarrow> Inr (acc @ [m])) [] db =
    (Inr (map (candidateOf d) (take (nat limit) (filter (suspicious d) (accountsOf n d)))), db)"
    using assms(1) unfolding answersReconcile_def bcs
    by (auto simp: queryRows_def step_simps collect_candidates split: prod.splits)
  show ?thesis using assms(2,3) by (simp add: reconcileAccountsTx_def bcs(1) step_simps count rows Let_def)
qed

lemma fold_candidates:
  "fold (\<lambda>m. accountConservationViolations (arcStored m) (arcSummed m) (arcTail m) (entriesFromTail m) allow)
     (map (candidateOf d) as) (keylessReport r) = keylessReport (fold (judgedBy d allow) as r)"
  by (induction as arbitrary: r) (simp_all add: judge_candidate)


text \<open>A driver that answers the count and the reconciling query of a tenant.\<close>

definition countQuery :: "dialect \<Rightarrow> int \<Rightarrow> string \<times> sqlval list" where
  "countQuery d tenantID = buildSQL d ([Lit (''SELECT COUNT(*) FROM '' @ tableName d tableAccount)] @ tenantIs d tenantID) []"

definition reconcilingDriver :: "dialect \<Rightarrow> data \<Rightarrow> int \<Rightarrow> int \<Rightarrow> unit driver" where
  "reconcilingDriver dia d tenantID limit =
     \<lparr>drBegin = (\<lambda>_. ret ()), drCommit = ret (), drRollback = ret (), drExec = (\<lambda>_ _. throw NoRows),
      drQuery = (\<lambda>query argv.
        if (query, argv) = countQuery dia tenantID then ret ([[SInt (int (length (accountsOf tenantID d)))]], None)
        else ret (map (reconcileRow d) (take (nat limit) (filter (suspicious d) (accountsOf tenantID d))), None))\<rparr>"

definition reconcilingHandle :: "data \<Rightarrow> int \<Rightarrow> int \<Rightarrow> unit tx_handle" where
  "reconcilingHandle d tenantID limit =
     \<lparr>txStore = \<lparr>ssDialect = sqlite (\<lambda>_. []), ssClassifier = fallbackClassifier (\<lambda>_. []), ssMaxRetries = 5, ssRetryWait = 2000000\<rparr>,
      txDriver = reconcilingDriver (sqlite (\<lambda>_. [])) d tenantID limit\<rparr>"

lemma reconciling_answers: "answersReconcile (reconcilingHandle d n limit) d n limit ()"
proof -
  let ?d = "sqlite (\<lambda>_. [])"
  have other: "buildSQL ?d (reconcileQuery ?d bcs n limit) [] \<noteq> countQuery ?d n" for bcs
    by (simp add: buildSQL_numbered countQuery_def reconcileQuery_def aggregateQuery_def Let_def del: buildSQL.simps)
  obtain bcs where bcs: "resolveBucketColumns = Inr bcs" by (simp add: resolveBucketColumns_def AllBuckets_def)
  obtain q1 a1 where count: "countQuery ?d n = (q1, a1)" by (cases "countQuery ?d n")
  obtain q2 a2 where rec: "buildSQL ?d (reconcileQuery ?d bcs n limit) [] = (q2, a2)"
    by (cases "buildSQL ?d (reconcileQuery ?d bcs n limit) []")
  have "(q2, a2) \<noteq> (q1, a1)" using other [of bcs] count rec by simp
  moreover have "hDialect (reconcilingHandle d n limit) = ?d" "txDriver (reconcilingHandle d n limit) = reconcilingDriver ?d d n limit"
    by (simp_all add: reconcilingHandle_def hDialect_def)
  ultimately show ?thesis
    unfolding answersReconcile_def by (simp only: countQuery_def [symmetric] count bcs rec prod.case sum.case)
      (auto simp: reconcilingDriver_def count step_simps)
qed

text \<open>The accrued order of the demo run, with an account balance that was tampered with.\<close>

definition tamperedData :: data where
  "tamperedData = demoData3\<lparr>dAccounts := (dAccounts demoData3)(UserKey 1 10 \<mapsto> demoA\<lparr>aVersion := 1, aAvailable := 7\<rparr>)\<rparr>"

lemma tampered_wf: "storeWf tamperedData"
proof -
  have "storeWf demoData3" using moneyInv_parts(1) [OF money_steps.reachable_holds [OF demo_reachable(3)]] by (simp add: demo3_def)
  moreover have "UserKey 1 10 \<in> dom (dAccounts demoData3)"
    by (simp add: demoData3_def addLedger_def addAccount_def addCommission_def demoA_def)
  then have "dom (dAccounts tamperedData) = dom (dAccounts demoData3)" by (auto simp: tamperedData_def)
  moreover have "aKey (demoA\<lparr>aVersion := 1, aAvailable := 7\<rparr>) = UserKey 1 10" by (simp add: demoA_def)
  ultimately show ?thesis
    by (simp add: storeWf_def accountsWf_def commissionsWf_def refundsWf_def ledgerWf_def withdrawalsWf_def tamperedData_def
        del: dom_fun_upd)
qed

lemma tampered_rows:
  "accountsOf 1 tamperedData = [demoA\<lparr>aVersion := 1, aAvailable := 7\<rparr>]" "entriesOf (UserKey 1 10) tamperedData = [demoE]"
  by (simp_all add: accountsOf_def entriesOf_def rowsAt_def tamperedData_def demoData3_def addLedger_def addAccount_def push_def
      slot_def addCommission_def demoData2_def demoData1_def newData_def demoA_def demoE_def newLedgerEntry_def zeroAccount_def
      insertAt_def lowerBound_def sortSearch_def searchFrom.simps AllBuckets_def)


end
