(* ===== verification/SqlMigrate.thy ===== *)
theory SqlMigrate
  imports SqlTx
begin

text \<open>
  store/sql/migrate.go: creating the schema, tolerating what exists, and the schema check by probes
  that return no rows. Both run on the database handle, outside a transaction.
\<close>

subsection \<open>Migrate\<close>

text \<open>\<open>strings.Fields\<close>: the maximal stretches without white space of ASCII.\<close>

definition isSpace :: "char \<Rightarrow> bool" where
  "isSpace c \<longleftrightarrow> (let n = of_char c :: nat in n = 32 \<or> 9 \<le> n \<and> n \<le> 13)"

function fieldsOf :: "string \<Rightarrow> string list" where
  "fieldsOf s = (let rest = dropWhile isSpace s in
     if rest = [] then [] else takeWhile (\<lambda>c. \<not> isSpace c) rest # fieldsOf (dropWhile (\<lambda>c. \<not> isSpace c) rest))"
  by pat_completeness auto
termination
proof (relation "measure length", simp, goal_cases)
  case (1 s rest)
  obtain c cs where c: "rest = c # cs" using 1(2) by (cases rest) auto
  have "\<not> isSpace c" using c 1(1) by (metis hd_dropWhile list.distinct(1) list.sel(1))
  then have "length (dropWhile (\<lambda>c. \<not> isSpace c) rest) < length rest"
    using length_dropWhile_le [of "\<lambda>c. \<not> isSpace c" cs] by (simp add: c)
  also have "length rest \<le> length s" using 1(1) length_dropWhile_le [of isSpace s] by simp
  finally show ?case using 1(1) by simp
qed

declare fieldsOf.simps [simp del]

definition summarise :: "string \<Rightarrow> string" where
  "summarise stmt = (let s = joinWith '' '' (fieldsOf stmt) in if length s \<le> 60 then s else take 60 s @ ''...'')"

definition migrateStep :: "dialect \<Rightarrow> 'db driver \<Rightarrow> string \<Rightarrow> unit \<Rightarrow> (dberr, 'db, unit) estep" where
  "migrateStep d v stmt _ = attempt (drExec v stmt []) (\<lambda>r. case r of
      Inr _ \<Rightarrow> ret ()
    | Inl e \<Rightarrow> if diIsAlreadyExists d e then ret ()
               else throw (Context (''sqlstore: migrate '' @ summarise stmt) e))"

text \<open>The nil checks of the handle and the dialect are on \<open>Some\<close> values here.\<close>

definition Migrate :: "'db driver option \<Rightarrow> dialect option \<Rightarrow> (dberr, 'db, unit) estep" where
  "Migrate db d =
     (case db of None \<Rightarrow> throw (Plain ''sqlstore: migrate: nil *sql.DB'')
      | Some v \<Rightarrow> (case d of None \<Rightarrow> throw (Plain ''sqlstore: migrate: nil Dialect'')
          | Some d' \<Rightarrow> loopM (migrateStep d' v) (Statements d') ()))"

subsection \<open>CheckSchema\<close>

definition quotedColumns :: "dialect \<Rightarrow> table_def \<Rightarrow> string list" where
  "quotedColumns d t = map (\<lambda>c. diQuote d (cdName c)) (tdColumns t)"

definition columnList :: "dialect \<Rightarrow> table_def \<Rightarrow> string" where
  "columnList d t = joinWith '', '' (quotedColumns d t)"

text \<open>A probe: whether the query can be answered. Closing its rows is taken to succeed.\<close>

definition probes :: "'db driver \<Rightarrow> string \<Rightarrow> (dberr, 'db, bool) estep" where
  "probes v query = attempt (drQuery v query []) (\<lambda>r. case r of Inl e \<Rightarrow> ret False | Inr _ \<Rightarrow> ret True)"

definition missingColumns :: "dialect \<Rightarrow> 'db driver \<Rightarrow> table_def \<Rightarrow> (dberr, 'db, string list) estep" where
  "missingColumns d v t =
     andThen (probes v (''SELECT '' @ joinWith '', '' (quotedColumns d t) @ '' FROM '' @ diQuote d (tdName t) @
        '' WHERE 1 = 0'')) (\<lambda>ok.
       if ok then ret []
       else andThen (loopM (\<lambda>c missing.
              andThen (probes v (''SELECT '' @ diQuote d (cdName c) @ '' FROM '' @ diQuote d (tdName t) @ '' WHERE 1 = 0''))
                (\<lambda>ok. ret (if ok then missing else missing @ [cdName c]))) (tdColumns t) [])
         (\<lambda>missing. ret (if missing = [] then [''the table itself''] else missing)))"

text \<open>The text of a driver's error inside an issue needs the ledger's texts, the parameter \<open>say\<close>.\<close>

definition checkTable ::
  "(gerror \<Rightarrow> string) \<Rightarrow> dialect \<Rightarrow> 'db driver \<Rightarrow> table_def \<Rightarrow> string list \<Rightarrow> (dberr, 'db, string list) estep" where
  "checkTable say d v t issues =
     andThen (missingColumns d v t) (\<lambda>missing.
       if missing \<noteq> []
       then ret (issues @ [''table '' @ tdName t @ '' is missing: '' @ joinWith '', '' missing])
       else attempt (drExec v (''SELECT '' @ columnList d t @ '' FROM '' @ diQuote d (tdName t) @ '' WHERE 1 = 0'') [])
         (\<lambda>r. case r of
            Inl e \<Rightarrow> ret (issues @ [''table '' @ tdName t @ '' is not usable: '' @ errorText say e])
          | Inr _ \<Rightarrow> ret issues))"

definition CheckSchema :: "(gerror \<Rightarrow> string) \<Rightarrow> dialect \<Rightarrow> 'db driver \<Rightarrow> (dberr, 'db, string list) estep" where
  "CheckSchema say d v = loopM (checkTable say d v) Schema []"

end
