(* ===== verification/Ports.thy ===== *)
theory Ports
  imports Payout
begin

text \<open>
  store.go: the port the engine is written against, as a record of the operations of \<open>Reader\<close> and
  \<open>Writer\<close>, and the in-memory store as an implementation of it. The engine's operations that write
  one record (binding agents and buyers, freezing and releasing commissions, approving withdrawals and
  recording failed payouts) are defined here over any port, as the Go code has them; over the in-memory
  port they are the operations of LedgerOps, Risk and Payout.
\<close>

subsection \<open>The port\<close>

text \<open>
  The implementations have their own errors: \<open>ptErr\<close> makes an error of the ledger one of theirs, and
  \<open>ptIs\<close> is \<open>errors.Is\<close> with a sentinel of the ledger.
\<close>

record ('e, 's) reader_port =
  ptErr :: "gerror \<Rightarrow> 'e"
  ptIs :: "gerror \<Rightarrow> 'e \<Rightarrow> bool"
  ptAgent :: "user_key \<Rightarrow> ('e, 's, agent) estep"
  ptBinding :: "user_key \<Rightarrow> ('e, 's, binding) estep"
  ptAccount :: "user_key \<Rightarrow> ('e, 's, account) estep"
  ptCommission :: "int \<Rightarrow> ('e, 's, commission) estep"
  ptCommissionsByOrder :: "order_key \<Rightarrow> ('e, 's, commission list) estep"
  ptCommissionsByAgent :: "user_key \<Rightarrow> commission_query \<Rightarrow> ('e, 's, commission list) estep"
  ptRefundsByOrder :: "order_key \<Rightarrow> ('e, 's, refund list) estep"
  ptCommissionsByTenant :: "int \<Rightarrow> page \<Rightarrow> ('e, 's, commission list) estep"
  ptDueCommissions :: "int \<Rightarrow> gotime \<Rightarrow> int \<Rightarrow> ('e, 's, commission list) estep"
  ptLedgerEntries :: "user_key \<Rightarrow> ledger_query \<Rightarrow> ('e, 's, ledger_entry list) estep"
  ptAccountsByTenant :: "int \<Rightarrow> account_page \<Rightarrow> ('e, 's, account list) estep"
  ptLedgerByTenant :: "int \<Rightarrow> page \<Rightarrow> ('e, 's, ledger_entry list) estep"
  ptCountCommissionsByState :: "int \<Rightarrow> ('e, 's, commission_state \<rightharpoonup> int) estep"
  ptWithdrawalByIdemKey :: "int \<Rightarrow> string \<Rightarrow> ('e, 's, withdrawal) estep"
  ptWithdrawalByID :: "int \<Rightarrow> ('e, 's, withdrawal) estep"
  ptWithdrawalsByTenant :: "int \<Rightarrow> page \<Rightarrow> ('e, 's, withdrawal list) estep"
  ptCountWithdrawalsByState :: "int \<Rightarrow> ('e, 's, withdrawal_state \<rightharpoonup> int) estep"
  ptDueWork :: "gotime \<Rightarrow> int \<Rightarrow> ('e, 's, commission list) estep"

record ('e, 's) tx_port = "('e, 's) reader_port" +
  ptPutAgent :: "agent \<Rightarrow> ('e, 's, agent) estep"
  ptPutBinding :: "binding \<Rightarrow> ('e, 's, binding) estep"
  ptPutAccount :: "account \<Rightarrow> ('e, 's, account) estep"
  ptIncrementAccount :: "account_delta \<Rightarrow> ('e, 's, account) estep"
  ptAppendCommission :: "commission \<Rightarrow> ('e, 's, commission) estep"
  ptSetCommissionAvailableAt :: "int \<Rightarrow> gotime \<Rightarrow> int \<Rightarrow> ('e, 's, commission) estep"
  ptSetCommissionReversedAmount :: "int \<Rightarrow> money \<Rightarrow> int \<Rightarrow> ('e, 's, commission) estep"
  ptTransitionCommission :: "int \<Rightarrow> commission_state \<Rightarrow> commission_state \<Rightarrow> int \<Rightarrow> ('e, 's, commission) estep"
  ptAppendWithdrawal :: "withdrawal \<Rightarrow> ('e, 's, withdrawal) estep"
  ptTransitionWithdrawal :: "int \<Rightarrow> withdrawal_state \<Rightarrow> withdrawal_state \<Rightarrow> int \<Rightarrow> withdrawal_transition \<Rightarrow>
    ('e, 's, withdrawal) estep"
  ptAppendRefund :: "refund \<Rightarrow> ('e, 's, refund) estep"
  ptAppendLedger :: "ledger_entry \<Rightarrow> ('e, 's, ledger_entry) estep"

text \<open>The in-memory store; its counts are natural numbers.\<close>

definition rdCounts :: "(data \<Rightarrow> gerror + ('k \<rightharpoonup> nat)) \<Rightarrow> (txn, 'k \<rightharpoonup> int) step" where
  "rdCounts q = rd (\<lambda>d. case q d of Inl e \<Rightarrow> Inl e | Inr m \<Rightarrow> Inr (\<lambda>k. map_option int (m k)))"

definition memoryTx :: "(gerror, txn) tx_port" where
  "memoryTx =
     \<lparr>ptErr = (\<lambda>e. e), ptIs = (\<lambda>target e. e = target),
      ptAgent = (\<lambda>k. rd (rdAgent k)), ptBinding = (\<lambda>k. rd (rdBinding k)), ptAccount = (\<lambda>k. rd (rdAccount k)),
      ptCommission = (\<lambda>i. rd (rdCommission i)), ptCommissionsByOrder = (\<lambda>k. rd (rdCommissionsByOrder k)),
      ptCommissionsByAgent = (\<lambda>k q. rd (rdCommissionsByAgent k q)), ptRefundsByOrder = (\<lambda>k. rd (rdRefundsByOrder k)),
      ptCommissionsByTenant = (\<lambda>tn p. rd (rdCommissionsByTenant tn p)),
      ptDueCommissions = (\<lambda>tn at n. rd (rdDueCommissions tn at n)), ptLedgerEntries = (\<lambda>k q. rd (rdLedgerEntries k q)),
      ptAccountsByTenant = (\<lambda>tn p. rd (rdAccountsByTenant tn p)), ptLedgerByTenant = (\<lambda>tn p. rd (rdLedgerByTenant tn p)),
      ptCountCommissionsByState = (\<lambda>tn. rdCounts (rdCountCommissionsByState tn)),
      ptWithdrawalByIdemKey = (\<lambda>tn k. rd (rdWithdrawalByIdemKey tn k)), ptWithdrawalByID = (\<lambda>i. rd (rdWithdrawalByID i)),
      ptWithdrawalsByTenant = (\<lambda>tn p. rd (rdWithdrawalsByTenant tn p)),
      ptCountWithdrawalsByState = (\<lambda>tn. rdCounts (rdCountWithdrawalsByState tn)),
      ptDueWork = (\<lambda>at n. rd (rdDueWork at n)),
      ptPutAgent = PutAgent, ptPutBinding = PutBinding, ptPutAccount = PutAccount, ptIncrementAccount = IncrementAccount,
      ptAppendCommission = AppendCommission, ptSetCommissionAvailableAt = SetCommissionAvailableAt,
      ptSetCommissionReversedAmount = SetCommissionReversedAmount, ptTransitionCommission = TransitionCommission,
      ptAppendWithdrawal = AppendWithdrawal, ptTransitionWithdrawal = TransitionWithdrawal,
      ptAppendRefund = AppendRefund, ptAppendLedger = AppendLedger\<rparr>"

subsection \<open>Relations over a port\<close>

function depthOn :: "('e, 's) tx_port \<Rightarrow> user_key \<Rightarrow> int \<Rightarrow> int \<Rightarrow> int set \<Rightarrow> ('e, 's, int) estep" where
  "depthOn p key depth cur seen =
     (if cur = 0 then ret depth
      else if cur = ukUserID key then throw (ptErr p ErrCycle)
      else if cur \<in> seen then throw (ptErr p ErrCycle)
      else if depth + 1 > MaxLevels then throw (ptErr p ErrDepthExceeded)
      else attempt (ptAgent p (UserKey (ukTenantID key) cur)) (\<lambda>r. case r of
          Inl e \<Rightarrow> throw (if ptIs p ErrNotFound e then ptErr p (FieldError ''parent_id'') else e)
        | Inr parent \<Rightarrow> depthOn p key (depth + 1) (agParentID parent) (insert cur seen)))"
  by pat_completeness auto
termination
  by (relation "measure (\<lambda>(p, key, depth, cur, seen). nat (MaxLevels + 1 - depth))") auto

declare depthOn.simps [simp del]

text \<open>The agent that a request writes, over the stored one or for the first time.\<close>

definition agentChanged :: "ledger \<Rightarrow> bind_agent_request \<Rightarrow> agent \<Rightarrow> agent" where
  "agentChanged l req cur = cur\<lparr>agStatus := baStatus req, agJoinType := baJoinType req,
     agRateOverrideBP := baRateOverrideBP req, agUpdatedAt := lNow l\<rparr>"

definition agentCreated :: "ledger \<Rightarrow> bind_agent_request \<Rightarrow> int \<Rightarrow> agent" where
  "agentCreated l req depth = \<lparr>agKey = UserKey (baTenantID req) (baUserID req), agParentID = baParentID req,
     agDepth = depth, agStatus = baStatus req, agJoinType = baJoinType req, agRateOverrideBP = baRateOverrideBP req,
     agCreatedAt = lNow l, agUpdatedAt = lNow l, agVersion = 0\<rparr>"

definition bindAgentOn :: "('e, 's) tx_port \<Rightarrow> ledger \<Rightarrow> bind_agent_request \<Rightarrow> ('e, 's, agent) estep" where
  "bindAgentOn p l req =
     (let key = UserKey (baTenantID req) (baUserID req) in
      attempt (ptAgent p key) (\<lambda>r. case r of
          Inr cur \<Rightarrow>
            if agParentID cur \<noteq> baParentID req then throw (ptErr p ErrParentAlreadySet)
            else ptPutAgent p (agentChanged l req cur)
        | Inl e \<Rightarrow>
            if \<not> ptIs p ErrNotFound e then throw e
            else andThen (depthOn p key 1 (baParentID req) {}) (\<lambda>depth. ptPutAgent p (agentCreated l req depth))))"

text \<open>The checks before the transaction, and the transaction; \<open>update\<close> is the store's \<open>Update\<close>.\<close>

definition BindAgentOn ::
  "('e, 't) tx_port \<Rightarrow> (('e, 't, agent) estep \<Rightarrow> ('e, 's, agent) estep) \<Rightarrow> ledger \<Rightarrow> bind_agent_request \<Rightarrow>
   ('e, 's, agent) estep" where
  "BindAgentOn p update l req =
     (if baTenantID req < 0 then throw (ptErr p (FieldError ''tenant_id''))
      else if baUserID req \<le> 0 then throw (ptErr p (FieldError ''user_id''))
      else if baParentID req < 0 then throw (ptErr p (FieldError ''parent_id''))
      else if baParentID req = baUserID req then throw (ptErr p (FieldError ''parent_id''))
      else if \<not> joinTypeValid (baJoinType req) then throw (ptErr p (FieldError ''join_type''))
      else if \<not> agentStatusValid (baStatus req) then throw (ptErr p (FieldError ''status''))
      else if (case baRateOverrideBP req of None \<Rightarrow> False | Some r \<Rightarrow> \<not> rateValid r)
        then throw (ptErr p (FieldError ''rate_override_bp''))
      else update (bindAgentOn p l req))"

definition bindingChanged :: "ledger \<Rightarrow> bind_buyer_request \<Rightarrow> gotime \<Rightarrow> binding \<Rightarrow> binding" where
  "bindingChanged l req boundAt cur = cur\<lparr>bAgentUserID := bbAgentUserID req, bSource := bbSource req,
     bSourceRef := bbSourceRef req, bBoundAt := boundAt, bExpireAt := expiryFor l boundAt, bActive := True,
     bReboundFrom := bID cur\<rparr>"

definition bindingCreated :: "ledger \<Rightarrow> bind_buyer_request \<Rightarrow> gotime \<Rightarrow> binding" where
  "bindingCreated l req boundAt = \<lparr>bID = 0, bBuyer = UserKey (bbTenantID req) (bbBuyerUserID req),
     bAgentUserID = bbAgentUserID req, bSource = bbSource req, bSourceRef = bbSourceRef req, bBoundAt = boundAt,
     bExpireAt = expiryFor l boundAt, bActive = True, bReboundFrom = 0, bVersion = 0\<rparr>"

definition bindBuyerOn :: "('e, 's) tx_port \<Rightarrow> ledger \<Rightarrow> bind_buyer_request \<Rightarrow> gotime \<Rightarrow> ('e, 's, binding \<times> bool) estep" where
  "bindBuyerOn p l req boundAt =
     (let agentID = bbAgentUserID req; buyer = UserKey (bbTenantID req) (bbBuyerUserID req) in
      attempt (ptAgent p (UserKey (bbTenantID req) agentID)) (\<lambda>ra. case ra of
        Inl e \<Rightarrow> throw (if ptIs p ErrNotFound e then ptErr p (FieldError ''agent_user_id'') else e)
      | Inr agent \<Rightarrow>
          if agStatus agent \<noteq> AgentActive then throw (ptErr p (FieldError ''agent_user_id''))
          else if agentID = bbBuyerUserID req then throw (ptErr p (FieldError ''agent_user_id''))
          else attempt (ptBinding p buyer) (\<lambda>rb. case rb of
            Inr cur \<Rightarrow>
              if bindingEffective cur boundAt then ret (cur, bAgentUserID cur \<noteq> agentID)
              else andThen (ptPutBinding p (bindingChanged l req boundAt cur)) (\<lambda>b. ret (b, False))
          | Inl e \<Rightarrow>
              if \<not> ptIs p ErrNotFound e then throw e
              else andThen (ptPutBinding p (bindingCreated l req boundAt)) (\<lambda>b. ret (b, False)))))"

definition BindBuyerOn ::
  "('e, 't) tx_port \<Rightarrow> (('e, 't, binding \<times> bool) estep \<Rightarrow> ('e, 's, binding \<times> bool) estep) \<Rightarrow> ledger \<Rightarrow> bind_buyer_request \<Rightarrow>
   ('e, 's, binding \<times> bool) estep" where
  "BindBuyerOn p update l req =
     (case userKeyValidate (UserKey (bbTenantID req) (bbBuyerUserID req)) of Some e \<Rightarrow> throw (ptErr p e) | None \<Rightarrow>
      if bbAgentUserID req \<le> 0 then throw (ptErr p (FieldError ''agent_user_id''))
      else if \<not> bindSourceValid (bbSource req) then throw (ptErr p (FieldError ''source''))
      else if length (bbSourceRef req) > MaxOrderItemIDLen then throw (ptErr p (FieldError ''source_ref''))
      else
        let boundAt = (if bbBoundAt req = 0 then lNow l else bbBoundAt req)
        in update (bindBuyerOn p l req boundAt))"

subsection \<open>Commissions and withdrawals over a port\<close>

definition scopedCommissionOn :: "('e, 's) tx_port \<Rightarrow> int \<Rightarrow> int \<Rightarrow> ('e, 's, commission) estep" where
  "scopedCommissionOn p tenantID commissionID =
     (if tenantID < 0 then throw (ptErr p (FieldError ''tenant_id''))
      else if commissionID \<le> 0 then throw (ptErr p (FieldError ''commission_id''))
      else andThen (ptCommission p commissionID) (\<lambda>cur.
        if okTenantID (cKey cur) \<noteq> tenantID then throw (ptErr p ErrNotFound) else ret cur))"

definition freezeOn :: "('e, 's) tx_port \<Rightarrow> int \<Rightarrow> int \<Rightarrow> ('e, 's, commission) estep" where
  "freezeOn p tenantID commissionID =
     andThen (scopedCommissionOn p tenantID commissionID) (\<lambda>cur.
       if cState cur \<noteq> CommissionPending
       then throw (ptErr p (TransitionError ''commission freeze'' (commissionStateString (cState cur)) (commissionStateString CommissionFrozen)))
       else ptTransitionCommission p (cID cur) CommissionPending CommissionFrozen (cVersion cur))"

definition unfreezeOn :: "('e, 's) tx_port \<Rightarrow> int \<Rightarrow> int \<Rightarrow> ('e, 's, commission) estep" where
  "unfreezeOn p tenantID commissionID =
     andThen (scopedCommissionOn p tenantID commissionID) (\<lambda>cur.
       if cState cur \<noteq> CommissionFrozen
       then throw (ptErr p (TransitionError ''commission unfreeze'' (commissionStateString (cState cur)) (commissionStateString CommissionPending)))
       else ptTransitionCommission p (cID cur) CommissionFrozen CommissionPending (cVersion cur))"

definition FreezeCommissionOn ::
  "('e, 't) tx_port \<Rightarrow> (('e, 't, commission) estep \<Rightarrow> ('e, 's, commission) estep) \<Rightarrow> int \<Rightarrow> int \<Rightarrow> string \<Rightarrow>
   ('e, 's, commission) estep" where
  "FreezeCommissionOn p update tenantID commissionID reason =
     (case validateReason reason of Some e \<Rightarrow> throw (ptErr p e) | None \<Rightarrow> update (freezeOn p tenantID commissionID))"

definition UnfreezeCommissionOn ::
  "('e, 't) tx_port \<Rightarrow> (('e, 't, commission) estep \<Rightarrow> ('e, 's, commission) estep) \<Rightarrow> int \<Rightarrow> int \<Rightarrow> string \<Rightarrow>
   ('e, 's, commission) estep" where
  "UnfreezeCommissionOn p update tenantID commissionID reason =
     (case validateReason reason of Some e \<Rightarrow> throw (ptErr p e) | None \<Rightarrow> update (unfreezeOn p tenantID commissionID))"

definition scopedWithdrawalOn :: "('e, 's) tx_port \<Rightarrow> int \<Rightarrow> int \<Rightarrow> ('e, 's, withdrawal) estep" where
  "scopedWithdrawalOn p tenantID wid =
     (if tenantID < 0 then throw (ptErr p (FieldError ''tenant_id''))
      else if wid \<le> 0 then throw (ptErr p (FieldError ''withdrawal_id''))
      else andThen (ptWithdrawalByID p wid) (\<lambda>cur.
        if ukTenantID (wKey cur) \<noteq> tenantID then throw (ptErr p ErrNotFound) else ret cur))"

definition approvalOf :: "ledger \<Rightarrow> withdraw_decision \<Rightarrow> withdrawal_transition" where
  "approvalOf l req = noTransition\<lparr>wtOperator := wdOperator req, wtAuditedAt := lNow l\<rparr>"

definition approveOn :: "('e, 's) tx_port \<Rightarrow> ledger \<Rightarrow> withdraw_decision \<Rightarrow> ('e, 's, withdrawal) estep" where
  "approveOn p l req =
     andThen (scopedWithdrawalOn p (wdTenantID req) (wdWithdrawalID req)) (\<lambda>cur.
       ptTransitionWithdrawal p (wID cur) WithdrawalApplied WithdrawalApproved (wVersion cur) (approvalOf l req))"

definition ApproveWithdrawOn ::
  "('e, 't) tx_port \<Rightarrow> (('e, 't, withdrawal) estep \<Rightarrow> ('e, 's, withdrawal) estep) \<Rightarrow> ledger \<Rightarrow> withdraw_decision \<Rightarrow>
   ('e, 's, withdrawal) estep" where
  "ApproveWithdrawOn p update l req = update (approveOn p l req)"

definition payoutFailureOn :: "('e, 's) tx_port \<Rightarrow> int \<Rightarrow> string \<Rightarrow> string \<Rightarrow> ('e, 's, withdrawal) estep" where
  "payoutFailureOn p wid reason opr =
     andThen (ptWithdrawalByID p wid) (\<lambda>live.
       ptTransitionWithdrawal p (wID live) (wState live) WithdrawalPayFailed (wVersion live)
         (noTransition\<lparr>wtFailReason := reason, wtOperator := opr\<rparr>))"

definition recordPayoutFailureOn ::
  "('e, 't) tx_port \<Rightarrow> (('e, 't, withdrawal) estep \<Rightarrow> ('e, 's, withdrawal) estep) \<Rightarrow> withdrawal \<Rightarrow> string \<Rightarrow> string \<Rightarrow>
   ('e, 's, withdrawal) estep" where
  "recordPayoutFailureOn p update cur reason opr =
     update (payoutFailureOn p (wID cur) (if length reason > maxReasonLen then take maxReasonLen reason else reason) opr)"

subsection \<open>Over the in-memory port\<close>

lemma memoryTx_simps [simp]:
  "ptErr memoryTx e = e" "ptIs memoryTx target e \<longleftrightarrow> e = target" "ptAgent memoryTx k = rd (rdAgent k)"
  "ptBinding memoryTx k = rd (rdBinding k)" "ptCommission memoryTx i = rd (rdCommission i)"
  "ptWithdrawalByID memoryTx i = rd (rdWithdrawalByID i)" "ptPutAgent memoryTx = PutAgent" "ptPutBinding memoryTx = PutBinding"
  "ptTransitionCommission memoryTx = TransitionCommission" "ptTransitionWithdrawal memoryTx = TransitionWithdrawal"
  by (simp_all add: memoryTx_def)

lemma depthOn_memory: "depthOn memoryTx key depth cur seen t = (depthFrom (txD t) key depth cur seen, t)"
proof (induction "txD t" key depth cur seen rule: depthFrom.induct)
  case (1 key depth cur seen)
  then show ?case
    by (subst depthOn.simps, subst depthFrom.simps) (auto simp: step_simps rdAgent_def split: option.split)
qed

lemma bindAgentOn_memory: "bindAgentOn memoryTx l req = bindAgentBody l req"
proof -
  have "depthOn memoryTx key 1 parent {} = rd (resolveDepth key parent)" for key parent
    by (rule ext) (simp add: depthOn_memory resolveDepth_def step_simps)
  then show ?thesis
    by (intro ext) (simp add: bindAgentOn_def bindAgentBody_def agentChanged_def agentCreated_def rdAgent_def Let_def step_simps
        split: option.split sum.split)
qed

lemma bindBuyerOn_memory: "bindBuyerOn memoryTx l req at = bindBuyerBody l req at"
  by (intro ext)
    (simp add: bindBuyerOn_def bindBuyerBody_def bindingChanged_def bindingCreated_def rdAgent_def rdBinding_def Let_def
      step_simps split: option.split sum.split)

lemma scoped_memory:
  "scopedCommissionOn memoryTx tn i = rd (loadScopedCommission tn i)"
  "scopedWithdrawalOn memoryTx tn i = rd (loadScopedWithdrawal tn i)"
  by (auto simp: fun_eq_iff scopedCommissionOn_def loadScopedCommission_def scopedWithdrawalOn_def loadScopedWithdrawal_def
      rdCommission_def rdWithdrawalByID_def step_simps split: option.split)

lemma decisions_memory:
  "freezeOn memoryTx tn i = freezeBody tn i" "unfreezeOn memoryTx tn i = unfreezeBody tn i"
  "approveOn memoryTx l dreq = approveBody l dreq"
  "payoutFailureOn memoryTx (wID cur) reason opr = payoutFailureBody cur reason opr"
  by (simp_all add: freezeOn_def freezeBody_def unfreezeOn_def unfreezeBody_def approveOn_def approveBody_def approvalOf_def
      payoutFailureOn_def payoutFailureBody_def scoped_memory cong: if_cong)

text \<open>The operations of the engine are those over the port of the in-memory store.\<close>

theorem engine_on_memory:
  "BindAgentOn memoryTx Update l req = BindAgent l req"
  "BindBuyerOn memoryTx Update l breq = BindBuyer l breq"
  "FreezeCommissionOn memoryTx Update tn i reason = FreezeCommission tn i reason"
  "UnfreezeCommissionOn memoryTx Update tn i reason = UnfreezeCommission tn i reason"
  "ApproveWithdrawOn memoryTx Update l dreq = ApproveWithdraw l dreq"
  "recordPayoutFailureOn memoryTx Update cur reason op = recordPayoutFailure cur reason op"
  by (simp_all add: BindAgentOn_def BindAgent_def bindAgentOn_memory BindBuyerOn_def BindBuyer_def bindBuyerOn_memory
      FreezeCommissionOn_def FreezeCommission_def UnfreezeCommissionOn_def UnfreezeCommission_def ApproveWithdrawOn_def
      ApproveWithdraw_def recordPayoutFailureOn_def recordPayoutFailure_def decisions_memory split: option.split)

end
