(* ===== verification/PortSimulation.thy ===== *)
theory PortSimulation
  imports Ports SqlAgrees
begin

text \<open>
  What an implementation of the port must promise so that the engine behaves on it as on the in-memory
  store: a small relational logic for steps on two states, and for each kind of record a locale with the
  laws of its operations, in which the engine's operations are simulated once and for all.
\<close>

subsection \<open>Steps that agree\<close>

text \<open>
  Errors are alike when they are the same error of the ledger; of a conflict the two numbers may differ
  (where a state differs, the in-memory store names the states and the SQL store the versions).
\<close>

definition alike :: "dberr \<Rightarrow> gerror \<Rightarrow> bool" where
  "alike e' e \<longleftrightarrow> (\<exists>x. e' = Ledger x \<and> blindConflict x = blindConflict e)"

lemma alike_Ledger [simp]: "alike (Ledger e) e"
  by (simp add: alike_def)

lemma blind_NotFound: "blindConflict x = blindConflict e \<Longrightarrow> x = ErrNotFound \<longleftrightarrow> e = ErrNotFound"
  by (cases x; cases e) (simp_all add: blindConflict_def)

text \<open>
  \<open>agrees P V Q f g\<close>: from related states the results are related, errors to like errors and values by \<open>V\<close>;
  after a value the states are related by \<open>Q\<close>. An error ends the transaction, so the states after it do
  not matter. \<open>reads\<close> is the same for steps that leave both states alone.
\<close>

definition agrees ::
  "('s \<Rightarrow> 't \<Rightarrow> bool) \<Rightarrow> ('x \<Rightarrow> 'y \<Rightarrow> bool) \<Rightarrow> ('s \<Rightarrow> 't \<Rightarrow> bool) \<Rightarrow> (dberr, 's, 'x) estep \<Rightarrow> (gerror, 't, 'y) estep \<Rightarrow> bool" where
  "agrees P V Q f g \<longleftrightarrow> (\<forall>s t. P s t \<longrightarrow>
     rel_sum alike V (fst (f s)) (fst (g t)) \<and> (\<forall>y. fst (g t) = Inr y \<longrightarrow> Q (snd (f s)) (snd (g t))))"

definition reads ::
  "('s \<Rightarrow> 't \<Rightarrow> bool) \<Rightarrow> ('x \<Rightarrow> 'y \<Rightarrow> bool) \<Rightarrow> (dberr, 's, 'x) estep \<Rightarrow> (gerror, 't, 'y) estep \<Rightarrow> bool" where
  "reads P V f g \<longleftrightarrow> (\<forall>s t. P s t \<longrightarrow> rel_sum alike V (fst (f s)) (fst (g t)) \<and> snd (f s) = s \<and> snd (g t) = t)"

named_theorems agree_rules "rules for steps that agree"

lemma agrees_ret [agree_rules]: "V x y \<Longrightarrow> agrees P V P (ret x) (ret y)"
  by (simp add: agrees_def step_simps)

lemma agrees_throw [agree_rules]: "alike e' e \<Longrightarrow> agrees P V Q (throw e') (throw e)"
  by (simp add: agrees_def step_simps)

lemma agrees_if [agree_rules]:
  "(b \<Longrightarrow> agrees P V Q f g) \<Longrightarrow> (\<not> b \<Longrightarrow> agrees P V Q f' g') \<Longrightarrow>
   agrees P V Q (if b then f else f') (if b then g else g')"
  by simp

lemma agrees_attempt:
  assumes "reads P V f g"
    and "\<And>e' e. alike e' e \<Longrightarrow> agrees P W Q (F (Inl e')) (G (Inl e))"
    and "\<And>x y. V x y \<Longrightarrow> agrees P W Q (F (Inr x)) (G (Inr y))"
  shows "agrees P W Q (attempt f F) (attempt g G)"
  unfolding agrees_def
proof (intro allI impI)
  fix s t assume P: "P s t"
  then have r: "rel_sum alike V (fst (f s)) (fst (g t))" "snd (f s) = s" "snd (g t) = t"
    using assms(1) by (auto simp: reads_def)
  have "agrees P W Q (F (fst (f s))) (G (fst (g t)))"
    using r(1) assms(2,3) by (auto elim: rel_sum.cases)
  then show "rel_sum alike W (fst (attempt f F s)) (fst (attempt g G t)) \<and>
      (\<forall>y. fst (attempt g G t) = Inr y \<longrightarrow> Q (snd (attempt f F s)) (snd (attempt g G t)))"
    using P r(2,3) by (simp add: attempt_run agrees_def)
qed

lemma agrees_read:
  "reads P V f g \<Longrightarrow> (\<And>x y. V x y \<Longrightarrow> agrees P W Q (F x) (G y)) \<Longrightarrow> agrees P W Q (andThen f F) (andThen g G)"
  unfolding andThen_def by (rule agrees_attempt [where V = V]) (auto intro: agrees_throw)

lemma agrees_andThen:
  assumes "agrees P V R f g" "\<And>x y. V x y \<Longrightarrow> agrees R W Q (F x) (G y)"
  shows "agrees P W Q (andThen f F) (andThen g G)"
  unfolding agrees_def
proof (intro allI impI)
  fix s t assume P: "P s t"
  then have r: "rel_sum alike V (fst (f s)) (fst (g t))" and post: "\<And>y. fst (g t) = Inr y \<Longrightarrow> R (snd (f s)) (snd (g t))"
    using assms(1) by (auto simp: agrees_def)
  from r show "rel_sum alike W (fst (andThen f F s)) (fst (andThen g G t)) \<and>
      (\<forall>y. fst (andThen g G t) = Inr y \<longrightarrow> Q (snd (andThen f F s)) (snd (andThen g G t)))"
  proof (cases rule: rel_sum.cases)
    case (1 e' e)
    then show ?thesis by (simp add: andThen_run step_simps)
  next
    case (2 x y)
    then show ?thesis using assms(2) post [of y] by (simp add: andThen_run agrees_def)
  qed
qed

lemma agrees_pre: "agrees P V Q f g \<Longrightarrow> (\<And>s t. P' s t \<Longrightarrow> P s t) \<Longrightarrow> agrees P' V Q f g"
  by (auto simp: agrees_def)

lemma agrees_post: "agrees P V Q f g \<Longrightarrow> (\<And>s t. Q s t \<Longrightarrow> Q' s t) \<Longrightarrow> agrees P V Q' f g"
  by (auto simp: agrees_def)

lemma agreesD:
  "agrees P V Q f g \<Longrightarrow> P s t \<Longrightarrow> rel_sum alike V (fst (f s)) (fst (g t))"
  "agrees P V Q f g \<Longrightarrow> P s t \<Longrightarrow> fst (g t) = Inr y \<Longrightarrow> Q (snd (f s)) (snd (g t))"
  by (auto simp: agrees_def)

subsection \<open>The laws of the port\<close>

text \<open>
  \<open>I s d\<close> relates a state of the implementation to the data of the in-memory store. The laws speak of
  records that the implementation can store (\<open>okAgent\<close> and the like), which the SQL store needs: its
  columns are bounded.
\<close>

abbreviation started :: "('s \<Rightarrow> data \<Rightarrow> bool) \<Rightarrow> data \<Rightarrow> 's \<Rightarrow> txn \<Rightarrow> bool" where
  "started I d \<equiv> \<lambda>s t. I s d \<and> txD t = d"

abbreviation related :: "('s \<Rightarrow> data \<Rightarrow> bool) \<Rightarrow> 's \<Rightarrow> txn \<Rightarrow> bool" where
  "related I \<equiv> \<lambda>s t. I s (txD t)"

locale error_port =
  fixes p :: "(dberr, 's) tx_port"
  assumes err [simp]: "ptErr p e = Ledger e"
    and is_err [simp]: "ptIs p target (Ledger e) \<longleftrightarrow> e = target"
begin

lemma is_NotFound: "alike e' e \<Longrightarrow> ptIs p ErrNotFound e' \<longleftrightarrow> e = ErrNotFound"
proof -
  assume "alike e' e"
  then obtain x where "e' = Ledger x" "blindConflict x = blindConflict e" by (auto simp: alike_def)
  then show ?thesis using blind_NotFound [of x e] by simp
qed

end

locale agent_port = error_port +
  fixes I :: "'a \<Rightarrow> data \<Rightarrow> bool" and okAgent :: "agent \<Rightarrow> bool"
  assumes read_agent: "I s d \<Longrightarrow> ptAgent p k s =
      (case dAgents d k of None \<Rightarrow> Inl (Ledger ErrNotFound) | Some a \<Rightarrow> Inr a, s)"
    and put_agent: "okAgent a \<Longrightarrow> agrees (related I) (=) (related I) (ptPutAgent p a) (PutAgent a)"
begin

lemma reads_agent:
  "reads (started I d) (\<lambda>x y. x = y \<and> dAgents d k = Some y) (ptAgent p k) (rd (rdAgent k))"
  by (auto simp: reads_def read_agent step_simps rdAgent_def split: option.split)

text \<open>The walk to the root visits the same agents.\<close>

lemma depth_walk:
  "I s d \<Longrightarrow> depthOn p key depth cur seen s =
     (case depthFrom d key depth cur seen of Inl e \<Rightarrow> Inl (Ledger e) | Inr n \<Rightarrow> Inr n, s)"
proof (induction d key depth cur seen rule: depthFrom.induct)
  case (1 d key depth cur seen)
  then show ?case
    by (subst depthOn.simps, subst depthFrom.simps)
      (auto simp: step_simps rdAgent_def read_agent is_NotFound split: option.split)
qed

lemma depth_bounded: "depthFrom d key depth cur seen = Inr n \<Longrightarrow> depth \<le> MaxLevels \<Longrightarrow> depth \<le> n \<and> n \<le> MaxLevels"
proof (induction d key depth cur seen rule: depthFrom.induct)
  case (1 d key depth cur seen)
  then show ?case by (subst (asm) depthFrom.simps) (fastforce split: if_splits sum.splits)
qed

lemma reads_depth:
  "reads (started I d) (\<lambda>x y. x = y \<and> 1 \<le> y \<and> y \<le> MaxLevels)
     (depthOn p key 1 parent {}) (depthOn memoryTx key 1 parent {})"
  using depth_bounded [of _ key 1 parent "{}"]
  by (auto simp: reads_def depth_walk depthOn_memory MaxLevels_def split: sum.split)

text \<open>Binding an agent.\<close>

lemma bind_agent:
  assumes "\<And>cur. dAgents d (UserKey (baTenantID req) (baUserID req)) = Some cur \<Longrightarrow> okAgent (agentChanged l req cur)"
    and "\<And>n. 1 \<le> n \<Longrightarrow> n \<le> MaxLevels \<Longrightarrow> okAgent (agentCreated l req n)"
  shows "agrees (started I d) (=) (related I) (bindAgentOn p l req) (bindAgentOn memoryTx l req)"
proof -
  have put: "agrees (started I d) (=) (related I) (ptPutAgent p a) (PutAgent a)" if "okAgent a" for a
    by (rule agrees_pre [OF put_agent [OF that]]) auto
  show ?thesis
    unfolding bindAgentOn_def Let_def memoryTx_simps
    by (rule agrees_attempt [OF reads_agent])
      (use assms in \<open>auto simp: is_NotFound intro!: agree_rules agrees_read [OF reads_depth] put\<close>)
qed

end

locale relation_port = agent_port +
  fixes okBinding :: "binding \<Rightarrow> bool"
  assumes read_binding: "I s d \<Longrightarrow> ptBinding p k s =
      (case dBindings d k of None \<Rightarrow> Inl (Ledger ErrNotFound) | Some b \<Rightarrow> Inr b, s)"
    and put_binding: "okBinding b \<Longrightarrow> agrees (related I) (=) (related I) (ptPutBinding p b) (PutBinding b)"
begin

lemma reads_binding:
  "reads (started I d) (\<lambda>x y. x = y \<and> dBindings d k = Some y) (ptBinding p k) (rd (rdBinding k))"
  by (auto simp: reads_def read_binding step_simps rdBinding_def split: option.split)

lemma bind_buyer:
  assumes "\<And>cur. dBindings d (UserKey (bbTenantID req) (bbBuyerUserID req)) = Some cur \<Longrightarrow> okBinding (bindingChanged l req at cur)"
    and "okBinding (bindingCreated l req at)"
  shows "agrees (started I d) (=) (related I) (bindBuyerOn p l req at) (bindBuyerOn memoryTx l req at)"
proof -
  have put: "agrees (started I d) (=) (related I) (ptPutBinding p b) (PutBinding b)" if "okBinding b" for b
    by (rule agrees_pre [OF put_binding [OF that]]) auto
  have kept: "agrees (started I d) (=) (related I) (ret x) (ret x)" for x :: "binding \<times> bool"
    by (rule agrees_post [OF agrees_ret]) auto
  have stored: "agrees (started I d) (=) (related I) (andThen (ptPutBinding p b) (\<lambda>b. ret (b, False)))
      (andThen (PutBinding b) (\<lambda>b. ret (b, False)))" if "okBinding b" for b
    by (rule agrees_andThen [OF put [OF that]]) (auto intro: agrees_ret)
  show ?thesis
    unfolding bindBuyerOn_def Let_def memoryTx_simps
    by (rule agrees_attempt [OF reads_agent])
      (use assms in \<open>auto simp: is_NotFound intro!: agree_rules agrees_attempt [OF reads_binding] kept stored\<close>)
qed

end

text \<open>
  Commissions agree up to the settlement stamp, which only the SQL store sets.
\<close>

definition unstampedEq :: "commission \<Rightarrow> commission \<Rightarrow> bool" where
  "unstampedEq c c' \<longleftrightarrow> c\<lparr>cSettledAt := 0\<rparr> = c'\<lparr>cSettledAt := 0\<rparr>"

lemma unstampedEq_fields:
  "unstampedEq c c' \<Longrightarrow> cID c = cID c' \<and> cKey c = cKey c' \<and> cState c = cState c' \<and> cVersion c = cVersion c'"
  by (cases c; cases c') (simp add: unstampedEq_def)

locale commission_port = error_port +
  fixes I :: "'a \<Rightarrow> data \<Rightarrow> bool" and okMove :: "data \<Rightarrow> int \<Rightarrow> commission_state \<Rightarrow> bool"
  assumes read_commission: "I s d \<Longrightarrow> rel_sum alike unstampedEq (fst (ptCommission p k s)) (rdCommission k d) \<and>
      snd (ptCommission p k s) = s"
    and commission_id: "I s d \<Longrightarrow> dCommissions d k = Some c \<Longrightarrow> cID c = k"
    and move_commission: "okMove d k to \<Longrightarrow> CanTransitionCommission from to \<Longrightarrow>
      agrees (started I d) unstampedEq (related I) (ptTransitionCommission p k from to n) (TransitionCommission k from to n)"
begin

lemma reads_scoped_commission:
  "reads (started I d) (\<lambda>x y. unstampedEq x y \<and> cID y = k) (scopedCommissionOn p tn k) (scopedCommissionOn memoryTx tn k)"
  unfolding reads_def
proof (intro allI impI)
  fix s :: 'a and t :: txn assume I: "started I d s t"
  note r = read_commission [OF conjunct1 [OF I], of k]
  show "rel_sum alike (\<lambda>x y. unstampedEq x y \<and> cID y = k) (fst (scopedCommissionOn p tn k s)) (fst (scopedCommissionOn memoryTx tn k t)) \<and>
      snd (scopedCommissionOn p tn k s) = s \<and> snd (scopedCommissionOn memoryTx tn k t) = t"
  proof (cases "dCommissions d k")
    case None
    then obtain e where "ptCommission p k s = (Inl e, s)" "alike e ErrNotFound"
      using r by (cases "ptCommission p k s") (auto simp: rdCommission_def elim: rel_sum.cases)
    then show ?thesis using I None by (simp add: scopedCommissionOn_def step_simps rdCommission_def)
  next
    case (Some c)
    then obtain x where "ptCommission p k s = (Inr x, s)" "unstampedEq x c"
      using r by (cases "ptCommission p k s") (auto simp: rdCommission_def elim: rel_sum.cases)
    then show ?thesis using I Some unstampedEq_fields [of x c] commission_id [OF conjunct1 [OF I] Some]
      by (simp add: scopedCommissionOn_def step_simps rdCommission_def)
  qed
qed

lemma freeze:
  assumes "okMove d k CommissionFrozen"
  shows "agrees (started I d) unstampedEq (related I) (freezeOn p tn k) (freezeOn memoryTx tn k)"
proof -
  have "CanTransitionCommission CommissionPending CommissionFrozen" by (simp add: CanTransitionCommission_iff)
  note move = move_commission [OF assms this]
  show ?thesis
    unfolding freezeOn_def memoryTx_simps
    by (rule agrees_read [OF reads_scoped_commission]) (use move in \<open>auto simp: unstampedEq_fields intro!: agree_rules\<close>)
qed

lemma unfreeze:
  assumes "okMove d k CommissionPending"
  shows "agrees (started I d) unstampedEq (related I) (unfreezeOn p tn k) (unfreezeOn memoryTx tn k)"
proof -
  have "CanTransitionCommission CommissionFrozen CommissionPending" by (simp add: CanTransitionCommission_iff)
  note move = move_commission [OF assms this]
  show ?thesis
    unfolding unfreezeOn_def memoryTx_simps
    by (rule agrees_read [OF reads_scoped_commission]) (use move in \<open>auto simp: unstampedEq_fields intro!: agree_rules\<close>)
qed

end

locale withdrawal_port = error_port +
  fixes I :: "'a \<Rightarrow> data \<Rightarrow> bool"
    and okMove :: "data \<Rightarrow> int \<Rightarrow> withdrawal_state \<Rightarrow> withdrawal_state \<Rightarrow> withdrawal_transition \<Rightarrow> bool"
  assumes read_withdrawal: "I s d \<Longrightarrow> ptWithdrawalByID p k s =
      (case dWithdrawals d k of None \<Rightarrow> Inl (Ledger ErrNotFound) | Some w \<Rightarrow> Inr w, s)"
    and withdrawal_id: "I s d \<Longrightarrow> dWithdrawals d k = Some w \<Longrightarrow> wID w = k"
    and move_withdrawal: "okMove d k from to tr \<Longrightarrow>
      agrees (started I d) (=) (related I) (ptTransitionWithdrawal p k from to n tr) (TransitionWithdrawal k from to n tr)"
begin

lemma reads_withdrawal:
  "reads (started I d) (\<lambda>x y. x = y \<and> wID y = k \<and> dWithdrawals d k = Some y) (ptWithdrawalByID p k) (rd (rdWithdrawalByID k))"
  by (auto simp: reads_def read_withdrawal step_simps rdWithdrawalByID_def dest: withdrawal_id split: option.split)

lemma reads_scoped_withdrawal:
  "reads (started I d) (\<lambda>x y. x = y \<and> wID y = k \<and> dWithdrawals d k = Some y) (scopedWithdrawalOn p tn k) (scopedWithdrawalOn memoryTx tn k)"
  by (auto simp: reads_def scopedWithdrawalOn_def read_withdrawal step_simps rdWithdrawalByID_def dest: withdrawal_id
      split: option.split)

lemma approve:
  assumes "okMove d (wdWithdrawalID req) WithdrawalApplied WithdrawalApproved (approvalOf l req)"
  shows "agrees (started I d) (=) (related I) (approveOn p l req) (approveOn memoryTx l req)"
  unfolding approveOn_def memoryTx_simps
  by (rule agrees_read [OF reads_scoped_withdrawal]) (auto intro!: move_withdrawal assms)

lemma payout_failure:
  assumes "\<And>w. dWithdrawals d k = Some w \<Longrightarrow>
      okMove d k (wState w) WithdrawalPayFailed (noTransition\<lparr>wtFailReason := reason, wtOperator := opr\<rparr>)"
  shows "agrees (started I d) (=) (related I) (payoutFailureOn p k reason opr) (payoutFailureOn memoryTx k reason opr)"
  unfolding payoutFailureOn_def memoryTx_simps
  by (rule agrees_read [OF reads_withdrawal]) (auto intro!: move_withdrawal assms)

end

end
