(* ===== verification/SqlEngine.thy ===== *)
theory SqlEngine
  imports PortSimulation SqlCommissions SqlWithdrawals SqlRetry
begin

text \<open>
  The engine over the SQL store: the SQL transaction handle as a port, the interpretation of the port's
  laws by it, and the transactions of \<open>Update\<close> in both stores side by side.
\<close>

subsection \<open>The SQL transaction as a port\<close>

definition sqlTx :: "'db tx_handle \<Rightarrow> gotime \<Rightarrow> (dberr, 'db) tx_port" where
  "sqlTx h now =
     \<lparr>ptErr = Ledger, ptIs = (\<lambda>target. errorsIs (Ledger target)),
      ptAgent = sqlAgent h, ptBinding = sqlBinding h, ptAccount = sqlAccount h,
      ptCommission = sqlCommission h, ptCommissionsByOrder = sqlCommissionsByOrder h,
      ptCommissionsByAgent = sqlCommissionsByAgent h, ptRefundsByOrder = sqlRefundsByOrder h,
      ptCommissionsByTenant = sqlCommissionsByTenant h,
      ptDueCommissions = sqlDueCommissions h, ptLedgerEntries = sqlLedgerEntries h,
      ptAccountsByTenant = sqlAccountsByTenant h, ptLedgerByTenant = sqlLedgerByTenant h,
      ptCountCommissionsByState = sqlCountCommissionsByState h,
      ptWithdrawalByIdemKey = sqlWithdrawalByIdemKey h, ptWithdrawalByID = sqlWithdrawalByID h,
      ptWithdrawalsByTenant = sqlWithdrawalsByTenant h,
      ptCountWithdrawalsByState = sqlCountWithdrawalsByState h, ptDueWork = sqlDueWork h,
      ptPutAgent = sqlPutAgent h, ptPutBinding = sqlPutBinding h, ptPutAccount = sqlPutAccount h,
      ptIncrementAccount = sqlIncrementAccount h now,
      ptAppendCommission = sqlAppendCommission h, ptSetCommissionAvailableAt = sqlSetCommissionAvailableAt h,
      ptSetCommissionReversedAmount = sqlSetCommissionReversedAmount h, ptTransitionCommission = sqlTransitionCommission h now,
      ptAppendWithdrawal = sqlAppendWithdrawal h, ptTransitionWithdrawal = sqlTransitionWithdrawal h,
      ptAppendRefund = sqlAppendRefund h, ptAppendLedger = sqlAppendLedger h\<rparr>"

lemma sqlTx_simps [simp]:
  "ptErr (sqlTx h now) e = Ledger e" "ptIs (sqlTx h now) target (Ledger e) \<longleftrightarrow> e = target"
  "ptAgent (sqlTx h now) = sqlAgent h" "ptBinding (sqlTx h now) = sqlBinding h"
  "ptCommission (sqlTx h now) = sqlCommission h" "ptWithdrawalByID (sqlTx h now) = sqlWithdrawalByID h"
  "ptPutAgent (sqlTx h now) = sqlPutAgent h" "ptPutBinding (sqlTx h now) = sqlPutBinding h"
  "ptTransitionCommission (sqlTx h now) = sqlTransitionCommission h now"
  "ptTransitionWithdrawal (sqlTx h now) = sqlTransitionWithdrawal h"
  by (auto simp: sqlTx_def errorsIs_def)

interpretation sql_errors: error_port "sqlTx h now" for h now
  by unfold_locales simp_all

lemma agreesI:
  assumes "\<And>s t. P s t \<Longrightarrow> \<exists>r s'. f s = (r, s') \<and> rel_sum alike V r (fst (g t)) \<and> (\<forall>y. fst (g t) = Inr y \<longrightarrow> Q s' (snd (g t)))"
  shows "agrees P V Q f g"
  unfolding agrees_def using assms by (metis fst_conv snd_conv)

lemma rel_asLedger: "rel_sum alike (=) (asLedger r) r"
  by (cases r) simp_all

subsection \<open>Agents and bindings\<close>

text \<open>
  The relation for the relation operations: the driver answers the statements on agents and bindings, the
  two tables hold the two maps, and every other table is as it was.
\<close>

definition answersRelations :: "'db tx_handle \<Rightarrow> ('db \<Rightarrow> tables) \<Rightarrow> bool" where
  "answersRelations h tabs \<longleftrightarrow>
     (\<forall>a. answers h tabs [agentUpdateS a, agentSelectS (agKey a), agentInsertS a]) \<and>
     (\<forall>b. answers h tabs [bindingUpdateS b, bindingSelectS (bBuyer b), bindingInsertS b])"

lemma answersRelationsD:
  assumes "answersRelations h tabs"
  shows "answers h tabs [agentUpdateS a, agentSelectS (agKey a), agentInsertS a]"
    "answers h tabs [bindingUpdateS b, bindingSelectS (bBuyer b), bindingInsertS b]"
    "answersSelect h tabs (agentSelectS k)" "answersSelect h tabs (bindingSelectS k)"
proof -
  show all: "answers h tabs [agentUpdateS a, agentSelectS (agKey a), agentInsertS a]"
    "answers h tabs [bindingUpdateS b, bindingSelectS (bBuyer b), bindingInsertS b]" for a b
    using assms by (simp_all add: answersRelations_def)
  have "agKey (a\<lparr>agKey := k\<rparr>) = k" "bBuyer (b\<lparr>bBuyer := k\<rparr>) = k" for a :: agent and b :: binding by simp_all
  then obtain a :: agent and b :: binding where "agKey a = k" "bBuyer b = k" by blast
  then show "answersSelect h tabs (agentSelectS k)" "answersSelect h tabs (bindingSelectS k)"
    using all(1) [of a] all(2) [of b] by (simp_all add: answers_def)
qed

definition relationTables :: "tables \<Rightarrow> tables \<Rightarrow> data \<Rightarrow> bool" where
  "relationTables before tabs d \<longleftrightarrow>
     holdsMap agentRow (dAgents d) (tabs ''dist_agent'') \<and> holdsMap bindingRow (dBindings d) (tabs ''dist_binding'') \<and>
     (\<forall>n. n \<noteq> ''dist_agent'' \<and> n \<noteq> ''dist_binding'' \<longrightarrow> tabs n = before n)"

definition relationsHeld :: "'db tx_handle \<Rightarrow> ('db \<Rightarrow> tables) \<Rightarrow> tables \<Rightarrow> 'db \<Rightarrow> data \<Rightarrow> bool" where
  "relationsHeld h tabs before db d \<longleftrightarrow> answersRelations h tabs \<and> relationTables before (tabs db) d"

definition storableBinding :: "binding \<Rightarrow> bool" where
  "storableBinding b \<longleftrightarrow> bID b = 0 \<and> storable (bBoundAt b) \<and> storable (bExpireAt b) \<and>
     fitsValues ''dist_binding'' (bindingValues (b\<lparr>bVersion := bVersion b + 1\<rparr>))"

lemma PutAgent_bindings: "dBindings (txD (snd (PutAgent a t))) = dBindings (txD t)"
  by (auto simp: PutAgent_def Let_def change_def split: option.splits)

lemma PutBinding_agents: "dAgents (txD (snd (PutBinding b t))) = dAgents (txD t)"
  by (auto simp: PutBinding_def Let_def change_def split: option.splits)

lemma agent_write:
  assumes "relationsHeld h tabs before db (txD t)" "storableAgent a"
  shows "\<exists>db'. sqlPutAgent h a db = (asLedger (fst (PutAgent a t)), db') \<and> relationsHeld h tabs before db' (txD (snd (PutAgent a t)))"
proof (cases "agentGuards a")
  case False
  then show ?thesis using agent_refused [of a h db t] assms by auto
next
  case True
  have held: "holdsMap agentRow (dAgents (txD t)) (tabs db ''dist_agent'')"
    "answers h tabs [agentUpdateS a, agentSelectS (agKey a), agentInsertS a]"
    using assms(1) answersRelationsD by (auto simp: relationsHeld_def relationTables_def)
  obtain db' where "sqlPutAgent h a db = (asLedger (fst (PutAgent a t)), db')"
    "holdsMap agentRow (dAgents (txD (snd (PutAgent a t)))) (tabs db' ''dist_agent'')"
    "\<forall>n. n \<noteq> ''dist_agent'' \<longrightarrow> tabs db' n = tabs db n"
    using agent_put [OF held True assms(2)] by (auto simp: PutAgent_run [OF True] split: option.splits)
  then show ?thesis using assms(1) by (intro exI [of _ db']) (auto simp: relationsHeld_def relationTables_def PutAgent_bindings)
qed

lemma binding_write:
  assumes "relationsHeld h tabs before db (txD t)" "storableBinding b"
  shows "\<exists>db'. sqlPutBinding h b db = (asLedger (fst (PutBinding b t)), db') \<and>
    relationsHeld h tabs before db' (txD (snd (PutBinding b t)))"
proof -
  have held: "holdsMap bindingRow (dBindings (txD t)) (tabs db ''dist_binding'')"
    "answers h tabs [bindingUpdateS b, bindingSelectS (bBuyer b), bindingInsertS b]"
    using assms(1) answersRelationsD by (auto simp: relationsHeld_def relationTables_def)
  obtain db' where "sqlPutBinding h b db = (asLedger (fst (PutBinding b t)), db')"
    "holdsMap bindingRow (dBindings (txD (snd (PutBinding b t)))) (tabs db' ''dist_binding'')"
    "\<forall>n. n \<noteq> ''dist_binding'' \<longrightarrow> tabs db' n = tabs db n"
    using put_binding_agrees [where t = t and tabs = tabs and db = db, OF held] assms(2) by (auto simp: storableBinding_def)
  then show ?thesis using assms(1) by (intro exI [of _ db']) (auto simp: relationsHeld_def relationTables_def PutBinding_agents)
qed

interpretation sql_relations: relation_port "sqlTx h now" "relationsHeld h tabs before" storableAgent storableBinding for h now tabs before
proof
  show "ptAgent (sqlTx h now) k s = (case dAgents d k of None \<Rightarrow> Inl (Ledger ErrNotFound) | Some a \<Rightarrow> Inr a, s)"
    if "relationsHeld h tabs before s d" for s d k
    using that answersRelationsD(3) by (auto simp: relationsHeld_def relationTables_def intro!: agent_lookup)
  show "ptBinding (sqlTx h now) k s = (case dBindings d k of None \<Rightarrow> Inl (Ledger ErrNotFound) | Some b \<Rightarrow> Inr b, s)"
    if "relationsHeld h tabs before s d" for s d k
    using that answersRelationsD(4) by (auto simp: relationsHeld_def relationTables_def intro!: binding_lookup)
  show "agrees (related (relationsHeld h tabs before)) (=) (related (relationsHeld h tabs before)) (ptPutAgent (sqlTx h now) a) (PutAgent a)"
    if "storableAgent a" for a
    by (rule agreesI) (use agent_write [OF _ that] rel_asLedger in \<open>fastforce\<close>)
  show "agrees (related (relationsHeld h tabs before)) (=) (related (relationsHeld h tabs before)) (ptPutBinding (sqlTx h now) b) (PutBinding b)"
    if "storableBinding b" for b
    by (rule agreesI) (use binding_write [OF _ that] rel_asLedger in \<open>fastforce\<close>)
qed

subsection \<open>Commissions\<close>

definition commissionTable :: "tables \<Rightarrow> tables \<Rightarrow> data \<Rightarrow> bool" where
  "commissionTable before tabs d \<longleftrightarrow> holdsMap commissionIn (dCommissions d) (tabs ''dist_commission'') \<and>
     (\<forall>n. n \<noteq> ''dist_commission'' \<longrightarrow> tabs n = before n)"

definition commissionsHeld :: "'db tx_handle \<Rightarrow> gotime \<Rightarrow> ('db \<Rightarrow> tables) \<Rightarrow> tables \<Rightarrow> 'db \<Rightarrow> data \<Rightarrow> bool" where
  "commissionsHeld h now tabs before db d \<longleftrightarrow>
     (\<forall>k from to n. answers h tabs [commissionUpdateS k from to n, commissionSelectS k, settledStampS k now]) \<and>
     commissionTable before (tabs db) d"

definition storableMove :: "gotime \<Rightarrow> data \<Rightarrow> int \<Rightarrow> commission_state \<Rightarrow> bool" where
  "storableMove now d k to \<longleftrightarrow> storable now \<and> commissionStateCode to < 256 \<and>
     (\<forall>c. dCommissions d k = Some c \<longrightarrow> fitsValues ''dist_commission'' (commissionRowValues (commissionMoved to c)))"

lemma unstamped_moved: "unstampedEq (c\<lparr>cSettledAt := s\<rparr>) c"
  by (simp add: unstampedEq_def)

lemma commission_move:
  assumes held: "commissionsHeld h now tabs before db (txD t)" and ok: "storableMove now (txD t) k to" "CanTransitionCommission from to"
  shows "\<exists>r db'. sqlTransitionCommission h now k from to n db = (r, db') \<and>
    rel_sum alike unstampedEq r (fst (TransitionCommission k from to n t)) \<and>
    commissionsHeld h now tabs before db' (txD (snd (TransitionCommission k from to n t)))"
proof -
  have a: "holdsMap commissionIn (dCommissions (txD t)) (tabs db ''dist_commission'')"
    "answers h tabs [commissionUpdateS k from to n, commissionSelectS k, settledStampS k now]"
    using held by (auto simp: commissionsHeld_def commissionTable_def)
  have b: "storable now" "commissionStateCode to < 256"
    "\<forall>c. dCommissions (txD t) k = Some c \<longrightarrow> fitsValues ''dist_commission'' (commissionRowValues (commissionMoved to c))"
    using ok(1) by (auto simp: storableMove_def)
  note legal = ok(2) [unfolded ValidateCommissionTransition_None [symmetric]]
  from commission_transition [where m = "dCommissions (txD t)" and tabs = tabs and db = db and h = h and k = k and n = n
      and now = now, OF a b]
  show ?thesis
  proof (elim exE conjE, goal_cases)
    case (1 s db')
    show ?case
      by (intro exI conjI, rule 1(1))
        (use 1(2,3) held legal ok(2) in \<open>auto simp: TransitionCommission_run conflict_def unstamped_moved commissionsHeld_def
            commissionTable_def split: option.splits\<close>)
  qed
qed

interpretation sql_commissions: commission_port "sqlTx h now" "commissionsHeld h now tabs before" "storableMove now" for h now tabs before
proof
  show "rel_sum alike unstampedEq (fst (ptCommission (sqlTx h now) k s)) (rdCommission k d) \<and> snd (ptCommission (sqlTx h now) k s) = s"
    if "commissionsHeld h now tabs before s d" for s d k
  proof -
    have "answersSelect h tabs (commissionSelectS k)" "holdsMap commissionIn (dCommissions d) (tabs s ''dist_commission'')"
      using that by (auto simp: commissionsHeld_def commissionTable_def answers_def)
    from commission_lookup [where m = "dCommissions d" and tabs = tabs and db = s, OF this(2,1)] show ?thesis
      by (auto simp: rdCommission_def unstamped_moved split: option.splits)
  qed
  show "cID c = k" if "commissionsHeld h now tabs before s d" "dCommissions d k = Some c" for s d k c
  proof -
    have "holdsMap commissionIn (dCommissions d) (tabs s ''dist_commission'')"
      using that(1) by (auto simp: commissionsHeld_def commissionTable_def)
    from holdsMap_entry [where m = "dCommissions d" and v = c, OF this that(2)] show ?thesis by (auto simp: commissionIn_def)
  qed
  show "agrees (started (commissionsHeld h now tabs before) d) unstampedEq (related (commissionsHeld h now tabs before))
      (ptTransitionCommission (sqlTx h now) k from to n) (TransitionCommission k from to n)"
    if "storableMove now d k to" "CanTransitionCommission from to" for d k "from" "to" n
    by (rule agreesI) (use commission_move that in \<open>fastforce\<close>)
qed

subsection \<open>Withdrawals\<close>

text \<open>The relation is indexed by the transitions an operation may make.\<close>

type_synonym withdrawal_moves = "(withdrawal_state \<times> withdrawal_state \<times> withdrawal_transition) set"

definition withdrawalTable :: "tables \<Rightarrow> tables \<Rightarrow> data \<Rightarrow> bool" where
  "withdrawalTable before tabs d \<longleftrightarrow> holdsMap withdrawalIn (dWithdrawals d) (tabs ''dist_withdraw'') \<and>
     (\<forall>n. n \<noteq> ''dist_withdraw'' \<longrightarrow> tabs n = before n)"

definition withdrawalsHeld ::
  "withdrawal_moves \<Rightarrow> 'db tx_handle \<Rightarrow> ('db \<Rightarrow> tables) \<Rightarrow> tables \<Rightarrow> 'db \<Rightarrow> data \<Rightarrow> bool" where
  "withdrawalsHeld moves h tabs before db d \<longleftrightarrow>
     (\<forall>k. answers h tabs [withdrawalSelectS k]) \<and>
     (\<forall>(from, to, tr)\<in>moves. \<forall>k n. answers h tabs [withdrawalUpdateS k from to n tr]) \<and>
     withdrawalTable before (tabs db) d"

definition storableWithdrawal ::
  "withdrawal_moves \<Rightarrow> data \<Rightarrow> int \<Rightarrow> withdrawal_state \<Rightarrow> withdrawal_state \<Rightarrow> withdrawal_transition \<Rightarrow> bool" where
  "storableWithdrawal moves d k from to tr \<longleftrightarrow> (from, to, tr) \<in> moves \<and> storable (wtAuditedAt tr) \<and> storable (wtPaidAt tr) \<and>
     (\<forall>w. dWithdrawals d k = Some w \<longrightarrow> fitsValues ''dist_withdraw'' (withdrawalValues (withdrawalMoved to tr w)))"

lemma withdrawal_move:
  assumes held: "withdrawalsHeld moves h tabs before db (txD t)" and ok: "storableWithdrawal moves (txD t) k from to tr"
  shows "\<exists>r db'. sqlTransitionWithdrawal h k from to n tr db = (r, db') \<and>
    rel_sum alike (=) r (fst (TransitionWithdrawal k from to n tr t)) \<and>
    withdrawalsHeld moves h tabs before db' (txD (snd (TransitionWithdrawal k from to n tr t)))"
proof -
  have a: "holdsMap withdrawalIn (dWithdrawals (txD t)) (tabs db ''dist_withdraw'')"
    "answers h tabs [withdrawalUpdateS k from to n tr, withdrawalSelectS k]"
    using held ok by (auto simp: withdrawalsHeld_def withdrawalTable_def storableWithdrawal_def answers_def)
  have b: "storable (wtAuditedAt tr)" "storable (wtPaidAt tr)"
    "\<forall>w. dWithdrawals (txD t) k = Some w \<longrightarrow> fitsValues ''dist_withdraw'' (withdrawalValues (withdrawalMoved to tr w))"
    using ok by (auto simp: storableWithdrawal_def)
  from withdrawal_transition [where m = "dWithdrawals (txD t)" and tabs = tabs and db = db and h = h and k = k and n = n
      and tr = tr, OF a b]
  show ?thesis
  proof (elim exE conjE, goal_cases)
    case (1 db')
    show ?case
      by (intro exI conjI, rule 1(1))
        (use 1(2,3) held in \<open>auto simp: TransitionWithdrawal_run conflict_def alike_def blindConflict_def withdrawalsHeld_def
            withdrawalTable_def split: option.splits\<close>)
  qed
qed

interpretation sql_withdrawals: withdrawal_port "sqlTx h now" "withdrawalsHeld moves h tabs before" "storableWithdrawal moves"
  for h now moves tabs before
proof
  show "ptWithdrawalByID (sqlTx h now) k s = (case dWithdrawals d k of None \<Rightarrow> Inl (Ledger ErrNotFound) | Some w \<Rightarrow> Inr w, s)"
    if "withdrawalsHeld moves h tabs before s d" for s d k
    using that by (auto simp: withdrawalsHeld_def withdrawalTable_def answers_def intro!: withdrawal_lookup)
  show "wID w = k" if "withdrawalsHeld moves h tabs before s d" "dWithdrawals d k = Some w" for s d k w
  proof -
    have "holdsMap withdrawalIn (dWithdrawals d) (tabs s ''dist_withdraw'')"
      using that(1) by (auto simp: withdrawalsHeld_def withdrawalTable_def)
    from holdsMap_entry [where m = "dWithdrawals d" and v = w, OF this that(2)] show ?thesis by (auto simp: withdrawalIn_def)
  qed
  show "agrees (started (withdrawalsHeld moves h tabs before) d) (=) (related (withdrawalsHeld moves h tabs before))
      (ptTransitionWithdrawal (sqlTx h now) k from to n tr) (TransitionWithdrawal k from to n tr)"
    if "storableWithdrawal moves d k from to tr" for d k "from" "to" n tr
    by (rule agreesI) (use withdrawal_move that in \<open>fastforce\<close>)
qed

subsection \<open>Transactions side by side\<close>

text \<open>
  A driver without concurrent transactions: \<open>BEGIN\<close> starts from the committed tables, \<open>COMMIT\<close> publishes
  the working ones, and nothing else changes what is committed. An error of the ledger is not one that the
  classifier takes for a transient one.
\<close>

definition serialDriver :: "'db driver \<Rightarrow> ('db \<Rightarrow> tables) \<Rightarrow> ('db \<Rightarrow> tables) \<Rightarrow> bool" where
  "serialDriver v tabs committed \<longleftrightarrow> transactional v committed \<and>
     (\<forall>ro db. fst (drBegin v ro db) = Inr () \<and> tabs (snd (drBegin v ro db)) = committed db \<and>
       fst (drCommit v db) = Inr () \<and> committed (snd (drCommit v db)) = tabs db)"

definition sqlReady :: "'db tx_handle \<Rightarrow> ('db \<Rightarrow> tables) \<Rightarrow> ('db \<Rightarrow> tables) \<Rightarrow> bool" where
  "sqlReady h tabs committed \<longleftrightarrow> serialDriver (txDriver h) tabs committed \<and>
     (\<forall>e. \<not> clIsRetryable (ssClassifier (txStore h)) (Ledger e)) \<and> 0 \<le> ssMaxRetries (txStore h)"

abbreviation sqlUpdateOf :: "(int \<Rightarrow> dberr option) \<Rightarrow> 'db tx_handle \<Rightarrow> (dberr, 'db, 'a) estep \<Rightarrow> (dberr, 'db, 'a) estep" where
  "sqlUpdateOf ended h \<equiv> sqlUpdate ended (txStore h) (txDriver h)"

text \<open>A body that agrees with one of the in-memory store is committed with the same result, or fails alike and changes nothing.\<close>

lemma updates_agree:
  assumes ready: "sqlReady h tabs committed" and fn: "\<And>c. uncommitted committed c fn"
    and body: "agrees (started I (stData s)) V (related I) fn body" and undo: "\<And>d0. keeps (undoOk d0) body"
    and start: "\<forall>db'. tabs db' = committed db \<longrightarrow> I db' (stData s)" and live: "\<not> stClosed s"
  shows "\<exists>r db'. sqlUpdateOf ended h fn db = (r, db') \<and> rel_sum alike V r (fst (Update body s)) \<and>
    (case fst (Update body s) of
       Inl _ \<Rightarrow> committed db' = committed db \<and> snd (Update body s) = s
     | Inr _ \<Rightarrow> \<exists>written. I written (stData (snd (Update body s))) \<and> committed db' = tabs written)"
proof -
  let ?v = "txDriver h" and ?t = "\<lparr>txD = stData s, txU = newUndo (stData s)\<rparr>"
  have serial: "fst (drBegin ?v False db) = Inr ()" "tabs (snd (drBegin ?v False db)) = committed db" "transactional ?v committed"
    "fst (drCommit ?v db') = Inr ()" "committed (snd (drCommit ?v db')) = tabs db'" for db'
    using ready by (auto simp: sqlReady_def serialDriver_def)
  have quiet: "\<not> clIsRetryable (ssClassifier (txStore h)) (Ledger e)" "0 \<le> ssMaxRetries (txStore h)" for e
    using ready by (auto simp: sqlReady_def)
  let ?b = "snd (drBegin ?v False db)"
  have P: "started I (stData s) ?b ?t" using start serial(2) by simp
  note result = agreesD(1) [OF body P]
  have once: "runTx ?v False fn db = (case fst (fn ?b) of Inl e \<Rightarrow> (Inl e, snd (drRollback ?v (snd (fn ?b))))
      | Inr x \<Rightarrow> (Inr x, snd (drCommit ?v (snd (fn ?b)))))"
    using serial(1,4) by (simp add: runTx_def step_simps rollbackWith_def split: sum.split)
  show ?thesis
  proof (cases "fst (body ?t)")
    case (Inl e)
    then obtain e' where e': "fst (fn ?b) = Inl (Ledger e')" "alike (Ledger e') e"
      using result by (cases "fst (fn ?b)") (auto simp: alike_def)
    have run: "sqlUpdateOf ended h fn db = (Inl (Ledger e'), snd (runTx ?v False fn db))"
      using quiet once e'(1) unfolding sqlUpdate_def by (subst updateFrom.simps) (simp add: step_simps)
    have "committed (snd (runTx ?v False fn db)) = committed db"
      using runTx_atomic [where ro = False and db = db, OF serial(3) fn] once e'(1) by simp
    moreover have "fst (Update body s) = Inl e" using Inl live by (simp add: Update_def split_beta)
    moreover from this have "snd (Update body s) = s"
      using Update_Inl [OF undo, of s e "snd (Update body s)"] by (simp add: prod_eq_iff)
    ultimately show ?thesis using run e'(2) by auto
  next
    case (Inr y)
    then obtain x where x: "fst (fn ?b) = Inr x" "V x y" using result by (cases "fst (fn ?b)") auto
    have run: "sqlUpdateOf ended h fn db = (Inr x, snd (drCommit ?v (snd (fn ?b))))"
      using quiet(2) once x(1) unfolding sqlUpdate_def by (subst updateFrom.simps) (simp add: step_simps)
    have "fst (Update body s) = Inr y" "stData (snd (Update body s)) = txD (snd (body ?t))"
      using Inr live by (simp_all add: Update_def split_beta)
    then show ?thesis using run x(2) agreesD(2) [OF body P Inr] serial(5) [of "snd (fn ?b)"] by auto
  qed
qed

text \<open>The bodies of the engine commit nothing by themselves.\<close>

lemma depth_uncommitted:
  "transactional (txDriver h) committed \<Longrightarrow> uncommitted committed c (depthOn (sqlTx h now) key depth cur seen)"
proof (induction "sqlTx h now" key depth cur seen rule: depthOn.induct)
  case (1 key depth cur seen)
  then show ?case by (subst depthOn.simps) (auto intro!: hoare_rules reads_keep)
qed

lemma bodies_uncommitted:
  assumes "transactional (txDriver h) committed"
  shows "uncommitted committed c (bindAgentOn (sqlTx h now) l req)" "uncommitted committed c (bindBuyerOn (sqlTx h now) l breq at)"
    "uncommitted committed c (freezeOn (sqlTx h now) tn i)" "uncommitted committed c (unfreezeOn (sqlTx h now) tn i)"
    "uncommitted committed c (approveOn (sqlTx h now) l dreq)" "uncommitted committed c (payoutFailureOn (sqlTx h now) i reason opr)"
  using assms
  by (auto simp: bindAgentOn_def bindBuyerOn_def freezeOn_def unfreezeOn_def scopedCommissionOn_def approveOn_def
      scopedWithdrawalOn_def payoutFailureOn_def Let_def intro!: hoare_rules reads_keep writes_keep depth_uncommitted)

lemma bodies_logged:
  "keeps (undoOk d0) (bindAgentOn memoryTx l req)" "keeps (undoOk d0) (bindBuyerOn memoryTx l breq at)"
  "keeps (undoOk d0) (freezeOn memoryTx tn i)" "keeps (undoOk d0) (unfreezeOn memoryTx tn i)"
  "keeps (undoOk d0) (approveOn memoryTx l dreq)" "keeps (undoOk d0) (payoutFailureOn memoryTx (wID (cur :: withdrawal)) reason opr)"
  by (simp_all only: bindAgentOn_memory bindBuyerOn_memory decisions_memory undo_inv.keeps_bindAgent undo_inv.keeps_bindBuyer
      undo_inv.keeps_freeze undo_inv.keeps_unfreeze undo_inv.keeps_approve undo_inv.keeps_payoutFailure)

subsection \<open>The operations in both stores\<close>

text \<open>
  \<open>f\<close> over the SQL store and \<open>g\<close> over the in-memory one: from tables and data in the relation \<open>R\<close> they
  return results that agree, and what is committed and the data are in \<open>R\<close> again.
\<close>

definition carried ::
  "('db \<Rightarrow> tables) \<Rightarrow> (tables \<Rightarrow> data \<Rightarrow> bool) \<Rightarrow> ('x \<Rightarrow> 'y \<Rightarrow> bool) \<Rightarrow>
   (dberr, 'db, 'x) estep \<Rightarrow> (gerror, mem_store, 'y) estep \<Rightarrow> 'db \<Rightarrow> mem_store \<Rightarrow> bool" where
  "carried committed R V f g db s \<longleftrightarrow>
     (\<exists>r db'. f db = (r, db') \<and> rel_sum alike V r (fst (g s)) \<and> R (committed db') (stData (snd (g s))))"

named_theorems carried_rules "rules for operations in both stores"

lemma carried_throw [carried_rules]:
  "R (committed db) (stData s) \<Longrightarrow> alike e' e \<Longrightarrow> carried committed R V (throw e') (throw e) db s"
  by (simp add: carried_def step_simps)

lemma carried_if [carried_rules]:
  "(b \<Longrightarrow> carried committed R V f g db s) \<Longrightarrow> (\<not> b \<Longrightarrow> carried committed R V f' g' db s) \<Longrightarrow>
   carried committed R V (if b then f else f') (if b then g else g') db s"
  by simp

lemma carried_update:
  assumes ready: "sqlReady h tabs committed" and fn: "\<And>c. uncommitted committed c fn"
    and body: "agrees (started I (stData s)) V (related I) fn body" and undo: "\<And>d0. keeps (undoOk d0) body"
    and I: "\<And>db d. I db d \<longleftrightarrow> C \<and> R (tabs db) d" and C: C and start: "R (committed db) (stData s)" and live: "\<not> stClosed s"
  shows "carried committed R V (sqlUpdateOf ended h fn) (Update body) db s"
proof -
  have "\<forall>db'. tabs db' = committed db \<longrightarrow> I db' (stData s)" using I C start by simp
  from updates_agree [where ended = ended and tabs = tabs and committed = committed and db = db, OF ready fn body undo this live] show ?thesis
    unfolding carried_def
  proof (elim exE conjE, goal_cases)
    case (1 r db')
    show ?case
      by (intro exI conjI, rule 1(1), rule 1(2)) (use 1(3) start I in \<open>cases "fst (Update body s)"; auto\<close>)
  qed
qed

text \<open>The guards before the transaction are the same over either store.\<close>

lemma carried_case_option [carried_rules]:
  "(\<And>e. v = Some e \<Longrightarrow> carried committed R V (F e) (G e) db s) \<Longrightarrow> (v = None \<Longrightarrow> carried committed R V f g db s) \<Longrightarrow>
   carried committed R V (case v of None \<Rightarrow> f | Some e \<Rightarrow> F e) (case v of None \<Rightarrow> g | Some e \<Rightarrow> G e) db s"
  by (cases v) simp_all

end
