(* ===== verification/PayoutPort.thy ===== *)
theory PayoutPort
  imports Ports
begin

text \<open>
  payout.go over any port: rejections and payouts, which move money between the buckets of an account
  and append a journal entry. Over the in-memory port they are the operations of Payout.
\<close>

subsection \<open>The operations\<close>

definition releasedDelta :: "withdrawal \<Rightarrow> gotime \<Rightarrow> account_delta" where
  "releasedDelta w at = zeroDelta\<lparr>dKey := wKey w, dWithdrawing := - withdrawalOutstanding w,
     dAvailable := withdrawalOutstanding w, dRequireNonNegative := True, dAt := at\<rparr>"

definition releasedEntry :: "withdrawal \<Rightarrow> ledger_biz_type \<Rightarrow> string \<Rightarrow> gotime \<Rightarrow> account \<Rightarrow> ledger_entry" where
  "releasedEntry w bizType reason at acct =
     (let amount = withdrawalOutstanding w in
      bucketAddDelta BucketAvailable amount
        (newLedgerEntry (wKey w) bizType (formatInt (wID w))
          (''withdraw released '' @ formatInt (wID w) @ '' amount '' @ moneyString amount @ '' reason '' @ reason)
          at acct BucketWithdrawing (- amount)))"

definition releaseOn :: "('e, 's) tx_port \<Rightarrow> withdrawal \<Rightarrow> ledger_biz_type \<Rightarrow> string \<Rightarrow> gotime \<Rightarrow> ('e, 's, unit) estep" where
  "releaseOn p w bizType reason at =
     (if withdrawalOutstanding w <=s 0 then ret ()
      else andThen (ptIncrementAccount p (releasedDelta w at)) (\<lambda>acct.
           andThen (ptAppendLedger p (releasedEntry w bizType reason at acct)) (\<lambda>_. ret ())))"

definition rejectionOf :: "ledger \<Rightarrow> withdraw_decision \<Rightarrow> withdrawal_transition" where
  "rejectionOf l req = noTransition\<lparr>wtOperator := wdOperator req, wtFailReason := wdReason req, wtAuditedAt := lNow l\<rparr>"

definition rejectOn :: "('e, 's) tx_port \<Rightarrow> ledger \<Rightarrow> withdraw_decision \<Rightarrow> ('e, 's, withdrawal) estep" where
  "rejectOn p l req =
     andThen (scopedWithdrawalOn p (wdTenantID req) (wdWithdrawalID req)) (\<lambda>cur.
       if \<not> withdrawalReserved (wState cur)
       then throw (ptErr p (TransitionError ''withdrawal reject'' (withdrawalStateString (wState cur))
              (withdrawalStateString WithdrawalRejected)))
       else andThen (releaseOn p cur LedgerWithdrawRefund (wdReason req) (lNow l)) (\<lambda>_.
         ptTransitionWithdrawal p (wID cur) (wState cur) WithdrawalRejected (wVersion cur) (rejectionOf l req)))"

definition RejectWithdrawOn ::
  "('e, 't) tx_port \<Rightarrow> (('e, 't, withdrawal) estep \<Rightarrow> ('e, 's, withdrawal) estep) \<Rightarrow> ledger \<Rightarrow> withdraw_decision \<Rightarrow>
   ('e, 's, withdrawal) estep" where
  "RejectWithdrawOn p update l req =
     (case validateReason (wdReason req) of Some e \<Rightarrow> throw (ptErr p e) | None \<Rightarrow>
      if trimSpace (wdReason req) = [] then throw (ptErr p (FieldError ''reason''))
      else update (rejectOn p l req))"

text \<open>\<open>view\<close> is the store's \<open>View\<close>.\<close>

definition loadWithdrawalOn ::
  "('e, 't) tx_port \<Rightarrow> (('e, 't, withdrawal) estep \<Rightarrow> ('e, 's, withdrawal) estep) \<Rightarrow> int \<Rightarrow> int \<Rightarrow> ('e, 's, withdrawal) estep" where
  "loadWithdrawalOn p view tenantID wid =
     (if tenantID < 0 then throw (ptErr p (FieldError ''tenant_id''))
      else if wid \<le> 0 then throw (ptErr p (FieldError ''withdrawal_id''))
      else view (andThen (ptWithdrawalByID p wid) (\<lambda>w.
        if ukTenantID (wKey w) \<noteq> tenantID then throw (ptErr p ErrNotFound) else ret w)))"

definition payoutDelta :: "ledger \<Rightarrow> withdrawal \<Rightarrow> account_delta" where
  "payoutDelta l w = zeroDelta\<lparr>dKey := wKey w, dWithdrawing := - withdrawalOutstanding w,
     dWithdrawn := withdrawalOutstanding w, dRequireNonNegative := True, dAt := lNow l\<rparr>"

definition payoutEntry :: "ledger \<Rightarrow> withdrawal \<Rightarrow> account \<Rightarrow> ledger_entry" where
  "payoutEntry l w acct =
     (let amount = withdrawalOutstanding w in
      bucketAddDelta BucketWithdrawn amount
        (newLedgerEntry (wKey w) LedgerWithdrawPaid (formatInt (wID w))
          (''withdraw paid '' @ formatInt (wID w) @ '' amount '' @ moneyString amount @
           '' real '' @ moneyString (wRealAmount w) @ '' fee '' @ moneyString (wFee w))
          (lNow l) acct BucketWithdrawing (- amount)))"

definition payoutOf :: "ledger \<Rightarrow> string \<Rightarrow> string \<Rightarrow> withdrawal_transition" where
  "payoutOf l invoice opr = noTransition\<lparr>wtInvoiceNo := invoice, wtOperator := opr, wtPaidAt := lNow l\<rparr>"

definition paidOn :: "('e, 's) tx_port \<Rightarrow> ledger \<Rightarrow> int \<Rightarrow> string \<Rightarrow> string \<Rightarrow> ('e, 's, withdrawal) estep" where
  "paidOn p l wid invoice opr =
     andThen (ptWithdrawalByID p wid) (\<lambda>live.
       if wState live = WithdrawalPaid then ret live
       else if withdrawalOutstanding live <=s 0 then ret live
       else
         andThen (ptIncrementAccount p (payoutDelta l live)) (\<lambda>acct.
         andThen (ptAppendLedger p (payoutEntry l live acct)) (\<lambda>_.
         if wPaidAt live \<noteq> 0 then throw (ptErr p (ErrOther ''withdrawal already records a payout''))
         else ptTransitionWithdrawal p (wID live) (wState live) WithdrawalPaid (wVersion live) (payoutOf l invoice opr))))"

definition settlePayoutOn ::
  "('e, 't) tx_port \<Rightarrow> (('e, 't, withdrawal) estep \<Rightarrow> ('e, 's, withdrawal) estep) \<Rightarrow> ledger \<Rightarrow> withdrawal \<Rightarrow> string \<Rightarrow> string \<Rightarrow>
   ('e, 's, withdrawal) estep" where
  "settlePayoutOn p update l cur invoice opr =
     (if length invoice > maxInvoiceLen then throw (ptErr p (FieldError ''invoice_no''))
      else update (paidOn p l (wID cur) invoice opr))"

definition payAnsweredOn ::
  "('e, 't) tx_port \<Rightarrow> (('e, 't, withdrawal) estep \<Rightarrow> ('e, 's, withdrawal) estep) \<Rightarrow> ledger \<Rightarrow> payout_outcome \<Rightarrow> withdrawal \<Rightarrow>
   string + payout_result \<Rightarrow> ('e, 's, withdrawal) estep" where
  "payAnsweredOn p update l req cur answer =
     (case answer of
        Inl err \<Rightarrow> recordPayoutFailureOn p update cur (''channel error: '' @ err) (poOperator req)
      | Inr result \<Rightarrow>
          if \<not> psPaid result
          then recordPayoutFailureOn p update cur
                 (if psFailReason result = [] then ''channel reported failure without a reason'' else psFailReason result)
                 (poOperator req)
          else settlePayoutOn p update l cur (psInvoiceNo result) (poOperator req))"

definition PayWithdrawOn ::
  "('e, 't) tx_port \<Rightarrow> (('e, 't, withdrawal) estep \<Rightarrow> ('e, 's, withdrawal) estep) \<Rightarrow>
   (('e, 't, withdrawal) estep \<Rightarrow> ('e, 's, withdrawal) estep) \<Rightarrow> ledger \<Rightarrow> payout_outcome \<Rightarrow> ('e, 's, withdrawal) estep" where
  "PayWithdrawOn p view update l req =
     (case lPayout l of None \<Rightarrow> throw (ptErr p ErrNoPayoutChannel) | Some channel \<Rightarrow>
      andThen (loadWithdrawalOn p view (poTenantID req) (poWithdrawalID req)) (\<lambda>cur.
        if wState cur \<noteq> WithdrawalApproved \<and> wState cur \<noteq> WithdrawalPayFailed
        then throw (ptErr p (TransitionError ''withdrawal pay'' (withdrawalStateString (wState cur)) (withdrawalStateString WithdrawalPaid)))
        else payAnsweredOn p update l req cur (channel (payoutRequestFor cur))))"

definition MarkWithdrawPaidOn ::
  "('e, 't) tx_port \<Rightarrow> (('e, 't, withdrawal) estep \<Rightarrow> ('e, 's, withdrawal) estep) \<Rightarrow>
   (('e, 't, withdrawal) estep \<Rightarrow> ('e, 's, withdrawal) estep) \<Rightarrow> ledger \<Rightarrow> payout_outcome \<Rightarrow> ('e, 's, withdrawal) estep" where
  "MarkWithdrawPaidOn p view update l req =
     (if length (poInvoiceNo req) > maxInvoiceLen then throw (ptErr p (FieldError ''invoice_no''))
      else andThen (loadWithdrawalOn p view (poTenantID req) (poWithdrawalID req)) (\<lambda>cur.
        if wState cur = WithdrawalPaid then ret cur
        else if wState cur \<noteq> WithdrawalApproved \<and> wState cur \<noteq> WithdrawalPayFailed
        then throw (ptErr p (TransitionError ''withdrawal mark paid'' (withdrawalStateString (wState cur)) (withdrawalStateString WithdrawalPaid)))
        else settlePayoutOn p update l cur (poInvoiceNo req) (poOperator req)))"

subsection \<open>Over the in-memory port\<close>

definition memoryView :: "(gerror, txn, 'a) estep \<Rightarrow> (mem_store, 'a) step" where
  "memoryView m = View (\<lambda>d. fst (m \<lparr>txD = d, txU = newUndo d\<rparr>))"

lemma memoryTx_money [simp]:
  "ptIncrementAccount memoryTx = IncrementAccount" "ptAppendLedger memoryTx = AppendLedger"
  by (simp_all add: memoryTx_def)

lemma payout_bodies_memory:
  "releaseOn memoryTx w bizType reason at = releaseReservation w bizType reason at"
  "rejectOn memoryTx l req = rejectBody l req"
  "paidOn memoryTx l (wID cur) invoice opr = settlePayoutBody l cur invoice opr"
proof -
  show release: "releaseOn memoryTx w bizType reason at = releaseReservation w bizType reason at" for w bizType reason at
    by (simp add: releaseOn_def releaseReservation_def releasedDelta_def releasedEntry_def Let_def)
  show "rejectOn memoryTx l req = rejectBody l req"
    by (simp add: rejectOn_def rejectBody_def rejectionOf_def scoped_memory release cong: if_cong)
  show "paidOn memoryTx l (wID cur) invoice opr = settlePayoutBody l cur invoice opr"
    by (simp add: paidOn_def settlePayoutBody_def payoutDelta_def payoutEntry_def payoutOf_def Let_def cong: if_cong)
qed

lemma load_memory: "loadWithdrawalOn memoryTx memoryView tn wid = loadWithdrawal tn wid"
  by (intro ext) (simp add: loadWithdrawalOn_def loadWithdrawal_def memoryView_def View_def rdWithdrawalByID_def step_simps
      split: option.split)

text \<open>The operations of payout.go are those over the port of the in-memory store.\<close>

theorem payouts_on_memory:
  "RejectWithdrawOn memoryTx Update l req = RejectWithdraw l req"
  "PayWithdrawOn memoryTx memoryView Update l outcome = PayWithdraw l outcome"
  "MarkWithdrawPaidOn memoryTx memoryView Update l outcome = MarkWithdrawPaid l outcome"
  by (simp_all add: RejectWithdrawOn_def RejectWithdraw_def PayWithdrawOn_def PayWithdraw_def MarkWithdrawPaidOn_def
      MarkWithdrawPaid_def payAnsweredOn_def payAnswered_def settlePayoutOn_def settlePayout_def payout_bodies_memory
      load_memory engine_on_memory(6) cong: if_cong option.case_cong sum.case_cong)

end
