(* ===== verification/MoneySimulation.thy ===== *)
theory MoneySimulation
  imports PortSimulation PayoutPort SqlAccounts
begin

text \<open>
  Steps that move money, over two ports that keep the laws of accounts and journals: an increment of an
  account and a journal entry agree, and what they leave alone (withdrawals and commissions) is as it was.
\<close>

subsection \<open>What the writes of money leave alone\<close>

lemma increment_frame:
  "dWithdrawals (txD (snd (IncrementAccount delta t))) = dWithdrawals (txD t)"
  "dCommissions (txD (snd (IncrementAccount delta t))) = dCommissions (txD t)"
  "dLedger (txD (snd (IncrementAccount delta t))) = dLedger (txD t)"
  "dLedgerIDs (txD (snd (IncrementAccount delta t))) = dLedgerIDs (txD t)"
  "dNextID (txD (snd (IncrementAccount delta t))) = dNextID (txD t)"
  by (auto simp: IncrementAccount_def storeAccount_def insertAccountID_def change_def Let_def split: option.split sum.split)

lemma append_frame:
  "dWithdrawals (txD (snd (AppendLedger e t))) = dWithdrawals (txD t)"
  "dCommissions (txD (snd (AppendLedger e t))) = dCommissions (txD t)"
  "dAccounts (txD (snd (AppendLedger e t))) = dAccounts (txD t)"
  by (auto simp: AppendLedger_def change_def Let_def split: option.split)

abbreviation framed :: "('s \<Rightarrow> data \<Rightarrow> bool) \<Rightarrow> data \<Rightarrow> 's \<Rightarrow> txn \<Rightarrow> bool" where
  "framed I d \<equiv> \<lambda>s t. I s (txD t) \<and> dWithdrawals (txD t) = dWithdrawals d \<and> dCommissions (txD t) = dCommissions d"

lemma agrees_framed:
  "(\<And>d'. dWithdrawals d' = dWithdrawals d \<Longrightarrow> dCommissions d' = dCommissions d \<Longrightarrow> agrees (started I d') V Q f g) \<Longrightarrow>
   agrees (framed I d) V Q f g"
  by (auto simp: agrees_def)

subsection \<open>The laws\<close>

locale money_port = error_port +
  fixes I :: "'a \<Rightarrow> data \<Rightarrow> bool" and okDelta :: "data \<Rightarrow> account_delta \<Rightarrow> bool" and okEntry :: "ledger_entry \<Rightarrow> bool"
  assumes increment: "okDelta d delta \<Longrightarrow>
      agrees (started I d) sameAccount (related I) (ptIncrementAccount p delta) (IncrementAccount delta)"
    and append: "okEntry e \<Longrightarrow> agrees (related I) (\<lambda>_ _. True) (related I) (ptAppendLedger p e) (AppendLedger e)"
begin

lemma increment_framed:
  assumes "okDelta d delta"
  shows "agrees (started I d) sameAccount (framed I d) (ptIncrementAccount p delta) (IncrementAccount delta)"
  using increment [OF assms] by (auto simp: agrees_def increment_frame)

lemma append_framed:
  assumes "okEntry e"
  shows "agrees (framed I d) (\<lambda>_ _. True) (framed I d) (ptAppendLedger p e) (AppendLedger e)"
  using append [OF assms] by (auto simp: agrees_def append_frame)

text \<open>An increment whose entry carries the account it returns.\<close>

lemma post:
  assumes "okDelta d delta" "\<And>a b. sameAccount a b \<Longrightarrow> entry a = entry b" "\<And>a. okEntry (entry a)"
    and rest: "agrees (framed I d) V Q f g"
  shows "agrees (started I d) V Q
    (andThen (ptIncrementAccount p delta) (\<lambda>acct. andThen (ptAppendLedger p (entry acct)) (\<lambda>_. f)))
    (andThen (IncrementAccount delta) (\<lambda>acct. andThen (AppendLedger (entry acct)) (\<lambda>_. g)))"
proof (rule agrees_andThen [OF increment_framed [OF assms(1)]])
  fix a b assume "sameAccount a b"
  then have "entry a = entry b" by (rule assms(2))
  then show "agrees (framed I d) V Q (andThen (ptAppendLedger p (entry a)) (\<lambda>_. f)) (andThen (AppendLedger (entry b)) (\<lambda>_. g))"
    using agrees_andThen [OF append_framed [OF assms(3)] rest] by simp
qed

end

lemma sameAccount_buckets: "sameAccount a b \<Longrightarrow> bucketValue k a = bucketValue k b"
  by (cases a; cases b; cases k) (simp_all add: sameAccount_def)

lemma newLedgerEntry_same: "sameAccount a b \<Longrightarrow> newLedgerEntry key biz i r at a m v = newLedgerEntry key biz i r at b m v"
  by (simp add: newLedgerEntry_def sameAccount_buckets [of a b])

lemma payout_entries_same:
  "sameAccount a b \<Longrightarrow> releasedEntry w biz reason at a = releasedEntry w biz reason at b"
  "sameAccount a b \<Longrightarrow> payoutEntry l w a = payoutEntry l w b"
  by (simp_all add: releasedEntry_def payoutEntry_def newLedgerEntry_same [of a b])

subsection \<open>Rejections and payouts\<close>

locale payout_port = withdrawal_port p I okMove + money_port p I okDelta okEntry
  for p :: "(dberr, 'a) tx_port" and I :: "'a \<Rightarrow> data \<Rightarrow> bool"
    and okMove :: "data \<Rightarrow> int \<Rightarrow> withdrawal_state \<Rightarrow> withdrawal_state \<Rightarrow> withdrawal_transition \<Rightarrow> bool"
    and okDelta :: "data \<Rightarrow> account_delta \<Rightarrow> bool" and okEntry :: "ledger_entry \<Rightarrow> bool" +
  assumes moves_stable: "dWithdrawals d = dWithdrawals d' \<Longrightarrow> okMove d k from to tr \<Longrightarrow> okMove d' k from to tr"
begin

lemma framed_move:
  assumes "okMove d k from to tr"
  shows "agrees (framed I d) (=) (related I) (ptTransitionWithdrawal p k from to n tr) (TransitionWithdrawal k from to n tr)"
  by (rule agrees_framed) (auto intro!: move_withdrawal moves_stable [OF _ assms])

lemma reads_loaded:
  "reads (started I d) (\<lambda>x y. x = y \<and> wID y = k \<and> dWithdrawals d k = Some y)
     (andThen (ptWithdrawalByID p k) (\<lambda>w. if ukTenantID (wKey w) \<noteq> tn then throw (ptErr p ErrNotFound) else ret w))
     (andThen (rd (rdWithdrawalByID k)) (\<lambda>w. if ukTenantID (wKey w) \<noteq> tn then throw ErrNotFound else ret w))"
  by (auto simp: reads_def read_withdrawal step_simps rdWithdrawalByID_def dest: withdrawal_id split: option.split)

lemma reject:
  assumes "\<And>w. dWithdrawals d (wdWithdrawalID req) = Some w \<Longrightarrow> withdrawalReserved (wState w) \<Longrightarrow>
      okMove d (wdWithdrawalID req) (wState w) WithdrawalRejected (rejectionOf l req) \<and>
      (0 < sint (withdrawalOutstanding w) \<longrightarrow>
        okDelta d (releasedDelta w (lNow l)) \<and> (\<forall>a. okEntry (releasedEntry w LedgerWithdrawRefund (wdReason req) (lNow l) a)))"
  shows "agrees (started I d) (=) (related I) (rejectOn p l req) (rejectOn memoryTx l req)"
  unfolding rejectOn_def memoryTx_simps
proof (rule agrees_read [OF reads_scoped_withdrawal], elim conjE)
  fix x y assume xy: "x = y" and w: "wID y = wdWithdrawalID req" "dWithdrawals d (wdWithdrawalID req) = Some y"
  let ?ok = "withdrawalReserved (wState y)"
  note ok = assms [OF w(2)]
  let ?move = "\<lambda>t. ptTransitionWithdrawal t (wID y) (wState y) WithdrawalRejected (wVersion y) (rejectionOf l req)"
  have move: "agrees (framed I d) (=) (related I) (?move p) (?move memoryTx)" if ?ok
    using framed_move ok [OF that] by (simp add: w(1))
  have release: "agrees (started I d) (=) (related I)
      (andThen (releaseOn p y LedgerWithdrawRefund (wdReason req) (lNow l)) (\<lambda>_. ?move p))
      (andThen (releaseOn memoryTx y LedgerWithdrawRefund (wdReason req) (lNow l)) (\<lambda>_. ?move memoryTx))" if ?ok
  proof (rule agrees_andThen [where R = "framed I d" and V = "\<lambda>_ _. True"])
    show "agrees (started I d) (\<lambda>_ _. True) (framed I d) (releaseOn p y LedgerWithdrawRefund (wdReason req) (lNow l))
        (releaseOn memoryTx y LedgerWithdrawRefund (wdReason req) (lNow l))"
      unfolding releaseOn_def memoryTx_money
      by (rule agrees_if, rule agrees_post [OF agrees_ret], simp, simp, rule post)
        (use ok [OF that] payout_entries_same in \<open>auto simp: word_sle_eq intro: agrees_ret\<close>)
  qed (rule move [OF that])
  show "agrees (started I d) (=) (related I)
      (if \<not> withdrawalReserved (wState x) then throw (ptErr p (TransitionError ''withdrawal reject''
          (withdrawalStateString (wState x)) (withdrawalStateString WithdrawalRejected)))
        else andThen (releaseOn p x LedgerWithdrawRefund (wdReason req) (lNow l)) (\<lambda>_. ptTransitionWithdrawal p (wID x) (wState x)
            WithdrawalRejected (wVersion x) (rejectionOf l req)))
      (if \<not> withdrawalReserved (wState y) then throw (TransitionError ''withdrawal reject''
          (withdrawalStateString (wState y)) (withdrawalStateString WithdrawalRejected))
        else andThen (releaseOn memoryTx y LedgerWithdrawRefund (wdReason req) (lNow l)) (\<lambda>_. TransitionWithdrawal (wID y) (wState y)
            WithdrawalRejected (wVersion y) (rejectionOf l req)))"
    unfolding xy using release by (auto intro!: agrees_if agrees_throw)
qed

lemma paid:
  assumes "\<And>w. dWithdrawals d k = Some w \<Longrightarrow> 0 < sint (withdrawalOutstanding w) \<Longrightarrow>
      okMove d k (wState w) WithdrawalPaid (payoutOf l invoice opr) \<and>
      okDelta d (payoutDelta l w) \<and> (\<forall>a. okEntry (payoutEntry l w a))"
  shows "agrees (started I d) (=) (related I) (paidOn p l k invoice opr) (paidOn memoryTx l k invoice opr)"
  unfolding paidOn_def memoryTx_simps memoryTx_money
proof (rule agrees_read [OF reads_withdrawal], elim conjE)
  fix x y assume xy: "x = y" and w: "wID y = k" "dWithdrawals d k = Some y"
  have kept: "agrees (started I d) (=) (related I) (ret y) (ret y)" by (rule agrees_post [OF agrees_ret]) auto
  have positive: "0 < sint (withdrawalOutstanding y)" if "\<not> withdrawalOutstanding y <=s 0"
    using that by (simp add: word_sle_eq)
  let ?rest = "\<lambda>er mv. if wPaidAt y \<noteq> 0 then throw er else mv"
  have moved: "agrees (framed I d) (=) (related I)
      (?rest (Ledger (ErrOther ''withdrawal already records a payout''))
        (ptTransitionWithdrawal p (wID y) (wState y) WithdrawalPaid (wVersion y) (payoutOf l invoice opr)))
      (?rest (ErrOther ''withdrawal already records a payout'')
        (TransitionWithdrawal (wID y) (wState y) WithdrawalPaid (wVersion y) (payoutOf l invoice opr)))"
    if "\<not> withdrawalOutstanding y <=s 0"
    using framed_move assms [OF w(2) positive [OF that]] by (auto simp: w(1) intro!: agrees_if agrees_throw)
  show "agrees (started I d) (=) (related I)
      (if wState x = WithdrawalPaid then ret x else if withdrawalOutstanding x <=s 0 then ret x
        else andThen (ptIncrementAccount p (payoutDelta l x)) (\<lambda>acct. andThen (ptAppendLedger p (payoutEntry l x acct)) (\<lambda>_.
          if wPaidAt x \<noteq> 0 then throw (ptErr p (ErrOther ''withdrawal already records a payout''))
          else ptTransitionWithdrawal p (wID x) (wState x) WithdrawalPaid (wVersion x) (payoutOf l invoice opr))))
      (if wState y = WithdrawalPaid then ret y else if withdrawalOutstanding y <=s 0 then ret y
        else andThen (IncrementAccount (payoutDelta l y)) (\<lambda>acct. andThen (AppendLedger (payoutEntry l y acct)) (\<lambda>_.
          if wPaidAt y \<noteq> 0 then throw (ErrOther ''withdrawal already records a payout'')
          else TransitionWithdrawal (wID y) (wState y) WithdrawalPaid (wVersion y) (payoutOf l invoice opr))))"
    unfolding xy err
    by (intro agrees_if kept post) (use moved assms [OF w(2) positive] payout_entries_same in auto)
qed

end

end
