(* ===== verification/SqlMoney.thy ===== *)
theory SqlMoney
  imports SqlEngine MoneySimulation SqlFits
begin

text \<open>
  The laws of accounts and journals by the SQL transaction: the tables of withdrawals, accounts and journal
  entries against the in-memory store, while an operation moves money between the buckets of an account.
\<close>

subsection \<open>The journal\<close>

text \<open>The rows of the journal are the entries in the order they were made, up to their ids.\<close>

definition entryRow :: "ledger_entry \<Rightarrow> trow \<Rightarrow> bool" where
  "entryRow e r \<longleftrightarrow> (\<exists>rid. map r ledgerCols = ledgerValues (e\<lparr>leID := rid\<rparr>))"

definition holdsJournal :: "data \<Rightarrow> trow list \<Rightarrow> bool" where
  "holdsJournal d rows \<longleftrightarrow>
     list_all2 (\<lambda>i r. i \<le> dNextID d \<and> (\<exists>e. dLedger d i = Some e \<and> entryRow e r)) (dLedgerIDs d) rows"

lemma holdsJournal_cong:
  "dLedger d = dLedger d' \<Longrightarrow> dLedgerIDs d = dLedgerIDs d' \<Longrightarrow> dNextID d = dNextID d' \<Longrightarrow> holdsJournal d rows \<longleftrightarrow> holdsJournal d' rows"
  by (simp add: holdsJournal_def)

definition storableEntry :: "ledger_entry \<Rightarrow> bool" where
  "storableEntry e \<longleftrightarrow> list_all in64 (ledgerInts e) \<and> length (leBizID e) \<le> 64"

definition entryGuards :: "ledger_entry \<Rightarrow> gerror option" where
  "entryGuards e = (case userKeyValidate (leKey e) of Some er \<Rightarrow> Some er | None \<Rightarrow>
     if \<not> ledgerBizValid (leBizType e) then Some (FieldError ''biz_type'')
     else if length (leRemark e) > MaxRemarkLen then Some (FieldError ''remark'') else None)"

lemma AppendLedger_refused: "entryGuards e = Some er \<Longrightarrow> AppendLedger e t = (Inl er, t)"
  by (auto simp: entryGuards_def AppendLedger_def split: option.splits if_splits)

lemma AppendLedger_run:
  assumes "entryGuards e = None"
  shows "fst (AppendLedger e t) = Inr (e\<lparr>leID := dNextID (txD t) + 1\<rparr>)"
    "dLedger (txD (snd (AppendLedger e t))) = (dLedger (txD t))(dNextID (txD t) + 1 \<mapsto> e\<lparr>leID := dNextID (txD t) + 1\<rparr>)"
    "dLedgerIDs (txD (snd (AppendLedger e t))) = dLedgerIDs (txD t) @ [dNextID (txD t) + 1]"
    "dNextID (txD (snd (AppendLedger e t))) = dNextID (txD t) + 1"
  using assms by (auto simp: entryGuards_def AppendLedger_def change_def Let_def split: option.splits if_splits)

lemma sqlAppendLedger_refused: "entryGuards e = Some er \<Longrightarrow> sqlAppendLedger h e db = (Inl (Ledger er), db)"
  by (auto simp: entryGuards_def sqlAppendLedger_def step_simps split: option.splits if_splits)

lemma sqlAppendLedger_run:
  assumes ok: "entryGuards e = None" "storableEntry e"
    and ans: "answersInsertID h tabs ''dist_ledger'' (tl ledgerCols) (tl (ledgerValues e))"
  shows "\<exists>rid db'. sqlAppendLedger h e db = (Inr (e\<lparr>leID := rid\<rparr>), db') \<and>
    tabs db' = (tabs db)(''dist_ledger'' := tabs db ''dist_ledger'' @ [(rowFrom (tl ledgerCols) (tl (ledgerValues e)))(''id'' := SInt rid)])"
proof -
  let ?new = "rowFrom (tl ledgerCols) (tl (ledgerValues e))"
  obtain query argv where text_: "stmtSQL (hDialect h) (InsertS ''dist_ledger'' (tl ledgerCols) (tl (ledgerValues e))) = (query, argv)"
    by (cases "stmtSQL (hDialect h) (InsertS ''dist_ledger'' (tl ledgerCols) (tl (ledgerValues e)))")
  have fits: "fitsTable ''dist_ledger'' ?new"
    using ok by (auto simp: ledger_fits storableEntry_def entryGuards_def MaxRemarkLen_def split: option.splits if_splits)
  have "?new ''id'' = SNull" by (simp add: rowFrom_def ledgerCols_def ledgerValues_def)
  then have free: "\<not> list_ex (collides ''dist_ledger'' ?new) (tabs db ''dist_ledger'')"
    by (simp add: list_ex_iff collides_def unique_keys)
  obtain rid db' where run: "insertReturningID h query argv db = (Inr (Some rid), db')"
    "tabs db' = (tabs db)(''dist_ledger'' := tabs db ''dist_ledger'' @ [?new(''id'' := SInt rid)])"
    using insertReturningID_answered [OF ans fits text_, of db] free by auto
  have "buildSQL (hDialect h) (ledgerInsert (hDialect h) e) [] = (query, argv)"
    using text_ by (simp add: insert_texts stmtSQL_def)
  then have "sqlAppendLedger h e db = (Inr (e\<lparr>leID := rid\<rparr>), db')"
    using ok(1) run(1) by (auto simp: sqlAppendLedger_def entryGuards_def step_simps simp del: buildSQL.simps split: option.splits if_splits)
  then show ?thesis using run(2) by blast
qed

lemma holdsJournal_append:
  assumes held: "holdsJournal (txD t) rows" and ok: "entryGuards e = None"
  shows "holdsJournal (txD (snd (AppendLedger e t))) (rows @ [(rowFrom (tl ledgerCols) (tl (ledgerValues e)))(''id'' := SInt rid)])"
proof -
  let ?i = "dNextID (txD t) + 1" and ?r = "(rowFrom (tl ledgerCols) (tl (ledgerValues e)))(''id'' := SInt rid)"
  have "entryRow (e\<lparr>leID := ?i\<rparr>) ?r" using rows_of_inserts(5) [of e rid] by (auto simp: entryRow_def)
  moreover have "list_all2 (\<lambda>i r. i \<le> ?i \<and> (\<exists>x. ((dLedger (txD t))(?i \<mapsto> e\<lparr>leID := ?i\<rparr>)) i = Some x \<and> entryRow x r)) (dLedgerIDs (txD t)) rows"
    using held unfolding holdsJournal_def by (rule list_all2_mono) auto
  ultimately show ?thesis
    by (simp add: holdsJournal_def AppendLedger_run [OF ok] list_all2_appendI)
qed

subsection \<open>The tables of money\<close>

definition moneyTables :: "tables \<Rightarrow> tables \<Rightarrow> data \<Rightarrow> bool" where
  "moneyTables before tabs d \<longleftrightarrow>
     holdsMap withdrawalIn (dWithdrawals d) (tabs ''dist_withdraw'') \<and> holdsMap accountRow (dAccounts d) (tabs ''dist_account'') \<and>
     holdsJournal d (tabs ''dist_ledger'') \<and>
     (\<forall>n. n \<noteq> ''dist_withdraw'' \<and> n \<noteq> ''dist_account'' \<and> n \<noteq> ''dist_ledger'' \<longrightarrow> tabs n = before n)"

definition answersMoves :: "withdrawal_moves \<Rightarrow> 'db tx_handle \<Rightarrow> ('db \<Rightarrow> tables) \<Rightarrow> bool" where
  "answersMoves moves h tabs \<longleftrightarrow> (\<forall>k. answers h tabs [withdrawalSelectS k]) \<and>
     (\<forall>(from, to, tr)\<in>moves. \<forall>k n. answers h tabs [withdrawalUpdateS k from to n tr])"

lemma withdrawalsHeld_iff:
  "withdrawalsHeld moves h tabs before db d \<longleftrightarrow> answersMoves moves h tabs \<and> withdrawalTable before (tabs db) d"
  by (simp add: withdrawalsHeld_def answersMoves_def conj_assoc)

definition answersMoney :: "withdrawal_moves \<Rightarrow> 'db tx_handle \<Rightarrow> gotime \<Rightarrow> ('db \<Rightarrow> tables) \<Rightarrow> bool" where
  "answersMoney moves h now tabs \<longleftrightarrow> answersMoves moves h tabs \<and>
     (\<forall>delta a. answers h tabs [incrementUpdateS delta, accountSelectS (dKey delta), accountInsertS (a\<lparr>aUpdatedAt := now\<rparr>)]) \<and>
     (\<forall>e. answersInsertID h tabs ''dist_ledger'' (tl ledgerCols) (tl (ledgerValues e)))"

definition moneyHeld ::
  "withdrawal_moves \<Rightarrow> 'db tx_handle \<Rightarrow> gotime \<Rightarrow> ('db \<Rightarrow> tables) \<Rightarrow> tables \<Rightarrow> 'db \<Rightarrow> data \<Rightarrow> bool" where
  "moneyHeld moves h now tabs before db d \<longleftrightarrow> answersMoney moves h now tabs \<and> moneyTables before (tabs db) d"

definition storableDelta :: "gotime \<Rightarrow> data \<Rightarrow> account_delta \<Rightarrow> bool" where
  "storableDelta now d delta \<longleftrightarrow> storable now \<and> \<not> deltaIsZero delta \<and>
     (\<exists>a. deltaApply delta (accountBefore (dAccounts d) (dKey delta)) = Inr a \<and>
       fitsValues ''dist_account'' (accountValues (a\<lparr>aVersion := aVersion a + 1, aUpdatedAt := 0\<rparr>)))"

lemma money_increment:
  assumes held: "moneyHeld moves h now tabs before db (txD t)" and ok: "storableDelta now (txD t) delta"
  shows "\<exists>r db'. sqlIncrementAccount h now delta db = (r, db') \<and> rel_sum alike sameAccount r (fst (IncrementAccount delta t)) \<and>
    moneyHeld moves h now tabs before db' (txD (snd (IncrementAccount delta t)))"
proof (cases "userKeyValidate (dKey delta)")
  case (Some e)
  then show ?thesis using held by (simp add: sqlIncrementAccount_def IncrementAccount_def step_simps)
next
  case None
  have h: "holdsMap accountRow (dAccounts (txD t)) (tabs db ''dist_account'')" "answersMoney moves h now tabs"
    using held by (simp_all add: moneyHeld_def moneyTables_def)
  obtain a where a: "storable now" "\<not> deltaIsZero delta"
    "deltaApply delta (accountBefore (dAccounts (txD t)) (dKey delta)) = Inr a"
    "fitsValues ''dist_account'' (accountValues (a\<lparr>aVersion := aVersion a + 1, aUpdatedAt := 0\<rparr>))"
    using ok by (auto simp: storableDelta_def)
  have ans: "answers h tabs [incrementUpdateS delta, accountSelectS (dKey delta), accountInsertS (a\<lparr>aUpdatedAt := now\<rparr>)]"
    using h(2) by (simp add: answersMoney_def)
  note memory = IncrementAccount_run [OF None a(3) [folded account_before [OF h(1)]]]
  from increment_run [where m = "dAccounts (txD t)" and tabs = tabs and db = db and h = h and now = now and delta = delta and a = a,
      OF h(1) a(3) ans a(1,4)]
  show ?thesis
  proof (elim exE conjE, goal_cases)
    case (1 db' u)
    have "holdsJournal (txD (snd (IncrementAccount delta t))) rows \<longleftrightarrow> holdsJournal (txD t) rows" for rows
      by (rule holdsJournal_cong) (simp_all add: increment_frame)
    then have held': "moneyHeld moves h now tabs before db' (txD (snd (IncrementAccount delta t)))"
      using held 1(2,3) by (auto simp: moneyHeld_def moneyTables_def memory increment_frame)
    show ?case
      by (intro exI conjI, simp add: sqlIncrementAccount_def None a(2), rule 1(1))
        (use held' in \<open>auto simp: memory sameAccount_def\<close>)
  qed
qed

lemma money_append:
  assumes held: "moneyHeld moves h now tabs before db (txD t)" and ok: "storableEntry e"
  shows "\<exists>r db'. sqlAppendLedger h e db = (r, db') \<and> rel_sum alike (\<lambda>_ _. True) r (fst (AppendLedger e t)) \<and>
    moneyHeld moves h now tabs before db' (txD (snd (AppendLedger e t)))"
proof (cases "entryGuards e")
  case (Some er)
  then show ?thesis using held by (simp add: sqlAppendLedger_refused AppendLedger_refused)
next
  case None
  have ans: "answersInsertID h tabs ''dist_ledger'' (tl ledgerCols) (tl (ledgerValues e))"
    using held by (simp add: moneyHeld_def answersMoney_def)
  obtain rid db' where run: "sqlAppendLedger h e db = (Inr (e\<lparr>leID := rid\<rparr>), db')"
    "tabs db' = (tabs db)(''dist_ledger'' := tabs db ''dist_ledger'' @ [(rowFrom (tl ledgerCols) (tl (ledgerValues e)))(''id'' := SInt rid)])"
    using sqlAppendLedger_run [where h = h and tabs = tabs and db = db, OF None ok ans] by blast
  have "moneyHeld moves h now tabs before db' (txD (snd (AppendLedger e t)))"
    using held holdsJournal_append [OF _ None] by (auto simp: moneyHeld_def moneyTables_def run(2) append_frame)
  then show ?thesis using run(1) by (simp add: AppendLedger_run(1) [OF None])
qed

lemma move_frame:
  "dAccounts (txD (snd (TransitionWithdrawal k from to n tr t))) = dAccounts (txD t)"
  "dLedger (txD (snd (TransitionWithdrawal k from to n tr t))) = dLedger (txD t)"
  "dLedgerIDs (txD (snd (TransitionWithdrawal k from to n tr t))) = dLedgerIDs (txD t)"
  "dNextID (txD (snd (TransitionWithdrawal k from to n tr t))) = dNextID (txD t)"
  by (auto simp: TransitionWithdrawal_def change_def Let_def split: option.split)

lemma money_move:
  assumes held: "moneyHeld moves h now tabs before db (txD t)" and ok: "storableWithdrawal moves (txD t) k from to tr"
  shows "\<exists>r db'. sqlTransitionWithdrawal h k from to n tr db = (r, db') \<and>
    rel_sum alike (=) r (fst (TransitionWithdrawal k from to n tr t)) \<and>
    moneyHeld moves h now tabs before db' (txD (snd (TransitionWithdrawal k from to n tr t)))"
proof -
  have "withdrawalsHeld moves h tabs (tabs db) db (txD t)"
    using held by (simp add: withdrawalsHeld_iff moneyHeld_def answersMoney_def moneyTables_def withdrawalTable_def)
  from withdrawal_move [where n = n, OF this ok] show ?thesis
  proof (elim exE conjE, goal_cases)
    case (1 r db')
    have "holdsJournal (txD (snd (TransitionWithdrawal k from to n tr t))) rows \<longleftrightarrow> holdsJournal (txD t) rows" for rows
      by (rule holdsJournal_cong) (simp_all add: move_frame)
    then have "moneyHeld moves h now tabs before db' (txD (snd (TransitionWithdrawal k from to n tr t)))"
      using held 1(3) by (auto simp: withdrawalsHeld_iff moneyHeld_def moneyTables_def withdrawalTable_def move_frame)
    then show ?case using 1(1,2) by blast
  qed
qed

lemma sqlTx_money [simp]:
  "ptIncrementAccount (sqlTx h now) = sqlIncrementAccount h now" "ptAppendLedger (sqlTx h now) = sqlAppendLedger h"
  by (simp_all add: sqlTx_def)

interpretation sql_payouts: payout_port "sqlTx h now" "moneyHeld moves h now tabs before" "storableWithdrawal moves"
    "storableDelta now" storableEntry
  for h now moves tabs before
proof
  show "ptWithdrawalByID (sqlTx h now) k s = (case dWithdrawals d k of None \<Rightarrow> Inl (Ledger ErrNotFound) | Some w \<Rightarrow> Inr w, s)"
    if "moneyHeld moves h now tabs before s d" for s d k
    using that by (auto simp: moneyHeld_def moneyTables_def answersMoney_def answersMoves_def answers_def intro!: withdrawal_lookup)
  show "wID w = k" if "moneyHeld moves h now tabs before s d" "dWithdrawals d k = Some w" for s d k w
  proof -
    have "holdsMap withdrawalIn (dWithdrawals d) (tabs s ''dist_withdraw'')" using that(1) by (auto simp: moneyHeld_def moneyTables_def)
    from holdsMap_entry [where m = "dWithdrawals d" and v = w, OF this that(2)] show ?thesis by (auto simp: withdrawalIn_def)
  qed
  show "agrees (started (moneyHeld moves h now tabs before) d) (=) (related (moneyHeld moves h now tabs before))
      (ptTransitionWithdrawal (sqlTx h now) k from to n tr) (TransitionWithdrawal k from to n tr)"
    if "storableWithdrawal moves d k from to tr" for d k "from" "to" n tr
    by (rule agreesI) (use money_move that in \<open>fastforce\<close>)
  show "agrees (started (moneyHeld moves h now tabs before) d) sameAccount (related (moneyHeld moves h now tabs before))
      (ptIncrementAccount (sqlTx h now) delta) (IncrementAccount delta)"
    if "storableDelta now d delta" for d delta
    by (rule agreesI) (use money_increment that in \<open>fastforce\<close>)
  show "agrees (related (moneyHeld moves h now tabs before)) (\<lambda>_ _. True) (related (moneyHeld moves h now tabs before))
      (ptAppendLedger (sqlTx h now) e) (AppendLedger e)"
    if "storableEntry e" for e
    by (rule agreesI) (use money_append that in \<open>fastforce\<close>)
  show "storableWithdrawal moves d' k from to tr"
    if "dWithdrawals d = dWithdrawals d'" "storableWithdrawal moves d k from to tr" for d d' k "from" "to" tr
    using that by (simp add: storableWithdrawal_def)
qed

end
