(* ===== verification/SqlPayouts.thy ===== *)
theory SqlPayouts
  imports SqlMoney
begin

text \<open>
  Rejecting and paying withdrawals over the SQL store, from the guards to the commit, against the
  in-memory store: withdrawals, accounts and journal move together.
\<close>

subsection \<open>Reads in both stores\<close>

text \<open>A \<open>View\<close> that agrees with one of the in-memory store returns the same and changes nothing.\<close>

lemma views_agree:
  assumes ready: "sqlReady h tabs committed" and fn: "\<And>c. uncommitted committed c fn"
    and body: "reads (started I (stData s)) V fn body"
    and start: "\<forall>db'. tabs db' = committed db \<longrightarrow> I db' (stData s)" and live: "\<not> stClosed s"
  shows "\<exists>r db'. sqlView (txDriver h) fn db = (r, db') \<and> rel_sum alike V r (fst (memoryView body s)) \<and>
    committed db' = committed db"
proof -
  let ?v = "txDriver h" and ?t = "\<lparr>txD = stData s, txU = newUndo (stData s)\<rparr>"
  have serial: "fst (drBegin ?v True db) = Inr ()" "tabs (snd (drBegin ?v True db)) = committed db" "transactional ?v committed"
    "fst (drCommit ?v db') = Inr ()" "committed (snd (drCommit ?v db')) = tabs db'" for db'
    using ready by (auto simp: sqlReady_def serialDriver_def)
  let ?b = "snd (drBegin ?v True db)"
  have "started I (stData s) ?b ?t" using start serial(2) by simp
  then have r: "rel_sum alike V (fst (fn ?b)) (fst (body ?t))" "snd (fn ?b) = ?b" using body unfolding reads_def by blast+
  have once: "sqlView ?v fn db = (case fst (fn ?b) of Inl e \<Rightarrow> (Inl e, snd (drRollback ?v (snd (fn ?b))))
      | Inr x \<Rightarrow> (Inr x, snd (drCommit ?v (snd (fn ?b)))))"
    using serial(1,4) by (simp add: sqlView_def runTx_def step_simps rollbackWith_def split: sum.split)
  have "fst (sqlView ?v fn db) = fst (fn ?b)" using once by (simp split: sum.split)
  moreover have "committed (snd (sqlView ?v fn db)) = committed db"
  proof (cases "fst (fn ?b)")
    case (Inl e)
    then show ?thesis using runTx_atomic [where ro = True and db = db, OF serial(3) fn] once by (simp add: sqlView_def)
  next
    case (Inr x)
    then show ?thesis using once r(2) serial(2,5) by simp
  qed
  moreover have "fst (memoryView body s) = fst (body ?t)" using live by (simp add: memoryView_def View_def)
  ultimately show ?thesis using r(1) by (metis prod.collapse)
qed

lemma memoryView_state: "snd (memoryView body s) = s"
  by (simp add: memoryView_def View_def)

lemma carried_ret [carried_rules]: "R (committed db) (stData s) \<Longrightarrow> V x y \<Longrightarrow> carried committed R V (ret x) (ret y) db s"
  by (simp add: carried_def step_simps)

text \<open>Loading a withdrawal, and what follows it.\<close>

lemma carried_load:
  assumes ready: "sqlReady h tabs committed" and ans: "answersMoney moves h now tabs"
    and held: "moneyTables before (committed db) (stData s)" and live: "\<not> stClosed s"
    and rest: "\<And>w db'. dWithdrawals (stData s) k = Some w \<Longrightarrow> wID w = k \<Longrightarrow> committed db' = committed db \<Longrightarrow>
      carried committed (moneyTables before) V (F w) (G w) db' s"
  shows "carried committed (moneyTables before) V (andThen (loadWithdrawalOn (sqlTx h now) (sqlView (txDriver h)) tn k) F)
    (andThen (loadWithdrawal tn k) G) db s"
proof -
  let ?fn = "andThen (ptWithdrawalByID (sqlTx h now) k)
      (\<lambda>w. if ukTenantID (wKey w) \<noteq> tn then throw (ptErr (sqlTx h now) ErrNotFound) else ret w)"
  let ?body = "andThen (rd (rdWithdrawalByID k)) (\<lambda>w. if ukTenantID (wKey w) \<noteq> tn then throw ErrNotFound else ret w)"
  have t: "transactional (txDriver h) committed" using ready by (simp add: sqlReady_def serialDriver_def)
  have start: "\<forall>db'. tabs db' = committed db \<longrightarrow> moneyHeld moves h now tabs before db' (stData s)"
    using held ans by (simp add: moneyHeld_def)
  have quiet: "uncommitted committed c ?fn" for c using t by (auto intro!: hoare_rules reads_keep)
  note loaded = sql_payouts.reads_loaded [where h = h and moves = moves and now = now and tabs = tabs and before = before
      and d = "stData s" and k = k and tn = tn]
  from views_agree [where I = "moneyHeld moves h now tabs before" and h = h and tabs = tabs and committed = committed and db = db and s = s, OF ready quiet loaded start live]
  obtain r db' where run: "sqlView (txDriver h) ?fn db = (r, db')" "committed db' = committed db"
    "rel_sum alike (\<lambda>x y. x = y \<and> wID y = k \<and> dWithdrawals (stData s) k = Some y) r (fst (memoryView ?body s))"
    by blast
  show ?thesis
  proof (cases "tn < 0 \<or> k \<le> 0")
    case True
    then show ?thesis using held by (auto simp: carried_def loadWithdrawalOn_def loadWithdrawal_def step_simps)
  next
    case False
    then have load: "loadWithdrawal tn k s = (fst (memoryView ?body s), s)" "loadWithdrawalOn (sqlTx h now) (sqlView (txDriver h)) tn k db = (r, db')"
      using run(1) memoryView_state [of ?body s]
      by (auto simp: load_memory [symmetric] loadWithdrawalOn_def prod_eq_iff cong: if_cong)
    from run(3) show ?thesis
    proof (cases rule: rel_sum.cases)
      case (1 e' e)
      then show ?thesis using load run(2) held by (simp add: carried_def step_simps)
    next
      case (2 x y)
      then have "carried committed (moneyTables before) V (F y) (G y) db' s" using rest run(2) by blast
      then show ?thesis using load 2 by (simp add: carried_def step_simps)
    qed
  qed
qed

lemma payout_bodies_uncommitted:
  assumes "transactional (txDriver h) committed"
  shows "uncommitted committed c (rejectOn (sqlTx h now) l req)" "uncommitted committed c (paidOn (sqlTx h now) l k invoice opr)"
  using assms
  by (auto simp: rejectOn_def releaseOn_def scopedWithdrawalOn_def paidOn_def Let_def intro!: hoare_rules reads_keep writes_keep)

lemma payout_bodies_logged:
  "keeps (undoOk d0) (rejectOn memoryTx l req)" "keeps (undoOk d0) (paidOn memoryTx l (wID (cur :: withdrawal)) invoice opr)"
  by (simp_all only: payout_bodies_memory undo_inv.keeps_reject undo_inv.keeps_settlePayout)

subsection \<open>Operations\<close>

text \<open>
  What the SQL store needs of a withdrawal to store what an operation writes: the new record and the new
  account fit their columns, and the amounts do not overflow.
\<close>

definition rejectable ::
  "withdrawal_moves \<Rightarrow> gotime \<Rightarrow> ledger \<Rightarrow> withdraw_decision \<Rightarrow> data \<Rightarrow> withdrawal \<Rightarrow> bool" where
  "rejectable moves now l req d w \<longleftrightarrow>
     storableWithdrawal moves d (wdWithdrawalID req) (wState w) WithdrawalRejected (rejectionOf l req) \<and>
     (0 < sint (withdrawalOutstanding w) \<longrightarrow> storableDelta now d (releasedDelta w (lNow l)) \<and>
       (\<forall>a. storableEntry (releasedEntry w LedgerWithdrawRefund (wdReason req) (lNow l) a)))"

definition payable ::
  "withdrawal_moves \<Rightarrow> gotime \<Rightarrow> ledger \<Rightarrow> data \<Rightarrow> string \<Rightarrow> string \<Rightarrow> withdrawal \<Rightarrow> bool" where
  "payable moves now l d invoice opr w \<longleftrightarrow> (0 < sint (withdrawalOutstanding w) \<longrightarrow>
     storableWithdrawal moves d (wID w) (wState w) WithdrawalPaid (payoutOf l invoice opr) \<and>
     storableDelta now d (payoutDelta l w) \<and> (\<forall>a. storableEntry (payoutEntry l w a)))"

definition failable :: "withdrawal_moves \<Rightarrow> data \<Rightarrow> string \<Rightarrow> string \<Rightarrow> withdrawal \<Rightarrow> bool" where
  "failable moves d reason opr w \<longleftrightarrow> storableWithdrawal moves d (wID w) (wState w) WithdrawalPayFailed
     (noTransition\<lparr>wtFailReason := if length reason > maxReasonLen then take maxReasonLen reason else reason, wtOperator := opr\<rparr>)"

definition answerable ::
  "withdrawal_moves \<Rightarrow> gotime \<Rightarrow> ledger \<Rightarrow> data \<Rightarrow> string \<Rightarrow> string + payout_result \<Rightarrow> withdrawal \<Rightarrow> bool" where
  "answerable moves now l d opr answer w \<longleftrightarrow> (case answer of
       Inl err \<Rightarrow> failable moves d (''channel error: '' @ err) opr w
     | Inr result \<Rightarrow>
         if psPaid result then payable moves now l d (psInvoiceNo result) opr w
         else failable moves d (if psFailReason result = [] then ''channel reported failure without a reason'' else psFailReason result) opr w)"

lemma reject_over_sql_body:
  assumes ready: "sqlReady h tabs committed" and ans: "answersMoney moves h now tabs"
    and held: "moneyTables before (committed db) (stData s)" and live: "\<not> stClosed s"
    and ok: "\<forall>w. dWithdrawals (stData s) (wdWithdrawalID req) = Some w \<and> withdrawalReserved (wState w) \<longrightarrow>
      rejectable moves now l req (stData s) w"
  shows "carried committed (moneyTables before) (=) (sqlUpdateOf ended h (rejectOn (sqlTx h now) l req)) (Update (rejectOn memoryTx l req)) db s"
proof -
  have "transactional (txDriver h) committed" using ready by (simp add: sqlReady_def serialDriver_def)
  then show ?thesis
    by (intro carried_update [where I = "moneyHeld moves h now tabs before" and C = "answersMoney moves h now tabs" and tabs = tabs]
        payout_bodies_uncommitted payout_bodies_logged sql_payouts.reject moneyHeld_def ready ans held live)
      (use ok in \<open>auto simp: rejectable_def\<close>)
qed

lemma settle_over_sql:
  assumes ready: "sqlReady h tabs committed" and ans: "answersMoney moves h now tabs"
    and held: "moneyTables before (committed db) (stData s)" and live: "\<not> stClosed s"
    and w: "dWithdrawals (stData s) (wID w) = Some w" and ok: "payable moves now l (stData s) invoice opr w"
  shows "carried committed (moneyTables before) (=) (settlePayoutOn (sqlTx h now) (sqlUpdateOf ended h) l w invoice opr)
    (settlePayoutOn memoryTx Update l w invoice opr) db s"
proof -
  have t: "transactional (txDriver h) committed" using ready by (simp add: sqlReady_def serialDriver_def)
  have "carried committed (moneyTables before) (=) (sqlUpdateOf ended h (paidOn (sqlTx h now) l (wID w) invoice opr))
      (Update (paidOn memoryTx l (wID w) invoice opr)) db s"
    using t by (intro carried_update [where I = "moneyHeld moves h now tabs before" and C = "answersMoney moves h now tabs" and tabs = tabs]
        payout_bodies_uncommitted payout_bodies_logged sql_payouts.paid moneyHeld_def ready ans held live)
      (use ok w in \<open>auto simp: payable_def\<close>)
  then show ?thesis unfolding settlePayoutOn_def using held by (auto intro!: carried_rules)
qed

lemma failure_over_sql:
  assumes ready: "sqlReady h tabs committed" and ans: "answersMoney moves h now tabs"
    and held: "moneyTables before (committed db) (stData s)" and live: "\<not> stClosed s"
    and w: "dWithdrawals (stData s) (wID w) = Some w" and ok: "failable moves (stData s) reason opr w"
  shows "carried committed (moneyTables before) (=) (recordPayoutFailureOn (sqlTx h now) (sqlUpdateOf ended h) w reason opr)
    (recordPayoutFailureOn memoryTx Update w reason opr) db s"
proof -
  have "transactional (txDriver h) committed" using ready by (simp add: sqlReady_def serialDriver_def)
  then show ?thesis unfolding recordPayoutFailureOn_def
    by (intro carried_update [where I = "moneyHeld moves h now tabs before" and C = "answersMoney moves h now tabs" and tabs = tabs]
        bodies_uncommitted bodies_logged sql_payouts.payout_failure moneyHeld_def ready ans held live)
      (use ok w in \<open>auto simp: failable_def\<close>)
qed



text \<open>
  Marking a withdrawal paid over the SQL store is marking it paid over the in-memory store, with the same
  withdrawals, accounts and journal afterwards.
\<close>

theorem mark_paid_over_sql:
  assumes "sqlReady h tabs committed" "answersMoney moves h now tabs" "moneyTables before (committed db) (stData s)" "\<not> stClosed s"
    and "\<forall>w. dWithdrawals (stData s) (poWithdrawalID req) = Some w \<longrightarrow>
      payable moves now l (stData s) (poInvoiceNo req) (poOperator req) w"
  shows "carried committed (moneyTables before) (=)
    (MarkWithdrawPaidOn (sqlTx h now) (sqlView (txDriver h)) (sqlUpdateOf ended h) l req) (MarkWithdrawPaid l req) db s"
  unfolding payouts_on_memory(3) [symmetric] MarkWithdrawPaidOn_def load_memory
  using assms(3,5) by (auto intro!: carried_rules carried_load [OF assms(1-4)] settle_over_sql [OF assms(1,2) _ assms(4)])

end
