(* ===== verification/SqlFamilies.thy ===== *)
theory SqlFamilies
  imports SqlEngine SqlText SqlReference
begin

text \<open>
  A driver that answers families of statements, each a statement with its bound values as parameters, and
  runs transactions on a working copy of the tables. It shows that the hypotheses of the theorems on
  whole operations over the SQL store can hold.
\<close>

text \<open>The reference driver answers each statement of a list that no other one of the list is mistaken for.\<close>

definition apart :: "dialect \<Rightarrow> stmt list \<Rightarrow> stmt \<Rightarrow> bool" where
  "apart d sts st \<longleftrightarrow> st \<in> set sts \<and> (\<forall>q\<in>set sts. stmtSQL d q = stmtSQL d st \<longrightarrow> q = st)"

lemma find_member: "x \<in> set xs \<Longrightarrow> P x \<Longrightarrow> \<forall>y\<in>set xs. P y \<longrightarrow> y = x \<Longrightarrow> find P xs = Some x"
proof (induction xs)
  case (Cons y ys)
  show ?case
  proof (cases "P y")
    case True
    then have "y = x" using Cons.prems(3) by simp
    then show ?thesis using Cons.prems(2) by simp
  next
    case False
    then have "x \<in> set ys" using Cons.prems(1,2) by auto
    moreover have "\<forall>z\<in>set ys. P z \<longrightarrow> z = x" using Cons.prems(3) by simp
    ultimately have "find P ys = Some x" by (rule Cons.IH [OF _ Cons.prems(2)])
    then show ?thesis using False by simp
  qed
qed simp

lemma reference_query:
  assumes "apart d sts (SelectS columns table cs)" "stmtSQL d (SelectS columns table cs) = (query, argv)"
  shows "drQuery (referenceDriver d sts) query argv = runSelect columns table cs"
proof -
  let ?P = "\<lambda>st. case st of SelectS _ _ _ \<Rightarrow> stmtSQL d st = (query, argv) | _ \<Rightarrow> False"
  have all: "\<forall>q\<in>set sts. ?P q \<longrightarrow> q = SelectS columns table cs"
  proof (intro ballI impI)
    fix q assume q: "q \<in> set sts" "?P q"
    show "q = SelectS columns table cs" by (cases q) (use q assms in \<open>simp_all add: apart_def\<close>)
  qed
  have "find ?P sts = Some (SelectS columns table cs)"
    by (rule find_member [OF _ _ all]) (use assms in \<open>simp_all add: apart_def\<close>)
  then show ?thesis by (simp add: referenceDriver_def)
qed

lemma reference_update:
  assumes "apart d sts (UpdateS table as cs)" "stmtSQL d (UpdateS table as cs) = (query, argv)"
  shows "drExec (referenceDriver d sts) query argv = runUpdate table as cs"
proof -
  let ?P = "\<lambda>st. case st of UpdateS _ _ _ \<Rightarrow> stmtSQL d st = (query, argv)
    | InsertS _ _ _ \<Rightarrow> (case stmtSQL d st of (q, vs) \<Rightarrow> (q @ diInsertConflictClause d, vs)) = (query, argv)
    | SelectS _ _ _ \<Rightarrow> False"
  have only: "q = UpdateS table as cs" if q: "q \<in> set sts" "?P q" for q
  proof -
    obtain s vs where u: "stmtSQL d (UpdateS table as cs) = (CHR ''U'' # s, vs)" using stmt_letters(1) by blast
    show ?thesis
    proof (cases q)
      case (InsertS t columns vals)
      obtain s' vs' where "stmtSQL d (InsertS t columns vals) = (CHR ''I'' # s', vs')" using stmt_letters(2) by blast
      then show ?thesis using q(2) u assms(2) InsertS by simp
    qed (use q assms in \<open>auto simp: apart_def\<close>)
  qed
  have all: "\<forall>q\<in>set sts. ?P q \<longrightarrow> q = UpdateS table as cs" using only by blast
  have "find ?P sts = Some (UpdateS table as cs)"
    by (rule find_member [OF _ _ all]) (use assms in \<open>simp_all add: apart_def\<close>)
  then show ?thesis by (simp add: referenceDriver_def)
qed

lemma reference_insert:
  assumes "apart d sts (InsertS table columns vals)" "stmtSQL d (InsertS table columns vals) = (query, argv)"
  shows "drExec (referenceDriver d sts) (query @ diInsertConflictClause d) argv = runInsert table columns vals"
proof -
  let ?P = "\<lambda>st. case st of UpdateS _ _ _ \<Rightarrow> stmtSQL d st = (query @ diInsertConflictClause d, argv)
    | InsertS _ _ _ \<Rightarrow> (case stmtSQL d st of (q, vs) \<Rightarrow> (q @ diInsertConflictClause d, vs)) = (query @ diInsertConflictClause d, argv)
    | SelectS _ _ _ \<Rightarrow> False"
  have only: "q = InsertS table columns vals" if q: "q \<in> set sts" "?P q" for q
  proof -
    obtain s vs where i: "stmtSQL d (InsertS table columns vals) = (CHR ''I'' # s, vs)" using stmt_letters(2) by blast
    show ?thesis
    proof (cases q)
      case (UpdateS t as cs)
      obtain s' vs' where "stmtSQL d (UpdateS t as cs) = (CHR ''U'' # s', vs')" using stmt_letters(1) by blast
      then show ?thesis using q(2) i assms(2) UpdateS by simp
    qed (use q assms in \<open>auto simp: apart_def split: prod.splits\<close>)
  qed
  have all: "\<forall>q\<in>set sts. ?P q \<longrightarrow> q = InsertS table columns vals" using only by blast
  have "find ?P sts = Some (InsertS table columns vals)"
    by (rule find_member [OF _ _ all]) (use assms in \<open>simp_all add: apart_def\<close>)
  then show ?thesis by (simp add: referenceDriver_def)
qed

subsection \<open>Families\<close>

type_synonym family = "sqlval list \<Rightarrow> stmt"

definition familyDriver :: "dialect \<Rightarrow> family list \<Rightarrow> tables driver" where
  "familyDriver d fs = (referenceDriver d [])
     \<lparr>drExec := (\<lambda>query argv. drExec (referenceDriver d (map (\<lambda>f. f argv) fs)) query argv),
      drQuery := (\<lambda>query argv. drQuery (referenceDriver d (map (\<lambda>f. f argv) fs)) query argv)\<rparr>"

definition familyHandle :: "dialect \<Rightarrow> family list \<Rightarrow> (tables \<times> tables) tx_handle" where
  "familyHandle d fs =
     \<lparr>txStore = \<lparr>ssDialect = d, ssClassifier = fallbackClassifier (\<lambda>_. []), ssMaxRetries = 5, ssRetryWait = 2000000\<rparr>,
      txDriver = transactionDriver (familyDriver d fs)\<rparr>"

lemma familyHandle_simps [simp]:
  "hDialect (familyHandle d fs) = d"
  "drExec (txDriver (familyHandle d fs)) query argv s =
     (case drExec (referenceDriver d (map (\<lambda>f. f argv) fs)) query argv (fst s) of (r, working) \<Rightarrow> (r, (working, snd s)))"
  "drQuery (txDriver (familyHandle d fs)) query argv s =
     (case drQuery (referenceDriver d (map (\<lambda>f. f argv) fs)) query argv (fst s) of (r, working) \<Rightarrow> (r, (working, snd s)))"
  by (simp_all add: familyHandle_def hDialect_def transactionDriver_def onWorking_def familyDriver_def)

lemma family_ready: "sqlReady (familyHandle d fs) fst snd"
  by (simp add: sqlReady_def serialDriver_def familyHandle_def transactionDriver_transactional)
    (simp add: transactionDriver_def fallbackClassifier_def retryable_def numericRetryable_def errorCode_def containsPhrase_def retryablePhrases_def)

lemma family_answers:
  assumes "\<And>st. st \<in> set sts \<Longrightarrow> apart d (map (\<lambda>f. f (snd (stmtSQL d st))) fs) st"
  shows "answers (familyHandle d fs) fst sts"
  unfolding answers_def list_all_iff
proof (intro ballI conjI)
  fix st assume "st \<in> set sts"
  obtain query argv where text_: "stmtSQL d st = (query, argv)" by (cases "stmtSQL d st")
  then have fit: "apart d (map (\<lambda>f. f argv) fs) st" using assms [OF \<open>st \<in> set sts\<close>] by simp
  show "answersSelect (familyHandle d fs) fst st"
  proof (cases st)
    case (SelectS columns table cs)
    show ?thesis
      using reference_query [OF fit [unfolded SelectS] text_ [unfolded SelectS]] text_
      by (simp add: SelectS answersSelect_def runSelect_def)
  qed (simp_all add: answersSelect_def)
  show "answersUpdate (familyHandle d fs) fst st"
  proof (cases st)
    case (UpdateS table as cs)
    show ?thesis
      using reference_update [OF fit [unfolded UpdateS] text_ [unfolded UpdateS]] text_
      by (simp add: UpdateS answersUpdate_def runUpdate_def)
  qed (simp_all add: answersUpdate_def)
  show "answersInsert (familyHandle d fs) fst st"
  proof (cases st)
    case (InsertS table columns vals)
    show ?thesis
      using reference_insert [OF fit [unfolded InsertS] text_ [unfolded InsertS]] text_
      by (simp add: InsertS answersInsert_def runInsert_def Let_def)
  qed (simp_all add: answersInsert_def)
qed

subsection \<open>Telling statements apart\<close>

text \<open>By the head of their text, or by the number of their values.\<close>

fun headOf :: "dialect \<Rightarrow> stmt \<Rightarrow> string" where
  "headOf d (SelectS columns table cs) = ''SELECT '' @ cols d columns"
| "headOf d (UpdateS table as cs) = ''UPDATE '' @ tableName d table"
| "headOf d (InsertS table columns vals) = ''INSERT INTO '' @ tableName d table"

lemma stmtSQL_numbered: "stmtSQL d st = (numberedText d 1 (stmtPieces d st), boundValues (stmtPieces d st))"
  by (simp add: stmtSQL_def buildSQL_numbered)

lemma stmt_head: "\<exists>r. fst (stmtSQL d st) = headOf d st @ r"
  by (cases st) (auto simp: stmtSQL_numbered selectFrom_def updateWhere_def insertInto_def)

lemma apartI:
  assumes "st \<in> set sts" "\<forall>q\<in>set sts. q = st \<or> length (snd (stmtSQL d q)) \<noteq> length (snd (stmtSQL d st)) \<or>
    (\<forall>r r'. headOf d q @ r \<noteq> headOf d st @ r')"
  shows "apart d sts st"
  unfolding apart_def using assms stmt_head by metis

subsection \<open>Agents and bindings\<close>

definition agentUpdateF :: family where
  "agentUpdateF v = UpdateS ''dist_agent''
     [SetVal ''parent_id'' (v ! 0), SetVal ''depth'' (v ! 1), SetVal ''status'' (v ! 2), SetVal ''join_type'' (v ! 3),
      SetVal ''rate_override_bp'' (v ! 4), SetVal ''created_at'' (v ! 5), SetVal ''updated_at'' (v ! 6), SetNext ''version'']
     [CondEq ''tenant_id'' (v ! 7), CondEq ''user_id'' (v ! 8), CondEq ''version'' (v ! 9)]"

definition agentSelectF :: family where
  "agentSelectF v = SelectS agentCols ''dist_agent'' [CondEq ''tenant_id'' (v ! 0), CondEq ''user_id'' (v ! 1)]"

definition bindingUpdateF :: family where
  "bindingUpdateF v = UpdateS ''dist_binding''
     [SetVal ''agent_user_id'' (v ! 0), SetVal ''source'' (v ! 1), SetVal ''source_ref'' (v ! 2), SetVal ''bound_at'' (v ! 3),
      SetVal ''expire_at'' (v ! 4), SetVal ''active'' (v ! 5), SetVal ''rebound_from'' (v ! 6), SetNext ''version'']
     [CondEq ''tenant_id'' (v ! 7), CondEq ''buyer_user_id'' (v ! 8), CondEq ''version'' (v ! 9)]"

definition bindingSelectF :: family where
  "bindingSelectF v = SelectS bindingCols ''dist_binding'' [CondEq ''tenant_id'' (v ! 0), CondEq ''buyer_user_id'' (v ! 1)]"

definition relationFamilies :: "family list" where
  "relationFamilies = [agentUpdateF, agentSelectF, InsertS ''dist_agent'' agentCols,
     bindingUpdateF, bindingSelectF, InsertS ''dist_binding'' bindingCols]"

lemmas family_defs = relationFamilies_def agentUpdateF_def agentSelectF_def bindingUpdateF_def bindingSelectF_def
  agentUpdateS_def agentSelectS_def agentInsertS_def bindingUpdateS_def bindingSelectS_def bindingInsertS_def
  userConds_def

lemmas head_simps = stmtSQL_numbered setTo_def updateWhere_def insertInto_def selectFrom_def mysql_def mysqlQuote_def tableName_def doubleChar_def

lemma relation_apart:
  fixes d :: dialect defines "d \<equiv> mysql (\<lambda>_. [])"
  shows "apart d (map (\<lambda>f. f (snd (stmtSQL d (agentUpdateS a)))) relationFamilies) (agentUpdateS a)"
    "apart d (map (\<lambda>f. f (snd (stmtSQL d (bindingUpdateS b)))) relationFamilies) (bindingUpdateS b)"
  unfolding d_def by (rule apartI; simp add: family_defs head_simps)+

lemma relation_apart_select:
  fixes d :: dialect defines "d \<equiv> mysql (\<lambda>_. [])"
  shows "apart d (map (\<lambda>f. f (snd (stmtSQL d (agentSelectS k)))) relationFamilies) (agentSelectS k)"
    "apart d (map (\<lambda>f. f (snd (stmtSQL d (bindingSelectS k)))) relationFamilies) (bindingSelectS k)"
  unfolding d_def by (rule apartI; simp add: family_defs head_simps cols_def agentCols_def bindingCols_def)+

lemma bound_list [simp]: "boundValues (bindList vs) = vs"
  by (induction vs rule: bindList.induct) simp_all

lemma relation_apart_insert:
  fixes d :: dialect defines "d \<equiv> mysql (\<lambda>_. [])"
  shows "apart d (map (\<lambda>f. f (snd (stmtSQL d (agentInsertS a)))) relationFamilies) (agentInsertS a)"
    "apart d (map (\<lambda>f. f (snd (stmtSQL d (bindingInsertS b)))) relationFamilies) (bindingInsertS b)"
  unfolding d_def by (rule apartI; simp add: family_defs head_simps)+

lemma relations_answered: "answersRelations (familyHandle (mysql (\<lambda>_. [])) relationFamilies) fst"
  unfolding answersRelations_def
  by (intro conjI allI family_answers) (auto simp: relation_apart relation_apart_select relation_apart_insert)

subsection \<open>Commissions and withdrawals\<close>

definition commissionUpdateF :: family where
  "commissionUpdateF v = UpdateS ''dist_commission'' [SetVal ''state'' (v ! 0), SetSame ''settled_at'', SetNext ''version'']
     [CondEq ''id'' (v ! 1), CondEq ''state'' (v ! 2), CondEq ''version'' (v ! 3)]"

definition settledStampF :: family where
  "settledStampF v = UpdateS ''dist_commission'' [SetVal ''settled_at'' (v ! 0)] [CondEq ''id'' (v ! 1), CondNull ''settled_at'']"

definition commissionSelectF :: family where
  "commissionSelectF v = SelectS commissionCols ''dist_commission'' [CondEq ''id'' (v ! 0)]"

definition commissionFamilies :: "family list" where
  "commissionFamilies = [commissionUpdateF, settledStampF, commissionSelectF]"

lemmas commission_family_defs = commissionFamilies_def commissionUpdateF_def settledStampF_def commissionSelectF_def
  commissionUpdateS_def settledStampS_def commissionSelectS_def idIs_def

lemma commission_apart:
  fixes d :: dialect defines "d \<equiv> mysql (\<lambda>_. [])"
  shows "apart d (map (\<lambda>f. f (snd (stmtSQL d (commissionUpdateS k from to n)))) commissionFamilies) (commissionUpdateS k from to n)"
    "apart d (map (\<lambda>f. f (snd (stmtSQL d (settledStampS k at)))) commissionFamilies) (settledStampS k at)"
    "apart d (map (\<lambda>f. f (snd (stmtSQL d (commissionSelectS k)))) commissionFamilies) (commissionSelectS k)"
  unfolding d_def by (rule apartI; simp add: commission_family_defs head_simps)+

lemma commissions_answered:
  "\<forall>k from to n. answers (familyHandle (mysql (\<lambda>_. [])) commissionFamilies) fst
     [commissionUpdateS k from to n, commissionSelectS k, settledStampS k at]"
  by (intro allI family_answers) (auto simp: commission_apart)

text \<open>A decision that records its operator and its time.\<close>

definition withdrawalUpdateF :: family where
  "withdrawalUpdateF v = UpdateS ''dist_withdraw''
     [SetVal ''state'' (v ! 0), SetNext ''version'', SetVal ''operator'' (v ! 1), SetVal ''audited_at'' (v ! 2)]
     [CondEq ''id'' (v ! 3), CondEq ''state'' (v ! 4), CondEq ''version'' (v ! 5)]"

definition withdrawalSelectF :: family where
  "withdrawalSelectF v = SelectS withdrawalCols ''dist_withdraw'' [CondEq ''id'' (v ! 0)]"

definition withdrawalFamilies :: "family list" where
  "withdrawalFamilies = [withdrawalUpdateF, withdrawalSelectF]"

lemmas withdrawal_family_defs = withdrawalFamilies_def withdrawalUpdateF_def withdrawalSelectF_def
  withdrawalUpdateS_def withdrawalSelectS_def withdrawalSets_def idIs_def

lemma withdrawal_apart:
  fixes d :: dialect defines "d \<equiv> mysql (\<lambda>_. [])"
  assumes "wtFailReason tr = []" "wtInvoiceNo tr = []" "wtOperator tr \<noteq> []" "wtAuditedAt tr \<noteq> 0" "wtPaidAt tr = 0"
  shows "apart d (map (\<lambda>f. f (snd (stmtSQL d (withdrawalUpdateS k from to n tr)))) withdrawalFamilies) (withdrawalUpdateS k from to n tr)"
    "apart d (map (\<lambda>f. f (snd (stmtSQL d (withdrawalSelectS k)))) withdrawalFamilies) (withdrawalSelectS k)"
  unfolding d_def using assms by - (rule apartI; simp add: withdrawal_family_defs head_simps)+

lemma withdrawals_answered:
  assumes "wtFailReason tr = []" "wtInvoiceNo tr = []" "wtOperator tr \<noteq> []" "wtAuditedAt tr \<noteq> 0" "wtPaidAt tr = 0"
  shows "\<forall>k. answers (familyHandle (mysql (\<lambda>_. [])) withdrawalFamilies) fst [withdrawalSelectS k]"
    "\<forall>k n. answers (familyHandle (mysql (\<lambda>_. [])) withdrawalFamilies) fst [withdrawalUpdateS k from to n tr]"
  by (intro allI family_answers; auto simp: withdrawal_apart [OF assms])+

end
