(* ===== verification/SqlPayoutRun.thy ===== *)
theory SqlPayoutRun
  imports SqlPayouts SqlFamilies Demo
begin

text \<open>
  A driver for the tables of money, and the payout operations on it: a withdrawal is rejected, paid through
  a channel and marked paid over the SQL store. It shows that the hypotheses of the theorems of SqlPayouts
  can hold.
\<close>

subsection \<open>A driver that also generates ids of journal entries\<close>

definition journalInsert :: "sqlval list \<Rightarrow> stmt" where
  "journalInsert argv = InsertS ''dist_ledger'' (tl ledgerCols) argv"

definition moneyDriver :: "dialect \<Rightarrow> family list \<Rightarrow> tables driver" where
  "moneyDriver d fs = (familyDriver d fs)\<lparr>drExec := (\<lambda>query argv tabs.
     if (fst (stmtSQL d (journalInsert argv)) @ diInsertConflictClause d, snd (stmtSQL d (journalInsert argv))) = (query, argv)
     then (case generate (''dist_ledger'', tl ledgerCols, argv) tabs of
         (None, tabs') \<Rightarrow> (Inr \<lparr>exRowsAffected = Inr 0, exLastInsertId = Inr 0\<rparr>, tabs')
       | (Some rid, tabs') \<Rightarrow> (Inr \<lparr>exRowsAffected = Inr 1, exLastInsertId = Inr rid\<rparr>, tabs'))
     else drExec (familyDriver d fs) query argv tabs)\<rparr>"

definition moneyHandle :: "dialect \<Rightarrow> family list \<Rightarrow> (tables \<times> tables) tx_handle" where
  "moneyHandle d fs = (familyHandle d fs)\<lparr>txDriver := transactionDriver (moneyDriver d fs)\<rparr>"

lemma money_ready: "sqlReady (moneyHandle d fs) fst snd"
  using family_ready [of d fs]
  by (simp add: sqlReady_def serialDriver_def moneyHandle_def transactionDriver_transactional)
    (simp add: transactionDriver_def)

lemma hDialect_money [simp]: "hDialect (moneyHandle d fs) = d"
  by (simp add: moneyHandle_def familyHandle_def hDialect_def)

lemma money_query: "drQuery (txDriver (moneyHandle d fs)) = drQuery (txDriver (familyHandle d fs))"
  by (simp add: moneyHandle_def familyHandle_def transactionDriver_def moneyDriver_def)

lemma money_exec:
  assumes "\<forall>r. headOf d (journalInsert argv) @ r \<noteq> query"
  shows "drExec (txDriver (moneyHandle d fs)) query argv = drExec (txDriver (familyHandle d fs)) query argv"
proof -
  obtain r where "fst (stmtSQL d (journalInsert argv)) = headOf d (journalInsert argv) @ r" using stmt_head by blast
  then have "fst (stmtSQL d (journalInsert argv)) @ diInsertConflictClause d \<noteq> query" using assms by simp
  then show ?thesis by (simp add: moneyHandle_def familyHandle_def transactionDriver_def moneyDriver_def onWorking_def fun_eq_iff)
qed

lemma money_answers:
  assumes fit: "\<And>st. st \<in> set sts \<Longrightarrow> apart d (map (\<lambda>f. f (snd (stmtSQL d st))) fs) st"
    and other: "\<And>st argv. st \<in> set sts \<Longrightarrow> \<forall>r r'. headOf d (journalInsert argv) @ r \<noteq> headOf d st @ r'"
  shows "answers (moneyHandle d fs) fst sts"
proof -
  have family: "answers (familyHandle d fs) fst sts" by (rule family_answers [OF fit])
  have exec: "drExec (txDriver (moneyHandle d fs)) (query @ tail) argv = drExec (txDriver (familyHandle d fs)) (query @ tail) argv"
    if "st \<in> set sts" "stmtSQL d st = (query, argv)" for st query argv tail
  proof (rule money_exec)
    show "\<forall>r. headOf d (journalInsert argv) @ r \<noteq> query @ tail"
      using stmt_head [of d st] other [OF that(1)] that(2) by auto
  qed
  have cl: "ssClassifier (txStore (moneyHandle d fs)) = ssClassifier (txStore (familyHandle d fs))" by (simp add: moneyHandle_def)
  show ?thesis
    unfolding answers_def list_all_iff
  proof (intro ballI)
    fix st assume st: "st \<in> set sts"
    then have f: "answersSelect (familyHandle d fs) fst st" "answersUpdate (familyHandle d fs) fst st" "answersInsert (familyHandle d fs) fst st"
      using family by (simp_all add: answers_def list_all_iff)
    obtain query argv where q: "stmtSQL d st = (query, argv)" by (cases "stmtSQL d st")
    note same = exec [OF st q, of "[]", simplified] exec [OF st q, of "diInsertConflictClause d"]
    show "answersSelect (moneyHandle d fs) fst st \<and> answersUpdate (moneyHandle d fs) fst st \<and> answersInsert (moneyHandle d fs) fst st"
    proof (cases st)
      case (SelectS columns table cs)
      then show ?thesis using f(1) q
        by (simp add: answersSelect_def answersUpdate_def answersInsert_def money_query del: familyHandle_simps(2,3))
    next
      case (UpdateS table as cs)
      then show ?thesis using f(2) q same(1)
        by (simp add: answersSelect_def answersUpdate_def answersInsert_def del: familyHandle_simps(2,3))
    next
      case (InsertS table columns vals)
      have "answersInsert (moneyHandle d fs) fst st = answersInsert (familyHandle d fs) fst st"
        unfolding answersInsert_def InsertS stmt.case hDialect_money familyHandle_simps(1) q [unfolded InsertS] prod.case Let_def same(2) cl
        by (rule refl)
      then show ?thesis using f(3) InsertS by (simp add: answersSelect_def answersUpdate_def)
    qed
  qed
qed

lemma journal_answered: "answersInsertID (moneyHandle (mysql say) fs) fst ''dist_ledger'' (tl ledgerCols) argv"
proof -
  let ?d = "mysql say"
  have d: "diInsertConflictClause ?d = []" "diInsertID ?d = InsertIDLastInsert" by (simp_all add: mysql_def)
  have bound: "stmtSQL ?d (InsertS ''dist_ledger'' (tl ledgerCols) argv) = (fst (stmtSQL ?d (journalInsert argv)), argv)"
    by (simp add: journalInsert_def stmtSQL_numbered insertInto_def)
  have exec: "drExec (txDriver (moneyHandle ?d fs)) (fst (stmtSQL ?d (journalInsert argv))) argv s =
      (case generate (''dist_ledger'', tl ledgerCols, argv) (fst s) of
         (None, tabs') \<Rightarrow> (Inr \<lparr>exRowsAffected = Inr 0, exLastInsertId = Inr 0\<rparr>, (tabs', snd s))
       | (Some rid, tabs') \<Rightarrow> (Inr \<lparr>exRowsAffected = Inr 1, exLastInsertId = Inr rid\<rparr>, (tabs', snd s)))" for s
    using bound
    by (auto simp: moneyHandle_def transactionDriver_def moneyDriver_def onWorking_def d journalInsert_def split: prod.split option.split)
  have fresh: "list_all (\<lambda>r. r ''id'' \<noteq> SInt (freshID rows)) rows" for rows
    using freshID_above [of _ rows "freshID rows"] by (auto simp: list_all_iff)
  show ?thesis
    unfolding answersInsertID_def hDialect_money bound prod.case Let_def d append_Nil2 exec
    using fresh by (auto simp: generate_def Let_def collisionReported_def exec)
qed

subsection \<open>The families of a payout\<close>

definition amountOf :: "sqlval \<Rightarrow> money" where
  "amountOf v = (case v of SInt i \<Rightarrow> word_of_int i | _ \<Rightarrow> 0)"

lemma amountOf_moneyVal [simp]: "amountOf (moneyVal m) = m"
  by (simp add: amountOf_def moneyVal_def)

definition incrementF :: "bool \<Rightarrow> family" where
  "incrementF guarded v = UpdateS ''dist_account''
     [SetSum ''frozen'' (amountOf (v ! 0)), SetSum ''available'' (amountOf (v ! 1)),
      SetSum ''withdrawing'' (amountOf (v ! 2)), SetSum ''withdrawn'' (amountOf (v ! 3)),
      SetSum ''total_earned'' (amountOf (v ! 4)), SetSum ''total_reversed'' (amountOf (v ! 5)), SetNext ''version'']
     ([CondEq ''tenant_id'' (v ! 6), CondEq ''user_id'' (v ! 7)] @
      (if guarded
       then [CondSumNonneg ''frozen'' (amountOf (v ! 8)), CondSumNonneg ''available'' (amountOf (v ! 9)),
             CondSumNonneg ''withdrawing'' (amountOf (v ! 10)), CondSumNonneg ''withdrawn'' (amountOf (v ! 11))]
       else []))"

definition accountSelectF :: family where
  "accountSelectF v = SelectS accountCols ''dist_account'' [CondEq ''tenant_id'' (v ! 0), CondEq ''user_id'' (v ! 1)]"

definition paidF :: family where
  "paidF v = UpdateS ''dist_withdraw''
     [SetVal ''state'' (v ! 0), SetNext ''version'', SetVal ''invoice_no'' (v ! 1), SetVal ''operator'' (v ! 2), SetVal ''paid_at'' (v ! 3)]
     [CondEq ''id'' (v ! 4), CondEq ''state'' (v ! 5), CondEq ''version'' (v ! 6)]"

definition rejectedF :: family where
  "rejectedF v = UpdateS ''dist_withdraw''
     [SetVal ''state'' (v ! 0), SetNext ''version'', SetVal ''fail_reason'' (v ! 1), SetVal ''operator'' (v ! 2), SetVal ''audited_at'' (v ! 3)]
     [CondEq ''id'' (v ! 4), CondEq ''state'' (v ! 5), CondEq ''version'' (v ! 6)]"

definition moneyFamilies :: "family \<Rightarrow> family list" where
  "moneyFamilies f = [f, withdrawalSelectF, incrementF True, incrementF False, accountSelectF, InsertS ''dist_account'' accountCols]"

lemmas money_family_defs = moneyFamilies_def withdrawalSelectF_def incrementF_def accountSelectF_def
  withdrawalSelectS_def idIs_def incrementUpdateS_def accountSelectS_def accountInsertS_def userConds_def

lemmas money_head_simps = head_simps addTo_def staysNonNegative_def

text \<open>Which transitions a family of updates answers.\<close>

definition paidMoves :: withdrawal_moves where
  "paidMoves = {(from, to, tr). wtFailReason tr = [] \<and> wtInvoiceNo tr \<noteq> [] \<and> wtOperator tr \<noteq> [] \<and> wtAuditedAt tr = 0 \<and> wtPaidAt tr \<noteq> 0}"

definition rejectedMoves :: withdrawal_moves where
  "rejectedMoves = {(from, to, tr). wtFailReason tr \<noteq> [] \<and> wtInvoiceNo tr = [] \<and> wtOperator tr \<noteq> [] \<and> wtAuditedAt tr \<noteq> 0 \<and> wtPaidAt tr = 0}"

definition updatesWithdrawals :: "family \<Rightarrow> bool" where
  "updatesWithdrawals f \<longleftrightarrow> (\<forall>v. \<exists>as cs. f v = UpdateS ''dist_withdraw'' as cs)"

lemma families_update: "updatesWithdrawals paidF" "updatesWithdrawals rejectedF"
  by (simp_all add: updatesWithdrawals_def paidF_def rejectedF_def)

lemma increment_apart:
  fixes d :: dialect defines "d \<equiv> mysql (\<lambda>_. [])"
  assumes "updatesWithdrawals f"
  shows "apart d (map (\<lambda>f. f (snd (stmtSQL d (incrementUpdateS delta)))) (moneyFamilies f)) (incrementUpdateS delta)"
proof (rule apartI)
  let ?argv = "snd (stmtSQL d (incrementUpdateS delta))"
  obtain as cs where f: "f ?argv = UpdateS ''dist_withdraw'' as cs" using assms(2) unfolding updatesWithdrawals_def by blast
  show "incrementUpdateS delta \<in> set (map (\<lambda>f. f ?argv) (moneyFamilies f))"
    by (cases "dRequireNonNegative delta") (simp_all add: d_def money_family_defs money_head_simps)
  show "\<forall>q\<in>set (map (\<lambda>f. f ?argv) (moneyFamilies f)). q = incrementUpdateS delta \<or>
      length (snd (stmtSQL d q)) \<noteq> length ?argv \<or> (\<forall>r r'. headOf d q @ r \<noteq> headOf d (incrementUpdateS delta) @ r')"
    using f by (cases "dRequireNonNegative delta") (simp_all add: d_def money_family_defs money_head_simps)
qed

lemma account_apart:
  fixes d :: dialect defines "d \<equiv> mysql (\<lambda>_. [])"
  assumes "updatesWithdrawals f"
  shows "apart d (map (\<lambda>f. f (snd (stmtSQL d (accountSelectS k)))) (moneyFamilies f)) (accountSelectS k)"
    "apart d (map (\<lambda>f. f (snd (stmtSQL d (accountInsertS a)))) (moneyFamilies f)) (accountInsertS a)"
    "apart d (map (\<lambda>f. f (snd (stmtSQL d (withdrawalSelectS i)))) (moneyFamilies f)) (withdrawalSelectS i)"
proof -
  have f: "\<exists>as cs. f v = UpdateS ''dist_withdraw'' as cs" for v using assms(2) by (simp add: updatesWithdrawals_def)
  show "apart d (map (\<lambda>f. f (snd (stmtSQL d (accountSelectS k)))) (moneyFamilies f)) (accountSelectS k)"
    unfolding d_def using f [of "snd (stmtSQL d (accountSelectS k))"]
    by (intro apartI) (auto simp: d_def money_family_defs money_head_simps)
  show "apart d (map (\<lambda>f. f (snd (stmtSQL d (accountInsertS a)))) (moneyFamilies f)) (accountInsertS a)"
    unfolding d_def using f [of "snd (stmtSQL d (accountInsertS a))"]
    by (intro apartI) (auto simp: d_def money_family_defs money_head_simps)
  show "apart d (map (\<lambda>f. f (snd (stmtSQL d (withdrawalSelectS i)))) (moneyFamilies f)) (withdrawalSelectS i)"
    unfolding d_def using f [of "snd (stmtSQL d (withdrawalSelectS i))"]
    by (intro apartI) (auto simp: d_def money_family_defs money_head_simps)
qed

lemma moves_apart:
  fixes d :: dialect defines "d \<equiv> mysql (\<lambda>_. [])"
  shows "(from, to, tr) \<in> paidMoves \<Longrightarrow>
      apart d (map (\<lambda>f. f (snd (stmtSQL d (withdrawalUpdateS k from to n tr)))) (moneyFamilies paidF)) (withdrawalUpdateS k from to n tr)"
    "(from, to, tr) \<in> rejectedMoves \<Longrightarrow>
      apart d (map (\<lambda>f. f (snd (stmtSQL d (withdrawalUpdateS k from to n tr)))) (moneyFamilies rejectedF)) (withdrawalUpdateS k from to n tr)"
  unfolding d_def
  by (rule apartI; simp add: money_family_defs money_head_simps paidMoves_def rejectedMoves_def paidF_def rejectedF_def
      withdrawalUpdateS_def withdrawalSets_def)+

lemma journal_head:
  "\<forall>r r'. headOf (mysql say) (journalInsert argv) @ r \<noteq> headOf (mysql say) (UpdateS ''dist_withdraw'' as cs) @ r'"
  "\<forall>r r'. headOf (mysql say) (journalInsert argv) @ r \<noteq> headOf (mysql say) (UpdateS ''dist_account'' as cs) @ r'"
  "\<forall>r r'. headOf (mysql say) (journalInsert argv) @ r \<noteq> headOf (mysql say) (InsertS ''dist_account'' cl vs) @ r'"
  "\<forall>r r'. headOf (mysql say) (journalInsert argv) @ r \<noteq> headOf (mysql say) (SelectS cl t cs) @ r'"
  by (simp_all add: journalInsert_def money_head_simps)

lemma journal_other:
  assumes "st = withdrawalSelectS i \<or> st = withdrawalUpdateS i from to n tr \<or> st = incrementUpdateS delta \<or> st = accountSelectS k \<or>
    st = accountInsertS a"
  shows "\<forall>r r'. headOf (mysql say) (journalInsert argv) @ r \<noteq> headOf (mysql say) st @ r'"
  using assms
  by (elim disjE) (simp_all only: withdrawalSelectS_def withdrawalUpdateS_def incrementUpdateS_def accountSelectS_def accountInsertS_def
      journal_head not_False_eq_True simp_thms)

lemma money_statements_answered:
  assumes "updatesWithdrawals f"
    and "\<And>from to tr k n. (from, to, tr) \<in> moves \<Longrightarrow> apart (mysql (\<lambda>_. []))
      (map (\<lambda>f. f (snd (stmtSQL (mysql (\<lambda>_. [])) (withdrawalUpdateS k from to n tr)))) (moneyFamilies f)) (withdrawalUpdateS k from to n tr)"
  shows "answersMoney moves (moneyHandle (mysql (\<lambda>_. [])) (moneyFamilies f)) now fst"
  unfolding answersMoney_def answersMoves_def
proof (intro conjI allI ballI)
  show "answers (moneyHandle (mysql (\<lambda>_. [])) (moneyFamilies f)) fst [withdrawalSelectS k]" for k
    by (rule money_answers) (auto simp only: list.set insert_iff empty_iff account_apart [OF assms(1)] intro!: journal_other)
  show "case m of (from, to, tr) \<Rightarrow> \<forall>k n. answers (moneyHandle (mysql (\<lambda>_. [])) (moneyFamilies f)) fst [withdrawalUpdateS k from to n tr]"
    if "m \<in> moves" for m
    using that by (cases m) (auto simp only: list.set insert_iff empty_iff prod.case intro!: money_answers assms(2) journal_other)
  show "answers (moneyHandle (mysql (\<lambda>_. [])) (moneyFamilies f)) fst
      [incrementUpdateS delta, accountSelectS (dKey delta), accountInsertS (a\<lparr>aUpdatedAt := now\<rparr>)]" for delta a
    by (rule money_answers)
      (auto simp only: list.set insert_iff empty_iff account_apart [OF assms(1)] increment_apart [OF assms(1)] intro!: journal_other)
  show "answersInsertID (moneyHandle (mysql (\<lambda>_. [])) (moneyFamilies f)) fst ''dist_ledger'' (tl ledgerCols) (tl (ledgerValues e))" for e
    by (rule journal_answered)
qed

subsection \<open>A stored withdrawal\<close>

definition storedLedger :: ledger where
  "storedLedger = demoLedger (unixEpoch + 1000)"

definition payingLedger :: ledger where
  "payingLedger = storedLedger\<lparr>lPayout := Some (\<lambda>_. Inr \<lparr>psPaid = True, psInvoiceNo = ''INV-1'', psFailReason = []\<rparr>)\<rparr>"

definition withdrawalAt :: "withdrawal_state \<Rightarrow> withdrawal" where
  "withdrawalAt st = heldWithdrawal\<lparr>wState := st\<rparr>"

definition payoutAccount :: account where
  "payoutAccount = zeroAccount\<lparr>aKey := UserKey 1 10, aAvailable := 100, aWithdrawing := 500, aTotalEarned := 600, aVersion := 4,
     aUpdatedAt := 0\<rparr>"

definition payoutStore :: "withdrawal_state \<Rightarrow> mem_store" where
  "payoutStore st = newStore\<lparr>stData := newData\<lparr>dWithdrawals := [7 \<mapsto> withdrawalAt st], dAccounts := [UserKey 1 10 \<mapsto> payoutAccount]\<rparr>\<rparr>"

definition payoutTables :: "withdrawal_state \<Rightarrow> tables" where
  "payoutTables st = (\<lambda>_. [])(''dist_withdraw'' := [rowFrom withdrawalCols (withdrawalValues (withdrawalAt st))],
     ''dist_account'' := [rowFrom accountCols (accountValues payoutAccount)])"

lemma payoutStore_simps:
  "dWithdrawals (stData (payoutStore st)) = [7 \<mapsto> withdrawalAt st]" "dAccounts (stData (payoutStore st)) = [UserKey 1 10 \<mapsto> payoutAccount]"
  "dLedgerIDs (stData (payoutStore st)) = []" "\<not> stClosed (payoutStore st)"
  by (simp_all add: payoutStore_def newStore_def newData_def)

lemma payoutTables_held:
  assumes "st = WithdrawalApplied \<or> st = WithdrawalApproved"
  shows "moneyTables (payoutTables st) (payoutTables st) (stData (payoutStore st))"
proof -
  have "map (rowFrom withdrawalCols (withdrawalValues (withdrawalAt st))) withdrawalCols = withdrawalValues (withdrawalAt st)"
    by (rule map_rowFrom) (simp_all add: withdrawalCols_def withdrawalValues_def)
  then have w: "withdrawalIn 7 (withdrawalAt st) (rowFrom withdrawalCols (withdrawalValues (withdrawalAt st)))"
    using assms by (auto simp: withdrawalIn_def withdrawalHeld_def withdrawalAt_def heldWithdrawal_def storable_def in64_def)
  have "map (rowFrom accountCols (accountValues payoutAccount)) accountCols = accountValues payoutAccount"
    by (rule map_rowFrom) (simp_all add: accountCols_def accountValues_def)
  then have "accountRow (UserKey 1 10) payoutAccount (rowFrom accountCols (accountValues payoutAccount))"
    by (auto simp: accountRow_def payoutAccount_def storable_def intro!: exI [of _ 0])
  then have "holdsMap accountRow (dAccounts (stData (payoutStore st))) (payoutTables st ''dist_account'')"
    by (auto simp: holdsMap_def payoutStore_simps payoutTables_def intro!: exI [of _ "[UserKey 1 10]"])
  moreover have "holdsMap withdrawalIn (dWithdrawals (stData (payoutStore st))) (payoutTables st ''dist_withdraw'')"
    using w by (auto simp: holdsMap_def payoutStore_simps payoutTables_def intro!: exI [of _ "[7]"])
  moreover have "holdsJournal (stData (payoutStore st)) (payoutTables st ''dist_ledger'')"
    by (simp add: holdsJournal_def payoutStore_simps payoutTables_def)
  ultimately show ?thesis by (simp add: moneyTables_def)
qed

lemma stored_row:
  assumes "wtFailReason tr = [] \<or> wtFailReason tr = ''no''" "wtInvoiceNo tr = [] \<or> wtInvoiceNo tr = ''INV-1''" "wtOperator tr = ''root''"
    and to: "to = WithdrawalPaid \<or> to = WithdrawalRejected" and "wtAuditedAt tr = 0 \<or> wtAuditedAt tr = unixEpoch + 1000" "wtPaidAt tr = 0 \<or> wtPaidAt tr = unixEpoch + 1000"
  shows "fitsValues ''dist_withdraw'' (withdrawalValues (withdrawalMoved to tr (withdrawalAt st)))"
proof -
  have "in64 (withdrawalStateCode to)" using to by (auto simp: in64_def)
  then show ?thesis
    using assms
    by (auto simp: withdrawalMoved_def withdrawalPatch_def withdrawalAt_def heldWithdrawal_def fitsValues_def withdrawalValues_def
        table_columns tableWithdrawDef_def valueFits_def in64_def moneyVal_def instantOrNull_def unixNano_def unixEpoch_def
        sizeIdemKey_def sizeRemark_def sizeChannel_def Let_def)
qed

lemma payoutAccount_fits:
  assumes "deltaApply delta payoutAccount = Inr a"
  shows "fitsValues ''dist_account'' (accountValues (a\<lparr>aVersion := aVersion a + 1, aUpdatedAt := 0\<rparr>))"
proof -
  have "in64 1" "in64 10" "in64 5" by (simp_all add: in64_def)
  then show ?thesis using deltaApply_InrD(7,8) [OF assms]
    by (auto simp: fitsValues_def accountValues_def account_columns tableAccountDef_def payoutAccount_def zeroAccount_def valueFits_def
        moneyVal_def instantOrNull_def)
qed

lemma payout_delta:
  assumes "st = WithdrawalApplied \<or> st = WithdrawalApproved"
  shows "storableDelta (unixEpoch + 1000) (stData (payoutStore st)) (releasedDelta (withdrawalAt st) at)"
    "storableDelta (unixEpoch + 1000) (stData (payoutStore st)) (payoutDelta l (withdrawalAt st))"
proof -
  have w: "withdrawalOutstanding (withdrawalAt st) = 500" "wKey (withdrawalAt st) = UserKey 1 10"
    using assms by (auto simp: withdrawalOutstanding_def withdrawalAt_def heldWithdrawal_def withdrawalReserved_def)
  have acct: "accountBefore (dAccounts (stData (payoutStore st))) (UserKey 1 10) = payoutAccount"
    by (simp add: accountBefore_def payoutStore_simps)
  have run: "\<exists>a. deltaApply (releasedDelta (withdrawalAt st) at) payoutAccount = Inr a" "\<exists>a. deltaApply (payoutDelta l (withdrawalAt st)) payoutAccount = Inr a"
    by (simp_all add: releasedDelta_def payoutDelta_def w deltaApply_def payoutAccount_def zeroAccount_def zeroDelta_def moneyAdd_def
        safemathAdd_exact in64_def)
  have "\<not> deltaIsZero (releasedDelta (withdrawalAt st) at)" "\<not> deltaIsZero (payoutDelta l (withdrawalAt st))"
    "dKey (releasedDelta (withdrawalAt st) at) = UserKey 1 10" "dKey (payoutDelta l (withdrawalAt st)) = UserKey 1 10"
    by (simp_all add: deltaIsZero_def releasedDelta_def payoutDelta_def w)
  then show "storableDelta (unixEpoch + 1000) (stData (payoutStore st)) (releasedDelta (withdrawalAt st) at)"
    "storableDelta (unixEpoch + 1000) (stData (payoutStore st)) (payoutDelta l (withdrawalAt st))"
    using run payoutAccount_fits by (auto simp: storableDelta_def acct storable_def in64_def)
qed

lemma payout_entries:
  "storableEntry (releasedEntry (withdrawalAt st) LedgerWithdrawRefund reason at a)" "storableEntry (payoutEntry l (withdrawalAt st) a)"
proof -
  have "length (formatInt 7) = 1" by code_simp
  then show "storableEntry (releasedEntry (withdrawalAt st) LedgerWithdrawRefund reason at a)" "storableEntry (payoutEntry l (withdrawalAt st) a)"
    by (simp_all add: storableEntry_def releasedEntry_def payoutEntry_def Let_def ledgerInts_def withdrawalAt_def heldWithdrawal_def in64_def)
qed

definition rejection :: withdraw_decision where
  "rejection = \<lparr>wdTenantID = 1, wdWithdrawalID = 7, wdOperator = ''root'', wdReason = ''no''\<rparr>"


definition payment :: payout_outcome where
  "payment = \<lparr>poTenantID = 1, poWithdrawalID = 7, poOperator = ''root'', poInvoiceNo = ''INV-1'', poFailReason = []\<rparr>"

lemma payment_payable:
  assumes "l = storedLedger \<or> l = payingLedger"
  shows "payable paidMoves (unixEpoch + 1000) l (stData (payoutStore WithdrawalApproved)) ''INV-1'' ''root'' (withdrawalAt WithdrawalApproved)"
proof -
  let ?tr = "payoutOf l ''INV-1'' ''root''"
  have tr: "wtFailReason ?tr = []" "wtInvoiceNo ?tr = ''INV-1''" "wtOperator ?tr = ''root''" "wtAuditedAt ?tr = 0" "wtPaidAt ?tr = unixEpoch + 1000"
    using assms by (auto simp: payoutOf_def noTransition_def payingLedger_def storedLedger_def demoLedger_def)
  have "storableWithdrawal paidMoves (stData (payoutStore WithdrawalApproved)) 7 WithdrawalApproved WithdrawalPaid ?tr"
    using stored_row [of ?tr WithdrawalPaid] tr
    by (simp add: storableWithdrawal_def paidMoves_def payoutStore_simps storable_def in64_def unixEpoch_def)
  moreover have "wID (withdrawalAt WithdrawalApproved) = 7" "wState (withdrawalAt WithdrawalApproved) = WithdrawalApproved"
    by (simp_all add: withdrawalAt_def heldWithdrawal_def)
  ultimately show ?thesis using payout_delta(2) [of WithdrawalApproved] payout_entries(2) by (simp add: payable_def)
qed

lemma paid_answered: "answersMoney paidMoves (moneyHandle (mysql (\<lambda>_. [])) (moneyFamilies paidF)) now fst"
  by (rule money_statements_answered [OF families_update(1) moves_apart(1)])


theorem mark_paid_over_sql_witness:
  "let h = moneyHandle (mysql (\<lambda>_. [])) (moneyFamilies paidF) in
   carried snd (moneyTables (payoutTables WithdrawalApproved)) (=)
     (MarkWithdrawPaidOn (sqlTx h (unixEpoch + 1000)) (sqlView (txDriver h)) (sqlUpdateOf (\<lambda>_. None) h) storedLedger payment)
     (MarkWithdrawPaid storedLedger payment)
     (payoutTables WithdrawalApproved, payoutTables WithdrawalApproved) (payoutStore WithdrawalApproved)"
  unfolding Let_def
proof (rule mark_paid_over_sql [OF money_ready paid_answered])
  show "\<forall>w. dWithdrawals (stData (payoutStore WithdrawalApproved)) (poWithdrawalID payment) = Some w \<longrightarrow>
      payable paidMoves (unixEpoch + 1000) storedLedger (stData (payoutStore WithdrawalApproved)) (poInvoiceNo payment) (poOperator payment) w"
    using payment_payable [of storedLedger] by (auto simp: payoutStore_simps payment_def)
qed (simp_all add: payoutTables_held payoutStore_simps)

end
