(* ===== verification/SqlLedger.thy ===== *)
theory SqlLedger
  imports SqlPayoutRun
begin

text \<open>
  The operations of the ledger over the SQL store, from their guards to the commit, are those over the
  in-memory store: agents, buyers, frozen commissions and decisions on withdrawals.
\<close>

subsection \<open>Agents and buyers\<close>



subsection \<open>Frozen commissions and decisions on withdrawals\<close>

definition answersCommissions :: "'db tx_handle \<Rightarrow> gotime \<Rightarrow> ('db \<Rightarrow> tables) \<Rightarrow> bool" where
  "answersCommissions h now tabs \<longleftrightarrow>
     (\<forall>k from to n. answers h tabs [commissionUpdateS k from to n, commissionSelectS k, settledStampS k now])"



text \<open>
  Recording that the payout channel failed, whatever state the withdrawal is in.
\<close>

theorem payout_failure_over_sql:
  fixes cur :: withdrawal
  defines "tr reason opr \<equiv> noTransition\<lparr>wtFailReason := if length reason > maxReasonLen then take maxReasonLen reason else reason,
    wtOperator := opr\<rparr>"
  defines "moves reason opr \<equiv> {(st, WithdrawalPayFailed, tr reason opr) | st. True}"
  assumes "sqlReady h tabs committed" "answersMoves (moves reason opr) h tabs" "withdrawalTable before (committed db) (stData s)"
    and "\<forall>w. dWithdrawals (stData s) (wID cur) = Some w \<longrightarrow>
      storableWithdrawal (moves reason opr) (stData s) (wID cur) (wState w) WithdrawalPayFailed (tr reason opr)"
    and "\<not> stClosed s"
  shows "carried committed (withdrawalTable before) (=) (recordPayoutFailureOn (sqlTx h now) (sqlUpdateOf ended h) cur reason opr)
    (recordPayoutFailure cur reason opr) db s"
proof -
  have "transactional (txDriver h) committed" using assms(3) by (simp add: sqlReady_def serialDriver_def)
  then show ?thesis
    unfolding engine_on_memory(6) [symmetric] recordPayoutFailureOn_def
    by (intro carried_update [where I = "withdrawalsHeld (moves reason opr) h tabs before" and C = "answersMoves (moves reason opr) h tabs"
          and tabs = tabs] bodies_uncommitted bodies_logged sql_withdrawals.payout_failure withdrawalsHeld_iff assms(3-5,7))
      (use assms(6) in \<open>auto simp: tr_def\<close>)
qed

subsection \<open>Witnesses\<close>

definition agentStore :: mem_store where
  "agentStore = newStore\<lparr>stData := newData\<lparr>dAgents := [UserKey 1 10 \<mapsto> heldAgent]\<rparr>\<rparr>"

lemma agentStore_tables: "relationTables heldTables heldTables (stData agentStore)"
proof -
  have "stData agentStore = txD heldTx" by (simp add: agentStore_def heldTx_def)
  then have "holdsMap agentRow (dAgents (stData agentStore)) (heldTables ''dist_agent'')" using heldTables_agents by simp
  moreover have "holdsMap bindingRow (dBindings (stData agentStore)) (heldTables ''dist_binding'')"
    by (auto simp: agentStore_def newData_def heldTables_def holdsMap_def)
  ultimately show ?thesis by (simp add: relationTables_def)
qed

lemma agentStore_simps: "dAgents (stData agentStore) = [UserKey 1 10 \<mapsto> heldAgent]" "dBindings (stData agentStore) = Map.empty"
  "\<not> stClosed agentStore"
  by (simp_all add: agentStore_def newStore_def newData_def)



definition commissionStore :: mem_store where
  "commissionStore = newStore\<lparr>stData := txD commissionTx\<rparr>"

lemma heldCommission_storable:
  assumes "to = CommissionFrozen \<or> to = CommissionPending"
  shows "storableMove (unixEpoch + 2000) (stData commissionStore) 5 to"
  using assms
  by (auto simp: storableMove_def storable_def commissionStore_def commissionTx_def commissionMoved_def fitsValues_def
      commissionRowValues_def table_columns tableCommissionDef_def heldCommission_def zeroCommission_def valueFits_def in64_def
      moneyVal_def instantOrNull_def unixNano_def nullableString_def sizeIdemKey_def sizeOrderID_def sizeItemID_def)


definition withdrawalStore :: mem_store where
  "withdrawalStore = newStore\<lparr>stData := txD withdrawalTx\<rparr>"

definition approvalRequest :: withdraw_decision where
  "approvalRequest = \<lparr>wdTenantID = 1, wdWithdrawalID = 7, wdOperator = ''root'', wdReason = []\<rparr>"

lemma approval_storable:
  assumes "tr = approvalOf storedLedger approvalRequest"
  shows "wtFailReason tr = []" "wtInvoiceNo tr = []" "wtOperator tr = ''root''" "wtAuditedAt tr = unixEpoch + 1000" "wtPaidAt tr = 0"
    "storableWithdrawal {(WithdrawalApplied, WithdrawalApproved, tr)} (stData withdrawalStore) 7 WithdrawalApplied WithdrawalApproved tr"
proof -
  show tr: "wtFailReason tr = []" "wtInvoiceNo tr = []" "wtOperator tr = ''root''" "wtAuditedAt tr = unixEpoch + 1000" "wtPaidAt tr = 0"
    by (simp_all add: assms approvalOf_def noTransition_def approvalRequest_def storedLedger_def demoLedger_def)
  have "withdrawalMoved WithdrawalApproved tr heldWithdrawal = heldWithdrawal\<lparr>wState := WithdrawalApproved, wVersion := 4,
      wOperator := ''root'', wAuditedAt := unixEpoch + 1000\<rparr>"
    by (simp add: withdrawalMoved_def withdrawalPatch_def tr heldWithdrawal_def unixEpoch_def)
  then have "fitsValues ''dist_withdraw'' (withdrawalValues (withdrawalMoved WithdrawalApproved tr heldWithdrawal))"
    by (simp add: fitsValues_def withdrawalValues_def table_columns tableWithdrawDef_def heldWithdrawal_def valueFits_def in64_def
        moneyVal_def instantOrNull_def unixNano_def sizeIdemKey_def sizeRemark_def sizeChannel_def)
  then show "storableWithdrawal {(WithdrawalApplied, WithdrawalApproved, tr)} (stData withdrawalStore) 7
      WithdrawalApplied WithdrawalApproved tr"
    by (simp add: storableWithdrawal_def tr withdrawalStore_def withdrawalTx_def storable_def in64_def)
qed


end
