(* ===== verification/Errors.thy ===== *)
theory Errors
  imports SqlErrors
begin

text \<open>
  errors.go: the sentinel errors with their texts, the three error types that carry detail, what
  \<open>errors.Is\<close> finds in an error of the ledger, and how the classifier of the SQL store reads them.
\<close>

subsection \<open>Sentinels\<close>

datatype sentinel =
    InvalidArgument | NotFound | Duplicate | NoPayoutChannel | IllegalTransition | Conflict | Cycle | DepthExceeded
  | ParentAlreadySet | InvalidConfig | InsufficientBalance | Overflow | Closed | BindingLocked

fun sentinelText :: "sentinel \<Rightarrow> string" where
  "sentinelText InvalidArgument = ''distledger: invalid argument''"
| "sentinelText NotFound = ''distledger: not found''"
| "sentinelText Duplicate = ''distledger: duplicate idempotency key''"
| "sentinelText NoPayoutChannel = ''distledger: no payout channel configured''"
| "sentinelText IllegalTransition = ''distledger: illegal state transition''"
| "sentinelText Conflict = ''distledger: concurrent modification''"
| "sentinelText Cycle = ''distledger: relation cycle detected''"
| "sentinelText DepthExceeded = ''distledger: relation depth exceeded''"
| "sentinelText ParentAlreadySet = ''distledger: parent already set''"
| "sentinelText InvalidConfig = ''distledger: invalid config''"
| "sentinelText InsufficientBalance = ''distledger: insufficient balance for reversal''"
| "sentinelText Overflow = ''distledger: amount overflow''"
| "sentinelText Closed = ''distledger: ledger closed''"
| "sentinelText BindingLocked = ''distledger: buyer already bound to another agent''"

subsection \<open>Errors that carry detail\<close>

record field_error =
  feField :: string
  feReason :: string

definition fieldErrorText :: "field_error \<Rightarrow> string" where
  "fieldErrorText e = ''distledger: invalid '' @ feField e @ '': '' @ feReason e"

definition fieldErrorUnwrap :: "field_error \<Rightarrow> sentinel" where
  "fieldErrorUnwrap e = InvalidArgument"

definition newFieldErr :: "string \<Rightarrow> string \<Rightarrow> field_error" where
  "newFieldErr field reason = \<lparr>feField = field, feReason = reason\<rparr>"

record transition_error =
  teKind :: string
  teFrom :: string
  teTo :: string

definition transitionErrorText :: "transition_error \<Rightarrow> string" where
  "transitionErrorText e = ''distledger: illegal '' @ teKind e @ '' transition: '' @ teFrom e @ '' -> '' @ teTo e"

definition transitionErrorUnwrap :: "transition_error \<Rightarrow> sentinel" where
  "transitionErrorUnwrap e = IllegalTransition"

text \<open>The id is any value; here it is its text.\<close>

record conflict_error =
  ceKind :: string
  ceID :: string
  ceExpected :: int
  ceActual :: int

definition conflictErrorText :: "conflict_error \<Rightarrow> string" where
  "conflictErrorText e = ''distledger: '' @ ceKind e @ '' '' @ ceID e @ '' modified concurrently (expected version '' @
     formatInt (ceExpected e) @ '', actual '' @ formatInt (ceActual e) @ '')''"

definition conflictErrorUnwrap :: "conflict_error \<Rightarrow> sentinel" where
  "conflictErrorUnwrap e = Conflict"

subsection \<open>The errors of the model\<close>

text \<open>
  The values of \<open>gerror\<close> with the details the model leaves out: the reason of a field error, the text of any other error and the id of
  a conflict are functions of what is kept.
\<close>

fun sentinelOf :: "gerror \<Rightarrow> sentinel option" where
  "sentinelOf (FieldError f) = Some (fieldErrorUnwrap (newFieldErr f []))"
| "sentinelOf ErrNotFound = Some NotFound"
| "sentinelOf ErrDuplicate = Some Duplicate"
| "sentinelOf ErrNoPayoutChannel = Some NoPayoutChannel"
| "sentinelOf (TransitionError k f t) = Some (transitionErrorUnwrap \<lparr>teKind = k, teFrom = f, teTo = t\<rparr>)"
| "sentinelOf (ConflictError k n m) = Some (conflictErrorUnwrap \<lparr>ceKind = k, ceID = [], ceExpected = n, ceActual = m\<rparr>)"
| "sentinelOf ErrCycle = Some Cycle"
| "sentinelOf ErrDepthExceeded = Some DepthExceeded"
| "sentinelOf ErrParentAlreadySet = Some ParentAlreadySet"
| "sentinelOf ErrInvalidConfig = Some InvalidConfig"
| "sentinelOf ErrInsufficientBalance = Some InsufficientBalance"
| "sentinelOf ErrOverflow = Some Overflow"
| "sentinelOf ErrClosed = Some Closed"
| "sentinelOf ErrBindingLocked = Some BindingLocked"
| "sentinelOf (ErrOther s) = None"

fun ledgerText :: "(string \<Rightarrow> string) \<Rightarrow> (string \<Rightarrow> string) \<Rightarrow> gerror \<Rightarrow> string" where
  "ledgerText why ident (FieldError f) = fieldErrorText (newFieldErr f (why f))"
| "ledgerText why ident (TransitionError k f t) = transitionErrorText \<lparr>teKind = k, teFrom = f, teTo = t\<rparr>"
| "ledgerText why ident (ConflictError k n m) =
     conflictErrorText \<lparr>ceKind = k, ceID = ident k, ceExpected = n, ceActual = m\<rparr>"
| "ledgerText why ident (ErrOther s) = why s"
| "ledgerText why ident e = (case sentinelOf e of Some s \<Rightarrow> sentinelText s | None \<Rightarrow> [])"

lemma conflict_sentinel: "isConflict e \<longleftrightarrow> sentinelOf e = Some Conflict"
  by (cases e) (simp_all add: isConflict_def fieldErrorUnwrap_def transitionErrorUnwrap_def conflictErrorUnwrap_def)

lemma sentinelText_inj: "sentinelText s = sentinelText s' \<longleftrightarrow> s = s'"
  by (cases s; cases s') simp_all

subsection \<open>How the SQL store reads them\<close>

text \<open>No sentinel is taken for a duplicate key or for a transient failure of the database.\<close>

lemma sentinel_phrases: "\<not> list_ex (\<lambda>p. containsText p (map lowerChar (sentinelText s))) (retryablePhrases @ duplicatePhrases)"
  by (cases s) (simp_all add: retryablePhrases_def duplicatePhrases_def lowerChar_def)

theorem sentinels_not_classified:
  assumes "sentinelOf e = Some s" "ledgerText why ident e = sentinelText s"
  shows "\<not> duplicateKey (ledgerText why ident) (Ledger e) \<and> \<not> retryable (ledgerText why ident) (Ledger e)"
proof -
  have "errorCode (Ledger e) = None" by (simp add: errorCode_def)
  then show ?thesis
    using sentinel_phrases [of s] assms(2)
    by (simp add: duplicateKey_def retryable_def numericDuplicate_def numericRetryable_def containsPhrase_def Let_def)
qed

end
