(* ===== verification/Spec2Isabelle.thy ===== *)
theory Spec2Isabelle
  imports SelfAudit Names Clock SqlAppend SqlWithdrawals SqlCommissions SqlRetry SqlErrors SqlReconciled
    SqlMigrate SqlLedger SqlPayouts Errors
begin

text \<open>
  A verification library for distledger, a multi-level commission ledger written in Go: sales
  agents form a relation tree per tenant, a paid order credits the agents above its buyer, a refund
  claws the credit back, a settlement makes it available after a freeze, and a withdrawal pays it
  out. Every movement of money changes an account row and appends an immutable journal entry.

  The parts of the program and their theories (paths are under src/).

  \<^item> Values. SafeMath: internal/safemath. Money: money.go (rates, rounding, amounts, decimal text,
    JSON). Strconv: the decimal conversions of Go's strconv. Keys: keys.go and idem.go. States: the
    two state machines of state.go and withdraw.go. Model: the structs, buckets and deltas of
    model.go and withdraw.go. Rules: rule.go. Events: event.go and the request types of payout.go.
    Names: the String methods of the enumerations. Clock: the settable clock of clock.go.
    Errors: errors.go, the sentinels, the error types, their texts and what they unwrap to.
  \<^item> The store, store/memory. MemStore: memory.go, the maps and indexes of the data, the undo log,
    rollback, View and Update. MemWriter: writer.go and the writes of withdraw.go. MemReader:
    reader.go and the reads of withdraw.go, with the page sizes of store.go. The two sorted indexes
    are instances of the locale \<open>ordered_index\<close> of OrderedIndex.
  \<^item> The SQL store, store/sql and the dialects store/mysql, store/postgres, store/sqlite. SqlDialect:
    dialect.go and the three dialects (quoting, placeholders, types, classification of driver
    errors, nullable instants). SqlSchema: schema.go and its DDL. SqlTx: the lower half of store.go
    (options, View, Update, runTx, the statement helpers). SqlScan and SqlRead: the columns, scans
    and queries of store.go and withdraw.go. SqlWrite: write.go and the writes of withdraw.go.
    SqlMigrate: migrate.go. SqlReconcile: reconcile.go.
  \<^item> The engine. LedgerOps: ledger.go (binding, depth walk, queries). Accrual: accrual.go. Settle:
    settle.go. Reversal: reversal.go. Risk: risk.go. Payout: payout.go. SelfCheck: selfcheck.go.
  \<^item> The port between them. Ports: the interfaces Reader, Writer and Tx of store.go as records of
    operations, the in-memory store as such a record, and the engine's operations that write one
    record (binding, freezing, approving, recording a failed payout) over any port, as the Go code has
    them. PayoutPort: rejections and payouts over any port. \<open>engine_on_memory\<close> and \<open>payouts_on_memory\<close>
    say that over the in-memory store they are those of LedgerOps, Risk and Payout.
  \<^item> The whole. Service: the ledger as a transition system whose steps are the calls of the public
    API, or the single transactions of the two operations that run several (the rounds of Maintain,
    and what follows the channel's answer in PayWithdraw), with free rules, clock, resolvers and
    arguments in each step. Demo: a small concrete run, which the witnesses use.

  How the model corresponds to the code. A Go int64 amount is a \<open>64 word\<close> (type \<open>money\<close>): sums wrap,
  comparisons are signed, and the overflow checks of the code are written out. Ids, versions,
  counters, dates (nanoseconds since the zero time) and rates are \<open>int\<close>: the code compares and
  increments them only. Strings are byte lists. Errors are values of \<open>gerror\<close>, one constructor per
  error value or type, without the message text (Errors gives it). A store transaction is a state-passing function
  (\<open>step\<close>) that returns an error or a value; \<open>andThen\<close> is the early return on error, \<open>attempt\<close> is an
  error the code inspects, \<open>loopM\<close> a loop over a slice. A Go map is a HOL map, a slice a list. The
  store under the engine is the memory store (but for Ports and the theories on it), whose transactions hold one lock: transactions are sequential, and
  concurrency is the interleaving of transactions, which the steps of Service allow freely.

  The SQL store is written over a record \<open>driver\<close> of the calls of database/sql it makes, with an
  arbitrary connection state: the driver and the database are not part of the source. Its operations are
  steps (\<open>estep\<close>) whose errors \<open>dberr\<close> are those of the ledger, of the driver, and their wraps. A
  statement is a list of pieces, literal text or a bound value, in the order the code concatenates
  them; \<open>buildSQL\<close> is the text with its placeholders and the arguments. \<open>time.Now()\<close> is an argument.
  SqlSemantics says what the theorems assume of a database: a small syntax of the statements that
  the store sends, their texts, their effect on tables of rows, and the hypothesis \<open>answers\<close> that
  a driver answers given statements so. SqlReference has drivers that do, for the witnesses.

  What the groups of lemmas show.

  \<^item> StoreInv and TxInvariant: the effect of each write operation on the data without the undo log;
    the well-formedness \<open>storeWf\<close> (ids from one counter, indexes exact and sorted); the locale
    \<open>tx_invariant\<close> of an invariant that every write keeps, interpreted for the undo log (so rollback
    restores), for well-formedness and for the growth of history.
  \<^item> Posting, Books, Clawbacks, Reservations, Balanced: the double entry. \<open>moneyInv\<close> ties every
    balance, commission, withdrawal, reversal record and journal entry together by exact integer
    equations; every body of a transaction keeps it.
  \<^item> Chains, Progress: the relation tree, and when store operations succeed.
  \<^item> Guarantees, History, AccrualSpec: the properties of reachable states and of steps.
  \<^item> Commit: the contract of a transaction body that keeps an invariant of the data
    (\<open>commit_contract\<close>), with its composition rules; interpreted for the books, for the links between
    records and journal (Linkage) and for the table of accruals (Quota).
  \<^item> Linkage, Quota: every record has its journal entry and every entry its record; the accruals of an
    item share one base and stay within it.
  \<^item> Pages, Conservation, Reconciled, WithdrawalCheck, AllocationCheck, SelfAudit: a keyset page is a
    stretch of one sorted list; paging visits every row once; each check of the self-check ends on
    every reachable state and reports exactly what is stated there, so the whole self-check is
    decided by three conditions on the data.

  \<^item> SqlRows, SqlFits: the row of each kind of record, that it fits the schema and reads back as the record.
    SqlText: no value reaches the text of a statement. SqlErrors: the classification of errors.
    SqlRetry: the attempts of Update, the waits, and that transactions are all or nothing.
  \<^item> SqlAgrees, SqlAccounts, SqlCommissions, SqlWithdrawals, SqlAppend, SqlReconciled: the SQL store
    against the memory store. A table \<open>holdsMap\<close> when its rows are the entries of a map of the memory
    store; the locales \<open>keyed_table\<close> and \<open>keyed_insert\<close> (instances: the tables of agents, bindings,
    accounts, commissions and withdrawals) say what a guarded update, a lookup and an insert by key do
    to such a table. The version-checked writes of agents and bindings follow from one pattern,
    \<open>putVersioned\<close>; accounts grow in place; commissions and withdrawals move through their states.
    Where the two stores are known to differ (stamps, the numbers in a conflict) the statements say so.
  \<^item> PortSimulation, SqlEngine, SqlLedger: the engine over the SQL store. The locales \<open>agent_port\<close>,
    \<open>relation_port\<close>, \<open>commission_port\<close> and \<open>withdrawal_port\<close> hold what the engine relies on of a store;
    SqlEngine has the handle of an SQL transaction as a port, interprets the locales by it, and runs
    the transactions of both stores side by side; SqlLedger states the operations from their guards
    to the commit. MoneySimulation, SqlMoney, SqlPayouts: the same for operations that move money
    (\<open>money_port\<close>, \<open>payout_port\<close>): the withdrawal, the account and the journal entry of a rejection or
    a payout. SqlFamilies and SqlPayoutRun have the drivers of the witnesses.

  Bounds and fuel. The depth walk is bounded by MaxLevels (a measure). Maintain has the code's own
  round limits, which are arguments. The paging loops of the self-check are \<open>partial_function\<close>s: that
  they end is part of the theorems on the checks. No other loop needs fuel. Ids are unbounded in the
  model; the two checks that read ids back from journal text assume that the id counter has not
  passed int64, which is what the int64 ids of the code allow.

  Not modelled. The databases and their drivers, beyond the hypotheses named above; in particular
  locks and the interleaving of statements of concurrent SQL transactions. The system clock of
  clock.go: the time of a call is an input. Cancellation of contexts (but
  for the wait of a retry), logging, option plumbing, and the marker against nested transactions: no
  part of the money logic. The reasons of field errors (the SQL store's
  classification by phrases takes the texts of errors as a parameter \<open>say\<close>; Errors has those of
  errors.go) and the texts of self-check findings. SHA-256 is a parameter of the model; nothing is
  assumed of it except where a property says so. Of store/sql, parseUintColumn and dueWorkWindow, which nothing calls.
\<close>

end
